(* ===== verification/Prelude.thy ===== *)
theory Prelude
  imports Complex_Main "HOL-Library.Word" "HOL-Library.AList" "HOL-Library.Multiset"
    "HOL-Library.List_Lexorder" "HOL-Library.Char_ord"
begin

text \<open>
  What the component theories share: the development's fact collections, Go's machine integers,
  instants and durations, the functions of package \<^verbatim>\<open>strings\<close> the program calls, association
  lists as Go maps, and the interfaces (locales) that several components provide.

  A Go map is an association list with distinct keys. The order of the list stands for one
  iteration order; Go leaves that order open, so every theorem about a loop over a map is stated
  for an arbitrary list. \<open>AList.update\<close> and \<open>AList.delete\<close> are the assignment and
  \<^verbatim>\<open>delete\<close>.
\<close>

named_theorems go_simps \<open>evaluation rules for the modelled parts of the Go library\<close>

section \<open>Integers\<close>

type_synonym uint32 = "32 word"
type_synonym byte = "8 word"

text \<open>Go's \<^verbatim>\<open>int\<close> and \<^verbatim>\<open>int64\<close>: 64 bits, two's complement, wrapping.\<close>

definition wrap64 :: "int \<Rightarrow> int" where
  "wrap64 x = (x + 2 ^ 63) mod 2 ^ 64 - 2 ^ 63"

lemma wrap64_id: "- (2 ^ 63) \<le> x \<Longrightarrow> x < 2 ^ 63 \<Longrightarrow> wrap64 x = x"
  by (simp add: wrap64_def)

lemma wrap64_range: "- (2 ^ 63) \<le> wrap64 x" "wrap64 x < 2 ^ 63"
proof -
  have "0 \<le> (x + 2 ^ 63) mod 2 ^ 64" and "(x + 2 ^ 63) mod 2 ^ 64 < 2 ^ 64"
    by simp_all
  then show "- (2 ^ 63) \<le> wrap64 x" and "wrap64 x < 2 ^ 63"
    unfolding wrap64_def by simp_all
qed

section \<open>Time\<close>

text \<open>
  An instant is the number of nanoseconds since the Unix epoch, a duration a number of
  nanoseconds. \<open>zero_time\<close> is Go's zero \<^verbatim>\<open>time.Time\<close>, 1 January of the year 1.
\<close>

type_synonym time = int
type_synonym duration = int

definition zero_time :: time where
  "zero_time = - 62135596800 * 1000000000"

definition millisecond :: duration where
  "millisecond = 1000000"

definition second :: duration where
  "second = 1000000000"

definition UnixMilli :: "int \<Rightarrow> time" where
  "UnixMilli ms = ms * millisecond"

text \<open>\<^verbatim>\<open>Time.UnixMilli\<close>; the division rounds down.\<close>

definition to_UnixMilli :: "time \<Rightarrow> int" where
  "to_UnixMilli t = t div millisecond"

lemma to_UnixMilli_UnixMilli [simp]: "to_UnixMilli (UnixMilli ms) = ms"
  by (simp add: to_UnixMilli_def UnixMilli_def millisecond_def)

section \<open>Package \<^verbatim>\<open>strings\<close>\<close>

text \<open>
  A Go string is a byte sequence. Case mapping and white space are those of ASCII; the other
  Unicode letters and spaces are left alone.
\<close>

definition lower_char :: "char \<Rightarrow> char" where
  "lower_char c = (let n = of_char c :: int in if 65 \<le> n \<and> n \<le> 90 then char_of (n + 32) else c)"

definition upper_char :: "char \<Rightarrow> char" where
  "upper_char c = (let n = of_char c :: int in if 97 \<le> n \<and> n \<le> 122 then char_of (n - 32) else c)"

definition is_space :: "char \<Rightarrow> bool" where
  "is_space c = (let n = of_char c :: int in n = 32 \<or> 9 \<le> n \<and> n \<le> 13)"

definition ToLower :: "string \<Rightarrow> string" where
  "ToLower = map lower_char"

definition ToUpper :: "string \<Rightarrow> string" where
  "ToUpper = map upper_char"

definition TrimSpace :: "string \<Rightarrow> string" where
  "TrimSpace s = rev (dropWhile is_space (rev (dropWhile is_space s)))"

definition EqualFold :: "string \<Rightarrow> string \<Rightarrow> bool" where
  "EqualFold a b \<longleftrightarrow> ToLower a = ToLower b"

definition HasPrefix :: "string \<Rightarrow> string \<Rightarrow> bool" where
  "HasPrefix s p \<longleftrightarrow> take (length p) s = p"

definition HasSuffix :: "string \<Rightarrow> string \<Rightarrow> bool" where
  "HasSuffix s p \<longleftrightarrow> HasPrefix (rev s) (rev p)"

fun Contains :: "string \<Rightarrow> string \<Rightarrow> bool" where
  "Contains [] p = (p = [])"
| "Contains (c # s) p = (HasPrefix (c # s) p \<or> Contains s p)"

definition TrimPrefix :: "string \<Rightarrow> string \<Rightarrow> string" where
  "TrimPrefix s p = (if HasPrefix s p then drop (length p) s else s)"

definition TrimSuffix :: "string \<Rightarrow> string \<Rightarrow> string" where
  "TrimSuffix s p = (if HasSuffix s p then take (length s - length p) s else s)"

text \<open>\<^verbatim>\<open>strings.Compare\<close>: the lexicographic order of the bytes.\<close>

definition Compare :: "string \<Rightarrow> string \<Rightarrow> int" where
  "Compare a b = (if a = b then 0 else if a < b then - 1 else 1)"

lemma HasPrefix_iff: "HasPrefix s p \<longleftrightarrow> (\<exists>t. s = p @ t)"
  unfolding HasPrefix_def by (metis append_eq_conv_conj append_take_drop_id)

lemma HasPrefix_append [simp]: "HasPrefix (p @ t) p"
  by (auto simp: HasPrefix_iff)

lemma TrimPrefix_append [simp]: "TrimPrefix (p @ t) p = t"
  by (simp add: TrimPrefix_def)

lemma Contains_append: "Contains (p @ t) p"
  by (cases "p @ t") (auto, metis HasPrefix_append)

lemma Contains_append_left: "Contains t p \<Longrightarrow> Contains (s @ t) p"
  by (induction s) auto

lemma Contains_iff: "Contains s p \<longleftrightarrow> (\<exists>a b. s = a @ p @ b)"
proof
  show "Contains s p \<Longrightarrow> \<exists>a b. s = a @ p @ b"
  proof (induction s)
    case Nil
    then show ?case by simp
  next
    case (Cons c s)
    then show ?case
      by (auto simp: HasPrefix_iff) (metis append_Nil, metis append_Cons)
  qed
qed (auto intro: Contains_append Contains_append_left)

lemma lower_char_idem [simp]: "lower_char (lower_char c) = lower_char c"
proof -
  have "(of_char (char_of (of_char c + 32 :: int)) :: int) = of_char c + 32"
    if "65 \<le> (of_char c :: int)" "(of_char c :: int) \<le> 90"
    using that by (simp add: of_char_of)
  then show ?thesis by (auto simp: lower_char_def Let_def)
qed

lemma ToLower_idem [simp]: "ToLower (ToLower s) = ToLower s"
  by (simp add: ToLower_def)

lemma EqualFold_refl [simp]: "EqualFold s s"
  by (simp add: EqualFold_def)

lemma EqualFold_sym: "EqualFold a b \<Longrightarrow> EqualFold b a"
  by (simp add: EqualFold_def)

lemma dropWhile_eq_self: "s = [] \<or> \<not> P (hd s) \<Longrightarrow> dropWhile P s = s"
  by (cases s) auto

lemma dropWhile_hd: "dropWhile P s = [] \<or> \<not> P (hd (dropWhile P s))"
  by (induction s) auto

lemma dropWhile_rev_hd:
  "dropWhile P (rev s) \<noteq> [] \<Longrightarrow> s = [] \<or> \<not> P (hd s) \<Longrightarrow> \<not> P (last (dropWhile P (rev s)))"
  by (cases s) (auto simp: dropWhile_append split: if_splits)

lemma TrimSpace_idem [simp]: "TrimSpace (TrimSpace s) = TrimSpace s"
proof -
  let ?a = "dropWhile is_space s"
  let ?b = "dropWhile is_space (rev ?a)"
  have "rev ?b = [] \<or> \<not> is_space (hd (rev ?b))"
    using dropWhile_rev_hd [of is_space ?a] dropWhile_hd [of is_space s] by (auto simp: hd_rev)
  then have "dropWhile is_space (rev ?b) = rev ?b"
    by (rule dropWhile_eq_self)
  moreover have "dropWhile is_space ?b = ?b"
    by (rule dropWhile_eq_self [OF dropWhile_hd])
  ultimately show ?thesis
    by (simp add: TrimSpace_def)
qed

lemma is_space_lower [simp]: "is_space (lower_char c) = is_space c"
proof -
  have "(of_char (char_of (of_char c + 32 :: int)) :: int) = of_char c + 32"
    if "65 \<le> (of_char c :: int)" "(of_char c :: int) \<le> 90"
    using that by (simp add: of_char_of)
  then show ?thesis by (auto simp: lower_char_def is_space_def Let_def)
qed

lemma ToLower_TrimSpace: "TrimSpace (ToLower s) = ToLower (TrimSpace s)"
proof -
  have drop: "dropWhile is_space (map lower_char xs) = map lower_char (dropWhile is_space xs)" for xs
    by (induction xs) auto
  show ?thesis
    by (simp only: TrimSpace_def ToLower_def drop rev_map)
qed

section \<open>Interfaces\<close>

subsection \<open>Encoders and decoders\<close>

locale codec =
  fixes enc :: "'a \<Rightarrow> 'b" and dec :: "'b \<Rightarrow> 'e + 'a"
  assumes dec_enc: "dec (enc x) = Inr x"
begin

lemma enc_eq_iff: "enc x = enc y \<longleftrightarrow> x = y"
  by (metis dec_enc Inr_inject)

lemma inj_enc: "inj enc"
  by (simp add: inj_on_def enc_eq_iff)

end

text \<open>A codec whose decoder accepts nothing but encodings.\<close>

locale exact_codec = codec +
  assumes enc_dec: "dec y = Inr x \<Longrightarrow> enc x = y"
begin

lemma dec_iff: "dec y = Inr x \<longleftrightarrow> y = enc x"
  by (metis dec_enc enc_dec)

lemma dec_inj: "dec y = Inr x \<Longrightarrow> dec z = Inr x \<Longrightarrow> y = z"
  by (metis enc_dec)

end

subsection \<open>Transition systems with an invariant\<close>

locale invariant_system =
  fixes init :: "'s \<Rightarrow> bool" and step :: "'s \<Rightarrow> 's \<Rightarrow> bool" and inv :: "'s \<Rightarrow> bool"
  assumes inv_init: "init s \<Longrightarrow> inv s"
    and inv_step: "inv s \<Longrightarrow> step s t \<Longrightarrow> inv t"
begin

lemma inv_steps: "step\<^sup>*\<^sup>* s t \<Longrightarrow> inv s \<Longrightarrow> inv t"
  by (induction rule: rtranclp_induct) (auto intro: inv_step)

lemma inv_reachable: "init s \<Longrightarrow> step\<^sup>*\<^sup>* s t \<Longrightarrow> inv t"
  by (blast intro: inv_init inv_steps)

end

section \<open>Association lists\<close>

lemma map_of_update [simp]: "map_of (AList.update k v m) = (map_of m)(k \<mapsto> v)"
  by (rule update_conv')

lemma map_of_delete [simp]: "map_of (AList.delete k m) = (map_of m)(k := None)"
  by (rule delete_conv')

lemma dom_map_of_keys: "dom (map_of m) = fst ` set m"
  by (rule dom_map_of_conv_image_fst)

lemma sum_list_update_le:
  fixes f :: "'v \<Rightarrow> int"
  assumes "\<And>x. x \<in> set m \<Longrightarrow> 0 \<le> f (snd x)"
  shows "(\<Sum>x\<leftarrow>AList.update k v m. f (snd x)) \<le> (\<Sum>x\<leftarrow>m. f (snd x)) + f v"
  using assms
proof (induction m)
  case Nil
  then show ?case by simp
next
  case (Cons p m)
  then have "0 \<le> f (snd p)" by simp
  with Cons show ?case by (cases p) auto
qed

lemma sum_list_delete_le:
  fixes f :: "'v \<Rightarrow> int"
  assumes "\<And>x. x \<in> set m \<Longrightarrow> 0 \<le> f (snd x)"
  shows "(\<Sum>x\<leftarrow>AList.delete k m. f (snd x)) \<le> (\<Sum>x\<leftarrow>m. f (snd x))"
  using assms
proof (induction m)
  case Nil
  then show ?case by simp
next
  case (Cons p m)
  then have "0 \<le> f (snd p)" by simp
  with Cons show ?case by (cases p) auto
qed

text \<open>Replacing the value of a present key changes the sum by the difference of the values.\<close>

lemma sum_list_update_present:
  fixes f :: "'v \<Rightarrow> int"
  assumes "map_of m k = Some w"
  shows "(\<Sum>x\<leftarrow>AList.update k v m. f (snd x)) = (\<Sum>x\<leftarrow>m. f (snd x)) - f w + f v"
  using assms by (induction m) (auto split: if_splits)

lemma set_update_subset: "x \<in> set (AList.update k v m) \<Longrightarrow> x = (k, v) \<or> x \<in> set m"
  by (induction m) (auto split: if_splits)

lemma set_delete_subset: "x \<in> set (AList.delete k m) \<Longrightarrow> x \<in> set m"
  by (induction m) (auto split: if_splits)

end
