(* ===== verification/Order_Id.thy ===== *)
theory Order_Id
  imports Prelude
begin

text \<open>
  \<^verbatim>\<open>orderid/orderid.go\<close>: the order fingerprint that is sent to the venue as the client
  order id. It is 16 bytes, three big-endian 32-bit numbers and their CRC32, printed as
  \<^verbatim>\<open>0x\<close> and 32 lower-case hexadecimal digits. The theory models the encoder and the decoder,
  with the parts of \<^verbatim>\<open>encoding/binary\<close>, \<^verbatim>\<open>encoding/hex\<close> and \<^verbatim>\<open>hash/crc32\<close>
  they call, and shows that both levels are codecs: decoding inverts encoding, and the binary
  decoder accepts exactly the encodings.
\<close>

unbundle bit_operations_syntax

record OrderId =
  BotID :: uint32
  DealID :: uint32
  BotEventID :: uint32

section \<open>\<^verbatim>\<open>encoding/binary\<close>\<close>

definition AppendUint32 :: "byte list \<Rightarrow> uint32 \<Rightarrow> byte list" where
  "AppendUint32 b v =
     b @ [ucast (drop_bit 24 v), ucast (drop_bit 16 v), ucast (drop_bit 8 v), ucast v]"

text \<open>\<^verbatim>\<open>BigEndian.Uint32\<close> reads the first four bytes and panics on a shorter slice (\<open>None\<close>).\<close>

fun Uint32 :: "byte list \<Rightarrow> uint32 option" where
  "Uint32 (b0 # b1 # b2 # b3 # _) =
     Some (ucast b3 OR push_bit 8 (ucast b2) OR push_bit 16 (ucast b1) OR push_bit 24 (ucast b0))"
| "Uint32 _ = None"

section \<open>\<^verbatim>\<open>hash/crc32\<close> with the IEEE polynomial\<close>

definition crc_shift :: "uint32 \<Rightarrow> uint32" where
  "crc_shift c = (if bit c 0 then 0xEDB88320 XOR drop_bit 1 c else drop_bit 1 c)"

definition crc_byte :: "uint32 \<Rightarrow> byte \<Rightarrow> uint32" where
  "crc_byte c b = (crc_shift ^^ 8) (c XOR ucast b)"

definition Checksum :: "byte list \<Rightarrow> uint32" where
  "Checksum bs = NOT (foldl crc_byte 0xFFFFFFFF bs)"

section \<open>\<^verbatim>\<open>encoding/hex\<close>\<close>

datatype hex_error = InvalidByteError char | ErrLength

definition hextable :: string where
  "hextable = ''0123456789abcdef''"

definition hex_digit :: "byte \<Rightarrow> char" where
  "hex_digit n = hextable ! unat n"

fun EncodeToString :: "byte list \<Rightarrow> string" where
  "EncodeToString [] = []"
| "EncodeToString (b # bs) = hex_digit (drop_bit 4 b) # hex_digit (b AND 15) # EncodeToString bs"

definition reverseHex :: "char \<Rightarrow> byte option" where
  "reverseHex c = (let n = of_char c :: int in
     if 48 \<le> n \<and> n \<le> 57 then Some (of_int (n - 48))
     else if 97 \<le> n \<and> n \<le> 102 then Some (of_int (n - 87))
     else if 65 \<le> n \<and> n \<le> 70 then Some (of_int (n - 55))
     else None)"

fun DecodeString :: "string \<Rightarrow> hex_error + byte list" where
  "DecodeString [] = Inr []"
| "DecodeString [c] = (case reverseHex c of None \<Rightarrow> Inl (InvalidByteError c) | Some _ \<Rightarrow> Inl ErrLength)"
| "DecodeString (p # q # s) =
     (case reverseHex p of
        None \<Rightarrow> Inl (InvalidByteError p)
      | Some a \<Rightarrow>
          (case reverseHex q of
             None \<Rightarrow> Inl (InvalidByteError q)
           | Some b \<Rightarrow>
               (case DecodeString s of
                  Inl e \<Rightarrow> Inl e
                | Inr bs \<Rightarrow> Inr ((push_bit 4 a OR b) # bs))))"

section \<open>The order id\<close>

definition AsHex :: "OrderId \<Rightarrow> byte list" where
  "AsHex oid =
     (let out = [];
          out = AppendUint32 out (BotID oid);
          out = AppendUint32 out (DealID oid);
          out = AppendUint32 out (BotEventID oid)
      in AppendUint32 out (Checksum out))"

definition Hex :: "OrderId \<Rightarrow> string" where
  "Hex oid = ''0x'' @ EncodeToString (AsHex oid)"

definition HexAsPointer :: "OrderId \<Rightarrow> string option" where
  "HexAsPointer oid = Some (Hex oid)"

datatype orderid_error =
  ErrHexTooShort | ErrIncorrectChecksum | CouldNotDecode hex_error | SlicePanic

text \<open>\<^verbatim>\<open>v[i:j]\<close>\<close>

definition slice :: "nat \<Rightarrow> nat \<Rightarrow> 'a list \<Rightarrow> 'a list" where
  "slice i j v = take (j - i) (drop i v)"

definition FromHex :: "byte list \<Rightarrow> orderid_error + OrderId" where
  "FromHex v =
     (if length v \<noteq> 16 then Inl ErrHexTooShort
      else (case Uint32 (slice 12 16 v) of
          None \<Rightarrow> Inl SlicePanic
        | Some crc \<Rightarrow>
            if Checksum (slice 0 12 v) \<noteq> crc then Inl ErrIncorrectChecksum
            else (case (Uint32 (slice 0 4 v), Uint32 (slice 4 8 v), Uint32 (slice 8 12 v)) of
                (Some b, Some d, Some e) \<Rightarrow> Inr \<lparr>BotID = b, DealID = d, BotEventID = e\<rparr>
              | _ \<Rightarrow> Inl SlicePanic)))"

definition FromHexString :: "string \<Rightarrow> orderid_error + OrderId" where
  "FromHexString s =
     (let s = TrimPrefix s ''0x'';
          s = filter (\<lambda>c. c \<noteq> CHR '' '') s
      in case DecodeString s of
           Inl e \<Rightarrow> Inl (CouldNotDecode e)
         | Inr b \<Rightarrow> FromHex b)"

section \<open>Big-endian numbers\<close>

lemma Uint32_Append [simp]:
  "Uint32 [ucast (drop_bit 24 v), ucast (drop_bit 16 v), ucast (drop_bit 8 v), ucast v] = Some v"
proof -
  let ?w = "ucast (ucast v :: byte) OR push_bit 8 (ucast (ucast (drop_bit 8 v) :: byte)) OR
      push_bit 16 (ucast (ucast (drop_bit 16 v) :: byte)) OR
      push_bit 24 (ucast (ucast (drop_bit 24 v) :: byte)) :: uint32"
  have "?w = v"
  proof (rule bit_word_eqI)
    fix n
    assume "n < LENGTH(32)"
    then consider "n < 8" | "8 \<le> n" "n < 16" | "16 \<le> n" "n < 24" | "24 \<le> n" "n < 32"
      by fastforce
    then show "bit ?w n = bit v n"
      by cases (auto simp: bit_simps)
  qed
  then show ?thesis by simp
qed

lemma Append_Uint32:
  assumes "Uint32 [a, b, c, d] = Some v"
  shows "[ucast (drop_bit 24 v), ucast (drop_bit 16 v), ucast (drop_bit 8 v), ucast v] = [a, b, c, d]"
proof -
  have v: "v = ucast d OR push_bit 8 (ucast c) OR push_bit 16 (ucast b) OR push_bit 24 (ucast a)"
    using assms by simp
  have "ucast (drop_bit 24 v) = a" "ucast (drop_bit 16 v) = b"
    "ucast (drop_bit 8 v) = c" "ucast v = d"
    unfolding v by (rule bit_word_eqI; auto simp: bit_simps dest: bit_imp_le_length)+
  then show ?thesis by simp
qed

lemma length_4_cases:
  assumes "length (xs :: 'a list) = 4"
  obtains a b c d where "xs = [a, b, c, d]"
  using assms by (auto simp: length_Suc_conv eval_nat_numeral)

lemma AppendUint32_Uint32:
  assumes "length xs = 4" and "Uint32 xs = Some v"
  shows "AppendUint32 [] v = xs"
  using assms(1)
proof (rule length_4_cases)
  fix a b c d
  assume "xs = [a, b, c, d]"
  with assms(2) Append_Uint32 [of a b c d v] show ?thesis
    by (simp only: AppendUint32_def append_Nil)
qed

lemma slices_of_16:
  assumes "length v = 16"
  shows "v = slice 0 4 v @ slice 4 8 v @ slice 8 12 v @ slice 12 16 v"
    and "length (slice 0 4 v) = 4" and "length (slice 4 8 v) = 4"
    and "length (slice 8 12 v) = 4" and "length (slice 12 16 v) = 4"
    and "slice 0 12 v = slice 0 4 v @ slice 4 8 v @ slice 8 12 v"
proof -
  have *: "drop n v = take 4 (drop n v) @ drop (n + 4) v" for n
    by (metis add.commute append_take_drop_id drop_drop)
  show "v = slice 0 4 v @ slice 4 8 v @ slice 8 12 v @ slice 12 16 v"
    using *[of 0] *[of 4] *[of 8] assms by (simp add: slice_def)
  show "slice 0 12 v = slice 0 4 v @ slice 4 8 v @ slice 8 12 v"
    using take_add [of 4 8 v] take_add [of 4 4 "drop 4 v"] by (simp add: slice_def)
qed (use assms in \<open>simp_all add: slice_def\<close>)

section \<open>The binary codec\<close>

lemma length_AsHex [simp]: "length (AsHex oid) = 16"
  by (simp add: AsHex_def AppendUint32_def Let_def)

lemma FromHex_AsHex: "FromHex (AsHex oid) = Inr oid"
  by (simp add: FromHex_def AsHex_def AppendUint32_def slice_def Let_def del: Uint32.simps)

lemma AsHex_FromHex:
  assumes "FromHex v = Inr oid"
  shows "AsHex oid = v"
proof -
  have len: "length v = 16"
    using assms by (auto simp: FromHex_def split: if_splits)
  note sl = slices_of_16 [OF len]
  have "Uint32 (slice 0 4 v) = Some (BotID oid)" and "Uint32 (slice 4 8 v) = Some (DealID oid)"
    and "Uint32 (slice 8 12 v) = Some (BotEventID oid)"
    and "Uint32 (slice 12 16 v) = Some (Checksum (slice 0 12 v))"
    using assms by (auto simp: FromHex_def split: if_splits option.splits)
  then have "AppendUint32 [] (BotID oid) = slice 0 4 v"
    and "AppendUint32 [] (DealID oid) = slice 4 8 v"
    and "AppendUint32 [] (BotEventID oid) = slice 8 12 v"
    and "AppendUint32 [] (Checksum (slice 0 12 v)) = slice 12 16 v"
    using sl(2-5) by (simp_all add: AppendUint32_Uint32)
  then show ?thesis
    using sl(1,6) by (simp add: AsHex_def AppendUint32_def Let_def)
qed

interpretation orderid_bytes: exact_codec AsHex FromHex
  by unfold_locales (simp_all add: FromHex_AsHex AsHex_FromHex)

section \<open>The printed form\<close>

lemma hextable_digits: "list_all (\<lambda>k. reverseHex (hextable ! k) = Some (of_nat k)) [0..<16]"
  by code_simp

lemma reverseHex_hex_digit: "n < 16 \<Longrightarrow> reverseHex (hex_digit n) = Some n"
  using hextable_digits by (auto simp: list_all_iff hex_digit_def word_less_nat_alt)

lemma hex_digit_no_space: "list_all (\<lambda>c. c \<noteq> CHR '' '') hextable"
  by code_simp

lemma hex_digit_neq_space [simp]: "n < 16 \<Longrightarrow> hex_digit n \<noteq> CHR '' ''"
  using hex_digit_no_space
  by (auto simp: hex_digit_def list_all_length word_less_nat_alt hextable_def)

lemma high_nibble_less: "drop_bit 4 (b :: byte) < 16"
proof -
  have "unat (drop_bit 4 b) = unat b div 16"
    unfolding unat_drop_bit_eq by (simp add: drop_bit_eq_div)
  moreover have "unat b < 256"
    using unsigned_less [of b, where 'a = nat] by simp
  ultimately show ?thesis
    by (simp add: word_less_nat_alt less_mult_imp_div_less)
qed

lemma low_nibble_less: "(b :: byte) AND 15 < 16"
  using word_and_le1 [of b 15] by (simp add: word_le_nat_alt word_less_nat_alt)

lemma nibbles: "push_bit 4 (drop_bit 4 b) OR (b AND 15) = (b :: byte)"
proof -
  have "push_bit 4 (drop_bit 4 b) OR (b AND mask 4) = b"
    by (rule bit_word_eqI) (auto simp: bit_simps)
  then show ?thesis by (simp add: mask_eq_exp_minus_1)
qed

lemma DecodeString_Encode: "DecodeString (EncodeToString bs) = Inr bs"
  by (induction bs)
    (simp_all add: reverseHex_hex_digit high_nibble_less low_nibble_less nibbles)

lemma filter_space_Encode: "filter (\<lambda>c. c \<noteq> CHR '' '') (EncodeToString bs) = EncodeToString bs"
  by (induction bs) (simp_all add: high_nibble_less low_nibble_less)

lemma length_EncodeToString [simp]: "length (EncodeToString bs) = 2 * length bs"
  by (induction bs) auto

lemma length_Hex [simp]: "length (Hex oid) = 34"
  by (simp add: Hex_def)

lemma FromHexString_Hex: "FromHexString (Hex oid) = Inr oid"
  using TrimPrefix_append [of "''0x''" "EncodeToString (AsHex oid)"]
  by (simp add: FromHexString_def Hex_def filter_space_Encode DecodeString_Encode FromHex_AsHex)

interpretation orderid_hex: codec Hex FromHexString
  by unfold_locales (rule FromHexString_Hex)

text \<open>
  C21: Decoding the printed client order id gives back exactly the bot, deal and event numbers it
  was built from, so two orders never share a client order id, and the printed form always has
  the 34 characters the venue expects.
\<close>

theorem orderid_roundtrip:
  "FromHexString (Hex oid) = Inr oid \<and> (Hex oid = Hex oid' \<longleftrightarrow> oid = oid') \<and> length (Hex oid) = 34"
  using orderid_hex.dec_enc [of oid] orderid_hex.enc_eq_iff [of oid oid'] by simp

text \<open>
  The binary decoder accepts a byte string if and only if it is the 16-byte encoding of an
  order id, and then returns that id. So every single corruption of an id that keeps its checksum
  valid is itself the encoding of the id it decodes to; nothing is accepted in two forms.
\<close>

theorem FromHex_accepts_exactly_encodings:
  "FromHex v = Inr oid \<longleftrightarrow> v = AsHex oid"
  by (rule orderid_bytes.dec_iff)

lemma AppendUint32_Nil_inj: "AppendUint32 [] a = AppendUint32 [] b \<longleftrightarrow> a = b"
  unfolding AppendUint32_def by (metis Uint32_Append append_Nil option.inject)

text \<open>
  The decoder's verdict on every input: a length other than 16 is reported as too short, a
  wrong checksum as such, and otherwise the id is read; the slice reads inside never panic.
\<close>

theorem FromHex_total:
  "if length v \<noteq> 16 then FromHex v = Inl ErrHexTooShort
   else if AppendUint32 [] (Checksum (take 12 v)) \<noteq> drop 12 v
     then FromHex v = Inl ErrIncorrectChecksum
   else \<exists>oid. FromHex v = Inr oid \<and> AsHex oid = v"
proof (cases "length v = 16")
  case False
  then show ?thesis by (simp add: FromHex_def)
next
  case True
  note sl = slices_of_16 [OF True]
  obtain a b c d where u: "Uint32 (slice 0 4 v) = Some a" "Uint32 (slice 4 8 v) = Some b"
      "Uint32 (slice 8 12 v) = Some c" "Uint32 (slice 12 16 v) = Some d"
    using sl(2-5) by (auto elim!: length_4_cases)
  have "AppendUint32 [] d = drop 12 v"
    using AppendUint32_Uint32 [OF sl(5) u(4)] True by (simp add: slice_def)
  then have crc: "AppendUint32 [] (Checksum (take 12 v)) = drop 12 v \<longleftrightarrow> Checksum (take 12 v) = d"
    by (metis AppendUint32_Nil_inj)
  show ?thesis
  proof (cases "Checksum (take 12 v) = d")
    case c: True
    then obtain oid where "FromHex v = Inr oid"
      using True u by (auto simp: FromHex_def slice_def)
    then show ?thesis using True crc c AsHex_FromHex by auto
  next
    case False
    then show ?thesis using True crc u by (simp add: FromHex_def slice_def)
  qed
qed

end
