(* ===== verification/Float64.thy ===== *)
theory Float64
  imports Prelude "HOL-Library.Log_Nat"
begin

text \<open>
  Go's \<^verbatim>\<open>float64\<close>: IEEE 754 binary64 with round-to-nearest, ties-to-even.

  A value is a finite rational, one of the two infinities or NaN. Every arithmetic operation
  computes the exact rational result and rounds it with \<open>fl64\<close>, so the model has the code's
  rounding errors, its overflow to infinity and its gradual underflow. Comparisons are false as
  soon as one operand is NaN. The sign of a zero is the only part of the format left out: no
  function of the program that is modelled here can observe it.

  The theory gives the rounding function, the arithmetic and comparison operators, the functions
  of package \<^verbatim>\<open>math\<close> the program calls, and the facts the components rest on: rounding is
  monotone, idempotent, odd, and exact on every value that fits into 53 bits.
\<close>

section \<open>Rounding a rational to 53 significant bits\<close>

definition pow2 :: "int \<Rightarrow> rat" where
  "pow2 e = 2 powi e"

text \<open>The exponent of the leading bit, computed from the bit lengths of the fraction.\<close>

definition flog2 :: "rat \<Rightarrow> int" where
  "flog2 x = (let (p, q) = quotient_of x; k = bitlen p - bitlen q
              in if pow2 k \<le> x then k else k - 1)"

text \<open>For evaluation: powers of two by repeated squaring.\<close>

function ipow2 :: "int \<Rightarrow> int" where
  "ipow2 e = (if e \<le> 0 then 1
     else let h = ipow2 (e div 2) in if even e then h * h else 2 * (h * h))"
  by auto

termination
  by (relation "measure nat") auto

declare ipow2.simps [simp del]

lemma ipow2_eq: "ipow2 e = 2 ^ nat e"
proof (induction e rule: ipow2.induct)
  case (1 e)
  show ?case
  proof (cases "e \<le> 0")
    case True
    then show ?thesis by (subst ipow2.simps) simp
  next
    case False
    let ?h = "nat (e div 2)"
    have half: "ipow2 (e div 2) = 2 ^ ?h" using 1 False by simp
    have "nat e = (if even e then ?h + ?h else Suc (?h + ?h))"
    proof (cases "even e")
      case True
      then obtain k where "e = 2 * k" by (elim evenE)
      with False show ?thesis by simp
    next
      case odd: False
      then obtain k where "e = 2 * k + 1" by (elim oddE)
      with False show ?thesis by simp
    qed
    then have "(2 :: int) ^ nat e = (if even e then 2 ^ ?h * 2 ^ ?h else 2 * (2 ^ ?h * 2 ^ ?h))"
      by (simp add: power_add)
    then show ?thesis
      using False half by (subst ipow2.simps) (simp add: Let_def)
  qed
qed

lemma pow2_code [code]:
  "pow2 e = (if 0 \<le> e then of_int (ipow2 e) else 1 / of_int (ipow2 (- e)))"
  by (simp add: pow2_def ipow2_eq power_int_def inverse_eq_divide power_one_over)

text \<open>Round to the nearest integer, ties to the even one.\<close>

definition rhe :: "rat \<Rightarrow> int" where
  "rhe y = (let f = \<lfloor>y\<rfloor>; d = y - of_int f in
     if d < 1/2 then f else if d > 1/2 then f + 1 else if even f then f else f + 1)"

text \<open>The exponent of the last place kept: 53 bits, but never below the smallest subnormal.\<close>

definition qexp :: "rat \<Rightarrow> int" where
  "qexp x = max (- 1074) (flog2 \<bar>x\<bar> - 52)"

definition rnd :: "rat \<Rightarrow> rat" where
  "rnd x = (if x = 0 then 0 else let q = qexp x in of_int (rhe (x / pow2 q)) * pow2 q)"

lemma pow2_pos [simp]: "0 < pow2 e"
  by (simp add: pow2_def)

lemma pow2_ge0 [simp]: "0 \<le> pow2 e"
  by (simp add: pow2_def)

lemma pow2_nz [simp]: "pow2 e \<noteq> 0"
  by (simp add: pow2_def)

lemma pow2_add: "pow2 (a + b) = pow2 a * pow2 b"
  by (simp add: pow2_def power_int_add)

lemma pow2_diff: "pow2 (a - b) = pow2 a / pow2 b"
  by (simp add: pow2_def power_int_diff)

lemma pow2_nat: "0 \<le> e \<Longrightarrow> pow2 e = 2 ^ nat e"
  by (simp add: pow2_def power_int_def)

lemma pow2_mono: "a \<le> b \<Longrightarrow> pow2 a \<le> pow2 b"
  by (simp add: pow2_def power_int_increasing)

lemma pow2_less_iff [simp]: "pow2 a < pow2 b \<longleftrightarrow> a < b"
  by (metis linorder_not_less pow2_def pow2_mono power_int_strict_increasing one_less_numeral_iff
      semiring_norm(76))

lemma pow2_int: "0 \<le> e \<Longrightarrow> pow2 e = of_int (2 ^ nat e)"
  by (simp add: pow2_nat)

lemma bitlen_pow2_bounds:
  assumes "0 < p"
  shows "pow2 (bitlen p - 1) \<le> of_int p" and "of_int p < pow2 (bitlen p)"
proof -
  have len: "0 < bitlen p"
    using assms by (simp add: bitlen_alt_def)
  have "2 ^ nat (bitlen p - 1) \<le> p" and "p < 2 ^ nat (bitlen p)"
    using bitlen_bounds [OF assms] by simp_all
  then show "pow2 (bitlen p - 1) \<le> of_int p" and "of_int p < pow2 (bitlen p)"
    using len by (simp_all add: pow2_int del: of_int_power)
qed

lemma flog2_bounds:
  assumes "0 < x"
  shows "pow2 (flog2 x) \<le> x" and "x < pow2 (flog2 x + 1)"
proof -
  obtain p q where pq: "quotient_of x = (p, q)"
    by (cases "quotient_of x")
  have x: "x = of_int p / of_int q" and q: "0 < q"
    using quotient_of_div [OF pq] quotient_of_denom_pos [OF pq] by auto
  with assms have p: "0 < p"
    by (simp add: zero_less_divide_iff)
  define a b where "a = bitlen p" and "b = bitlen q"
  note pb = bitlen_pow2_bounds [OF p, folded a_def]
  note qb = bitlen_pow2_bounds [OF q, folded b_def]
  have q0: "(0::rat) < of_int q"
    using q by simp
  have "pow2 (a - b - 1) = pow2 (a - 1) / pow2 b"
    by (simp add: pow2_diff [symmetric] algebra_simps)
  also have "\<dots> \<le> of_int p / of_int q"
    using pb(1) qb(2) q0 p by (intro frac_le) auto
  finally have lo: "pow2 (a - b - 1) \<le> x"
    using x by simp
  have "of_int p / of_int q < pow2 a / of_int q"
    using pb(2) q0 by (simp add: divide_strict_right_mono)
  also have "\<dots> \<le> pow2 a / pow2 (b - 1)"
    using qb(1) q0 by (intro divide_left_mono) auto
  also have "\<dots> = pow2 (a - b + 1)"
    by (simp add: pow2_diff [symmetric] algebra_simps)
  finally have hi: "x < pow2 (a - b + 1)"
    using x by simp
  show "pow2 (flog2 x) \<le> x" and "x < pow2 (flog2 x + 1)"
    using lo hi by (auto simp: flog2_def pq a_def b_def Let_def algebra_simps)
qed

lemma flog2_mono:
  assumes "0 < x" and "x \<le> y"
  shows "flog2 x \<le> flog2 y"
proof -
  have "pow2 (flog2 x) < pow2 (flog2 y + 1)"
    using flog2_bounds(1) [OF assms(1)] flog2_bounds(2) [of y] assms by linarith
  then show ?thesis by simp
qed

lemma flog2_unique:
  assumes "pow2 e \<le> x" and "x < pow2 (e + 1)"
  shows "flog2 x = e"
proof -
  have x: "0 < x"
    using assms(1) pow2_pos [of e] by linarith
  have "pow2 (flog2 x) < pow2 (e + 1)" and "pow2 e < pow2 (flog2 x + 1)"
    using flog2_bounds [OF x] assms by linarith+
  then show ?thesis by simp
qed

section \<open>Rounding to the nearest integer\<close>

lemma rhe_cases: "rhe y = \<lfloor>y\<rfloor> \<or> rhe y = \<lfloor>y\<rfloor> + 1"
  by (auto simp: rhe_def Let_def)

lemma rhe_of_int [simp]: "rhe (of_int n) = n"
  by (simp add: rhe_def)

lemma rhe_mono:
  assumes "x \<le> y"
  shows "rhe x \<le> rhe y"
proof (cases "\<lfloor>x\<rfloor> = \<lfloor>y\<rfloor>")
  case True
  with assms show ?thesis by (auto simp: rhe_def Let_def)
next
  case False
  with floor_mono [OF assms] have "\<lfloor>x\<rfloor> + 1 \<le> \<lfloor>y\<rfloor>" by linarith
  with rhe_cases [of x] rhe_cases [of y] show ?thesis by linarith
qed

lemma floor_minus_nonint:
  fixes y :: rat
  assumes "y \<noteq> of_int \<lfloor>y\<rfloor>"
  shows "\<lfloor>- y\<rfloor> = - \<lfloor>y\<rfloor> - 1"
  using assms by (metis ceiling_altdef ceiling_def minus_diff_commute minus_minus
      minus_add_distrib uminus_add_conv_diff)

lemma rhe_minus [simp]: "rhe (- y) = - rhe y"
proof (cases "y = of_int \<lfloor>y\<rfloor>")
  case True
  then show ?thesis by (metis of_int_minus rhe_of_int)
next
  case False
  then show ?thesis by (auto simp: rhe_def Let_def floor_minus_nonint)
qed

lemma rhe_le_int: "y \<le> of_int n \<Longrightarrow> rhe y \<le> n"
  using rhe_mono [of y "of_int n"] by simp

lemma rhe_ge_int: "of_int n \<le> y \<Longrightarrow> n \<le> rhe y"
  using rhe_mono [of "of_int n" y] by simp

section \<open>Facts about rounding\<close>

lemma rnd_0 [simp]: "rnd 0 = 0"
  by (simp add: rnd_def)

lemma rnd_minus [simp]: "rnd (- x) = - rnd x"
  by (simp add: rnd_def qexp_def Let_def)

lemma qexp_ge: "- 1074 \<le> qexp x"
  by (simp add: qexp_def)

lemma qexp_mono: "0 < x \<Longrightarrow> x \<le> y \<Longrightarrow> qexp x \<le> qexp y"
  using flog2_mono [of x y] by (simp add: qexp_def)

lemma less_pow2_qexp:
  assumes "0 < x"
  shows "x < pow2 (qexp x + 53)"
proof -
  have "flog2 x + 1 \<le> qexp x + 53"
    using assms by (simp add: qexp_def)
  from pow2_mono [OF this] flog2_bounds(2) [OF assms] show ?thesis
    by linarith
qed

text \<open>
  A multiple of the last place that lies above (below) a number lies above (below) its rounding.
\<close>

lemma rnd_le_multiple:
  assumes "0 < x" and "x \<le> of_int n * pow2 (qexp x)"
  shows "rnd x \<le> of_int n * pow2 (qexp x)"
proof -
  have "x / pow2 (qexp x) \<le> of_int n"
    using assms(2) by (simp add: pos_divide_le_eq)
  then have "rhe (x / pow2 (qexp x)) \<le> n"
    by (rule rhe_le_int)
  with assms(1) show ?thesis
    by (simp add: rnd_def Let_def)
qed

lemma rnd_ge_multiple:
  assumes "0 < x" and "of_int n * pow2 (qexp x) \<le> x"
  shows "of_int n * pow2 (qexp x) \<le> rnd x"
proof -
  have "of_int n \<le> x / pow2 (qexp x)"
    using assms(2) by (simp add: pos_le_divide_eq)
  then have "n \<le> rhe (x / pow2 (qexp x))"
    by (rule rhe_ge_int)
  with assms(1) show ?thesis
    by (simp add: rnd_def Let_def)
qed

lemma pow2_as_multiple: "q \<le> e \<Longrightarrow> pow2 e = of_int (2 ^ nat (e - q)) * pow2 q"
  using pow2_int [of "e - q"] pow2_add [of "e - q" q] by simp

lemma rnd_nonneg: "0 \<le> x \<Longrightarrow> 0 \<le> rnd x"
  using rnd_ge_multiple [of x 0] by (cases "x = 0") auto

lemma rnd_mono_pos:
  assumes "0 < x" and "x \<le> y"
  shows "rnd x \<le> rnd y"
proof (cases "qexp x = qexp y")
  case True
  then have "rhe (x / pow2 (qexp x)) \<le> rhe (y / pow2 (qexp y))"
    using assms by (intro rhe_mono) (simp add: divide_right_mono)
  with assms True show ?thesis
    by (simp add: rnd_def Let_def)
next
  case False
  define e where "e = qexp y + 52"
  have lt: "qexp x < qexp y"
    using False qexp_mono [OF assms] by simp
  then have qy: "qexp y = flog2 y - 52"
    using qexp_ge [of x] assms by (auto simp: qexp_def)
  have py: "pow2 e \<le> y"
    using flog2_bounds(1) [of y] assms qy by (simp add: e_def)
  have px: "x \<le> pow2 e"
    using less_pow2_qexp [OF assms(1)] pow2_mono [of "qexp x + 53" e] lt by (simp add: e_def)
  have "rnd x \<le> pow2 e"
    using rnd_le_multiple [OF assms(1), of "2 ^ nat (e - qexp x)"] px lt
      pow2_as_multiple [of "qexp x" e] by (simp add: e_def)
  moreover have "pow2 e \<le> rnd y"
    using rnd_ge_multiple [of y "2 ^ nat (e - qexp y)"] py assms
      pow2_as_multiple [of "qexp y" e] by (simp add: e_def)
  ultimately show ?thesis by linarith
qed

lemma rnd_mono:
  assumes "x \<le> y"
  shows "rnd x \<le> rnd y"
proof -
  consider "0 < x" | "x \<le> 0" "0 \<le> y" | "y < 0"
    by linarith
  then show ?thesis
  proof cases
    case 1
    then show ?thesis using assms by (rule rnd_mono_pos)
  next
    case 2
    then show ?thesis using rnd_nonneg [of y] rnd_nonneg [of "- x"] by simp
  next
    case 3
    then show ?thesis using assms rnd_mono_pos [of "- y" "- x"] by simp
  qed
qed

text \<open>The numbers with a 53-bit significand; rounding is exact on them and yields only such.\<close>

definition representable :: "rat \<Rightarrow> bool" where
  "representable r \<longleftrightarrow>
     (\<exists>m q. - 1074 \<le> q \<and> \<bar>m\<bar> \<le> 2 ^ 53 \<and> r = of_int m * pow2 q)"

lemma representable_minus: "representable r \<Longrightarrow> representable (- r)"
  unfolding representable_def by (metis abs_minus_cancel mult_minus_left of_int_minus)

lemma rhe_significand:
  assumes "0 < x"
  shows "\<bar>rhe (x / pow2 (qexp x))\<bar> \<le> 2 ^ 53"
proof -
  have "x / pow2 (qexp x) \<le> of_int (2 ^ 53)"
    using less_pow2_qexp [OF assms] pow2_int [of 53]
    by (simp add: pos_divide_le_eq pow2_add mult.commute)
  then have "rhe (x / pow2 (qexp x)) \<le> 2 ^ 53"
    by (rule rhe_le_int)
  moreover have "0 \<le> rhe (x / pow2 (qexp x))"
    using assms by (intro rhe_ge_int) simp
  ultimately show ?thesis by simp
qed

lemma representable_rnd: "representable (rnd x)"
proof -
  have pos: "representable (rnd x)" if "0 < x" for x
    using that rhe_significand [OF that] qexp_ge [of x]
    unfolding representable_def rnd_def Let_def
    by (intro exI [of _ "rhe (x / pow2 (qexp x))"] exI [of _ "qexp x"]) simp
  consider "0 < x" | "x = 0" | "0 < - x"
    by linarith
  then show ?thesis
  proof cases
    case 2
    then show ?thesis by (auto simp: representable_def intro: exI [of _ 0])
  next
    case 3
    then show ?thesis using pos [of "- x"] representable_minus by fastforce
  qed (rule pos)
qed

lemma rnd_eq_multiple: "x \<noteq> 0 \<Longrightarrow> x = of_int n * pow2 (qexp x) \<Longrightarrow> rnd x = x"
  by (metis nonzero_mult_div_cancel_right pow2_nz rhe_of_int rnd_def)

lemma rnd_exact_pos:
  assumes x: "x = of_int m * pow2 q" and q: "- 1074 \<le> q" and m: "m \<le> 2 ^ 53" and "0 < x"
  shows "rnd x = x"
proof (cases "qexp x \<le> q")
  case True
  have "x = of_int (m * 2 ^ nat (q - qexp x)) * pow2 (qexp x)"
    using x pow2_as_multiple [OF True] by simp
  with \<open>0 < x\<close> show ?thesis by (metis less_irrefl rnd_eq_multiple)
next
  case False
  have bound: "x \<le> pow2 (q + 53)"
  proof -
    have "of_int m * pow2 q \<le> of_int (2 ^ 53) * pow2 q"
      using m by (intro mult_right_mono) (simp_all only: of_int_le_iff pow2_ge0)
    then show ?thesis using x pow2_int [of 53] by (simp add: pow2_add mult.commute)
  qed
  have qx: "qexp x = flog2 x - 52"
    using False q \<open>0 < x\<close> by (auto simp: qexp_def)
  have lo: "pow2 (qexp x + 52) \<le> x"
    using flog2_bounds(1) [OF \<open>0 < x\<close>] qx by simp
  then have "\<not> q + 53 < qexp x + 52"
    using bound pow2_less_iff [of "q + 53" "qexp x + 52"] by linarith
  with False have "qexp x = q + 1"
    by simp
  then have "x = pow2 (qexp x + 52)"
    using lo bound by (simp add: add.assoc)
  then have "x = of_int (2 ^ nat 52) * pow2 (qexp x)"
    using pow2_as_multiple [of "qexp x" "qexp x + 52"] by simp
  with \<open>0 < x\<close> show ?thesis by (metis less_irrefl rnd_eq_multiple)
qed

lemma rnd_exact:
  assumes "representable x"
  shows "rnd x = x"
proof -
  obtain m q where mq: "- 1074 \<le> q" "\<bar>m\<bar> \<le> 2 ^ 53" "x = of_int m * pow2 q"
    using assms unfolding representable_def by blast
  consider "0 < x" | "x = 0" | "0 < - x"
    by linarith
  then show ?thesis
  proof cases
    case 1
    then show ?thesis using mq by (intro rnd_exact_pos [of x m q]) auto
  next
    case 3
    then have "rnd (- x) = - x" using mq by (intro rnd_exact_pos [of "- x" "- m" q]) auto
    then show ?thesis by simp
  qed simp
qed

lemma rnd_idem [simp]: "rnd (rnd x) = rnd x"
  by (rule rnd_exact [OF representable_rnd])

lemma representable_of_int: "\<bar>n\<bar> \<le> 2 ^ 53 \<Longrightarrow> representable (of_int n)"
  unfolding representable_def by (intro exI [of _ n] exI [of _ 0]) (simp add: pow2_def)

lemma rnd_of_int: "\<bar>n\<bar> \<le> 2 ^ 53 \<Longrightarrow> rnd (of_int n) = of_int n"
  by (rule rnd_exact [OF representable_of_int])

section \<open>The type and its operators\<close>

datatype f64 = Fin rat | PInf | NInf | NaN

definition fl64 :: "rat \<Rightarrow> f64" where
  "fl64 x = (let r = rnd x in
     if pow2 1024 \<le> r then PInf else if r \<le> - pow2 1024 then NInf else Fin r)"

text \<open>The values a float64 variable can hold.\<close>

fun valid_f64 :: "f64 \<Rightarrow> bool" where
  "valid_f64 (Fin r) = (fl64 r = Fin r)"
| "valid_f64 _ = True"

fun is_nan :: "f64 \<Rightarrow> bool" where
  "is_nan NaN = True"
| "is_nan _ = False"

text \<open>\<^verbatim>\<open>==\<close> on floats: like equality, but NaN differs from everything.\<close>

definition feq :: "f64 \<Rightarrow> f64 \<Rightarrow> bool" where
  "feq a b \<longleftrightarrow> a = b \<and> a \<noteq> NaN"

instantiation f64 :: "{zero, one, uminus, plus, minus, times, abs, ord}"
begin

definition zero_f64 :: f64 where
  "0 = Fin 0"

definition one_f64 :: f64 where
  "1 = Fin 1"

fun uminus_f64 :: "f64 \<Rightarrow> f64" where
  "- (Fin a) = Fin (- a)"
| "- PInf = NInf"
| "- NInf = PInf"
| "- NaN = NaN"

fun plus_f64 :: "f64 \<Rightarrow> f64 \<Rightarrow> f64" where
  "Fin a + Fin b = fl64 (a + b)"
| "NaN + _ = NaN"
| "_ + NaN = NaN"
| "PInf + NInf = NaN"
| "NInf + PInf = NaN"
| "PInf + _ = PInf"
| "_ + PInf = PInf"
| "NInf + _ = NInf"
| "_ + NInf = NInf"

definition minus_f64 :: "f64 \<Rightarrow> f64 \<Rightarrow> f64" where
  "(a :: f64) - b = a + (- b)"

fun times_f64 :: "f64 \<Rightarrow> f64 \<Rightarrow> f64" where
  "Fin a * Fin b = fl64 (a * b)"
| "NaN * _ = NaN"
| "_ * NaN = NaN"
| "PInf * PInf = PInf"
| "PInf * NInf = NInf"
| "NInf * PInf = NInf"
| "NInf * NInf = PInf"
| "PInf * Fin b = (if b = 0 then NaN else if 0 < b then PInf else NInf)"
| "NInf * Fin b = (if b = 0 then NaN else if 0 < b then NInf else PInf)"
| "Fin a * PInf = (if a = 0 then NaN else if 0 < a then PInf else NInf)"
| "Fin a * NInf = (if a = 0 then NaN else if 0 < a then NInf else PInf)"

fun abs_f64 :: "f64 \<Rightarrow> f64" where
  "\<bar>Fin a\<bar> = Fin \<bar>a\<bar>"
| "\<bar>PInf\<bar> = PInf"
| "\<bar>NInf\<bar> = PInf"
| "\<bar>NaN\<bar> = NaN"

fun less_eq_f64 :: "f64 \<Rightarrow> f64 \<Rightarrow> bool" where
  "Fin a \<le> Fin b \<longleftrightarrow> a \<le> b"
| "NaN \<le> _ \<longleftrightarrow> False"
| "_ \<le> NaN \<longleftrightarrow> False"
| "NInf \<le> _ \<longleftrightarrow> True"
| "_ \<le> PInf \<longleftrightarrow> True"
| "(_ :: f64) \<le> _ \<longleftrightarrow> False"

definition less_f64 :: "f64 \<Rightarrow> f64 \<Rightarrow> bool" where
  "(a :: f64) < b \<longleftrightarrow> a \<le> b \<and> \<not> b \<le> a"

instance ..

end

text \<open>Division; a zero divisor counts as positive zero.\<close>

fun fdiv :: "f64 \<Rightarrow> f64 \<Rightarrow> f64" where
  "fdiv (Fin a) (Fin b) =
     (if b \<noteq> 0 then fl64 (a / b) else if a = 0 then NaN else if 0 < a then PInf else NInf)"
| "fdiv NaN _ = NaN"
| "fdiv _ NaN = NaN"
| "fdiv (Fin _) _ = Fin 0"
| "fdiv PInf (Fin b) = (if 0 \<le> b then PInf else NInf)"
| "fdiv NInf (Fin b) = (if 0 \<le> b then NInf else PInf)"
| "fdiv _ _ = NaN"

section \<open>Package \<^verbatim>\<open>math\<close>\<close>

fun fmap_int :: "(rat \<Rightarrow> int) \<Rightarrow> f64 \<Rightarrow> f64" where
  "fmap_int h (Fin a) = Fin (of_int (h a))"
| "fmap_int h x = x"

definition math_Floor :: "f64 \<Rightarrow> f64" where
  "math_Floor = fmap_int floor"

definition math_Ceil :: "f64 \<Rightarrow> f64" where
  "math_Ceil = fmap_int ceiling"

text \<open>\<^verbatim>\<open>math.Round\<close>: ties away from zero.\<close>

definition round_away :: "rat \<Rightarrow> int" where
  "round_away a = (if 0 \<le> a then \<lfloor>a + 1/2\<rfloor> else - \<lfloor>- a + 1/2\<rfloor>)"

definition math_Round :: "f64 \<Rightarrow> f64" where
  "math_Round = fmap_int round_away"

definition math_Abs :: "f64 \<Rightarrow> f64" where
  "math_Abs x = \<bar>x\<bar>"

definition math_Max :: "f64 \<Rightarrow> f64 \<Rightarrow> f64" where
  "math_Max a b = (if a = PInf \<or> b = PInf then PInf else if is_nan a \<or> is_nan b then NaN
     else if b < a then a else b)"

text \<open>\<^verbatim>\<open>math.Copysign f sign\<close>; a zero sign counts as positive.\<close>

definition math_Copysign :: "f64 \<Rightarrow> f64 \<Rightarrow> f64" where
  "math_Copysign f s = (if s < 0 then - \<bar>f\<bar> else \<bar>f\<bar>)"

text \<open>
  \<^verbatim>\<open>math.Pow10\<close> and \<^verbatim>\<open>math.Pow(10, n)\<close> for an integral exponent: the power of ten
  rounded to the nearest float. For exponents up to 22 in size, far more than any venue's
  decimals, this is what the Go functions return; beyond that their last bit may differ.
\<close>

definition math_Pow10 :: "int \<Rightarrow> f64" where
  "math_Pow10 n = fl64 (10 powi n)"

section \<open>Order and rounding laws\<close>

lemma fl64_cases: "fl64 x = PInf \<or> fl64 x = NInf \<or> fl64 x = Fin (rnd x)"
  by (simp add: fl64_def Let_def)

lemma fl64_not_nan [simp]: "fl64 x \<noteq> NaN"
  using fl64_cases [of x] by auto

lemma is_nan_fl64 [simp]: "\<not> is_nan (fl64 x)"
  using fl64_cases [of x] by auto

lemma fl64_0 [simp]: "fl64 0 = 0"
  using pow2_pos [of 1024] by (auto simp: fl64_def zero_f64_def not_le)

lemma fl64_mono: "x \<le> y \<Longrightarrow> fl64 x \<le> fl64 y"
  using rnd_mono [of x y] pow2_pos [of 1024] by (auto simp: fl64_def Let_def)

lemma fl64_minus: "fl64 (- x) = - fl64 x"
  by (auto simp: fl64_def Let_def) (use pow2_pos [of 1024] in linarith)

lemma valid_fl64 [simp]: "valid_f64 (fl64 x)"
  by (auto simp: fl64_def Let_def)

lemma fl64_exact: "representable x \<Longrightarrow> \<bar>x\<bar> < pow2 1024 \<Longrightarrow> fl64 x = Fin x"
  by (auto simp: fl64_def rnd_exact)

lemma fl64_of_int:
  assumes "\<bar>n\<bar> \<le> 2 ^ 53"
  shows "fl64 (of_int n) = Fin (of_int n)"
proof (rule fl64_exact [OF representable_of_int [OF assms]])
  have "\<bar>n\<bar> < 2 ^ nat 1024"
    using assms by simp
  then have "of_int \<bar>n\<bar> < (of_int (2 ^ nat 1024) :: rat)"
    by (simp only: of_int_less_iff)
  then show "\<bar>of_int n\<bar> < pow2 1024"
    by (simp add: pow2_int)
qed

text \<open>For evaluation: integers that fit are kept, and the overflow test is made for large results only.\<close>

lemma rnd_code [code]:
  "rnd x = (let (p, q) = quotient_of x in
     if q = 1 \<and> \<bar>p\<bar> \<le> 9007199254740992 then x
     else let e = qexp x in of_int (rhe (x / pow2 e)) * pow2 e)"
proof (cases "quotient_of x")
  case (Pair p q)
  have "rnd x = x" if "q = 1" "\<bar>p\<bar> \<le> 9007199254740992"
    using that quotient_of_div [OF Pair] rnd_of_int [of p] by simp
  moreover have "x \<noteq> 0" if "\<not> (q = 1 \<and> \<bar>p\<bar> \<le> 9007199254740992)"
    using that Pair by auto
  ultimately show ?thesis using Pair by (simp add: rnd_def)
qed

lemma fl64_code [code]:
  "fl64 x = (let r = rnd x in
     if \<bar>r\<bar> \<le> 1000000000000000 then Fin r
     else if pow2 1024 \<le> r then PInf else if r \<le> - pow2 1024 then NInf else Fin r)"
proof -
  have "(1000000000000000 :: rat) < 2 ^ 60" by simp
  also have "\<dots> \<le> pow2 1024" using pow2_mono [of 60 1024] by (simp add: pow2_nat)
  finally show ?thesis by (auto simp: fl64_def Let_def)
qed

text \<open>
  What the components use of a rounding function: it is monotone and keeps its own results. Both
  the rounding to 53 bits and \<^verbatim>\<open>math.Round\<close> are of this kind.
\<close>

locale rounding =
  fixes r :: "rat \<Rightarrow> rat"
  assumes round_mono: "x \<le> y \<Longrightarrow> r x \<le> r y"
    and round_zero: "r 0 = 0"
    and round_fixed: "r (r x) = r x"
begin

lemma round_le_fixed: "x \<le> p \<Longrightarrow> r p = p \<Longrightarrow> r x \<le> p"
  using round_mono [of x p] by simp

lemma round_ge_fixed: "p \<le> x \<Longrightarrow> r p = p \<Longrightarrow> p \<le> r x"
  using round_mono [of p x] by simp

lemma round_nonneg: "0 \<le> x \<Longrightarrow> 0 \<le> r x"
  using round_ge_fixed [of 0 x] round_zero by simp

lemma round_nonpos: "x \<le> 0 \<Longrightarrow> r x \<le> 0"
  using round_le_fixed [of x 0] round_zero by simp

lemma round_diff_le: "0 \<le> y \<Longrightarrow> r x = x \<Longrightarrow> r (x - y) \<le> x"
  using round_le_fixed [of "x - y" x] by simp

end

interpretation rnd53: rounding rnd
  by unfold_locales (simp_all add: rnd_mono)

lemma round_away_mono:
  assumes "x \<le> y"
  shows "round_away x \<le> round_away y"
proof -
  consider "0 \<le> x" | "x < 0" "0 \<le> y" | "y < 0"
    by linarith
  then show ?thesis
  proof cases
    case 1
    then show ?thesis using assms by (simp add: round_away_def floor_mono)
  next
    case 2
    then have "0 \<le> \<lfloor>- x + 1/2\<rfloor>" and "0 \<le> \<lfloor>y + 1/2\<rfloor>" by simp_all
    then have "- \<lfloor>- x + 1/2\<rfloor> \<le> \<lfloor>y + 1/2\<rfloor>" by linarith
    with 2 show ?thesis by (simp only: round_away_def if_False if_True not_le [symmetric])
  next
    case 3
    then show ?thesis using assms by (simp add: round_away_def floor_mono)
  qed
qed

lemma round_away_of_int [simp]: "round_away (of_int n) = n"
proof -
  have "\<lfloor>of_int m + 1/2 :: rat\<rfloor> = m" for m
    by (rule floor_unique) simp_all
  from this [of n] this [of "- n"] show ?thesis by (simp add: round_away_def)
qed

interpretation away: rounding "\<lambda>x. of_int (round_away x)"
  by unfold_locales (use round_away_of_int [of 0] in \<open>simp_all add: round_away_mono\<close>)

text \<open>The order: a partial order on the values other than NaN, with NaN unrelated to all.\<close>

lemma f64_le_refl [simp]: "(a :: f64) \<le> a \<longleftrightarrow> \<not> is_nan a"
  by (cases a) auto

lemma f64_le_trans: "(a :: f64) \<le> b \<Longrightarrow> b \<le> c \<Longrightarrow> a \<le> c"
  by (cases a; cases b; cases c) auto

lemma f64_le_antisym: "(a :: f64) \<le> b \<Longrightarrow> b \<le> a \<Longrightarrow> a = b"
  by (cases a; cases b) auto

lemma f64_le_total: "\<not> is_nan a \<Longrightarrow> \<not> is_nan b \<Longrightarrow> a \<le> b \<or> b \<le> (a :: f64)"
  by (cases a; cases b) auto

lemma f64_not_le: "\<not> is_nan a \<Longrightarrow> \<not> is_nan b \<Longrightarrow> \<not> a \<le> b \<longleftrightarrow> b < (a :: f64)"
  by (cases a; cases b) (auto simp: less_f64_def)

lemma f64_less_imp_le: "(a :: f64) < b \<Longrightarrow> a \<le> b"
  by (simp add: less_f64_def)

lemma f64_less_Fin [simp]: "Fin a < Fin b \<longleftrightarrow> a < b"
  by (auto simp: less_f64_def)

lemma f64_le_nanD: "(a :: f64) \<le> b \<Longrightarrow> \<not> is_nan a \<and> \<not> is_nan b"
  by (cases a; cases b) auto

lemma f64_diff_Fin [simp]: "Fin a - Fin b = fl64 (a - b)"
  by (simp add: minus_f64_def)

lemma f64_zero_le_Fin [simp]: "0 \<le> Fin a \<longleftrightarrow> 0 \<le> a"
  by (simp add: zero_f64_def)

lemma f64_Fin_le_zero [simp]: "Fin a \<le> 0 \<longleftrightarrow> a \<le> 0"
  by (simp add: zero_f64_def)

lemma fl64_nonneg: "0 \<le> x \<Longrightarrow> 0 \<le> fl64 x"
  using fl64_mono [of 0 x] by simp

lemma fl64_le_valid: "x \<le> y \<Longrightarrow> valid_f64 (Fin y) \<Longrightarrow> fl64 x \<le> Fin y"
  using fl64_mono [of x y] by simp

lemma f64_add_nonneg: "0 \<le> a \<Longrightarrow> 0 \<le> b \<Longrightarrow> 0 \<le> a + (b :: f64)"
  by (cases a; cases b) (auto simp: zero_f64_def fl64_nonneg [unfolded zero_f64_def])

fun is_fin :: "f64 \<Rightarrow> bool" where
  "is_fin (Fin _) = True"
| "is_fin _ = False"

lemma is_fin_iff: "is_fin a \<longleftrightarrow> (\<exists>r. a = Fin r)"
  by (cases a) auto

lemma f64_diff_nonneg: "is_fin b \<Longrightarrow> b \<le> a \<Longrightarrow> 0 \<le> a - (b :: f64)"
  by (cases a; cases b) (auto simp: minus_f64_def fl64_nonneg, simp add: zero_f64_def)

lemma f64_diff_le:
  "is_fin a \<Longrightarrow> is_fin b \<Longrightarrow> valid_f64 a \<Longrightarrow> 0 \<le> b \<Longrightarrow> a - b \<le> (a :: f64)"
  by (cases a; cases b) (auto intro: fl64_le_valid)

lemma valid_f64_plus [simp]: "valid_f64 (a + b)"
  by (cases a; cases b) auto

lemma valid_f64_uminus [simp]: "valid_f64 a \<Longrightarrow> valid_f64 (- a)"
  by (cases a) (auto simp: fl64_minus)

lemma valid_f64_minus [simp]: "valid_f64 (a - b)"
  by (simp add: minus_f64_def)

lemma valid_f64_times [simp]: "valid_f64 (a * b)"
  by (cases a; cases b) auto

lemma valid_f64_0 [simp]: "valid_f64 0"
  by (simp add: zero_f64_def)

lemma math_Max_0_nonneg: "\<not> is_nan a \<Longrightarrow> 0 \<le> math_Max 0 a"
  by (cases a) (auto simp: math_Max_def zero_f64_def less_f64_def)

end
