(* ===== verification/Recomma_Types.thy ===== *)
theory Recomma_Types
  imports Order_Id Float64
begin

text \<open>
  \<^verbatim>\<open>recomma/recomma.go\<close> and \<^verbatim>\<open>recomma/threecommas_plan.go\<close>: the data that flows
  between the components (bot events, venue requests, actions, order work) and the plan tiers.

  The structs of the two SDKs are records with the fields the program reads or writes. An SDK
  enumeration is a datatype with one constructor per constant the program names and one for every
  other string. A pointer that may be nil is an option. Each struct has its zero value, which Go
  gives to the fields a literal leaves out.
\<close>

section \<open>3Commas data\<close>

datatype MarketOrderOrderType = BUY | SELL | OtherOrderType string

text \<open>\<^verbatim>\<open>string(evt.Type)\<close>: the side as 3Commas reports it (\<^verbatim>\<open>openapi.yaml\<close>: BUY/SELL).\<close>

fun side_string :: "MarketOrderOrderType \<Rightarrow> string" where
  "side_string BUY = ''BUY''"
| "side_string SELL = ''SELL''"
| "side_string (OtherOrderType s) = s"

datatype MarketOrderStatusString = Active | Cancelled | Filled | Finished | OtherStatus string

datatype MarketOrderDealOrderType =
  DealOrderTypeBase | DealOrderTypeSafety | DealOrderTypeManualSafety | DealOrderTypeTakeProfit
| DealOrderTypeStopLoss | OtherDealOrderType string

datatype BotEventAction =
  ActionPlace | ActionExecute | ActionCancelEvent | ActionCancelled | ActionModifyEvent
| OtherAction string

record tc_BotEvent =
  ev_CreatedAt :: time
  ev_Action :: BotEventAction
  ev_Coin :: string
  ev_Type :: MarketOrderOrderType
  ev_Status :: MarketOrderStatusString
  ev_Price :: f64
  ev_Size :: f64
  ev_OrderType :: MarketOrderDealOrderType
  ev_OrderSize :: int
  ev_OrderPosition :: int
  ev_QuoteVolume :: f64
  ev_QuoteCurrency :: string
  ev_IsMarket :: bool
  ev_Profit :: f64
  ev_ProfitCurrency :: string
  ev_ProfitUSD :: f64
  ev_ProfitPercentage :: f64
  ev_Text :: string

definition zero_tc_BotEvent :: tc_BotEvent where
  "zero_tc_BotEvent =
     \<lparr>ev_CreatedAt = zero_time, ev_Action = OtherAction [], ev_Coin = [],
      ev_Type = OtherOrderType [], ev_Status = OtherStatus [], ev_Price = 0, ev_Size = 0,
      ev_OrderType = OtherDealOrderType [], ev_OrderSize = 0, ev_OrderPosition = 0,
      ev_QuoteVolume = 0, ev_QuoteCurrency = [], ev_IsMarket = False, ev_Profit = 0,
      ev_ProfitCurrency = [], ev_ProfitUSD = 0, ev_ProfitPercentage = 0, ev_Text = []\<rparr>"

record BotEvent =
  RowID :: int
  tc_event :: tc_BotEvent

definition zero_BotEvent :: BotEvent where
  "zero_BotEvent = \<lparr>RowID = 0, tc_event = zero_tc_BotEvent\<rparr>"

section \<open>Hyperliquid requests\<close>

datatype Tif = TifGtc | TifIoc | OtherTif string

record TriggerOrderType =
  trg_TriggerPx :: f64
  trg_IsMarket :: bool
  trg_Tpsl :: string

record OrderType =
  ot_Limit :: "Tif option"
  ot_Trigger :: "TriggerOrderType option"

record CreateOrderRequest =
  cr_Coin :: string
  cr_IsBuy :: bool
  cr_Price :: f64
  cr_Size :: f64
  cr_ReduceOnly :: bool
  cr_OrderType :: OrderType
  cr_ClientOrderID :: "string option"

record ModifyOrderRequest =
  mo_Oid :: "int option"
  mo_Cloid :: "string option"
  mo_Order :: CreateOrderRequest

record CancelOrderRequestByCloid =
  ca_Coin :: string
  ca_Cloid :: string

definition zero_Create :: CreateOrderRequest where
  "zero_Create = \<lparr>cr_Coin = [], cr_IsBuy = False, cr_Price = 0, cr_Size = 0,
     cr_ReduceOnly = False, cr_OrderType = \<lparr>ot_Limit = None, ot_Trigger = None\<rparr>,
     cr_ClientOrderID = None\<rparr>"

definition zero_Modify :: ModifyOrderRequest where
  "zero_Modify = \<lparr>mo_Oid = None, mo_Cloid = None, mo_Order = zero_Create\<rparr>"

definition zero_Cancel :: CancelOrderRequestByCloid where
  "zero_Cancel = \<lparr>ca_Coin = [], ca_Cloid = []\<rparr>"

section \<open>Identifiers, actions and order work\<close>

type_synonym VenueID = string

definition zero_OrderId :: OrderId where
  "zero_OrderId = \<lparr>BotID = 0, DealID = 0, BotEventID = 0\<rparr>"

record OrderIdentifier =
  oi_VenueID :: VenueID
  oi_Wallet :: string
  oi_OrderId :: OrderId

definition zero_OrderIdentifier :: OrderIdentifier where
  "zero_OrderIdentifier = \<lparr>oi_VenueID = [], oi_Wallet = [], oi_OrderId = zero_OrderId\<rparr>"

definition NewOrderIdentifier :: "VenueID \<Rightarrow> string \<Rightarrow> OrderId \<Rightarrow> OrderIdentifier" where
  "NewOrderIdentifier venue wallet oid =
     \<lparr>oi_VenueID = venue, oi_Wallet = wallet, oi_OrderId = oid\<rparr>"

definition Venue :: "OrderIdentifier \<Rightarrow> string" where
  "Venue oi = oi_VenueID oi"

definition oi_Hex :: "OrderIdentifier \<Rightarrow> string" where
  "oi_Hex oi = Hex (oi_OrderId oi)"

datatype ActionType = ActionNone | ActionCreate | ActionModify | ActionCancel

fun ActionType_String :: "ActionType \<Rightarrow> string" where
  "ActionType_String ActionCreate = ''create''"
| "ActionType_String ActionModify = ''modify''"
| "ActionType_String ActionCancel = ''cancel''"
| "ActionType_String ActionNone = ''none''"

record Action =
  ac_Type :: ActionType
  ac_Create :: CreateOrderRequest
  ac_Modify :: ModifyOrderRequest
  ac_Cancel :: CancelOrderRequestByCloid
  ac_Reason :: string

definition zero_Action :: Action where
  "zero_Action = \<lparr>ac_Type = ActionNone, ac_Create = zero_Create, ac_Modify = zero_Modify,
     ac_Cancel = zero_Cancel, ac_Reason = []\<rparr>"

record OrderWork =
  wk_Identifier :: OrderIdentifier
  wk_OrderId :: OrderId
  wk_Action :: Action
  wk_BotEvent :: BotEvent

fun ToThreeCommasBotEvent :: "BotEvent list \<Rightarrow> tc_BotEvent list" where
  "ToThreeCommasBotEvent [] = []"
| "ToThreeCommasBotEvent (be # rest) = tc_event be # ToThreeCommasBotEvent rest"

section \<open>Hyperliquid order states\<close>

text \<open>
  \<^verbatim>\<open>hyperliquid.OrderStatusValue\<close> is a string; the venue's vocabulary is listed in
  \<^verbatim>\<open>openapi.yaml\<close>.
\<close>

type_synonym OrderStatusValue = string

definition OrderStatusValueOpen :: OrderStatusValue where
  "OrderStatusValueOpen = ''open''"

definition OrderStatusValueFilled :: OrderStatusValue where
  "OrderStatusValueFilled = ''filled''"

definition OrderStatusValueCanceled :: OrderStatusValue where
  "OrderStatusValueCanceled = ''canceled''"

record WsBasicOrder =
  wo_Coin :: string
  wo_Side :: string
  wo_LimitPx :: string
  wo_Sz :: string
  wo_Oid :: int
  wo_Timestamp :: int
  wo_OrigSz :: string
  wo_Cloid :: "string option"

record WsOrder =
  ws_Order :: WsBasicOrder
  ws_Status :: OrderStatusValue
  ws_StatusTimestamp :: int

section \<open>Plan tiers\<close>

text \<open>
  \<^verbatim>\<open>ThreeCommasPlanTier\<close> is a string type, so a value outside the three constants is possible;
  the two methods treat it as the expert tier.
\<close>

type_synonym ThreeCommasPlanTier = string

definition ThreeCommasPlanTierStarter :: ThreeCommasPlanTier where
  "ThreeCommasPlanTierStarter = ''starter''"

definition ThreeCommasPlanTierPro :: ThreeCommasPlanTier where
  "ThreeCommasPlanTierPro = ''pro''"

definition ThreeCommasPlanTierExpert :: ThreeCommasPlanTier where
  "ThreeCommasPlanTierExpert = ''expert''"

lemmas plan_tiers =
  ThreeCommasPlanTierStarter_def ThreeCommasPlanTierPro_def ThreeCommasPlanTierExpert_def

record RateLimitConfig =
  RequestsPerMinute :: int
  PrioritySlots :: int
  DealWorkers :: int
  ProduceConcurrency :: int
  ResyncInterval :: duration

datatype PlanTier = PlanStarter | PlanPro | PlanExpert

datatype plan_error = PlanTierRequired | InvalidPlanTier string

definition normalizeThreeCommasPlanTier :: "string \<Rightarrow> string" where
  "normalizeThreeCommasPlanTier raw = ToLower (TrimSpace raw)"

definition DefaultThreeCommasPlanTier :: ThreeCommasPlanTier where
  "DefaultThreeCommasPlanTier = ThreeCommasPlanTierExpert"

definition ParseThreeCommasPlanTier :: "string \<Rightarrow> plan_error + ThreeCommasPlanTier" where
  "ParseThreeCommasPlanTier raw =
     (let normalized = normalizeThreeCommasPlanTier raw in
      if normalized = [] then Inl PlanTierRequired
      else if normalized = ThreeCommasPlanTierStarter then Inr ThreeCommasPlanTierStarter
      else if normalized = ThreeCommasPlanTierPro then Inr ThreeCommasPlanTierPro
      else if normalized = ThreeCommasPlanTierExpert then Inr ThreeCommasPlanTierExpert
      else Inl (InvalidPlanTier raw))"

definition ParseThreeCommasPlanTierOrDefault ::
  "string \<Rightarrow> bool \<times> (plan_error + ThreeCommasPlanTier)" where
  "ParseThreeCommasPlanTierOrDefault raw =
     (let normalized = normalizeThreeCommasPlanTier raw in
      if normalized = [] then (True, Inr DefaultThreeCommasPlanTier)
      else (False, ParseThreeCommasPlanTier normalized))"

definition SDKTier :: "ThreeCommasPlanTier \<Rightarrow> PlanTier" where
  "SDKTier t =
     (if t = ThreeCommasPlanTierStarter then PlanStarter
      else if t = ThreeCommasPlanTierPro then PlanPro
      else PlanExpert)"

definition tier_RateLimitConfig :: "ThreeCommasPlanTier \<Rightarrow> RateLimitConfig" where
  "tier_RateLimitConfig t =
     (if t = ThreeCommasPlanTierStarter then
        \<lparr>RequestsPerMinute = 5, PrioritySlots = 1, DealWorkers = 1, ProduceConcurrency = 1,
         ResyncInterval = 60 * second\<rparr>
      else if t = ThreeCommasPlanTierPro then
        \<lparr>RequestsPerMinute = 50, PrioritySlots = 5, DealWorkers = 5, ProduceConcurrency = 10,
         ResyncInterval = 30 * second\<rparr>
      else
        \<lparr>RequestsPerMinute = 120, PrioritySlots = 10, DealWorkers = 25, ProduceConcurrency = 32,
         ResyncInterval = 15 * second\<rparr>)"

lemma normalize_idem [simp]:
  "normalizeThreeCommasPlanTier (normalizeThreeCommasPlanTier raw) = normalizeThreeCommasPlanTier raw"
  by (simp add: normalizeThreeCommasPlanTier_def ToLower_TrimSpace)

lemma Parse_normalized_Inr:
  "ParseThreeCommasPlanTier (normalizeThreeCommasPlanTier raw) = Inr t \<longleftrightarrow>
   ParseThreeCommasPlanTier raw = Inr t"
  by (simp add: ParseThreeCommasPlanTier_def Let_def)

text \<open>
  Plan tiers. Parsing accepts an input if and only if, trimmed and in lower case, it is one of
  the three tier names, and then returns that name; with the default, blank input gives the expert
  tier and is reported as defaulted, and every other input gets the same verdict as the strict
  parser gives.
\<close>

theorem plan_tier_parsing:
  "(ParseThreeCommasPlanTier raw = Inr t \<longleftrightarrow>
      t = normalizeThreeCommasPlanTier raw \<and>
      t \<in> {''starter'', ''pro'', ''expert''}) \<and>
   (ParseThreeCommasPlanTierOrDefault raw = (True, Inr t) \<longleftrightarrow>
      normalizeThreeCommasPlanTier raw = [] \<and> t = ''expert'') \<and>
   (ParseThreeCommasPlanTierOrDefault raw = (False, Inr t) \<longleftrightarrow>
      ParseThreeCommasPlanTier raw = Inr t)"
proof (intro conjI)
  show strict: "ParseThreeCommasPlanTier raw = Inr t \<longleftrightarrow>
      t = normalizeThreeCommasPlanTier raw \<and> t \<in> {''starter'', ''pro'', ''expert''}"
    by (auto simp: ParseThreeCommasPlanTier_def plan_tiers Let_def)
  show "ParseThreeCommasPlanTierOrDefault raw = (True, Inr t) \<longleftrightarrow>
      normalizeThreeCommasPlanTier raw = [] \<and> t = ''expert''"
    by (auto simp: ParseThreeCommasPlanTierOrDefault_def DefaultThreeCommasPlanTier_def
        plan_tiers Let_def)
  show "ParseThreeCommasPlanTierOrDefault raw = (False, Inr t) \<longleftrightarrow> ParseThreeCommasPlanTier raw = Inr t"
    using strict by (auto simp: ParseThreeCommasPlanTierOrDefault_def Parse_normalized_Inr Let_def)
qed

end
