(* ===== verification/Limiter.thy ===== *)
theory Limiter
  imports Recomma_Types
begin

text \<open>
  \<^verbatim>\<open>ratelimit/limiter.go\<close> and \<^verbatim>\<open>ratelimit/client.go\<close>: the fixed-window rate limiter
  with workflow reservations and the 3Commas client that spends them.

  Every method runs under the limiter's mutex between the points where it blocks, so a method is
  one atomic function of the state, and a blocking method is cut at the point where it waits:
  \<open>Reserve\<close> either decides or enters the queue, \<open>Reserve_cancel\<close> is its
  \<^verbatim>\<open>ctx.Done()\<close> arm and a closed channel its \<^verbatim>\<open>ready\<close> arm; \<open>Extend\<close> is cut in the same
  way. \<^verbatim>\<open>time.Now()\<close> is a parameter: an instant where a function reads it once, a sequence of
  readings where it reads it several times. Integers are 64 bits wide and wrap.

  A reservation is a heap object in the code, and a blocked \<^verbatim>\<open>Extend\<close> keeps a pointer to it. In
  the model a reservation carries an object number; objects that left the map are kept in
  \<open>orphans\<close>, so that the retry sees exactly what the pointer would show.
\<close>

section \<open>State\<close>

datatype limiter_error =
  ErrInvalidWorkflowID | ErrReservationNotHeld | ErrAlreadyReserved | ErrInsufficientCapacity
| ErrConsumeExceedsLimit | ErrAdjustBelowConsumed | ErrExtendNegative | ErrCountNotPositive int
| CtxErr

record Config =
  cfg_RequestsPerMinute :: int
  cfg_WindowDuration :: duration
  cfg_PrioritySlots :: int

record reservation =
  res_object :: nat
  workflowID :: string
  slotsReserved :: int
  slotsConsumed :: int
  res_createdAt :: time
  completed :: bool

record waitingWorkflow =
  ww_workflowID :: string
  requestedSlots :: int
  ww_createdAt :: time
  ready :: nat

record Limiter =
  limit :: int
  window :: duration
  prioritySlots :: int
  windowStart :: time
  consumed :: int
  activeReservations :: "(string \<times> reservation) list"
  waitQueue :: "waitingWorkflow list"
  closed_ready :: "nat list"
  orphans :: "reservation list"
  next_object :: nat
  stopped :: bool

definition NewLimiter :: "Config \<Rightarrow> time \<Rightarrow> Limiter" where
  "NewLimiter cfg now =
     (let w = (if cfg_WindowDuration cfg \<le> 0 then 60 * second else cfg_WindowDuration cfg)
      in \<lparr>limit = cfg_RequestsPerMinute cfg, window = w, prioritySlots = cfg_PrioritySlots cfg,
          windowStart = now, consumed = 0, activeReservations = [], waitQueue = [],
          closed_ready = [], orphans = [], next_object = 0, stopped = False\<rparr>)"

definition tickInterval :: "Config \<Rightarrow> duration" where
  "tickInterval cfg =
     (let w = (if cfg_WindowDuration cfg \<le> 0 then 60 * second else cfg_WindowDuration cfg);
          t = w div 10
      in if t < 100 * millisecond then 100 * millisecond else t)"

section \<open>Helpers that run with the lock held\<close>

definition calculateTotalReserved :: "Limiter \<Rightarrow> int" where
  "calculateTotalReserved l =
     foldl (\<lambda>total x. wrap64 (total + slotsReserved (snd x))) 0 (activeReservations l)"

definition resetWindowIfNeeded :: "time \<Rightarrow> Limiter \<Rightarrow> bool \<times> Limiter" where
  "resetWindowIfNeeded now l =
     (if window l \<le> now - windowStart l then (True, l\<lparr>windowStart := now, consumed := 0\<rparr>)
      else (False, l))"

definition has_capacity :: "Limiter \<Rightarrow> int \<Rightarrow> int \<Rightarrow> bool" where
  "has_capacity l totalReserved cnt \<longleftrightarrow>
     wrap64 (wrap64 (consumed l + totalReserved) + cnt) \<le> limit l"

text \<open>\<^verbatim>\<open>l.activeReservations[wid] = &reservation{...}\<close>; an object this overwrites is orphaned.\<close>

definition put_reservation :: "time \<Rightarrow> string \<Rightarrow> int \<Rightarrow> Limiter \<Rightarrow> Limiter" where
  "put_reservation now wid slots l =
     l\<lparr>activeReservations := AList.update wid
          \<lparr>res_object = next_object l, workflowID = wid, slotsReserved = slots, slotsConsumed = 0,
           res_createdAt = now, completed = False\<rparr> (activeReservations l),
       orphans := (case map_of (activeReservations l) wid of
                     None \<Rightarrow> orphans l | Some r \<Rightarrow> r # orphans l),
       next_object := Suc (next_object l)\<rparr>"

text \<open>
  The loop over the queue. The \<open>k\<close>-th round reads the clock for the window and, when it
  grants, for the creation time of the reservation.
\<close>

fun grant_loop :: "(nat \<Rightarrow> time) \<Rightarrow> nat \<Rightarrow> waitingWorkflow list \<Rightarrow> nat \<Rightarrow> Limiter \<Rightarrow> nat \<times> Limiter"
where
  "grant_loop clock k [] granted l = (granted, l\<lparr>waitQueue := []\<rparr>)"
| "grant_loop clock k (nxt # rest) granted l =
     (let l = snd (resetWindowIfNeeded (clock (2 * k)) l);
          totalReserved = calculateTotalReserved l
      in if has_capacity l totalReserved (requestedSlots nxt) then
           (let l = put_reservation (clock (2 * k + 1)) (ww_workflowID nxt) (requestedSlots nxt) l;
                l = l\<lparr>closed_ready := closed_ready l @ [ready nxt]\<rparr>
            in grant_loop clock (Suc k) rest (Suc granted) l)
         else (granted, l\<lparr>waitQueue := nxt # rest\<rparr>))"

definition tryGrantWaiting :: "(nat \<Rightarrow> time) \<Rightarrow> Limiter \<Rightarrow> nat \<times> Limiter" where
  "tryGrantWaiting clock l = grant_loop clock 0 (waitQueue l) 0 l"

fun remove_first :: "string \<Rightarrow> waitingWorkflow list \<Rightarrow> waitingWorkflow list" where
  "remove_first wid [] = []"
| "remove_first wid (w # rest) = (if ww_workflowID w = wid then rest else w # remove_first wid rest)"

definition removeFromQueue :: "string \<Rightarrow> Limiter \<Rightarrow> Limiter" where
  "removeFromQueue wid l = l\<lparr>waitQueue := remove_first wid (waitQueue l)\<rparr>"

section \<open>Methods\<close>

datatype reserve_outcome = ReserveErr limiter_error | Granted | Waiting nat

definition Reserve :: "(nat \<Rightarrow> time) \<Rightarrow> string \<Rightarrow> int \<Rightarrow> Limiter \<Rightarrow> reserve_outcome \<times> Limiter" where
  "Reserve clock wid cnt l =
     (if wid = [] then (ReserveErr ErrInvalidWorkflowID, l)
      else if cnt \<le> 0 then (ReserveErr (ErrCountNotPositive cnt), l)
      else if map_of (activeReservations l) wid \<noteq> None then (ReserveErr ErrAlreadyReserved, l)
      else let totalReserved = calculateTotalReserved l;
               l = snd (resetWindowIfNeeded (clock 0) l)
           in if has_capacity l totalReserved cnt then
                (Granted, put_reservation (clock 1) wid cnt l)
              else
                (Waiting (next_object l),
                 l\<lparr>waitQueue := waitQueue l @ [\<lparr>ww_workflowID = wid, requestedSlots = cnt,
                       ww_createdAt = clock 1, ready = next_object l\<rparr>],
                   next_object := Suc (next_object l)\<rparr>))"

text \<open>
  How a blocked \<^verbatim>\<open>Reserve\<close> ends. Its \<^verbatim>\<open>select\<close> may take the ready arm once the channel is
  closed, and the cancellation arm whenever the context is done, whether or not the channel has
  been closed meanwhile.
\<close>

definition Reserve_ready :: "nat \<Rightarrow> Limiter \<Rightarrow> bool" where
  "Reserve_ready ch l \<longleftrightarrow> ch \<in> set (closed_ready l)"

definition Reserve_cancel :: "string \<Rightarrow> Limiter \<Rightarrow> limiter_error \<times> Limiter" where
  "Reserve_cancel wid l = (CtxErr, removeFromQueue wid l)"

definition ConsumeWithOperation :: "time \<Rightarrow> string \<Rightarrow> Limiter \<Rightarrow> limiter_error option \<times> Limiter" where
  "ConsumeWithOperation now wid l =
     (if wid = [] then (Some ErrInvalidWorkflowID, l)
      else (case map_of (activeReservations l) wid of
          None \<Rightarrow> (Some ErrReservationNotHeld, l)
        | Some res \<Rightarrow>
            if slotsReserved res \<le> slotsConsumed res then (Some ErrConsumeExceedsLimit, l)
            else let l = snd (resetWindowIfNeeded now l)
                 in (None, l\<lparr>consumed := wrap64 (consumed l + 1),
                       activeReservations := AList.update wid
                         (res\<lparr>slotsConsumed := wrap64 (slotsConsumed res + 1)\<rparr>)
                         (activeReservations l)\<rparr>)))"

definition AdjustDown ::
  "(nat \<Rightarrow> time) \<Rightarrow> string \<Rightarrow> int \<Rightarrow> Limiter \<Rightarrow> limiter_error option \<times> Limiter" where
  "AdjustDown clock wid newTotal l =
     (if wid = [] then (Some ErrInvalidWorkflowID, l)
      else (case map_of (activeReservations l) wid of
          None \<Rightarrow> (Some ErrReservationNotHeld, l)
        | Some res \<Rightarrow>
            if newTotal < slotsConsumed res then (Some ErrAdjustBelowConsumed, l)
            else if slotsReserved res \<le> newTotal then (None, l)
            else let l = l\<lparr>activeReservations :=
                       AList.update wid (res\<lparr>slotsReserved := newTotal\<rparr>) (activeReservations l)\<rparr>
                 in (None, snd (tryGrantWaiting clock l))))"

datatype extend_outcome =
  ExtendErr limiter_error
| ExtendDone
| ExtendWait nat int time \<comment> \<open>the object, the new reservation and the instant waited for\<close>

definition extend_fits :: "Limiter \<Rightarrow> int \<Rightarrow> reservation \<Rightarrow> bool" where
  "extend_fits l newReservation res \<longleftrightarrow>
     wrap64 (wrap64 (consumed l + newReservation) - slotsConsumed res) \<le> limit l"

definition Extend :: "time \<Rightarrow> string \<Rightarrow> int \<Rightarrow> Limiter \<Rightarrow> extend_outcome \<times> Limiter" where
  "Extend now wid additional l =
     (if wid = [] then (ExtendErr ErrInvalidWorkflowID, l)
      else if additional < 0 then (ExtendErr ErrExtendNegative, l)
      else if additional = 0 then (ExtendDone, l)
      else (case map_of (activeReservations l) wid of
          None \<Rightarrow> (ExtendErr ErrReservationNotHeld, l)
        | Some res \<Rightarrow>
            let newReservation = wrap64 (slotsReserved res + additional);
                l = snd (resetWindowIfNeeded now l)
            in if extend_fits l newReservation res then
                 (ExtendDone, l\<lparr>activeReservations :=
                    AList.update wid (res\<lparr>slotsReserved := newReservation\<rparr>) (activeReservations l)\<rparr>)
               else (ExtendWait (res_object res) newReservation (windowStart l + window l), l)))"

text \<open>
  The second attempt, after the wait or at once when the boundary has passed already: it uses the
  pointer, so the object may have left the map in between.
\<close>

definition find_object :: "nat \<Rightarrow> reservation list \<Rightarrow> reservation option" where
  "find_object obj rs = find (\<lambda>r. res_object r = obj) rs"

definition Extend_retry :: "time \<Rightarrow> nat \<Rightarrow> int \<Rightarrow> Limiter \<Rightarrow> limiter_error option \<times> Limiter" where
  "Extend_retry now obj newReservation l =
     (let l = snd (resetWindowIfNeeded now l) in
      case find_object obj (map snd (activeReservations l)) of
        Some res \<Rightarrow>
          if extend_fits l newReservation res then
            (None, l\<lparr>activeReservations :=
               AList.update (workflowID res) (res\<lparr>slotsReserved := newReservation\<rparr>)
                 (activeReservations l)\<rparr>)
          else (Some ErrInsufficientCapacity, l)
      | None \<Rightarrow>
          (case find_object obj (orphans l) of
             Some res \<Rightarrow>
               if extend_fits l newReservation res then
                 (None, l\<lparr>orphans := map (\<lambda>r. if res_object r = obj
                    then r\<lparr>slotsReserved := newReservation\<rparr> else r) (orphans l)\<rparr>)
               else (Some ErrInsufficientCapacity, l)
           | None \<Rightarrow> (Some ErrReservationNotHeld, l)))"

definition SignalComplete ::
  "(nat \<Rightarrow> time) \<Rightarrow> string \<Rightarrow> Limiter \<Rightarrow> limiter_error option \<times> Limiter" where
  "SignalComplete clock wid l =
     (if wid = [] then (Some ErrInvalidWorkflowID, l)
      else (case map_of (activeReservations l) wid of
          None \<Rightarrow> (Some ErrReservationNotHeld, l)
        | Some res \<Rightarrow>
            let l = l\<lparr>activeReservations :=
                  AList.update wid (res\<lparr>completed := True\<rparr>) (activeReservations l)\<rparr>
            in (None, snd (tryGrantWaiting clock l))))"

definition Release :: "(nat \<Rightarrow> time) \<Rightarrow> string \<Rightarrow> Limiter \<Rightarrow> limiter_error option \<times> Limiter" where
  "Release clock wid l =
     (if wid = [] then (Some ErrInvalidWorkflowID, l)
      else (case map_of (activeReservations l) wid of
          None \<Rightarrow> (Some ErrReservationNotHeld, l)
        | Some res \<Rightarrow>
            let l = l\<lparr>activeReservations := AList.delete wid (activeReservations l),
                      orphans := res # orphans l\<rparr>
            in (None, snd (tryGrantWaiting clock l))))"

definition Stats :: "time \<Rightarrow> Limiter \<Rightarrow> (int \<times> int \<times> nat \<times> bool) \<times> Limiter" where
  "Stats now l =
     (let l = snd (resetWindowIfNeeded now l)
      in ((consumed l, limit l, length (waitQueue l), activeReservations l \<noteq> []), l))"

text \<open>One firing of the background ticker: the body of \<^verbatim>\<open>windowResetWatcher\<close>.\<close>

definition watcher_tick :: "(nat \<Rightarrow> time) \<Rightarrow> Limiter \<Rightarrow> Limiter" where
  "watcher_tick clock l =
     (if waitQueue l = [] then l
      else (case resetWindowIfNeeded (clock 0) l of
          (True, l') \<Rightarrow> snd (tryGrantWaiting (\<lambda>k. clock (Suc k)) l')
        | (False, l') \<Rightarrow> l'))"

text \<open>\<^verbatim>\<open>Stop\<close> closes the done channel; closing it twice panics (\<open>None\<close>).\<close>

definition Stop :: "Limiter \<Rightarrow> Limiter option" where
  "Stop l = (if stopped l then None else Some (l\<lparr>stopped := True\<rparr>))"

section \<open>The rate-limited client\<close>

datatype client_error = WorkflowIDMissing string | RateLimitConsume limiter_error

text \<open>
  The three calls of \<^verbatim>\<open>Client\<close> share their shape. \<open>api\<close> is the wrapped SDK client: it
  is only called when a slot has been consumed. The second component tells whether it was.
\<close>

definition client_call ::
  "string \<Rightarrow> ('a \<Rightarrow> 'r) \<Rightarrow> 'a \<Rightarrow> time \<Rightarrow> string \<Rightarrow> Limiter \<Rightarrow> (client_error + 'r) \<times> bool \<times> Limiter" where
  "client_call operation api args now wid l =
     (if wid = [] then (Inl (WorkflowIDMissing operation), False, l)
      else (case ConsumeWithOperation now wid l of
          (Some err, l') \<Rightarrow> (Inl (RateLimitConsume err), False, l')
        | (None, l') \<Rightarrow> (Inr (api args), True, l')))"

definition ListBots ::
  "('a \<Rightarrow> 'r) \<Rightarrow> 'a \<Rightarrow> time \<Rightarrow> string \<Rightarrow> Limiter \<Rightarrow> (client_error + 'r) \<times> bool \<times> Limiter" where
  "ListBots = client_call ''ListBots''"

definition GetListOfDeals ::
  "('a \<Rightarrow> 'r) \<Rightarrow> 'a \<Rightarrow> time \<Rightarrow> string \<Rightarrow> Limiter \<Rightarrow> (client_error + 'r) \<times> bool \<times> Limiter" where
  "GetListOfDeals = client_call ''GetListOfDeals''"

definition GetDealForID ::
  "('a \<Rightarrow> 'r) \<Rightarrow> 'a \<Rightarrow> time \<Rightarrow> string \<Rightarrow> Limiter \<Rightarrow> (client_error + 'r) \<times> bool \<times> Limiter" where
  "GetDealForID = client_call ''GetDealForID''"

section \<open>The invariant\<close>

definition reserved_slots :: "Limiter \<Rightarrow> int" where
  "reserved_slots l = (\<Sum>x\<leftarrow>activeReservations l. slotsReserved (snd x))"

text \<open>Slots that are reserved and not yet used: calls the workflows may still make.\<close>

definition outstanding :: "Limiter \<Rightarrow> int" where
  "outstanding l = (\<Sum>x\<leftarrow>activeReservations l. slotsReserved (snd x) - slotsConsumed (snd x))"

definition res_ok :: "reservation \<Rightarrow> bool" where
  "res_ok r \<longleftrightarrow> 0 \<le> slotsConsumed r \<and> slotsConsumed r \<le> slotsReserved r"

definition max_slots :: int where
  "max_slots = 2 ^ 60"

definition res_inv :: "Limiter \<Rightarrow> bool" where
  "res_inv l \<longleftrightarrow>
     0 \<le> limit l \<and> limit l \<le> max_slots \<and> 0 \<le> consumed l \<and>
     distinct (map fst (activeReservations l)) \<and>
     (\<forall>x \<in> set (activeReservations l). res_ok (snd x)) \<and>
     reserved_slots l \<le> limit l \<and> consumed l + outstanding l \<le> limit l"

definition queue_ok :: "waitingWorkflow list \<Rightarrow> bool" where
  "queue_ok q \<longleftrightarrow> (\<forall>w \<in> set q. 0 < requestedSlots w \<and> requestedSlots w \<le> max_slots)"

definition lim_inv :: "Limiter \<Rightarrow> bool" where
  "lim_inv l \<longleftrightarrow> res_inv l \<and> queue_ok (waitQueue l)"

named_theorems lim_simps \<open>the limiter's derived quantities after an update of the state\<close>

lemma sums_update_fields [lim_simps]:
  "reserved_slots (l\<lparr>waitQueue := q\<rparr>) = reserved_slots l"
  "outstanding (l\<lparr>waitQueue := q\<rparr>) = outstanding l"
  "reserved_slots (l\<lparr>closed_ready := c\<rparr>) = reserved_slots l"
  "outstanding (l\<lparr>closed_ready := c\<rparr>) = outstanding l"
  "reserved_slots (l\<lparr>windowStart := t, consumed := n\<rparr>) = reserved_slots l"
  "outstanding (l\<lparr>windowStart := t, consumed := n\<rparr>) = outstanding l"
  by (simp_all add: reserved_slots_def outstanding_def)

lemma res_inv_queue [lim_simps]:
  "res_inv (l\<lparr>waitQueue := q\<rparr>) = res_inv l"
  "res_inv (l\<lparr>closed_ready := c\<rparr>) = res_inv l"
  "res_inv (l\<lparr>next_object := n\<rparr>) = res_inv l"
  "res_inv (l\<lparr>orphans := os\<rparr>) = res_inv l"
  "res_inv (l\<lparr>waitQueue := q, next_object := n\<rparr>) = res_inv l"
  by (simp_all add: res_inv_def reserved_slots_def outstanding_def)

lemma foldl_wrap64:
  assumes "\<forall>x \<in> set xs. 0 \<le> f x" and "0 \<le> a" and "a + (\<Sum>x\<leftarrow>xs. f x) < 2 ^ 63"
  shows "foldl (\<lambda>t x. wrap64 (t + f x)) a xs = a + (\<Sum>x\<leftarrow>xs. f x)"
  using assms
proof (induction xs arbitrary: a)
  case Nil
  then show ?case by simp
next
  case (Cons x xs)
  have "0 \<le> (\<Sum>x\<leftarrow>xs. f x)"
    using Cons.prems(1) by (intro sum_list_nonneg) auto
  with Cons.prems have "wrap64 (a + f x) = a + f x"
    by (intro wrap64_id) auto
  with Cons show ?case by (simp add: add.assoc)
qed

lemma reserved_nonneg: "res_inv l \<Longrightarrow> 0 \<le> reserved_slots l"
  unfolding reserved_slots_def res_inv_def res_ok_def by (intro sum_list_nonneg) fastforce

lemma outstanding_nonneg: "res_inv l \<Longrightarrow> 0 \<le> outstanding l"
  unfolding outstanding_def res_inv_def res_ok_def by (intro sum_list_nonneg) fastforce

lemma outstanding_le_reserved: "res_inv l \<Longrightarrow> outstanding l \<le> reserved_slots l"
  unfolding outstanding_def reserved_slots_def res_inv_def res_ok_def
  by (intro sum_list_mono) fastforce

lemma calculateTotalReserved_eq:
  assumes "res_inv l"
  shows "calculateTotalReserved l = reserved_slots l"
proof -
  have "\<forall>x \<in> set (activeReservations l). 0 \<le> slotsReserved (snd x)"
    using assms by (fastforce simp: res_inv_def res_ok_def)
  moreover have "reserved_slots l < 2 ^ 63"
    using assms by (simp add: res_inv_def max_slots_def)
  ultimately show ?thesis
    unfolding calculateTotalReserved_def reserved_slots_def
    by (subst foldl_wrap64) simp_all
qed

lemma has_capacity_iff:
  assumes "res_inv l" and "0 < n" and "n \<le> max_slots"
  shows "has_capacity l (reserved_slots l) n \<longleftrightarrow> consumed l + reserved_slots l + n \<le> limit l"
proof -
  have "0 \<le> consumed l" "consumed l \<le> max_slots" "reserved_slots l \<le> max_slots"
    using assms(1) outstanding_nonneg [OF assms(1)] by (auto simp: res_inv_def)
  with assms reserved_nonneg [OF assms(1)] show ?thesis
    by (simp add: has_capacity_def wrap64_id max_slots_def)
qed

subsection \<open>The helpers keep it\<close>

lemma res_inv_consumed_0:
  "res_inv l \<Longrightarrow> res_inv (l\<lparr>windowStart := t, consumed := 0\<rparr>)"
  using outstanding_le_reserved [of l] by (simp add: res_inv_def lim_simps)

lemma resetWindow_res_inv: "res_inv l \<Longrightarrow> res_inv (snd (resetWindowIfNeeded now l))"
  by (simp add: resetWindowIfNeeded_def res_inv_consumed_0)

lemma resetWindow_fields [simp]:
  "activeReservations (snd (resetWindowIfNeeded now l)) = activeReservations l"
  "waitQueue (snd (resetWindowIfNeeded now l)) = waitQueue l"
  "limit (snd (resetWindowIfNeeded now l)) = limit l"
  "next_object (snd (resetWindowIfNeeded now l)) = next_object l"
  "closed_ready (snd (resetWindowIfNeeded now l)) = closed_ready l"
  "orphans (snd (resetWindowIfNeeded now l)) = orphans l"
  "reserved_slots (snd (resetWindowIfNeeded now l)) = reserved_slots l"
  "outstanding (snd (resetWindowIfNeeded now l)) = outstanding l"
  "calculateTotalReserved (snd (resetWindowIfNeeded now l)) = calculateTotalReserved l"
  by (simp_all add: resetWindowIfNeeded_def lim_simps calculateTotalReserved_def)

text \<open>A reservation is replaced: what the three sums in the invariant become.\<close>

lemma res_inv_update:
  assumes inv: "res_inv l" and r: "map_of (activeReservations l) wid = Some r" and ok: "res_ok r'"
    and le: "slotsReserved r' \<le> slotsReserved r" and c0: "0 \<le> c"
    and used: "c + (slotsReserved r' - slotsConsumed r') \<le>
      consumed l + (slotsReserved r - slotsConsumed r)"
  shows "res_inv (l\<lparr>consumed := c,
    activeReservations := AList.update wid r' (activeReservations l)\<rparr>)" (is "res_inv ?l")
proof -
  have "reserved_slots ?l = reserved_slots l - slotsReserved r + slotsReserved r'"
    using sum_list_update_present [OF r, of slotsReserved r'] by (simp add: reserved_slots_def)
  moreover have "outstanding ?l = outstanding l - (slotsReserved r - slotsConsumed r) +
      (slotsReserved r' - slotsConsumed r')"
    using sum_list_update_present [OF r, of "\<lambda>x. slotsReserved x - slotsConsumed x" r']
    by (simp add: outstanding_def)
  moreover have "\<forall>x \<in> set (AList.update wid r' (activeReservations l)). res_ok (snd x)"
    using inv ok by (auto simp: res_inv_def dest!: set_update_subset)
  ultimately show ?thesis
    using inv le c0 used by (simp add: res_inv_def distinct_update)
qed

lemma put_reservation_res_inv:
  assumes inv: "res_inv l" and n: "0 < n" and fit: "consumed l + reserved_slots l + n \<le> limit l"
  shows "res_inv (put_reservation now wid n l)" (is "res_inv ?l")
proof -
  let ?r = "\<lparr>res_object = next_object l, workflowID = wid, slotsReserved = n, slotsConsumed = 0,
           res_createdAt = now, completed = False\<rparr>"
  have active: "activeReservations ?l = AList.update wid ?r (activeReservations l)"
    and other: "limit ?l = limit l" "consumed ?l = consumed l"
    by (simp_all add: put_reservation_def)
  have pos: "0 \<le> slotsReserved (snd x)" "0 \<le> slotsReserved (snd x) - slotsConsumed (snd x)"
    if "x \<in> set (activeReservations l)" for x
    using inv that by (fastforce simp: res_inv_def res_ok_def)+
  have "reserved_slots ?l \<le> reserved_slots l + n"
    using sum_list_update_le [of "activeReservations l" slotsReserved wid ?r] pos
    by (simp add: reserved_slots_def active)
  moreover have "outstanding ?l \<le> outstanding l + n"
    using sum_list_update_le
      [of "activeReservations l" "\<lambda>r. slotsReserved r - slotsConsumed r" wid ?r] pos
    by (simp add: outstanding_def active)
  moreover have "\<forall>x \<in> set (activeReservations ?l). res_ok (snd x)"
    using inv n by (auto simp: active res_inv_def res_ok_def dest!: set_update_subset)
  ultimately show ?thesis
    using inv fit outstanding_le_reserved [OF inv] by (simp add: res_inv_def other active distinct_update)
qed

lemma grant_loop_inv:
  "res_inv l \<Longrightarrow> queue_ok q \<Longrightarrow> lim_inv (snd (grant_loop clock k q g l))"
proof (induction q arbitrary: k g l)
  case Nil
  then show ?case by (simp add: lim_inv_def lim_simps)
next
  case (Cons w q)
  define m where "m = snd (resetWindowIfNeeded (clock (2 * k)) l)"
  have inv: "res_inv m" and tot: "calculateTotalReserved m = reserved_slots m"
    using Cons.prems resetWindow_res_inv calculateTotalReserved_eq unfolding m_def by blast+
  have w: "0 < requestedSlots w" "requestedSlots w \<le> max_slots" and q: "queue_ok q"
    using Cons.prems by (auto simp: queue_ok_def)
  show ?case
  proof (cases "has_capacity m (reserved_slots m) (requestedSlots w)")
    case True
    then have "res_inv (put_reservation (clock (2 * k + 1)) (ww_workflowID w) (requestedSlots w) m)"
      using inv w has_capacity_iff put_reservation_res_inv by blast
    then show ?thesis
      using True Cons.IH q by (simp add: m_def [symmetric] tot lim_simps Let_def)
  next
    case False
    then show ?thesis
      using inv Cons.prems(2) by (simp add: m_def [symmetric] tot lim_simps lim_inv_def Let_def)
  qed
qed

lemma tryGrantWaiting_inv: "lim_inv l \<Longrightarrow> lim_inv (snd (tryGrantWaiting clock l))"
  by (simp add: tryGrantWaiting_def lim_inv_def [of l] grant_loop_inv)

lemma set_remove_first: "set (remove_first wid q) \<subseteq> set q"
  by (induction q) auto

subsection \<open>Every method except \<^verbatim>\<open>Extend\<close> keeps it\<close>

lemma Reserve_inv:
  assumes inv: "lim_inv l" and n: "cnt \<le> max_slots"
  shows "lim_inv (snd (Reserve clock wid cnt l))"
proof -
  define m where "m = snd (resetWindowIfNeeded (clock 0) l)"
  have m: "res_inv m" "queue_ok (waitQueue m)"
    using inv resetWindow_res_inv by (auto simp: m_def lim_inv_def)
  have tot: "calculateTotalReserved l = reserved_slots m"
    using inv calculateTotalReserved_eq by (simp add: m_def lim_inv_def)
  have "lim_inv (put_reservation (clock 1) wid cnt m)"
    if "0 < cnt" "has_capacity m (reserved_slots m) cnt"
    using that m n has_capacity_iff put_reservation_res_inv
    by (simp add: lim_inv_def) (simp add: put_reservation_def)
  then show ?thesis
    using inv m n
    by (auto simp: Reserve_def Let_def m_def [symmetric] tot lim_inv_def lim_simps queue_ok_def)
qed

lemma Reserve_cancel_inv: "lim_inv l \<Longrightarrow> lim_inv (snd (Reserve_cancel wid l))"
  using set_remove_first [of wid "waitQueue l"]
  by (auto simp: Reserve_cancel_def removeFromQueue_def lim_inv_def lim_simps queue_ok_def)

lemma map_of_res_ok: "res_inv l \<Longrightarrow> map_of (activeReservations l) wid = Some r \<Longrightarrow> res_ok r"
  by (fastforce simp: res_inv_def dest: map_of_SomeD)

lemma slotsReserved_le:
  assumes "res_inv l" and "map_of (activeReservations l) wid = Some r"
  shows "slotsReserved r \<le> limit l"
proof -
  have "slotsReserved r \<le> reserved_slots l"
    unfolding reserved_slots_def
    using assms by (intro member_le_sum_list) (force dest: map_of_SomeD simp: res_inv_def res_ok_def)+
  then show ?thesis using assms(1) by (simp add: res_inv_def)
qed

lemma Consume_ok:
  fixes now :: time
  assumes inv: "lim_inv l" and r: "map_of (activeReservations l) wid = Some r"
    and lt: "slotsConsumed r < slotsReserved r" and wid: "wid \<noteq> []"
  defines "m \<equiv> snd (resetWindowIfNeeded now l)"
  shows "ConsumeWithOperation now wid l =
    (None, m\<lparr>consumed := consumed m + 1, activeReservations :=
       AList.update wid (r\<lparr>slotsConsumed := slotsConsumed r + 1\<rparr>) (activeReservations l)\<rparr>)"
proof -
  have m: "res_inv m" using inv resetWindow_res_inv by (simp add: m_def lim_inv_def)
  have l: "res_inv l" using inv by (simp add: lim_inv_def)
  have "consumed m \<le> max_slots" "0 \<le> consumed m"
    using m outstanding_nonneg [OF m] by (simp_all add: res_inv_def)
  moreover have "slotsReserved r \<le> max_slots"
    using l slotsReserved_le [OF l r] by (simp add: res_inv_def)
  moreover have "0 \<le> slotsConsumed r"
    using map_of_res_ok [OF l r] by (simp add: res_ok_def)
  ultimately have "wrap64 (consumed m + 1) = consumed m + 1"
    "wrap64 (slotsConsumed r + 1) = slotsConsumed r + 1"
    using lt by (simp_all add: wrap64_id max_slots_def)
  then show ?thesis
    using r lt wid by (simp add: ConsumeWithOperation_def Let_def m_def)
qed

lemma Consume_inv: "lim_inv l \<Longrightarrow> lim_inv (snd (ConsumeWithOperation now wid l))"
proof -
  assume inv: "lim_inv l"
  show ?thesis
  proof (cases "\<exists>r. wid \<noteq> [] \<and> map_of (activeReservations l) wid = Some r \<and>
      slotsConsumed r < slotsReserved r")
    case True
    then obtain r where r: "wid \<noteq> []" "map_of (activeReservations l) wid = Some r"
      "slotsConsumed r < slotsReserved r" by blast
    let ?m = "snd (resetWindowIfNeeded now l)"
    have "res_inv (?m\<lparr>consumed := consumed ?m + 1, activeReservations :=
        AList.update wid (r\<lparr>slotsConsumed := slotsConsumed r + 1\<rparr>) (activeReservations ?m)\<rparr>)"
      using inv r map_of_res_ok [of l wid r] resetWindow_res_inv [of l now]
      by (intro res_inv_update [of _ _ r]) (auto simp: lim_inv_def res_ok_def res_inv_def)
    then show ?thesis
      using inv Consume_ok [OF inv r(2,3,1), of now] by (simp add: lim_inv_def)
  next
    case False
    then show ?thesis
      using inv by (auto simp: ConsumeWithOperation_def split: option.splits)
  qed
qed

lemma res_inv_update_same_consumed:
  assumes "res_inv l" and "map_of (activeReservations l) wid = Some r" and "res_ok r'"
    and "slotsReserved r' \<le> slotsReserved r" and "slotsConsumed r' = slotsConsumed r"
  shows "res_inv (l\<lparr>activeReservations := AList.update wid r' (activeReservations l)\<rparr>)"
  using res_inv_update [OF assms(1-4), of "consumed l"] assms(1,4,5)
  by (simp add: res_inv_def reserved_slots_def outstanding_def)

lemma AdjustDown_inv:
  assumes "lim_inv l"
  shows "lim_inv (snd (AdjustDown clock wid newTotal l))"
proof -
  have "lim_inv (l\<lparr>activeReservations := AList.update wid (r\<lparr>slotsReserved := newTotal\<rparr>) (activeReservations l)\<rparr>)"
    if "map_of (activeReservations l) wid = Some r" "slotsConsumed r \<le> newTotal" "newTotal < slotsReserved r"
    for r
    using assms that res_inv_update_same_consumed [of l wid r "r\<lparr>slotsReserved := newTotal\<rparr>"]
      map_of_res_ok [of l wid r]
    by (simp add: lim_inv_def res_ok_def)
  then show ?thesis
    using assms by (auto simp: AdjustDown_def Let_def tryGrantWaiting_inv split: option.splits)
qed

lemma SignalComplete_inv:
  assumes "lim_inv l"
  shows "lim_inv (snd (SignalComplete clock wid l))"
proof -
  have "lim_inv (l\<lparr>activeReservations := AList.update wid (r\<lparr>completed := True\<rparr>) (activeReservations l)\<rparr>)"
    if "map_of (activeReservations l) wid = Some r" for r
    using assms that res_inv_update_same_consumed [of l wid r "r\<lparr>completed := True\<rparr>"]
      map_of_res_ok [of l wid r]
    by (simp add: lim_inv_def res_ok_def)
  then show ?thesis
    using assms by (auto simp: SignalComplete_def Let_def tryGrantWaiting_inv split: option.splits)
qed

lemma res_inv_delete:
  assumes inv: "res_inv l"
  shows "res_inv (l\<lparr>activeReservations := AList.delete wid (activeReservations l), orphans := os\<rparr>)"
    (is "res_inv ?l")
proof -
  have pos: "0 \<le> slotsReserved (snd x)" "0 \<le> slotsReserved (snd x) - slotsConsumed (snd x)"
    if "x \<in> set (activeReservations l)" for x
    using inv that by (fastforce simp: res_inv_def res_ok_def)+
  have "reserved_slots ?l \<le> reserved_slots l"
    using sum_list_delete_le [of "activeReservations l" slotsReserved wid] pos
    by (simp add: reserved_slots_def)
  moreover have "outstanding ?l \<le> outstanding l"
    using sum_list_delete_le
      [of "activeReservations l" "\<lambda>r. slotsReserved r - slotsConsumed r" wid] pos
    by (simp add: outstanding_def)
  moreover have "\<forall>x \<in> set (AList.delete wid (activeReservations l)). res_ok (snd x)"
    using inv by (auto simp: res_inv_def dest!: set_delete_subset)
  ultimately show ?thesis
    using inv by (simp add: res_inv_def distinct_delete)
qed

lemma Release_inv:
  assumes "lim_inv l"
  shows "lim_inv (snd (Release clock wid l))"
proof -
  have "lim_inv (l\<lparr>activeReservations := AList.delete wid (activeReservations l), orphans := os\<rparr>)" for os
    using assms res_inv_delete by (simp add: lim_inv_def)
  then show ?thesis
    using assms by (auto simp: Release_def Let_def tryGrantWaiting_inv split: option.splits)
qed

lemma Stats_inv: "lim_inv l \<Longrightarrow> lim_inv (snd (Stats now l))"
  by (simp add: Stats_def Let_def lim_inv_def resetWindow_res_inv)

lemma watcher_tick_inv:
  assumes "lim_inv l"
  shows "lim_inv (watcher_tick clock l)"
proof -
  have "lim_inv (snd (resetWindowIfNeeded (clock 0) l))"
    using assms by (simp add: lim_inv_def resetWindow_res_inv)
  with assms show ?thesis
    by (auto simp: watcher_tick_def tryGrantWaiting_inv split: prod.splits bool.splits)
qed

section \<open>The limiter as a transition system\<close>

text \<open>
  Any interleaving of the methods, each atomic under the mutex; \<^verbatim>\<open>Extend\<close>, which no caller in
  the repository uses, is treated on its own below. Requests are at most \<open>max_slots\<close>, far
  above every tier and small enough for the sums to stay inside 64 bits.
\<close>

inductive limiter_step :: "Limiter \<Rightarrow> Limiter \<Rightarrow> bool" where
  reserve: "cnt \<le> max_slots \<Longrightarrow> limiter_step l (snd (Reserve clock wid cnt l))"
| cancel: "limiter_step l (snd (Reserve_cancel wid l))"
| consume: "limiter_step l (snd (ConsumeWithOperation now wid l))"
| adjust: "limiter_step l (snd (AdjustDown clock wid newTotal l))"
| signal: "limiter_step l (snd (SignalComplete clock wid l))"
| release: "limiter_step l (snd (Release clock wid l))"
| stats: "limiter_step l (snd (Stats now l))"
| tick: "limiter_step l (watcher_tick clock l)"

inductive_cases limiter_stepE: "limiter_step l l'"

definition limiter_init :: "Limiter \<Rightarrow> bool" where
  "limiter_init l \<longleftrightarrow> (\<exists>cfg now. l = NewLimiter cfg now \<and>
     0 \<le> cfg_RequestsPerMinute cfg \<and> cfg_RequestsPerMinute cfg \<le> max_slots)"

lemmas limiter_invs = Reserve_inv Reserve_cancel_inv Consume_inv AdjustDown_inv SignalComplete_inv
  Release_inv Stats_inv watcher_tick_inv

interpretation limiter: invariant_system limiter_init limiter_step lim_inv
proof
  show "limiter_init l \<Longrightarrow> lim_inv l" for l
    by (auto simp: limiter_init_def lim_inv_def NewLimiter_def Let_def res_inv_def queue_ok_def
        reserved_slots_def outstanding_def)
  show "lim_inv l \<Longrightarrow> limiter_step l l' \<Longrightarrow> lim_inv l'" for l l'
    by (erule limiter_stepE) (simp_all add: limiter_invs)
qed

section \<open>Properties\<close>

text \<open>
  C1: The rate limit holds. Whatever the interleaving of reservations, cancellations, consumptions,
  adjustments, releases, statistics calls and ticks, and whatever the clock shows, the calls made
  in the current window never exceed the limit, and neither do they together with every call the
  holders of reservations are still entitled to make.
\<close>

theorem limiter_never_exceeds_limit:
  assumes "limiter_init s" and "limiter_step\<^sup>*\<^sup>* s l"
  shows "0 \<le> consumed l \<and> consumed l \<le> limit l \<and> consumed l + outstanding l \<le> limit l \<and>
    reserved_slots l \<le> limit l"
proof -
  have "res_inv l"
    using limiter.inv_reachable [OF assms] by (simp add: lim_inv_def)
  with outstanding_nonneg [of l] show ?thesis by (simp add: res_inv_def)
qed

definition sample_cfg :: "int \<Rightarrow> Config" where
  "sample_cfg n = \<lparr>cfg_RequestsPerMinute = n, cfg_WindowDuration = 0, cfg_PrioritySlots = 1\<rparr>"

definition sample_run :: Limiter where
  "sample_run = snd (ConsumeWithOperation 3 ''a'' (snd (Reserve (\<lambda>_. 2) ''a'' 2 (NewLimiter (sample_cfg 5) 1))))"

theorem limiter_never_exceeds_limit_witness:
  "limiter_init (NewLimiter (sample_cfg 5) 1) \<and> consumed sample_run = 1 \<and> outstanding sample_run = 1 \<and>
   consumed sample_run + outstanding sample_run \<le> limit sample_run"
proof -
  have "limiter_init (NewLimiter (sample_cfg 5) 1)"
    by (auto simp: limiter_init_def sample_cfg_def max_slots_def)
  moreover have "limiter_step\<^sup>*\<^sup>* (NewLimiter (sample_cfg 5) 1) sample_run"
  proof -
    have "limiter_step (NewLimiter (sample_cfg 5) 1)
        (snd (Reserve (\<lambda>_. 2) ''a'' 2 (NewLimiter (sample_cfg 5) 1)))"
      by (rule reserve) (simp add: max_slots_def)
    moreover have "limiter_step (snd (Reserve (\<lambda>_. 2) ''a'' 2 (NewLimiter (sample_cfg 5) 1))) sample_run"
      unfolding sample_run_def by (rule consume)
    ultimately show ?thesis by (rule converse_rtranclp_into_rtranclp [OF _ r_into_rtranclp])
  qed
  ultimately have "consumed sample_run + outstanding sample_run \<le> limit sample_run"
    using limiter_never_exceeds_limit by blast
  moreover have "consumed sample_run = 1" "outstanding sample_run = 1"
    by code_simp+
  ultimately show ?thesis
    using \<open>limiter_init (NewLimiter (sample_cfg 5) 1)\<close> by simp
qed

subsection \<open>The queue\<close>

lemma put_reservation_fields [simp]:
  "map_of (activeReservations (put_reservation now wid n l)) w =
     (if w = wid then Some \<lparr>res_object = next_object l, workflowID = wid, slotsReserved = n,
        slotsConsumed = 0, res_createdAt = now, completed = False\<rparr>
      else map_of (activeReservations l) w)"
  "waitQueue (put_reservation now wid n l) = waitQueue l"
  "closed_ready (put_reservation now wid n l) = closed_ready l"
  "limit (put_reservation now wid n l) = limit l"
  by (simp_all add: put_reservation_def)

lemma grant_loop_keeps:
  "map_of (activeReservations l) w \<noteq> None \<Longrightarrow>
   map_of (activeReservations (snd (grant_loop clock k q g l))) w \<noteq> None"
  by (induction q arbitrary: k g l) (simp_all add: Let_def)

lemma grant_loop_fifo:
  "\<exists>granted rest. q = granted @ rest \<and>
     (let r = grant_loop clock k q g l; l' = snd r in
       fst r = g + length granted \<and> waitQueue l' = rest \<and>
       closed_ready l' = closed_ready l @ map ready granted \<and>
       (\<forall>w \<in> set granted. map_of (activeReservations l') (ww_workflowID w) \<noteq> None) \<and>
       (rest \<noteq> [] \<longrightarrow> \<not> has_capacity l' (calculateTotalReserved l') (requestedSlots (hd rest))))"
proof (induction q arbitrary: k g l)
  case Nil
  then show ?case by (intro exI [of _ "[]"]) simp
next
  case (Cons w q)
  define m where "m = snd (resetWindowIfNeeded (clock (2 * k)) l)"
  have cl: "closed_ready m = closed_ready l" by (simp add: m_def)
  show ?case
  proof (cases "has_capacity m (calculateTotalReserved m) (requestedSlots w)")
    case True
    define p where "p = put_reservation (clock (2 * k + 1)) (ww_workflowID w) (requestedSlots w) m"
    define p' where "p' = p\<lparr>closed_ready := closed_ready p @ [ready w]\<rparr>"
    have loop: "grant_loop clock k (w # q) g l = grant_loop clock (Suc k) q (Suc g) p'"
      using True by (simp add: p'_def p_def m_def Let_def)
    have p: "closed_ready p' = closed_ready l @ [ready w]"
      "map_of (activeReservations p') (ww_workflowID w) \<noteq> None"
      by (simp_all add: p'_def p_def cl)
    from Cons.IH [of "Suc k" "Suc g" p'] obtain granted rest where
      "q = granted @ rest" and *: "let r = grant_loop clock (Suc k) q (Suc g) p'; l' = snd r in
       fst r = Suc g + length granted \<and> waitQueue l' = rest \<and>
       closed_ready l' = closed_ready p' @ map ready granted \<and>
       (\<forall>w \<in> set granted. map_of (activeReservations l') (ww_workflowID w) \<noteq> None) \<and>
       (rest \<noteq> [] \<longrightarrow> \<not> has_capacity l' (calculateTotalReserved l') (requestedSlots (hd rest)))"
      by blast
    then show ?thesis
      using p grant_loop_keeps [OF p(2), of clock "Suc k" q "Suc g"]
      unfolding loop by (intro exI [of _ "w # granted"] exI [of _ rest]) (auto simp: Let_def)
  next
    case False
    have "has_capacity (m\<lparr>waitQueue := w # q\<rparr>) (calculateTotalReserved (m\<lparr>waitQueue := w # q\<rparr>)) n =
        has_capacity m (calculateTotalReserved m) n" for n
      by (simp add: has_capacity_def calculateTotalReserved_def)
    with False show ?thesis
      by (intro exI [of _ "[]"] exI [of _ "w # q"]) (simp add: m_def [symmetric] cl Let_def)
  qed
qed

text \<open>
  Waiting workflows are served in order of arrival, and as many as fit: a call of
  \<^verbatim>\<open>tryGrantWaiting\<close> takes a prefix off the queue, gives each of its workflows a reservation, closes
  exactly their channels in that order, returns how many they were, and stops only at an empty
  queue or at a head that does not fit.
\<close>

theorem tryGrantWaiting_fifo:
  "\<exists>granted rest. waitQueue l = granted @ rest \<and>
     (let r = tryGrantWaiting clock l; l' = snd r in
       fst r = length granted \<and> waitQueue l' = rest \<and>
       closed_ready l' = closed_ready l @ map ready granted \<and>
       list_all (\<lambda>w. map_of (activeReservations l') (ww_workflowID w) \<noteq> None) granted \<and>
       (case rest of [] \<Rightarrow> True
        | w # _ \<Rightarrow> \<not> has_capacity l' (calculateTotalReserved l') (requestedSlots w)))"
  using grant_loop_fifo [of "waitQueue l" clock 0 0 l]
  by (auto simp: tryGrantWaiting_def list_all_iff Let_def split: list.splits)

lemma tick_first_grant:
  assumes "res_inv l" and "0 < requestedSlots w" and "requestedSlots w \<le> max_slots"
    and "consumed l = 0" and "reserved_slots l + requestedSlots w \<le> limit l"
  shows "has_capacity (snd (resetWindowIfNeeded now l))
    (calculateTotalReserved (snd (resetWindowIfNeeded now l))) (requestedSlots w)"
proof -
  let ?m = "snd (resetWindowIfNeeded now l)"
  have "res_inv ?m" "consumed ?m = 0"
    using assms by (auto simp: resetWindow_res_inv) (simp add: resetWindowIfNeeded_def)
  then show ?thesis
    using assms has_capacity_iff [of ?m "requestedSlots w"]
    by (simp add: calculateTotalReserved_eq)
qed

text \<open>
  The background ticker wakes the queue. When the window has elapsed at a tick, the workflow at
  the head of the queue is granted its slots at that tick, provided they fit beside the
  reservations that are still held.
\<close>

theorem watcher_tick_wakes_head:
  assumes "lim_inv l" and "waitQueue l = w # rest" and "window l \<le> clock 0 - windowStart l"
    and "reserved_slots l + requestedSlots w \<le> limit l"
  shows "Reserve_ready (ready w) (watcher_tick clock l) \<and>
    map_of (activeReservations (watcher_tick clock l)) (ww_workflowID w) \<noteq> None"
proof -
  define l0 where "l0 = l\<lparr>windowStart := clock 0, consumed := 0\<rparr>"
  have w: "0 < requestedSlots w" "requestedSlots w \<le> max_slots"
    using assms(1,2) by (auto simp: lim_inv_def queue_ok_def)
  have l0: "res_inv l0" "consumed l0 = 0" "reserved_slots l0 + requestedSlots w \<le> limit l0"
      "waitQueue l0 = w # rest"
    using assms by (simp_all add: l0_def res_inv_consumed_0 lim_inv_def lim_simps)
  let ?t = "snd (tryGrantWaiting (\<lambda>k. clock (Suc k)) l0)"
  have tick: "watcher_tick clock l = ?t"
    using assms(2,3) by (simp add: watcher_tick_def resetWindowIfNeeded_def l0_def)
  have first: "has_capacity (snd (resetWindowIfNeeded (clock 1) l0))
      (calculateTotalReserved (snd (resetWindowIfNeeded (clock 1) l0))) (requestedSlots w)"
    by (rule tick_first_grant [OF l0(1) w l0(2,3)])
  define p where "p = put_reservation (clock 2) (ww_workflowID w) (requestedSlots w)
    (snd (resetWindowIfNeeded (clock 1) l0))"
  define p' where "p' = p\<lparr>closed_ready := closed_ready p @ [ready w]\<rparr>"
  have t: "?t = snd (grant_loop (\<lambda>k. clock (Suc k)) 1 rest 1 p')"
    using first l0(4) by (simp add: tryGrantWaiting_def p'_def p_def Let_def eval_nat_numeral)
  have p: "ready w \<in> set (closed_ready p')"
    "map_of (activeReservations p') (ww_workflowID w) \<noteq> None"
    by (simp_all add: p'_def p_def)
  have "ready w \<in> set (closed_ready ?t)"
    using p(1) grant_loop_fifo [of rest "\<lambda>k. clock (Suc k)" 1 1 p'] t by (auto simp: Let_def)
  moreover have "map_of (activeReservations ?t) (ww_workflowID w) \<noteq> None"
    using grant_loop_keeps [OF p(2)] t by metis
  ultimately show ?thesis
    by (simp add: tick Reserve_ready_def)
qed

definition queued_limiter :: Limiter where
  "queued_limiter = (let l = NewLimiter (sample_cfg 1) 0;
       l = snd (Reserve (\<lambda>_. 1) ''a'' 1 l);
       l = snd (ConsumeWithOperation 2 ''a'' l);
       l = snd (Reserve (\<lambda>_. 3) ''b'' 1 l)
     in snd (Release (\<lambda>_. 4) ''a'' l))"

lemma queued_limiter_state:
  "waitQueue queued_limiter =
     [\<lparr>ww_workflowID = ''b'', requestedSlots = 1, ww_createdAt = 3, ready = 1\<rparr>]"
  "activeReservations queued_limiter = []" "limit queued_limiter = 1" "consumed queued_limiter = 1"
  "window queued_limiter = 60 * second" "windowStart queued_limiter = 0"
  by code_simp+

theorem watcher_tick_wakes_head_witness:
  "Reserve_ready 1 (watcher_tick (\<lambda>_. 60 * second) queued_limiter)"
proof -
  have "lim_inv queued_limiter"
    by (simp add: lim_inv_def res_inv_def queue_ok_def queued_limiter_state reserved_slots_def
        outstanding_def max_slots_def)
  then show ?thesis
    using watcher_tick_wakes_head [of queued_limiter _ _ "\<lambda>_. 60 * second"] queued_limiter_state
    by (fastforce simp: reserved_slots_def)
qed

subsection \<open>One workflow's budget\<close>

text \<open>A workflow that consumes again and again, at the given instants: which attempts succeed.\<close>

fun consume_many :: "string \<Rightarrow> time list \<Rightarrow> Limiter \<Rightarrow> bool list \<times> Limiter" where
  "consume_many wid [] l = ([], l)"
| "consume_many wid (now # ts) l =
     (let (err, l') = ConsumeWithOperation now wid l; (oks, l'') = consume_many wid ts l'
      in ((err = None) # oks, l''))"

lemma Consume_exhausted:
  assumes "wid \<noteq> []" and "map_of (activeReservations l) wid = Some r"
    and "slotsReserved r \<le> slotsConsumed r"
  shows "ConsumeWithOperation now wid l = (Some ErrConsumeExceedsLimit, l)"
  using assms by (simp add: ConsumeWithOperation_def)

lemma consume_many_exhausted:
  assumes "wid \<noteq> []" and "map_of (activeReservations l) wid = Some r"
    and "slotsReserved r \<le> slotsConsumed r"
  shows "consume_many wid ts l = (replicate (length ts) False, l)"
  using Consume_exhausted [OF assms] by (induction ts) simp_all

text \<open>
  A reservation is a budget of calls over its whole life: of any number of attempts to consume,
  exactly the first ones succeed, as many as the reservation has unused slots, however many
  windows pass in between; every later one is refused. So a producer run that reserves the whole limit can
  list the deals of at most limit minus one bots, no matter how long it runs.
\<close>

theorem consume_budget:
  assumes "lim_inv l" and "wid \<noteq> []" and "map_of (activeReservations l) wid = Some r"
  shows "fst (consume_many wid ts l) =
    map (\<lambda>i. int i < slotsReserved r - slotsConsumed r) [0..<length ts]"
  using assms
proof (induction ts arbitrary: l r)
  case Nil
  then show ?case by simp
next
  case (Cons now ts)
  let ?left = "slotsReserved r - slotsConsumed r"
  show ?case
  proof (cases "slotsConsumed r < slotsReserved r")
    case True
    let ?r = "r\<lparr>slotsConsumed := slotsConsumed r + 1\<rparr>"
    obtain l' where c: "ConsumeWithOperation now wid l = (None, l')"
      and l': "map_of (activeReservations l') wid = Some ?r"
      using Consume_ok [OF Cons.prems(1,3) True Cons.prems(2), of now] by auto
    have "lim_inv l'"
      using Consume_inv [OF Cons.prems(1), of now wid] c by simp
    from Cons.IH [OF this Cons.prems(2) l']
    have "fst (consume_many wid ts l') = map (\<lambda>i. int i < ?left - 1) [0..<length ts]"
      by (simp add: algebra_simps)
    moreover have "map (\<lambda>i. int i < ?left) [0..<Suc (length ts)] =
        (0 < ?left) # map (\<lambda>i. int i < ?left - 1) [0..<length ts]"
      by (subst upt_conv_Cons) (auto simp: map_Suc_upt [symmetric] simp del: upt_Suc)
    ultimately show ?thesis
      using True c by (simp add: split_beta Let_def del: upt_Suc)
  next
    case False
    then have "consume_many wid (now # ts) l = (replicate (length (now # ts)) False, l)"
      using Cons.prems by (intro consume_many_exhausted) auto
    moreover have "map (\<lambda>i. int i < ?left) [0..<n] = replicate n False" for n
      using False by (auto intro!: nth_equalityI)
    ultimately show ?thesis by (simp only: fst_conv)
  qed
qed

theorem consume_budget_witness:
  "fst (consume_many ''a'' [5, 6, 100 * second, 101 * second] sample_run) = [True, False, False, False]"
proof -
  have "lim_inv sample_run"
    unfolding sample_run_def
    by (intro Consume_inv Reserve_inv limiter.inv_init)
      (auto simp: limiter_init_def sample_cfg_def max_slots_def)
  moreover have "map_of (activeReservations sample_run) ''a'' = Some \<lparr>res_object = 0, workflowID = ''a'',
      slotsReserved = 2, slotsConsumed = 1, res_createdAt = 2, completed = False\<rparr>"
    by code_simp
  ultimately show ?thesis
    using consume_budget [of sample_run "''a''" _ "[5, 6, 100 * second, 101 * second]"]
    by (fastforce simp: upt_rec)
qed

text \<open>
  The client never calls the 3Commas API without having spent a slot for it: the wrapped client
  is reached exactly when the call returns its result, each such call counts one against the window and
  leaves the count within the limit, and a refused call changes nothing.
\<close>

theorem client_call_spends_a_slot:
  assumes "lim_inv l"
  shows "case client_call operation api args now wid l of (result, called, l') \<Rightarrow>
    lim_inv l' \<and>
    (if called
     then result = Inr (api args) \<and> consumed l' = consumed (snd (resetWindowIfNeeded now l)) + 1 \<and>
       consumed l' \<le> limit l
     else l' = l \<and> (\<exists>e. result = Inl e))"
proof (cases "\<exists>r. wid \<noteq> [] \<and> map_of (activeReservations l) wid = Some r \<and>
    slotsConsumed r < slotsReserved r")
  case True
  then obtain r where r: "wid \<noteq> []" "map_of (activeReservations l) wid = Some r"
    "slotsConsumed r < slotsReserved r" by blast
  define l' where "l' = snd (ConsumeWithOperation now wid l)"
  have c: "ConsumeWithOperation now wid l = (None, l')"
      "consumed l' = consumed (snd (resetWindowIfNeeded now l)) + 1" "limit l' = limit l"
    using Consume_ok [OF assms r(2,3,1), of now] by (simp_all add: l'_def)
  have inv: "lim_inv l'"
    using Consume_inv [OF assms] by (simp add: l'_def)
  then have "consumed l' \<le> limit l'"
    using outstanding_nonneg [of l'] by (auto simp: lim_inv_def res_inv_def)
  with c inv r(1) show ?thesis by (simp add: client_call_def)
next
  case False
  then have "\<exists>e. ConsumeWithOperation now wid l = (Some e, l)"
    by (auto simp: ConsumeWithOperation_def split: option.splits)
  with assms show ?thesis by (auto simp: client_call_def)
qed

theorem client_call_spends_a_slot_witness:
  "fst (GetDealForID (\<lambda>n. n + 1) (41 :: int) 5 ''a'' sample_run) = Inr 42 \<and>
   lim_inv (snd (snd (GetDealForID (\<lambda>n. n + 1) (41 :: int) 5 ''a'' sample_run)))"
proof
  show "fst (GetDealForID (\<lambda>n. n + 1) (41 :: int) 5 ''a'' sample_run) = Inr 42"
    by code_simp
  have "lim_inv sample_run"
    unfolding sample_run_def
    by (intro Consume_inv Reserve_inv limiter.inv_init)
      (auto simp: limiter_init_def sample_cfg_def max_slots_def)
  from client_call_spends_a_slot [OF this, where operation = "''GetDealForID''" and api = "\<lambda>n. n + 1"
      and args = "41 :: int" and now = 5 and wid = "''a''"]
  show "lim_inv (snd (snd (GetDealForID (\<lambda>n. n + 1) (41 :: int) 5 ''a'' sample_run)))"
    by (simp add: GetDealForID_def split: prod.splits)
qed

subsection \<open>\<^verbatim>\<open>Extend\<close>\<close>

lemma extend_fits_iff:
  assumes "lim_inv l" and "map_of (activeReservations l) wid = Some r" and "0 \<le> n" and "n \<le> 2 * max_slots"
  shows "extend_fits l n r \<longleftrightarrow> consumed l + n - slotsConsumed r \<le> limit l"
proof -
  have inv: "res_inv l" using assms(1) by (simp add: lim_inv_def)
  have "0 \<le> consumed l" "consumed l \<le> max_slots" "0 \<le> slotsConsumed r" "slotsConsumed r \<le> max_slots"
    using inv outstanding_nonneg [OF inv] slotsReserved_le [OF inv assms(2)]
      map_of_res_ok [OF inv assms(2)] by (auto simp: res_inv_def res_ok_def)
  with assms(3,4) show ?thesis
    by (simp add: extend_fits_def wrap64_id max_slots_def)
qed

text \<open>
  \<^verbatim>\<open>Extend\<close> of a workflow that is the only one to hold a reservation keeps the window's promise:
  if it succeeds at once, the calls already made and the calls still allowed stay within the limit
  together, even when the reservation itself now spans more than one window.
\<close>

theorem Extend_sole_holder_safe:
  assumes "lim_inv l" and "activeReservations l = [(wid, r)]" and "wid \<noteq> []"
    and "0 < additional" and "additional \<le> max_slots"
    and "Extend now wid additional l = (ExtendDone, l')"
  shows "consumed l' + outstanding l' \<le> limit l' \<and>
    map_of (activeReservations l') wid = Some (r\<lparr>slotsReserved := slotsReserved r + additional\<rparr>)"
proof -
  define m where "m = snd (resetWindowIfNeeded now l)"
  have m: "lim_inv m" "map_of (activeReservations m) wid = Some r" "activeReservations m = [(wid, r)]"
    using assms(1,2) by (simp_all add: m_def lim_inv_def resetWindow_res_inv)
  have r: "0 \<le> slotsReserved r" "slotsReserved r \<le> max_slots"
    using slotsReserved_le [of l wid r] map_of_res_ok [of l wid r] assms(1,2)
    by (auto simp: lim_inv_def res_inv_def res_ok_def)
  then have new: "wrap64 (slotsReserved r + additional) = slotsReserved r + additional"
    using assms(4,5) by (simp add: wrap64_id max_slots_def)
  have fits: "extend_fits m (slotsReserved r + additional) r"
    and l': "l' = m\<lparr>activeReservations := [(wid, r\<lparr>slotsReserved := slotsReserved r + additional\<rparr>)]\<rparr>"
    using assms(2-4,6) by (auto simp: Extend_def Let_def new m_def split: if_splits)
  have "consumed m + (slotsReserved r + additional) - slotsConsumed r \<le> limit m"
    using fits extend_fits_iff [OF m(1,2)] r assms(4,5) by simp
  then show ?thesis
    by (simp add: l' outstanding_def)
qed

theorem Extend_sole_holder_safe_witness:
  "\<exists>l'. Extend 9 ''a'' 3 sample_run = (ExtendDone, l') \<and> consumed l' + outstanding l' \<le> limit l'"
proof -
  let ?r = "\<lparr>res_object = 0, workflowID = ''a'', slotsReserved = 2, slotsConsumed = 1,
      res_createdAt = 2, completed = False\<rparr>"
  have inv: "lim_inv sample_run"
    unfolding sample_run_def
    by (intro Consume_inv Reserve_inv limiter.inv_init)
      (auto simp: limiter_init_def sample_cfg_def max_slots_def)
  have act: "activeReservations sample_run = [(''a'', ?r)]" by code_simp
  have "fst (Extend 9 ''a'' 3 sample_run) = ExtendDone" by code_simp
  then obtain l' where "Extend 9 ''a'' 3 sample_run = (ExtendDone, l')"
    by (cases "Extend 9 ''a'' 3 sample_run") auto
  with Extend_sole_holder_safe [OF inv act _ _ _ this] show ?thesis
    by (auto simp: max_slots_def)
qed

definition overcommit_run :: "bool list \<times> bool list \<times> Limiter" where
  "overcommit_run =
     (let l = NewLimiter (sample_cfg 10) 0;
          l = snd (Reserve (\<lambda>_. 1) ''a'' 5 l);
          l = snd (Reserve (\<lambda>_. 1) ''b'' 5 l);
          l = snd (Extend 2 ''a'' 5 l);
          (oks, l) = consume_many ''a'' (replicate 10 3) l;
          (oks', l) = consume_many ''b'' (replicate 5 3) l
      in (oks, oks', l))"

text \<open>
  With another holder around, \<^verbatim>\<open>Extend\<close> can break the rate limit, because its check leaves out
  the slots the others have reserved. Limit 10, two workflows with five slots each: one extends
  by five, both use what they were granted, and 15 calls are made in one window.
\<close>

theorem Extend_can_exceed_limit:
  "case overcommit_run of (oks, oks', l) \<Rightarrow>
     list_all id oks \<and> list_all id oks' \<and> windowStart l = 0 \<and> limit l = 10 \<and> consumed l = 15"
  by code_simp

subsection \<open>Two races of a blocked \<^verbatim>\<open>Reserve\<close>\<close>

definition stats_then_tick :: Limiter where
  "stats_then_tick = watcher_tick (\<lambda>_. 66 * second) (snd (Stats (61 * second) queued_limiter))"

text \<open>
  A wake-up can be lost. Workflow b waits, nothing is reserved, and the window ends at 60 s. A
  statistics call at 61 s (an extra \<^verbatim>\<open>Reserve\<close> or \<^verbatim>\<open>Consume\<close> has the same effect) starts the new window without waking the
  queue; the tick at 66 s then sees no reset and leaves b waiting although the whole limit is
  free. Had the statistics call not happened, the same tick would have granted it.
\<close>

theorem window_reset_can_miss_the_queue:
  "Reserve_ready 1 stats_then_tick = False \<and> length (waitQueue stats_then_tick) = 1 \<and>
   activeReservations stats_then_tick = [] \<and> consumed stats_then_tick = 0 \<and>
   has_capacity stats_then_tick (calculateTotalReserved stats_then_tick) 1 \<and>
   Reserve_ready 1 (watcher_tick (\<lambda>_. 66 * second) queued_limiter)"
  by code_simp

text \<open>
  A cancelled \<^verbatim>\<open>Reserve\<close> can leave its reservation behind. If the queue grants the workflow
  and its context ends before it runs, \<^verbatim>\<open>Reserve\<close> may return the context's error; the
  reservation stays, so the slots are lost and every later \<^verbatim>\<open>Reserve\<close> of that workflow is
  refused until someone releases a reservation that its owner was told it does not have.
\<close>

theorem cancelled_reserve_leaks:
  assumes "map_of (activeReservations l) wid = Some r" and "wid \<noteq> []" and "0 < cnt"
  shows "case Reserve_cancel wid l of (err, l') \<Rightarrow>
    err = CtxErr \<and> activeReservations l' = activeReservations l \<and>
    fst (Reserve clock wid cnt l') = ReserveErr ErrAlreadyReserved"
  using assms by (simp add: Reserve_cancel_def removeFromQueue_def Reserve_def)

theorem cancelled_reserve_leaks_witness:
  "let l = watcher_tick (\<lambda>_. 60 * second) queued_limiter in
     Reserve_ready 1 l \<and> fst (Reserve_cancel ''b'' l) = CtxErr \<and>
     fst (Reserve (\<lambda>_. 61 * second) ''b'' 1 (snd (Reserve_cancel ''b'' l))) = ReserveErr ErrAlreadyReserved"
proof -
  let ?l = "watcher_tick (\<lambda>_. 60 * second) queued_limiter"
  have "Reserve_ready 1 ?l" "map_of (activeReservations ?l) ''b'' = Some \<lparr>res_object = 2, workflowID = ''b'',
      slotsReserved = 1, slotsConsumed = 0, res_createdAt = 60 * second, completed = False\<rparr>"
    by code_simp+
  with cancelled_reserve_leaks [OF this(2), of 1 "\<lambda>_. 61 * second"] show ?thesis
    by (simp add: split_beta)
qed

end
