(* ===== verification/Vault.thy ===== *)
theory Vault
  imports Recomma_Types
begin

text \<open>
  \<^verbatim>\<open>internal/vault/types.go\<close> and \<^verbatim>\<open>internal/vault/controller.go\<close>: the decrypted secrets,
  their validation, and the controller that keeps them in memory while the vault is unsealed.

  JSON text is modelled by its decoded value: \<open>venues_payload\<close> is what the \<^verbatim>\<open>venues\<close>
  field can hold. A flag's value, which the vault only copies, is its JSON text. The controller's
  methods run under its mutex and are functions of its state; a channel is a number, and
  \<open>closed_channels\<close> lists the closed ones.
\<close>

section \<open>Secrets\<close>

record VenueSecret =
  vs_ID :: string
  vs_Type :: string
  vs_DisplayName :: string
  vs_Wallet :: string
  vs_PrivateKey :: string
  vs_APIURL :: string
  vs_WebsocketURL :: string
  vs_Flags :: "(string \<times> string) list option"
  vs_Primary :: bool

record Data =
  THREECOMMASAPIKEY :: string
  THREECOMMASPRIVATEKEY :: string
  THREECOMMASPLANTIER :: string
  Venues :: "VenueSecret list"

record Secrets =
  sc_Secrets :: Data
  sc_Raw :: "byte list"
  sc_ReceivedAt :: time

record User =
  us_ID :: int
  us_Username :: string
  us_CreatedAt :: time

text \<open>\<^verbatim>\<open>wireVenue\<close> has the fields of \<^verbatim>\<open>VenueSecret\<close>.\<close>

type_synonym wireVenue = VenueSecret

datatype venues_payload =
  VenuesAbsent
| VenuesMap "(string \<times> wireVenue) list"
| VenuesList "wireVenue list"
| VenuesMalformed
| VenuesOther

record wireData =
  wd_APIKey :: string
  wd_Private :: string
  wd_PlanTier :: string
  wd_Venues :: venues_payload

datatype payload_error = JSONError | UnsupportedVenuesFormat

definition copyFlags :: "(string \<times> string) list option \<Rightarrow> (string \<times> string) list option" where
  "copyFlags src =
     (case src of
        None \<Rightarrow> None
      | Some [] \<Rightarrow> Some []
      | Some kvs \<Rightarrow> Some (fold (\<lambda>(k, v) dst. AList.update k v dst) kvs []))"

definition convertWireVenue :: "wireVenue \<Rightarrow> VenueSecret" where
  "convertWireVenue v =
     \<lparr>vs_ID = TrimSpace (vs_ID v), vs_Type = TrimSpace (vs_Type v),
      vs_DisplayName = TrimSpace (vs_DisplayName v), vs_Wallet = TrimSpace (vs_Wallet v),
      vs_PrivateKey = TrimSpace (vs_PrivateKey v), vs_APIURL = TrimSpace (vs_APIURL v),
      vs_WebsocketURL = TrimSpace (vs_WebsocketURL v), vs_Flags = copyFlags (vs_Flags v),
      vs_Primary = vs_Primary v\<rparr>"

text \<open>\<^verbatim>\<open>sort.SliceStable\<close> by id; the order of the association list is the map's iteration order.\<close>

definition parseWireVenues :: "venues_payload \<Rightarrow> payload_error + VenueSecret list" where
  "parseWireVenues raw =
     (case raw of
        VenuesAbsent \<Rightarrow> Inr []
      | VenuesMap mapped \<Rightarrow>
          Inr (sort_key vs_ID (map (\<lambda>(key, venue).
            let v = convertWireVenue venue
            in if vs_ID v = [] then v\<lparr>vs_ID := TrimSpace key\<rparr> else v) mapped))
      | VenuesList vs \<Rightarrow> Inr (map convertWireVenue vs)
      | VenuesMalformed \<Rightarrow> Inl JSONError
      | VenuesOther \<Rightarrow> Inl UnsupportedVenuesFormat)"

definition UnmarshalJSON :: "wireData option \<Rightarrow> payload_error + Data" where
  "UnmarshalJSON raw =
     (case raw of
        None \<Rightarrow> Inl JSONError
      | Some payload \<Rightarrow>
          (case parseWireVenues (wd_Venues payload) of
             Inl e \<Rightarrow> Inl e
           | Inr venues \<Rightarrow>
               Inr \<lparr>THREECOMMASAPIKEY = wd_APIKey payload, THREECOMMASPRIVATEKEY = wd_Private payload,
                    THREECOMMASPLANTIER = ToLower (TrimSpace (wd_PlanTier payload)),
                    Venues = venues\<rparr>))"

definition VenueSecret_Clone :: "VenueSecret \<Rightarrow> VenueSecret" where
  "VenueSecret_Clone v = v\<lparr>vs_Flags := copyFlags (vs_Flags v)\<rparr>"

definition Data_Clone :: "Data \<Rightarrow> Data" where
  "Data_Clone d =
     \<lparr>THREECOMMASAPIKEY = THREECOMMASAPIKEY d, THREECOMMASPRIVATEKEY = THREECOMMASPRIVATEKEY d,
      THREECOMMASPLANTIER = THREECOMMASPLANTIER d, Venues = map VenueSecret_Clone (Venues d)\<rparr>"

definition Secrets_Clone :: "Secrets \<Rightarrow> Secrets" where
  "Secrets_Clone s =
     \<lparr>sc_Secrets = Data_Clone (sc_Secrets s), sc_Raw = sc_Raw s, sc_ReceivedAt = sc_ReceivedAt s\<rparr>"

fun find_primary :: "string \<Rightarrow> VenueSecret list \<Rightarrow> VenueSecret option" where
  "find_primary venueType [] = None"
| "find_primary venueType (venue # rest) =
     (if \<not> vs_Primary venue then find_primary venueType rest
      else if venueType = [] \<or> EqualFold (vs_Type venue) venueType then Some (VenueSecret_Clone venue)
      else find_primary venueType rest)"

definition PrimaryVenueByType :: "string \<Rightarrow> Data \<Rightarrow> VenueSecret option" where
  "PrimaryVenueByType venueType d = find_primary venueType (Venues d)"

section \<open>Validation\<close>

datatype validate_error =
  MissingAPIKey | MissingPrivateKey | MissingPlanTier | BadPlanTier plan_error
| VenueMissingID | DuplicateVenueID string | VenueMissingType string | VenueMissingWallet string
| WalletLength string | WalletNotHex string | VenueMissingPrivateKey string
| PrivateKeyLength string | PrivateKeyNotHex string
| NoPrimaryVenue | MultiplePrimaryVenues

definition is_hex :: "char \<Rightarrow> bool" where
  "is_hex c = (let n = of_char c :: int in
     48 \<le> n \<and> n \<le> 57 \<or> 97 \<le> n \<and> n \<le> 102 \<or> 65 \<le> n \<and> n \<le> 70)"

text \<open>The loop over the venues, with the ids seen and the number of primary venues so far.\<close>

fun Validate_venues :: "VenueSecret list \<Rightarrow> string list \<Rightarrow> nat \<Rightarrow> validate_error + nat" where
  "Validate_venues [] seenIDs primaryCount = Inr primaryCount"
| "Validate_venues (venue # rest) seenIDs primaryCount =
     (let id = TrimSpace (vs_ID venue) in
      if id = [] then Inl VenueMissingID
      else if id \<in> set seenIDs then Inl (DuplicateVenueID id)
      else let seenIDs = id # seenIDs in
      if TrimSpace (vs_Type venue) = [] then Inl (VenueMissingType id)
      else let wallet = TrimSpace (vs_Wallet venue) in
      if wallet = [] then Inl (VenueMissingWallet id)
      else let cleanWallet = TrimPrefix wallet ''0x'' in
      if length cleanWallet \<noteq> 40 then Inl (WalletLength id)
      else if \<not> list_all is_hex cleanWallet then Inl (WalletNotHex id)
      else let privateKey = TrimSpace (vs_PrivateKey venue) in
      if privateKey = [] then Inl (VenueMissingPrivateKey id)
      else let cleanKey = TrimPrefix privateKey ''0x'' in
      if length cleanKey \<noteq> 64 then Inl (PrivateKeyLength id)
      else if \<not> list_all is_hex cleanKey then Inl (PrivateKeyNotHex id)
      else Validate_venues rest seenIDs (if vs_Primary venue then Suc primaryCount else primaryCount))"

definition Validate :: "Data \<Rightarrow> validate_error option" where
  "Validate d =
     (if TrimSpace (THREECOMMASAPIKEY d) = [] then Some MissingAPIKey
      else if TrimSpace (THREECOMMASPRIVATEKEY d) = [] then Some MissingPrivateKey
      else if TrimSpace (THREECOMMASPLANTIER d) = [] then Some MissingPlanTier
      else (case ParseThreeCommasPlanTier (THREECOMMASPLANTIER d) of
          Inl err \<Rightarrow> Some (BadPlanTier err)
        | Inr _ \<Rightarrow>
            if Venues d = [] then None
            else (case Validate_venues (Venues d) [] 0 of
                Inl err \<Rightarrow> Some err
              | Inr primaryCount \<Rightarrow>
                  if primaryCount = 0 then Some NoPrimaryVenue
                  else if 1 < primaryCount then Some MultiplePrimaryVenues
                  else None)))"

text \<open>The contract: what a payload has to satisfy, without an order of checks.\<close>

definition venue_ok :: "VenueSecret \<Rightarrow> bool" where
  "venue_ok v \<longleftrightarrow>
     TrimSpace (vs_ID v) \<noteq> [] \<and> TrimSpace (vs_Type v) \<noteq> [] \<and>
     (let w = TrimPrefix (TrimSpace (vs_Wallet v)) ''0x''; k = TrimPrefix (TrimSpace (vs_PrivateKey v)) ''0x''
      in length w = 40 \<and> list_all is_hex w \<and> length k = 64 \<and> list_all is_hex k)"

definition data_ok :: "Data \<Rightarrow> bool" where
  "data_ok d \<longleftrightarrow>
     TrimSpace (THREECOMMASAPIKEY d) \<noteq> [] \<and> TrimSpace (THREECOMMASPRIVATEKEY d) \<noteq> [] \<and>
     normalizeThreeCommasPlanTier (THREECOMMASPLANTIER d) \<in> {''starter'', ''pro'', ''expert''} \<and>
     list_all venue_ok (Venues d) \<and> distinct (map (\<lambda>v. TrimSpace (vs_ID v)) (Venues d)) \<and>
     (Venues d = [] \<or> length (filter vs_Primary (Venues d)) = 1)"

lemma TrimPrefix_Nil [simp]: "TrimPrefix [] p = []"
  by (simp add: TrimPrefix_def)

lemma venue_ok_wallet: "venue_ok v \<Longrightarrow> TrimSpace (vs_Wallet v) \<noteq> [] \<and> TrimSpace (vs_PrivateKey v) \<noteq> []"
  by (auto simp: venue_ok_def Let_def)

lemma Validate_venues_step:
  "Validate_venues (v # vs) seen n = Inr m \<longleftrightarrow>
     venue_ok v \<and> TrimSpace (vs_ID v) \<notin> set seen \<and>
     Validate_venues vs (TrimSpace (vs_ID v) # seen) (if vs_Primary v then Suc n else n) = Inr m"
  using venue_ok_wallet [of v] by (auto simp: venue_ok_def Let_def)

lemma Validate_venues_iff:
  "Validate_venues vs seen n = Inr m \<longleftrightarrow>
     list_all venue_ok vs \<and> distinct (map (\<lambda>v. TrimSpace (vs_ID v)) vs) \<and>
     set (map (\<lambda>v. TrimSpace (vs_ID v)) vs) \<inter> set seen = {} \<and> m = n + length (filter vs_Primary vs)"
proof (induction vs arbitrary: seen n)
  case Nil
  then show ?case by auto
next
  case (Cons v vs)
  show ?case
    unfolding Validate_venues_step Cons.IH by auto
qed

lemma ToLower_Nil [simp]: "ToLower s = [] \<longleftrightarrow> s = []"
  by (simp add: ToLower_def)

lemma ParseTier_Inr:
  "(\<exists>t. ParseThreeCommasPlanTier raw = Inr t) \<longleftrightarrow>
   normalizeThreeCommasPlanTier raw \<in> {''starter'', ''pro'', ''expert''}"
  by (auto simp: ParseThreeCommasPlanTier_def plan_tiers Let_def)

lemma normalize_nonempty:
  "normalizeThreeCommasPlanTier raw \<in> {''starter'', ''pro'', ''expert''} \<Longrightarrow> TrimSpace raw \<noteq> []"
  by (auto simp: normalizeThreeCommasPlanTier_def ToLower_def)

lemma Validate_None_cases:
  "Validate d = None \<longleftrightarrow>
     TrimSpace (THREECOMMASAPIKEY d) \<noteq> [] \<and> TrimSpace (THREECOMMASPRIVATEKEY d) \<noteq> [] \<and>
     TrimSpace (THREECOMMASPLANTIER d) \<noteq> [] \<and>
     (\<exists>t. ParseThreeCommasPlanTier (THREECOMMASPLANTIER d) = Inr t) \<and>
     (Venues d = [] \<or> Validate_venues (Venues d) [] 0 = Inr 1)"
  by (auto simp: Validate_def split: sum.splits)

lemma Validate_iff_data_ok: "Validate d = None \<longleftrightarrow> data_ok d"
  unfolding Validate_None_cases ParseTier_Inr Validate_venues_iff data_ok_def
  using normalize_nonempty [of "THREECOMMASPLANTIER d"] by auto

text \<open>
  Validation is exact. The order-dependent checks of \<^verbatim>\<open>Validate\<close> accept a payload if and only if it
  meets the contract: both API keys present, a known plan tier, and either no venue at all or
  venues with distinct ids, a type, a 40-digit hexadecimal wallet, a 64-digit hexadecimal key, and exactly one primary.
\<close>

theorem Validate_exact: "Validate d = None \<longleftrightarrow> data_ok d"
  by (rule Validate_iff_data_ok)

section \<open>The controller\<close>

datatype State = StateSetupRequired | StateSealed | StateUnsealed | OtherState string

datatype vault_error = ErrInvalidTransition | ErrPrimaryVenueRequired

record Controller =
  vc_state :: State
  vc_user :: "User option"
  vc_sealedAt :: "time option"
  vc_unsealedAt :: "time option"
  vc_sessionExpiresAt :: "time option"
  vc_secrets :: "Secrets option"
  vc_ready :: nat
  vc_readyClosed :: bool
  closed_channels :: "nat list"
  next_channel :: nat

record controllerConfig =
  cc_user :: "User option"
  cc_sealedAt :: "time option"
  cc_unsealedAt :: "time option"
  cc_sessionExpiresAt :: "time option"
  cc_secrets :: "Secrets option"

definition NewController :: "State \<Rightarrow> controllerConfig \<Rightarrow> Controller" where
  "NewController initial cfg =
     \<lparr>vc_state = initial, vc_user = cc_user cfg, vc_sealedAt = cc_sealedAt cfg,
      vc_unsealedAt = cc_unsealedAt cfg, vc_sessionExpiresAt = cc_sessionExpiresAt cfg,
      vc_secrets = map_option Secrets_Clone (cc_secrets cfg), vc_ready = 0,
      vc_readyClosed = (initial = StateUnsealed),
      closed_channels = (if initial = StateUnsealed then [0] else []), next_channel = 1\<rparr>"

record ControllerStatus =
  st_State :: State
  st_User :: "User option"
  st_SealedAt :: "time option"
  st_UnsealedAt :: "time option"
  st_SessionExpiresAt :: "time option"

definition Status :: "Controller \<Rightarrow> ControllerStatus" where
  "Status c = \<lparr>st_State = vc_state c, st_User = vc_user c, st_SealedAt = vc_sealedAt c,
     st_UnsealedAt = vc_unsealedAt c, st_SessionExpiresAt = vc_sessionExpiresAt c\<rparr>"

definition get_Secrets :: "Controller \<Rightarrow> Secrets option" where
  "get_Secrets c = map_option Secrets_Clone (vc_secrets c)"

definition SetUser :: "User option \<Rightarrow> Controller \<Rightarrow> Controller" where
  "SetUser user c = c\<lparr>vc_user := user\<rparr>"

definition signalReadyLocked :: "Controller \<Rightarrow> Controller" where
  "signalReadyLocked c =
     (if \<not> vc_readyClosed c
      then c\<lparr>closed_channels := vc_ready c # closed_channels c, vc_readyClosed := True\<rparr>
      else c)"

definition resetReadyLocked :: "Controller \<Rightarrow> Controller" where
  "resetReadyLocked c =
     (if vc_readyClosed c
      then c\<lparr>vc_ready := next_channel c, next_channel := Suc (next_channel c), vc_readyClosed := False\<rparr>
      else c)"

definition RequireSetup :: "time \<Rightarrow> Controller \<Rightarrow> Controller" where
  "RequireSetup now c =
     (if vc_state c = StateSetupRequired then c
      else (resetReadyLocked c)\<lparr>vc_state := StateSetupRequired, vc_secrets := None,
             vc_sessionExpiresAt := None, vc_sealedAt := Some now, vc_unsealedAt := None\<rparr>)"

definition Seal :: "time \<Rightarrow> Controller \<Rightarrow> vault_error option \<times> Controller" where
  "Seal now c =
     (case vc_state c of
        StateSealed \<Rightarrow> (None, c)
      | OtherState _ \<Rightarrow> (Some ErrInvalidTransition, c)
      | _ \<Rightarrow> (None, (resetReadyLocked c)\<lparr>vc_state := StateSealed, vc_secrets := None,
               vc_sessionExpiresAt := None, vc_sealedAt := Some now\<rparr>))"

definition ensurePrimaryVenuePresent :: "Data \<Rightarrow> vault_error option" where
  "ensurePrimaryVenuePresent d =
     (if Venues d = [] then Some ErrPrimaryVenueRequired
      else if list_ex vs_Primary (Venues d) then None
      else Some ErrPrimaryVenueRequired)"

definition Unseal ::
  "time \<Rightarrow> Secrets \<Rightarrow> time option \<Rightarrow> Controller \<Rightarrow> vault_error option \<times> Controller" where
  "Unseal now s sessionExpiresAt c =
     (case vc_state c of
        OtherState _ \<Rightarrow> (Some ErrInvalidTransition, c)
      | _ \<Rightarrow>
          (case ensurePrimaryVenuePresent (sc_Secrets s) of
             Some err \<Rightarrow> (Some err, c)
           | None \<Rightarrow>
               (None, signalReadyLocked (c\<lparr>vc_secrets := Some (Secrets_Clone s),
                  vc_sessionExpiresAt := sessionExpiresAt, vc_unsealedAt := Some now,
                  vc_state := StateUnsealed\<rparr>))))"

text \<open>
  \<^verbatim>\<open>WaitUntilUnsealed\<close>: return at once, or wait for the channel that is current now. The wait
  ends when that channel is closed.
\<close>

datatype wait_start = ReturnNil | WaitOn nat

definition WaitUntilUnsealed :: "Controller \<Rightarrow> wait_start" where
  "WaitUntilUnsealed c = (if vc_state c = StateUnsealed then ReturnNil else WaitOn (vc_ready c))"

section \<open>The controller as a transition system\<close>

inductive vault_step :: "Controller \<Rightarrow> Controller \<Rightarrow> bool" where
  set_user: "vault_step c (SetUser user c)"
| require_setup: "vault_step c (RequireSetup now c)"
| seal: "vault_step c (snd (Seal now c))"
| unseal: "vault_step c (snd (Unseal now s ses c))"

inductive_cases vault_stepE: "vault_step c c'"

text \<open>A controller starts in a known state, with secrets exactly when it starts unsealed.\<close>

definition vault_init :: "Controller \<Rightarrow> bool" where
  "vault_init c \<longleftrightarrow> (\<exists>initial cfg. c = NewController initial cfg \<and>
     initial \<in> {StateSetupRequired, StateSealed, StateUnsealed} \<and>
     (case cc_secrets cfg of
        None \<Rightarrow> initial \<noteq> StateUnsealed
      | Some s \<Rightarrow> initial = StateUnsealed \<and> list_ex vs_Primary (Venues (sc_Secrets s))))"

definition vault_inv :: "Controller \<Rightarrow> bool" where
  "vault_inv c \<longleftrightarrow>
     (case vc_secrets c of
        None \<Rightarrow> vc_state c \<in> {StateSetupRequired, StateSealed}
      | Some s \<Rightarrow> vc_state c = StateUnsealed \<and> list_ex vs_Primary (Venues (sc_Secrets s))) \<and>
     vc_readyClosed c = (vc_state c = StateUnsealed) \<and>
     (vc_ready c \<in> set (closed_channels c)) = (vc_state c = StateUnsealed) \<and>
     vc_ready c < next_channel c \<and> (\<forall>ch \<in> set (closed_channels c). ch < next_channel c)"

lemma Primary_Clone [simp]: "vs_Primary (VenueSecret_Clone v) = vs_Primary v"
  by (simp add: VenueSecret_Clone_def)

lemma list_ex_Clone [simp]:
  "list_ex vs_Primary (Venues (sc_Secrets (Secrets_Clone s))) = list_ex vs_Primary (Venues (sc_Secrets s))"
  by (simp add: Secrets_Clone_def Data_Clone_def list_ex_iff)

lemma ensurePrimary_iff: "ensurePrimaryVenuePresent d = None \<longleftrightarrow> list_ex vs_Primary (Venues d)"
  by (auto simp: ensurePrimaryVenuePresent_def)

lemmas vault_ops = SetUser_def RequireSetup_def Seal_def Unseal_def signalReadyLocked_def resetReadyLocked_def

lemma vault_inv_SetUser: "vault_inv c \<Longrightarrow> vault_inv (SetUser u c)"
  by (auto simp: vault_inv_def vault_ops split: option.splits)

lemma vault_inv_RequireSetup: "vault_inv c \<Longrightarrow> vault_inv (RequireSetup now c)"
  by (auto simp: vault_inv_def vault_ops split: option.splits)

lemma vault_inv_Seal: "vault_inv c \<Longrightarrow> vault_inv (snd (Seal now c))"
  by (auto simp: vault_inv_def vault_ops split: option.splits State.splits)

lemma vault_inv_Unseal: "vault_inv c \<Longrightarrow> vault_inv (snd (Unseal now s ses c))"
  using ensurePrimary_iff [of "sc_Secrets s"]
  by (auto simp: vault_inv_def vault_ops split: option.splits State.splits)

lemmas vault_invs = vault_inv_SetUser vault_inv_RequireSetup vault_inv_Seal vault_inv_Unseal

interpretation vault: invariant_system vault_init vault_step vault_inv
proof
  show "vault_init c \<Longrightarrow> vault_inv c" for c
    by (auto simp: vault_init_def vault_inv_def NewController_def split: option.splits)
  show "vault_inv c \<Longrightarrow> vault_step c c' \<Longrightarrow> vault_inv c'" for c c'
    by (erule vault_stepE) (simp_all add: vault_invs)
qed

text \<open>
  C12: Secrets exist exactly while the vault is unsealed. In every state the controller can reach by
  any sequence of its methods, it holds secrets if and only if its state is unsealed, what it holds
  has a primary venue, its state is one of the three known ones, and the channel for waiters is
  closed if and only if it is unsealed.
\<close>

theorem vault_secrets_iff_unsealed:
  assumes "vault_init c0" and "vault_step\<^sup>*\<^sup>* c0 c"
  shows "(get_Secrets c \<noteq> None) = (vc_state c = StateUnsealed) \<and>
    (case get_Secrets c of None \<Rightarrow> True | Some s \<Rightarrow> list_ex vs_Primary (Venues (sc_Secrets s))) \<and>
    vc_state c \<in> {StateSetupRequired, StateSealed, StateUnsealed} \<and>
    (vc_ready c \<in> set (closed_channels c)) = (vc_state c = StateUnsealed)"
  using vault.inv_reachable [OF assms]
  by (auto simp: vault_inv_def get_Secrets_def split: option.splits)

definition sample_venue :: VenueSecret where
  "sample_venue = \<lparr>vs_ID = ''hl'', vs_Type = ''hyperliquid'', vs_DisplayName = [],
     vs_Wallet = replicate 40 (CHR ''a''), vs_PrivateKey = replicate 64 (CHR ''1''), vs_APIURL = [],
     vs_WebsocketURL = [], vs_Flags = None, vs_Primary = True\<rparr>"

definition sample_data :: Data where
  "sample_data = \<lparr>THREECOMMASAPIKEY = ''k'', THREECOMMASPRIVATEKEY = ''p'',
     THREECOMMASPLANTIER = ''pro'', Venues = [sample_venue]\<rparr>"

definition sample_secrets :: Secrets where
  "sample_secrets = \<lparr>sc_Secrets = sample_data, sc_Raw = [], sc_ReceivedAt = 0\<rparr>"

definition sealed_controller :: Controller where
  "sealed_controller = NewController StateSealed \<lparr>cc_user = None, cc_sealedAt = None,
     cc_unsealedAt = None, cc_sessionExpiresAt = None, cc_secrets = None\<rparr>"

lemma sealed_controller_init: "vault_init sealed_controller"
  by (auto simp: vault_init_def sealed_controller_def intro!: exI)

theorem vault_secrets_iff_unsealed_witness:
  "vc_state (snd (Unseal 5 sample_secrets None sealed_controller)) = StateUnsealed \<and>
   get_Secrets (snd (Unseal 5 sample_secrets None sealed_controller)) \<noteq> None"
proof -
  have "vault_step\<^sup>*\<^sup>* sealed_controller (snd (Unseal 5 sample_secrets None sealed_controller))"
    by (intro r_into_rtranclp unseal)
  from vault_secrets_iff_unsealed [OF sealed_controller_init this] show ?thesis
    by (simp add: Unseal_def sealed_controller_def NewController_def ensurePrimaryVenuePresent_def
        sample_secrets_def sample_data_def sample_venue_def signalReadyLocked_def)
qed

text \<open>What a step does to a channel that a waiter holds.\<close>

lemma closed_channels_mono: "vault_step c c' \<Longrightarrow> set (closed_channels c) \<subseteq> set (closed_channels c')"
  by (erule vault_stepE) (auto simp: vault_ops split: option.splits State.splits)

lemma waiter_channel_step:
  assumes "vault_step c c'" and "vault_inv c"
  shows "vc_ready c \<in> set (closed_channels c') \<or> vc_ready c' = vc_ready c"
  using assms
  by (cases rule: vault_step.cases)
    (auto simp: vault_inv_def vault_ops split: option.splits State.splits)

lemma waiter_channel_steps:
  assumes "vault_step\<^sup>*\<^sup>* c c'" and "vault_inv c"
  shows "vault_inv c' \<and> (vc_ready c \<in> set (closed_channels c') \<or> vc_ready c' = vc_ready c)"
  using assms
proof (induction rule: rtranclp_induct)
  case base
  then show ?case by simp
next
  case (step d e)
  then show ?case
    using vault.inv_step [of d e] waiter_channel_step [of d e] closed_channels_mono [of d e] by auto
qed

text \<open>
  Nobody waits for an unsealed vault forever. A caller of \<^verbatim>\<open>WaitUntilUnsealed\<close> that finds the vault
  not unsealed waits on a channel that is still open; whatever happens in between, once the vault
  is unsealed that channel is closed, and it stays closed even if the vault is sealed again before the waiter runs.
\<close>

theorem waiter_is_woken:
  assumes "vault_inv c" and "WaitUntilUnsealed c = WaitOn ch" and "vault_step\<^sup>*\<^sup>* c c'"
    and "vc_state c' = StateUnsealed" and "vault_step\<^sup>*\<^sup>* c' c''"
  shows "ch \<notin> set (closed_channels c) \<and> ch \<in> set (closed_channels c'')"
proof -
  have ch: "ch = vc_ready c" "vc_state c \<noteq> StateUnsealed"
    using assms(2) by (auto simp: WaitUntilUnsealed_def split: if_splits)
  then have "ch \<in> set (closed_channels c')"
    using waiter_channel_steps [OF assms(3,1)] assms(4) by (auto simp: vault_inv_def)
  moreover have "set (closed_channels c') \<subseteq> set (closed_channels c'')"
    using assms(5) by (induction rule: rtranclp_induct) (use closed_channels_mono in blast)+
  ultimately show ?thesis
    using ch assms(1) by (auto simp: vault_inv_def)
qed

theorem waiter_is_woken_witness:
  "let c1 = snd (Unseal 5 sample_secrets None sealed_controller); c2 = snd (Seal 6 c1) in
     vc_state c2 = StateSealed \<and> WaitUntilUnsealed sealed_controller = WaitOn 0 \<and> 0 \<in> set (closed_channels c2)"
proof -
  let ?c1 = "snd (Unseal 5 sample_secrets None sealed_controller)"
  have runs: "vault_step\<^sup>*\<^sup>* sealed_controller ?c1" "vault_step\<^sup>*\<^sup>* ?c1 (snd (Seal 6 ?c1))"
    by (intro r_into_rtranclp unseal, intro r_into_rtranclp seal)
  have st: "WaitUntilUnsealed sealed_controller = WaitOn 0" "vc_state ?c1 = StateUnsealed"
      "vc_state (snd (Seal 6 ?c1)) = StateSealed"
    by code_simp+
  from waiter_is_woken [OF vault.inv_init [OF sealed_controller_init] st(1) runs(1) st(2) runs(2)] st
  show ?thesis by (simp add: Let_def)
qed

lemma filter_one_find_primary:
  "length (filter vs_Primary vs) = 1 \<Longrightarrow>
   find_primary [] vs = Some (VenueSecret_Clone (hd (filter vs_Primary vs))) \<and> list_ex vs_Primary vs"
  by (induction vs) (auto split: if_splits)

text \<open>
  Validation and unsealing disagree on payloads without venues. A payload that passes
  \<^verbatim>\<open>Validate\<close> unseals a known-state controller exactly when it names a venue; then its unique
  primary venue is the one \<^verbatim>\<open>PrimaryVenueByType\<close> returns. With no venue it is accepted as valid and yet refused by
  \<^verbatim>\<open>Unseal\<close>, which leaves the controller as it was.
\<close>

theorem valid_payload_unseals_iff_venues:
  assumes "Validate (sc_Secrets s) = None" and "vault_inv c"
  shows "if Venues (sc_Secrets s) = []
    then Unseal now s ses c = (Some ErrPrimaryVenueRequired, c)
    else fst (Unseal now s ses c) = None \<and>
      get_Secrets (snd (Unseal now s ses c)) = Some (Secrets_Clone (Secrets_Clone s)) \<and>
      (\<exists>v \<in> set (Venues (sc_Secrets s)). vs_Primary v \<and>
         PrimaryVenueByType [] (sc_Secrets s) = Some (VenueSecret_Clone v))"
proof (cases "Venues (sc_Secrets s) = []")
  case True
  then show ?thesis
    using assms(2)
    by (auto simp: Unseal_def ensurePrimaryVenuePresent_def vault_inv_def split: State.splits option.splits)
next
  case False
  then have one: "length (filter vs_Primary (Venues (sc_Secrets s))) = 1"
    using assms(1) by (simp add: Validate_iff_data_ok data_ok_def)
  let ?v = "hd (filter vs_Primary (Venues (sc_Secrets s)))"
  have "?v \<in> set (filter vs_Primary (Venues (sc_Secrets s)))"
    using one by (intro hd_in_set) auto
  then have v: "?v \<in> set (Venues (sc_Secrets s))" "vs_Primary ?v" by auto
  have "ensurePrimaryVenuePresent (sc_Secrets s) = None"
    using filter_one_find_primary [OF one] by (simp add: ensurePrimary_iff)
  moreover have "vc_state c \<in> {StateSetupRequired, StateSealed, StateUnsealed}"
    using assms(2) by (auto simp: vault_inv_def split: option.splits)
  ultimately have "fst (Unseal now s ses c) = None"
    "get_Secrets (snd (Unseal now s ses c)) = Some (Secrets_Clone (Secrets_Clone s))"
    by (auto simp: Unseal_def get_Secrets_def signalReadyLocked_def)
  then show ?thesis
    using False v filter_one_find_primary [OF one] by (auto simp: PrimaryVenueByType_def)
qed

theorem valid_payload_unseals_iff_venues_witness:
  "Validate (sample_data\<lparr>Venues := []\<rparr>) = None \<and>
   fst (Unseal 1 (sample_secrets\<lparr>sc_Secrets := sample_data\<lparr>Venues := []\<rparr>\<rparr>) None sealed_controller) =
     Some ErrPrimaryVenueRequired"
proof
  show v: "Validate (sample_data\<lparr>Venues := []\<rparr>) = None" by code_simp
  have "Unseal 1 (sample_secrets\<lparr>sc_Secrets := sample_data\<lparr>Venues := []\<rparr>\<rparr>) None sealed_controller =
    (Some ErrPrimaryVenueRequired, sealed_controller)"
    using valid_payload_unseals_iff_venues
      [of "sample_secrets\<lparr>sc_Secrets := sample_data\<lparr>Venues := []\<rparr>\<rparr>" sealed_controller 1 None]
      v vault.inv_init [OF sealed_controller_init] by simp
  then show "fst (Unseal 1 (sample_secrets\<lparr>sc_Secrets := sample_data\<lparr>Venues := []\<rparr>\<rparr>) None sealed_controller) =
     Some ErrPrimaryVenueRequired" by simp
qed

end
