(* ===== verification/Strconv.thy ===== *)
theory Strconv
  imports Float64
begin

text \<open>
  \<^verbatim>\<open>strconv.ParseFloat\<close> on decimal notation: an optional sign, digits with an optional point, an
  optional exponent, and the words for infinity and NaN. The value is rounded once; one that
  rounds to infinity is a range error. The hexadecimal and underscore forms of Go literals, which
  no venue sends, count as syntax errors here.
\<close>

definition is_digit :: "char \<Rightarrow> bool" where
  "is_digit c = (let n = of_char c :: int in 48 \<le> n \<and> n \<le> 57)"

definition digit_val :: "char \<Rightarrow> int" where
  "digit_val c = of_char c - 48"

definition digits_val :: "string \<Rightarrow> int" where
  "digits_val ds = foldl (\<lambda>a c. 10 * a + digit_val c) 0 ds"

fun take_sign :: "string \<Rightarrow> bool \<times> string" where
  "take_sign (c # s) = (if c = CHR ''-'' then (True, s) else if c = CHR ''+'' then (False, s) else (False, c # s))"
| "take_sign [] = (False, [])"

definition parse_exponent :: "string \<Rightarrow> int option" where
  "parse_exponent s =
     (case s of
        [] \<Rightarrow> Some 0
      | c # t \<Rightarrow>
          if c = CHR ''e'' \<or> c = CHR ''E'' then
            (let (neg, ds) = take_sign t in
             if ds = [] \<or> \<not> list_all is_digit ds then None
             else Some (if neg then - digits_val ds else digits_val ds))
          else None)"

definition ParseFloat :: "string \<Rightarrow> f64 option" where
  "ParseFloat s =
     (let (neg, r) = take_sign s; l = ToLower r in
      if l = ''inf'' \<or> l = ''infinity'' then Some (if neg then NInf else PInf)
      else if ToLower s = ''nan'' then Some NaN
      else let ip = takeWhile is_digit r; r1 = dropWhile is_digit r;
               (fp, r2) = (case r1 of
                   [] \<Rightarrow> ([], [])
                 | c # t \<Rightarrow> if c = CHR ''.'' then (takeWhile is_digit t, dropWhile is_digit t) else ([], r1))
           in if ip = [] \<and> fp = [] then None
              else (case parse_exponent r2 of
                  None \<Rightarrow> None
                | Some e \<Rightarrow>
                    let m = of_int (digits_val (ip @ fp)) * (10 :: rat) powi (e - int (length fp));
                        v = fl64 (if neg then - m else m)
                    in if is_fin v then Some v else None))"

lemma ParseFloat_valid: "ParseFloat s = Some v \<Longrightarrow> valid_f64 v"
  by (auto simp: ParseFloat_def Let_def split: if_splits option.splits prod.splits list.splits)

end
