(* ===== verification/Fill_Tracker.thy ===== *)
theory Fill_Tracker
  imports Recomma_Types Strconv
begin

text \<open>
  \<^verbatim>\<open>filltracker/service.go\<close>, first part: the state of the fill tracker, the methods of an order
  and of a deal, and the operations that feed venue statuses into it. Take-profit reconciliation
  is in \<open>Fill_Reconcile\<close>.

  The service and its deals share the order objects by pointer. Both maps are always written
  together, under the same identifier and for the deal the identifier names, so an object is
  reached through its identifier: \<open>orders\<close> holds the objects, a deal the identifiers of its
  orders, in the iteration order of its map. The mutex makes each operation atomic. Storage is a
  record of query functions; \<^verbatim>\<open>time.Now()\<close> is a parameter.
\<close>

section \<open>Orders\<close>

definition floatTolerance :: f64 where
  "floatTolerance = fl64 (1 / 1000000)"

record ft_orderState =
  os_identifier :: OrderIdentifier
  os_event :: "tc_BotEvent option"
  os_coin :: string
  os_orderType :: MarketOrderDealOrderType
  os_side :: string
  os_reduceOnly :: bool
  os_originalQty :: f64
  os_remainingQty :: f64
  os_filledQty :: f64
  os_price :: f64
  os_limitPrice :: f64
  os_status :: OrderStatusValue
  os_statusObserved :: time
  os_lastUpdate :: time
  os_hydratedEpoch :: nat

definition new_orderState :: "OrderIdentifier \<Rightarrow> ft_orderState" where
  "new_orderState ident =
     \<lparr>os_identifier = ident, os_event = None, os_coin = [], os_orderType = OtherDealOrderType [],
      os_side = [], os_reduceOnly = False, os_originalQty = 0, os_remainingQty = 0, os_filledQty = 0,
      os_price = 0, os_limitPrice = 0, os_status = [], os_statusObserved = zero_time,
      os_lastUpdate = zero_time, os_hydratedEpoch = 0\<rparr>"

definition isCanceledHyperliquidStatus :: "OrderStatusValue \<Rightarrow> bool" where
  "isCanceledHyperliquidStatus st =
     (if st = OrderStatusValueCanceled then True
      else if st = [] then False
      else let low = ToLower st in HasSuffix low ''canceled'' \<or> HasSuffix low ''cancelled'')"

definition applyEvent :: "tc_BotEvent option \<Rightarrow> ft_orderState \<Rightarrow> ft_orderState" where
  "applyEvent event st =
     (case event of
        None \<Rightarrow> st
      | Some evt \<Rightarrow>
          let st = st\<lparr>os_event := Some evt, os_coin := ev_Coin evt, os_orderType := ev_OrderType evt,
                     os_side := side_string (ev_Type evt)\<rparr>;
              st = (if 0 < ev_Size evt \<and> feq (os_originalQty st) 0
                    then st\<lparr>os_originalQty := ev_Size evt\<rparr> else st);
              st = (if 0 < ev_Price evt then st\<lparr>os_price := ev_Price evt\<rparr> else st)
          in if ev_OrderType evt = DealOrderTypeTakeProfit then st\<lparr>os_reduceOnly := True\<rparr> else st)"

text \<open>\<^verbatim>\<open>if field != "" { if v, err := parseFloat(field); err == nil { ... } }\<close>\<close>

definition set_parsed :: "string \<Rightarrow> (f64 \<Rightarrow> ft_orderState \<Rightarrow> ft_orderState) \<Rightarrow> ft_orderState \<Rightarrow> ft_orderState" where
  "set_parsed fld upd st =
     (if fld = [] then st else (case ParseFloat fld of None \<Rightarrow> st | Some v \<Rightarrow> upd v st))"

definition apply_order_fields :: "WsBasicOrder \<Rightarrow> ft_orderState \<Rightarrow> ft_orderState" where
  "apply_order_fields w st =
     (let st = (if wo_Coin w \<noteq> [] then st\<lparr>os_coin := wo_Coin w\<rparr> else st);
          st = (if wo_Side w \<noteq> [] then st\<lparr>os_side := wo_Side w\<rparr> else st);
          st = set_parsed (wo_LimitPx w) (\<lambda>v st. st\<lparr>os_limitPrice := v\<rparr>) st;
          st = set_parsed (wo_OrigSz w) (\<lambda>v st. st\<lparr>os_originalQty := v\<rparr>) st
      in set_parsed (wo_Sz w) (\<lambda>v st. st\<lparr>os_remainingQty := v\<rparr>) st)"

definition applyStatus :: "time \<Rightarrow> WsOrder \<Rightarrow> ft_orderState \<Rightarrow> ft_orderState" where
  "applyStatus now status st =
     (let observed = UnixMilli (ws_StatusTimestamp status) in
      if 0 < ws_StatusTimestamp status \<and> os_statusObserved st \<noteq> zero_time \<and> observed < os_statusObserved st
      then st
      else
        let st = (if 0 < ws_StatusTimestamp status then st\<lparr>os_statusObserved := observed\<rparr> else st);
            st = st\<lparr>os_status := ws_Status status, os_lastUpdate := now\<rparr>;
            cancelled = isCanceledHyperliquidStatus (ws_Status status);
            st = apply_order_fields (ws_Order status) st;
            filled = (if 0 < os_originalQty st
                      then math_Max 0 (os_originalQty st - os_remainingQty st) else 0);
            st = (if cancelled then st\<lparr>os_remainingQty := 0\<rparr> else st)
        in if 0 < os_originalQty st then st\<lparr>os_filledQty := filled\<rparr> else st)"

definition inferFromEvent :: "ft_orderState \<Rightarrow> ft_orderState" where
  "inferFromEvent st =
     (case os_event st of
        None \<Rightarrow> st
      | Some evt \<Rightarrow>
          let st = (if 0 < ev_Size evt \<and> feq (os_originalQty st) 0
                    then st\<lparr>os_originalQty := ev_Size evt\<rparr> else st);
              st = (if 0 < os_originalQty st \<and> feq (os_remainingQty st) 0
                    then st\<lparr>os_remainingQty := os_originalQty st\<rparr> else st)
          in if 0 < to_UnixMilli (ev_CreatedAt evt)
             then st\<lparr>os_statusObserved := ev_CreatedAt evt\<rparr> else st)"

definition isBuy :: "ft_orderState \<Rightarrow> bool" where
  "isBuy st =
     (case os_event st of
        Some evt \<Rightarrow> ev_Type evt = BUY
      | None \<Rightarrow> EqualFold (os_side st) ''B'' \<or> EqualFold (os_side st) ''BUY'')"

definition isActive :: "ft_orderState \<Rightarrow> bool" where
  "isActive st =
     (if isCanceledHyperliquidStatus (os_status st) \<or> os_status st = OrderStatusValueFilled then False
      else if os_remainingQty st \<le> floatTolerance then False
      else True)"

definition requiresHydration :: "ft_orderState \<Rightarrow> bool" where
  "requiresHydration st = os_reduceOnly st"

definition isFilled :: "ft_orderState \<Rightarrow> bool" where
  "isFilled st =
     (if os_status st = OrderStatusValueFilled then True
      else if feq (os_originalQty st) 0 then False
      else math_Abs (os_filledQty st - os_originalQty st) \<le> floatTolerance \<or>
           os_remainingQty st \<le> floatTolerance)"

definition fillPrice :: "ft_orderState \<Rightarrow> f64" where
  "fillPrice st =
     (if 0 < os_limitPrice st then os_limitPrice st
      else if 0 < os_price st then os_price st else 0)"

text \<open>
  The size a scaled order sets, with the filled and remaining quantities cut to it; the same code
  stands in \<^verbatim>\<open>ApplyScaledOrder\<close> and \<^verbatim>\<open>reloadDeal\<close>.
\<close>

definition apply_scaled_size :: "f64 \<Rightarrow> ft_orderState \<Rightarrow> ft_orderState" where
  "apply_scaled_size sz st =
     (let st = st\<lparr>os_originalQty := sz\<rparr>;
          st = (if sz < os_filledQty st then st\<lparr>os_filledQty := sz\<rparr> else st);
          remaining = sz - os_filledQty st;
          remaining = (if remaining < 0 then 0 else remaining)
      in st\<lparr>os_remainingQty := remaining\<rparr>)"

definition cancel_order :: "time \<Rightarrow> ft_orderState \<Rightarrow> ft_orderState" where
  "cancel_order now st = st\<lparr>os_remainingQty := 0, os_status := OrderStatusValueCanceled,
     os_statusObserved := now, os_lastUpdate := now\<rparr>"

section \<open>Deals\<close>

record DealPosition =
  TotalBuyQty :: f64
  TotalBuyValue :: f64
  TotalSellQty :: f64
  NetQty :: f64
  AverageEntry :: f64

definition zero_DealPosition :: DealPosition where
  "zero_DealPosition = \<lparr>TotalBuyQty = 0, TotalBuyValue = 0, TotalSellQty = 0, NetQty = 0, AverageEntry = 0\<rparr>"

record dealState =
  ds_botID :: uint32
  ds_dealID :: uint32
  ds_currency :: string
  ds_orders :: "OrderIdentifier list"
  ds_position :: DealPosition
  ds_lastUpdate :: time

text \<open>One round of the loop in \<^verbatim>\<open>recompute\<close>: currency, bought quantity and value, sold quantity.\<close>

definition recompute_step :: "ft_orderState \<Rightarrow> string \<times> f64 \<times> f64 \<times> f64 \<Rightarrow> string \<times> f64 \<times> f64 \<times> f64" where
  "recompute_step st acc =
     (case acc of (currency, buyQty, buyValue, sellQty) \<Rightarrow>
        let currency = (if currency = [] \<and> os_coin st \<noteq> [] then os_coin st else currency);
            filled = os_filledQty st
        in if filled \<le> 0 then (currency, buyQty, buyValue, sellQty)
           else if isBuy st then
             (let price = fillPrice st
              in (currency, buyQty + filled,
                  if 0 < price then buyValue + price * filled else buyValue, sellQty))
           else (currency, buyQty, buyValue, sellQty + filled))"

definition position_of :: "ft_orderState list \<Rightarrow> DealPosition" where
  "position_of sts =
     (case fold recompute_step sts ([], 0, 0, 0) of (currency, buyQty, buyValue, sellQty) \<Rightarrow>
        \<lparr>TotalBuyQty = buyQty, TotalBuyValue = buyValue, TotalSellQty = sellQty,
         NetQty = buyQty - sellQty,
         AverageEntry = (if 0 < buyQty then fdiv buyValue buyQty else 0)\<rparr>)"

definition recompute :: "ft_orderState list \<Rightarrow> dealState \<Rightarrow> dealState" where
  "recompute sts d =
     (let currency = fst (fold recompute_step sts ([], 0, 0, 0));
          d = d\<lparr>ds_position := position_of sts\<rparr>
      in if currency \<noteq> [] then d\<lparr>ds_currency := currency\<rparr> else d)"

text \<open>An order snapshot is a copy of the order object.\<close>

type_synonym OrderSnapshot = ft_orderState

record DealSnapshot =
  sn_DealID :: uint32
  sn_BotID :: uint32
  sn_Currency :: string
  sn_Position :: DealPosition
  sn_Orders :: "OrderSnapshot list"
  sn_ActiveTakeProfits :: "OrderSnapshot list"
  sn_LastTakeProfitEvent :: "tc_BotEvent option"
  sn_OpenBuys :: "OrderSnapshot list"
  sn_AllBuysFilled :: bool
  sn_OutstandingBuyQty :: f64
  sn_OutstandingSellQty :: f64
  sn_UpdatedAt :: time

definition snapshot_step :: "ft_orderState \<Rightarrow> DealSnapshot \<Rightarrow> DealSnapshot" where
  "snapshot_step st out =
     (let snap = st;
          out = out\<lparr>sn_Orders := sn_Orders out @ [snap]\<rparr>;
          out = (if isBuy st then
                   (if isActive st then
                      out\<lparr>sn_OutstandingBuyQty := sn_OutstandingBuyQty out + os_remainingQty st,
                          sn_AllBuysFilled := False, sn_OpenBuys := sn_OpenBuys out @ [snap]\<rparr>
                    else if \<not> isFilled st then out\<lparr>sn_AllBuysFilled := False\<rparr>
                    else out)
                 else
                   (let out = out\<lparr>sn_OutstandingSellQty := sn_OutstandingSellQty out + os_remainingQty st\<rparr>
                    in if os_reduceOnly st \<and> isActive st
                       then out\<lparr>sn_ActiveTakeProfits := sn_ActiveTakeProfits out @ [snap]\<rparr> else out))
      in case os_event st of
           None \<Rightarrow> out
         | Some evt \<Rightarrow>
             if os_reduceOnly st \<and>
                (case sn_LastTakeProfitEvent out of
                   None \<Rightarrow> True | Some lt \<Rightarrow> ev_CreatedAt lt < ev_CreatedAt evt)
             then out\<lparr>sn_LastTakeProfitEvent := Some evt\<rparr> else out)"

definition deal_snapshot :: "ft_orderState list \<Rightarrow> dealState \<Rightarrow> DealSnapshot" where
  "deal_snapshot sts d = fold snapshot_step sts
     \<lparr>sn_DealID = ds_dealID d, sn_BotID = ds_botID d, sn_Currency = ds_currency d,
      sn_Position = ds_position d, sn_Orders = [], sn_ActiveTakeProfits = [],
      sn_LastTakeProfitEvent = None, sn_OpenBuys = [], sn_AllBuysFilled = True,
      sn_OutstandingBuyQty = 0, sn_OutstandingSellQty = 0, sn_UpdatedAt = ds_lastUpdate d\<rparr>"

section \<open>The service\<close>

record Service =
  orders :: "(OrderIdentifier \<times> ft_orderState) list"
  deals :: "(uint32 \<times> dealState) list"
  has_submitter :: bool
  requireHydration :: bool
  statusHydrated :: bool
  hydrationEpoch :: nat

definition New :: Service where
  "New = \<lparr>orders = [], deals = [], has_submitter = False, requireHydration = False,
     statusHydrated = False, hydrationEpoch = 0\<rparr>"

definition RequireStatusHydration :: "Service \<Rightarrow> Service" where
  "RequireStatusHydration s =
     s\<lparr>requireHydration := True, statusHydrated := False, hydrationEpoch := hydrationEpoch s + 1\<rparr>"

definition MarkStatusesHydrated :: "Service \<Rightarrow> Service" where
  "MarkStatusesHydrated s = s\<lparr>statusHydrated := True\<rparr>"

definition statusesHydrated :: "Service \<Rightarrow> bool" where
  "statusesHydrated s = (if \<not> requireHydration s then True else statusHydrated s)"

definition SetEmitter :: "bool \<Rightarrow> Service \<Rightarrow> Service" where
  "SetEmitter present s = s\<lparr>has_submitter := present\<rparr>"

definition deal_orders :: "Service \<Rightarrow> dealState \<Rightarrow> ft_orderState list" where
  "deal_orders s d = List.map_filter (map_of (orders s)) (ds_orders d)"

definition ensureOrderLocked :: "OrderIdentifier \<Rightarrow> Service \<Rightarrow> ft_orderState \<times> Service" where
  "ensureOrderLocked ident s =
     (case map_of (orders s) ident of
        None \<Rightarrow>
          let st = new_orderState ident;
              st = (if \<not> requireHydration s \<or> statusHydrated s \<or> hydrationEpoch s = 0
                    then st\<lparr>os_hydratedEpoch := hydrationEpoch s\<rparr> else st)
          in (st, s\<lparr>orders := AList.update ident st (orders s)\<rparr>)
      | Some st \<Rightarrow>
          let st = st\<lparr>os_identifier := ident\<rparr>
          in (st, s\<lparr>orders := AList.update ident st (orders s)\<rparr>))"

definition set_order :: "OrderIdentifier \<Rightarrow> ft_orderState \<Rightarrow> Service \<Rightarrow> Service" where
  "set_order ident st s = s\<lparr>orders := AList.update ident st (orders s)\<rparr>"

definition ensureDealLocked :: "time \<Rightarrow> OrderIdentifier \<Rightarrow> Service \<Rightarrow> dealState \<times> Service" where
  "ensureDealLocked now ident s =
     (let d = (case map_of (deals s) (DealID (oi_OrderId ident)) of
                 None \<Rightarrow> \<lparr>ds_botID = BotID (oi_OrderId ident), ds_dealID = DealID (oi_OrderId ident),
                          ds_currency = [], ds_orders = [], ds_position = zero_DealPosition,
                          ds_lastUpdate = now\<rparr>
               | Some d \<Rightarrow> d);
          d = (if ds_botID d = 0 then d\<lparr>ds_botID := BotID (oi_OrderId ident)\<rparr> else d)
      in (d, s\<lparr>deals := AList.update (DealID (oi_OrderId ident)) d (deals s)\<rparr>))"

text \<open>
  The tail shared by the writers: look the deal up or create it, put the order in, stamp the deal
  and recompute it.
\<close>

definition touch_deal :: "time \<Rightarrow> OrderIdentifier \<Rightarrow> Service \<Rightarrow> Service" where
  "touch_deal now ident s =
     (let (d, s) = ensureDealLocked now ident s;
          d = d\<lparr>ds_orders := List.insert ident (ds_orders d), ds_lastUpdate := now\<rparr>;
          d = recompute (deal_orders s d) d
      in s\<lparr>deals := AList.update (DealID (oi_OrderId ident)) d (deals s)\<rparr>)"

definition markOrderHydratedLocked :: "OrderIdentifier \<Rightarrow> Service \<Rightarrow> Service" where
  "markOrderHydratedLocked ident s =
     (case map_of (orders s) ident of
        None \<Rightarrow> s
      | Some st \<Rightarrow>
          if \<not> requireHydration s then s
          else if statusHydrated s then s
          else if hydrationEpoch s = 0 then s
          else
            let s = (if requiresHydration st
                     then set_order ident (st\<lparr>os_hydratedEpoch := hydrationEpoch s\<rparr>) s else s)
            in if list_ex (\<lambda>x. requiresHydration (snd x) \<and> os_hydratedEpoch (snd x) \<noteq> hydrationEpoch s) (orders s)
               then s
               else s\<lparr>statusHydrated := True\<rparr>)"

definition Snapshot :: "uint32 \<Rightarrow> Service \<Rightarrow> DealSnapshot option" where
  "Snapshot dealID s = map_option (\<lambda>d. deal_snapshot (deal_orders s d) d) (map_of (deals s) dealID)"

text \<open>The part of \<^verbatim>\<open>UpdateStatus\<close> under the lock; \<open>event\<close> is what storage has for the order.\<close>

definition update_status_locked ::
  "time \<Rightarrow> tc_BotEvent option \<Rightarrow> OrderIdentifier \<Rightarrow> WsOrder \<Rightarrow> Service \<Rightarrow> Service" where
  "update_status_locked now event ident status s =
     (let (st, s) = ensureOrderLocked ident s;
          st = applyEvent event st;
          st = applyStatus now status st;
          s = set_order ident st s;
          s = markOrderHydratedLocked ident s
      in touch_deal now ident s)"

definition ApplyScaledOrder :: "time \<Rightarrow> OrderIdentifier \<Rightarrow> f64 \<Rightarrow> f64 \<Rightarrow> Service \<Rightarrow> Service" where
  "ApplyScaledOrder now ident sz price s =
     (if sz \<le> 0 \<and> price \<le> 0 then s
      else
        let (st, s) = ensureOrderLocked ident s;
            st = (if 0 < sz then apply_scaled_size sz st else st);
            st = (if 0 < price then
                    (let st = st\<lparr>os_price := price\<rparr>
                     in if feq (os_limitPrice st) 0 then st\<lparr>os_limitPrice := price\<rparr> else st)
                  else st);
            st = st\<lparr>os_lastUpdate := now\<rparr>;
            s = set_order ident st s
        in touch_deal now ident s)"

definition markOrderCancelled :: "time \<Rightarrow> OrderIdentifier \<Rightarrow> Service \<Rightarrow> Service" where
  "markOrderCancelled now ident s =
     (case map_of (orders s) ident of
        None \<Rightarrow> s
      | Some st \<Rightarrow>
          let s = set_order ident (cancel_order now st) s
          in (case map_of (deals s) (DealID (oi_OrderId ident)) of
                None \<Rightarrow> s
              | Some d \<Rightarrow>
                  let d = d\<lparr>ds_orders := List.insert ident (ds_orders d), ds_lastUpdate := now\<rparr>;
                      d = recompute (deal_orders s d) d
                  in s\<lparr>deals := AList.update (DealID (oi_OrderId ident)) d (deals s)\<rparr>))"

definition closeOpenOrdersForDeal :: "time \<Rightarrow> uint32 \<Rightarrow> Service \<Rightarrow> Service" where
  "closeOpenOrdersForDeal now dealID s =
     (case map_of (deals s) dealID of
        None \<Rightarrow> s
      | Some d \<Rightarrow>
          let s = fold (\<lambda>ident s.
                (case map_of (orders s) ident of
                   None \<Rightarrow> s
                 | Some st \<Rightarrow>
                     if \<not> isBuy st then s
                     else if \<not> isActive st then s
                     else set_order ident (cancel_order now st) s)) (ds_orders d) s;
              d = recompute (deal_orders s d) (d\<lparr>ds_lastUpdate := now\<rparr>)
          in s\<lparr>deals := AList.update dealID d (deals s)\<rparr>)"

record tc_Deal =
  dl_Finished :: bool
  dl_Status :: string

definition dealFinished :: "tc_Deal option \<Rightarrow> bool" where
  "dealFinished deal =
     (case deal of
        None \<Rightarrow> False
      | Some d \<Rightarrow>
          if dl_Finished d then True
          else let st = ToLower (dl_Status d) in
            if st = [] then False
            else Contains st ''finished'' \<or> Contains st ''canceled'' \<or> Contains st ''cancelled'' \<or>
                 st = ''completed'' \<or> st = ''failed'')"

text \<open>\<^verbatim>\<open>CleanupStaleDeals\<close> returns how many deals it removed.\<close>

definition deal_stale :: "time \<Rightarrow> duration \<Rightarrow> Service \<Rightarrow> dealState \<Rightarrow> bool" where
  "deal_stale now staleDuration s d =
     (if now - ds_lastUpdate d < staleDuration then False
      else list_all (\<lambda>st. \<not> isActive st) (deal_orders s d))"

definition CleanupStaleDeals :: "time \<Rightarrow> duration \<Rightarrow> Service \<Rightarrow> nat \<times> Service" where
  "CleanupStaleDeals now staleDuration s =
     (let stale = filter (\<lambda>x. deal_stale now staleDuration s (snd x)) (deals s);
          s = fold (\<lambda>x s.
                s\<lparr>orders := fold AList.delete (ds_orders (snd x)) (orders s),
                  deals := AList.delete (fst x) (deals s)\<rparr>) stale s
      in (length stale, s))"

section \<open>Loading from storage\<close>

datatype store_error = ErrNoRows | StoreErr string

record ScaledOrderAudit =
  sa_VenueID :: string
  sa_Wallet :: string
  sa_ScaledSize :: f64

record ft_store =
  st_ListDealIDs :: "store_error + int list"
  st_LoadThreeCommasDeal :: "uint32 \<Rightarrow> store_error + tc_Deal option"
  st_ListOrderIdsForDeal :: "uint32 \<Rightarrow> store_error + OrderId list"
  st_LoadThreeCommasBotEvent :: "OrderId \<Rightarrow> store_error + tc_BotEvent option"
  st_ListSubmissionIdentifiersForOrder :: "OrderId \<Rightarrow> store_error + OrderIdentifier list"
  st_ListScaledOrdersByOrderId :: "OrderId \<Rightarrow> store_error + ScaledOrderAudit list"
  st_LoadHyperliquidStatus :: "OrderIdentifier \<Rightarrow> store_error + WsOrder option"
  st_LoadHyperliquidSubmission :: "OrderIdentifier \<Rightarrow> store_error + Action option"
  st_LoadTakeProfitForDeal :: "uint32 \<Rightarrow> store_error + (OrderId \<times> tc_BotEvent)"

text \<open>The audits are searched from the last one backwards.\<close>

definition latest_scaled :: "OrderIdentifier \<Rightarrow> ScaledOrderAudit list \<Rightarrow> ScaledOrderAudit option" where
  "latest_scaled ident audits =
     find (\<lambda>a. sa_VenueID a = oi_VenueID ident \<and> sa_Wallet a = oi_Wallet ident) (rev audits)"

definition reload_ident ::
  "time \<Rightarrow> tc_BotEvent option \<Rightarrow> ScaledOrderAudit list \<Rightarrow> OrderIdentifier \<Rightarrow> WsOrder option \<Rightarrow> Service \<Rightarrow> Service" where
  "reload_ident now event scaledOrders ident status s =
     (let (st, s) = ensureOrderLocked ident s;
          st = applyEvent event st;
          st = (case status of Some w \<Rightarrow> applyStatus now w st | None \<Rightarrow> inferFromEvent st);
          st = (case latest_scaled ident scaledOrders of
                  None \<Rightarrow> st
                | Some a \<Rightarrow> if 0 < sa_ScaledSize a then apply_scaled_size (sa_ScaledSize a) st else st);
          s = set_order ident st s
      in touch_deal now ident s)"

fun reload_idents ::
  "ft_store \<Rightarrow> time \<Rightarrow> tc_BotEvent option \<Rightarrow> ScaledOrderAudit list \<Rightarrow> OrderIdentifier list \<Rightarrow> Service
    \<Rightarrow> store_error option \<times> Service" where
  "reload_idents store now event scaledOrders [] s = (None, s)"
| "reload_idents store now event scaledOrders (ident # rest) s =
     (case st_LoadHyperliquidStatus store ident of
        Inl e \<Rightarrow> (Some e, s)
      | Inr status \<Rightarrow>
          reload_idents store now event scaledOrders rest
            (reload_ident now event scaledOrders ident status s))"

definition list_or_nil :: "store_error + 'a list \<Rightarrow> 'a list" where
  "list_or_nil r = (case r of Inl _ \<Rightarrow> [] | Inr xs \<Rightarrow> xs)"

fun reload_oids :: "ft_store \<Rightarrow> time \<Rightarrow> OrderId list \<Rightarrow> Service \<Rightarrow> store_error option \<times> Service" where
  "reload_oids store now [] s = (None, s)"
| "reload_oids store now (oid # rest) s =
     (case st_LoadThreeCommasBotEvent store oid of
        Inl e \<Rightarrow> (Some e, s)
      | Inr event \<Rightarrow>
          let identifiers = list_or_nil (st_ListSubmissionIdentifiersForOrder store oid) in
          if identifiers = [] then reload_oids store now rest s
          else
            let scaledOrders = list_or_nil (st_ListScaledOrdersByOrderId store oid) in
            (case reload_idents store now event scaledOrders identifiers s of
               (Some e, s) \<Rightarrow> (Some e, s)
             | (None, s) \<Rightarrow> reload_oids store now rest s))"

definition reloadDeal :: "ft_store \<Rightarrow> time \<Rightarrow> uint32 \<Rightarrow> Service \<Rightarrow> store_error option \<times> Service" where
  "reloadDeal store now dealID s =
     (case st_LoadThreeCommasDeal store dealID of
        Inl e \<Rightarrow> (Some e, s)
      | Inr dealRecord \<Rightarrow>
          (case st_ListOrderIdsForDeal store dealID of
             Inl e \<Rightarrow> (Some e, s)
           | Inr oids \<Rightarrow>
               if oids = [] then (None, s)
               else (case reload_oids store now oids s of
                   (Some e, s) \<Rightarrow> (Some e, s)
                 | (None, s) \<Rightarrow>
                     if dealFinished dealRecord then (None, closeOpenOrdersForDeal now dealID s)
                     else (None, s))))"

definition Rebuild :: "ft_store \<Rightarrow> time \<Rightarrow> Service \<Rightarrow> store_error option \<times> Service" where
  "Rebuild store now s =
     (case st_ListDealIDs store of
        Inl e \<Rightarrow> (Some e, s)
      | Inr dealIDs \<Rightarrow> (None, fold (\<lambda>rawID s. snd (reloadDeal store now (word_of_int rawID) s)) dealIDs s))"

section \<open>Quantities of an order\<close>

definition qty_ok :: "f64 \<Rightarrow> bool" where
  "qty_ok v \<longleftrightarrow> is_fin v \<and> valid_f64 v \<and> 0 \<le> v"

text \<open>Input the invariant asks for: finite sizes, no negative quantity, a positive original size.\<close>

definition good_event :: "tc_BotEvent option \<Rightarrow> bool" where
  "good_event event \<longleftrightarrow>
     (case event of None \<Rightarrow> True | Some evt \<Rightarrow> is_fin (ev_Size evt) \<and> valid_f64 (ev_Size evt))"

definition good_status :: "WsOrder \<Rightarrow> bool" where
  "good_status w \<longleftrightarrow>
     (case ParseFloat (wo_OrigSz (ws_Order w)) of None \<Rightarrow> True | Some v \<Rightarrow> qty_ok v \<and> 0 < v) \<and>
     (case ParseFloat (wo_Sz (ws_Order w)) of None \<Rightarrow> True | Some v \<Rightarrow> qty_ok v)"

definition order_ok :: "ft_orderState \<Rightarrow> bool" where
  "order_ok st \<longleftrightarrow>
     qty_ok (os_originalQty st) \<and> qty_ok (os_remainingQty st) \<and> qty_ok (os_filledQty st) \<and>
     os_filledQty st \<le> os_originalQty st \<and> good_event (os_event st)"

lemma qty_ok_0 [simp]: "qty_ok 0"
  by (simp add: qty_ok_def zero_f64_def)

lemma f64_pos_nonneg: "0 < v \<Longrightarrow> 0 \<le> (v :: f64)"
  by (simp add: less_f64_def)

lemma qty_le_0: "qty_ok a \<Longrightarrow> a \<le> 0 \<Longrightarrow> a = 0"
  by (auto simp: qty_ok_def intro: f64_le_antisym)

lemma qty_diff:
  assumes "qty_ok a" and "qty_ok b"
  shows "qty_ok (math_Max 0 (a - b)) \<and> math_Max 0 (a - b) \<le> a"
proof -
  obtain x y where xy: "a = Fin x" "b = Fin y" "0 \<le> x" "0 \<le> y" "fl64 x = Fin x" "fl64 y = Fin y"
    using assms by (auto simp: qty_ok_def is_fin_iff)
  have le: "fl64 (x - y) \<le> Fin x"
    using fl64_mono [of "x - y" x] xy by simp
  moreover have "- Fin y \<le> fl64 (x - y)"
    using fl64_mono [of "- y" "x - y"] xy by (simp add: fl64_minus)
  ultimately obtain z where z: "fl64 (x - y) = Fin z" "z \<le> x"
    by (cases "fl64 (x - y)") auto
  have "valid_f64 (Fin z)" using valid_fl64 [of "x - y"] z(1) by simp
  with xy z show ?thesis
    by (auto simp: qty_ok_def math_Max_def zero_f64_def less_f64_def)
qed

lemma scaled_remaining:
  assumes "qty_ok a" and "qty_ok b" and "b \<le> a"
  shows "qty_ok (if a - b < 0 then 0 else a - b)"
  using qty_diff [OF assms(1,2)] f64_diff_nonneg [of b a] assms
  by (cases "a - b") (auto simp: math_Max_def qty_ok_def zero_f64_def less_f64_def split: if_splits)

lemma order_ok_new: "order_ok (new_orderState ident)"
  by (simp add: order_ok_def new_orderState_def good_event_def zero_f64_def qty_ok_def)

lemma order_ok_applyEvent:
  assumes "order_ok st" and "good_event event"
  shows "order_ok (applyEvent event st)"
proof (cases event)
  case None
  then show ?thesis using assms by (simp add: applyEvent_def)
next
  case (Some evt)
  have "qty_ok (ev_Size evt)" if "0 < ev_Size evt"
    using that assms Some by (auto simp: good_event_def qty_ok_def f64_pos_nonneg)
  moreover have "os_filledQty st \<le> ev_Size evt" if "0 < ev_Size evt" "feq (os_originalQty st) 0"
    using that assms(1) f64_le_trans [OF _ f64_pos_nonneg, of "os_filledQty st" "ev_Size evt"]
    by (auto simp: order_ok_def feq_def)
  ultimately show ?thesis
    using assms Some by (auto simp: order_ok_def applyEvent_def Let_def good_event_def)
qed

lemma order_ok_inferFromEvent:
  assumes "order_ok st"
  shows "order_ok (inferFromEvent st)"
proof (cases "os_event st")
  case None
  then show ?thesis using assms by (simp add: inferFromEvent_def)
next
  case (Some evt)
  have "qty_ok (ev_Size evt)" if "0 < ev_Size evt"
    using that assms Some by (auto simp: order_ok_def good_event_def qty_ok_def f64_pos_nonneg)
  moreover have "os_filledQty st \<le> ev_Size evt" if "0 < ev_Size evt" "feq (os_originalQty st) 0"
    using that assms(1) f64_le_trans [OF _ f64_pos_nonneg, of "os_filledQty st" "ev_Size evt"]
    by (auto simp: order_ok_def feq_def)
  ultimately show ?thesis
    using assms Some by (auto simp: order_ok_def inferFromEvent_def Let_def good_event_def)
qed

text \<open>What the order fields of a status do to the quantities.\<close>

lemma apply_order_fields_qty:
  assumes "order_ok st" and "good_status w"
  defines "st' \<equiv> apply_order_fields (ws_Order w) st"
  shows "qty_ok (os_originalQty st') \<and> qty_ok (os_remainingQty st') \<and>
    os_filledQty st' = os_filledQty st \<and> os_event st' = os_event st \<and> os_identifier st' = os_identifier st \<and>
    os_statusObserved st' = os_statusObserved st \<and> os_status st' = os_status st \<and>
    os_lastUpdate st' = os_lastUpdate st \<and>
    (os_originalQty st' = os_originalQty st \<or> 0 < os_originalQty st')"
  using assms(1,2) unfolding st'_def apply_order_fields_def set_parsed_def good_status_def order_ok_def Let_def
  by (auto split: option.splits)

lemma order_ok_applyStatus:
  assumes "order_ok st" and "good_status w"
  shows "order_ok (applyStatus now w st)"
proof -
  define st1 where "st1 = (if 0 < ws_StatusTimestamp w
      then st\<lparr>os_statusObserved := UnixMilli (ws_StatusTimestamp w)\<rparr> else st)
      \<lparr>os_status := ws_Status w, os_lastUpdate := now\<rparr>"
  define st2 where "st2 = apply_order_fields (ws_Order w) st1"
  have "order_ok st1" using assms(1) by (simp add: st1_def order_ok_def)
  from apply_order_fields_qty [OF this assms(2)]
  have st2: "qty_ok (os_originalQty st2)" "qty_ok (os_remainingQty st2)" "os_filledQty st2 = os_filledQty st"
    "os_event st2 = os_event st" "os_originalQty st2 = os_originalQty st \<or> 0 < os_originalQty st2"
    by (auto simp: st2_def) (auto simp: st1_def)
  note d = qty_diff [OF st2(1,2)]
  have "order_ok (let st = if isCanceledHyperliquidStatus (ws_Status w) then st2\<lparr>os_remainingQty := 0\<rparr> else st2
      in if 0 < os_originalQty st then st\<lparr>os_filledQty := if 0 < os_originalQty st2
         then math_Max 0 (os_originalQty st2 - os_remainingQty st2) else 0\<rparr> else st)"
    using st2 d assms(1) by (auto simp: order_ok_def Let_def)
  then show ?thesis
    using assms(1) unfolding applyStatus_def Let_def st2_def st1_def by (auto simp: Let_def)
qed

lemma order_ok_scaled:
  assumes "order_ok st" and "qty_ok sz" and "0 < sz"
  shows "order_ok (apply_scaled_size sz st)"
proof -
  let ?f = "if sz < os_filledQty st then sz else os_filledQty st"
  have f: "qty_ok ?f" "?f \<le> sz"
    using assms f64_not_le [of "os_filledQty st" sz] by (auto simp: order_ok_def qty_ok_def is_fin_iff less_f64_def)
  show ?thesis
    using assms f scaled_remaining [OF assms(2) f] by (auto simp: order_ok_def apply_scaled_size_def Let_def)
qed

lemma order_ok_cancel: "order_ok st \<Longrightarrow> order_ok (cancel_order now st)"
  by (simp add: order_ok_def cancel_order_def)

lemmas order_ok_intros = order_ok_new order_ok_applyEvent order_ok_applyStatus order_ok_inferFromEvent
  order_ok_scaled order_ok_cancel

section \<open>The service invariant\<close>

abbreviation deal_of :: "OrderIdentifier \<Rightarrow> uint32" where
  "deal_of ident \<equiv> DealID (oi_OrderId ident)"

definition deal_ok :: "Service \<Rightarrow> uint32 \<Rightarrow> dealState \<Rightarrow> bool" where
  "deal_ok s k d \<longleftrightarrow>
     ds_dealID d = k \<and> distinct (ds_orders d) \<and>
     (\<forall>i \<in> set (ds_orders d). deal_of i = k \<and> map_of (orders s) i \<noteq> None) \<and>
     ds_position d = position_of (deal_orders s d)"

definition svc_ok :: "Service \<Rightarrow> bool" where
  "svc_ok s \<longleftrightarrow>
     distinct (map fst (deals s)) \<and>
     (\<forall>i st. map_of (orders s) i = Some st \<longrightarrow>
        order_ok st \<and> os_identifier st = i \<and>
        (\<exists>d. map_of (deals s) (deal_of i) = Some d \<and> i \<in> set (ds_orders d))) \<and>
     (\<forall>k d. map_of (deals s) k = Some d \<longrightarrow> deal_ok s k d)"

lemma svc_okD:
  assumes "svc_ok s"
  shows "map_of (orders s) i = Some st \<Longrightarrow> order_ok st \<and> os_identifier st = i"
    and "map_of (orders s) i = Some st \<Longrightarrow>
      \<exists>d. map_of (deals s) (deal_of i) = Some d \<and> i \<in> set (ds_orders d)"
    and "map_of (deals s) k = Some d \<Longrightarrow> deal_ok s k d"
  using assms by (auto simp: svc_ok_def)

lemma update_update [simp]: "AList.update k v (AList.update k w m) = AList.update k v m"
  by (induction m) auto

lemma map_filter_cong:
  "(\<And>x. x \<in> set xs \<Longrightarrow> f x = g x) \<Longrightarrow> List.map_filter f xs = List.map_filter g xs"
  by (induction xs) (auto simp: List.map_filter_simps split: option.splits)

lemma deal_orders_cong:
  "(\<And>i. i \<in> set (ds_orders d) \<Longrightarrow> map_of (orders s) i = map_of (orders s') i) \<Longrightarrow>
   deal_orders s d = deal_orders s' d"
  unfolding deal_orders_def by (rule map_filter_cong)

lemma deal_orders_fields [simp]:
  "deal_orders (s\<lparr>deals := ds\<rparr>) d = deal_orders s d"
  "deal_orders s (d\<lparr>ds_lastUpdate := t\<rparr>) = deal_orders s d"
  "deal_orders s (d\<lparr>ds_position := p\<rparr>) = deal_orders s d"
  "deal_orders s (d\<lparr>ds_currency := c\<rparr>) = deal_orders s d"
  by (simp_all add: deal_orders_def)

lemma recompute_fields [simp]:
  "ds_orders (recompute sts d) = ds_orders d" "ds_dealID (recompute sts d) = ds_dealID d"
  "ds_position (recompute sts d) = position_of sts" "ds_lastUpdate (recompute sts d) = ds_lastUpdate d"
  by (simp_all add: recompute_def Let_def)

lemma deal_orders_recompute [simp]: "deal_orders s (recompute sts d) = deal_orders s d"
  by (simp add: deal_orders_def)

text \<open>
  The writers have one shape: they replace one order object and then recompute the deal it belongs
  to, which is the only deal the object is in.
\<close>

definition put_deal :: "uint32 \<Rightarrow> dealState \<Rightarrow> Service \<Rightarrow> Service" where
  "put_deal k d s = s\<lparr>deals := AList.update k (recompute (deal_orders s d) d) (deals s)\<rparr>"

lemma svc_ok_put:
  assumes ok: "svc_ok s" and st: "order_ok st" "os_identifier st = ident"
    and d: "ds_dealID d = deal_of ident" "distinct (ds_orders d)" "ident \<in> set (ds_orders d)"
    and mem: "\<And>i. i \<in> set (ds_orders d) \<Longrightarrow> i \<noteq> ident \<Longrightarrow> deal_of i = deal_of ident \<and> map_of (orders s) i \<noteq> None"
    and all: "\<And>i d'. map_of (deals s) (deal_of ident) = Some d' \<Longrightarrow> i \<in> set (ds_orders d') \<Longrightarrow> i \<in> set (ds_orders d)"
  shows "svc_ok (put_deal (deal_of ident) d (set_order ident st s))" (is "svc_ok ?t")
proof -
  let ?k = "deal_of ident"
  have orders: "map_of (orders ?t) = (map_of (orders s))(ident \<mapsto> st)"
    and deals: "map_of (deals ?t) = (map_of (deals s))(?k \<mapsto> recompute (deal_orders (set_order ident st s) d) d)"
    by (simp_all add: put_deal_def set_order_def)
  have same: "deal_orders ?t d = deal_orders (set_order ident st s) d"
    by (simp add: put_deal_def)
  have "deal_ok ?t k e" if "map_of (deals ?t) k = Some e" for k e
  proof (cases "k = ?k")
    case True
    then have "e = recompute (deal_orders (set_order ident st s) d) d" using that deals by simp
    with True d mem show ?thesis by (auto simp: deal_ok_def same orders)
  next
    case False
    then have e: "deal_ok s k e" using that deals svc_okD(3) [OF ok] by simp
    then have "ident \<notin> set (ds_orders e)" using False by (auto simp: deal_ok_def)
    then have "deal_orders ?t e = deal_orders s e"
      by (intro deal_orders_cong) (auto simp: orders)
    with e show ?thesis by (auto simp: deal_ok_def orders)
  qed
  moreover have "\<exists>e. map_of (deals ?t) (deal_of i) = Some e \<and> i \<in> set (ds_orders e)"
    if "map_of (orders ?t) i = Some u" for i u
  proof (cases "deal_of i = ?k")
    case True
    have "i \<in> set (ds_orders d)"
      using that True d(3) all svc_okD(2) [OF ok, of i u] by (cases "i = ident") (auto simp: orders)
    with True show ?thesis by (simp add: deals)
  next
    case False
    then show ?thesis
      using that svc_okD(2) [OF ok, of i u] by (auto simp: orders deals split: if_splits)
  qed
  moreover have "order_ok u \<and> os_identifier u = i" if "map_of (orders ?t) i = Some u" for i u
    using that st svc_okD(1) [OF ok, of i u] by (auto simp: orders split: if_splits)
  moreover have "distinct (map fst (deals ?t))"
    using ok by (simp add: put_deal_def set_order_def svc_ok_def distinct_update)
  ultimately show ?thesis by (auto simp: svc_ok_def)
qed

lemma touch_deal_put:
  "touch_deal now ident (set_order ident st s) =
     (let d = fst (ensureDealLocked now ident s);
          d = d\<lparr>ds_orders := List.insert ident (ds_orders d), ds_lastUpdate := now\<rparr>
      in put_deal (deal_of ident) d (set_order ident st s))"
  by (simp add: touch_deal_def ensureDealLocked_def put_deal_def set_order_def Let_def)

lemma svc_ok_touch:
  assumes ok: "svc_ok s" and st: "order_ok st" "os_identifier st = ident"
  shows "svc_ok (touch_deal now ident (set_order ident st s))"
proof -
  define d0 where "d0 = fst (ensureDealLocked now ident s)"
  define d where "d = d0\<lparr>ds_orders := List.insert ident (ds_orders d0), ds_lastUpdate := now\<rparr>"
  have d0: "ds_orders d0 = (case map_of (deals s) (deal_of ident) of None \<Rightarrow> [] | Some e \<Rightarrow> ds_orders e)"
    "ds_dealID d0 = (case map_of (deals s) (deal_of ident) of None \<Rightarrow> deal_of ident | Some e \<Rightarrow> ds_dealID e)"
    by (simp_all add: d0_def ensureDealLocked_def Let_def split: option.splits)
  have "svc_ok (put_deal (deal_of ident) d (set_order ident st s))"
  proof (cases "map_of (deals s) (deal_of ident)")
    case None
    then have "ds_orders d = [ident]" "ds_dealID d = deal_of ident" by (simp_all add: d_def d0)
    with None show ?thesis by (intro svc_ok_put [OF ok st]) auto
  next
    case (Some e)
    then have d: "ds_orders d = List.insert ident (ds_orders e)" "ds_dealID d = ds_dealID e"
      by (simp_all add: d_def d0)
    have e: "ds_dealID e = deal_of ident" "distinct (ds_orders e)"
      "\<And>i. i \<in> set (ds_orders e) \<Longrightarrow> deal_of i = deal_of ident \<and> map_of (orders s) i \<noteq> None"
      using svc_okD(3) [OF ok Some] by (auto simp: deal_ok_def)
    show ?thesis
    proof (rule svc_ok_put [OF ok st])
      show "deal_of i = deal_of ident \<and> map_of (orders s) i \<noteq> None" if "i \<in> set (ds_orders d)" "i \<noteq> ident" for i
        using that e(3) by (simp add: d)
      show "i \<in> set (ds_orders d)" if "map_of (deals s) (deal_of ident) = Some d'" "i \<in> set (ds_orders d')" for i d'
        using that Some by (simp add: d)
    qed (use e d in simp_all)
  qed
  then show ?thesis
    by (simp add: touch_deal_put d_def d0_def Let_def)
qed

lemma ensureOrder_ok:
  assumes "svc_ok s"
  shows "order_ok (fst (ensureOrderLocked ident s)) \<and> os_identifier (fst (ensureOrderLocked ident s)) = ident"
proof (cases "map_of (orders s) ident")
  case None
  then show ?thesis
    using order_ok_new [of ident] by (simp add: ensureOrderLocked_def Let_def order_ok_def)
      (simp add: new_orderState_def)
next
  case (Some st)
  then show ?thesis
    using svc_okD(1) [OF assms Some] by (simp add: ensureOrderLocked_def Let_def order_ok_def)
qed

lemma set_order_ensure [simp]:
  "set_order ident st (snd (ensureOrderLocked ident s)) = set_order ident st s"
  by (simp add: set_order_def ensureOrderLocked_def Let_def split: option.splits)

lemma svc_ok_flags [simp]: "svc_ok (s\<lparr>statusHydrated := b\<rparr>) = svc_ok s"
  by (simp add: svc_ok_def deal_ok_def deal_orders_def)

lemma mark_hydrated_eq:
  "markOrderHydratedLocked ident (set_order ident st s) =
     (if \<not> requireHydration s \<or> statusHydrated s \<or> hydrationEpoch s = 0 then set_order ident st s
      else let s' = set_order ident (if requiresHydration st
                  then st\<lparr>os_hydratedEpoch := hydrationEpoch s\<rparr> else st) s
           in if list_ex (\<lambda>x. requiresHydration (snd x) \<and> os_hydratedEpoch (snd x) \<noteq> hydrationEpoch s) (orders s')
              then s' else s'\<lparr>statusHydrated := True\<rparr>)"
  by (simp add: markOrderHydratedLocked_def set_order_def Let_def)

lemma set_order_flag:
  "set_order ident st s = set_order ident st (s\<lparr>statusHydrated := statusHydrated s\<rparr>)"
  "(set_order ident st s)\<lparr>statusHydrated := b\<rparr> = set_order ident st (s\<lparr>statusHydrated := b\<rparr>)"
  by (simp_all add: set_order_def)

lemma mark_hydrated_cases:
  obtains st' b where
    "markOrderHydratedLocked ident (set_order ident st s) = set_order ident st' (s\<lparr>statusHydrated := b\<rparr>)"
    "order_ok st' = order_ok st" "os_identifier st' = os_identifier st"
proof -
  let ?st = "if requiresHydration st then st\<lparr>os_hydratedEpoch := hydrationEpoch s\<rparr> else st"
  have "order_ok ?st = order_ok st" "os_identifier ?st = os_identifier st"
    by (simp_all add: order_ok_def)
  note ok = this
  show ?thesis
  proof (cases "\<not> requireHydration s \<or> statusHydrated s \<or> hydrationEpoch s = 0")
    case True
    then have "markOrderHydratedLocked ident (set_order ident st s) =
        set_order ident st (s\<lparr>statusHydrated := statusHydrated s\<rparr>)"
      using set_order_flag(1) by (simp add: mark_hydrated_eq)
    then show ?thesis using that by blast
  next
    case False
    let ?b = "if list_ex (\<lambda>x. requiresHydration (snd x) \<and> os_hydratedEpoch (snd x) \<noteq> hydrationEpoch s)
      (orders (set_order ident ?st s)) then statusHydrated s else True"
    have "markOrderHydratedLocked ident (set_order ident st s) =
        (set_order ident ?st s)\<lparr>statusHydrated := ?b\<rparr>"
      using False unfolding mark_hydrated_eq Let_def by (simp add: set_order_def)
    then show ?thesis using that ok unfolding set_order_flag(2) by blast
  qed
qed

lemma set_parsed_keeps:
  "(\<And>v st. f (upd v st) = f st) \<Longrightarrow> f (set_parsed fld upd st) = f st"
  by (simp add: set_parsed_def split: option.splits)

lemma order_identifier_kept [simp]:
  "os_identifier (applyEvent event st) = os_identifier st"
  "os_identifier (apply_order_fields w st) = os_identifier st"
  "os_identifier (inferFromEvent st) = os_identifier st"
  "os_identifier (apply_scaled_size sz st) = os_identifier st"
  "os_identifier (cancel_order now st) = os_identifier st"
  by (simp_all add: applyEvent_def apply_order_fields_def inferFromEvent_def apply_scaled_size_def
      cancel_order_def set_parsed_keeps Let_def split: option.splits)

lemma applyStatus_identifier [simp]: "os_identifier (applyStatus now w st) = os_identifier st"
  by (simp add: applyStatus_def Let_def)

lemma update_status_ok:
  assumes "svc_ok s" and "good_event event" and "good_status w"
  shows "svc_ok (update_status_locked now event ident w s)"
proof -
  define st where "st = applyStatus now w (applyEvent event (fst (ensureOrderLocked ident s)))"
  note e = ensureOrder_ok [OF assms(1), of ident]
  have id: "os_identifier st = ident"
    using e by (simp add: st_def)
  have ok: "order_ok st"
    unfolding st_def using e assms by (intro order_ok_intros) auto
  obtain st' b where m: "markOrderHydratedLocked ident (set_order ident st s) =
      set_order ident st' (s\<lparr>statusHydrated := b\<rparr>)" "order_ok st'" "os_identifier st' = ident"
    using mark_hydrated_cases [of ident st s] ok id by metis
  have "svc_ok (touch_deal now ident (set_order ident st' (s\<lparr>statusHydrated := b\<rparr>)))"
    using assms(1) m(2,3) by (intro svc_ok_touch) simp_all
  then show ?thesis
    by (simp add: update_status_locked_def split_beta st_def [symmetric] m(1) Let_def)
qed

lemma ApplyScaledOrder_ok:
  assumes "svc_ok s" and "is_fin sz" and "valid_f64 sz"
  shows "svc_ok (ApplyScaledOrder now ident sz price s)"
proof -
  define st0 where "st0 = fst (ensureOrderLocked ident s)"
  note e = ensureOrder_ok [OF assms(1), of ident, folded st0_def]
  define st1 where "st1 = (if 0 < sz then apply_scaled_size sz st0 else st0)"
  have st1: "order_ok st1" "os_identifier st1 = ident"
    using e assms order_ok_scaled [of st0 sz]
    by (auto simp: st1_def qty_ok_def f64_pos_nonneg apply_scaled_size_def Let_def)
  define st2 where "st2 = (if 0 < price then
       (let st = st1\<lparr>os_price := price\<rparr>
        in if feq (os_limitPrice st) 0 then st\<lparr>os_limitPrice := price\<rparr> else st)
     else st1)\<lparr>os_lastUpdate := now\<rparr>"
  have "order_ok st2" "os_identifier st2 = ident"
    using st1 by (simp_all add: st2_def order_ok_def Let_def)
  then have "svc_ok (touch_deal now ident (set_order ident st2 s))"
    by (rule svc_ok_touch [OF assms(1)])
  moreover have "ApplyScaledOrder now ident sz price s =
      (if sz \<le> 0 \<and> price \<le> 0 then s else touch_deal now ident (set_order ident st2 s))"
    by (simp only: ApplyScaledOrder_def st0_def st1_def st2_def Let_def split_beta set_order_ensure)
  ultimately show ?thesis using assms(1) by simp
qed

lemma markOrderCancelled_ok:
  assumes ok: "svc_ok s"
  shows "svc_ok (markOrderCancelled now ident s)"
proof (cases "map_of (orders s) ident")
  case None
  then show ?thesis using ok by (simp add: markOrderCancelled_def)
next
  case (Some st)
  note st = svc_okD(1) [OF ok Some]
  obtain d where d: "map_of (deals s) (deal_of ident) = Some d" "ident \<in> set (ds_orders d)"
    using svc_okD(2) [OF ok Some] by blast
  let ?d = "d\<lparr>ds_orders := List.insert ident (ds_orders d), ds_lastUpdate := now\<rparr>"
  have "svc_ok (put_deal (deal_of ident) ?d (set_order ident (cancel_order now st) s))"
  proof (rule svc_ok_put [OF ok])
    have e: "ds_dealID d = deal_of ident" "distinct (ds_orders d)"
      "\<And>i. i \<in> set (ds_orders d) \<Longrightarrow> deal_of i = deal_of ident \<and> map_of (orders s) i \<noteq> None"
      using svc_okD(3) [OF ok d(1)] by (auto simp: deal_ok_def)
    show "order_ok (cancel_order now st)" "os_identifier (cancel_order now st) = ident"
      using st by (simp_all add: order_ok_cancel)
    show "ds_dealID ?d = deal_of ident" "distinct (ds_orders ?d)" "ident \<in> set (ds_orders ?d)"
      using e by simp_all
    show "deal_of i = deal_of ident \<and> map_of (orders s) i \<noteq> None" if "i \<in> set (ds_orders ?d)" "i \<noteq> ident" for i
      using that e(3) by simp
    show "i \<in> set (ds_orders ?d)" if "map_of (deals s) (deal_of ident) = Some d'" "i \<in> set (ds_orders d')" for i d'
      using that d(1) by simp
  qed
  then show ?thesis
    using Some d(1) by (simp add: markOrderCancelled_def put_deal_def set_order_def Let_def)
qed

text \<open>Closing the open buys of a deal.\<close>

definition close_one :: "time \<Rightarrow> OrderIdentifier \<Rightarrow> Service \<Rightarrow> Service" where
  "close_one now ident s =
     (case map_of (orders s) ident of
        None \<Rightarrow> s
      | Some st \<Rightarrow> if isBuy st \<and> isActive st then set_order ident (cancel_order now st) s else s)"

lemma close_fold:
  "(\<lambda>ident s. (case map_of (orders s) ident of
       None \<Rightarrow> s
     | Some st \<Rightarrow> if \<not> isBuy st then s else if \<not> isActive st then s
                 else set_order ident (cancel_order now st) s)) = close_one now"
  by (auto simp: close_one_def fun_eq_iff split: option.splits)

lemma close_one_order:
  "map_of (orders (close_one now ident s)) i =
     (if i = ident then map_option (\<lambda>st. if isBuy st \<and> isActive st then cancel_order now st else st) (map_of (orders s) i)
      else map_of (orders s) i)"
  by (auto simp: close_one_def set_order_def split: option.splits)

lemma close_one_deals [simp]: "deals (close_one now ident s) = deals s"
  by (auto simp: close_one_def set_order_def split: option.splits)

lemma close_many_deals [simp]: "deals (fold (close_one now) is s) = deals s"
  by (induction "is" arbitrary: s) simp_all

definition tracked :: "OrderIdentifier \<Rightarrow> ft_orderState \<Rightarrow> bool" where
  "tracked i st \<longleftrightarrow> order_ok st \<and> os_identifier st = i"

lemma tracked_cancel: "tracked i st \<Longrightarrow> tracked i (cancel_order now st)"
  by (simp add: tracked_def order_ok_cancel)

lemma close_one_tracked:
  assumes "\<And>i st. map_of (orders s) i = Some st \<Longrightarrow> tracked i st"
    and "map_of (orders (close_one now j s)) i = Some st"
  shows "tracked i st"
proof (cases "i = j")
  case True
  with assms(2) obtain st0 where "map_of (orders s) j = Some st0"
      "st = (if isBuy st0 \<and> isActive st0 then cancel_order now st0 else st0)"
    by (auto simp: close_one_order)
  then show ?thesis using True assms(1) by (simp add: tracked_cancel)
next
  case False
  then show ?thesis using assms by (simp add: close_one_order)
qed

lemma close_many_tracked:
  assumes "\<And>i st. map_of (orders s) i = Some st \<Longrightarrow> tracked i st"
    and "map_of (orders (fold (close_one now) is s)) i = Some st"
  shows "tracked i st"
  using assms
proof (induction "is" arbitrary: s)
  case Nil
  then show ?case by simp
next
  case (Cons j js)
  from Cons.IH [OF close_one_tracked [OF Cons.prems(1)]] Cons.prems(2) show ?case by simp
qed

lemma close_many_None:
  "(map_of (orders (fold (close_one now) is s)) i = None) = (map_of (orders s) i = None)"
  by (induction "is" arbitrary: s) (simp_all add: close_one_order)

lemma close_many_other:
  "i \<notin> set is \<Longrightarrow> map_of (orders (fold (close_one now) is s)) i = map_of (orders s) i"
  by (induction "is" arbitrary: s) (simp_all add: close_one_order)

lemma closeOpenOrders_ok:
  assumes ok: "svc_ok s"
  shows "svc_ok (closeOpenOrdersForDeal now k s)"
proof (cases "map_of (deals s) k")
  case None
  then show ?thesis using ok by (simp add: closeOpenOrdersForDeal_def)
next
  case (Some d)
  define t where "t = fold (close_one now) (ds_orders d) s"
  define d' where "d' = recompute (deal_orders t (d\<lparr>ds_lastUpdate := now\<rparr>)) (d\<lparr>ds_lastUpdate := now\<rparr>)"
  define u where "u = t\<lparr>deals := AList.update k d' (deals t)\<rparr>"
  have u: "closeOpenOrdersForDeal now k s = u"
    by (simp add: closeOpenOrdersForDeal_def Some close_fold t_def d'_def u_def Let_def)
  have dk: "deal_ok s k d" using svc_okD(3) [OF ok Some] .
  have keep: "(map_of (orders t) i = None) = (map_of (orders s) i = None)"
    "map_of (orders t) i = Some st \<Longrightarrow> tracked i st"
    "i \<notin> set (ds_orders d) \<Longrightarrow> map_of (orders t) i = map_of (orders s) i" for i st
  proof -
    have "tracked j st" if "map_of (orders s) j = Some st" for j st
      using svc_okD(1) [OF ok that] by (simp add: tracked_def)
    then show "map_of (orders t) i = Some st \<Longrightarrow> tracked i st"
      unfolding t_def by (rule close_many_tracked)
  qed (simp_all add: t_def close_many_None close_many_other)
  have dt: "map_of (deals u) = (map_of (deals s))(k \<mapsto> d')" and ot: "orders u = orders t"
    by (simp_all add: u_def t_def)
  have dord: "deal_orders u e = deal_orders t e" for e by (simp add: u_def)
  have "deal_ok u j e" if "map_of (deals u) j = Some e" for j e
  proof (cases "j = k")
    case True
    then have "e = d'" using that dt by simp
    with True dk keep(1) show ?thesis by (simp add: deal_ok_def d'_def ot dord)
  next
    case False
    then have e: "deal_ok s j e" using that dt svc_okD(3) [OF ok] by simp
    have "i \<notin> set (ds_orders d)" if "i \<in> set (ds_orders e)" for i
      using that e dk False by (auto simp: deal_ok_def)
    then have "deal_orders u e = deal_orders s e"
      using keep(3) by (intro deal_orders_cong) (simp add: ot)
    with e keep(1) show ?thesis by (simp add: deal_ok_def ot)
  qed
  moreover have "\<exists>e. map_of (deals u) (deal_of i) = Some e \<and> i \<in> set (ds_orders e)"
    if st: "map_of (orders u) i = Some st" for i st
  proof -
    obtain st' where "map_of (orders s) i = Some st'"
      using st keep(1) [of i] ot by (cases "map_of (orders s) i") auto
    from svc_okD(2) [OF ok this] Some show ?thesis
      by (cases "deal_of i = k") (auto simp: dt d'_def)
  qed
  moreover have "distinct (map fst (deals u))"
    using ok by (simp add: u_def t_def svc_ok_def distinct_update)
  moreover have "order_ok st \<and> os_identifier st = i" if "map_of (orders u) i = Some st" for i st
    using keep(2) [of i st] that by (simp add: ot tracked_def)
  ultimately show ?thesis
    unfolding u svc_ok_def by blast
qed

subsection \<open>Removing stale deals\<close>

definition remove_deal :: "uint32 \<times> dealState \<Rightarrow> Service \<Rightarrow> Service" where
  "remove_deal x s = s\<lparr>orders := fold AList.delete (ds_orders (snd x)) (orders s),
     deals := AList.delete (fst x) (deals s)\<rparr>"

lemma map_of_fold_delete: "map_of (fold AList.delete ks m) i = (if i \<in> set ks then None else map_of m i)"
  by (induction ks arbitrary: m) auto

lemma remove_deal_maps:
  "map_of (orders (remove_deal x s)) i = (if i \<in> set (ds_orders (snd x)) then None else map_of (orders s) i)"
  "map_of (deals (remove_deal x s)) = (map_of (deals s))(fst x := None)"
  by (simp_all add: remove_deal_def map_of_fold_delete)

lemma remove_deal_ok:
  assumes ok: "svc_ok s" and x: "map_of (deals s) (fst x) = Some (snd x)"
  shows "svc_ok (remove_deal x s)"
proof -
  have dk: "deal_ok s (fst x) (snd x)" using svc_okD(3) [OF ok x] .
  have "deal_ok (remove_deal x s) j e" if "map_of (deals (remove_deal x s)) j = Some e" for j e
  proof -
    have e: "deal_ok s j e" "j \<noteq> fst x"
      using that svc_okD(3) [OF ok] by (auto simp: remove_deal_maps split: if_splits)
    then have no: "i \<notin> set (ds_orders (snd x))" if "i \<in> set (ds_orders e)" for i
      using that dk by (auto simp: deal_ok_def)
    then have "deal_orders (remove_deal x s) e = deal_orders s e"
      by (intro deal_orders_cong) (simp add: remove_deal_maps)
    with e no show ?thesis by (simp add: deal_ok_def remove_deal_maps)
  qed
  moreover have "order_ok st \<and> os_identifier st = i \<and>
      (\<exists>d. map_of (deals (remove_deal x s)) (deal_of i) = Some d \<and> i \<in> set (ds_orders d))"
    if st: "map_of (orders (remove_deal x s)) i = Some st" for i st
  proof -
    have i: "map_of (orders s) i = Some st" "i \<notin> set (ds_orders (snd x))"
      using st by (auto simp: remove_deal_maps split: if_splits)
    obtain d where d: "map_of (deals s) (deal_of i) = Some d" "i \<in> set (ds_orders d)"
      using svc_okD(2) [OF ok i(1)] by blast
    then have "deal_of i \<noteq> fst x" using x i(2) by auto
    with d svc_okD(1) [OF ok i(1)] show ?thesis by (simp add: remove_deal_maps)
  qed
  moreover have "distinct (map fst (deals (remove_deal x s)))"
    using ok by (simp add: remove_deal_def svc_ok_def distinct_delete)
  ultimately show ?thesis by (simp add: svc_ok_def)
qed

lemma remove_deals:
  assumes "svc_ok s" and "distinct (map fst xs)" and "\<And>x. x \<in> set xs \<Longrightarrow> map_of (deals s) (fst x) = Some (snd x)"
  defines "t \<equiv> fold remove_deal xs s"
  shows "svc_ok t \<and>
    (\<forall>k. map_of (deals t) k = (if k \<in> fst ` set xs then None else map_of (deals s) k)) \<and>
    (\<forall>i. map_of (orders t) i = (if deal_of i \<in> fst ` set xs then None else map_of (orders s) i))"
  using assms(1-3) unfolding t_def
proof (induction xs arbitrary: s)
  case Nil
  then show ?case by simp
next
  case (Cons x xs)
  have x: "map_of (deals s) (fst x) = Some (snd x)" using Cons.prems(3) by simp
  have dk: "deal_ok s (fst x) (snd x)" using svc_okD(3) [OF Cons.prems(1) x] .
  have "map_of (deals (remove_deal x s)) (fst y) = Some (snd y)" if "y \<in> set xs" for y
  proof -
    have "fst y \<in> fst ` set xs" and "fst x \<notin> fst ` set xs" using that Cons.prems(2) by simp_all
    then have "fst y \<noteq> fst x" by metis
    with that Cons.prems(3) [of y] show ?thesis by (simp add: remove_deal_maps)
  qed
  note ih = Cons.IH [OF remove_deal_ok [OF Cons.prems(1) x] _ this]
  have "map_of (orders (remove_deal x s)) i = (if deal_of i = fst x then None else map_of (orders s) i)" for i
  proof (cases "map_of (orders s) i")
    case None
    then show ?thesis by (simp add: remove_deal_maps)
  next
    case (Some st)
    then show ?thesis
      using dk x svc_okD(2) [OF Cons.prems(1) Some] by (auto simp: remove_deal_maps deal_ok_def)
  qed
  with ih Cons.prems(2) show ?case by (simp add: remove_deal_maps)
qed

lemma Cleanup_unfold:
  "CleanupStaleDeals now dur s =
     (let stale = filter (\<lambda>x. deal_stale now dur s (snd x)) (deals s)
      in (length stale, fold remove_deal stale s))"
proof -
  have "(\<lambda>x s. s\<lparr>orders := fold AList.delete (ds_orders (snd x)) (orders s),
      deals := AList.delete (fst x) (deals s)\<rparr>) = remove_deal"
    by (simp add: fun_eq_iff remove_deal_def)
  then show ?thesis unfolding CleanupStaleDeals_def Let_def by (simp only:)
qed

lemma Cleanup_maps:
  fixes now :: time and dur :: duration
  assumes "svc_ok s"
  defines "t \<equiv> snd (CleanupStaleDeals now dur s)"
  defines "gone \<equiv> \<lambda>k. case map_of (deals s) k of None \<Rightarrow> False | Some d \<Rightarrow> deal_stale now dur s d"
  shows "svc_ok t" and "map_of (deals t) k = (if gone k then None else map_of (deals s) k)"
    and "map_of (orders t) i = (if gone (deal_of i) then None else map_of (orders s) i)"
proof -
  let ?xs = "filter (\<lambda>x. deal_stale now dur s (snd x)) (deals s)"
  have dist: "distinct (map fst (deals s))" using assms(1) by (simp add: svc_ok_def)
  then have m: "map_of (deals s) (fst x) = Some (snd x)" if "x \<in> set (deals s)" for x
    using that by (cases x) (simp add: map_of_eq_Some_iff)
  have keys: "k \<in> fst ` set ?xs \<longleftrightarrow> gone k" for k
  proof
    show "k \<in> fst ` set ?xs \<Longrightarrow> gone k" using m by (fastforce simp: gone_def)
    show "gone k \<Longrightarrow> k \<in> fst ` set ?xs"
      by (auto simp: gone_def split: option.splits dest!: map_of_SomeD intro!: rev_image_eqI)
  qed
  have "distinct (map fst ?xs)" using dist by (rule distinct_map_filter)
  note r = remove_deals [OF assms(1) this]
  have t: "t = fold remove_deal ?xs s" by (simp add: t_def Cleanup_unfold Let_def)
  show "svc_ok t" "map_of (deals t) k = (if gone k then None else map_of (deals s) k)"
    "map_of (orders t) i = (if gone (deal_of i) then None else map_of (orders s) i)"
    using r m unfolding t keys by auto
qed

subsection \<open>Loading keeps the invariant\<close>

definition good_store :: "ft_store \<Rightarrow> bool" where
  "good_store store \<longleftrightarrow>
     (\<forall>oid event. st_LoadThreeCommasBotEvent store oid = Inr event \<longrightarrow> good_event event) \<and>
     (\<forall>ident w. st_LoadHyperliquidStatus store ident = Inr (Some w) \<longrightarrow> good_status w) \<and>
     (\<forall>oid as a. st_ListScaledOrdersByOrderId store oid = Inr as \<longrightarrow> a \<in> set as \<longrightarrow>
        is_fin (sa_ScaledSize a) \<and> valid_f64 (sa_ScaledSize a))"

lemma find_in_set: "find P xs = Some a \<Longrightarrow> a \<in> set xs"
  by (induction xs) (auto split: if_splits)

lemma reload_ident_ok:
  assumes "svc_ok s" and "good_event event" and "\<And>w. status = Some w \<Longrightarrow> good_status w"
    and "\<And>a. a \<in> set audits \<Longrightarrow> is_fin (sa_ScaledSize a) \<and> valid_f64 (sa_ScaledSize a)"
  shows "svc_ok (reload_ident now event audits ident status s)"
proof -
  define st0 where "st0 = applyEvent event (fst (ensureOrderLocked ident s))"
  define st1 where "st1 = (case status of Some w \<Rightarrow> applyStatus now w st0 | None \<Rightarrow> inferFromEvent st0)"
  define st2 where "st2 = (case latest_scaled ident audits of
      None \<Rightarrow> st1 | Some a \<Rightarrow> if 0 < sa_ScaledSize a then apply_scaled_size (sa_ScaledSize a) st1 else st1)"
  have st0: "order_ok st0" "os_identifier st0 = ident"
    using ensureOrder_ok [OF assms(1), of ident] assms(2) by (auto simp: st0_def intro: order_ok_applyEvent)
  then have st1: "order_ok st1" "os_identifier st1 = ident"
    using assms(3) by (auto simp: st1_def intro: order_ok_intros split: option.splits)
  have "qty_ok (sa_ScaledSize a)" if "latest_scaled ident audits = Some a" "0 < sa_ScaledSize a" for a
  proof -
    have "a \<in> set audits" using that(1) find_in_set [of _ "rev audits" a] by (simp add: latest_scaled_def)
    with assms(4) that(2) show ?thesis by (auto simp: qty_ok_def f64_pos_nonneg)
  qed
  then have "order_ok st2" "os_identifier st2 = ident"
    using st1 by (auto simp: st2_def intro: order_ok_intros split: option.splits)
  then have "svc_ok (touch_deal now ident (set_order ident st2 s))"
    by (rule svc_ok_touch [OF assms(1)])
  then show ?thesis
    by (simp only: reload_ident_def st2_def st1_def st0_def Let_def split_beta set_order_ensure)
qed

lemma reload_idents_ok:
  assumes "svc_ok s" and "good_store store" and "good_event event"
    and "\<And>a. a \<in> set audits \<Longrightarrow> is_fin (sa_ScaledSize a) \<and> valid_f64 (sa_ScaledSize a)"
  shows "svc_ok (snd (reload_idents store now event audits is s))"
  using assms
proof (induction "is" arbitrary: s)
  case Nil
  then show ?case by simp
next
  case (Cons i js)
  have "svc_ok (reload_ident now event audits i status s)"
    if "st_LoadHyperliquidStatus store i = Inr status" for status
    using that Cons.prems by (intro reload_ident_ok) (auto simp: good_store_def)
  with Cons show ?case by (auto split: sum.splits)
qed

lemma reload_oids_ok:
  assumes "svc_ok s" and "good_store store"
  shows "svc_ok (snd (reload_oids store now oids s))"
  using assms
proof (induction oids arbitrary: s)
  case Nil
  then show ?case by simp
next
  case (Cons oid oids)
  have "svc_ok (snd (reload_idents store now event (list_or_nil (st_ListScaledOrdersByOrderId store oid)) is s))"
    if "st_LoadThreeCommasBotEvent store oid = Inr event" for event "is"
    using that Cons.prems by (intro reload_idents_ok; cases "st_ListScaledOrdersByOrderId store oid")
      (auto simp: good_store_def list_or_nil_def)
  with Cons show ?case
    by (auto simp: Let_def split: sum.splits prod.splits option.splits) (metis snd_conv)+
qed

lemma reloadDeal_ok:
  assumes "svc_ok s" and "good_store store"
  shows "svc_ok (snd (reloadDeal store now k s))"
proof -
  have "svc_ok (snd (reload_oids store now oids s))" for oids
    by (rule reload_oids_ok [OF assms])
  then show ?thesis
    using assms(1)
    by (auto simp: reloadDeal_def closeOpenOrders_ok split: sum.splits prod.splits option.splits) (metis snd_conv closeOpenOrders_ok)+
qed

lemma Rebuild_ok:
  assumes "svc_ok s" and "good_store store"
  shows "svc_ok (snd (Rebuild store now s))"
proof -
  have "svc_ok (fold (\<lambda>rawID s. snd (reloadDeal store now (word_of_int rawID) s)) ids s)" for ids
    using assms(1) by (induction ids arbitrary: s) (simp_all add: reloadDeal_ok [OF _ assms(2)])
  then show ?thesis
    using assms(1) by (simp add: Rebuild_def split: sum.splits)
qed

section \<open>The tracker as a transition system\<close>

inductive tracker_step :: "Service \<Rightarrow> Service \<Rightarrow> bool" where
  require: "tracker_step s (RequireStatusHydration s)"
| hydrated: "tracker_step s (MarkStatusesHydrated s)"
| emitter: "tracker_step s (SetEmitter b s)"
| status: "good_event event \<Longrightarrow> good_status w \<Longrightarrow>
    tracker_step s (update_status_locked now event ident w s)"
| scaled: "is_fin sz \<Longrightarrow> valid_f64 sz \<Longrightarrow> tracker_step s (ApplyScaledOrder now ident sz price s)"
| cancelled: "tracker_step s (markOrderCancelled now ident s)"
| rebuild: "good_store store \<Longrightarrow> tracker_step s (snd (Rebuild store now s))"
| cleanup: "tracker_step s (snd (CleanupStaleDeals now dur s))"

inductive_cases tracker_stepE: "tracker_step s s'"

lemma svc_ok_cong:
  assumes "orders s = orders s'" and "deals s = deals s'"
  shows "svc_ok s \<longleftrightarrow> svc_ok s'"
proof -
  have "deal_orders s = deal_orders s'" using assms by (simp add: fun_eq_iff deal_orders_def)
  then have "deal_ok s = deal_ok s'" using assms by (simp add: fun_eq_iff deal_ok_def)
  with assms show ?thesis unfolding svc_ok_def by (simp only:)
qed

lemma svc_ok_hydration:
  "svc_ok s \<Longrightarrow> svc_ok (RequireStatusHydration s)" "svc_ok s \<Longrightarrow> svc_ok (MarkStatusesHydrated s)"
  "svc_ok s \<Longrightarrow> svc_ok (SetEmitter b s)"
  by (erule svc_ok_cong [THEN iffD1, rotated 2];
      simp add: RequireStatusHydration_def MarkStatusesHydrated_def SetEmitter_def)+

lemmas tracker_oks = svc_ok_hydration update_status_ok ApplyScaledOrder_ok markOrderCancelled_ok
  Rebuild_ok Cleanup_maps(1)

interpretation tracker: invariant_system "\<lambda>s. s = New" tracker_step svc_ok
proof
  show "s = New \<Longrightarrow> svc_ok s" for s by (simp add: New_def svc_ok_def)
  show "svc_ok s \<Longrightarrow> tracker_step s s' \<Longrightarrow> svc_ok s'" for s s'
    by (erule tracker_stepE) (simp_all add: tracker_oks)
qed

section \<open>Properties\<close>

text \<open>
  C8: The books balance. In every state the tracker reaches from well-formed input (finite sizes, no
  negative quantity), each order has filled no less than nothing and no more than its original
  size; the position a deal reports is the one its orders add up to at that moment; and each order
  is listed in exactly the deal its identifier names.
\<close>

theorem tracker_books_balance:
  assumes "tracker_step\<^sup>*\<^sup>* New s"
  shows "(\<forall>i st. map_of (orders s) i = Some st \<longrightarrow>
      0 \<le> os_filledQty st \<and> os_filledQty st \<le> os_originalQty st \<and> 0 \<le> os_remainingQty st) \<and>
    (\<forall>k d. map_of (deals s) k = Some d \<longrightarrow> ds_position d = position_of (deal_orders s d)) \<and>
    (\<forall>i k. map_of (orders s) i \<noteq> None \<longrightarrow>
      (\<exists>d. map_of (deals s) k = Some d \<and> i \<in> set (ds_orders d)) = (k = deal_of i))"
proof -
  have ok: "svc_ok s" using tracker.inv_reachable [OF refl assms] .
  have "0 \<le> os_filledQty st \<and> os_filledQty st \<le> os_originalQty st \<and> 0 \<le> os_remainingQty st"
    if "map_of (orders s) i = Some st" for i st
    using svc_okD(1) [OF ok that] by (simp add: order_ok_def qty_ok_def)
  moreover have "ds_position d = position_of (deal_orders s d)" if "map_of (deals s) k = Some d" for k d
    using svc_okD(3) [OF ok that] by (simp add: deal_ok_def)
  moreover have "(\<exists>d. map_of (deals s) k = Some d \<and> i \<in> set (ds_orders d)) = (k = deal_of i)"
    if "map_of (orders s) i = Some st" for i k st
    using svc_okD(2) [OF ok that] svc_okD(3) [OF ok, of k] by (auto simp: deal_ok_def)
  ultimately show ?thesis by blast
qed

definition sample_oid :: OrderId where
  "sample_oid = \<lparr>BotID = 7, DealID = 9, BotEventID = 1\<rparr>"

definition sample_ident :: OrderIdentifier where
  "sample_ident = \<lparr>oi_VenueID = ''hl'', oi_Wallet = ''w'', oi_OrderId = sample_oid\<rparr>"

definition sample_buy :: tc_BotEvent where
  "sample_buy = zero_tc_BotEvent\<lparr>ev_Coin := ''DOGE'', ev_Type := BUY, ev_Status := Active, ev_Price := Fin 2, ev_Size := Fin 10\<rparr>"

definition sample_ws :: "string \<Rightarrow> string \<Rightarrow> WsOrder" where
  "sample_ws st sz = \<lparr>ws_Order = \<lparr>wo_Coin = ''DOGE'', wo_Side = ''B'', wo_LimitPx = ''2'', wo_Sz = sz, wo_Oid = 1,
     wo_Timestamp = 5, wo_OrigSz = ''10'', wo_Cloid = None\<rparr>, ws_Status = st, ws_StatusTimestamp = 5\<rparr>"

definition sample_tracker :: Service where
  "sample_tracker = update_status_locked 100 (Some sample_buy) sample_ident (sample_ws ''open'' ''4'') New"

lemma sample_ws_good: "good_status (sample_ws ''open'' ''4'')" "good_event (Some sample_buy)"
  by code_simp+

theorem tracker_books_balance_witness:
  "\<exists>st. map_of (orders sample_tracker) sample_ident = Some st \<and> os_filledQty st = Fin 6 \<and>
     os_filledQty st \<le> os_originalQty st"
proof -
  have "tracker_step New sample_tracker"
    unfolding sample_tracker_def by (rule status) (rule sample_ws_good)+
  from tracker_books_balance [OF r_into_rtranclp, OF this]
  have le: "map_of (orders sample_tracker) i = Some st \<Longrightarrow> os_filledQty st \<le> os_originalQty st" for i st
    by blast
  have "map_option os_filledQty (map_of (orders sample_tracker) sample_ident) = Some (Fin 6)"
    by code_simp
  with le show ?thesis by auto
qed

text \<open>
  Late news is ignored. A status whose timestamp lies before the one last observed leaves the order
  exactly as it is; any other timestamped status is taken over, so the observed time never goes
  back, and a cancellation leaves nothing remaining.
\<close>

theorem applyStatus_in_order:
  assumes "0 < ws_StatusTimestamp w" and "os_statusObserved st \<noteq> zero_time"
  shows "if UnixMilli (ws_StatusTimestamp w) < os_statusObserved st then applyStatus now w st = st
    else os_statusObserved (applyStatus now w st) = UnixMilli (ws_StatusTimestamp w) \<and>
      os_status (applyStatus now w st) = ws_Status w \<and>
      (if isCanceledHyperliquidStatus (ws_Status w) then os_remainingQty (applyStatus now w st) = 0 else True)"
proof -
  have keep: "os_statusObserved (apply_order_fields v u) = os_statusObserved u"
    "os_status (apply_order_fields v u) = os_status u" for v u
    by (simp_all add: apply_order_fields_def set_parsed_keeps Let_def)
  show ?thesis
    using assms by (simp add: applyStatus_def Let_def keep)
qed

theorem applyStatus_in_order_witness:
  "os_statusObserved (applyStatus 3 (sample_ws ''open'' ''4'')
     ((new_orderState sample_ident)\<lparr>os_statusObserved := UnixMilli 9\<rparr>)) = UnixMilli 9"
  using applyStatus_in_order [of "sample_ws ''open'' ''4''" "(new_orderState sample_ident)\<lparr>os_statusObserved := UnixMilli 9\<rparr>" 3]
  by (simp add: sample_ws_def UnixMilli_def millisecond_def zero_time_def)

text \<open>
  Clean-up removes exactly the stale deals: those not updated within the given period and without an
  active order, together with all their orders. Every other deal and every order of another deal is
  left untouched.
\<close>

theorem CleanupStaleDeals_exact:
  assumes "svc_ok s"
  shows "case CleanupStaleDeals now dur s of (n, t) \<Rightarrow>
    (let gone = (\<lambda>k. case map_of (deals s) k of None \<Rightarrow> False
                 | Some d \<Rightarrow> dur \<le> now - ds_lastUpdate d \<and> list_all (\<lambda>st. \<not> isActive st) (deal_orders s d))
     in svc_ok t \<and> map_of (deals t) k = (if gone k then None else map_of (deals s) k) \<and>
        map_of (orders t) i = (if gone (deal_of i) then None else map_of (orders s) i))"
proof -
  have "deal_stale now dur s =
      (\<lambda>d. dur \<le> now - ds_lastUpdate d \<and> list_all (\<lambda>st. \<not> isActive st) (deal_orders s d))"
    by (auto simp: fun_eq_iff deal_stale_def)
  note maps = Cleanup_maps [OF assms, where now = now and dur = dur, unfolded this]
  show ?thesis
    unfolding split_beta Let_def by (intro conjI maps)
qed

theorem CleanupStaleDeals_exact_witness:
  "map_of (deals (snd (CleanupStaleDeals 1000 10 sample_tracker))) 9 = map_of (deals sample_tracker) 9 \<and>
   map_of (deals sample_tracker) 9 \<noteq> None"
proof
  have "svc_ok sample_tracker"
    unfolding sample_tracker_def
    by (intro update_status_ok sample_ws_good) (rule tracker.inv_init [OF refl])
  moreover have "(case map_of (deals sample_tracker) 9 of None \<Rightarrow> False
      | Some d \<Rightarrow> 10 \<le> 1000 - ds_lastUpdate d \<and> list_all (\<lambda>st. \<not> isActive st) (deal_orders sample_tracker d)) = False"
    by code_simp
  ultimately show "map_of (deals (snd (CleanupStaleDeals 1000 10 sample_tracker))) 9 = map_of (deals sample_tracker) 9"
    using CleanupStaleDeals_exact [of sample_tracker, where now = 1000 and dur = 10 and k = 9]
    by (simp only: split_beta Let_def if_False)
qed code_simp

lemma snapshot_step_fields:
  "sn_AllBuysFilled (snapshot_step st out) =
     (sn_AllBuysFilled out \<and> (if isBuy st then \<not> isActive st \<and> isFilled st else True))"
  "sn_OpenBuys (snapshot_step st out) = sn_OpenBuys out @ (if isBuy st \<and> isActive st then [st] else [])"
  "sn_ActiveTakeProfits (snapshot_step st out) =
     sn_ActiveTakeProfits out @ (if \<not> isBuy st \<and> os_reduceOnly st \<and> isActive st then [st] else [])"
  "sn_Orders (snapshot_step st out) = sn_Orders out @ [st]"
  "sn_DealID (snapshot_step st out) = sn_DealID out"
  "sn_Currency (snapshot_step st out) = sn_Currency out"
  by (cases "os_event st"; cases "isBuy st"; cases "isActive st"; simp add: snapshot_step_def Let_def)+

lemma snapshot_fold:
  "sn_AllBuysFilled (fold snapshot_step sts out) =
     (sn_AllBuysFilled out \<and> list_all (\<lambda>st. if isBuy st then \<not> isActive st \<and> isFilled st else True) sts)"
  "sn_OpenBuys (fold snapshot_step sts out) = sn_OpenBuys out @ filter (\<lambda>st. isBuy st \<and> isActive st) sts"
  "sn_ActiveTakeProfits (fold snapshot_step sts out) =
     sn_ActiveTakeProfits out @ filter (\<lambda>st. \<not> isBuy st \<and> os_reduceOnly st \<and> isActive st) sts"
  "sn_Orders (fold snapshot_step sts out) = sn_Orders out @ sts"
  "sn_DealID (fold snapshot_step sts out) = sn_DealID out"
  "sn_Currency (fold snapshot_step sts out) = sn_Currency out"
  by (induction sts arbitrary: out) (simp_all add: snapshot_step_fields)

text \<open>
  What a snapshot says. All buys count as filled exactly when every buy order of the deal is inactive
  and filled; the open buys are the active buy orders; the active take profits are the active
  reduce-only orders on the sell side; and nothing is left out.
\<close>

theorem deal_snapshot_contents:
  "let out = deal_snapshot sts d in
     sn_AllBuysFilled out = list_all (\<lambda>st. if isBuy st then \<not> isActive st \<and> isFilled st else True) sts \<and>
     sn_OpenBuys out = filter (\<lambda>st. isBuy st \<and> isActive st) sts \<and>
     sn_ActiveTakeProfits out = filter (\<lambda>st. \<not> isBuy st \<and> os_reduceOnly st \<and> isActive st) sts \<and>
     sn_Orders out = sts \<and> sn_DealID out = ds_dealID d"
  by (simp add: deal_snapshot_def snapshot_fold Let_def)

end
