(* ===== verification/Adapter.thy ===== *)
theory Adapter
  imports Recomma_Types
begin

text \<open>
  \<^verbatim>\<open>adapter/adapter.go\<close>: translation of a 3Commas bot event into a venue request, and the
  transition table that decides between create, modify, cancel and nothing. The theorems give the
  table branch by branch, the content of the request each action carries, and the tolerance within
  which two events count as the same.
\<close>

section \<open>Requests\<close>

definition orderTypeFrom3C :: "BotEvent \<Rightarrow> OrderType" where
  "orderTypeFrom3C event =
     (let tif = (if ev_Status (tc_event event) = Active \<and> \<not> ev_IsMarket (tc_event event)
                 then TifGtc else TifIoc)
      in \<lparr>ot_Limit = Some tif, ot_Trigger = None\<rparr>)"

definition ToCreateOrderRequest :: "string \<Rightarrow> BotEvent \<Rightarrow> OrderId \<Rightarrow> CreateOrderRequest" where
  "ToCreateOrderRequest currency event oid =
     (let isBuy = (ev_Type (tc_event event) = BUY);
          reduceOnly = (\<not> isBuy \<and> ev_OrderType (tc_event event) = DealOrderTypeTakeProfit)
      in \<lparr>cr_Coin = currency, cr_IsBuy = isBuy, cr_Price = ev_Price (tc_event event),
          cr_Size = ev_Size (tc_event event), cr_ReduceOnly = reduceOnly,
          cr_OrderType = orderTypeFrom3C event, cr_ClientOrderID = HexAsPointer oid\<rparr>)"

definition ToCancelByCloidRequest :: "string \<Rightarrow> OrderId \<Rightarrow> CancelOrderRequestByCloid" where
  "ToCancelByCloidRequest currency oid = \<lparr>ca_Coin = currency, ca_Cloid = Hex oid\<rparr>"

definition ToModifyOrderRequest :: "string \<Rightarrow> BotEvent \<Rightarrow> OrderId \<Rightarrow> ModifyOrderRequest" where
  "ToModifyOrderRequest currency nxt oid =
     (let req = ToCreateOrderRequest currency nxt oid
      in \<lparr>mo_Oid = None, mo_Cloid = Some (Hex oid), mo_Order = req\<rparr>)"

section \<open>Order states and float comparison\<close>

datatype orderState = stateUnknown | stateActive | stateCancelled | stateFilled

definition classify :: "BotEvent option \<Rightarrow> orderState" where
  "classify event =
     (case event of
        None \<Rightarrow> stateUnknown
      | Some e \<Rightarrow>
          (case ev_Status (tc_event e) of
             Active \<Rightarrow> stateActive
           | Cancelled \<Rightarrow> stateCancelled
           | Filled \<Rightarrow> stateFilled
           | Finished \<Rightarrow> stateFilled
           | _ \<Rightarrow> stateUnknown))"

definition floatAbsEpsilon :: f64 where
  "floatAbsEpsilon = fl64 (1 / 100000000)"

definition floatRelEpsilon :: f64 where
  "floatRelEpsilon = fl64 (1 / 1000000)"

definition almostEqual :: "f64 \<Rightarrow> f64 \<Rightarrow> bool" where
  "almostEqual a b =
     (let diff = math_Abs (a - b) in
      if diff \<le> floatAbsEpsilon then True
      else let largest = math_Max (math_Abs a) (math_Abs b) in
           if feq largest 0 then True
           else fdiv diff largest \<le> floatRelEpsilon)"

definition diffFloat :: "f64 \<Rightarrow> f64 \<Rightarrow> bool" where
  "diffFloat a b = (\<not> almostEqual a b)"

definition needsModify :: "BotEvent option \<Rightarrow> BotEvent option \<Rightarrow> bool" where
  "needsModify prev nxt =
     (case (prev, nxt) of
        (Some p, Some n) \<Rightarrow>
          (let p = tc_event p; n = tc_event n in
           if ev_Type p \<noteq> ev_Type n \<or> ev_OrderType p \<noteq> ev_OrderType n then True
           else if ev_IsMarket p \<noteq> ev_IsMarket n then True
           else diffFloat (ev_Price p) (ev_Price n) \<or> diffFloat (ev_Size p) (ev_Size n))
      | _ \<Rightarrow> False)"

section \<open>The transition table\<close>

definition BuildAction :: "string \<Rightarrow> BotEvent option \<Rightarrow> BotEvent \<Rightarrow> OrderId \<Rightarrow> Action" where
  "BuildAction currency prev nxt oid =
     (let prevState = classify prev; nextState = classify (Some nxt) in
      if prev = None \<and> nextState = stateActive then
        zero_Action\<lparr>ac_Type := ActionCreate, ac_Create := ToCreateOrderRequest currency nxt oid\<rparr>
      else if prev = None then
        zero_Action\<lparr>ac_Type := ActionNone, ac_Reason := ''skipped: no prior order submitted''\<rparr>
      else if prevState = stateActive \<and> nextState = stateCancelled then
        zero_Action\<lparr>ac_Type := ActionCancel, ac_Cancel := ToCancelByCloidRequest currency oid\<rparr>
      else if prevState = stateActive \<and> nextState = stateFilled then
        zero_Action\<lparr>ac_Type := ActionNone, ac_Reason := ''filled locally''\<rparr>
      else if prevState = stateActive \<and> nextState = stateActive then
        (if needsModify prev (Some nxt) then
           zero_Action\<lparr>ac_Type := ActionModify, ac_Modify := ToModifyOrderRequest currency nxt oid\<rparr>
         else zero_Action\<lparr>ac_Type := ActionNone, ac_Reason := ''no material change''\<rparr>)
      else zero_Action\<lparr>ac_Type := ActionNone, ac_Reason := ''unsupported transition''\<rparr>)"

section \<open>Facts\<close>

lemma classify_iff [simp]:
  "classify (Some e) = stateActive \<longleftrightarrow> ev_Status (tc_event e) = Active"
  "classify (Some e) = stateCancelled \<longleftrightarrow> ev_Status (tc_event e) = Cancelled"
  "classify (Some e) = stateFilled \<longleftrightarrow> ev_Status (tc_event e) \<in> {Filled, Finished}"
  by (auto simp: classify_def split: MarketOrderStatusString.splits)

lemma abs_diff_commute: "math_Abs (a - b) = math_Abs (b - (a :: f64))"
proof -
  have "\<bar>fl64 (x - y)\<bar> = \<bar>fl64 (y - x)\<bar>" for x y
    using fl64_minus [of "x - y"] by (cases "fl64 (x - y)") auto
  then show ?thesis by (cases a; cases b) (auto simp: math_Abs_def minus_f64_def)
qed

lemma math_Max_commute: "math_Max a b = math_Max b a"
  by (cases a; cases b) (auto simp: math_Max_def less_f64_def)

lemma almostEqual_sym: "almostEqual a b = almostEqual b a"
  by (simp add: almostEqual_def abs_diff_commute [of a] math_Max_commute [of "math_Abs a"])

lemma floatAbsEpsilon_pos: "0 \<le> floatAbsEpsilon"
  by (simp add: floatAbsEpsilon_def fl64_nonneg)

lemma almostEqual_refl: "is_fin a \<Longrightarrow> almostEqual a a"
  using floatAbsEpsilon_pos by (cases a) (auto simp: almostEqual_def math_Abs_def zero_f64_def)

lemma needsModify_self:
  assumes "is_fin (ev_Price (tc_event e))" and "is_fin (ev_Size (tc_event e))"
  shows "\<not> needsModify (Some e) (Some e)"
  using assms by (simp add: needsModify_def diffFloat_def almostEqual_refl)

lemmas action_simps = BuildAction_def zero_Action_def Let_def

text \<open>
  C20: The transition table of \<^verbatim>\<open>BuildAction\<close>. A create is built exactly for an active event with no
  predecessor, a cancel exactly for active to cancelled, a modify exactly for active to active
  with a material change, and nothing in every other case. Whatever is built carries the order's
  own client order id.
\<close>

theorem BuildAction_table:
  "let a = BuildAction currency prev nxt oid;
       now = ev_Status (tc_event nxt);
       was_active = (prev \<noteq> None \<and> classify prev = stateActive)
   in (ac_Type a = ActionCreate \<longleftrightarrow> prev = None \<and> now = Active) \<and>
      (ac_Type a = ActionCancel \<longleftrightarrow> was_active \<and> now = Cancelled) \<and>
      (ac_Type a = ActionModify \<longleftrightarrow> was_active \<and> now = Active \<and> needsModify prev (Some nxt)) \<and>
      (case ac_Type a of
         ActionCreate \<Rightarrow> cr_ClientOrderID (ac_Create a) = Some (Hex oid)
       | ActionModify \<Rightarrow> mo_Cloid (ac_Modify a) = Some (Hex oid) \<and>
           cr_ClientOrderID (mo_Order (ac_Modify a)) = Some (Hex oid)
       | ActionCancel \<Rightarrow> ca_Cloid (ac_Cancel a) = Hex oid
       | ActionNone \<Rightarrow> ac_Reason a \<noteq> [])"
  by (cases prev)
    (auto simp: action_simps ToCreateOrderRequest_def ToModifyOrderRequest_def
      ToCancelByCloidRequest_def HexAsPointer_def)

text \<open>
  Seeing the same event again never touches the venue: with finite price and size the action
  built from an event and itself is \<^verbatim>\<open>ActionNone\<close>. A difference within the absolute tolerance
  in price and size does not count as a change either, in whichever order the events come.
\<close>

theorem BuildAction_idempotent:
  assumes "is_fin (ev_Price (tc_event e))" and "is_fin (ev_Size (tc_event e))"
    and "math_Abs (dp - ev_Price (tc_event e)) \<le> floatAbsEpsilon"
    and "math_Abs (ds - ev_Size (tc_event e)) \<le> floatAbsEpsilon"
  defines "e' \<equiv> e\<lparr>tc_event := tc_event e\<lparr>ev_Price := dp, ev_Size := ds\<rparr>\<rparr>"
  shows "ac_Type (BuildAction currency (Some e) e oid) = ActionNone \<and>
    ac_Type (BuildAction currency (Some e) e' oid) = ActionNone \<and>
    ac_Type (BuildAction currency (Some e') e oid) = ActionNone"
proof -
  have close: "almostEqual dp (ev_Price (tc_event e))" "almostEqual ds (ev_Size (tc_event e))"
    using assms(3,4) by (simp_all add: almostEqual_def)
  then have "\<not> needsModify (Some e') (Some e)"
    by (simp add: needsModify_def diffFloat_def e'_def)
  moreover have "\<not> needsModify (Some e) (Some e')"
    using close almostEqual_sym by (simp add: needsModify_def diffFloat_def e'_def)
  moreover have "ev_Status (tc_event e') = ev_Status (tc_event e)"
    by (simp add: e'_def)
  ultimately show ?thesis
    using needsModify_self [OF assms(1,2)] by (simp add: action_simps)
qed

definition sample_event :: BotEvent where
  "sample_event = \<lparr>RowID = 1, tc_event = zero_tc_BotEvent
     \<lparr>ev_Type := BUY, ev_Status := Active, ev_Price := Fin 20, ev_Size := Fin 3\<rparr>\<rparr>"

theorem BuildAction_idempotent_witness:
  "ac_Type (BuildAction ''DOGE'' (Some sample_event) sample_event zero_OrderId) = ActionNone \<and>
   ev_Status (tc_event sample_event) = Active"
proof
  have "math_Abs (Fin 20 - Fin 20) \<le> floatAbsEpsilon" "math_Abs (Fin 3 - Fin 3) \<le> floatAbsEpsilon"
    using floatAbsEpsilon_pos by (simp_all add: math_Abs_def zero_f64_def)
  then show "ac_Type (BuildAction ''DOGE'' (Some sample_event) sample_event zero_OrderId) = ActionNone"
    using BuildAction_idempotent [of sample_event "Fin 20" "Fin 3" "''DOGE''" zero_OrderId]
    by (simp add: sample_event_def)
qed (simp add: sample_event_def)

end
