(* ===== verification/Fill_Reconcile.thy ===== *)
theory Fill_Reconcile
  imports Fill_Tracker Adapter
begin

text \<open>
  \<^verbatim>\<open>filltracker/service.go\<close>, second part: reconciliation of take-profit orders with the net
  position of each venue. The emitter and the SDK's event fingerprint are parameters; an operation
  threads the works it has emitted, in order, beside the service. Maps are iterated in the order in
  which their keys were first written.
\<close>

section \<open>Environment\<close>

datatype emit_result = EmitOk | EmitAlreadySatisfied | EmitFailed

record rc_env =
  rc_store :: ft_store
  rc_emit :: "OrderWork \<Rightarrow> emit_result"
  rc_fingerprint :: "tc_BotEvent \<Rightarrow> string"
  rc_now :: time

type_synonym rc_state = "OrderWork list \<times> Service"

section \<open>Helpers\<close>

definition floatsEqual :: "f64 \<Rightarrow> f64 \<Rightarrow> bool" where
  "floatsEqual a b = (math_Abs (a - b) \<le> floatTolerance)"

definition eventsMatch :: "rc_env \<Rightarrow> tc_BotEvent option \<Rightarrow> tc_BotEvent option \<Rightarrow> bool" where
  "eventsMatch env a b =
     (case (a, b) of
        (Some x, Some y) \<Rightarrow>
          if ev_CreatedAt x \<noteq> ev_CreatedAt y then False
          else rc_fingerprint env x = rc_fingerprint env y
      | _ \<Rightarrow> False)"

definition isLiveHyperliquidStatus :: "WsOrder option \<Rightarrow> bool" where
  "isLiveHyperliquidStatus status =
     (case status of
        None \<Rightarrow> False
      | Some w \<Rightarrow> ws_Status w = OrderStatusValueOpen \<or> ws_Status w = ''live'')"

definition hasLiveHyperliquidStatus :: "rc_env \<Rightarrow> OrderIdentifier \<Rightarrow> bool" where
  "hasLiveHyperliquidStatus env ident =
     (case st_LoadHyperliquidStatus (rc_store env) ident of
        Inl _ \<Rightarrow> False
      | Inr None \<Rightarrow> False
      | Inr (Some w) \<Rightarrow> isLiveHyperliquidStatus (Some w))"

definition submissionMatchesDesired :: "Action \<Rightarrow> f64 \<Rightarrow> bool \<Rightarrow> bool" where
  "submissionMatchesDesired action desiredSize requireReduceOnly =
     (case ac_Type action of
        ActionCreate \<Rightarrow>
          if requireReduceOnly \<and> \<not> cr_ReduceOnly (ac_Create action) then False
          else floatsEqual (cr_Size (ac_Create action)) desiredSize
      | ActionModify \<Rightarrow>
          if requireReduceOnly \<and> \<not> cr_ReduceOnly (mo_Order (ac_Modify action)) then False
          else floatsEqual (cr_Size (mo_Order (ac_Modify action))) desiredSize
      | _ \<Rightarrow> False)"

definition shouldSkipSubmission :: "rc_env \<Rightarrow> OrderIdentifier \<Rightarrow> f64 \<Rightarrow> bool \<Rightarrow> bool" where
  "shouldSkipSubmission env ident desiredSize requireReduceOnly =
     (case st_LoadHyperliquidSubmission (rc_store env) ident of
        Inl _ \<Rightarrow> False
      | Inr None \<Rightarrow> False
      | Inr (Some action) \<Rightarrow>
          if \<not> submissionMatchesDesired action desiredSize requireReduceOnly then False
          else (case st_LoadHyperliquidStatus (rc_store env) ident of
              Inl _ \<Rightarrow> False
            | Inr status \<Rightarrow> if status = None \<or> \<not> isLiveHyperliquidStatus status then False else True))"

text \<open>\<^verbatim>\<open>emitOrderWork\<close>: \<open>True\<close> when the emitter performed the work.\<close>

definition emitOrderWork :: "rc_env \<Rightarrow> OrderWork \<Rightarrow> rc_state \<Rightarrow> bool \<times> rc_state" where
  "emitOrderWork env work ts =
     (case ts of (tr, s) \<Rightarrow>
        if wk_Identifier work = zero_OrderIdentifier then (False, (tr, s))
        else (case rc_emit env work of
            EmitOk \<Rightarrow> (True, (tr @ [work], s))
          | EmitAlreadySatisfied \<Rightarrow> (False, (tr @ [work], s))
          | EmitFailed \<Rightarrow> (False, (tr @ [work], s))))"

section \<open>Positions per venue\<close>

type_synonym venueKey = "VenueID \<times> string"

definition venue_key :: "OrderIdentifier \<Rightarrow> venueKey" where
  "venue_key ident = (oi_VenueID ident, oi_Wallet ident)"

definition side_is_buy :: "string \<Rightarrow> bool" where
  "side_is_buy side \<longleftrightarrow> side = ''B'' \<or> EqualFold side ''BUY''"

definition venue_step ::
  "OrderSnapshot \<Rightarrow> (venueKey \<times> f64) list \<times> (venueKey \<times> OrderIdentifier) list
     \<Rightarrow> (venueKey \<times> f64) list \<times> (venueKey \<times> OrderIdentifier) list" where
  "venue_step order acc =
     (case acc of (positions, identifiers) \<Rightarrow>
        let key = venue_key (os_identifier order);
            identifiers = (case map_of identifiers key of
                None \<Rightarrow> identifiers @ [(key, os_identifier order)] | Some _ \<Rightarrow> identifiers);
            old = (case map_of positions key of None \<Rightarrow> 0 | Some v \<Rightarrow> v);
            new = (if side_is_buy (os_side order) then old + os_filledQty order else old - os_filledQty order)
        in (AList.update key new positions, identifiers))"

definition calculateVenuePositions :: "DealSnapshot \<Rightarrow> (OrderIdentifier \<times> f64) list" where
  "calculateVenuePositions snapshot =
     (case fold venue_step (sn_Orders snapshot) ([], []) of (positions, identifiers) \<Rightarrow>
        fold (\<lambda>(key, netQty) result.
          (case map_of identifiers key of
             None \<Rightarrow> AList.update zero_OrderIdentifier netQty result
           | Some ident \<Rightarrow> AList.update ident netQty result)) positions [])"

section \<open>Take profits\<close>

definition buildTakeProfitIdentifier ::
  "rc_env \<Rightarrow> DealSnapshot \<Rightarrow> VenueID \<Rightarrow> string \<Rightarrow> OrderIdentifier option" where
  "buildTakeProfitIdentifier env snapshot targetVenue targetWallet =
     (case find (\<lambda>order. os_reduceOnly order \<and> os_event order \<noteq> None) (sn_Orders snapshot) of
        Some order \<Rightarrow> Some (NewOrderIdentifier targetVenue targetWallet (oi_OrderId (os_identifier order)))
      | None \<Rightarrow>
          (case st_LoadTakeProfitForDeal (rc_store env) (sn_DealID snapshot) of
             Inl _ \<Rightarrow> None
           | Inr (oid, _) \<Rightarrow> Some (NewOrderIdentifier targetVenue targetWallet oid)))"

definition lookupTakeProfitContext ::
  "rc_env \<Rightarrow> DealSnapshot \<Rightarrow> OrderIdentifier option \<Rightarrow> tc_BotEvent option \<Rightarrow> (OrderIdentifier \<times> tc_BotEvent) option" where
  "lookupTakeProfitContext env snapshot preferredIdent preferredEvent =
     (let ident = preferredIdent;
          evt = (if preferredEvent = None then sn_LastTakeProfitEvent snapshot else preferredEvent);
          ident = (if ident = None \<and> evt \<noteq> None
                   then map_option os_identifier (find (\<lambda>order. os_reduceOnly order \<and> os_event order \<noteq> None \<and>
                          eventsMatch env (os_event order) evt) (sn_Orders snapshot))
                   else ident);
          needLoadIdent = (ident = None);
          needLoadEvent = (evt = None)
      in if needLoadIdent \<or> needLoadEvent then
           (case st_LoadTakeProfitForDeal (rc_store env) (sn_DealID snapshot) of
              Inl _ \<Rightarrow> None
            | Inr (storedOrderId, storedEvt) \<Rightarrow>
                let ident = (if needLoadIdent
                             then (case list_or_nil (st_ListSubmissionIdentifiersForOrder (rc_store env) storedOrderId) of
                                     [] \<Rightarrow> None | i # _ \<Rightarrow> Some i)
                             else ident);
                    evt = (if needLoadEvent then Some storedEvt else evt)
                in (case (ident, evt) of (Some i, Some e) \<Rightarrow> Some (i, e) | _ \<Rightarrow> None))
         else (case (ident, evt) of (Some i, Some e) \<Rightarrow> Some (i, e) | _ \<Rightarrow> None))"

definition wrap_event :: "tc_BotEvent \<Rightarrow> BotEvent" where
  "wrap_event evt = \<lparr>RowID = 0, tc_event = evt\<rparr>"

definition ensureTakeProfit ::
  "rc_env \<Rightarrow> DealSnapshot \<Rightarrow> f64 \<Rightarrow> OrderIdentifier option \<Rightarrow> tc_BotEvent option \<Rightarrow> bool \<Rightarrow> rc_state \<Rightarrow> rc_state" where
  "ensureTakeProfit env snapshot desiredQty preferredIdent preferredEvent force ts =
     (case lookupTakeProfitContext env snapshot preferredIdent preferredEvent of
        None \<Rightarrow> ts
      | Some (ident, evt) \<Rightarrow>
          if \<not> force \<and> hasLiveHyperliquidStatus env ident then ts
          else
            let oid = oi_OrderId ident;
                create = (ToCreateOrderRequest (sn_Currency snapshot) (wrap_event evt) oid)
                  \<lparr>cr_Size := desiredQty, cr_ReduceOnly := True\<rparr>
            in if \<not> force \<and> shouldSkipSubmission env ident (cr_Size create) (cr_ReduceOnly create) then ts
               else snd (emitOrderWork env
                 \<lparr>wk_Identifier = ident, wk_OrderId = oid,
                  wk_Action = zero_Action\<lparr>ac_Type := ActionCreate, ac_Create := create,
                    ac_Reason := ''recreate missing take profit''\<rparr>,
                  wk_BotEvent = wrap_event evt\<rparr> ts))"

definition cancel_work :: "DealSnapshot \<Rightarrow> OrderSnapshot \<Rightarrow> string \<Rightarrow> OrderWork" where
  "cancel_work snapshot tp reason =
     (let ident = os_identifier tp; oid = oi_OrderId ident
      in \<lparr>wk_Identifier = ident, wk_OrderId = oid,
          wk_Action = zero_Action\<lparr>ac_Type := ActionCancel,
            ac_Cancel := \<lparr>ca_Coin = sn_Currency snapshot, ca_Cloid = Hex oid\<rparr>, ac_Reason := reason\<rparr>,
          wk_BotEvent = zero_BotEvent\<rparr>)"

definition cancelTakeProfitBySnapshot :: "rc_env \<Rightarrow> DealSnapshot \<Rightarrow> OrderSnapshot \<Rightarrow> rc_state \<Rightarrow> rc_state" where
  "cancelTakeProfitBySnapshot env snapshot tp ts =
     (case emitOrderWork env (cancel_work snapshot tp ''position closed; cancel stale take profit'') ts of
        (True, (tr, s)) \<Rightarrow> (tr, markOrderCancelled (rc_now env) (os_identifier tp) s)
      | (False, ts) \<Rightarrow> ts)"

definition reconcileActiveTakeProfitBySnapshot ::
  "rc_env \<Rightarrow> DealSnapshot \<Rightarrow> OrderSnapshot \<Rightarrow> f64 \<Rightarrow> rc_state \<Rightarrow> rc_state" where
  "reconcileActiveTakeProfitBySnapshot env snapshot tp desiredQty ts =
     (if os_reduceOnly tp \<and> floatsEqual (os_remainingQty tp) desiredQty then ts
      else
        let ident = os_identifier tp; oid = oi_OrderId ident;
            evt = (if os_event tp = None then sn_LastTakeProfitEvent snapshot else os_event tp)
        in (case evt of
              Some e \<Rightarrow>
                let modify = ToModifyOrderRequest (sn_Currency snapshot) (wrap_event e) oid;
                    modify = modify\<lparr>mo_Order := (mo_Order modify)\<lparr>cr_Size := desiredQty, cr_ReduceOnly := True\<rparr>\<rparr>
                in if shouldSkipSubmission env ident (cr_Size (mo_Order modify)) (cr_ReduceOnly (mo_Order modify))
                   then ts
                   else snd (emitOrderWork env
                     \<lparr>wk_Identifier = ident, wk_OrderId = oid,
                      wk_Action = zero_Action\<lparr>ac_Type := ActionModify, ac_Modify := modify,
                        ac_Reason := ''resize take profit to match net position''\<rparr>,
                      wk_BotEvent = wrap_event e\<rparr> ts)
            | None \<Rightarrow>
                (case emitOrderWork env
                     (cancel_work snapshot tp ''stale take profit metadata; cancel before recreation'') ts of
                   (False, ts) \<Rightarrow> ts
                 | (True, (tr, s)) \<Rightarrow>
                     ensureTakeProfit env snapshot desiredQty (Some ident) (sn_LastTakeProfitEvent snapshot) True
                       (tr, markOrderCancelled (rc_now env) ident s))))"

text \<open>One venue of the main loop, and the loop over active take profits of venues it did not meet.\<close>

definition reconcile_venue ::
  "rc_env \<Rightarrow> DealSnapshot \<Rightarrow> (venueKey \<times> OrderSnapshot) list \<Rightarrow> OrderIdentifier \<times> f64 \<Rightarrow> rc_state \<Rightarrow> rc_state" where
  "reconcile_venue env snapshot activeTPs pos ts =
     (case pos of (ident, venueNetQty) \<Rightarrow>
        let tp = map_of activeTPs (venue_key ident) in
        if venueNetQty \<le> floatTolerance then
          (case tp of None \<Rightarrow> ts | Some tp \<Rightarrow> cancelTakeProfitBySnapshot env snapshot tp ts)
        else (case tp of
            Some tp \<Rightarrow> reconcileActiveTakeProfitBySnapshot env snapshot tp venueNetQty ts
          | None \<Rightarrow>
              let tpIdent = buildTakeProfitIdentifier env snapshot (oi_VenueID ident) (oi_Wallet ident)
              in ensureTakeProfit env snapshot venueNetQty tpIdent None False ts))"

definition active_by_venue :: "OrderSnapshot list \<Rightarrow> (venueKey \<times> OrderSnapshot) list" where
  "active_by_venue tps = fold (\<lambda>tp m. AList.update (venue_key (os_identifier tp)) tp m) tps []"

definition reconcileSnapshot :: "rc_env \<Rightarrow> bool \<Rightarrow> DealSnapshot \<Rightarrow> rc_state \<Rightarrow> rc_state" where
  "reconcileSnapshot env submitter snapshot ts =
     (if \<not> submitter then ts
      else if sn_DealID snapshot = 0 then ts
      else if \<not> sn_AllBuysFilled snapshot then ts
      else
        let venuePositions = calculateVenuePositions snapshot;
            activeTPs = active_by_venue (sn_ActiveTakeProfits snapshot);
            processed = map (venue_key \<circ> fst) venuePositions;
            ts = fold (reconcile_venue env snapshot activeTPs) venuePositions ts
        in fold (\<lambda>(key, tp) ts. if key \<in> set processed then ts
                   else cancelTakeProfitBySnapshot env snapshot tp ts) activeTPs ts)"

definition ReconcileTakeProfits :: "rc_env \<Rightarrow> bool \<Rightarrow> rc_state \<Rightarrow> rc_state" where
  "ReconcileTakeProfits env submitter ts =
     (if \<not> statusesHydrated (snd ts) then ts
      else fold (\<lambda>dealID ts.
             (case Snapshot dealID (snd ts) of
                None \<Rightarrow> ts
              | Some snapshot \<Rightarrow> reconcileSnapshot env submitter snapshot ts))
           (map fst (deals (snd ts))) ts)"

definition UpdateStatus ::
  "rc_env \<Rightarrow> OrderIdentifier \<Rightarrow> WsOrder \<Rightarrow> rc_state \<Rightarrow> store_error option \<times> rc_state" where
  "UpdateStatus env ident status ts =
     (case ts of (tr, s) \<Rightarrow>
        (case st_LoadThreeCommasBotEvent (rc_store env) (oi_OrderId ident) of
           Inl e \<Rightarrow> (Some e, (tr, s))
         | Inr event \<Rightarrow>
             let s = update_status_locked (rc_now env) event ident status s
             in (case Snapshot (deal_of ident) s of
                   None \<Rightarrow> (None, (tr, s))
                 | Some snapshot \<Rightarrow>
                     (None, reconcileSnapshot env (has_submitter s) snapshot (tr, s)))))"

section \<open>What reconciliation emits\<close>

text \<open>An operation that only appends works of a given kind to the trace.\<close>

definition emits :: "(OrderWork \<Rightarrow> bool) \<Rightarrow> (rc_state \<Rightarrow> rc_state) \<Rightarrow> bool" where
  "emits P f \<longleftrightarrow> (\<forall>ts. \<exists>ws. fst (f ts) = fst ts @ ws \<and> list_all P ws)"

lemma emitsI: "(\<And>ts. \<exists>ws. fst (f ts) = fst ts @ ws \<and> list_all P ws) \<Longrightarrow> emits P f"
  by (simp add: emits_def)

lemma emits_id [simp]: "emits P (\<lambda>ts. ts)"
  by (rule emitsI) simp

lemma emits_comp: "emits P f \<Longrightarrow> emits P g \<Longrightarrow> emits P (\<lambda>ts. g (f ts))"
proof (rule emitsI)
  fix ts
  assume "emits P f" and "emits P g"
  then obtain vs ws where "fst (f ts) = fst ts @ vs" "list_all P vs"
      "fst (g (f ts)) = fst (f ts) @ ws" "list_all P ws"
    unfolding emits_def by blast
  then show "\<exists>ws. fst (g (f ts)) = fst ts @ ws \<and> list_all P ws"
    by (intro exI [of _ "vs @ ws"]) simp
qed

lemma emits_fold: "(\<And>x. x \<in> set xs \<Longrightarrow> emits P (f x)) \<Longrightarrow> emits P (fold f xs)"
proof (induction xs)
  case Nil
  then show ?case using emits_id by (simp add: id_def)
next
  case (Cons x xs)
  then show ?case using emits_comp [of P "f x" "fold f xs"] by (simp add: comp_def)
qed

lemma emit_trace:
  "\<exists>ws. fst (snd (emitOrderWork env w ts)) = fst ts @ ws \<and> set ws \<subseteq> {w}"
  "snd (snd (emitOrderWork env w ts)) = snd ts"
  by (cases ts; cases "rc_emit env w"; simp add: emitOrderWork_def)+

lemma emits_emit: "P w \<Longrightarrow> emits P (\<lambda>ts. snd (emitOrderWork env w ts))"
  using emit_trace(1) by (intro emitsI) (fastforce simp: list_all_iff)

lemma emits_cancel:
  assumes "P (cancel_work snapshot tp ''position closed; cancel stale take profit'')"
  shows "emits P (cancelTakeProfitBySnapshot env snapshot tp)"
proof (rule emitsI)
  fix ts
  let ?w = "cancel_work snapshot tp ''position closed; cancel stale take profit''"
  have "fst (cancelTakeProfitBySnapshot env snapshot tp ts) = fst (snd (emitOrderWork env ?w ts))"
    by (simp add: cancelTakeProfitBySnapshot_def split: prod.splits bool.splits)
  moreover have "emits P (\<lambda>ts. snd (emitOrderWork env ?w ts))"
    by (rule emits_emit) (rule assms)
  ultimately show "\<exists>ws. fst (cancelTakeProfitBySnapshot env snapshot tp ts) = fst ts @ ws \<and> list_all P ws"
    unfolding emits_def by metis
qed

text \<open>The works reconciliation may emit for a snapshot.\<close>

definition tp_work_ok :: "DealSnapshot \<Rightarrow> OrderWork \<Rightarrow> bool" where
  "tp_work_ok snapshot w =
     (let resized = (\<lambda>req. cr_ReduceOnly req \<and>
            list_ex (\<lambda>(i, q). venue_key i = venue_key (wk_Identifier w) \<and> cr_Size req = q \<and> \<not> q \<le> floatTolerance)
              (calculateVenuePositions snapshot))
      in case ac_Type (wk_Action w) of
           ActionCancel \<Rightarrow>
             list_ex (\<lambda>tp. wk_Identifier w = os_identifier tp \<and>
                ca_Cloid (ac_Cancel (wk_Action w)) = oi_Hex (os_identifier tp)) (sn_ActiveTakeProfits snapshot)
         | ActionModify \<Rightarrow> resized (mo_Order (ac_Modify (wk_Action w)))
         | ActionCreate \<Rightarrow> resized (ac_Create (wk_Action w))
         | ActionNone \<Rightarrow> False)"

lemma cancel_work_ok:
  "tp \<in> set (sn_ActiveTakeProfits snapshot) \<Longrightarrow> tp_work_ok snapshot (cancel_work snapshot tp r)"
  by (auto simp: tp_work_ok_def cancel_work_def zero_Action_def oi_Hex_def list_ex_iff Let_def)

lemma active_by_venue_fold:
  "map_of (fold (\<lambda>tp m. AList.update (venue_key (os_identifier tp)) tp m) tps m) key = Some tp \<Longrightarrow>
   tp \<in> set tps \<and> venue_key (os_identifier tp) = key \<or> map_of m key = Some tp"
  by (induction tps arbitrary: m) (fastforce split: if_splits)+

lemma active_by_venueD:
  assumes "map_of (active_by_venue (sn_ActiveTakeProfits snapshot)) key = Some tp"
  shows "tp \<in> set (sn_ActiveTakeProfits snapshot)" and "venue_key (os_identifier tp) = key"
  using active_by_venue_fold [of "sn_ActiveTakeProfits snapshot" "[]" key tp] assms
  by (simp_all add: active_by_venue_def)

lemma lookup_preferred:
  "lookupTakeProfitContext env snapshot (Some i) pe = Some (ident, evt) \<Longrightarrow> ident = i"
  by (auto simp: lookupTakeProfitContext_def Let_def split: if_splits sum.splits option.splits prod.splits)

text \<open>A venue position that calls for a take profit.\<close>

definition wanted :: "DealSnapshot \<Rightarrow> OrderIdentifier \<Rightarrow> f64 \<Rightarrow> bool" where
  "wanted snapshot i q \<longleftrightarrow> (\<exists>i'. (i', q) \<in> set (calculateVenuePositions snapshot) \<and> venue_key i' = venue_key i) \<and> \<not> q \<le> floatTolerance"

lemma emits_ensure:
  assumes "wanted snapshot i q"
  shows "emits (tp_work_ok snapshot) (ensureTakeProfit env snapshot q (Some i) pe force)"
proof (cases "lookupTakeProfitContext env snapshot (Some i) pe")
  case None
  then show ?thesis by (simp add: ensureTakeProfit_def emits_def)
next
  case (Some r)
  then obtain evt where r: "lookupTakeProfitContext env snapshot (Some i) pe = Some (i, evt)"
    using lookup_preferred by (cases r) blast
  let ?w = "\<lparr>wk_Identifier = i, wk_OrderId = oi_OrderId i,
     wk_Action = zero_Action\<lparr>ac_Type := ActionCreate,
       ac_Create := (ToCreateOrderRequest (sn_Currency snapshot) (wrap_event evt) (oi_OrderId i))
         \<lparr>cr_Size := q, cr_ReduceOnly := True\<rparr>, ac_Reason := ''recreate missing take profit''\<rparr>,
     wk_BotEvent = wrap_event evt\<rparr>"
  have "tp_work_ok snapshot ?w"
    using assms by (auto simp: tp_work_ok_def wanted_def zero_Action_def list_ex_iff Let_def)
  then have "emits (tp_work_ok snapshot) (\<lambda>ts. snd (emitOrderWork env ?w ts))"
    by (rule emits_emit)
  then show ?thesis
    using emits_id unfolding ensureTakeProfit_def r Let_def by (auto simp: emits_def)
qed

lemma emits_reconcile_active:
  assumes w: "wanted snapshot (os_identifier tp) q" and tp: "tp \<in> set (sn_ActiveTakeProfits snapshot)"
  shows "emits (tp_work_ok snapshot) (reconcileActiveTakeProfitBySnapshot env snapshot tp q)"
proof (cases "if os_event tp = None then sn_LastTakeProfitEvent snapshot else os_event tp")
  case (Some e)
  let ?m = "ToModifyOrderRequest (sn_Currency snapshot) (wrap_event e) (oi_OrderId (os_identifier tp))"
  let ?w = "\<lparr>wk_Identifier = os_identifier tp, wk_OrderId = oi_OrderId (os_identifier tp),
     wk_Action = zero_Action\<lparr>ac_Type := ActionModify,
       ac_Modify := ?m\<lparr>mo_Order := (mo_Order ?m)\<lparr>cr_Size := q, cr_ReduceOnly := True\<rparr>\<rparr>,
       ac_Reason := ''resize take profit to match net position''\<rparr>, wk_BotEvent = wrap_event e\<rparr>"
  have "tp_work_ok snapshot ?w"
    using w by (auto simp: tp_work_ok_def wanted_def zero_Action_def list_ex_iff Let_def)
  then have "emits (tp_work_ok snapshot) (\<lambda>ts. snd (emitOrderWork env ?w ts))"
    by (rule emits_emit)
  then show ?thesis
    using emits_id unfolding reconcileActiveTakeProfitBySnapshot_def Let_def Some by (auto simp: emits_def)
next
  case None
  let ?w = "cancel_work snapshot tp ''stale take profit metadata; cancel before recreation''"
  have c: "emits (tp_work_ok snapshot) (\<lambda>ts. snd (emitOrderWork env ?w ts))"
    by (rule emits_emit) (rule cancel_work_ok [OF tp])
  have e: "emits (tp_work_ok snapshot)
      (ensureTakeProfit env snapshot q (Some (os_identifier tp)) (sn_LastTakeProfitEvent snapshot) True)"
    by (rule emits_ensure [OF w])
  show ?thesis
  proof (rule emitsI)
    fix ts
    obtain b tr s where em: "emitOrderWork env ?w ts = (b, (tr, s))" by (metis prod.exhaust)
    obtain vs where v: "tr = fst ts @ vs" "list_all (tp_work_ok snapshot) vs"
      using c em unfolding emits_def by (metis fst_conv snd_conv)
    obtain us where u: "fst (ensureTakeProfit env snapshot q (Some (os_identifier tp)) (sn_LastTakeProfitEvent snapshot) True
        (tr, markOrderCancelled (rc_now env) (os_identifier tp) s)) = tr @ us" "list_all (tp_work_ok snapshot) us"
      using e unfolding emits_def by (metis fst_conv)
    show "\<exists>ws. fst (reconcileActiveTakeProfitBySnapshot env snapshot tp q ts) = fst ts @ ws \<and>
        list_all (tp_work_ok snapshot) ws"
    proof (cases "os_reduceOnly tp \<and> floatsEqual (os_remainingQty tp) q")
      case True
      then show ?thesis by (simp add: reconcileActiveTakeProfitBySnapshot_def)
    next
      case False
      then show ?thesis
        using None u v unfolding reconcileActiveTakeProfitBySnapshot_def Let_def None em
        by (cases b) (auto intro: exI [of _ "vs @ us"])
    qed
  qed
qed

lemma last_tp_fold:
  "sn_LastTakeProfitEvent (fold snapshot_step sts out) \<noteq> None \<Longrightarrow>
   sn_LastTakeProfitEvent out \<noteq> None \<or> list_ex (\<lambda>st. os_reduceOnly st \<and> os_event st \<noteq> None) sts"
proof (induction sts arbitrary: out)
  case Nil
  then show ?case by simp
next
  case (Cons st sts)
  have "sn_LastTakeProfitEvent (snapshot_step st out) \<noteq> None \<Longrightarrow>
      sn_LastTakeProfitEvent out \<noteq> None \<or> os_reduceOnly st \<and> os_event st \<noteq> None"
    by (cases "os_event st"; cases "isBuy st"; cases "isActive st")
      (auto simp: snapshot_step_def Let_def split: if_splits)
  with Cons show ?case by fastforce
qed

lemma build_None:
  assumes "snapshot = deal_snapshot sts d" and "buildTakeProfitIdentifier env snapshot v w = None"
  shows "lookupTakeProfitContext env snapshot None None = None"
proof -
  have none: "find (\<lambda>order. os_reduceOnly order \<and> os_event order \<noteq> None) (sn_Orders snapshot) = None"
    and err: "\<exists>e. st_LoadTakeProfitForDeal (rc_store env) (sn_DealID snapshot) = Inl e"
    using assms(2) by (auto simp: buildTakeProfitIdentifier_def split: option.splits sum.splits)
  have "sn_Orders snapshot = sts"
    by (simp add: assms(1) deal_snapshot_def snapshot_fold)
  with none have "\<not> list_ex (\<lambda>st. os_reduceOnly st \<and> os_event st \<noteq> None) sts"
    by (auto simp: find_None_iff list_ex_iff)
  then have "sn_LastTakeProfitEvent snapshot = None"
    using last_tp_fold [of sts] by (fastforce simp: assms(1) deal_snapshot_def)
  with err show ?thesis
    by (auto simp: lookupTakeProfitContext_def Let_def)
qed

lemma build_venue:
  "buildTakeProfitIdentifier env snapshot v w = Some i \<Longrightarrow> venue_key i = (v, w)"
  by (auto simp: buildTakeProfitIdentifier_def NewOrderIdentifier_def venue_key_def split: option.splits sum.splits)

lemma emits_venue:
  assumes snap: "snapshot = deal_snapshot sts d" and pos: "(i, q) \<in> set (calculateVenuePositions snapshot)"
  shows "emits (tp_work_ok snapshot)
    (reconcile_venue env snapshot (active_by_venue (sn_ActiveTakeProfits snapshot)) (i, q))"
proof (cases "map_of (active_by_venue (sn_ActiveTakeProfits snapshot)) (venue_key i)")
  case (Some tp)
  note tp = active_by_venueD [OF Some]
  have "emits (tp_work_ok snapshot) (cancelTakeProfitBySnapshot env snapshot tp)"
    by (rule emits_cancel) (rule cancel_work_ok [OF tp(1)])
  moreover have "emits (tp_work_ok snapshot) (reconcileActiveTakeProfitBySnapshot env snapshot tp q)"
    if "\<not> q \<le> floatTolerance"
    using that pos tp by (intro emits_reconcile_active) (auto simp: wanted_def)
  ultimately show ?thesis
    using Some by (cases "q \<le> floatTolerance") (simp_all add: reconcile_venue_def emits_def)
next
  case None
  have "emits (tp_work_ok snapshot) (ensureTakeProfit env snapshot q
      (buildTakeProfitIdentifier env snapshot (oi_VenueID i) (oi_Wallet i)) None False)"
    if q: "\<not> q \<le> floatTolerance"
  proof (cases "buildTakeProfitIdentifier env snapshot (oi_VenueID i) (oi_Wallet i)")
    case n: None
    then show ?thesis
      using build_None [OF snap n] by (simp add: ensureTakeProfit_def emits_def)
  next
    case b: (Some j)
    have "wanted snapshot j q"
      using q pos build_venue [OF b] by (auto simp: wanted_def venue_key_def)
    then show ?thesis unfolding b by (rule emits_ensure)
  qed
  with None show ?thesis
    by (cases "q \<le> floatTolerance") (simp_all add: reconcile_venue_def emits_def)
qed

text \<open>
  C11: Take-profit reconciliation is safe. Of a snapshot of any deal it emits, in order: cancellations of
  take profits that the snapshot lists as active, and creations or modifications that are
  reduce-only, for a venue and wallet of the deal, with exactly the net quantity of that venue,
  which lies above the tolerance. It emits nothing at all while a buy is open or unfilled, for the deal with
  number zero, or without a submitter.
\<close>

theorem reconcile_emits_only_reduce_only:
  "\<exists>ws. fst (reconcileSnapshot env submitter (deal_snapshot sts d) ts) = fst ts @ ws \<and>
     list_all (tp_work_ok (deal_snapshot sts d)) ws \<and>
     (if submitter \<and> sn_DealID (deal_snapshot sts d) \<noteq> 0 \<and> sn_AllBuysFilled (deal_snapshot sts d)
      then True else ws = [])"
proof -
  define snapshot where "snapshot = deal_snapshot sts d"
  let ?act = "active_by_venue (sn_ActiveTakeProfits snapshot)"
  let ?pos = "calculateVenuePositions snapshot"
  have "distinct (map fst (fold (\<lambda>tp m. AList.update (venue_key (os_identifier tp)) tp m) tps m))"
    if "distinct (map fst m)" for tps and m :: "(venueKey \<times> OrderSnapshot) list"
    using that by (induction tps arbitrary: m) (simp_all add: distinct_update)
  then have dist: "distinct (map fst ?act)" by (simp add: active_by_venue_def)
  have "emits (tp_work_ok snapshot) (fold (reconcile_venue env snapshot ?act) ?pos)"
    using emits_venue [OF snapshot_def] by (intro emits_fold) (metis prod.exhaust)
  moreover have "emits (tp_work_ok snapshot) (fold (\<lambda>(key, tp) ts. if key \<in> keys then ts
      else cancelTakeProfitBySnapshot env snapshot tp ts) ?act)" for keys
  proof (rule emits_fold)
    fix x
    assume x: "x \<in> set ?act"
    then have "snd x \<in> set (sn_ActiveTakeProfits snapshot)"
      using dist active_by_venueD(1) [of snapshot "fst x" "snd x"] by (simp add: map_of_eq_Some_iff)
    from emits_cancel [of "tp_work_ok snapshot" snapshot "snd x" env] cancel_work_ok [OF this]
    show "emits (tp_work_ok snapshot) (case x of (key, tp) \<Rightarrow> \<lambda>ts. if key \<in> keys then ts
        else cancelTakeProfitBySnapshot env snapshot tp ts)"
      by (cases "fst x \<in> keys") (simp_all add: split_beta emits_def)
  qed
  ultimately have "emits (tp_work_ok snapshot) (\<lambda>ts. fold (\<lambda>(key, tp) ts. if key \<in> keys then ts
      else cancelTakeProfitBySnapshot env snapshot tp ts) ?act (fold (reconcile_venue env snapshot ?act) ?pos ts))"
    for keys
    by (rule emits_comp)
  from this [of "set (map (venue_key \<circ> fst) ?pos)"] obtain ws where
    ws: "fst (fold (\<lambda>(key, tp) ts. if key \<in> set (map (venue_key \<circ> fst) ?pos) then ts
      else cancelTakeProfitBySnapshot env snapshot tp ts) ?act (fold (reconcile_venue env snapshot ?act) ?pos ts)) =
      fst ts @ ws" "list_all (tp_work_ok snapshot) ws"
    unfolding emits_def by blast
  show ?thesis
  proof (cases "submitter \<and> sn_DealID snapshot \<noteq> 0 \<and> sn_AllBuysFilled snapshot")
    case True
    then show ?thesis
      using ws unfolding snapshot_def [symmetric] reconcileSnapshot_def Let_def
      by (intro exI [of _ ws]) (simp del: set_map)
  next
    case False
    then show ?thesis
      unfolding snapshot_def [symmetric] reconcileSnapshot_def Let_def by (intro exI [of _ "[]"]) auto
  qed
qed

lemma fold_still: "(\<And>x. x \<in> set xs \<Longrightarrow> f x t = t) \<Longrightarrow> fold f xs t = t"
  by (induction xs) simp_all

text \<open>
  Reconciliation comes to rest. If every venue with a position has an active reduce-only take profit
  whose remaining quantity equals the position within the tolerance, and no other take profit is
  active, then nothing is emitted and nothing changes.
\<close>

theorem reconcile_quiescent:
  assumes "\<And>i q. (i, q) \<in> set (calculateVenuePositions snapshot) \<Longrightarrow> \<not> q \<le> floatTolerance \<and>
      (\<exists>tp. map_of (active_by_venue (sn_ActiveTakeProfits snapshot)) (venue_key i) = Some tp \<and>
         os_reduceOnly tp \<and> floatsEqual (os_remainingQty tp) q)"
    and "\<And>tp. tp \<in> set (sn_ActiveTakeProfits snapshot) \<Longrightarrow>
      venue_key (os_identifier tp) \<in> (venue_key \<circ> fst) ` set (calculateVenuePositions snapshot)"
  shows "reconcileSnapshot env submitter snapshot ts = ts"
proof -
  let ?act = "active_by_venue (sn_ActiveTakeProfits snapshot)"
  let ?keys = "set (map (venue_key \<circ> fst) (calculateVenuePositions snapshot))"
  have "fold (reconcile_venue env snapshot ?act) (calculateVenuePositions snapshot) ts = ts"
  proof (rule fold_still)
    fix x
    assume "x \<in> set (calculateVenuePositions snapshot)"
    with assms(1) [of "fst x" "snd x"] show "reconcile_venue env snapshot ?act x ts = ts"
      by (auto simp: reconcile_venue_def reconcileActiveTakeProfitBySnapshot_def split_beta)
  qed
  moreover have "fold (\<lambda>(key, tp) ts. if key \<in> ?keys then ts
      else cancelTakeProfitBySnapshot env snapshot tp ts) ?act ts = ts"
  proof (rule fold_still)
    fix x
    assume "x \<in> set ?act"
    then obtain tp where "map_of ?act (fst x) = Some tp"
      by (metis prod.collapse weak_map_of_SomeI)
    with active_by_venueD [of snapshot "fst x" tp] assms(2) [of tp] have "fst x \<in> ?keys" by simp
    then show "(case x of (key, tp) \<Rightarrow> \<lambda>ts. if key \<in> ?keys then ts
        else cancelTakeProfitBySnapshot env snapshot tp ts) ts = ts"
      by (simp add: split_beta del: set_map)
  qed
  ultimately show ?thesis
    unfolding reconcileSnapshot_def Let_def by (simp del: set_map)
qed

section \<open>A concrete deal\<close>

definition tp_oid :: OrderId where
  "tp_oid = \<lparr>BotID = 7, DealID = 9, BotEventID = 2\<rparr>"

definition tp_ident :: OrderIdentifier where
  "tp_ident = \<lparr>oi_VenueID = ''hl'', oi_Wallet = ''w'', oi_OrderId = tp_oid\<rparr>"

definition tp_event :: tc_BotEvent where
  "tp_event = zero_tc_BotEvent\<lparr>ev_Coin := ''DOGE'', ev_Type := SELL, ev_Status := Active, ev_Price := Fin 3,
     ev_Size := Fin 4, ev_OrderType := DealOrderTypeTakeProfit\<rparr>"

definition sample_store :: ft_store where
  "sample_store = \<lparr>st_ListDealIDs = Inr [9], st_LoadThreeCommasDeal = (\<lambda>_. Inr None),
     st_ListOrderIdsForDeal = (\<lambda>_. Inr [sample_oid, tp_oid]),
     st_LoadThreeCommasBotEvent = (\<lambda>oid. Inr (Some (if oid = tp_oid then tp_event else sample_buy))),
     st_ListSubmissionIdentifiersForOrder = (\<lambda>oid. Inr [if oid = tp_oid then tp_ident else sample_ident]),
     st_ListScaledOrdersByOrderId = (\<lambda>_. Inr []), st_LoadHyperliquidStatus = (\<lambda>_. Inr None),
     st_LoadHyperliquidSubmission = (\<lambda>_. Inr None), st_LoadTakeProfitForDeal = (\<lambda>_. Inr (tp_oid, tp_event))\<rparr>"

definition sample_env :: rc_env where
  "sample_env = \<lparr>rc_store = sample_store, rc_emit = (\<lambda>_. EmitOk), rc_fingerprint = ev_Coin, rc_now = 100\<rparr>"

text \<open>A deal with an active take profit of the given size, not refreshed since hydration was required.\<close>

definition tp_order :: "rat \<Rightarrow> ft_orderState" where
  "tp_order q = (new_orderState tp_ident)\<lparr>os_event := Some tp_event, os_coin := ''DOGE'',
     os_orderType := DealOrderTypeTakeProfit, os_side := ''A'', os_reduceOnly := True, os_originalQty := Fin q,
     os_remainingQty := Fin q, os_status := ''open''\<rparr>"

definition buy_order :: ft_orderState where
  "buy_order = (new_orderState sample_ident)\<lparr>os_event := Some sample_buy, os_coin := ''DOGE'', os_side := ''B'',
     os_originalQty := Fin 10, os_filledQty := Fin 10, os_status := ''filled''\<rparr>"

definition filled_snapshot :: "rat \<Rightarrow> DealSnapshot" where
  "filled_snapshot q = deal_snapshot [buy_order, tp_order q]
     \<lparr>ds_botID = 7, ds_dealID = 9, ds_currency = ''DOGE'', ds_orders = [sample_ident, tp_ident],
      ds_position = zero_DealPosition, ds_lastUpdate = 0\<rparr>"

lemma filled_snapshot_10:
  "sn_AllBuysFilled (filled_snapshot 10)"
  "calculateVenuePositions (filled_snapshot 10) = [(sample_ident, Fin 10)]"
  "active_by_venue [tp_order 10] = [((''hl'', ''w''), tp_order 10)]"
  "sn_ActiveTakeProfits (filled_snapshot 10) = [tp_order 10]"
  "floatsEqual (Fin 10) (Fin 10)" "\<not> Fin 10 \<le> floatTolerance"
  by code_simp+

theorem reconcile_quiescent_witness:
  "sn_AllBuysFilled (filled_snapshot 10) \<and>
   reconcileSnapshot sample_env True (filled_snapshot 10) ([], New) = ([], New)"
proof
  have "os_reduceOnly (tp_order 10)" "os_remainingQty (tp_order 10) = Fin 10"
    "venue_key sample_ident = (''hl'', ''w'')" "venue_key (os_identifier (tp_order 10)) = (''hl'', ''w'')"
    by (simp_all add: tp_order_def new_orderState_def venue_key_def sample_ident_def tp_ident_def)
  then show "reconcileSnapshot sample_env True (filled_snapshot 10) ([], New) = ([], New)"
    by (intro reconcile_quiescent) (simp_all add: filled_snapshot_10)
qed (rule filled_snapshot_10)

definition before_fill :: Service where
  "before_fill =
     \<lparr>orders = [(tp_ident, tp_order 4)],
      deals = [(9, \<lparr>ds_botID = 7, ds_dealID = 9, ds_currency = ''DOGE'', ds_orders = [tp_ident],
                 ds_position = zero_DealPosition, ds_lastUpdate = 0\<rparr>)],
      has_submitter = True, requireHydration = True, statusHydrated = False, hydrationEpoch = 1\<rparr>"

definition after_fill :: Service where
  "after_fill = update_status_locked 100 (Some sample_buy) sample_ident (sample_ws ''filled'' ''0'') before_fill"

lemma after_fill_facts:
  "\<not> statusesHydrated after_fill" "has_submitter after_fill"
  "(case Snapshot 9 after_fill of None \<Rightarrow> False
    | Some sn \<Rightarrow> sn_DealID sn = 9 \<and> sn_AllBuysFilled sn \<and> calculateVenuePositions sn = [(sample_ident, Fin 10)] \<and>
        active_by_venue (sn_ActiveTakeProfits sn) = [((''hl'', ''w''), tp_order 4)])"
  "\<not> Fin 10 \<le> floatTolerance" "\<not> floatsEqual (Fin 4) (Fin 10)"
  by code_simp+

lemma reconcile_single_modify:
  assumes "sn_DealID snapshot \<noteq> 0" and "sn_AllBuysFilled snapshot"
    and "calculateVenuePositions snapshot = [(i, q)]" and "\<not> q \<le> floatTolerance"
    and "active_by_venue (sn_ActiveTakeProfits snapshot) = [(venue_key i, tp)]"
    and "\<not> floatsEqual (os_remainingQty tp) q" and "os_event tp = Some e"
    and "\<not> shouldSkipSubmission env (os_identifier tp) q True" and "os_identifier tp \<noteq> zero_OrderIdentifier"
  shows "\<exists>w. fst (reconcileSnapshot env True snapshot (tr, s)) = tr @ [w] \<and> ac_Type (wk_Action w) = ActionModify \<and>
    wk_Identifier w = os_identifier tp"
  using assms
  by (simp add: reconcileSnapshot_def reconcile_venue_def reconcileActiveTakeProfitBySnapshot_def
      emitOrderWork_def Let_def zero_Action_def split: emit_result.splits)

text \<open>
  The hydration gate has a gap. \<^verbatim>\<open>ReconcileTakeProfits\<close> waits until the statuses have been
  refreshed, but a single status update reconciles at once: with hydration required and not
  reached, before and after, a fill of the buy makes \<^verbatim>\<open>UpdateStatus\<close> emit a modification of the take
  profit, whose own state has not been refreshed yet, while \<^verbatim>\<open>ReconcileTakeProfits\<close> in the same state emits nothing.
\<close>

theorem status_update_bypasses_hydration_gate:
  "\<not> statusesHydrated before_fill \<and> \<not> statusesHydrated after_fill \<and>
   (\<exists>w. fst (snd (UpdateStatus sample_env sample_ident (sample_ws ''filled'' ''0'') ([], before_fill))) = [w] \<and>
      ac_Type (wk_Action w) = ActionModify \<and> wk_Identifier w = tp_ident) \<and>
   ReconcileTakeProfits sample_env True ([], after_fill) = ([], after_fill)"
proof -
  obtain sn where sn: "Snapshot 9 after_fill = Some sn" "sn_DealID sn = 9" "sn_AllBuysFilled sn"
      "calculateVenuePositions sn = [(sample_ident, Fin 10)]"
      "active_by_venue (sn_ActiveTakeProfits sn) = [((''hl'', ''w''), tp_order 4)]"
    using after_fill_facts(3) by (auto split: option.splits)
  have tp: "os_remainingQty (tp_order 4) = Fin 4" "os_event (tp_order 4) = Some tp_event"
      "os_identifier (tp_order 4) = tp_ident" "tp_ident \<noteq> zero_OrderIdentifier" "venue_key sample_ident = (''hl'', ''w'')"
    by (simp_all add: tp_order_def new_orderState_def venue_key_def tp_ident_def sample_ident_def zero_OrderIdentifier_def)
  have ev: "st_LoadThreeCommasBotEvent (rc_store sample_env) (oi_OrderId sample_ident) = Inr (Some sample_buy)"
    "rc_now sample_env = 100" "deal_of sample_ident = 9" "\<not> shouldSkipSubmission sample_env tp_ident (Fin 10) True"
    by (simp_all add: sample_env_def sample_store_def sample_ident_def sample_oid_def tp_oid_def shouldSkipSubmission_def)
  have "\<exists>w. fst (reconcileSnapshot sample_env True sn ([], after_fill)) = [] @ [w] \<and>
      ac_Type (wk_Action w) = ActionModify \<and> wk_Identifier w = os_identifier (tp_order 4)"
    by (rule reconcile_single_modify [of sn sample_ident "Fin 10"]) (simp_all add: sn tp ev after_fill_facts)
  then have "\<exists>w. fst (snd (UpdateStatus sample_env sample_ident (sample_ws ''filled'' ''0'') ([], before_fill))) = [w] \<and>
      ac_Type (wk_Action w) = ActionModify \<and> wk_Identifier w = tp_ident"
    by (simp add: UpdateStatus_def ev after_fill_def [symmetric] sn(1) after_fill_facts tp)
  then show ?thesis
    using after_fill_facts(1)
    by (simp add: ReconcileTakeProfits_def) (simp add: before_fill_def statusesHydrated_def)
qed

lemma touch_deal_orders [simp]: "orders (touch_deal now ident s) = orders s"
  by (simp add: touch_deal_def ensureDealLocked_def Let_def)

text \<open>
  Hydration means every take profit. If hydration is required and pending and a status update completes it,
  then afterwards every reduce-only order the tracker knows has been refreshed in the current
  epoch.
\<close>

theorem hydration_completes_with_all:
  assumes "requireHydration s" and "\<not> statusHydrated s" and "hydrationEpoch s \<noteq> 0"
    and "statusHydrated (update_status_locked now event ident w s)"
    and "map_of (orders (update_status_locked now event ident w s)) i = Some st" and "os_reduceOnly st"
  shows "os_hydratedEpoch st = hydrationEpoch s"
proof -
  define st0 where "st0 = applyStatus now w (applyEvent event (fst (ensureOrderLocked ident s)))"
  define m where "m = markOrderHydratedLocked ident (set_order ident st0 s)"
  have u: "update_status_locked now event ident w s = touch_deal now ident m"
    by (simp add: update_status_locked_def st0_def m_def split_beta Let_def)
  have "statusHydrated (touch_deal now ident m) = statusHydrated m"
    by (simp add: touch_deal_def ensureDealLocked_def Let_def)
  with assms(4) u have hyd: "statusHydrated m" by simp
  let ?st = "if requiresHydration st0 then st0\<lparr>os_hydratedEpoch := hydrationEpoch s\<rparr> else st0"
  have "\<not> list_ex (\<lambda>x. requiresHydration (snd x) \<and> os_hydratedEpoch (snd x) \<noteq> hydrationEpoch s)
      (orders (set_order ident ?st s))"
    using hyd assms(1-3) unfolding m_def mark_hydrated_eq Let_def
    by (auto simp: set_order_def split: if_splits)
  moreover have "orders m = orders (set_order ident ?st s)"
    using assms(1-3) unfolding m_def mark_hydrated_eq Let_def by simp
  moreover have "(i, st) \<in> set (orders m)"
    using assms(5) u by (simp add: map_of_SomeD)
  ultimately show ?thesis
    using assms(6) by (fastforce simp: list_ex_iff requiresHydration_def)
qed

definition refresh_tp :: Service where
  "refresh_tp = update_status_locked 100 (Some tp_event) tp_ident (sample_ws ''open'' ''4'') before_fill"

theorem hydration_completes_with_all_witness:
  "\<exists>st. map_of (orders refresh_tp) tp_ident = Some st \<and> os_hydratedEpoch st = 1"
proof -
  have b: "requireHydration before_fill" "\<not> statusHydrated before_fill" "hydrationEpoch before_fill = 1"
    by (simp_all add: before_fill_def)
  have "statusHydrated refresh_tp \<and> (case map_of (orders refresh_tp) tp_ident of None \<Rightarrow> False | Some st \<Rightarrow> os_reduceOnly st)"
    by code_simp
  then obtain st where "statusHydrated refresh_tp" "map_of (orders refresh_tp) tp_ident = Some st" "os_reduceOnly st"
    by (auto split: option.splits)
  with hydration_completes_with_all [OF b(1,2) _ _ _ this(3), of 100 "Some tp_event" tp_ident "sample_ws ''open'' ''4''" tp_ident]
  show ?thesis by (auto simp: b refresh_tp_def)
qed

end
