(* ===== verification/Constraints.thy ===== *)
theory Constraints
  imports Recomma_Types
begin

text \<open>
  \<^verbatim>\<open>hl/constraints.go\<close>, \<^verbatim>\<open>hl/order.go\<close> and \<^verbatim>\<open>hl/bbo.go\<close>: rounding of sizes and
  prices to what the venue accepts, the cache of per-coin decimals, and the conversion of query
  results and book updates. The venue's answers are parameters. A slice access out of range is a
  panic, the value \<open>None\<close>.
\<close>

section \<open>Rounding\<close>

record CoinConstraints =
  Coin :: string
  SizeDecimals :: int
  SizeStep :: f64
  PriceSigFigs :: int
  MinNotional :: f64

definition RoundSize :: "CoinConstraints \<Rightarrow> f64 \<Rightarrow> f64" where
  "RoundSize c sz =
     (if SizeStep c \<le> 0 then sz else math_Round (fdiv sz (SizeStep c)) * SizeStep c)"

definition roundToDecimals :: "f64 \<Rightarrow> int \<Rightarrow> f64" where
  "roundToDecimals v decimals =
     (let pow = math_Pow10 decimals in fdiv (math_Round (v * pow)) pow)"

text \<open>
  \<^verbatim>\<open>int(x)\<close>: the integer part; outside the range of \<^verbatim>\<open>int64\<close> the language leaves the result open
  and amd64 gives the least integer.
\<close>

fun go_int :: "f64 \<Rightarrow> int" where
  "go_int (Fin a) = (let n = (if 0 \<le> a then \<lfloor>a\<rfloor> else \<lceil>a\<rceil>)
     in if - (2 ^ 63) \<le> n \<and> n < 2 ^ 63 then n else - (2 ^ 63))"
| "go_int _ = - (2 ^ 63)"

text \<open>The loop that counts decimal digits.\<close>

function integer_digits :: "int \<Rightarrow> int \<Rightarrow> int" where
  "integer_digits temp n = (if 0 < temp then integer_digits (temp div 10) (n + 1) else n)"
  by auto

termination
  by (relation "measure (\<lambda>(temp, n). nat temp)") auto

declare integer_digits.simps [simp del]

text \<open>The loop that scales a price below one; \<open>None\<close> when the fuel is used up.\<close>

fun scale_up :: "nat \<Rightarrow> f64 \<Rightarrow> int \<Rightarrow> (f64 \<times> int) option" where
  "scale_up 0 absPrice multiplications = None"
| "scale_up (Suc fuel) absPrice multiplications =
     (if absPrice < 1 then scale_up fuel (absPrice * Fin 10) (multiplications + 1)
      else Some (absPrice, multiplications))"

definition scale_fuel :: nat where
  "scale_fuel = 360"

definition roundToSignificantFigures :: "f64 \<Rightarrow> int \<Rightarrow> f64 option" where
  "roundToSignificantFigures price sigFigs =
     (if sigFigs \<le> 0 then Some price
      else if feq price 0 then Some 0
      else let absPrice = math_Abs price; integerPart = math_Floor absPrice in
        if 0 < integerPart then
          (let numIntegerDigits = integer_digits (go_int integerPart) 0 in
           if sigFigs \<le> numIntegerDigits then Some (math_Copysign integerPart price)
           else let sigFigsLeft = sigFigs - numIntegerDigits;
                    rounded = roundToDecimals absPrice sigFigsLeft
                in Some (math_Copysign rounded price))
        else (case scale_up scale_fuel absPrice 0 of
            None \<Rightarrow> None
          | Some (absPrice, multiplications) \<Rightarrow>
              let rounded = roundToDecimals absPrice (sigFigs - 1)
              in Some (math_Copysign (fdiv rounded (math_Pow10 multiplications)) price)))"

definition RoundPrice :: "CoinConstraints \<Rightarrow> f64 \<Rightarrow> f64 option" where
  "RoundPrice c price =
     (let sig = (if PriceSigFigs c \<le> 0 then 5 else PriceSigFigs c)
      in roundToSignificantFigures price sig)"

definition NotionalBelowMinimum :: "CoinConstraints \<Rightarrow> f64 \<Rightarrow> f64 \<Rightarrow> bool" where
  "NotionalBelowMinimum c sz price =
     (if MinNotional c \<le> 0 then False
      else let notional = math_Abs (sz * price)
           in notional + fl64 (1 / 1000000000000) < MinNotional c)"

section \<open>The cache\<close>

record spot_asset =
  sa_Name :: string
  sa_Index :: int
  sa_Tokens :: "int list"

text \<open>
  The venue's answers: the perpetuals (name and size decimals) and the spot universe with the size
  decimals of its tokens; \<open>None\<close> is an error.
\<close>

record info_answers =
  perp_meta :: "(string \<times> int) list option"
  spot_meta :: "(spot_asset list \<times> int list) option"

record OrderIdCache =
  once_done :: bool
  decimals :: "(string \<times> int) list"

definition NewOrderIdCache :: OrderIdCache where
  "NewOrderIdCache = \<lparr>once_done = False, decimals = []\<rparr>"

definition slice_at :: "'a list \<Rightarrow> int \<Rightarrow> 'a option" where
  "slice_at xs i = (if 0 \<le> i \<and> i < int (length xs) then Some (xs ! nat i) else None)"

fun load_spot :: "int list \<Rightarrow> spot_asset list \<Rightarrow> (string \<times> int) list \<Rightarrow> (string \<times> int) list option" where
  "load_spot tokens [] m = Some m"
| "load_spot tokens (asset # rest) m =
     (if 0 \<le> sa_Index asset \<and> sa_Index asset < int (length tokens) then
        (case slice_at (sa_Tokens asset) 0 of
           None \<Rightarrow> None
         | Some t \<Rightarrow>
             (case slice_at tokens t of
                None \<Rightarrow> None
              | Some szDecimals \<Rightarrow> load_spot tokens rest (AList.update (sa_Name asset) szDecimals m)))
      else load_spot tokens rest m)"

definition load_perp :: "(string \<times> int) list \<Rightarrow> (string \<times> int) list \<Rightarrow> (string \<times> int) list" where
  "load_perp universe m = fold (\<lambda>(name, sz). AList.update name sz) universe m"

definition ensureLoaded :: "info_answers \<Rightarrow> OrderIdCache \<Rightarrow> OrderIdCache option" where
  "ensureLoaded info m =
     (if once_done m then Some m
      else let d = (case perp_meta info of None \<Rightarrow> decimals m | Some u \<Rightarrow> load_perp u (decimals m)) in
        (case spot_meta info of
           None \<Rightarrow> Some \<lparr>once_done = True, decimals = d\<rparr>
         | Some (universe, tokens) \<Rightarrow>
             (case load_spot tokens universe d of
                None \<Rightarrow> None
              | Some d' \<Rightarrow> Some \<lparr>once_done = True, decimals = d'\<rparr>)))"

datatype resolve_error = CoinRequired | UnknownCoin string

definition Resolve ::
  "info_answers \<Rightarrow> string \<Rightarrow> OrderIdCache \<Rightarrow> ((resolve_error + CoinConstraints) \<times> OrderIdCache) option" where
  "Resolve info coin m =
     (if coin = [] then Some (Inl CoinRequired, m)
      else (case ensureLoaded info m of
          None \<Rightarrow> None
        | Some m' \<Rightarrow>
            (case map_of (decimals m') coin of
               None \<Rightarrow> Some (Inl (UnknownCoin coin), m')
             | Some d \<Rightarrow>
                 Some (Inr \<lparr>Coin = coin, SizeDecimals = d, SizeStep = math_Pow10 (- d),
                        PriceSigFigs = 5, MinNotional = 0\<rparr>, m'))))"

section \<open>Query results and book updates\<close>

record OrderQueryResult =
  qr_success :: bool
  qr_order :: WsOrder

datatype query_error = ResultNil

definition OrderQueryResultToWsOrder ::
  "OrderId \<Rightarrow> OrderQueryResult option \<Rightarrow> query_error + WsOrder option" where
  "OrderQueryResultToWsOrder oid result =
     (case result of
        None \<Rightarrow> Inl ResultNil
      | Some r \<Rightarrow>
          if \<not> qr_success r then Inr None
          else let wsOrder = qr_order r in
            (case wo_Cloid (ws_Order wsOrder) of
               None \<Rightarrow> Inr (Some (wsOrder\<lparr>ws_Order := (ws_Order wsOrder)\<lparr>wo_Cloid := Some (Hex oid)\<rparr>\<rparr>))
             | Some _ \<Rightarrow> Inr (Some wsOrder)))"

record Level =
  lv_Price :: f64
  lv_Size :: f64

record BestBidOffer =
  bbo_Coin :: string
  bbo_Time :: time
  bbo_Bid :: Level
  bbo_Ask :: Level

record Bbo =
  in_Coin :: string
  in_Time :: int
  in_Bbo :: "Level list"

definition WsBBOToBBO :: "Bbo \<Rightarrow> BestBidOffer option" where
  "WsBBOToBBO i =
     (case in_Bbo i of
        bid # ask # _ \<Rightarrow> Some \<lparr>bbo_Coin = in_Coin i, bbo_Time = UnixMilli (in_Time i),
          bbo_Bid = bid, bbo_Ask = ask\<rparr>
      | _ \<Rightarrow> None)"

section \<open>Monotonicity\<close>

lemma math_Round_mono: "a \<le> b \<Longrightarrow> math_Round a \<le> math_Round b"
  by (cases a; cases b) (simp_all add: math_Round_def round_away_mono)

lemma f64_inf_bounds [simp]: "a \<le> PInf \<longleftrightarrow> \<not> is_nan a" "NInf \<le> a \<longleftrightarrow> \<not> is_nan a"
  by (cases a; simp)+

lemma times_pos_mono:
  assumes "0 < s" and "a \<le> b"
  shows "a * Fin s \<le> b * Fin s"
  using assms by (cases a; cases b) (auto simp: fl64_mono mult_right_mono)

lemma fdiv_pos_mono:
  assumes "0 < s" and "a \<le> b"
  shows "fdiv a (Fin s) \<le> fdiv b (Fin s)"
  using assms by (cases a; cases b) (auto simp: fl64_mono divide_right_mono)

lemma RoundSize_mono:
  assumes "SizeStep c = Fin s" and "0 < s" and "a \<le> b"
  shows "RoundSize c a \<le> RoundSize c b"
  using assms by (simp add: RoundSize_def times_pos_mono math_Round_mono fdiv_pos_mono)

lemma round_away_error: "\<bar>of_int (round_away q) - q\<bar> \<le> 1 / 2"
proof -
  have "\<bar>of_int \<lfloor>x + 1 / 2\<rfloor> - x\<bar> \<le> 1 / 2" for x :: rat
    using floor_correct [of "x + 1 / 2"] by (intro abs_leI) linarith+
  note err = this [of q] this [of "- q"]
  show ?thesis
  proof (cases "0 \<le> q")
    case True
    with err(1) show ?thesis by (simp only: round_away_def if_True)
  next
    case False
    then have "of_int (round_away q) - q = - (of_int \<lfloor>- q + 1 / 2\<rfloor> - - q)"
      by (simp add: round_away_def)
    with err(2) show ?thesis by (simp only: abs_minus_cancel)
  qed
qed

text \<open>
  Lot rounding. For a positive lot step, \<^verbatim>\<open>RoundSize\<close> returns the float nearest to a whole number of
  lots, and that number is within half a lot of the quotient of size and step; it preserves the
  order of sizes and never makes a size that is not negative negative.
\<close>

theorem RoundSize_nearest_lot:
  assumes "SizeStep c = Fin s" and "0 < s" and "fdiv sz (Fin s) = Fin q"
  shows "(\<exists>k. RoundSize c sz = fl64 (of_int k * s) \<and> \<bar>of_int k - q\<bar> \<le> 1 / 2) \<and>
    (if sz \<le> sz' then RoundSize c sz \<le> RoundSize c sz' else True) \<and>
    (if 0 \<le> sz then 0 \<le> RoundSize c sz else True)"
proof (intro conjI)
  show "\<exists>k. RoundSize c sz = fl64 (of_int k * s) \<and> \<bar>of_int k - q\<bar> \<le> 1 / 2"
    using assms round_away_error by (intro exI [of _ "round_away q"]) (simp add: RoundSize_def math_Round_def)
  show "if sz \<le> sz' then RoundSize c sz \<le> RoundSize c sz' else True"
    using assms(1,2) by (simp add: RoundSize_mono)
  have "RoundSize c 0 = 0"
    using assms(1,2) round_away_of_int [of 0] by (simp add: RoundSize_def math_Round_def zero_f64_def)
  then show "if 0 \<le> sz then 0 \<le> RoundSize c sz else True"
    using RoundSize_mono [OF assms(1,2), of 0 sz] by simp
qed

definition sample_constraints :: CoinConstraints where
  "sample_constraints = \<lparr>Coin = ''DOGE'', SizeDecimals = 0, SizeStep = Fin 1, PriceSigFigs = 5, MinNotional = 0\<rparr>"

theorem RoundSize_nearest_lot_witness:
  "RoundSize sample_constraints (Fin (5 / 2)) = Fin 3 \<and>
   RoundSize sample_constraints (Fin (5 / 2)) \<le> RoundSize sample_constraints (Fin 4)"
proof
  show "RoundSize sample_constraints (Fin (5 / 2)) = Fin 3" by code_simp
  have "fdiv (Fin (5 / 2)) (Fin 1) = Fin (5 / 2)" by code_simp
  then show "RoundSize sample_constraints (Fin (5 / 2)) \<le> RoundSize sample_constraints (Fin 4)"
    using RoundSize_nearest_lot [of sample_constraints 1 "Fin (5 / 2)" "5 / 2" "Fin 4"]
    by (simp add: sample_constraints_def)
qed

section \<open>Price rounding ends\<close>

lemma representable_8:
  assumes "representable a"
  shows "representable (8 * a)"
proof -
  obtain m q where "- 1074 \<le> q" "\<bar>m\<bar> \<le> 2 ^ 53" "a = of_int m * pow2 q"
    using assms unfolding representable_def by blast
  then show ?thesis
    unfolding representable_def
    by (intro exI [of _ m] exI [of _ "q + 3"]) (simp add: pow2_add pow2_nat)
qed

lemma valid_Fin_representable: "valid_f64 (Fin a) \<Longrightarrow> representable a"
  using representable_rnd [of a] by (auto simp: fl64_def Let_def split: if_splits)

lemma one_less_pow2_1024: "(1 :: rat) < pow2 1024"
  using pow2_less_iff [of 0 1024] by (simp add: pow2_def)

lemma times_10:
  assumes "valid_f64 (Fin a)" and "0 < a" and "a < 1"
  shows "\<exists>b. Fin a * Fin 10 = Fin b \<and> 8 * a \<le> b \<and> valid_f64 (Fin b)"
proof -
  have "rnd (8 * a) = 8 * a"
    using assms(1) by (intro rnd_exact representable_8 valid_Fin_representable)
  then have lo: "8 * a \<le> rnd (a * 10)"
    using rnd_mono [of "8 * a" "a * 10"] assms(2) by simp
  have "rnd (a * 10) \<le> rnd (of_int 10)"
    using assms(3) by (intro rnd_mono) simp
  then have "rnd (a * 10) \<le> 10" using rnd_of_int [of 10] by simp
  moreover have "(10 :: rat) < pow2 1024"
    using pow2_less_iff [of 4 1024] by (simp add: pow2_nat del: pow2_less_iff)
  ultimately have fin: "fl64 (a * 10) = Fin (rnd (a * 10))"
    using lo assms(2) by (auto simp: fl64_def Let_def)
  then have "valid_f64 (Fin (rnd (a * 10)))" using valid_fl64 [of "a * 10"] by simp
  with lo fin show ?thesis by auto
qed

lemma scale_up_enough:
  assumes "valid_f64 (Fin a)" and "0 < a" and "1 \<le> 8 ^ n * a" and "n < fuel"
  shows "\<exists>b k. scale_up fuel (Fin a) m = Some (Fin b, k) \<and> 1 \<le> b \<and> m \<le> k \<and> k \<le> m + int n"
  using assms
proof (induction n arbitrary: a m fuel)
  case 0
  then show ?case by (cases fuel) (auto simp: one_f64_def)
next
  case (Suc n)
  then obtain f where f: "fuel = Suc f" "n < f" by (cases fuel) auto
  show ?case
  proof (cases "a < 1")
    case True
    then obtain b where b: "Fin a * Fin 10 = Fin b" "8 * a \<le> b" "valid_f64 (Fin b)"
      using times_10 Suc.prems by blast
    have "1 \<le> 8 ^ n * b"
    proof -
      have "8 ^ Suc n * a = 8 ^ n * (8 * a)" by simp
      also have "\<dots> \<le> 8 ^ n * b" using b(2) by (intro mult_left_mono) simp_all
      finally show ?thesis using Suc.prems(3) by linarith
    qed
    moreover have "0 < b" using b(2) Suc.prems(2) by linarith
    ultimately obtain c k where "scale_up f (Fin b) (m + 1) = Some (Fin c, k)" "1 \<le> c" "m + 1 \<le> k" "k \<le> m + 1 + int n"
      using Suc.IH [OF b(3) _ _ f(2)] by blast
    then show ?thesis using True b(1) f(1) by (auto simp: one_f64_def simp del: times_f64.simps)
  next
    case False
    then show ?thesis using f(1) by (auto simp: one_f64_def)
  qed
qed

lemma least_positive:
  assumes "valid_f64 (Fin a)" and "0 < a"
  shows "pow2 (- 1074) \<le> a"
proof -
  obtain m q where mq: "- 1074 \<le> q" "a = of_int m * pow2 q"
    using valid_Fin_representable [OF assms(1)] unfolding representable_def by blast
  then have "0 < (of_int m :: rat)"
    using assms(2) zero_less_mult_pos2 [of "of_int m" "pow2 q"] by simp
  then have "1 \<le> m" by simp
  then have "1 * pow2 q \<le> of_int m * pow2 q"
    by (intro mult_right_mono) simp_all
  with mq(2) pow2_mono [OF mq(1)] show ?thesis by linarith
qed

lemma pow8_358: "(8 :: rat) ^ 358 * pow2 (- 1074) = 1"
proof -
  have "(8 :: rat) ^ 358 = (2 ^ 3) ^ 358" by simp
  also have "\<dots> = pow2 1074"
    by (simp only: power_mult [symmetric] pow2_nat) simp
  finally show ?thesis
    by (metis pow2_add add.right_inverse pow2_def power_int_0_right)
qed

lemma scale_up_terminates:
  assumes "valid_f64 (Fin a)" and "0 < a"
  shows "\<exists>b k. scale_up scale_fuel (Fin a) 0 = Some (Fin b, k) \<and> 1 \<le> b \<and> 0 \<le> k \<and> k \<le> 358"
proof -
  have "(8 :: rat) ^ 358 * pow2 (- 1074) \<le> 8 ^ 358 * a"
    by (intro mult_left_mono least_positive [OF assms]) simp
  then have "1 \<le> 8 ^ 358 * a"
    by (simp only: pow8_358)
  from scale_up_enough [OF assms this, of scale_fuel 0] show ?thesis
    by (simp add: scale_fuel_def)
qed

lemma math_Abs_minus [simp]: "math_Abs (- p) = math_Abs p"
  by (cases p) (simp_all add: math_Abs_def)

lemma f64_minus_minus [simp]: "- (- p) = (p :: f64)"
  by (cases p) simp_all

lemma math_Copysign_minus:
  assumes "p \<noteq> 0" and "\<not> is_nan p"
  shows "math_Copysign f (- p) = - math_Copysign f p"
  using assms by (cases p) (auto simp: math_Copysign_def zero_f64_def less_f64_def)

lemma scale_up_done: "\<not> a < 1 \<Longrightarrow> scale_up scale_fuel a m = Some (a, m)"
  using scale_up.simps(2) [of 359 a m] by (simp add: scale_fuel_def)

lemma roundToSig_nan: "0 < s \<Longrightarrow> roundToSignificantFigures NaN s = Some NaN"
  by (simp add: roundToSignificantFigures_def feq_def math_Abs_def math_Floor_def scale_up_done
      less_f64_def Let_def roundToDecimals_def math_Round_def math_Copysign_def zero_f64_def)

lemma roundToSig_odd:
  assumes "0 < s"
  shows "roundToSignificantFigures (- p) s = map_option uminus (roundToSignificantFigures p s)"
proof -
  consider "p = NaN" | "p = 0" | "p \<noteq> NaN" "p \<noteq> 0" by blast
  then show ?thesis
  proof cases
    case 1
    then show ?thesis using roundToSig_nan [OF assms] by simp
  next
    case 2
    then show ?thesis by (simp add: roundToSignificantFigures_def feq_def zero_f64_def)
  next
    case 3
  then have p: "p \<noteq> 0" "\<not> is_nan p" by (auto elim: is_nan.elims)
  moreover have "- p \<noteq> 0" using p by (cases p) (auto simp: zero_f64_def)
  ultimately show ?thesis
    using assms
    by (auto simp: roundToSignificantFigures_def feq_def math_Copysign_minus Let_def
        split: option.splits)
  qed
qed

lemma roundToSig_total:
  assumes "valid_f64 p" and "0 < s"
  shows "\<exists>r. roundToSignificantFigures p s = Some r"
proof (cases "feq p 0 \<or> 0 < math_Floor (math_Abs p)")
  case True
  then show ?thesis using assms(2) by (auto simp: roundToSignificantFigures_def Let_def)
next
  case False
  have "\<exists>v. scale_up scale_fuel (math_Abs p) 0 = Some v"
  proof (cases p)
    case (Fin a)
    then have "0 < \<bar>a\<bar>" using False by (auto simp: feq_def zero_f64_def)
    moreover have "valid_f64 (Fin \<bar>a\<bar>)"
      using assms(1) Fin fl64_minus [of a] by (auto simp: abs_if)
    ultimately show ?thesis using scale_up_terminates [of "\<bar>a\<bar>"] Fin by (auto simp: math_Abs_def)
  qed (use False in \<open>auto simp: math_Abs_def math_Floor_def scale_up_done
      less_f64_def one_f64_def zero_f64_def\<close>)
  with False assms(2) show ?thesis
    by (auto simp: roundToSignificantFigures_def Let_def)
qed

text \<open>
  C31: Price rounding always ends, in both of its loops and for every value a float64 can hold, infinities and
  NaN included; it is odd, so that bids and asks are treated alike, and it keeps zero.
\<close>

theorem RoundPrice_total_and_odd:
  assumes "valid_f64 price"
  shows "\<exists>r. RoundPrice c price = Some r \<and> RoundPrice c (- price) = Some (- r) \<and>
    RoundPrice c 0 = Some 0"
proof -
  let ?sig = "if PriceSigFigs c \<le> 0 then 5 else PriceSigFigs c"
  have sig: "0 < ?sig" by simp
  obtain r where "roundToSignificantFigures price ?sig = Some r"
    using roundToSig_total [OF assms sig] by blast
  moreover have "roundToSignificantFigures 0 ?sig = Some 0"
    using sig by (simp add: roundToSignificantFigures_def feq_def zero_f64_def)
  ultimately show ?thesis
    using roundToSig_odd [OF sig, of price] by (simp add: RoundPrice_def Let_def)
qed

theorem RoundPrice_total_and_odd_witness:
  "\<exists>r. RoundPrice sample_constraints (fl64 (16571 / 100000)) = Some r \<and>
       RoundPrice sample_constraints (- fl64 (16571 / 100000)) = Some (- r)"
  using RoundPrice_total_and_odd [of "fl64 (16571 / 100000)" sample_constraints] by auto

lemma integer_digits_mono: "k \<le> integer_digits t k"
  by (induction t k rule: integer_digits.induct) (subst integer_digits.simps, auto)

lemma integer_digits_ge: "10 ^ n \<le> t \<Longrightarrow> k + int n + 1 \<le> integer_digits t k"
proof (induction n arbitrary: t k)
  case 0
  then show ?case
    using integer_digits_mono [of "k + 1" "t div 10"] by (subst integer_digits.simps) simp
next
  case (Suc n)
  have div: "10 * x \<le> t \<Longrightarrow> x \<le> t div 10" for x :: int by linarith
  have "0 < t" "10 ^ n \<le> t div 10"
    using Suc.prems div [of "10 ^ n"] zero_less_power [of "10 :: int" "Suc n"] by (linarith, simp)
  then show ?case
    using Suc.IH [of "t div 10" "k + 1"] by (subst integer_digits.simps) simp
qed

text \<open>
  At five or more integer digits, significant-figure rounding cuts the fraction off instead of rounding: a
  positive price from 10000 up to the range of an int64 becomes its integer part.
\<close>

theorem RoundPrice_truncates_large:
  assumes "PriceSigFigs c = 5" and "10000 \<le> a" and "a < 2 ^ 63"
  shows "RoundPrice c (Fin a) = Some (Fin (of_int \<lfloor>a\<rfloor>))"
proof -
  have n: "10000 \<le> \<lfloor>a\<rfloor>" "\<lfloor>a\<rfloor> < 2 ^ 63"
    using assms(2,3) by (simp_all add: le_floor_iff floor_less_iff)
  have "5 \<le> integer_digits \<lfloor>a\<rfloor> 0"
    using integer_digits_ge [of 4 "\<lfloor>a\<rfloor>" 0] n(1) by simp
  moreover have "0 < Fin (of_int \<lfloor>a\<rfloor>)" "math_Abs (Fin a) = Fin a" "\<not> feq (Fin a) 0" "\<not> Fin a < 0"
    using n assms(2) by (auto simp: zero_f64_def math_Abs_def feq_def)
  ultimately show ?thesis
    using n assms(1) by (simp add: RoundPrice_def roundToSignificantFigures_def math_Floor_def math_Copysign_def)
qed

theorem RoundPrice_truncates_large_witness:
  "RoundPrice sample_constraints (Fin (123459 / 10)) = Some (Fin 12345)"
  using RoundPrice_truncates_large [of sample_constraints "123459 / 10"]
  by (simp add: sample_constraints_def floor_divide_of_int_eq [where 'a = rat, of 123459 10, simplified])

section \<open>Cache properties\<close>

lemma ensureLoaded_done: "ensureLoaded info m = Some m' \<Longrightarrow> once_done m'"
  by (auto simp: ensureLoaded_def Let_def split: if_splits option.splits)

lemma ensureLoaded_once: "once_done m \<Longrightarrow> ensureLoaded info m = Some m"
  by (simp add: ensureLoaded_def)

text \<open>
  The venue is asked once. After a first lookup of any coin, every later lookup answers from the same
  table whatever the venue would say by then: the same coin gets the same answer, and if both
  requests of the first lookup failed, every coin stays unknown for good.
\<close>

theorem Resolve_loads_once:
  assumes "coin \<noteq> []" and "Resolve info coin m = Some (r, m')" and "coin' \<noteq> []"
  shows "Resolve info' coin m' = Some (r, m') \<and>
    (if once_done m then m' = m else True) \<and>
    (if m = NewOrderIdCache \<and> perp_meta info = None \<and> spot_meta info = None
     then Resolve info' coin' m' = Some (Inl (UnknownCoin coin'), m') else True)"
proof -
  have load: "ensureLoaded info m = Some m'"
    and r: "r = (case map_of (decimals m') coin of
      None \<Rightarrow> Inl (UnknownCoin coin)
    | Some d \<Rightarrow> Inr \<lparr>Coin = coin, SizeDecimals = d, SizeStep = math_Pow10 (- d),
                        PriceSigFigs = 5, MinNotional = 0\<rparr>)"
    using assms(1,2) by (auto simp: Resolve_def split: option.splits)
  note again = ensureLoaded_once [OF ensureLoaded_done [OF load], of info']
  have "Resolve info' coin m' = Some (r, m')"
    using assms(1) again r by (simp add: Resolve_def split: option.splits)
  moreover have "m' = m" if "once_done m"
    using that load by (simp add: ensureLoaded_once)
  moreover have "Resolve info' coin' m' = Some (Inl (UnknownCoin coin'), m')"
    if "m = NewOrderIdCache" "perp_meta info = None" "spot_meta info = None"
  proof -
    have "decimals m' = []"
      using load that by (simp add: ensureLoaded_def NewOrderIdCache_def Let_def) auto
    then show ?thesis using assms(3) again by (simp add: Resolve_def)
  qed
  ultimately show ?thesis by simp
qed

definition failing_info :: info_answers where
  "failing_info = \<lparr>perp_meta = None, spot_meta = None\<rparr>"

definition good_info :: info_answers where
  "good_info = \<lparr>perp_meta = Some [(''DOGE'', 0), (''ETH'', 4)], spot_meta = Some ([], [])\<rparr>"

theorem Resolve_loads_once_witness:
  "Resolve good_info ''ETH'' \<lparr>once_done = True, decimals = []\<rparr> =
     Some (Inl (UnknownCoin ''ETH''), \<lparr>once_done = True, decimals = []\<rparr>)"
proof -
  have "Resolve failing_info ''DOGE'' NewOrderIdCache =
      Some (Inl (UnknownCoin ''DOGE''), \<lparr>once_done = True, decimals = []\<rparr>)"
    by code_simp
  from Resolve_loads_once [OF _ this, of "''ETH''" good_info] show ?thesis
    by (simp add: failing_info_def)
qed

text \<open>
  The guard in front of the token table looks at the wrong index. It checks the asset's own
  index against the table, and then reads the table at the asset's first token; an asset whose
  index passes and whose first token lies outside the table, or that lists no token, makes the
  first lookup of every coin panic.
\<close>

theorem spot_guard_checks_wrong_index:
  assumes "0 \<le> sa_Index asset" and "sa_Index asset < int (length tokens)"
    and "sa_Tokens asset = [] \<or> int (length tokens) \<le> hd (sa_Tokens asset)"
    and "spot_meta info = Some (asset # rest, tokens)" and "coin \<noteq> []"
  shows "Resolve info coin NewOrderIdCache = None"
proof -
  have "load_spot tokens (asset # rest) m = None" for m
    using assms(1-3) by (cases "sa_Tokens asset") (auto simp: slice_at_def)
  then show ?thesis
    using assms(4,5) by (simp add: Resolve_def ensureLoaded_def NewOrderIdCache_def Let_def
        del: load_spot.simps)
qed

definition bad_spot :: info_answers where
  "bad_spot = \<lparr>perp_meta = Some [(''DOGE'', 0)],
     spot_meta = Some ([\<lparr>sa_Name = ''X/USDC'', sa_Index = 0, sa_Tokens = [7, 0]\<rparr>], [8, 2])\<rparr>"

theorem spot_guard_checks_wrong_index_witness:
  "Resolve bad_spot ''DOGE'' NewOrderIdCache = None"
  by (rule spot_guard_checks_wrong_index
      [of "\<lparr>sa_Name = ''X/USDC'', sa_Index = 0, sa_Tokens = [7, 0]\<rparr>" "[8, 2]" _ "[]"])
    (simp_all add: bad_spot_def)

text \<open>
  What a successful lookup promises: the constraints are those of the coin asked for, with the lot step
  ten to the minus decimals and five significant figures; the notional floor is switched off, so
  with resolved constraints \<^verbatim>\<open>NotionalBelowMinimum\<close> never rejects anything.
\<close>

theorem Resolve_constraints:
  assumes "Resolve info coin m = Some (Inr c, m')"
  shows "Coin c = coin \<and> map_of (decimals m') coin = Some (SizeDecimals c) \<and>
    SizeStep c = math_Pow10 (- SizeDecimals c) \<and> PriceSigFigs c = 5 \<and>
    NotionalBelowMinimum c sz price = False"
  using assms
  by (auto simp: Resolve_def NotionalBelowMinimum_def zero_f64_def split: if_splits option.splits)

theorem Resolve_constraints_witness:
  "\<exists>c m'. Resolve good_info ''ETH'' NewOrderIdCache = Some (Inr c, m') \<and>
     SizeStep c = math_Pow10 (- 4) \<and> NotionalBelowMinimum c (Fin 0) (Fin 1) = False"
proof -
  have "Resolve good_info ''ETH'' NewOrderIdCache =
     Some (Inr \<lparr>Coin = ''ETH'', SizeDecimals = 4, SizeStep = math_Pow10 (- 4), PriceSigFigs = 5, MinNotional = 0\<rparr>,
       \<lparr>once_done = True, decimals = [(''DOGE'', 0), (''ETH'', 4)]\<rparr>)"
    by code_simp
  from this Resolve_constraints [OF this, of "Fin 0" "Fin 1"] show ?thesis by auto
qed

text \<open>
  A status query that succeeds yields an order update that always names its client order id: the venue's
  own if it sent one, otherwise the id the query was made for. A query without success yields no
  update, and a missing result an error.
\<close>

theorem query_result_has_cloid:
  "case OrderQueryResultToWsOrder oid result of
     Inl e \<Rightarrow> result = None
   | Inr None \<Rightarrow> (\<exists>r. result = Some r \<and> \<not> qr_success r)
   | Inr (Some w) \<Rightarrow> (\<exists>r. result = Some r \<and> qr_success r \<and>
       wo_Cloid (ws_Order w) = Some (case wo_Cloid (ws_Order (qr_order r)) of None \<Rightarrow> Hex oid | Some c \<Rightarrow> c) \<and>
       ws_Status w = ws_Status (qr_order r) \<and> wo_Sz (ws_Order w) = wo_Sz (ws_Order (qr_order r)))"
  by (auto simp: OrderQueryResultToWsOrder_def Let_def split: option.splits)

end
