(* ===== verification/Rate_Gate.thy ===== *)
theory Rate_Gate
  imports Prelude
begin

text \<open>
  \<^verbatim>\<open>emitter/rate_gate.go\<close>: the gate that spaces out requests to a venue. \<open>Wait_attempt\<close>
  is one round of the loop in \<^verbatim>\<open>Wait\<close>, atomic under the mutex; \<open>Wait\<close> is the loop, with
  the sleep and the context between the rounds. The theorems: however the callers interleave, two
  grants are at least the minimum spacing apart; a cool-down never shortens the wait; an
  undisturbed \<^verbatim>\<open>Wait\<close> needs at most two rounds.
\<close>

record rateGate =
  minSpacing :: duration
  gate_next :: time

definition defaultRateGateSpacing :: duration where
  "defaultRateGateSpacing = 300 * millisecond"

definition NewRateGate :: "duration \<Rightarrow> time \<Rightarrow> rateGate" where
  "NewRateGate spacing now =
     \<lparr>minSpacing = (if spacing \<le> 0 then defaultRateGateSpacing else spacing), gate_next = now\<rparr>"

text \<open>
  One round: \<open>now1\<close> is the instant \<^verbatim>\<open>time.Until\<close> reads, \<open>now2\<close> the one the grant
  reads. \<open>Some w\<close> means that the caller has to sleep for \<open>w\<close>.
\<close>

definition Wait_attempt :: "time \<Rightarrow> time \<Rightarrow> rateGate \<Rightarrow> duration option \<times> rateGate" where
  "Wait_attempt now1 now2 g =
     (let wait = gate_next g - now1 in
      if wait \<le> 0 then (None, g\<lparr>gate_next := now2 + minSpacing g\<rparr>)
      else (Some wait, g))"

datatype wait_result = WaitOk | WaitCtxErr

text \<open>
  The loop. Round \<open>k\<close> reads \<open>clock (2 * k)\<close> and \<open>clock (2 * k + 1)\<close>;
  \<open>ctx_done k\<close> tells that the context ended the sleep after round \<open>k\<close>. Other callers may
  move the gate while this one sleeps: \<open>others k\<close> is their effect. \<open>None\<close> stands for fuel
  that ran out.
\<close>

fun Wait :: "nat \<Rightarrow> (nat \<Rightarrow> time) \<Rightarrow> (nat \<Rightarrow> bool) \<Rightarrow> (nat \<Rightarrow> rateGate \<Rightarrow> rateGate) \<Rightarrow> nat \<Rightarrow> rateGate
  \<Rightarrow> (wait_result \<times> rateGate) option" where
  "Wait 0 clock ctx_done others k g = None"
| "Wait (Suc fuel) clock ctx_done others k g =
     (case Wait_attempt (clock (2 * k)) (clock (2 * k + 1)) g of
        (None, g') \<Rightarrow> Some (WaitOk, g')
      | (Some wait, g') \<Rightarrow>
          if ctx_done k then Some (WaitCtxErr, others k g')
          else Wait fuel clock ctx_done others (Suc k) (others k g'))"

definition Cooldown :: "time \<Rightarrow> duration \<Rightarrow> rateGate \<Rightarrow> rateGate" where
  "Cooldown now d g =
     (if d \<le> 0 then g
      else let nxt = now + d in if gate_next g < nxt then g\<lparr>gate_next := nxt\<rparr> else g)"

section \<open>Interleavings\<close>

text \<open>
  The gate shared by any number of callers, with the instants at which it granted (latest first)
  and the latest instant read. \<^verbatim>\<open>time.Now\<close> carries a monotonic reading, so instants read one
  after the other do not decrease.
\<close>

record gate_world =
  gate :: rateGate
  grants :: "time list"
  latest :: time

inductive gate_step :: "gate_world \<Rightarrow> gate_world \<Rightarrow> bool" where
  grant: "latest w \<le> now1 \<Longrightarrow> now1 \<le> now2 \<Longrightarrow> Wait_attempt now1 now2 (gate w) = (None, g) \<Longrightarrow>
    gate_step w (w\<lparr>gate := g, grants := now2 # grants w, latest := now2\<rparr>)"
| sleep: "latest w \<le> now1 \<Longrightarrow> Wait_attempt now1 now2 (gate w) = (Some d, g) \<Longrightarrow>
    gate_step w (w\<lparr>gate := g, latest := now1\<rparr>)"
| cool: "latest w \<le> now1 \<Longrightarrow> gate_step w (w\<lparr>gate := Cooldown now1 d (gate w), latest := now1\<rparr>)"

inductive_cases gate_stepE: "gate_step w w'"

definition gate_init :: "duration \<Rightarrow> gate_world \<Rightarrow> bool" where
  "gate_init spacing w \<longleftrightarrow>
     (\<exists>now. w = \<lparr>gate = NewRateGate spacing now, grants = [], latest = now\<rparr>)"

definition effective_spacing :: "duration \<Rightarrow> duration" where
  "effective_spacing spacing = (if spacing \<le> 0 then defaultRateGateSpacing else spacing)"

fun spaced :: "duration \<Rightarrow> time list \<Rightarrow> bool" where
  "spaced d (t # u # ts) \<longleftrightarrow> u + d \<le> t \<and> spaced d (u # ts)"
| "spaced d _ \<longleftrightarrow> True"

definition gate_inv :: "duration \<Rightarrow> gate_world \<Rightarrow> bool" where
  "gate_inv spacing w \<longleftrightarrow>
     minSpacing (gate w) = effective_spacing spacing \<and> spaced (effective_spacing spacing) (grants w) \<and>
     (case grants w of [] \<Rightarrow> True | t # _ \<Rightarrow> t + effective_spacing spacing \<le> gate_next (gate w))"

lemma Wait_attempt_None:
  "Wait_attempt now1 now2 g = (None, g') \<longleftrightarrow>
   gate_next g \<le> now1 \<and> g' = g\<lparr>gate_next := now2 + minSpacing g\<rparr>"
  by (auto simp: Wait_attempt_def Let_def)

lemma Wait_attempt_Some:
  "Wait_attempt now1 now2 g = (Some d, g') \<longleftrightarrow> now1 < gate_next g \<and> d = gate_next g - now1 \<and> g' = g"
  by (auto simp: Wait_attempt_def Let_def)

lemma Cooldown_next:
  "gate_next (Cooldown now d g) = (if d \<le> 0 then gate_next g else max (gate_next g) (now + d))"
  "minSpacing (Cooldown now d g) = minSpacing g"
  by (auto simp: Cooldown_def Let_def)

interpretation rate_gate: invariant_system "gate_init spacing" gate_step "gate_inv spacing" for spacing
proof
  show "gate_init spacing w \<Longrightarrow> gate_inv spacing w" for w
    by (auto simp: gate_init_def gate_inv_def NewRateGate_def effective_spacing_def)
  show "gate_inv spacing w \<Longrightarrow> gate_step w w' \<Longrightarrow> gate_inv spacing w'" for w w'
    by (erule gate_stepE; cases "grants w")
      (auto simp: gate_inv_def Wait_attempt_None Wait_attempt_Some Cooldown_next)
qed

text \<open>
  C22: Spacing. In every interleaving of any number of waiters and cool-downs, two consecutive grants of
  the gate are at least the minimum spacing apart (the default one when the gate was created with a
  spacing that is not positive).
\<close>

theorem rate_gate_spacing:
  assumes "gate_init spacing w0" and "gate_step\<^sup>*\<^sup>* w0 w"
  shows "spaced (effective_spacing spacing) (grants w) \<and> 0 < effective_spacing spacing"
  using rate_gate.inv_reachable [OF assms]
  by (auto simp: gate_inv_def effective_spacing_def defaultRateGateSpacing_def millisecond_def)

theorem rate_gate_spacing_witness:
  "\<exists>w. gate_step\<^sup>*\<^sup>* \<lparr>gate = NewRateGate 5 0, grants = [], latest = 0\<rparr> w \<and> grants w = [7, 1] \<and>
     spaced 5 (grants w)"
proof -
  let ?w0 = "\<lparr>gate = NewRateGate 5 0, grants = [], latest = 0\<rparr>"
  let ?w1 = "\<lparr>gate = \<lparr>minSpacing = 5, gate_next = 6\<rparr>, grants = [1], latest = 1\<rparr>"
  let ?w2 = "\<lparr>gate = \<lparr>minSpacing = 5, gate_next = 12\<rparr>, grants = [7, 1], latest = 7\<rparr>"
  have "gate_step ?w0 ?w1"
    using grant [of ?w0 1 1] by (simp add: Wait_attempt_def NewRateGate_def)
  moreover have "gate_step ?w1 ?w2"
    using grant [of ?w1 6 7] by (simp add: Wait_attempt_def)
  ultimately have run: "gate_step\<^sup>*\<^sup>* ?w0 ?w2"
    by (rule converse_rtranclp_into_rtranclp [OF _ r_into_rtranclp])
  moreover have "spaced (effective_spacing 5) (grants ?w2)"
    using rate_gate_spacing [of 5 ?w0 ?w2] run by (auto simp: gate_init_def)
  ultimately show ?thesis
    by (intro exI [of _ ?w2]) (simp add: effective_spacing_def)
qed

text \<open>
  A cool-down only ever delays: it never brings the next grant forward, and after a positive
  cool-down of length d every attempt made less than d later is put to sleep until at least d has passed.
\<close>

theorem Cooldown_delays:
  assumes "0 < d" and "t < now + d"
  shows "gate_next g \<le> gate_next (Cooldown now d g) \<and>
    (\<exists>wait g'. Wait_attempt t t' (Cooldown now d g) = (Some wait, g') \<and> now + d \<le> t + wait)"
  using assms by (auto simp: Wait_attempt_Some Cooldown_next)

theorem Cooldown_delays_witness:
  "gate_next (NewRateGate 5 0) \<le> gate_next (Cooldown 3 10 (NewRateGate 5 0)) \<and>
   fst (Wait_attempt 4 4 (Cooldown 3 10 (NewRateGate 5 0))) = Some 9"
proof
  show "gate_next (NewRateGate 5 0) \<le> gate_next (Cooldown 3 10 (NewRateGate 5 0))"
    using Cooldown_delays [of 10 4 3 "NewRateGate 5 0" 4] by simp
qed code_simp

text \<open>
  Termination of \<^verbatim>\<open>Wait\<close>: when no other caller moves the gate and a sleep lasts at
  least as long as asked for, two rounds suffice, and the call is granted unless the context ends first.
\<close>

theorem Wait_terminates:
  assumes "\<And>k. others k = id" and "gate_next g \<le> clock 2"
  shows "\<exists>r g'. Wait 2 clock ctx_done others 0 g = Some (r, g') \<and>
    (r = WaitCtxErr \<longleftrightarrow> clock 0 < gate_next g \<and> ctx_done 0)"
proof (cases "gate_next g \<le> clock 0")
  case True
  then show ?thesis
    by (simp add: eval_nat_numeral Wait_attempt_def)
next
  case False
  then show ?thesis
    using assms by (auto simp: eval_nat_numeral Wait_attempt_def)
qed

theorem Wait_terminates_witness:
  "\<exists>g'. Wait 2 (\<lambda>k. if k = 0 then 3 else 9) (\<lambda>_. False) (\<lambda>_. id) 0 \<lparr>minSpacing = 5, gate_next = 8\<rparr> =
     Some (WaitOk, g')"
  using Wait_terminates [of "\<lambda>_. id" "\<lparr>minSpacing = 5, gate_next = 8\<rparr>" "\<lambda>k. if k = 0 then 3 else 9"
      "\<lambda>_. False"] wait_result.exhaust by auto

end
