(* ===== verification/Emitter.thy ===== *)
theory Emitter
  imports Constraints Rate_Gate Strconv Adapter "HOL-Library.Sublist"
begin

text \<open>
  \<^verbatim>\<open>emitter/emitter.go\<close>: the queue in front of the venue emitters and the Hyperliquid emitter.

  The venue, the websocket client, the constraint resolver, the gate and the store are interfaces
  of this component. Each call that leaves the emitter is an entry of a trace, latest first, and the
  record \<open>emitter_env\<close> gives the answer of each interface as a function of the trace at the
  moment of the call, so that a counterpart may answer the same request differently each time.
  Nothing is assumed of the answers. Writes to the store only appear in the trace: their errors
  are logged and ignored by the code. The message of an error is the string it carries.
\<close>

section \<open>The queue\<close>

datatype emit_error =
  ErrMissingOrderIdentifier | ErrUnregisteredVenueEmitter string | ErrOrderIdentifierMismatch
| ErrOrderAlreadySatisfied | GateError string | CouldNotPlace string | CouldNotCancel string
| CouldNotModify string | CouldNotVerify string

record 'e QueueEmitter =
  q :: "OrderWork list"
  emitters :: "(VenueID \<times> 'e) list"

definition NewQueueEmitter :: "'e QueueEmitter" where
  "NewQueueEmitter = \<lparr>q = [], emitters = []\<rparr>"

text \<open>An emitter that is nil is \<open>None\<close>.\<close>

definition Register :: "VenueID \<Rightarrow> 'e option \<Rightarrow> 'e QueueEmitter \<Rightarrow> 'e QueueEmitter" where
  "Register venue emitter e =
     (case emitter of
        None \<Rightarrow> e
      | Some em \<Rightarrow> e\<lparr>emitters := AList.update venue em (emitters e)\<rparr>)"

definition emitterFor :: "VenueID \<Rightarrow> 'e QueueEmitter \<Rightarrow> 'e option" where
  "emitterFor venue e = map_of (emitters e) venue"

definition queue_Emit :: "OrderWork \<Rightarrow> 'e QueueEmitter \<Rightarrow> emit_error option \<times> 'e QueueEmitter" where
  "queue_Emit w e =
     (if wk_Identifier w = zero_OrderIdentifier then (Some ErrMissingOrderIdentifier, e)
      else if wk_OrderId w \<noteq> zero_OrderId \<and> oi_OrderId (wk_Identifier w) \<noteq> wk_OrderId w then
        (Some ErrOrderIdentifierMismatch, e)
      else (case emitterFor (oi_VenueID (wk_Identifier w)) e of
          None \<Rightarrow> (Some (ErrUnregisteredVenueEmitter (Venue (wk_Identifier w))), e)
        | Some _ \<Rightarrow> (None, e\<lparr>q := q e @ [w]\<rparr>)))"

text \<open>\<open>run em w s\<close> is the \<^verbatim>\<open>Emit\<close> of the registered emitter, with its effect on a state.\<close>

definition Dispatch :: "('e \<Rightarrow> OrderWork \<Rightarrow> 's \<Rightarrow> emit_error option \<times> 's) \<Rightarrow> OrderWork \<Rightarrow> 'e QueueEmitter \<Rightarrow> 's
    \<Rightarrow> emit_error option \<times> 's" where
  "Dispatch run w e s =
     (if wk_Identifier w = zero_OrderIdentifier then (Some ErrMissingOrderIdentifier, s)
      else (case emitterFor (oi_VenueID (wk_Identifier w)) e of
          None \<Rightarrow> (Some (ErrUnregisteredVenueEmitter (Venue (wk_Identifier w))), s)
        | Some em \<Rightarrow> run em w s))"

section \<open>Rounding and comparing\<close>

text \<open>\<^verbatim>\<open>math.Modf\<close>: the integer part, towards zero, and the rest.\<close>

definition trunc :: "rat \<Rightarrow> int" where
  "trunc a = (if 0 \<le> a then \<lfloor>a\<rfloor> else \<lceil>a\<rceil>)"

fun math_Modf :: "f64 \<Rightarrow> f64 \<times> f64" where
  "math_Modf (Fin a) = (Fin (of_int (trunc a)), Fin (a - of_int (trunc a)))"
| "math_Modf y = (y, NaN)"

definition RoundHalfEven :: "f64 \<Rightarrow> f64" where
  "RoundHalfEven x =
     (let p = math_Pow10 8; y = x * p; (f, frac) = math_Modf y; absFrac = math_Abs frac in
      if absFrac < Fin (1 / 2) then fdiv f p
      else if Fin (1 / 2) < absFrac then
        (if 0 < y then fdiv (f + 1) p else fdiv (f - 1) p)
      else if go_int (math_Abs f) mod 2 = 0 then fdiv f p
      else if 0 < y then fdiv (f + 1) p else fdiv (f - 1) p)"

definition floatEqualityTolerance :: f64 where
  "floatEqualityTolerance = fl64 (1 / 1000000000)"

definition floatEquals :: "f64 \<Rightarrow> f64 \<Rightarrow> bool" where
  "floatEquals a b \<longleftrightarrow> math_Abs (a - b) \<le> floatEqualityTolerance"

definition orderTypesMatch :: "OrderType \<Rightarrow> OrderType \<Rightarrow> bool" where
  "orderTypesMatch existing desired =
     (if ot_Limit existing \<noteq> None \<or> ot_Limit desired \<noteq> None then
        (case (ot_Limit existing, ot_Limit desired) of (Some a, Some b) \<Rightarrow> a = b | _ \<Rightarrow> False)
      else if ot_Trigger existing \<noteq> None \<or> ot_Trigger desired \<noteq> None then
        (case (ot_Trigger existing, ot_Trigger desired) of
           (Some a, Some b) \<Rightarrow>
             if \<not> floatEquals (trg_TriggerPx a) (trg_TriggerPx b) then False
             else if trg_IsMarket a \<noteq> trg_IsMarket b then False
             else trg_Tpsl a = trg_Tpsl b
         | _ \<Rightarrow> False)
      else True)"

definition ordersMatch :: "WsOrder option \<Rightarrow> CreateOrderRequest option \<Rightarrow> CreateOrderRequest \<Rightarrow> bool" where
  "ordersMatch status latestSubmission desired =
     (case (status, latestSubmission) of
        (Some s, Some prev) \<Rightarrow>
          let side = ToUpper (wo_Side (ws_Order s)) in
          if \<not> EqualFold (wo_Coin (ws_Order s)) (cr_Coin desired) then False
          else if cr_IsBuy desired \<and> side \<noteq> ''B'' then False
          else if \<not> cr_IsBuy desired \<and> side \<noteq> ''S'' \<and> side \<noteq> ''A'' then False
          else (case ParseFloat (wo_Sz (ws_Order s)) of
              None \<Rightarrow> False
            | Some sz \<Rightarrow>
                if \<not> floatEquals sz (cr_Size desired) then False
                else (case ParseFloat (wo_LimitPx (ws_Order s)) of
                    None \<Rightarrow> False
                  | Some price \<Rightarrow>
                      if \<not> floatEquals price (cr_Price desired) then False
                      else if cr_ReduceOnly prev \<noteq> cr_ReduceOnly desired then False
                      else orderTypesMatch (cr_OrderType prev) (cr_OrderType desired)))
      | _ \<Rightarrow> False)"

definition isLiveStatus :: "WsOrder option \<Rightarrow> bool" where
  "isLiveStatus status =
     (case status of
        None \<Rightarrow> False
      | Some s \<Rightarrow> ws_Status s = OrderStatusValueOpen \<or> ws_Status s = ''live'')"

definition isAlreadyClosedCancelError :: "string \<Rightarrow> bool" where
  "isAlreadyClosedCancelError err =
     (let msg = ToLower err in
      list_ex (Contains msg)
        [''already canceled'', ''already cancelled'', ''already filled'', ''never placed'',
         ''not live'', ''does not exist''])"

text \<open>The venue's answer to an order; the fields that are nil are \<open>None\<close>.\<close>

record OrderStatusResting =
  hr_Oid :: int
  hr_ClientID :: "string option"
  hr_Status :: string

record OrderStatus =
  hs_Resting :: "OrderStatusResting option"
  hs_FilledTotalSz :: "string option"
  hs_Error :: "string option"

definition requestedOrderSize :: "Action \<Rightarrow> f64" where
  "requestedOrderSize action =
     (case ac_Type action of
        ActionCreate \<Rightarrow> cr_Size (ac_Create action)
      | ActionModify \<Rightarrow> cr_Size (mo_Order (ac_Modify action))
      | _ \<Rightarrow> 0)"

definition orderStatusSummary :: "OrderStatus option \<Rightarrow> string \<times> f64" where
  "orderStatusSummary status =
     (case status of
        None \<Rightarrow> ([], 0)
      | Some s \<Rightarrow>
          (case hs_FilledTotalSz s of
             Some totalSz \<Rightarrow> (''filled'', case ParseFloat totalSz of None \<Rightarrow> 0 | Some sz \<Rightarrow> sz)
           | None \<Rightarrow>
               (case hs_Resting s of
                  Some r \<Rightarrow> (hr_Status r, 0)
                | None \<Rightarrow> if hs_Error s \<noteq> None then (''error'', 0) else ([], 0))))"

section \<open>The Hyperliquid emitter\<close>

record HyperLiquidEmitterConfig =
  MaxIOCRetries :: int
  InitialIOCOffsetBps :: f64

definition defaultHyperLiquidEmitterConfig :: HyperLiquidEmitterConfig where
  "defaultHyperLiquidEmitterConfig = \<lparr>MaxIOCRetries = 3, InitialIOCOffsetBps = 0\<rparr>"

definition iocRetryBumpRatio :: f64 where
  "iocRetryBumpRatio = fl64 (5 / 10000)"

definition missingModifyResponseDataFragment :: string where
  "missingModifyResponseDataFragment = ''missing response.data field in successful response''"

definition cannotModifyFilledFragment :: string where
  "cannotModifyFilledFragment = ''cannot modify canceled or filled order''"

text \<open>
  A websocket client is known by a number. The collaborators that may be nil and have no state here
  are flags: the gate, the resolver and the status client.
\<close>

record HyperLiquidEmitter =
  em_gate :: bool
  em_cfg :: HyperLiquidEmitterConfig
  em_wsClients :: "(VenueID \<times> nat) list"
  em_primaryVenue :: VenueID
  em_constraints :: bool
  em_statusClient :: bool

datatype hl_call =
  GateWait "string option" | GateCooldown duration
| EnsureBBO nat string | WaitBBO nat string | WsGet nat OrderId
| CallResolve string | CallOrder CreateOrderRequest | CallCancel string string
| CallModify ModifyOrderRequest | CallQuery string
| LoadSubmission OrderIdentifier
| RecordOrder OrderIdentifier CreateOrderRequest int
| AppendModify OrderIdentifier ModifyOrderRequest int
| RecordCancel OrderIdentifier CancelOrderRequestByCloid int
| LogSent Action f64 f64 string "(int \<times> string) option"

type_synonym trace = "hl_call list"

record emitter_env =
  en_Wait :: "trace \<Rightarrow> string option"
  en_BBO :: "trace \<Rightarrow> nat \<Rightarrow> string \<Rightarrow> BestBidOffer option"
  en_Get :: "trace \<Rightarrow> nat \<Rightarrow> OrderId \<Rightarrow> WsOrder option \<times> bool"
  en_Resolve :: "trace \<Rightarrow> string \<Rightarrow> string + CoinConstraints"
  en_Order :: "trace \<Rightarrow> CreateOrderRequest \<Rightarrow> string + OrderStatus"
  en_Cancel :: "trace \<Rightarrow> string \<Rightarrow> string \<Rightarrow> string option"
  en_Modify :: "trace \<Rightarrow> ModifyOrderRequest \<Rightarrow> string + OrderStatus"
  en_Query :: "trace \<Rightarrow> string \<Rightarrow> string + OrderQueryResult option"
  en_Load :: "trace \<Rightarrow> OrderIdentifier \<Rightarrow> string + Action option"

subsection \<open>Construction\<close>

definition normalizeHyperLiquidEmitterConfig :: "HyperLiquidEmitterConfig \<Rightarrow> HyperLiquidEmitterConfig" where
  "normalizeHyperLiquidEmitterConfig cfg =
     (let cfg1 = (if MaxIOCRetries cfg \<le> 0
                  then cfg\<lparr>MaxIOCRetries := MaxIOCRetries defaultHyperLiquidEmitterConfig\<rparr> else cfg)
      in if InitialIOCOffsetBps cfg1 < 0 then cfg1\<lparr>InitialIOCOffsetBps := 0\<rparr> else cfg1)"

definition RegisterWsClient :: "VenueID \<Rightarrow> nat option \<Rightarrow> HyperLiquidEmitter \<Rightarrow> HyperLiquidEmitter" where
  "RegisterWsClient venue client e =
     (case client of
        None \<Rightarrow> e
      | Some c \<Rightarrow> if venue = [] then e else e\<lparr>em_wsClients := AList.update venue c (em_wsClients e)\<rparr>)"

text \<open>The options that change the modelled state; a nil argument leaves the emitter alone.\<close>

definition WithHyperLiquidEmitterConfig :: "HyperLiquidEmitterConfig \<Rightarrow> HyperLiquidEmitter \<Rightarrow> HyperLiquidEmitter" where
  "WithHyperLiquidEmitterConfig cfg e = e\<lparr>em_cfg := cfg\<rparr>"

definition WithHyperLiquidRateGate :: "bool \<Rightarrow> HyperLiquidEmitter \<Rightarrow> HyperLiquidEmitter" where
  "WithHyperLiquidRateGate g e = (if g then e\<lparr>em_gate := True\<rparr> else e)"

definition WithHyperLiquidStatusClient :: "bool \<Rightarrow> HyperLiquidEmitter \<Rightarrow> HyperLiquidEmitter" where
  "WithHyperLiquidStatusClient client e = (if client then e\<lparr>em_statusClient := True\<rparr> else e)"

definition NewHyperLiquidEmitter ::
  "VenueID \<Rightarrow> nat option \<Rightarrow> bool \<Rightarrow> (HyperLiquidEmitter \<Rightarrow> HyperLiquidEmitter) list \<Rightarrow> HyperLiquidEmitter" where
  "NewHyperLiquidEmitter primaryVenue wsClient constraints opts =
     (let e0 = \<lparr>em_gate = True, em_cfg = defaultHyperLiquidEmitterConfig, em_wsClients = [],
                em_primaryVenue = primaryVenue, em_constraints = constraints, em_statusClient = False\<rparr>;
          e1 = (if wsClient \<noteq> None \<and> primaryVenue \<noteq> [] then RegisterWsClient primaryVenue wsClient e0 else e0);
          e2 = fold (\<lambda>opt. opt) opts e1
      in e2\<lparr>em_cfg := normalizeHyperLiquidEmitterConfig (em_cfg e2)\<rparr>)"

definition wsFor :: "HyperLiquidEmitter \<Rightarrow> VenueID \<Rightarrow> nat option" where
  "wsFor e venue =
     (case map_of (em_wsClients e) venue of
        Some client \<Rightarrow> Some client
      | None \<Rightarrow>
          (case if em_primaryVenue e \<noteq> [] then map_of (em_wsClients e) (em_primaryVenue e) else None of
             Some client \<Rightarrow> Some client
           | None \<Rightarrow> (case em_wsClients e of [] \<Rightarrow> None | (_, client) # _ \<Rightarrow> Some client)))"

subsection \<open>Pacing\<close>

definition waitTurn :: "emitter_env \<Rightarrow> HyperLiquidEmitter \<Rightarrow> trace \<Rightarrow> string option \<times> trace" where
  "waitTurn env e tr = (if \<not> em_gate e then (None, tr) else (en_Wait env tr, GateWait (en_Wait env tr) # tr))"

definition applyCooldown :: "HyperLiquidEmitter \<Rightarrow> duration \<Rightarrow> trace \<Rightarrow> trace" where
  "applyCooldown e d tr = (if \<not> em_gate e then tr else GateCooldown d # tr)"

text \<open>The check for a rate limit that follows every failed request.\<close>

definition rate_limit_cooldown :: "HyperLiquidEmitter \<Rightarrow> string \<Rightarrow> trace \<Rightarrow> trace" where
  "rate_limit_cooldown e err tr =
     (if Contains err ''429'' \<or> Contains (ToLower err) ''rate limit''
      then applyCooldown e (10 * second) tr else tr)"

subsection \<open>Prices\<close>

definition round_order :: "CreateOrderRequest \<Rightarrow> CreateOrderRequest" where
  "round_order order =
     order\<lparr>cr_Price := RoundHalfEven (cr_Price order), cr_Size := RoundHalfEven (cr_Size order)\<rparr>"

definition setMarketPrice ::
  "emitter_env \<Rightarrow> nat option \<Rightarrow> CreateOrderRequest \<Rightarrow> trace \<Rightarrow> CreateOrderRequest \<times> trace" where
  "setMarketPrice env wsClient order tr =
     (case wsClient of
        None \<Rightarrow> (round_order order, tr)
      | Some c \<Rightarrow>
          let tr1 = EnsureBBO c (cr_Coin order) # tr in
          if feq (cr_Price order) 0 then
            (let order1 = (case en_BBO env tr1 c (cr_Coin order) of
                 None \<Rightarrow> order
               | Some bbo \<Rightarrow> order\<lparr>cr_Price := if cr_IsBuy order then lv_Price (bbo_Ask bbo)
                                             else lv_Price (bbo_Bid bbo)\<rparr>)
             in (round_order order1, WaitBBO c (cr_Coin order) # tr1))
          else (round_order order, tr1))"

definition ioc_offset_ratio :: "HyperLiquidEmitterConfig \<Rightarrow> int \<Rightarrow> f64" where
  "ioc_offset_ratio cfg attempt =
     (let r0 = (if attempt = 0 then 0 + fdiv (InitialIOCOffsetBps cfg) (Fin 10000) else 0)
      in if 0 < attempt then r0 + fl64 (of_int attempt) * iocRetryBumpRatio else r0)"

definition applyIOCOffset :: "HyperLiquidEmitterConfig \<Rightarrow> CreateOrderRequest \<Rightarrow> int \<Rightarrow> CreateOrderRequest" where
  "applyIOCOffset cfg order attempt =
     (if ot_Limit (cr_OrderType order) \<noteq> Some TifIoc then order
      else if cr_Price order \<le> 0 then order
      else let offsetRatio = ioc_offset_ratio cfg attempt in
        if feq offsetRatio 0 then order
        else let price =
               (if cr_IsBuy order then cr_Price order * (1 + offsetRatio)
                else let adjusted = 1 - offsetRatio
                     in cr_Price order * (if adjusted < 0 then 0 else adjusted))
             in order\<lparr>cr_Price := RoundHalfEven price\<rparr>)"

text \<open>
  \<open>None\<close> is a rounding loop that does not end; \<open>RoundPrice\<close> returns for every price that is
  a float64 (\<open>constrainPrice_total\<close> below), so no caller sees it.
\<close>

definition constrainPrice ::
  "emitter_env \<Rightarrow> HyperLiquidEmitter \<Rightarrow> string \<Rightarrow> f64 \<Rightarrow> trace \<Rightarrow> (string + f64) option \<times> trace" where
  "constrainPrice env e coin price tr =
     (if \<not> em_constraints e then (Some (Inr price), tr)
      else (case en_Resolve env tr coin of
          Inl err \<Rightarrow> (Some (Inl err), CallResolve coin # tr)
        | Inr constraints \<Rightarrow> (map_option Inr (RoundPrice constraints price), CallResolve coin # tr)))"

text \<open>The three callers log an error and keep the price.\<close>

definition constrain_order ::
  "emitter_env \<Rightarrow> HyperLiquidEmitter \<Rightarrow> CreateOrderRequest \<Rightarrow> trace \<Rightarrow> CreateOrderRequest \<times> trace" where
  "constrain_order env e order tr =
     (case constrainPrice env e (cr_Coin order) (cr_Price order) tr of
        (Some (Inr price), tr') \<Rightarrow> (order\<lparr>cr_Price := price\<rparr>, tr')
      | (_, tr') \<Rightarrow> (order, tr'))"

subsection \<open>Modifying\<close>

definition confirmModifyViaStatus ::
  "emitter_env \<Rightarrow> HyperLiquidEmitter \<Rightarrow> OrderWork \<Rightarrow> ModifyOrderRequest \<Rightarrow> trace \<Rightarrow> (string + OrderStatus) \<times> trace" where
  "confirmModifyViaStatus env e w req tr =
     (if \<not> em_statusClient e then (Inl (''status client unavailable for venue '' @ Venue (wk_Identifier w)), tr)
      else (case mo_Cloid req of
          None \<Rightarrow> (Inl ''modify verification requires cloid'', tr)
        | Some cloid \<Rightarrow>
            let tr1 = CallQuery cloid # tr in
            (case en_Query env tr cloid of
               Inl err \<Rightarrow> (Inl (''query order status: '' @ err), tr1)
             | Inr result \<Rightarrow>
                 (case OrderQueryResultToWsOrder (wk_OrderId w) result of
                    Inl _ \<Rightarrow> (Inl ''convert queried order'', tr1)
                  | Inr None \<Rightarrow> (Inl (''order status unavailable for '' @ cloid), tr1)
                  | Inr (Some wsOrder) \<Rightarrow>
                      if \<not> ordersMatch (Some wsOrder) (Some (mo_Order req)) (mo_Order req) then
                        (Inl ''queried order does not match desired state'', tr1)
                      else
                        (Inr \<lparr>hs_Resting = Some \<lparr>hr_Oid = wo_Oid (ws_Order wsOrder),
                                hr_ClientID = wo_Cloid (ws_Order wsOrder), hr_Status = ws_Status wsOrder\<rparr>,
                              hs_FilledTotalSz = None, hs_Error = None\<rparr>, tr1)))))"

definition submitModify ::
  "emitter_env \<Rightarrow> HyperLiquidEmitter \<Rightarrow> OrderWork \<Rightarrow> ModifyOrderRequest \<Rightarrow> trace
    \<Rightarrow> (emit_error + OrderStatus option) \<times> trace" where
  "submitModify env e w req tr =
     (let tr1 = CallModify req # tr;
          persist = (\<lambda>t. AppendModify (wk_Identifier w) req (RowID (wk_BotEvent w)) # t)
      in case en_Modify env tr req of
          Inr resp \<Rightarrow> (Inr (Some resp), persist tr1)
        | Inl err \<Rightarrow>
            let tr2 = rate_limit_cooldown e err tr1 in
            if Contains err missingModifyResponseDataFragment then
              (case confirmModifyViaStatus env e w req tr2 of
                 (Inr status, tr3) \<Rightarrow> (Inr (Some status), persist tr3)
               | (Inl verr, tr3) \<Rightarrow> (Inl (CouldNotVerify verr), tr3))
            else if Contains (ToLower err) cannotModifyFilledFragment then (Inr None, tr2)
            else (Inl (CouldNotModify err), tr2))"

text \<open>The summary that is logged once a request went through.\<close>

definition log_sent :: "Action \<Rightarrow> OrderStatus option \<Rightarrow> (int \<times> string) option \<Rightarrow> trace \<Rightarrow> trace" where
  "log_sent action lastStatus retryMeta tr =
     (let (statusText, executed) = orderStatusSummary lastStatus
      in LogSent action (requestedOrderSize action) executed statusText retryMeta # tr)"

subsection \<open>Creating\<close>

text \<open>One round of the retry loop, from the price to the venue's answer.\<close>

datatype attempt_result =
  AttemptReturn "emit_error option"
| AttemptRetry string
| AttemptPlaced OrderStatus

definition ioc_attempt ::
  "emitter_env \<Rightarrow> HyperLiquidEmitter \<Rightarrow> nat option \<Rightarrow> int \<Rightarrow> int \<Rightarrow> OrderWork \<Rightarrow> trace
    \<Rightarrow> attempt_result \<times> OrderWork \<times> trace" where
  "ioc_attempt env e wsClient maxAttempts attempt w tr =
     (let (order1, tr1) = setMarketPrice env wsClient (ac_Create (wk_Action w)) tr;
          (order, tr2) = constrain_order env e (applyIOCOffset (em_cfg e) order1 attempt) tr1;
          w' = w\<lparr>wk_Action := (wk_Action w)\<lparr>ac_Create := order\<rparr>\<rparr>;
          tr3 = CallOrder order # tr2;
          persist = (\<lambda>t. RecordOrder (wk_Identifier w) order (RowID (wk_BotEvent w)) # t)
      in case en_Order env tr2 order of
          Inr status \<Rightarrow> (AttemptPlaced status, w', tr3)
        | Inl err \<Rightarrow>
            if Contains err ''Order must have minimum value'' then (AttemptReturn None, w', persist tr3)
            else if Contains err ''Reduce only order would increase position'' then
              (AttemptReturn None, w', persist tr3)
            else if Contains err ''Order could not immediately match against any resting orders'' \<and>
                    attempt + 1 < maxAttempts then
              (AttemptRetry err, w', tr3)
            else (AttemptReturn (Some (CouldNotPlace err)), w', rate_limit_cooldown e err tr3))"

datatype loop_result =
  LoopReturn "emit_error option"
| LoopPlaced OrderStatus int string
| LoopExhausted string

function ioc_loop ::
  "emitter_env \<Rightarrow> HyperLiquidEmitter \<Rightarrow> nat option \<Rightarrow> int \<Rightarrow> int \<Rightarrow> int \<Rightarrow> string \<Rightarrow> OrderWork \<Rightarrow> trace
    \<Rightarrow> loop_result \<times> OrderWork \<times> trace" where
  "ioc_loop env e wsClient maxAttempts attempt retries lastErr w tr =
     (if maxAttempts \<le> attempt then (LoopExhausted lastErr, w, tr)
      else (case if 0 < attempt then waitTurn env e tr else (None, tr) of
          (Some err, tr1) \<Rightarrow> (LoopReturn (Some (GateError err)), w, tr1)
        | (None, tr1) \<Rightarrow>
            (case ioc_attempt env e wsClient maxAttempts attempt w tr1 of
               (AttemptPlaced status, w', tr2) \<Rightarrow> (LoopPlaced status retries lastErr, w', tr2)
             | (AttemptReturn r, w', tr2) \<Rightarrow> (LoopReturn r, w', tr2)
             | (AttemptRetry err, w', tr2) \<Rightarrow>
                 ioc_loop env e wsClient maxAttempts (attempt + 1) (retries + 1) err w' tr2)))"
  by pat_completeness auto

termination
  by (relation "measure (\<lambda>(_, _, _, maxAttempts, attempt, _). nat (maxAttempts - attempt))") auto

declare ioc_loop.simps [simp del]

definition place_order ::
  "emitter_env \<Rightarrow> HyperLiquidEmitter \<Rightarrow> nat option \<Rightarrow> OrderWork \<Rightarrow> trace \<Rightarrow> emit_error option \<times> trace" where
  "place_order env e wsClient w tr =
     (let maxAttempts = (if MaxIOCRetries (em_cfg e) \<le> 0 then 1 else MaxIOCRetries (em_cfg e))
      in case ioc_loop env e wsClient maxAttempts 0 0 [] w tr of
          (LoopReturn r, _, tr1) \<Rightarrow> (r, tr1)
        | (LoopExhausted lastErr, _, tr1) \<Rightarrow> (Some (CouldNotPlace lastErr), tr1)
        | (LoopPlaced status retries lastErr, w', tr1) \<Rightarrow>
            (None, log_sent (wk_Action w') (Some status) (if 0 < retries then Some (retries, lastErr) else None)
               (RecordOrder (wk_Identifier w) (ac_Create (wk_Action w')) (RowID (wk_BotEvent w)) # tr1)))"

text \<open>The request that was last recorded for the order, when there is one.\<close>

definition latest_submission :: "string + Action option \<Rightarrow> CreateOrderRequest option" where
  "latest_submission loaded =
     (case loaded of
        Inl _ \<Rightarrow> None
      | Inr None \<Rightarrow> None
      | Inr (Some submission) \<Rightarrow>
          (case ac_Type submission of
             ActionModify \<Rightarrow> Some (mo_Order (ac_Modify submission))
           | ActionCreate \<Rightarrow> Some (ac_Create submission)
           | _ \<Rightarrow> None))"

text \<open>A create for an order that is already live: nothing to do, or a modify.\<close>

definition reconcile_live ::
  "emitter_env \<Rightarrow> HyperLiquidEmitter \<Rightarrow> OrderWork \<Rightarrow> WsOrder option \<Rightarrow> trace \<Rightarrow> emit_error option \<times> trace" where
  "reconcile_live env e w status tr =
     (let ident = wk_Identifier w; order = ac_Create (wk_Action w);
          prev = latest_submission (en_Load env tr ident); tr1 = LoadSubmission ident # tr
      in if ordersMatch status prev order then (Some ErrOrderAlreadySatisfied, tr1)
         else let modifyReq = \<lparr>mo_Oid = None, mo_Cloid = Some (Hex (wk_OrderId w)), mo_Order = order\<rparr> in
           (case submitModify env e w modifyReq tr1 of
              (Inl err, tr2) \<Rightarrow> (Some err, tr2)
            | (Inr lastStatus, tr2) \<Rightarrow>
                (None, log_sent ((wk_Action w)\<lparr>ac_Type := ActionModify, ac_Modify := modifyReq\<rparr>)
                   lastStatus None tr2)))"

definition Emit_create ::
  "emitter_env \<Rightarrow> HyperLiquidEmitter \<Rightarrow> nat option \<Rightarrow> OrderWork \<Rightarrow> trace \<Rightarrow> emit_error option \<times> trace" where
  "Emit_create env e wsClient w tr =
     (let (order1, tr1) = setMarketPrice env wsClient (ac_Create (wk_Action w)) tr;
          (order, tr2) = constrain_order env e order1 tr1;
          w' = w\<lparr>wk_Action := (wk_Action w)\<lparr>ac_Create := order\<rparr>\<rparr>
      in case wsClient of
          None \<Rightarrow> place_order env e wsClient w' tr2
        | Some c \<Rightarrow>
            let (status, ok) = en_Get env tr2 c (wk_OrderId w); tr3 = WsGet c (wk_OrderId w) # tr2 in
            if ok \<and> isLiveStatus status then reconcile_live env e w' status tr3
            else place_order env e wsClient w' tr3)"

definition Emit_cancel ::
  "emitter_env \<Rightarrow> HyperLiquidEmitter \<Rightarrow> OrderWork \<Rightarrow> trace \<Rightarrow> emit_error option \<times> trace" where
  "Emit_cancel env e w tr =
     (let cancel = ac_Cancel (wk_Action w); tr1 = CallCancel (ca_Coin cancel) (ca_Cloid cancel) # tr;
          persist = (\<lambda>t. RecordCancel (wk_Identifier w) cancel (RowID (wk_BotEvent w)) # t)
      in case en_Cancel env tr (ca_Coin cancel) (ca_Cloid cancel) of
          Some err \<Rightarrow>
            if isAlreadyClosedCancelError err then (Some ErrOrderAlreadySatisfied, persist tr1)
            else (Some (CouldNotCancel err), rate_limit_cooldown e err tr1)
        | None \<Rightarrow> (None, log_sent (wk_Action w) None None (persist tr1)))"

definition Emit_modify ::
  "emitter_env \<Rightarrow> HyperLiquidEmitter \<Rightarrow> nat option \<Rightarrow> OrderWork \<Rightarrow> trace \<Rightarrow> emit_error option \<times> trace" where
  "Emit_modify env e wsClient w tr =
     (let (order1, tr1) = setMarketPrice env wsClient (mo_Order (ac_Modify (wk_Action w))) tr;
          (order, tr2) = constrain_order env e order1 tr1;
          w' = w\<lparr>wk_Action := (wk_Action w)\<lparr>ac_Modify := (ac_Modify (wk_Action w))\<lparr>mo_Order := order\<rparr>\<rparr>\<rparr>
      in case submitModify env e w' (ac_Modify (wk_Action w')) tr2 of
          (Inl err, tr3) \<Rightarrow> (Some err, tr3)
        | (Inr lastStatus, tr3) \<Rightarrow> (None, log_sent (wk_Action w') lastStatus None tr3))"

subsection \<open>Emit\<close>

definition Emit ::
  "emitter_env \<Rightarrow> HyperLiquidEmitter \<Rightarrow> OrderWork \<Rightarrow> trace \<Rightarrow> emit_error option \<times> trace" where
  "Emit env e w tr =
     (if wk_Identifier w = zero_OrderIdentifier then (Some ErrMissingOrderIdentifier, tr)
      else if wk_OrderId w \<noteq> zero_OrderId \<and> oi_OrderId (wk_Identifier w) \<noteq> wk_OrderId w then
        (Some ErrOrderIdentifierMismatch, tr)
      else let wsClient = wsFor e (oi_VenueID (wk_Identifier w)) in
        if ac_Type (wk_Action w) = ActionNone then (None, tr)
        else (case waitTurn env e tr of
            (Some err, tr1) \<Rightarrow> (Some (GateError err), tr1)
          | (None, tr1) \<Rightarrow>
              (case ac_Type (wk_Action w) of
                 ActionCreate \<Rightarrow> Emit_create env e wsClient w tr1
               | ActionCancel \<Rightarrow> Emit_cancel env e w tr1
               | ActionModify \<Rightarrow> Emit_modify env e wsClient w tr1
               | ActionNone \<Rightarrow> (None, tr1))))"

section \<open>Traces\<close>

text \<open>
  The requests that act on the venue, the writes to the store, and the calls that are neither and
  do not pass the gate.
\<close>

fun venue_call :: "hl_call \<Rightarrow> bool" where
  "venue_call (CallOrder _) = True"
| "venue_call (CallCancel _ _) = True"
| "venue_call (CallModify _) = True"
| "venue_call _ = False"

fun store_write :: "hl_call \<Rightarrow> bool" where
  "store_write (RecordOrder _ _ _) = True"
| "store_write (AppendModify _ _ _) = True"
| "store_write (RecordCancel _ _ _) = True"
| "store_write _ = False"

definition quiet :: "hl_call \<Rightarrow> bool" where
  "quiet c \<longleftrightarrow> c \<notin> range GateWait \<and> \<not> venue_call c \<and> \<not> store_write c"

text \<open>The request a store write stands for, and the work item it must belong to.\<close>

fun written_call :: "hl_call \<Rightarrow> hl_call option" where
  "written_call (RecordOrder _ req _) = Some (CallOrder req)"
| "written_call (AppendModify _ req _) = Some (CallModify req)"
| "written_call (RecordCancel _ c _) = Some (CallCancel (ca_Coin c) (ca_Cloid c))"
| "written_call _ = None"

fun write_key :: "hl_call \<Rightarrow> (OrderIdentifier \<times> int) option" where
  "write_key (RecordOrder i _ row) = Some (i, row)"
| "write_key (AppendModify i _ row) = Some (i, row)"
| "write_key (RecordCancel i _ row) = Some (i, row)"
| "write_key _ = None"

definition last_call :: "trace \<Rightarrow> hl_call option" where
  "last_call tr = find venue_call tr"

definition work_key :: "OrderWork \<Rightarrow> OrderIdentifier \<times> int" where
  "work_key w = (wk_Identifier w, RowID (wk_BotEvent w))"

text \<open>A contract on traces: what a property has to allow for every run of \<open>Emit\<close> to keep it.\<close>

locale trace_contract =
  fixes w :: OrderWork and inv :: "trace \<Rightarrow> bool" and ready :: "trace \<Rightarrow> bool"
  assumes inv_wait: "inv tr \<Longrightarrow> inv (GateWait r # tr)"
    and ready_wait: "ready (GateWait None # tr)"
    and inv_quiet: "quiet c \<Longrightarrow> inv tr \<Longrightarrow> inv (c # tr)"
    and ready_quiet: "quiet c \<Longrightarrow> ready tr \<Longrightarrow> ready (c # tr)"
    and inv_call: "venue_call c \<Longrightarrow> ready tr \<Longrightarrow> inv tr \<Longrightarrow> inv (c # tr)"
    and inv_write: "store_write c \<Longrightarrow> write_key c = Some (work_key w) \<Longrightarrow> last_call tr = written_call c \<Longrightarrow>
      inv tr \<Longrightarrow> inv (c # tr)"

definition quiet_ext :: "trace \<Rightarrow> trace \<Rightarrow> bool" where
  "quiet_ext tr tr' \<longleftrightarrow> (\<exists>ts. tr' = ts @ tr \<and> list_all quiet ts)"

lemma quiet_ext_refl [simp]: "quiet_ext tr tr"
  by (auto simp: quiet_ext_def)

lemma quiet_ext_Cons: "quiet c \<Longrightarrow> quiet_ext tr tr' \<Longrightarrow> quiet_ext tr (c # tr')"
  unfolding quiet_ext_def by (metis append_Cons list.pred_inject(2))

lemma quiet_ext_trans: "quiet_ext a b \<Longrightarrow> quiet_ext b c \<Longrightarrow> quiet_ext a c"
  unfolding quiet_ext_def by (metis append_assoc list_all_append)

lemma quiet_ext_filter:
  assumes "quiet_ext tr tr'" and "\<And>c. P c \<Longrightarrow> \<not> quiet c"
  shows "filter P tr' = filter P tr"
proof -
  have "filter P ts = []" if "list_all quiet ts" for ts
    using that assms(2) by (induction ts) auto
  then show ?thesis using assms(1) by (auto simp: quiet_ext_def)
qed

lemma quiet_ext_last_call:
  assumes "quiet_ext tr tr'"
  shows "last_call tr' = last_call tr"
proof -
  have "find venue_call (ts @ tr) = find venue_call tr" if "list_all quiet ts" for ts
    using that by (induction ts) (auto simp: quiet_def)
  then show ?thesis using assms by (auto simp: quiet_ext_def last_call_def)
qed

lemma quiet_simps [simp]:
  "quiet (GateCooldown d)" "quiet (EnsureBBO c s)" "quiet (WaitBBO c s)" "quiet (WsGet c i)"
  "quiet (CallResolve s)" "quiet (CallQuery s)" "quiet (LoadSubmission oi)" "quiet (LogSent a x y t m)"
  "\<not> quiet (GateWait r)" "\<not> quiet (CallOrder o1)" "\<not> quiet (CallCancel s s')" "\<not> quiet (CallModify m1)"
  "\<not> quiet (RecordOrder oi o1 n)" "\<not> quiet (AppendModify oi m1 n)" "\<not> quiet (RecordCancel oi c1 n)"
  by (auto simp: quiet_def)

lemma last_call_simps [simp]:
  "last_call (CallOrder o1 # tr) = Some (CallOrder o1)"
  "last_call (CallCancel s s' # tr) = Some (CallCancel s s')"
  "last_call (CallModify m1 # tr) = Some (CallModify m1)"
  by (simp_all add: last_call_def)

lemma rate_limit_cooldown_quiet: "quiet_ext tr (rate_limit_cooldown e err tr)"
  by (simp add: rate_limit_cooldown_def applyCooldown_def quiet_ext_Cons)

lemma setMarketPrice_quiet: "quiet_ext tr (snd (setMarketPrice env ws order tr))"
  by (simp add: setMarketPrice_def quiet_ext_Cons Let_def split: option.split)

lemma constrainPrice_quiet: "quiet_ext tr (snd (constrainPrice env e coin price tr))"
  by (simp add: constrainPrice_def quiet_ext_Cons split: sum.split)

lemma constrain_order_quiet: "quiet_ext tr (snd (constrain_order env e order tr))"
  using constrainPrice_quiet [of tr env e "cr_Coin order" "cr_Price order"]
  by (auto simp: constrain_order_def split: prod.split option.split sum.split)

lemma confirm_quiet: "quiet_ext tr (snd (confirmModifyViaStatus env e w req tr))"
  by (simp add: confirmModifyViaStatus_def quiet_ext_Cons Let_def split: option.split sum.split)

lemma log_sent_quiet: "quiet_ext tr (log_sent a st m tr)"
  by (simp add: log_sent_def quiet_ext_Cons split: prod.split)

lemmas quiet_exts = setMarketPrice_quiet constrain_order_quiet rate_limit_cooldown_quiet confirm_quiet
  log_sent_quiet

lemma market_constrain_quiet:
  assumes "setMarketPrice env ws order tr = (o1, tr1)" and "constrain_order env e o1 tr1 = (o2, tr2)"
  shows "quiet_ext tr tr2"
  using setMarketPrice_quiet [of tr env ws order] constrain_order_quiet [of tr1 env e o1] assms
  by (metis quiet_ext_trans snd_conv)

lemma ioc_attempt_shape:
  assumes "ioc_attempt env e ws m k w tr = (r, w', tr')"
  obtains tr2 where "quiet_ext tr tr2" and "work_key w' = work_key w"
    and "case r of
        AttemptReturn None \<Rightarrow> tr' = RecordOrder (wk_Identifier w) (ac_Create (wk_Action w')) (RowID (wk_BotEvent w))
           # CallOrder (ac_Create (wk_Action w')) # tr2
      | AttemptReturn (Some err) \<Rightarrow> quiet_ext (CallOrder (ac_Create (wk_Action w')) # tr2) tr'
      | _ \<Rightarrow> tr' = CallOrder (ac_Create (wk_Action w')) # tr2"
    and "case r of AttemptRetry _ \<Rightarrow> k + 1 < m | _ \<Rightarrow> True"
proof -
  obtain o1 tr1 where m: "setMarketPrice env ws (ac_Create (wk_Action w)) tr = (o1, tr1)"
    by (cases "setMarketPrice env ws (ac_Create (wk_Action w)) tr")
  obtain o2 tr2 where c: "constrain_order env e (applyIOCOffset (em_cfg e) o1 k) tr1 = (o2, tr2)"
    by (cases "constrain_order env e (applyIOCOffset (em_cfg e) o1 k) tr1")
  have "quiet_ext tr tr2"
    using setMarketPrice_quiet [of tr env ws "ac_Create (wk_Action w)"]
      constrain_order_quiet [of tr1 env e "applyIOCOffset (em_cfg e) o1 k"] m c
    by (auto intro: quiet_ext_trans)
  then show thesis
    using assms
    by (intro that [of tr2])
      (auto simp: ioc_attempt_def m c Let_def work_key_def rate_limit_cooldown_quiet split: sum.splits if_splits)
qed

context trace_contract
begin

lemma inv_ext: "quiet_ext tr tr' \<Longrightarrow> inv tr \<Longrightarrow> inv tr'"
proof -
  have "list_all quiet ts \<Longrightarrow> inv tr \<Longrightarrow> inv (ts @ tr)" for ts
    by (induction ts) (auto intro: inv_quiet)
  then show "quiet_ext tr tr' \<Longrightarrow> inv tr \<Longrightarrow> inv tr'" by (auto simp: quiet_ext_def)
qed

lemma ready_ext: "quiet_ext tr tr' \<Longrightarrow> ready tr \<Longrightarrow> ready tr'"
proof -
  have "list_all quiet ts \<Longrightarrow> ready tr \<Longrightarrow> ready (ts @ tr)" for ts
    by (induction ts) (auto intro: ready_quiet)
  then show "quiet_ext tr tr' \<Longrightarrow> ready tr \<Longrightarrow> ready tr'" by (auto simp: quiet_ext_def)
qed

lemma waitTurn_keeps:
  assumes "waitTurn env e tr = (r, tr')" and "inv tr" and "em_gate e \<or> ready tr"
  shows "inv tr' \<and> (r = None \<longrightarrow> ready tr')"
  using assms ready_wait [of tr] by (auto simp: waitTurn_def intro: inv_wait split: if_splits)

lemma submitModify_keeps:
  assumes "inv tr" and "ready tr" and "work_key w' = work_key w"
  shows "inv (snd (submitModify env e w' req tr))"
proof -
  let ?entry = "AppendModify (wk_Identifier w') req (RowID (wk_BotEvent w'))"
  have sent: "inv (CallModify req # tr)"
    using assms by (intro inv_call) auto
  have wrote: "inv (?entry # tr')" if "quiet_ext (CallModify req # tr) tr'" for tr'
    using quiet_ext_last_call [OF that] assms(3)
    by (intro inv_write [OF _ _ _ inv_ext [OF that sent]]) (auto simp: work_key_def)
  have cool: "quiet_ext (CallModify req # tr) (rate_limit_cooldown e err (CallModify req # tr))" for err
    by (rule rate_limit_cooldown_quiet)
  have conf: "quiet_ext (CallModify req # tr)
      (snd (confirmModifyViaStatus env e w' req (rate_limit_cooldown e err (CallModify req # tr))))" for err
    using cool confirm_quiet by (rule quiet_ext_trans)
  show ?thesis
    using wrote [OF quiet_ext_refl] wrote [OF conf] inv_ext [OF cool sent] inv_ext [OF conf sent]
    by (auto simp: submitModify_def Let_def split: sum.split prod.split if_split) (metis snd_conv)+
qed

lemma ioc_attempt_keeps:
  assumes "ioc_attempt env e ws m k w' tr = (r, w'', tr')"
    and "inv tr" and "ready tr" and "work_key w' = work_key w"
  shows "inv tr' \<and> work_key w'' = work_key w \<and>
    (case r of AttemptPlaced _ \<Rightarrow> last_call tr' = Some (CallOrder (ac_Create (wk_Action w''))) | _ \<Rightarrow> True)"
proof -
  let ?c = "ac_Create (wk_Action w'')"
  from assms(1) obtain tr2 where s: "quiet_ext tr tr2" "work_key w'' = work_key w'"
    "case r of
        AttemptReturn None \<Rightarrow> tr' = RecordOrder (wk_Identifier w') ?c (RowID (wk_BotEvent w')) # CallOrder ?c # tr2
      | AttemptReturn (Some err) \<Rightarrow> quiet_ext (CallOrder ?c # tr2) tr'
      | _ \<Rightarrow> tr' = CallOrder ?c # tr2"
    by (rule ioc_attempt_shape)
  have sent: "inv (CallOrder ?c # tr2)"
    using assms(2,3) s(1) by (intro inv_call) (auto intro: inv_ext ready_ext)
  have "inv (RecordOrder (wk_Identifier w') ?c (RowID (wk_BotEvent w')) # CallOrder ?c # tr2)"
    using assms(4) by (intro inv_write [OF _ _ _ sent]) (auto simp: work_key_def)
  with s sent assms(4) show ?thesis
    by (auto split: attempt_result.splits option.splits intro: inv_ext)
qed

lemma ioc_loop_keeps:
  assumes "ioc_loop env e ws m k n err w' tr = (r, w'', tr')"
    and "inv tr" and "if 0 < k then True else ready tr"
    and "em_gate e \<or> (\<forall>t. ready t)" and "work_key w' = work_key w" and "0 \<le> k"
  shows "inv tr' \<and> work_key w'' = work_key w \<and>
    (case r of LoopPlaced _ _ _ \<Rightarrow> last_call tr' = Some (CallOrder (ac_Create (wk_Action w''))) | _ \<Rightarrow> True)"
  using assms
proof (induction env e ws m k n err w' tr arbitrary: r w'' tr' rule: ioc_loop.induct)
  case (1 env e ws m k n err w' tr)
  obtain g tr1 where g: "(if 0 < k then waitTurn env e tr else (None, tr)) = (g, tr1)"
    by (cases "if 0 < k then waitTurn env e tr else (None, tr)")
  have tr1: "inv tr1" "g = None \<Longrightarrow> ready tr1"
    using g waitTurn_keeps [of env e tr g tr1] "1.prems"(2,3,4,6) by (auto split: if_splits)
  obtain ar aw atr where a: "ioc_attempt env e ws m k w' tr1 = (ar, aw, atr)"
    by (cases "ioc_attempt env e ws m k w' tr1")
  note atr = ioc_attempt_keeps [OF a tr1(1) tr1(2) "1.prems"(5)]
  note unf = "1.prems"(1) [unfolded ioc_loop.simps [of env e ws m k n err w' tr] g]
  consider "m \<le> k \<or> g \<noteq> None" | "\<not> m \<le> k" "g = None" by blast
  then show ?case
  proof cases
    case 1
    then show ?thesis using unf "1.prems"(2,5) tr1 by (auto split: if_splits)
  next
    case 2
    show ?thesis
    proof (cases ar)
      case (AttemptRetry er)
      have "ioc_loop env e ws m (k + 1) (n + 1) er aw atr = (r, w'', tr')"
        using unf 2 a AttemptRetry by simp
      then show ?thesis
        using "1.IH" [OF 2(1) g [symmetric] 2(2) a [symmetric] AttemptRetry refl] atr [OF 2(2)] "1.prems"(4,6) by auto
    qed (use unf 2 a atr [OF 2(2)] in auto)
  qed
qed

lemma place_order_keeps:
  assumes "inv tr" and "ready tr" and "em_gate e \<or> (\<forall>t. ready t)" and "work_key w' = work_key w"
  shows "inv (snd (place_order env e ws w' tr))"
proof -
  let ?m = "if MaxIOCRetries (em_cfg e) \<le> 0 then 1 else MaxIOCRetries (em_cfg e)"
  obtain r w'' tr' where l: "ioc_loop env e ws ?m 0 0 [] w' tr = (r, w'', tr')"
    by (cases "ioc_loop env e ws ?m 0 0 [] w' tr")
  have k: "inv tr'" "work_key w'' = work_key w"
    "case r of LoopPlaced _ _ _ \<Rightarrow> last_call tr' = Some (CallOrder (ac_Create (wk_Action w''))) | _ \<Rightarrow> True"
    using ioc_loop_keeps [OF l assms(1)] assms by auto
  let ?wr = "RecordOrder (wk_Identifier w') (ac_Create (wk_Action w'')) (RowID (wk_BotEvent w'))"
  have "inv (?wr # tr')" if "r = LoopPlaced st n err" for st n err
    using k that assms(4) by (intro inv_write) (auto simp: work_key_def)
  then show ?thesis
    using k(1) l by (auto simp: place_order_def Let_def intro: inv_ext [OF log_sent_quiet] split: loop_result.split)
qed

lemma reconcile_live_keeps:
  assumes "inv tr" and "ready tr" and "work_key w' = work_key w"
  shows "inv (snd (reconcile_live env e w' status tr))"
proof -
  let ?tr = "LoadSubmission (wk_Identifier w') # tr"
  have "inv ?tr" "ready ?tr" using assms by (simp_all add: inv_quiet ready_quiet)
  then have "inv (snd (submitModify env e w' req ?tr))" for req
    using assms(3) by (rule submitModify_keeps)
  then show ?thesis
    using \<open>inv ?tr\<close>
    by (auto simp: reconcile_live_def Let_def intro: inv_ext [OF log_sent_quiet] split: prod.split sum.split)
      (metis inv_ext log_sent_quiet snd_conv)+
qed

lemma Emit_create_keeps:
  assumes "inv tr" and "ready tr" and "em_gate e \<or> (\<forall>t. ready t)" and "work_key w' = work_key w"
  shows "inv (snd (Emit_create env e ws w' tr))"
proof -
  obtain o1 tr1 where m: "setMarketPrice env ws (ac_Create (wk_Action w')) tr = (o1, tr1)"
    by (cases "setMarketPrice env ws (ac_Create (wk_Action w')) tr")
  obtain o2 tr2 where c: "constrain_order env e o1 tr1 = (o2, tr2)"
    by (cases "constrain_order env e o1 tr1")
  have "quiet_ext tr tr2"
    using m c by (rule market_constrain_quiet)
  then have tr2: "inv tr2" "ready tr2" using assms(1,2) by (auto intro: inv_ext ready_ext)
  then have "inv (WsGet x y # tr2)" "ready (WsGet x y # tr2)" for x y
    by (simp_all add: inv_quiet ready_quiet)
  with tr2 assms(3,4) show ?thesis
    by (auto simp: Emit_create_def m c Let_def work_key_def
        intro!: place_order_keeps reconcile_live_keeps split: prod.split option.split)
qed

lemma Emit_modify_keeps:
  assumes "inv tr" and "ready tr" and "work_key w' = work_key w"
  shows "inv (snd (Emit_modify env e ws w' tr))"
proof -
  let ?o = "mo_Order (ac_Modify (wk_Action w'))"
  obtain o1 tr1 where m: "setMarketPrice env ws ?o tr = (o1, tr1)"
    by (cases "setMarketPrice env ws ?o tr")
  obtain o2 tr2 where c: "constrain_order env e o1 tr1 = (o2, tr2)"
    by (cases "constrain_order env e o1 tr1")
  have "quiet_ext tr tr2"
    using m c by (rule market_constrain_quiet)
  then have tr2: "inv tr2" "ready tr2" using assms(1,2) by (auto intro: inv_ext ready_ext)
  have "inv (snd (submitModify env e (w'\<lparr>wk_Action := a\<rparr>) req tr2))" for a req
    using assms(3) by (intro submitModify_keeps [OF tr2]) (simp add: work_key_def)
  then show ?thesis
    by (auto simp: Emit_modify_def m c Let_def split: prod.split sum.split)
      (metis inv_ext log_sent_quiet snd_conv)+
qed

lemma Emit_cancel_keeps:
  assumes "inv tr" and "ready tr"
  shows "inv (snd (Emit_cancel env e w tr))"
proof -
  let ?c = "ac_Cancel (wk_Action w)"
  let ?tr = "CallCancel (ca_Coin ?c) (ca_Cloid ?c) # tr"
  have sent: "inv ?tr" using assms by (intro inv_call) auto
  have "inv (RecordCancel (wk_Identifier w) ?c (RowID (wk_BotEvent w)) # ?tr)"
    by (intro inv_write [OF _ _ _ sent]) (auto simp: work_key_def)
  with sent show ?thesis
    by (auto simp: Emit_cancel_def Let_def split: option.split
        intro: inv_ext [OF log_sent_quiet] inv_ext [OF rate_limit_cooldown_quiet])
qed

lemma Emit_keeps:
  assumes "inv tr" and "em_gate e \<or> (\<forall>t. ready t)"
  shows "inv (snd (Emit env e w tr))"
proof -
  obtain r tr1 where t: "waitTurn env e tr = (r, tr1)" by (cases "waitTurn env e tr")
  then have "inv tr1" "r = None \<Longrightarrow> ready tr1" using waitTurn_keeps [OF t assms(1)] assms(2) by auto
  then show ?thesis
    using assms t
    by (auto simp: Emit_def Let_def intro: Emit_create_keeps Emit_cancel_keeps Emit_modify_keeps
        split: option.split ActionType.split)
qed

end




text \<open>
  The second instance: the ledger. Every write follows the venue request it stands for, with no
  other request in between, and is filed under the work item's identifier and event row.
\<close>

fun honest :: "OrderWork \<Rightarrow> trace \<Rightarrow> bool" where
  "honest w [] \<longleftrightarrow> True"
| "honest w (c # tr) \<longleftrightarrow>
     (if store_write c then write_key c = Some (work_key w) \<and> last_call tr = written_call c else True) \<and>
     honest w tr"

interpretation ledger: trace_contract w "honest w" "\<lambda>_. True" for w
  by unfold_locales (auto simp: quiet_def elim: venue_call.elims)

text \<open>The third: a run only adds to the trace.\<close>

interpretation history: trace_contract w "suffix tr0" "\<lambda>_. True" for w tr0
  by unfold_locales (auto intro: suffix_ConsI)



text \<open>
  C4: The ledger. Every order, modification or cancellation that one \<^verbatim>\<open>Emit\<close> writes to the store is the
  request that was last sent to the venue, unchanged, under the work item's own identifier and row; a
  request that was not sent is never recorded.
\<close>

theorem Emit_records_only_what_was_sent:
  "honest w (snd (Emit env e w []))"
  by (rule ledger.Emit_keeps) auto

section \<open>Bounds\<close>

definition venue_calls :: "trace \<Rightarrow> nat" where
  "venue_calls tr = length (filter venue_call tr)"

lemma quiet_ext_calls: "quiet_ext tr tr' \<Longrightarrow> venue_calls tr' = venue_calls tr"
  unfolding venue_calls_def by (subst quiet_ext_filter) (auto simp: quiet_def)

lemma venue_calls_Cons [simp]:
  "venue_calls (c # tr) = (if venue_call c then Suc (venue_calls tr) else venue_calls tr)"
  by (simp add: venue_calls_def)

lemma waitTurn_calls: "waitTurn env e tr = (r, tr') \<Longrightarrow> venue_calls tr' = venue_calls tr"
  by (auto simp: waitTurn_def split: if_splits)

lemma ioc_attempt_calls:
  assumes "ioc_attempt env e ws m k w tr = (r, w', tr')"
  shows "venue_calls tr' = Suc (venue_calls tr) \<and> (case r of AttemptRetry _ \<Rightarrow> k + 1 < m | _ \<Rightarrow> True)"
  using assms
  by (rule ioc_attempt_shape)
    (auto dest!: quiet_ext_calls split: attempt_result.splits option.splits)

text \<open>
  The loop sends at least one and at most \<open>m - k\<close> orders, and does not reach the branch behind it
  that reports exhausted retries.
\<close>

lemma ioc_loop_calls:
  assumes "ioc_loop env e ws m k n err w tr = (r, w', tr')" and "k < m"
  shows "venue_calls tr' \<le> venue_calls tr + nat (m - k) \<and> (\<forall>msg. r \<noteq> LoopExhausted msg)"
  using assms
proof (induction env e ws m k n err w tr arbitrary: r w' tr' rule: ioc_loop.induct)
  case (1 env e ws m k n err w tr)
  obtain g tr1 where g: "(if 0 < k then waitTurn env e tr else (None, tr)) = (g, tr1)"
    by (cases "if 0 < k then waitTurn env e tr else (None, tr)")
  have tr1: "venue_calls tr1 = venue_calls tr"
    using g waitTurn_calls by (auto split: if_splits)
  obtain ar aw atr where a: "ioc_attempt env e ws m k w tr1 = (ar, aw, atr)"
    by (cases "ioc_attempt env e ws m k w tr1")
  note unf = "1.prems"(1) [unfolded ioc_loop.simps [of env e ws m k n err w tr] g]
  have lt: "\<not> m \<le> k" using "1.prems"(2) by simp
  show ?case
  proof (cases g)
    case None
    show ?thesis
    proof (cases ar)
      case (AttemptRetry er)
      have "ioc_loop env e ws m (k + 1) (n + 1) er aw atr = (r, w', tr')"
        using unf lt None a AttemptRetry by simp
      then show ?thesis
        using "1.IH" [OF lt g [symmetric] None a [symmetric] AttemptRetry refl]
          ioc_attempt_calls [OF a] tr1 AttemptRetry by auto
    qed (use unf lt None a tr1 ioc_attempt_calls [OF a] in auto)
  qed (use unf lt tr1 in auto)
qed

lemma place_order_calls:
  "venue_calls (snd (place_order env e ws w tr)) \<le> venue_calls tr + nat (max 1 (MaxIOCRetries (em_cfg e)))"
proof -
  let ?m = "if MaxIOCRetries (em_cfg e) \<le> 0 then 1 else MaxIOCRetries (em_cfg e)"
  obtain r w' tr' where l: "ioc_loop env e ws ?m 0 0 [] w tr = (r, w', tr')"
    by (cases "ioc_loop env e ws ?m 0 0 [] w tr")
  have "venue_calls tr' \<le> venue_calls tr + nat ?m"
    using ioc_loop_calls [OF l] by simp
  moreover have "?m = max 1 (MaxIOCRetries (em_cfg e))" by simp
  ultimately show ?thesis
    using l quiet_ext_calls [OF log_sent_quiet]
    by (auto simp: place_order_def Let_def split: loop_result.split)
qed

lemma submitModify_calls: "venue_calls (snd (submitModify env e w req tr)) = Suc (venue_calls tr)"
proof -
  have "quiet_ext (CallModify req # tr)
      (snd (confirmModifyViaStatus env e w req (rate_limit_cooldown e err (CallModify req # tr))))" for err
    using rate_limit_cooldown_quiet confirm_quiet by (rule quiet_ext_trans)
  note calls = quiet_ext_calls [OF this] quiet_ext_calls [OF rate_limit_cooldown_quiet]
  then show ?thesis
    by (auto simp: submitModify_def Let_def split: sum.split prod.split if_split) (metis snd_conv calls(1)
        venue_calls_Cons venue_call.simps(3))+
qed

lemma reconcile_live_calls: "venue_calls (snd (reconcile_live env e w status tr)) \<le> Suc (venue_calls tr)"
  using submitModify_calls quiet_ext_calls [OF log_sent_quiet]
  by (auto simp: reconcile_live_def Let_def split: prod.split sum.split) (metis snd_conv order_refl
      venue_calls_Cons venue_call.simps)+

lemma Emit_create_calls:
  "venue_calls (snd (Emit_create env e ws w tr)) \<le> venue_calls tr + nat (max 1 (MaxIOCRetries (em_cfg e)))"
proof -
  let ?n = "nat (max 1 (MaxIOCRetries (em_cfg e)))"
  obtain o1 tr1 where m: "setMarketPrice env ws (ac_Create (wk_Action w)) tr = (o1, tr1)"
    by (cases "setMarketPrice env ws (ac_Create (wk_Action w)) tr")
  obtain o2 tr2 where c: "constrain_order env e o1 tr1 = (o2, tr2)"
    by (cases "constrain_order env e o1 tr1")
  have tr2: "venue_calls tr2 = venue_calls tr"
    using quiet_ext_calls [OF market_constrain_quiet [OF m c]] .
  have "venue_calls (snd (reconcile_live env e w' status (WsGet x y # tr2))) \<le> venue_calls tr + ?n" for w' status x y
    using reconcile_live_calls [of env e w' status "WsGet x y # tr2"] tr2 by simp
  moreover have "venue_calls (snd (place_order env e ws w' tr')) \<le> venue_calls tr + ?n"
    if "tr' = tr2 \<or> tr' = WsGet x y # tr2" for w' tr' x y
    using place_order_calls [of env e ws w' tr'] tr2 that by auto
  ultimately show ?thesis
    by (auto simp: Emit_create_def m c Let_def split: prod.split option.split)
qed

lemma Emit_modify_calls: "venue_calls (snd (Emit_modify env e ws w tr)) = Suc (venue_calls tr)"
proof -
  let ?o = "mo_Order (ac_Modify (wk_Action w))"
  obtain o1 tr1 where m: "setMarketPrice env ws ?o tr = (o1, tr1)"
    by (cases "setMarketPrice env ws ?o tr")
  obtain o2 tr2 where c: "constrain_order env e o1 tr1 = (o2, tr2)"
    by (cases "constrain_order env e o1 tr1")
  have "venue_calls (snd (submitModify env e w' req tr2)) = Suc (venue_calls tr)" for w' req
    by (simp add: submitModify_calls quiet_ext_calls [OF market_constrain_quiet [OF m c]])
  then show ?thesis
    using quiet_ext_calls [OF log_sent_quiet]
    by (auto simp: Emit_modify_def m c Let_def split: prod.split sum.split) (metis snd_conv)+
qed

lemma Emit_cancel_calls: "venue_calls (snd (Emit_cancel env e w tr)) = Suc (venue_calls tr)"
  using quiet_ext_calls [OF log_sent_quiet] quiet_ext_calls [OF rate_limit_cooldown_quiet]
  by (auto simp: Emit_cancel_def Let_def split: option.split)

text \<open>
  Bounded retries. One \<^verbatim>\<open>Emit\<close> sends at most \<^verbatim>\<open>MaxIOCRetries\<close> requests to the venue (one, if that
  is not positive), whatever the venue answers, and it returns.
\<close>

theorem Emit_bounded_requests:
  "venue_calls (snd (Emit env e w tr)) \<le> venue_calls tr + nat (max 1 (MaxIOCRetries (em_cfg e)))"
proof -
  obtain r tr1 where t: "waitTurn env e tr = (r, tr1)" by (cases "waitTurn env e tr")
  then have "venue_calls tr1 = venue_calls tr" by (rule waitTurn_calls)
  then show ?thesis
    using t Emit_create_calls [of env e "wsFor e (oi_VenueID (wk_Identifier w))" w tr1]
      Emit_modify_calls [of env e "wsFor e (oi_VenueID (wk_Identifier w))" w tr1]
      Emit_cancel_calls [of env e w tr1]
    by (auto simp: Emit_def Let_def split: option.split ActionType.split)
qed

section \<open>Guards and outcomes\<close>

definition identified :: "OrderWork \<Rightarrow> bool" where
  "identified w \<longleftrightarrow> wk_Identifier w \<noteq> zero_OrderIdentifier \<and>
     (wk_OrderId w = zero_OrderId \<or> oi_OrderId (wk_Identifier w) = wk_OrderId w)"

lemma Emit_identified:
  assumes "identified w" and "ac_Type (wk_Action w) \<noteq> ActionNone" and "waitTurn env e tr = (None, tr1)"
  shows "Emit env e w tr =
    (let wsClient = wsFor e (oi_VenueID (wk_Identifier w)) in
     case ac_Type (wk_Action w) of
       ActionCreate \<Rightarrow> Emit_create env e wsClient w tr1
     | ActionCancel \<Rightarrow> Emit_cancel env e w tr1
     | ActionModify \<Rightarrow> Emit_modify env e wsClient w tr1
     | ActionNone \<Rightarrow> (None, tr1))"
  using assms by (auto simp: Emit_def identified_def Let_def)

subsection \<open>Errors\<close>

lemma ioc_attempt_error:
  "ioc_attempt env e ws m k w tr = (AttemptReturn (Some er), w', tr') \<Longrightarrow> er \<in> range CouldNotPlace"
  by (auto simp: ioc_attempt_def Let_def split: prod.splits sum.splits if_splits)

lemma ioc_loop_error:
  assumes "ioc_loop env e ws m k n err w tr = (LoopReturn (Some er), w', tr')"
  shows "er \<in> range GateError \<union> range CouldNotPlace"
  using assms
  by (induction env e ws m k n err w tr arbitrary: w' tr' rule: ioc_loop.induct)
    (subst (asm) (2) ioc_loop.simps, fastforce dest: ioc_attempt_error split: if_splits prod.splits option.splits attempt_result.splits)

lemma place_order_error:
  "fst (place_order env e ws w tr) = Some er \<Longrightarrow> er \<in> range GateError \<union> range CouldNotPlace"
  by (auto simp: place_order_def Let_def split: prod.splits loop_result.splits dest!: ioc_loop_error)

lemma submitModify_error:
  "fst (submitModify env e w req tr) = Inl er \<Longrightarrow> er \<in> range CouldNotVerify \<union> range CouldNotModify"
  by (auto simp: submitModify_def Let_def split: prod.splits sum.splits if_splits)

lemma Emit_create_error:
  "fst (Emit_create env e ws w tr) = Some er \<Longrightarrow>
   er \<in> {ErrOrderAlreadySatisfied} \<union> range GateError \<union> range CouldNotPlace \<union> range CouldNotVerify \<union> range CouldNotModify"
  by (auto simp: Emit_create_def reconcile_live_def Let_def split: prod.splits sum.splits if_splits option.splits
      dest!: place_order_error arg_cong [where f = fst] submitModify_error)

lemma Emit_modify_error:
  "fst (Emit_modify env e ws w tr) = Some er \<Longrightarrow> er \<in> range CouldNotVerify \<union> range CouldNotModify"
  by (auto simp: Emit_modify_def Let_def split: prod.splits sum.splits if_splits
      dest!: arg_cong [where f = fst] submitModify_error)

lemma Emit_cancel_error:
  "fst (Emit_cancel env e w tr) = Some er \<Longrightarrow> er \<in> {ErrOrderAlreadySatisfied} \<union> range CouldNotCancel"
  by (auto simp: Emit_cancel_def Let_def split: option.splits if_splits)

lemma Emit_identified_error:
  assumes "identified w"
  shows "fst (Emit env e w tr) \<noteq> Some ErrMissingOrderIdentifier" "fst (Emit env e w tr) \<noteq> Some ErrOrderIdentifierMismatch"
    "fst (Emit env e w tr) \<noteq> Some (ErrUnregisteredVenueEmitter v)"
proof -
  obtain r tr1 where t: "waitTurn env e tr = (r, tr1)" by (cases "waitTurn env e tr")
  have "er \<notin> {ErrMissingOrderIdentifier, ErrOrderIdentifierMismatch, ErrUnregisteredVenueEmitter v}"
    if "fst (Emit env e w tr) = Some er" for er
    using that t assms
    by (auto simp: Emit_def identified_def Let_def split: option.splits if_splits ActionType.splits
        dest!: Emit_create_error Emit_modify_error Emit_cancel_error)
  then show "fst (Emit env e w tr) \<noteq> Some ErrMissingOrderIdentifier" "fst (Emit env e w tr) \<noteq> Some ErrOrderIdentifierMismatch"
    "fst (Emit env e w tr) \<noteq> Some (ErrUnregisteredVenueEmitter v)" by blast+
qed

lemma Emit_passes_gate:
  assumes "em_gate e" and "identified w" and "ac_Type (wk_Action w) \<noteq> ActionNone"
  shows "suffix (GateWait (en_Wait env tr) # tr) (snd (Emit env e w tr))"
proof -
  let ?tr = "GateWait (en_Wait env tr) # tr"
  have keeps: "suffix ?tr (snd (Emit_create env e ws w ?tr))" "suffix ?tr (snd (Emit_modify env e ws w ?tr))"
    "suffix ?tr (snd (Emit_cancel env e w ?tr))" for ws
    using history.Emit_create_keeps [of ?tr ?tr e w w] history.Emit_modify_keeps [of ?tr ?tr w w]
      history.Emit_cancel_keeps [of ?tr ?tr] by auto
  show ?thesis
    using assms keeps by (auto simp: Emit_def identified_def waitTurn_def Let_def split: option.split ActionType.split)
qed

text \<open>
  Guards. With a gate, an \<^verbatim>\<open>Emit\<close> leaves no trace at all, neither at the venue nor in the store nor at
  the gate, exactly when the work item has no usable identifier or asks for nothing; and it reports a
  missing or mismatched identifier exactly when the identifier is not usable.
\<close>

theorem Emit_no_effect_iff:
  assumes "em_gate e"
  shows "(snd (Emit env e w tr) = tr \<longleftrightarrow> \<not> identified w \<or> ac_Type (wk_Action w) = ActionNone) \<and>
    (fst (Emit env e w tr) \<in> {Some ErrMissingOrderIdentifier, Some ErrOrderIdentifierMismatch} \<longleftrightarrow> \<not> identified w)"
proof (intro conjI iffI)
  have none: "Emit env e w tr = (None, tr)" if "identified w" "ac_Type (wk_Action w) = ActionNone"
    using that by (auto simp: Emit_def identified_def Let_def)
  have bad: "snd (Emit env e w tr) = tr \<and>
      fst (Emit env e w tr) \<in> {Some ErrMissingOrderIdentifier, Some ErrOrderIdentifierMismatch}" if "\<not> identified w"
    using that by (auto simp: Emit_def identified_def)
  show "\<not> identified w \<or> ac_Type (wk_Action w) = ActionNone" if "snd (Emit env e w tr) = tr"
    using Emit_passes_gate [OF assms, of w env tr] that suffix_length_le [of "GateWait (en_Wait env tr) # tr" tr] by auto
  show "snd (Emit env e w tr) = tr" if "\<not> identified w \<or> ac_Type (wk_Action w) = ActionNone"
    using that none bad by (cases "identified w") auto
  show "fst (Emit env e w tr) \<in> {Some ErrMissingOrderIdentifier, Some ErrOrderIdentifierMismatch}" if "\<not> identified w"
    using bad [OF that] by simp
  show "\<not> identified w" if "fst (Emit env e w tr) \<in> {Some ErrMissingOrderIdentifier, Some ErrOrderIdentifierMismatch}"
    using Emit_identified_error [of w env e tr] that by auto
qed

section \<open>The queue and the emitters behind it\<close>

definition register_all :: "(VenueID \<times> 'e option) list \<Rightarrow> 'e QueueEmitter \<Rightarrow> 'e QueueEmitter" where
  "register_all rs e = fold (\<lambda>(v, em). Register v em) rs e"

lemma emitterFor_Register:
  "emitterFor v (Register v' em e) = (if v = v' \<and> em \<noteq> None then em else emitterFor v e)"
  by (auto simp: emitterFor_def Register_def split: option.split)

lemma register_all_keeps: "emitterFor v e \<noteq> None \<Longrightarrow> emitterFor v (register_all rs e) \<noteq> None"
proof (induction rs arbitrary: e)
  case (Cons r rs)
  have "emitterFor v (Register (fst r) (snd r) e) \<noteq> None"
    using Cons.prems by (auto simp: emitterFor_Register)
  from Cons.IH [OF this] show ?case by (simp add: register_all_def case_prod_beta)
qed (simp add: register_all_def)

text \<open>
  Admission. The queue takes a work item, at its end and unchanged, exactly when the item is
  identified and its venue has an emitter, and otherwise stays as it was. An item it took is
  never turned away later for its identifier or its venue: whatever is registered in the meantime,
  \<^verbatim>\<open>Dispatch\<close> hands it to an emitter, and the Hyperliquid emitter accepts its identifier.
\<close>

theorem queue_admission:
  fixes e :: "HyperLiquidEmitter QueueEmitter"
  assumes "queue_Emit w e = (r, e')"
  shows "(r = None \<longleftrightarrow> identified w \<and> emitterFor (oi_VenueID (wk_Identifier w)) e \<noteq> None) \<and>
    e' = (if r = None then e\<lparr>q := q e @ [w]\<rparr> else e) \<and>
    (if r = None then
       fst (Dispatch (Emit env) w (register_all rs e') tr)
         \<notin> {Some ErrMissingOrderIdentifier, Some ErrOrderIdentifierMismatch, Some (ErrUnregisteredVenueEmitter v)}
     else True)"
proof -
  have one: "r = None \<longleftrightarrow> identified w \<and> emitterFor (oi_VenueID (wk_Identifier w)) e \<noteq> None"
    and two: "e' = (if r = None then e\<lparr>q := q e @ [w]\<rparr> else e)"
    using assms by (auto simp: queue_Emit_def identified_def split: if_splits option.splits)
  have three: "fst (Dispatch (Emit env) w (register_all rs e') tr)
      \<notin> {Some ErrMissingOrderIdentifier, Some ErrOrderIdentifierMismatch, Some (ErrUnregisteredVenueEmitter v)}"
    if "r = None"
  proof -
    have w: "identified w" "wk_Identifier w \<noteq> zero_OrderIdentifier"
      and reg: "emitterFor (oi_VenueID (wk_Identifier w)) e' \<noteq> None"
      using that one two by (auto simp: identified_def emitterFor_def)
    from register_all_keeps [OF reg, of rs] obtain em where
      "emitterFor (oi_VenueID (wk_Identifier w)) (register_all rs e') = Some em" by blast
    then have "Dispatch (Emit env) w (register_all rs e') tr = Emit env em w tr"
      using w(2) by (simp add: Dispatch_def)
    then show ?thesis using Emit_identified_error [OF w(1), of env em tr] by auto
  qed
  show ?thesis using one two three by auto
qed

section \<open>Creates that are already satisfied\<close>

definition effect :: "hl_call \<Rightarrow> bool" where
  "effect c \<longleftrightarrow> venue_call c \<or> store_write c"

lemma quiet_ext_effects: "quiet_ext tr tr' \<Longrightarrow> filter effect tr' = filter effect tr"
  by (rule quiet_ext_filter) (auto simp: effect_def quiet_def)

lemma reconcile_live_satisfied:
  assumes "fst (reconcile_live env e w status tr) = Some ErrOrderAlreadySatisfied"
  shows "ordersMatch status (latest_submission (en_Load env tr (wk_Identifier w))) (ac_Create (wk_Action w))"
    and "snd (reconcile_live env e w status tr) = LoadSubmission (wk_Identifier w) # tr"
  using assms
  by (auto simp: reconcile_live_def Let_def split: if_splits prod.splits sum.splits
      dest!: arg_cong [where f = fst] submitModify_error)

lemma Emit_create_satisfied:
  assumes "fst (Emit_create env e ws w tr) = Some ErrOrderAlreadySatisfied"
  shows "\<exists>c status prev order tr1. ws = Some c \<and> quiet_ext tr tr1 \<and> en_Get env tr1 c (wk_OrderId w) = (status, True) \<and>
    isLiveStatus status \<and> ordersMatch status prev order \<and> quiet_ext tr (snd (Emit_create env e ws w tr))"
proof -
  obtain o1 tr1 where m: "setMarketPrice env ws (ac_Create (wk_Action w)) tr = (o1, tr1)"
    by (cases "setMarketPrice env ws (ac_Create (wk_Action w)) tr")
  obtain o2 tr2 where c: "constrain_order env e o1 tr1 = (o2, tr2)"
    by (cases "constrain_order env e o1 tr1")
  let ?w = "w\<lparr>wk_Action := (wk_Action w)\<lparr>ac_Create := o2\<rparr>\<rparr>"
  have place: "fst (place_order env e ws ?w t) \<noteq> Some ErrOrderAlreadySatisfied" for t
    using place_order_error [of env e ws ?w t] by auto
  obtain cl where cl: "ws = Some cl"
    using assms place by (auto simp: Emit_create_def m c Let_def split: option.splits)
  obtain status ok where g: "en_Get env tr2 cl (wk_OrderId w) = (status, ok)"
    by (cases "en_Get env tr2 cl (wk_OrderId w)")
  let ?tr = "WsGet cl (wk_OrderId w) # tr2"
  have live: "ok" "isLiveStatus status" and run: "Emit_create env e ws w tr = reconcile_live env e ?w status ?tr"
    using assms place g cl by (auto simp: Emit_create_def m [unfolded cl] c Let_def split: if_splits)
  note sat = reconcile_live_satisfied [of env e ?w status ?tr]
  have ext: "quiet_ext tr tr2" using m c by (rule market_constrain_quiet)
  then have "quiet_ext tr (snd (Emit_create env e ws w tr))"
    using sat(2) assms run by (simp add: quiet_ext_Cons)
  then show ?thesis using sat(1) assms run cl g live ext by auto
qed

text \<open>
  Idempotent creates. When a create is answered with \<^verbatim>\<open>ErrOrderAlreadySatisfied\<close>, the websocket
  client reported the order as live and the live order matches the desired one, and nothing was sent to
  the venue and nothing written to the store.
\<close>

theorem create_satisfied_sends_nothing:
  assumes "ac_Type (wk_Action w) = ActionCreate" and "fst (Emit env e w tr) = Some ErrOrderAlreadySatisfied"
  shows "filter effect (snd (Emit env e w tr)) = filter effect tr \<and>
    (\<exists>c t status prev order. wsFor e (oi_VenueID (wk_Identifier w)) = Some c \<and>
       en_Get env t c (wk_OrderId w) = (status, True) \<and> isLiveStatus status \<and> ordersMatch status prev order)"
proof -
  obtain r tr1 where t: "waitTurn env e tr = (r, tr1)" by (cases "waitTurn env e tr")
  let ?ws = "wsFor e (oi_VenueID (wk_Identifier w))"
  have run: "Emit env e w tr = Emit_create env e ?ws w tr1"
    using assms t by (auto simp: Emit_def Let_def split: if_splits option.splits)
  have "filter effect tr1 = filter effect tr"
    using t by (auto simp: waitTurn_def effect_def split: if_splits)
  with Emit_create_satisfied [of env e ?ws w tr1] quiet_ext_effects show ?thesis
    using assms(2) run by metis
qed

section \<open>What a modify leaves behind\<close>

definition modify_confirmed :: "emitter_env \<Rightarrow> HyperLiquidEmitter \<Rightarrow> OrderWork \<Rightarrow> ModifyOrderRequest \<Rightarrow> trace \<Rightarrow> bool" where
  "modify_confirmed env e w req tr \<longleftrightarrow> em_statusClient e \<and>
     (\<exists>cloid result wsOrder. mo_Cloid req = Some cloid \<and> en_Query env tr cloid = Inr (Some result) \<and>
        OrderQueryResultToWsOrder (wk_OrderId w) (Some result) = Inr (Some wsOrder) \<and>
        ordersMatch (Some wsOrder) (Some (mo_Order req)) (mo_Order req))"

lemma confirm_Inr_iff:
  "(\<exists>st. fst (confirmModifyViaStatus env e w req tr) = Inr st) \<longleftrightarrow> modify_confirmed env e w req tr"
  by (auto simp: confirmModifyViaStatus_def modify_confirmed_def Let_def OrderQueryResultToWsOrder_def
      split: option.splits sum.splits if_splits)

text \<open>
  Modifications. A modify request is written to the store, as the last write and under the work
  item's key, if the venue accepted it, or if the venue answered with an empty success and a status
  query shows the order in the requested state; in every other case nothing is written. The call
  reports success in these two cases and when the order was already filled or cancelled.
\<close>

theorem submitModify_persists_iff:
  "let accepted = (\<exists>resp. en_Modify env tr req = Inr resp);
       confirmed = (\<exists>err. en_Modify env tr req = Inl err \<and> Contains err missingModifyResponseDataFragment \<and>
         modify_confirmed env e w req (rate_limit_cooldown e err (CallModify req # tr)));
       closed = (\<exists>err. en_Modify env tr req = Inl err \<and> \<not> Contains err missingModifyResponseDataFragment \<and>
         Contains (ToLower err) cannotModifyFilledFragment)
   in filter store_write (snd (submitModify env e w req tr)) =
        (if accepted \<or> confirmed then [AppendModify (wk_Identifier w) req (RowID (wk_BotEvent w))] else [])
        @ filter store_write tr \<and>
      (isl (fst (submitModify env e w req tr)) \<longleftrightarrow> \<not> (accepted \<or> confirmed \<or> closed))"
proof (cases "en_Modify env tr req")
  case (Inr resp)
  then show ?thesis by (simp add: submitModify_def Let_def)
next
  case (Inl err)
  let ?cooled = "rate_limit_cooldown e err (CallModify req # tr)"
  obtain c tr2 where c: "confirmModifyViaStatus env e w req ?cooled = (c, tr2)"
    by (cases "confirmModifyViaStatus env e w req ?cooled")
  have "quiet_ext (CallModify req # tr) tr2"
    using quiet_ext_trans [OF rate_limit_cooldown_quiet confirm_quiet] c by (metis snd_conv)
  note writes = this [THEN quiet_ext_filter, of store_write]
    quiet_ext_filter [OF rate_limit_cooldown_quiet, of store_write e err "CallModify req # tr"]
  then have "filter store_write tr2 = filter store_write tr" "filter store_write ?cooled = filter store_write tr"
    by (auto simp: quiet_def)
  then show ?thesis
    using Inl c confirm_Inr_iff [of env e w req ?cooled]
    by (auto simp: submitModify_def Let_def split: sum.splits)
qed

section \<open>Rounding to eight decimals\<close>

lemma Pow10_8: "math_Pow10 8 = Fin 100000000"
  using fl64_of_int [of 100000000] by (simp add: math_Pow10_def)

lemma rhe_error: "\<bar>of_int (rhe y) - y\<bar> \<le> 1 / 2"
  and rhe_tie: "\<bar>of_int (rhe y) - y\<bar> = 1 / 2 \<Longrightarrow> even (rhe y)"
proof -
  obtain n where n: "\<lfloor>y\<rfloor> = n" "of_int n \<le> y" "y < of_int n + 1"
    using floor_correct [of y] that [of "\<lfloor>y\<rfloor>"] by simp
  then show "\<bar>of_int (rhe y) - y\<bar> \<le> 1 / 2" "\<bar>of_int (rhe y) - y\<bar> = 1 / 2 \<Longrightarrow> even (rhe y)"
    by (auto simp: rhe_def Let_def abs_if split: if_splits)
qed

lemma rhe_trunc_nonneg:
  assumes "0 \<le> a"
  shows "rhe a = (let t = trunc a; d = \<bar>a - of_int t\<bar> in
     if d < 1 / 2 then t else if 1 / 2 < d then t + 1 else if even t then t else t + 1)"
proof -
  obtain n where "\<lfloor>a\<rfloor> = n" "of_int n \<le> a" "a < of_int n + 1"
    using floor_correct [of a] that [of "\<lfloor>a\<rfloor>"] by simp
  then show ?thesis using assms by (auto simp: rhe_def trunc_def Let_def abs_if)
qed

lemma trunc_minus: "trunc (- a) = - trunc a"
  by (auto simp: trunc_def ceiling_def)

lemma rhe_trunc:
  "rhe a = (let t = trunc a; d = \<bar>a - of_int t\<bar> in
     if d < 1 / 2 then t
     else if 1 / 2 < d then (if 0 < a then t + 1 else t - 1)
     else if even t then t else if 0 < a then t + 1 else t - 1)"
proof (cases "0 \<le> a")
  case True
  have "trunc 0 = 0" by (simp add: trunc_def)
  then show ?thesis using rhe_trunc_nonneg [OF True] True by (cases "a = 0") (auto simp: Let_def)
next
  case False
  have "\<bar>- a - of_int (- trunc a)\<bar> = \<bar>a - of_int (trunc a)\<bar>" by (simp add: abs_if)
  then show ?thesis
    using False rhe_trunc_nonneg [of "- a"] by (simp add: trunc_minus Let_def abs_minus_commute split: if_splits)
qed

lemma valid_nonint_bound:
  assumes "valid_f64 (Fin a)" and "a \<noteq> of_int (trunc a)"
  shows "\<bar>a\<bar> \<le> 2 ^ 52"
proof -
  obtain m qe where mq: "- 1074 \<le> qe" "\<bar>m\<bar> \<le> 2 ^ 53" "a = of_int m * pow2 qe"
    using valid_Fin_representable [OF assms(1)] unfolding representable_def by blast
  have "qe < 0"
  proof (rule ccontr)
    assume "\<not> qe < 0"
    then have "a = of_int (m * 2 ^ nat qe)" using mq(3) by (simp add: pow2_nat)
    then have "a = of_int (trunc a)" by (simp add: trunc_def)
    with assms(2) show False by simp
  qed
  then have "pow2 qe \<le> pow2 (- 1)" by (intro pow2_mono) simp
  then have "\<bar>of_int m\<bar> * pow2 qe \<le> 2 ^ 53 * pow2 (- 1)"
    using mq(2) by (intro mult_mono) (simp_all flip: of_int_abs)
  then show ?thesis
    using mq(3) by (simp add: abs_mult pow2_def power_int_minus)
qed

lemma trunc_bound:
  assumes "\<bar>a\<bar> \<le> of_int n"
  shows "\<bar>trunc a\<bar> \<le> n"
proof -
  have "\<bar>\<lfloor>b\<rfloor>\<bar> \<le> n" if "0 \<le> b" "b \<le> of_int n" for b :: rat
    using that by (simp add: floor_le_iff)
  from this [of a] this [of "- a"] show ?thesis
    using assms by (cases "0 \<le> a") (simp_all add: trunc_def ceiling_def)
qed

lemma fl64_trunc:
  assumes "valid_f64 (Fin a)"
  shows "fl64 (of_int (trunc a)) = Fin (of_int (trunc a))"
proof (cases "a = of_int (trunc a)")
  case True
  then show ?thesis using assms by (metis valid_f64.simps(1))
next
  case False
  then have "\<bar>trunc a\<bar> \<le> 2 ^ 52" using valid_nonint_bound [OF assms] by (intro trunc_bound) simp
  then show ?thesis by (intro fl64_of_int) simp
qed

lemma RoundHalfEven_Fin:
  assumes "x * math_Pow10 8 = Fin a"
  shows "RoundHalfEven x = fdiv (fl64 (of_int (rhe a))) (Fin 100000000)"
proof -
  let ?t = "trunc a"
  have valid: "valid_f64 (Fin a)" using assms valid_f64_times by metis
  note t = fl64_trunc [OF valid]
  have plus: "Fin (of_int ?t) + 1 = fl64 (of_int (?t + 1))" "Fin (of_int ?t) - 1 = fl64 (of_int (?t - 1))"
    by (simp_all add: one_f64_def)
  have tie: "go_int (math_Abs (Fin (of_int ?t))) mod 2 = 0 \<longleftrightarrow> even ?t" if "a \<noteq> of_int ?t"
  proof -
    have "\<bar>?t\<bar> \<le> 2 ^ 52" using valid_nonint_bound [OF valid that] by (intro trunc_bound) simp
    then show ?thesis
      by (auto simp: math_Abs_def even_iff_mod_2_eq_zero [symmetric] Let_def simp flip: of_int_abs)
  qed
  show ?thesis
  proof (cases "a = of_int ?t")
    case True
    then have "rhe a = ?t" by (metis rhe_of_int)
    then show ?thesis
      using True t by (simp add: RoundHalfEven_def assms Pow10_8 [symmetric] math_Abs_def del: fdiv.simps)
  next
    case False
    note parity = tie [OF False, unfolded math_Abs_def abs_f64.simps]
    show ?thesis
      using t plus
      by (auto simp: RoundHalfEven_def assms Pow10_8 [symmetric] math_Abs_def rhe_trunc [of a] Let_def zero_f64_def
          parity simp del: plus_f64.simps fdiv.simps go_int.simps)
  qed
qed

lemma RoundHalfEven_mono:
  assumes "x \<le> y"
  shows "RoundHalfEven x \<le> RoundHalfEven y"
proof -
  have le: "x * math_Pow10 8 \<le> y * math_Pow10 8"
    using assms times_pos_mono [of 100000000 x y] by (simp add: Pow10_8)
  have inf: "RoundHalfEven z = z * math_Pow10 8" if "z * math_Pow10 8 \<in> {PInf, NInf}" for z
    using that by (auto simp: RoundHalfEven_def Pow10_8 math_Abs_def Let_def less_f64_def)
  have mono: "fdiv (fl64 (of_int (rhe a))) (Fin 100000000) \<le> fdiv (fl64 (of_int (rhe b))) (Fin 100000000)"
    if "a \<le> b" for a b
    using that by (intro fdiv_pos_mono fl64_mono) (simp_all add: rhe_mono)
  have notnan: "\<not> is_nan (fdiv (fl64 r) (Fin 100000000))" for r
    using fl64_cases [of r] by auto
  show ?thesis
    using le inf [of x] inf [of y] mono notnan
    by (cases "x * math_Pow10 8"; cases "y * math_Pow10 8") (auto simp: RoundHalfEven_Fin)
qed

text \<open>
  Rounding to eight decimals. When the scaled value is finite, \<^verbatim>\<open>RoundHalfEven\<close> returns the float
  nearest to a whole number of hundred-millionths that is within one half of the scaled value, the
  even one on a tie; and it preserves the order of any two values.
\<close>

theorem RoundHalfEven_nearest:
  assumes "x * math_Pow10 8 = Fin a"
  shows "(\<exists>k. RoundHalfEven x = fdiv (fl64 (of_int k)) (Fin 100000000) \<and> \<bar>of_int k - a\<bar> \<le> 1 / 2 \<and>
      (if \<bar>of_int k - a\<bar> = 1 / 2 then even k else True)) \<and>
    (if x \<le> y then RoundHalfEven x \<le> RoundHalfEven y else True)"
proof -
  show ?thesis
    using RoundHalfEven_Fin [OF assms] rhe_error [of a] rhe_tie [of a] RoundHalfEven_mono [of x y] by auto
qed

subsection \<open>The price offset of IOC orders\<close>

lemma RoundHalfEven_0: "RoundHalfEven 0 = 0"
  using RoundHalfEven_Fin [of 0 0] rhe_of_int [of 0] by (simp add: Pow10_8 zero_f64_def)

lemma bump_ratio_pos: "\<exists>r. iocRetryBumpRatio = Fin r \<and> 0 < r"
proof -
  have "0 < iocRetryBumpRatio \<and> is_fin iocRetryBumpRatio" by code_simp
  then show ?thesis by (metis f64_less_Fin is_fin_iff zero_f64_def)
qed

lemma ioc_offset_ratio_nonneg:
  assumes "0 \<le> InitialIOCOffsetBps cfg" and "0 \<le> attempt"
  shows "0 \<le> ioc_offset_ratio cfg attempt"
proof -
  have z: "0 \<le> (0 :: f64)" by (simp add: zero_f64_def)
  have "0 \<le> fdiv (InitialIOCOffsetBps cfg) (Fin 10000)"
    using assms(1) by (cases "InitialIOCOffsetBps cfg") (auto simp: fl64_nonneg [unfolded zero_f64_def] zero_f64_def)
  then have first: "0 \<le> 0 + fdiv (InitialIOCOffsetBps cfg) (Fin 10000)"
    by (rule f64_add_nonneg [OF z])
  obtain r where r: "iocRetryBumpRatio = Fin r" "0 < r" using bump_ratio_pos by blast
  have "0 \<le> fl64 (of_int attempt)" using assms(2) by (simp add: fl64_nonneg)
  then have "0 \<le> fl64 (of_int attempt) * iocRetryBumpRatio"
    using r(2) unfolding r(1) by (cases "fl64 (of_int attempt)") (auto simp: fl64_nonneg [unfolded zero_f64_def] zero_f64_def)
  then have "0 \<le> 0 + fl64 (of_int attempt) * iocRetryBumpRatio" by (rule f64_add_nonneg [OF z])
  with first assms(2) show ?thesis by (auto simp: ioc_offset_ratio_def Let_def)
qed

lemma scale_above:
  assumes "valid_f64 (Fin a)" and "0 < a" and "0 \<le> r"
  shows "Fin a \<le> Fin a * (1 + r)"
proof -
  have "1 \<le> 1 + r"
    using assms(3) fl64_mono [of 1] fl64_of_int [of 1] by (cases r) (auto simp: one_f64_def zero_f64_def)
  then show ?thesis
    using assms fl64_mono [of a "a * _"] by (cases "1 + r") (auto simp: one_f64_def)
qed

lemma scale_below:
  assumes "valid_f64 (Fin a)" and "0 < a" and "0 \<le> r"
  shows "Fin a * (if 1 - r < 0 then 0 else 1 - r) \<le> Fin a" "0 \<le> Fin a * (if 1 - r < 0 then 0 else 1 - r)"
proof -
  have "1 - r \<le> 1"
    using assms(3) fl64_mono [of _ 1] fl64_of_int [of 1] by (cases r) (auto simp: one_f64_def minus_f64_def zero_f64_def)
  then obtain c where c: "(if 1 - r < 0 then 0 else 1 - r) = Fin c" "0 \<le> c" "c \<le> 1"
  proof (cases "1 - r")
    case (Fin d)
    show thesis
    proof (cases "d < 0")
      case True
      with Fin show thesis by (intro that [of 0]) (simp_all add: zero_f64_def)
    next
      case False
      with Fin \<open>1 - r \<le> 1\<close> show thesis by (intro that [of d]) (simp_all add: zero_f64_def one_f64_def)
    qed
  qed (use that [of 0] in \<open>auto simp: one_f64_def zero_f64_def less_f64_def\<close>)
  have "a * c \<le> a" using c assms(2) mult_left_mono [of c 1 a] by simp
  then show "Fin a * (if 1 - r < 0 then 0 else 1 - r) \<le> Fin a"
    using assms(1) c fl64_mono [of "a * c" a] by simp
  show "0 \<le> Fin a * (if 1 - r < 0 then 0 else 1 - r)"
    using c assms(2) by (simp add: fl64_nonneg)
qed

text \<open>
  Direction of the IOC offset. The offset moves a buy up and a sell down, never the other way, and
  never below zero: the new price of a buy is not below, that of a sell not above, the price rounded
  to eight decimals; and it changes nothing but the price.
\<close>

theorem applyIOCOffset_direction:
  assumes "cr_Price order = Fin a" and "valid_f64 (Fin a)" and "0 < a"
    and "0 \<le> InitialIOCOffsetBps cfg" and "0 \<le> attempt"
  shows "\<exists>p. applyIOCOffset cfg order attempt = order\<lparr>cr_Price := p\<rparr> \<and> 0 \<le> p \<and>
    (p = Fin a \<or> (if cr_IsBuy order then RoundHalfEven (Fin a) \<le> p else p \<le> RoundHalfEven (Fin a)))"
proof -
  let ?r = "ioc_offset_ratio cfg attempt"
  have r: "0 \<le> ?r" using assms(4,5) by (rule ioc_offset_ratio_nonneg)
  let ?buy = "Fin a * (1 + ?r)" and ?sell = "Fin a * (if 1 - ?r < 0 then 0 else 1 - ?r)"
  have up: "RoundHalfEven (Fin a) \<le> RoundHalfEven ?buy"
    using scale_above [OF assms(2,3) r] by (rule RoundHalfEven_mono)
  have down: "RoundHalfEven ?sell \<le> RoundHalfEven (Fin a)"
    using scale_below(1) [OF assms(2,3) r] by (rule RoundHalfEven_mono)
  have "0 \<le> Fin a" using assms(3) by simp
  then have "0 \<le> ?buy" using scale_above [OF assms(2,3) r] by (rule f64_le_trans)
  then have pos: "0 \<le> RoundHalfEven ?buy" "0 \<le> RoundHalfEven ?sell"
    using scale_below(2) [OF assms(2,3) r] RoundHalfEven_mono [of 0] by (auto simp: RoundHalfEven_0)
  have same: "order = order\<lparr>cr_Price := Fin a\<rparr>" using assms(1) by simp
  have cases: "applyIOCOffset cfg order attempt = order \<or>
      applyIOCOffset cfg order attempt = order\<lparr>cr_Price := RoundHalfEven (if cr_IsBuy order then ?buy else ?sell)\<rparr>"
    using assms(1) by (simp add: applyIOCOffset_def Let_def del: times_f64.simps)
  then show ?thesis
  proof
    assume "applyIOCOffset cfg order attempt = order"
    then show ?thesis using same \<open>0 \<le> Fin a\<close> by (metis (no_types))
  next
    assume "applyIOCOffset cfg order attempt = order\<lparr>cr_Price := RoundHalfEven (if cr_IsBuy order then ?buy else ?sell)\<rparr>"
    then show ?thesis using up down pos by (cases "cr_IsBuy order") auto
  qed
qed

lemma constrainPrice_total:
  "valid_f64 price \<Longrightarrow> fst (constrainPrice env e coin price tr) \<noteq> None"
  using roundToSig_total [of price]
  by (auto simp: constrainPrice_def RoundPrice_def Let_def split: sum.split)

section \<open>Concrete runs\<close>

definition sample_live :: WsOrder where
  "sample_live = \<lparr>ws_Order = \<lparr>wo_Coin = ''DOGE'', wo_Side = ''B'', wo_LimitPx = ''0.25'', wo_Sz = ''40'',
     wo_Oid = 7, wo_Timestamp = 0, wo_OrigSz = ''40'', wo_Cloid = None\<rparr>, ws_Status = ''open'', ws_StatusTimestamp = 0\<rparr>"

definition sample_create :: CreateOrderRequest where
  "sample_create = zero_Create\<lparr>cr_Coin := ''DOGE'', cr_IsBuy := True, cr_Price := Fin (1 / 4), cr_Size := Fin 40,
     cr_OrderType := \<lparr>ot_Limit = Some TifIoc, ot_Trigger = None\<rparr>\<rparr>"

definition sample_work :: OrderWork where
  "sample_work = \<lparr>wk_Identifier = \<lparr>oi_VenueID = ''hl'', oi_Wallet = ''w'', oi_OrderId = \<lparr>BotID = 1, DealID = 2, BotEventID = 3\<rparr>\<rparr>,
     wk_OrderId = \<lparr>BotID = 1, DealID = 2, BotEventID = 3\<rparr>,
     wk_Action = zero_Action\<lparr>ac_Type := ActionCreate, ac_Create := sample_create\<rparr>, wk_BotEvent = zero_BotEvent\<rparr>"

text \<open>A venue that never fills an IOC order, and a websocket client that knows the order as live.\<close>

definition venue_env :: emitter_env where
  "venue_env = \<lparr>en_Wait = (\<lambda>_. None), en_BBO = (\<lambda>_ _ _. None), en_Get = (\<lambda>_ _ _. (Some sample_live, True)),
     en_Resolve = (\<lambda>_ _. Inl []),
     en_Order = (\<lambda>_ _. Inl ''Order could not immediately match against any resting orders''),
     en_Cancel = (\<lambda>_ _ _. None), en_Modify = (\<lambda>_ _. Inl []), en_Query = (\<lambda>_ _. Inr None),
     en_Load = (\<lambda>_ _. Inr (Some (wk_Action sample_work)))\<rparr>"

definition sample_emitter :: "nat option \<Rightarrow> HyperLiquidEmitter" where
  "sample_emitter c = NewHyperLiquidEmitter ''hl'' c False []"

lemma sample_emitter_gate: "em_gate (sample_emitter c)"
  by (simp add: sample_emitter_def NewHyperLiquidEmitter_def RegisterWsClient_def Let_def split: option.split)


theorem Emit_no_effect_iff_witness:
  "snd (Emit venue_env (sample_emitter None) (sample_work\<lparr>wk_OrderId := \<lparr>BotID = 1, DealID = 2, BotEventID = 4\<rparr>\<rparr>) []) = [] \<and>
   snd (Emit venue_env (sample_emitter None) sample_work []) \<noteq> []"
proof
  let ?bad = "sample_work\<lparr>wk_OrderId := \<lparr>BotID = 1, DealID = 2, BotEventID = 4\<rparr>\<rparr>"
  have "\<not> identified ?bad" by (simp add: identified_def sample_work_def zero_OrderIdentifier_def zero_OrderId_def)
  then show "snd (Emit venue_env (sample_emitter None) ?bad []) = []"
    using Emit_no_effect_iff [OF sample_emitter_gate] by blast
  have "identified sample_work" "ac_Type (wk_Action sample_work) \<noteq> ActionNone"
    by (simp_all add: identified_def sample_work_def zero_OrderIdentifier_def zero_OrderId_def)
  then show "snd (Emit venue_env (sample_emitter None) sample_work []) \<noteq> []"
    using Emit_no_effect_iff [OF sample_emitter_gate] by blast
qed

theorem queue_admission_witness:
  "\<exists>e'. queue_Emit sample_work (Register ''hl'' (Some (sample_emitter None)) NewQueueEmitter) = (None, e') \<and>
     q e' = [sample_work] \<and>
     fst (Dispatch (Emit venue_env) sample_work (register_all [] e') []) \<noteq> Some ErrMissingOrderIdentifier"
proof -
  let ?e = "Register ''hl'' (Some (sample_emitter None)) NewQueueEmitter"
  obtain r e' where e: "queue_Emit sample_work ?e = (r, e')" by (cases "queue_Emit sample_work ?e")
  have "identified sample_work" "emitterFor (oi_VenueID (wk_Identifier sample_work)) ?e \<noteq> None"
    by (simp_all add: identified_def sample_work_def zero_OrderIdentifier_def emitterFor_Register)
  then have r: "r = None" using queue_admission [OF e] by simp
  then have "q e' = [sample_work]" "fst (Dispatch (Emit venue_env) sample_work (register_all [] e') []) \<noteq> Some ErrMissingOrderIdentifier"
    using queue_admission [OF e, where env = venue_env and rs = "[]" and tr = "[]" and v = "[]"]
    by (auto simp: Register_def NewQueueEmitter_def)
  with e r show ?thesis by auto
qed

lemma sample_satisfied:
  "fst (Emit venue_env (sample_emitter (Some 0)) sample_work []) = Some ErrOrderAlreadySatisfied"
  by code_simp

theorem create_satisfied_sends_nothing_witness:
  "filter effect (snd (Emit venue_env (sample_emitter (Some 0)) sample_work [])) = [] \<and> isLiveStatus (Some sample_live)"
proof
  have "ac_Type (wk_Action sample_work) = ActionCreate" by (simp add: sample_work_def)
  then show "filter effect (snd (Emit venue_env (sample_emitter (Some 0)) sample_work [])) = []"
    using create_satisfied_sends_nothing [OF _ sample_satisfied] by simp
qed code_simp

theorem RoundHalfEven_nearest_witness:
  "RoundHalfEven (Fin (1 / 4)) = Fin (1 / 4) \<and> RoundHalfEven (Fin (1 / 4)) \<le> RoundHalfEven (Fin (1 / 2))"
proof
  have "Fin (1 / 4) * math_Pow10 8 = Fin 25000000" by code_simp
  then show "RoundHalfEven (Fin (1 / 4)) \<le> RoundHalfEven (Fin (1 / 2))"
    using RoundHalfEven_nearest [of "Fin (1 / 4)" 25000000 "Fin (1 / 2)"] by simp
qed code_simp

theorem applyIOCOffset_direction_witness:
  "RoundHalfEven (Fin (1 / 4)) \<le> cr_Price (applyIOCOffset defaultHyperLiquidEmitterConfig sample_create 1) \<and>
   cr_Price (applyIOCOffset defaultHyperLiquidEmitterConfig sample_create 1) \<noteq> Fin (1 / 4)"
proof -
  let ?o = "applyIOCOffset defaultHyperLiquidEmitterConfig sample_create 1"
  have ne: "cr_Price ?o \<noteq> Fin (1 / 4)" by code_simp
  have "valid_f64 (Fin (1 / 4))" by code_simp
  moreover have "cr_Price sample_create = Fin (1 / 4)" "cr_IsBuy sample_create" by (simp_all add: sample_create_def)
  moreover have "0 \<le> InitialIOCOffsetBps defaultHyperLiquidEmitterConfig"
    by (simp add: defaultHyperLiquidEmitterConfig_def zero_f64_def)
  ultimately show ?thesis
    using applyIOCOffset_direction [of sample_create "1 / 4" defaultHyperLiquidEmitterConfig 1] ne by auto
qed

end
