(* ===== verification/Sql_Table.thy ===== *)
theory Sql_Table
  imports Fill_Tracker "HOL-Library.Product_Lexorder"
begin

text \<open>
  The SQL the queries of \<open>Database\<close> are written in: tables, the statements the program uses on
  them, and JSON columns.

  A table is the list of its rows in insertion order. A row is a record; a unique index is a key
  function on rows. \<open>ORDER BY\<close> is a stable sort by a key (ties in insertion order; every use
  whose ties could matter orders by a unique column last). Text columns compare bytewise, which is
  SQLite's \<^verbatim>\<open>BINARY\<close> collation and the lexicographic order on \<^typ>\<open>string\<close>.

  The database engine is taken to work: I/O failures are not modelled. What a statement can report
  is the absence of a row, a violated constraint and malformed JSON. Foreign keys are not
  enforced: SQLite checks them only after \<^verbatim>\<open>PRAGMA foreign_keys = ON\<close>, which neither the schema nor
  \<^verbatim>\<open>storage.New\<close> issues.
\<close>

section \<open>JSON columns\<close>

text \<open>
  A column that holds what \<^verbatim>\<open>json.Marshal\<close> produced for a value holds that value (encoding and
  decoding the program's structs is the identity); any other content is text that is not JSON,
  which \<^verbatim>\<open>json.Unmarshal\<close> and SQLite's JSON functions reject.
\<close>

datatype 'a blob = Doc 'a | NotJson string

fun json_valid :: "'a blob \<Rightarrow> bool" where
  "json_valid (Doc _) = True"
| "json_valid (NotJson _) = False"

fun Unmarshal :: "'a blob \<Rightarrow> store_error + 'a" where
  "Unmarshal (Doc x) = Inr x"
| "Unmarshal (NotJson s) = Inl (StoreErr ''invalid JSON'')"

definition malformed_json :: store_error where
  "malformed_json = StoreErr ''malformed JSON''"

definition unique_failed :: store_error where
  "unique_failed = StoreErr ''UNIQUE constraint failed''"

definition check_failed :: store_error where
  "check_failed = StoreErr ''CHECK constraint failed''"

section \<open>Statements\<close>

text \<open>\<open>INSERT ... ON CONFLICT(key) DO UPDATE\<close>: \<open>mrg old new\<close> is the row the update leaves.\<close>

fun upsert :: "('r \<Rightarrow> 'k) \<Rightarrow> ('r \<Rightarrow> 'r \<Rightarrow> 'r) \<Rightarrow> 'r \<Rightarrow> 'r list \<Rightarrow> 'r list" where
  "upsert key mrg new [] = [new]"
| "upsert key mrg new (r # rows) =
     (if key r = key new then mrg r new # rows else r # upsert key mrg new rows)"

text \<open>\<open>INSERT ... ON CONFLICT(key) DO NOTHING\<close> and a plain \<open>INSERT\<close>.\<close>

definition insert_ignore :: "('r \<Rightarrow> 'k) \<Rightarrow> 'r \<Rightarrow> 'r list \<Rightarrow> 'r list" where
  "insert_ignore key new rows = (if key new \<in> key ` set rows then rows else rows @ [new])"

definition insert_row :: "('r \<Rightarrow> 'k) \<Rightarrow> 'r \<Rightarrow> 'r list \<Rightarrow> store_error + 'r list" where
  "insert_row key new rows =
     (if key new \<in> key ` set rows then Inl unique_failed else Inr (rows @ [new]))"

definition delete_where :: "('r \<Rightarrow> bool) \<Rightarrow> 'r list \<Rightarrow> 'r list" where
  "delete_where P rows = filter (\<lambda>r. \<not> P r) rows"

definition update_where :: "('r \<Rightarrow> bool) \<Rightarrow> ('r \<Rightarrow> 'r) \<Rightarrow> 'r list \<Rightarrow> 'r list" where
  "update_where P f rows = map (\<lambda>r. if P r then f r else r) rows"

definition fetch :: "('r \<Rightarrow> 'k) \<Rightarrow> 'k \<Rightarrow> 'r list \<Rightarrow> 'r option" where
  "fetch key k rows = find (\<lambda>r. key r = k) rows"

text \<open>\<open>:one\<close> queries: the first row, or \<^verbatim>\<open>sql.ErrNoRows\<close>.\<close>

fun one :: "'r list \<Rightarrow> store_error + 'r" where
  "one [] = Inl ErrNoRows"
| "one (r # rows) = Inr r"

definition order_by :: "('r \<Rightarrow> 'k :: linorder) \<Rightarrow> 'r list \<Rightarrow> 'r list" where
  "order_by k rows = sort_key k rows"

text \<open>\<open>LIMIT n\<close>: a negative limit is no limit.\<close>

definition limit_rows :: "int \<Rightarrow> 'r list \<Rightarrow> 'r list" where
  "limit_rows n rows = (if n < 0 then rows else take (nat n) rows)"

text \<open>\<open>?1 IS NULL OR P ?1\<close>.\<close>

definition null_or :: "'a option \<Rightarrow> ('a \<Rightarrow> bool) \<Rightarrow> bool" where
  "null_or x P = (case x of None \<Rightarrow> True | Some v \<Rightarrow> P v)"

text \<open>
  \<open>x LIKE p\<close>: \<^verbatim>\<open>%\<close> stands for any text and \<^verbatim>\<open>_\<close> for one character; the case of ASCII letters is
  ignored. \<open>like_prefix\<close> is \<open>x LIKE p || '%'\<close>.
\<close>

fun sql_like :: "string \<Rightarrow> string \<Rightarrow> bool" where
  "sql_like x [] = (x = [])"
| "sql_like [] (c # p) = (c = CHR ''%'' \<and> sql_like [] p)"
| "sql_like (a # x) (c # p) =
     (if c = CHR ''%'' then sql_like (a # x) p \<or> sql_like x (c # p)
      else (c = CHR ''_'' \<or> lower_char a = lower_char c) \<and> sql_like x p)"

definition like_prefix :: "string \<Rightarrow> string \<Rightarrow> bool" where
  "like_prefix x p = sql_like x (p @ ''%'')"

section \<open>Laws\<close>

named_theorems table_simps \<open>what the statements do to a table\<close>

definition keys_unique :: "('r \<Rightarrow> 'k) \<Rightarrow> 'r list \<Rightarrow> bool" where
  "keys_unique key rows = distinct (map key rows)"

lemma sql_like_any [simp]: "sql_like x ''%''"
  by (induction x) simp_all

lemma sql_like_percent: "sql_like x p \<Longrightarrow> sql_like x (CHR ''%'' # p)"
  by (cases x) simp_all

text \<open>Whatever begins with the prefix matches, up to case.\<close>

lemma like_prefix_append: "ToLower y = ToLower p \<Longrightarrow> like_prefix (y @ t) p"
proof (induction p arbitrary: y)
  case Nil
  then show ?case by (simp add: like_prefix_def)
next
  case (Cons c p)
  then obtain a y' where y: "y = a # y'" "lower_char a = lower_char c" "ToLower y' = ToLower p"
    by (cases y) (auto simp: ToLower_def)
  have "sql_like (y' @ t) (p @ ''%'')" using Cons.IH [OF y(3)] by (simp add: like_prefix_def)
  then show ?case using y(1,2) sql_like_percent [of "y' @ t" "p @ ''%''"] by (auto simp: like_prefix_def)
qed

text \<open>The table as a map from keys to rows.\<close>

definition table_map :: "('r \<Rightarrow> 'k) \<Rightarrow> 'r list \<Rightarrow> 'k \<Rightarrow> 'r option" where
  "table_map key rows = (\<lambda>k. fetch key k rows)"

lemma fetch_Some: "fetch key k rows = Some r \<Longrightarrow> r \<in> set rows \<and> key r = k"
  by (auto simp: fetch_def find_Some_iff)

lemma fetch_None: "fetch key k rows = None \<longleftrightarrow> k \<notin> key ` set rows"
  by (auto simp: fetch_def find_None_iff)

lemma fetch_Nil [simp]: "fetch key k [] = None"
  by (simp add: fetch_def)

lemma fetch_Cons: "fetch key k (r # rows) = (if key r = k then Some r else fetch key k rows)"
  by (simp add: fetch_def)

lemma fetch_append:
  "fetch key k (xs @ ys) = (case fetch key k xs of None \<Rightarrow> fetch key k ys | Some r \<Rightarrow> Some r)"
  by (induction xs) (simp_all add: fetch_Cons)

lemma fetch_unique:
  "keys_unique key rows \<Longrightarrow> r \<in> set rows \<Longrightarrow> fetch key (key r) rows = Some r"
  by (induction rows) (auto simp: keys_unique_def fetch_Cons)

lemma fetch_filter_key:
  "fetch key k (filter (\<lambda>r. P (key r)) rows) = (if P k then fetch key k rows else None)"
  by (induction rows) (auto simp: fetch_Cons)

lemma one_filter: "one (filter (\<lambda>r. key r = k) rows) =
    (case fetch key k rows of None \<Rightarrow> Inl ErrNoRows | Some r \<Rightarrow> Inr r)"
  by (induction rows) (auto simp: fetch_Cons)

lemma keys_unique_Nil [simp]: "keys_unique key []"
  by (simp add: keys_unique_def)

lemma keys_unique_filter [table_simps]: "keys_unique key rows \<Longrightarrow> keys_unique key (filter P rows)"
  by (simp add: keys_unique_def distinct_map_filter)

lemma keys_unique_snoc [table_simps]:
  "keys_unique key (rows @ [new]) \<longleftrightarrow> keys_unique key rows \<and> key new \<notin> key ` set rows"
  by (auto simp: keys_unique_def)

lemma keys_unique_insert_ignore [table_simps]:
  "keys_unique key rows \<Longrightarrow> keys_unique key (insert_ignore key new rows)"
  by (simp add: insert_ignore_def keys_unique_snoc)

lemma keys_unique_insert_row [table_simps]:
  "keys_unique key rows \<Longrightarrow> insert_row key new rows = Inr rows' \<Longrightarrow> keys_unique key rows'"
  by (auto simp: insert_row_def keys_unique_snoc split: if_splits)

lemma keys_unique_delete [table_simps]: "keys_unique key rows \<Longrightarrow> keys_unique key (delete_where P rows)"
  by (simp add: delete_where_def keys_unique_filter)

lemma keys_unique_update [table_simps]:
  "(\<And>r. key (f r) = key r) \<Longrightarrow> keys_unique key (update_where P f rows) = keys_unique key rows"
  by (auto simp: keys_unique_def update_where_def comp_def if_distrib cong: if_cong)

lemma fetch_insert_ignore:
  "fetch key k (insert_ignore key new rows) =
     (if k = key new \<and> fetch key k rows = None then Some new else fetch key k rows)"
proof (cases "fetch key (key new) rows")
  case None
  then have "insert_ignore key new rows = rows @ [new]"
    by (simp add: insert_ignore_def fetch_None)
  then show ?thesis
    using None by (auto simp: fetch_append fetch_Cons split: option.splits)
next
  case (Some r)
  then have "insert_ignore key new rows = rows"
    by (simp add: insert_ignore_def) (metis fetch_None option.distinct(1))
  then show ?thesis using Some by auto
qed

lemma set_insert_ignore: "set (insert_ignore key new rows) \<subseteq> insert new (set rows)"
  by (auto simp: insert_ignore_def)

lemma set_insert_row: "insert_row key new rows = Inr rows' \<Longrightarrow> set rows' = insert new (set rows)"
  by (auto simp: insert_row_def split: if_splits)

lemma insert_row_Inr: "insert_row key new rows = Inr rows' \<longleftrightarrow>
    key new \<notin> key ` set rows \<and> rows' = rows @ [new]"
  by (auto simp: insert_row_def)

lemma set_order_by [simp]: "set (order_by k rows) = set rows"
  by (simp add: order_by_def)

lemma order_by_Nil [simp]: "order_by k [] = []" "order_by k rows = [] \<longleftrightarrow> rows = []"
  by (simp_all add: order_by_def) (metis length_0_conv length_sort)

lemma sorted_order_by: "sorted (map k (order_by k rows))"
  by (simp add: order_by_def)

lemma mset_order_by [simp]: "mset (order_by k rows) = mset rows"
  by (simp add: order_by_def)

lemma distinct_order_by [simp]: "distinct (map f (order_by k rows)) = distinct (map f rows)"
  using mset_order_by [of k rows] by (metis mset_eq_imp_distinct_iff mset_map)

lemma one_order_by_least:
  assumes "one (order_by k rows) = Inr r"
  shows "r \<in> set rows" and "\<And>x. x \<in> set rows \<Longrightarrow> k r \<le> k x"
proof -
  obtain rest where e: "order_by k rows = r # rest"
    using assms by (cases "order_by k rows") auto
  then show "r \<in> set rows" by (metis list.set_intros(1) set_order_by)
  fix x assume "x \<in> set rows"
  then have "x \<in> set (r # rest)" using e by (metis set_order_by)
  then show "k r \<le> k x" using sorted_order_by [of k rows] by (auto simp: e)
qed

lemma one_ErrNoRows [simp]: "one rows = Inl e \<longleftrightarrow> rows = [] \<and> e = ErrNoRows"
  by (cases rows) auto

text \<open>
  A table with a key whose conflict update keeps the key. Seen as a map from keys to rows, an
  upsert is one map update, and the unique index stays intact.
\<close>

locale keyed_table =
  fixes key :: "'r \<Rightarrow> 'k" and mrg :: "'r \<Rightarrow> 'r \<Rightarrow> 'r"
  assumes key_mrg: "key old = key new \<Longrightarrow> key (mrg old new) = key new"
begin

lemma fetch_upsert:
  "fetch key k (upsert key mrg new rows) =
     (if k = key new
      then Some (case fetch key k rows of None \<Rightarrow> new | Some old \<Rightarrow> mrg old new)
      else fetch key k rows)"
  by (induction rows) (auto simp: fetch_Cons key_mrg split: option.splits)

lemma upsert_refines:
  "table_map key (upsert key mrg new rows) =
     (table_map key rows)(key new \<mapsto> (case table_map key rows (key new) of None \<Rightarrow> new | Some old \<Rightarrow> mrg old new))"
  by (rule ext) (simp add: table_map_def fetch_upsert)

lemma keys_upsert: "key ` set (upsert key mrg new rows) = insert (key new) (key ` set rows)"
  by (induction rows) (auto simp: key_mrg)

lemma unique_upsert: "keys_unique key rows \<Longrightarrow> keys_unique key (upsert key mrg new rows)"
proof (induction rows)
  case Nil
  then show ?case by (simp add: keys_unique_def)
next
  case (Cons r rows)
  then show ?case
    using keys_upsert [of new rows] by (auto simp: keys_unique_def key_mrg)
qed

lemma set_upsert:
  "x \<in> set (upsert key mrg new rows) \<Longrightarrow>
     x = new \<or> x \<in> set rows \<or> (\<exists>old \<in> set rows. key old = key new \<and> x = mrg old new)"
  by (induction rows) (auto split: if_splits)

lemma all_upsert:
  assumes "\<forall>r \<in> set rows. Q r" and "Q new"
    and "\<And>old. Q old \<Longrightarrow> key old = key new \<Longrightarrow> Q (mrg old new)"
  shows "\<forall>r \<in> set (upsert key mrg new rows). Q r"
  using assms set_upsert by fast

lemma upsert_other: "key new \<notin> key ` set rows \<Longrightarrow> upsert key mrg new rows = rows @ [new]"
  by (induction rows) auto

end

end
