(* ===== verification/Database.thy ===== *)
theory Database
  imports Sql_Table
begin

text \<open>
  \<^verbatim>\<open>storage/sqlcgen\<close>: the rows of the tables (\<^verbatim>\<open>models.go\<close>) and the queries
  (\<^verbatim>\<open>queries.sql.go\<close>), one definition per query, on the tables of \<^verbatim>\<open>schema.sql\<close>.

  A query takes the arguments of its \<^verbatim>\<open>Params\<close> struct in their order. What \<^verbatim>\<open>unixepoch('now',
  'subsec') * 1000\<close> gives is the first argument \<open>now_ms\<close>, in milliseconds. An \<^verbatim>\<open>AUTOINCREMENT\<close> id
  is one more than the table's counter; SQLite may leave gaps and no theorem rests on there being
  none. A nullable argument (\<^verbatim>\<open>interface{}\<close> or a pointer) is an option; where sqlc gave the
  parameter of a \<^verbatim>\<open>COALESCE\<close> a plain type the argument is never \<^verbatim>\<open>NULL\<close> and \<^verbatim>\<open>COALESCE\<close> returns it.
\<close>

section \<open>Rows\<close>

datatype json =
  JNull | JBool bool | JNumber f64 | JString string | JArray "json list"
| JObject "(string \<times> json) list"

text \<open>What the program stores of a bot and of a deal, next to the fields the fill tracker reads.\<close>

record tc_Bot =
  bot_Id :: int
  bot_Name :: string
  bot_UpdatedAt :: time

text \<open>The percentage is a \<^verbatim>\<open>float32\<close>, whose values are exactly representable.\<close>

record TakeProfitStep =
  tp_Id :: "int option"
  tp_InitialAmount :: "string option"
  tp_AmountPercentage :: "f64 option"

text \<open>\<open>dl_Events\<close> is what the SDK's \<^verbatim>\<open>Deal.Events()\<close> extracts from the deal.\<close>

record Deal = tc_Deal +
  dl_Id :: int
  dl_BotId :: int
  dl_CreatedAt :: time
  dl_UpdatedAt :: time
  dl_ToCurrency :: string
  dl_BaseOrderVolume :: string
  dl_BoughtAmount :: string
  dl_TakeProfitSteps :: "TakeProfitStep list"
  dl_Events :: "tc_BotEvent list"

record ThreecommasBotevent =
  be_ID :: int
  be_OrderID :: string
  be_BotID :: int
  be_DealID :: int
  be_BoteventID :: int
  be_CreatedAtUtc :: int
  be_ObservedAtUtc :: int
  be_Payload :: "tc_BotEvent blob"

type_synonym ThreecommasBoteventsLog = ThreecommasBotevent

record ThreecommasBot =
  bt_BotID :: int
  bt_Payload :: "tc_Bot blob"
  bt_LastSyncedUtc :: int

record ThreecommasDeal =
  td_DealID :: int
  td_BotID :: int
  td_CreatedAtUtc :: int
  td_UpdatedAtUtc :: int
  td_Payload :: "Deal blob"
  td_InsertedAtUtc :: int

record VenueRow =
  vn_ID :: string
  vn_Type :: string
  vn_DisplayName :: string
  vn_Wallet :: string
  vn_Flags :: "json blob"

record BotVenueAssignment =
  va_BotID :: int
  va_VenueID :: string
  va_IsPrimary :: int
  va_AssignedAtUtc :: int

text \<open>The last payload written for an order, whichever kind it was.\<close>

datatype submission =
  SubCreate CreateOrderRequest | SubModify ModifyOrderRequest | SubCancel CancelOrderRequestByCloid

record HyperliquidSubmission =
  hs_VenueID :: string
  hs_Wallet :: string
  hs_OrderID :: string
  hs_ActionKind :: string
  hs_CreatePayload :: "CreateOrderRequest blob option"
  hs_ModifyPayloads :: "ModifyOrderRequest blob list"
  hs_CancelPayload :: "CancelOrderRequestByCloid blob option"
  hs_PayloadType :: string
  hs_PayloadBlob :: "submission blob"
  hs_UpdatedAtUtc :: int
  hs_BoteventRowID :: int

record HyperliquidStatusHistory =
  sh_VenueID :: string
  sh_Wallet :: string
  sh_OrderID :: string
  sh_PayloadType :: string
  sh_PayloadBlob :: "WsOrder blob"
  sh_RecordedAtUtc :: int

record VaultUser =
  vu_ID :: int
  vu_Username :: string
  vu_CreatedAtUtc :: int

record VaultPayload =
  vp_ID :: int
  vp_UserID :: int
  vp_Version :: string
  vp_Ciphertext :: "byte list"
  vp_Nonce :: "byte list"
  vp_AssociatedData :: "byte list"
  vp_PrfParams :: "json blob option"
  vp_UpdatedAtUtc :: int

record WebauthnCredential =
  wc_ID :: int
  wc_UserID :: int
  wc_CredentialID :: "byte list"
  wc_Credential :: "json blob"
  wc_CreatedAtUtc :: int
  wc_UpdatedAtUtc :: int

record OrderScaler =
  sc_ID :: int
  sc_Multiplier :: f64
  sc_UpdatedAtUtc :: int
  sc_UpdatedBy :: string
  sc_Notes :: "string option"

record BotOrderScaler =
  bs_BotID :: int
  bs_Multiplier :: "f64 option"
  bs_Notes :: "string option"
  bs_EffectiveFromUtc :: int
  bs_UpdatedAtUtc :: int
  bs_UpdatedBy :: string

text \<open>The payload of a scaled order holds the submitted order id, if any.\<close>

record ScaledOrder =
  so_VenueID :: string
  so_Wallet :: string
  so_OrderID :: string
  so_DealID :: int
  so_BotID :: int
  so_OriginalSize :: f64
  so_ScaledSize :: f64
  so_Multiplier :: f64
  so_RoundingDelta :: f64
  so_StackIndex :: int
  so_OrderSide :: string
  so_MultiplierUpdatedBy :: string
  so_CreatedAtUtc :: int
  so_Skipped :: int
  so_SkipReason :: "string option"
  so_PayloadType :: "string option"
  so_PayloadBlob :: "string option blob option"

record AppLog =
  al_ID :: int
  al_TimestampUtc :: int
  al_Level :: string
  al_Scope :: "string option"
  al_Message :: string
  al_Attrs :: string
  al_SourceFile :: "string option"
  al_SourceLine :: "int option"
  al_SourceFunc :: "string option"

record db =
  db_botevents :: "ThreecommasBotevent list"
  db_botevents_seq :: int
  db_botevents_log :: "ThreecommasBoteventsLog list"
  db_botevents_log_seq :: int
  db_bots :: "ThreecommasBot list"
  db_deals :: "ThreecommasDeal list"
  db_venues :: "VenueRow list"
  db_assignments :: "BotVenueAssignment list"
  db_submissions :: "HyperliquidSubmission list"
  db_statuses :: "HyperliquidStatusHistory list"
  db_vault_users :: "VaultUser list"
  db_vault_users_seq :: int
  db_vault_payloads :: "VaultPayload list"
  db_vault_payloads_seq :: int
  db_credentials :: "WebauthnCredential list"
  db_credentials_seq :: int
  db_order_scalers :: "OrderScaler list"
  db_bot_order_scalers :: "BotOrderScaler list"
  db_scaled_orders :: "ScaledOrder list"
  db_app_logs :: "AppLog list"
  db_app_logs_seq :: int

definition empty_db :: db where
  "empty_db = \<lparr>db_botevents = [], db_botevents_seq = 0, db_botevents_log = [], db_botevents_log_seq = 0,
     db_bots = [], db_deals = [], db_venues = [], db_assignments = [], db_submissions = [], db_statuses = [],
     db_vault_users = [], db_vault_users_seq = 0, db_vault_payloads = [], db_vault_payloads_seq = 0,
     db_credentials = [], db_credentials_seq = 0, db_order_scalers = [], db_bot_order_scalers = [],
     db_scaled_orders = [], db_app_logs = [], db_app_logs_seq = 0\<rparr>"

section \<open>Keys\<close>

definition be_key :: "ThreecommasBotevent \<Rightarrow> string \<times> int \<times> int" where
  "be_key r = (be_OrderID r, be_BoteventID r, be_CreatedAtUtc r)"

definition va_key :: "BotVenueAssignment \<Rightarrow> int \<times> string" where
  "va_key r = (va_BotID r, va_VenueID r)"

definition hs_key :: "HyperliquidSubmission \<Rightarrow> string \<times> string \<times> string" where
  "hs_key r = (hs_VenueID r, hs_Wallet r, hs_OrderID r)"

definition sh_order :: "HyperliquidStatusHistory \<Rightarrow> string \<times> string \<times> string" where
  "sh_order r = (sh_VenueID r, sh_Wallet r, sh_OrderID r)"

definition sh_key :: "HyperliquidStatusHistory \<Rightarrow> (string \<times> string \<times> string) \<times> int" where
  "sh_key r = (sh_order r, sh_RecordedAtUtc r)"

definition so_key :: "ScaledOrder \<Rightarrow> string \<times> string \<times> string" where
  "so_key r = (so_VenueID r, so_Wallet r, so_OrderID r)"

section \<open>Bot events\<close>

definition InsertThreeCommasBotEvent ::
  "int \<Rightarrow> string \<Rightarrow> int \<Rightarrow> int \<Rightarrow> int \<Rightarrow> int \<Rightarrow> tc_BotEvent blob \<Rightarrow> db \<Rightarrow> (store_error + int) \<times> db" where
  "InsertThreeCommasBotEvent now_ms order_id bot_id deal_id botevent_id created payload d =
     (let row = \<lparr>be_ID = db_botevents_seq d + 1, be_OrderID = order_id, be_BotID = bot_id,
        be_DealID = deal_id, be_BoteventID = botevent_id, be_CreatedAtUtc = created,
        be_ObservedAtUtc = now_ms, be_Payload = payload\<rparr>
      in if be_key row \<in> be_key ` set (db_botevents d) then (Inl ErrNoRows, d)
         else (Inr (be_ID row),
               d\<lparr>db_botevents := db_botevents d @ [row], db_botevents_seq := be_ID row\<rparr>))"

definition InsertThreeCommasBotEventLog ::
  "int \<Rightarrow> string \<Rightarrow> int \<Rightarrow> int \<Rightarrow> int \<Rightarrow> int \<Rightarrow> tc_BotEvent blob \<Rightarrow> db \<Rightarrow> (store_error + int) \<times> db" where
  "InsertThreeCommasBotEventLog now_ms order_id bot_id deal_id botevent_id created payload d =
     (let row = \<lparr>be_ID = db_botevents_log_seq d + 1, be_OrderID = order_id, be_BotID = bot_id,
        be_DealID = deal_id, be_BoteventID = botevent_id, be_CreatedAtUtc = created,
        be_ObservedAtUtc = now_ms, be_Payload = payload\<rparr>
      in if be_key row \<in> be_key ` set (db_botevents_log d) then (Inl ErrNoRows, d)
         else (Inr (be_ID row),
               d\<lparr>db_botevents_log := db_botevents_log d @ [row], db_botevents_log_seq := be_ID row\<rparr>))"

definition ListThreeCommasBotEventsForOrder ::
  "int \<Rightarrow> int \<Rightarrow> int \<Rightarrow> db \<Rightarrow> (int \<times> tc_BotEvent blob) list" where
  "ListThreeCommasBotEventsForOrder bot_id deal_id botevent_id d =
     map (\<lambda>r. (be_ID r, be_Payload r))
       (order_by (\<lambda>r. (be_CreatedAtUtc r, be_ObservedAtUtc r, be_ID r))
         (filter (\<lambda>r. be_BotID r = bot_id \<and> be_DealID r = deal_id \<and> be_BoteventID r = botevent_id)
           (db_botevents d)))"

definition HasThreeCommasOrderId :: "string \<Rightarrow> db \<Rightarrow> int" where
  "HasThreeCommasOrderId order_id d =
     (if list_ex (\<lambda>r. be_OrderID r = order_id) (db_botevents d) then 1 else 0)"

definition GetOrderIdForDeal :: "int \<Rightarrow> db \<Rightarrow> string list" where
  "GetOrderIdForDeal deal_id d =
     rev (remdups (rev (map be_OrderID (filter (\<lambda>r. be_DealID r = deal_id) (db_botevents d)))))"

definition FetchThreeCommasBotEvent :: "string \<Rightarrow> db \<Rightarrow> store_error + tc_BotEvent blob" where
  "FetchThreeCommasBotEvent order_id d =
     map_sum id be_Payload
       (one (order_by (\<lambda>r. (- be_ObservedAtUtc r, - be_ID r))
         (filter (\<lambda>r. be_OrderID r = order_id) (db_botevents d))))"

text \<open>
  The three queries that look inside the payload fail when the payload of a row of the deal is not
  JSON.
\<close>

definition GetTPForDeal :: "int \<Rightarrow> db \<Rightarrow> store_error + ThreecommasBotevent" where
  "GetTPForDeal deal_id d =
     (let rows = filter (\<lambda>r. be_DealID r = deal_id) (db_botevents d) in
      if list_ex (\<lambda>r. \<not> json_valid (be_Payload r)) rows then Inl malformed_json
      else one (order_by (\<lambda>r. - be_CreatedAtUtc r)
        (filter (\<lambda>r. (case be_Payload r of Doc e \<Rightarrow> ev_OrderType e = DealOrderTypeTakeProfit
                                         | NotJson _ \<Rightarrow> False)) rows)))"

text \<open>Position and size of the take profits of a deal, the latest event of each position.\<close>

definition tp_rows :: "int \<Rightarrow> int \<Rightarrow> db \<Rightarrow> (int \<times> f64 \<times> int \<times> int) list" where
  "tp_rows deal_id order_size d =
     concat (map (\<lambda>r. case be_Payload r of
         NotJson _ \<Rightarrow> []
       | Doc e \<Rightarrow>
           if be_DealID r = deal_id \<and> ev_OrderType e = DealOrderTypeTakeProfit \<and>
              1 \<le> ev_OrderPosition e \<and> ev_OrderPosition e \<le> order_size
           then [(ev_OrderPosition e, ev_Size e, be_CreatedAtUtc r, be_ID r)] else []) (db_botevents d))"

definition ListLatestTakeProfitStackSizes :: "int \<Rightarrow> int \<Rightarrow> db \<Rightarrow> store_error + (int \<times> f64) list" where
  "ListLatestTakeProfitStackSizes deal_id order_size d =
     (if list_ex (\<lambda>r. be_DealID r = deal_id \<and> \<not> json_valid (be_Payload r)) (db_botevents d)
      then Inl malformed_json
      else let rows = tp_rows deal_id order_size d;
               newest = (\<lambda>p. hd (order_by (\<lambda>(_, _, created, i). (- created, - i))
                                  (filter (\<lambda>(q, _). q = p) rows)))
           in Inr (map (\<lambda>p. (p, fst (snd (newest p)))) (sort (remdups (map fst rows)))))"

definition botevent_after_cursor :: "int option \<Rightarrow> int \<Rightarrow> ThreecommasBotevent \<Rightarrow> bool" where
  "botevent_after_cursor cursor_observed_at cursor_id r =
     null_or cursor_observed_at (\<lambda>c. be_ObservedAtUtc r < c \<or> be_ObservedAtUtc r = c \<and> be_ID r < cursor_id)"

definition ListThreeCommasBotEvents ::
  "int \<Rightarrow> int \<Rightarrow> int \<Rightarrow> int \<Rightarrow> int \<Rightarrow> string option \<Rightarrow> int option \<Rightarrow> int \<Rightarrow> int \<Rightarrow> db
    \<Rightarrow> ThreecommasBotevent list" where
  "ListThreeCommasBotEvents bot_id deal_id bot_event_id observed_from observed_to prefx
       cursor_observed_at cursor_id lmt d =
     limit_rows lmt (order_by (\<lambda>r. (- be_ObservedAtUtc r, - be_ID r))
       (filter (\<lambda>r. be_BotID r = bot_id \<and> be_DealID r = deal_id \<and> be_BoteventID r = bot_event_id \<and>
           observed_from \<le> be_ObservedAtUtc r \<and> be_ObservedAtUtc r \<le> observed_to \<and>
           null_or prefx (\<lambda>p. like_prefix (ToLower (be_OrderID r)) (ToLower p)) \<and>
           botevent_after_cursor cursor_observed_at cursor_id r) (db_botevents d)))"

text \<open>Here \<^verbatim>\<open>cursor_id\<close> is nullable; comparing with \<^verbatim>\<open>NULL\<close> is not true.\<close>

definition ListThreeCommasBotEventsForAPI ::
  "int option \<Rightarrow> int option \<Rightarrow> int option \<Rightarrow> int option \<Rightarrow> int option \<Rightarrow> string option \<Rightarrow> int option
    \<Rightarrow> int option \<Rightarrow> int \<Rightarrow> db \<Rightarrow> ThreecommasBotevent list" where
  "ListThreeCommasBotEventsForAPI bot_id deal_id bot_event_id observed_from observed_to prefx
       cursor_observed_at cursor_id lmt d =
     limit_rows lmt (order_by (\<lambda>r. (- be_ObservedAtUtc r, - be_ID r))
       (filter (\<lambda>r. null_or bot_id (\<lambda>b. be_BotID r = b) \<and> null_or deal_id (\<lambda>b. be_DealID r = b) \<and>
           null_or bot_event_id (\<lambda>b. be_BoteventID r = b) \<and>
           null_or observed_from (\<lambda>t. t \<le> be_ObservedAtUtc r) \<and>
           null_or observed_to (\<lambda>t. be_ObservedAtUtc r \<le> t) \<and>
           null_or prefx (\<lambda>p. like_prefix (ToLower (be_OrderID r)) (ToLower p)) \<and>
           null_or cursor_observed_at (\<lambda>c. be_ObservedAtUtc r < c \<or>
             be_ObservedAtUtc r = c \<and> (case cursor_id of None \<Rightarrow> False | Some i \<Rightarrow> be_ID r < i)))
         (db_botevents d)))"

definition ListThreeCommasBotEventLogsForOrderId ::
  "string \<Rightarrow> int \<Rightarrow> int \<Rightarrow> db \<Rightarrow> ThreecommasBoteventsLog list" where
  "ListThreeCommasBotEventLogsForOrderId order_id observed_from observed_to d =
     order_by (\<lambda>r. (be_ObservedAtUtc r, be_ID r))
       (filter (\<lambda>r. be_OrderID r = order_id \<and> observed_from \<le> be_ObservedAtUtc r \<and>
           be_ObservedAtUtc r \<le> observed_to) (db_botevents_log d))"

definition ListThreeCommasBotEventLogs :: "db \<Rightarrow> ThreecommasBoteventsLog list" where
  "ListThreeCommasBotEventLogs d = order_by (\<lambda>r. (be_CreatedAtUtc r, be_ID r)) (db_botevents_log d)"

section \<open>Submissions\<close>

text \<open>What the three upserts leave of an existing row; the row id of the bot event is kept.\<close>

definition create_mrg :: "HyperliquidSubmission \<Rightarrow> HyperliquidSubmission \<Rightarrow> HyperliquidSubmission" where
  "create_mrg old new = old\<lparr>hs_OrderID := hs_OrderID new, hs_CreatePayload := hs_CreatePayload new,
     hs_ActionKind := ''create'', hs_PayloadType := hs_PayloadType new,
     hs_PayloadBlob := hs_PayloadBlob new, hs_UpdatedAtUtc := hs_UpdatedAtUtc new\<rparr>"

definition modify_mrg :: "HyperliquidSubmission \<Rightarrow> HyperliquidSubmission \<Rightarrow> HyperliquidSubmission" where
  "modify_mrg old new = old\<lparr>hs_OrderID := hs_OrderID new,
     hs_ModifyPayloads := hs_ModifyPayloads old @ take 1 (hs_ModifyPayloads new),
     hs_ActionKind := ''modify'', hs_PayloadType := hs_PayloadType new,
     hs_PayloadBlob := hs_PayloadBlob new, hs_UpdatedAtUtc := hs_UpdatedAtUtc new\<rparr>"

definition cancel_mrg :: "HyperliquidSubmission \<Rightarrow> HyperliquidSubmission \<Rightarrow> HyperliquidSubmission" where
  "cancel_mrg old new = old\<lparr>hs_OrderID := hs_OrderID new, hs_CancelPayload := hs_CancelPayload new,
     hs_ActionKind := ''cancel'', hs_PayloadType := hs_PayloadType new,
     hs_PayloadBlob := hs_PayloadBlob new, hs_UpdatedAtUtc := hs_UpdatedAtUtc new\<rparr>"

definition UpsertHyperliquidCreate ::
  "int \<Rightarrow> string \<Rightarrow> string \<Rightarrow> string \<Rightarrow> CreateOrderRequest blob \<Rightarrow> string \<Rightarrow> submission blob \<Rightarrow> int
    \<Rightarrow> db \<Rightarrow> store_error + db" where
  "UpsertHyperliquidCreate now_ms venue wallet oid payload payload_type blob row_id d =
     (if \<not> json_valid payload then Inl malformed_json
      else Inr (d\<lparr>db_submissions := upsert hs_key create_mrg
        \<lparr>hs_VenueID = venue, hs_Wallet = wallet, hs_OrderID = oid, hs_ActionKind = ''create'',
         hs_CreatePayload = Some payload, hs_ModifyPayloads = [], hs_CancelPayload = None,
         hs_PayloadType = payload_type, hs_PayloadBlob = blob, hs_UpdatedAtUtc = now_ms,
         hs_BoteventRowID = row_id\<rparr> (db_submissions d)\<rparr>))"

definition AppendHyperliquidModify_query ::
  "int \<Rightarrow> string \<Rightarrow> string \<Rightarrow> string \<Rightarrow> ModifyOrderRequest blob \<Rightarrow> string \<Rightarrow> submission blob \<Rightarrow> int
    \<Rightarrow> db \<Rightarrow> store_error + db" where
  "AppendHyperliquidModify_query now_ms venue wallet oid payload payload_type blob row_id d =
     (if \<not> json_valid payload then Inl malformed_json
      else Inr (d\<lparr>db_submissions := upsert hs_key modify_mrg
        \<lparr>hs_VenueID = venue, hs_Wallet = wallet, hs_OrderID = oid, hs_ActionKind = ''modify'',
         hs_CreatePayload = None, hs_ModifyPayloads = [payload], hs_CancelPayload = None,
         hs_PayloadType = payload_type, hs_PayloadBlob = blob, hs_UpdatedAtUtc = now_ms,
         hs_BoteventRowID = row_id\<rparr> (db_submissions d)\<rparr>))"

definition UpsertHyperliquidCancel ::
  "int \<Rightarrow> string \<Rightarrow> string \<Rightarrow> string \<Rightarrow> CancelOrderRequestByCloid blob \<Rightarrow> string \<Rightarrow> submission blob \<Rightarrow> int
    \<Rightarrow> db \<Rightarrow> store_error + db" where
  "UpsertHyperliquidCancel now_ms venue wallet oid payload payload_type blob row_id d =
     (if \<not> json_valid payload then Inl malformed_json
      else Inr (d\<lparr>db_submissions := upsert hs_key cancel_mrg
        \<lparr>hs_VenueID = venue, hs_Wallet = wallet, hs_OrderID = oid, hs_ActionKind = ''cancel'',
         hs_CreatePayload = None, hs_ModifyPayloads = [], hs_CancelPayload = Some payload,
         hs_PayloadType = payload_type, hs_PayloadBlob = blob, hs_UpdatedAtUtc = now_ms,
         hs_BoteventRowID = row_id\<rparr> (db_submissions d)\<rparr>))"

definition CloneHyperliquidSubmissionsToWallet :: "string \<Rightarrow> string \<Rightarrow> string \<Rightarrow> db \<Rightarrow> db" where
  "CloneHyperliquidSubmissionsToWallet to_wallet venue from_wallet d =
     d\<lparr>db_submissions := fold (\<lambda>r. insert_ignore hs_key (r\<lparr>hs_Wallet := to_wallet\<rparr>))
        (filter (\<lambda>r. hs_VenueID r = venue \<and> hs_Wallet r = from_wallet) (db_submissions d))
        (db_submissions d)\<rparr>"

definition DeleteHyperliquidSubmissionsForWallet :: "string \<Rightarrow> string \<Rightarrow> db \<Rightarrow> db" where
  "DeleteHyperliquidSubmissionsForWallet venue wallet d =
     d\<lparr>db_submissions := delete_where (\<lambda>r. hs_VenueID r = venue \<and> hs_Wallet r = wallet) (db_submissions d)\<rparr>"

definition FetchHyperliquidSubmission ::
  "string \<Rightarrow> string \<Rightarrow> string \<Rightarrow> db \<Rightarrow> store_error + HyperliquidSubmission" where
  "FetchHyperliquidSubmission venue wallet oid d =
     one (filter (\<lambda>r. hs_key r = (venue, wallet, oid)) (db_submissions d))"

definition FetchLatestHyperliquidSubmissionAnyIdentifier ::
  "string \<Rightarrow> db \<Rightarrow> store_error + HyperliquidSubmission" where
  "FetchLatestHyperliquidSubmissionAnyIdentifier oid d =
     one (order_by (\<lambda>r. - hs_UpdatedAtUtc r) (filter (\<lambda>r. hs_OrderID r = oid) (db_submissions d)))"

definition ListHyperliquidOrderIds_query :: "string \<Rightarrow> db \<Rightarrow> (string \<times> string \<times> string) list" where
  "ListHyperliquidOrderIds_query venue d =
     map hs_key (order_by hs_key (filter (\<lambda>r. hs_VenueID r = venue) (db_submissions d)))"

section \<open>Statuses\<close>

definition InsertHyperliquidStatus ::
  "string \<Rightarrow> string \<Rightarrow> string \<Rightarrow> string \<Rightarrow> WsOrder blob \<Rightarrow> int \<Rightarrow> db \<Rightarrow> store_error + db" where
  "InsertHyperliquidStatus venue wallet oid payload_type blob recorded d =
     map_sum id (\<lambda>rows. d\<lparr>db_statuses := rows\<rparr>)
       (insert_row sh_key
         \<lparr>sh_VenueID = venue, sh_Wallet = wallet, sh_OrderID = oid, sh_PayloadType = payload_type,
          sh_PayloadBlob = blob, sh_RecordedAtUtc = recorded\<rparr> (db_statuses d))"

definition CloneHyperliquidStatusesToWallet :: "string \<Rightarrow> string \<Rightarrow> string \<Rightarrow> db \<Rightarrow> db" where
  "CloneHyperliquidStatusesToWallet to_wallet venue from_wallet d =
     d\<lparr>db_statuses := fold (\<lambda>r. insert_ignore sh_key (r\<lparr>sh_Wallet := to_wallet\<rparr>))
        (filter (\<lambda>r. sh_VenueID r = venue \<and> sh_Wallet r = from_wallet) (db_statuses d)) (db_statuses d)\<rparr>"

definition DeleteHyperliquidStatusesForWallet :: "string \<Rightarrow> string \<Rightarrow> db \<Rightarrow> db" where
  "DeleteHyperliquidStatusesForWallet venue wallet d =
     d\<lparr>db_statuses := delete_where (\<lambda>r. sh_VenueID r = venue \<and> sh_Wallet r = wallet) (db_statuses d)\<rparr>"

definition FetchLatestHyperliquidStatus ::
  "string \<Rightarrow> string \<Rightarrow> string \<Rightarrow> db \<Rightarrow> store_error + HyperliquidStatusHistory" where
  "FetchLatestHyperliquidStatus venue wallet oid d =
     one (order_by (\<lambda>r. - sh_RecordedAtUtc r)
       (filter (\<lambda>r. sh_order r = (venue, wallet, oid)) (db_statuses d)))"

definition ListHyperliquidStatuses_query ::
  "string \<Rightarrow> string \<Rightarrow> string \<Rightarrow> db \<Rightarrow> HyperliquidStatusHistory list" where
  "ListHyperliquidStatuses_query venue wallet oid d =
     order_by sh_RecordedAtUtc (filter (\<lambda>r. sh_order r = (venue, wallet, oid)) (db_statuses d))"

definition FetchLatestHyperliquidStatusAnyIdentifier ::
  "string \<Rightarrow> db \<Rightarrow> store_error + HyperliquidStatusHistory" where
  "FetchLatestHyperliquidStatusAnyIdentifier oid d =
     one (order_by (\<lambda>r. - sh_RecordedAtUtc r) (filter (\<lambda>r. sh_OrderID r = oid) (db_statuses d)))"

definition ListHyperliquidStatusesForOrderId ::
  "string \<Rightarrow> string \<Rightarrow> string option \<Rightarrow> int \<Rightarrow> int \<Rightarrow> db \<Rightarrow> HyperliquidStatusHistory list" where
  "ListHyperliquidStatusesForOrderId venue oid wallet observed_from observed_to d =
     order_by sh_RecordedAtUtc
       (filter (\<lambda>r. sh_VenueID r = venue \<and> sh_OrderID r = oid \<and> null_or wallet (\<lambda>w. sh_Wallet r = w) \<and>
           observed_from \<le> sh_RecordedAtUtc r \<and> sh_RecordedAtUtc r \<le> observed_to) (db_statuses d))"

text \<open>
  The latest status of each order of the venue, joined with its submission and the bot event the
  submission was created for. Rows of equal position may come in any order.
\<close>

definition latest_statuses :: "db \<Rightarrow> HyperliquidStatusHistory list" where
  "latest_statuses d =
     filter (\<lambda>l. list_all (\<lambda>r. sh_order r = sh_order l \<longrightarrow> sh_RecordedAtUtc r \<le> sh_RecordedAtUtc l)
       (db_statuses d)) (db_statuses d)"

record SafetyStatusRow =
  ss_OrderID :: string
  ss_BotID :: int
  ss_DealID :: int
  ss_OrderType :: MarketOrderDealOrderType
  ss_OrderPosition :: int
  ss_OrderSize :: int
  ss_Status :: OrderStatusValue
  ss_StatusTimestamp :: int
  ss_RecordedAtUtc :: int

definition safety_join ::
  "string \<Rightarrow> int \<Rightarrow> string option \<Rightarrow> db \<Rightarrow> (HyperliquidStatusHistory \<times> ThreecommasBotevent) list" where
  "safety_join venue deal_id wallet d =
     concat (map (\<lambda>l. concat (map (\<lambda>s.
         if hs_key s = sh_order l
         then map (Pair l) (filter (\<lambda>b. be_ID b = hs_BoteventRowID s \<and> hs_VenueID s = venue \<and>
                be_DealID b = deal_id \<and> null_or wallet (\<lambda>w. sh_Wallet l = w)) (db_botevents d))
         else []) (db_submissions d))) (latest_statuses d))"

fun safety_row :: "HyperliquidStatusHistory \<times> ThreecommasBotevent \<Rightarrow> SafetyStatusRow list" where
  "safety_row (l, b) =
     (case (be_Payload b, sh_PayloadBlob l) of
        (Doc e, Doc w) \<Rightarrow>
          [\<lparr>ss_OrderID = be_OrderID b, ss_BotID = be_BotID b, ss_DealID = be_DealID b,
            ss_OrderType = ev_OrderType e, ss_OrderPosition = ev_OrderPosition e,
            ss_OrderSize = ev_OrderSize e, ss_Status = ws_Status w,
            ss_StatusTimestamp = ws_StatusTimestamp w, ss_RecordedAtUtc = sh_RecordedAtUtc l\<rparr>]
      | _ \<Rightarrow> [])"

definition is_safety :: "tc_BotEvent blob \<Rightarrow> bool" where
  "is_safety p = (case p of Doc e \<Rightarrow> ev_OrderType e = DealOrderTypeSafety | NotJson _ \<Rightarrow> False)"

definition ListLatestHyperliquidSafetyStatuses_query ::
  "string \<Rightarrow> int \<Rightarrow> string option \<Rightarrow> db \<Rightarrow> store_error + SafetyStatusRow list" where
  "ListLatestHyperliquidSafetyStatuses_query venue deal_id wallet d =
     (let joined = safety_join venue deal_id wallet d;
          safeties = filter (\<lambda>(l, b). is_safety (be_Payload b)) joined
      in if list_ex (\<lambda>(l, b). \<not> json_valid (be_Payload b)) joined \<or>
            list_ex (\<lambda>(l, b). \<not> json_valid (sh_PayloadBlob l)) safeties
         then Inl malformed_json
         else Inr (order_by ss_OrderPosition (concat (map safety_row safeties))))"

section \<open>Bots and deals\<close>

definition UpsertBot :: "int \<Rightarrow> tc_Bot blob \<Rightarrow> int \<Rightarrow> db \<Rightarrow> db" where
  "UpsertBot bot_id payload last_synced d =
     d\<lparr>db_bots := upsert bt_BotID (\<lambda>old new. old\<lparr>bt_Payload := bt_Payload new, bt_LastSyncedUtc := bt_LastSyncedUtc new\<rparr>)
        \<lparr>bt_BotID = bot_id, bt_Payload = payload, bt_LastSyncedUtc = last_synced\<rparr> (db_bots d)\<rparr>"

definition FetchBot :: "int \<Rightarrow> db \<Rightarrow> store_error + ThreecommasBot" where
  "FetchBot bot_id d = one (filter (\<lambda>r. bt_BotID r = bot_id) (db_bots d))"

definition UpdateBotSync :: "int \<Rightarrow> int \<Rightarrow> db \<Rightarrow> db" where
  "UpdateBotSync last_synced bot_id d =
     d\<lparr>db_bots := update_where (\<lambda>r. bt_BotID r = bot_id) (\<lambda>r. r\<lparr>bt_LastSyncedUtc := last_synced\<rparr>) (db_bots d)\<rparr>"

definition ListThreeCommasBots ::
  "int \<Rightarrow> int \<Rightarrow> int \<Rightarrow> int option \<Rightarrow> int \<Rightarrow> int \<Rightarrow> db \<Rightarrow> ThreecommasBot list" where
  "ListThreeCommasBots bot_id updated_from updated_to cursor_last_synced cursor_bot_id lmt d =
     limit_rows lmt (order_by (\<lambda>r. (- bt_LastSyncedUtc r, - bt_BotID r))
       (filter (\<lambda>r. bt_BotID r = bot_id \<and> updated_from \<le> bt_LastSyncedUtc r \<and>
           bt_LastSyncedUtc r \<le> updated_to \<and>
           null_or cursor_last_synced (\<lambda>c. bt_LastSyncedUtc r < c \<or>
             bt_LastSyncedUtc r = c \<and> bt_BotID r < cursor_bot_id)) (db_bots d)))"

definition UpsertDeal :: "int \<Rightarrow> int \<Rightarrow> int \<Rightarrow> int \<Rightarrow> int \<Rightarrow> Deal blob \<Rightarrow> db \<Rightarrow> db" where
  "UpsertDeal now_ms deal_id bot_id created updated payload d =
     d\<lparr>db_deals := upsert td_DealID
        (\<lambda>old new. old\<lparr>td_BotID := td_BotID new, td_CreatedAtUtc := td_CreatedAtUtc new,
           td_UpdatedAtUtc := td_UpdatedAtUtc new, td_Payload := td_Payload new\<rparr>)
        \<lparr>td_DealID = deal_id, td_BotID = bot_id, td_CreatedAtUtc = created,
         td_UpdatedAtUtc = updated, td_Payload = payload, td_InsertedAtUtc = now_ms\<rparr> (db_deals d)\<rparr>"

definition FetchDeal :: "int \<Rightarrow> db \<Rightarrow> store_error + Deal blob" where
  "FetchDeal deal_id d = map_sum id td_Payload (one (filter (\<lambda>r. td_DealID r = deal_id) (db_deals d)))"

definition ListDealIDs_query :: "db \<Rightarrow> int list" where
  "ListDealIDs_query d = map td_DealID (db_deals d)"

definition ListThreeCommasDeals ::
  "int \<Rightarrow> int \<Rightarrow> int \<Rightarrow> int \<Rightarrow> int option \<Rightarrow> int \<Rightarrow> int \<Rightarrow> db \<Rightarrow> ThreecommasDeal list" where
  "ListThreeCommasDeals deal_id bot_id updated_from updated_to cursor_updated_at cursor_deal_id lmt d =
     limit_rows lmt (order_by (\<lambda>r. (- td_UpdatedAtUtc r, - td_DealID r))
       (filter (\<lambda>r. td_DealID r = deal_id \<and> td_BotID r = bot_id \<and> updated_from \<le> td_UpdatedAtUtc r \<and>
           td_UpdatedAtUtc r \<le> updated_to \<and>
           null_or cursor_updated_at (\<lambda>c. td_UpdatedAtUtc r < c \<or>
             td_UpdatedAtUtc r = c \<and> td_DealID r < cursor_deal_id)) (db_deals d)))"

section \<open>Venues and assignments\<close>

text \<open>
  \<open>venues\<close> has a second unique index, on type and wallet; a conflict with another venue there is
  an error, whether or not the id is new.
\<close>

definition UpsertVenue :: "string \<Rightarrow> string \<Rightarrow> string \<Rightarrow> string \<Rightarrow> json blob \<Rightarrow> db \<Rightarrow> store_error + db" where
  "UpsertVenue vid typ display_name wallet flags d =
     (if \<not> json_valid flags then Inl malformed_json
      else if list_ex (\<lambda>r. vn_ID r \<noteq> vid \<and> vn_Type r = typ \<and> vn_Wallet r = wallet) (db_venues d)
      then Inl unique_failed
      else Inr (d\<lparr>db_venues := upsert vn_ID (\<lambda>old new. new)
        \<lparr>vn_ID = vid, vn_Type = typ, vn_DisplayName = display_name, vn_Wallet = wallet, vn_Flags = flags\<rparr>
        (db_venues d)\<rparr>))"

definition DeleteVenue :: "string \<Rightarrow> db \<Rightarrow> db" where
  "DeleteVenue vid d = d\<lparr>db_venues := delete_where (\<lambda>r. vn_ID r = vid) (db_venues d)\<rparr>"

definition GetVenue :: "string \<Rightarrow> db \<Rightarrow> store_error + VenueRow" where
  "GetVenue vid d = one (filter (\<lambda>r. vn_ID r = vid) (db_venues d))"

definition GetVenueByTypeAndWallet :: "string \<Rightarrow> string \<Rightarrow> db \<Rightarrow> store_error + VenueRow" where
  "GetVenueByTypeAndWallet typ wallet d =
     one (filter (\<lambda>r. vn_Type r = typ \<and> vn_Wallet r = wallet) (db_venues d))"

definition ListVenues :: "db \<Rightarrow> VenueRow list" where
  "ListVenues d = order_by vn_ID (db_venues d)"

text \<open>At most one assignment of a bot is primary (a partial unique index).\<close>

definition UpsertBotVenueAssignment_query :: "int \<Rightarrow> int \<Rightarrow> string \<Rightarrow> int \<Rightarrow> db \<Rightarrow> store_error + db" where
  "UpsertBotVenueAssignment_query now_ms bot_id venue is_primary d =
     (if is_primary \<noteq> 0 \<and> is_primary \<noteq> 1 then Inl check_failed
      else if is_primary = 1 \<and>
         list_ex (\<lambda>r. va_BotID r = bot_id \<and> va_VenueID r \<noteq> venue \<and> va_IsPrimary r = 1) (db_assignments d)
      then Inl unique_failed
      else Inr (d\<lparr>db_assignments := upsert va_key (\<lambda>old new. new)
        \<lparr>va_BotID = bot_id, va_VenueID = venue, va_IsPrimary = is_primary, va_AssignedAtUtc = now_ms\<rparr>
        (db_assignments d)\<rparr>))"

definition DeleteBotVenueAssignment :: "int \<Rightarrow> string \<Rightarrow> db \<Rightarrow> db" where
  "DeleteBotVenueAssignment bot_id venue d =
     d\<lparr>db_assignments := delete_where (\<lambda>r. va_key r = (bot_id, venue)) (db_assignments d)\<rparr>"

definition ListBotVenueAssignments :: "int \<Rightarrow> db \<Rightarrow> BotVenueAssignment list" where
  "ListBotVenueAssignments bot_id d =
     order_by va_VenueID (filter (\<lambda>r. va_BotID r = bot_id) (db_assignments d))"

definition ListVenueAssignments :: "string \<Rightarrow> db \<Rightarrow> BotVenueAssignment list" where
  "ListVenueAssignments venue d =
     order_by va_BotID (filter (\<lambda>r. va_VenueID r = venue) (db_assignments d))"

definition GetPrimaryVenueForBot :: "int \<Rightarrow> db \<Rightarrow> store_error + string" where
  "GetPrimaryVenueForBot bot_id d =
     map_sum id va_VenueID
       (one (filter (\<lambda>r. va_BotID r = bot_id \<and> va_IsPrimary r = 1) (db_assignments d)))"

section \<open>Vault\<close>

definition EnsureVaultUser_query :: "int \<Rightarrow> string \<Rightarrow> db \<Rightarrow> (store_error + VaultUser) \<times> db" where
  "EnsureVaultUser_query now_ms username d =
     (case fetch vu_Username username (db_vault_users d) of
        Some r \<Rightarrow> (Inr r, d)
      | None \<Rightarrow>
          let r = \<lparr>vu_ID = db_vault_users_seq d + 1, vu_Username = username, vu_CreatedAtUtc = now_ms\<rparr>
          in (Inr r, d\<lparr>db_vault_users := db_vault_users d @ [r], db_vault_users_seq := vu_ID r\<rparr>))"

definition GetVaultUser_query :: "db \<Rightarrow> store_error + VaultUser" where
  "GetVaultUser_query d = one (order_by vu_ID (db_vault_users d))"

definition GetVaultUserByUsername_query :: "string \<Rightarrow> db \<Rightarrow> store_error + VaultUser" where
  "GetVaultUserByUsername_query username d = one (filter (\<lambda>r. vu_Username r = username) (db_vault_users d))"

definition GetVaultUserByID_query :: "int \<Rightarrow> db \<Rightarrow> store_error + VaultUser" where
  "GetVaultUserByID_query i d = one (filter (\<lambda>r. vu_ID r = i) (db_vault_users d))"

definition DeleteVaultUserByID_query :: "int \<Rightarrow> db \<Rightarrow> db" where
  "DeleteVaultUserByID_query i d =
     d\<lparr>db_vault_users := delete_where (\<lambda>r. vu_ID r = i) (db_vault_users d)\<rparr>"

definition UpsertVaultPayload_query ::
  "int \<Rightarrow> string \<Rightarrow> byte list \<Rightarrow> byte list \<Rightarrow> byte list \<Rightarrow> json blob option \<Rightarrow> int \<Rightarrow> db \<Rightarrow> store_error + db" where
  "UpsertVaultPayload_query user_id version ciphertext nonce associated_data prf_params updated d =
     (if (case prf_params of None \<Rightarrow> False | Some p \<Rightarrow> \<not> json_valid p) then Inl malformed_json
      else
        let new = \<lparr>vp_ID = db_vault_payloads_seq d + 1, vp_UserID = user_id, vp_Version = version,
              vp_Ciphertext = ciphertext, vp_Nonce = nonce, vp_AssociatedData = associated_data,
              vp_PrfParams = prf_params, vp_UpdatedAtUtc = updated\<rparr>;
            conflict = user_id \<in> vp_UserID ` set (db_vault_payloads d)
        in Inr (d\<lparr>db_vault_payloads :=
                   upsert vp_UserID (\<lambda>old new. new\<lparr>vp_ID := vp_ID old\<rparr>) new (db_vault_payloads d),
                 db_vault_payloads_seq :=
                   (if conflict then db_vault_payloads_seq d else vp_ID new)\<rparr>))"

definition GetVaultPayloadForUser_query :: "int \<Rightarrow> db \<Rightarrow> store_error + VaultPayload" where
  "GetVaultPayloadForUser_query user_id d = one (filter (\<lambda>r. vp_UserID r = user_id) (db_vault_payloads d))"

definition DeleteVaultPayloadForUser_query :: "int \<Rightarrow> db \<Rightarrow> db" where
  "DeleteVaultPayloadForUser_query user_id d =
     d\<lparr>db_vault_payloads := delete_where (\<lambda>r. vp_UserID r = user_id) (db_vault_payloads d)\<rparr>"

definition UpsertWebauthnCredential_query ::
  "int \<Rightarrow> int \<Rightarrow> byte list \<Rightarrow> json blob \<Rightarrow> db \<Rightarrow> store_error + db" where
  "UpsertWebauthnCredential_query now_ms user_id credential_id credential d =
     (if \<not> json_valid credential then Inl malformed_json
      else
        let new = \<lparr>wc_ID = db_credentials_seq d + 1, wc_UserID = user_id, wc_CredentialID = credential_id,
              wc_Credential = credential, wc_CreatedAtUtc = now_ms, wc_UpdatedAtUtc = now_ms\<rparr>;
            conflict = credential_id \<in> wc_CredentialID ` set (db_credentials d)
        in Inr (d\<lparr>db_credentials :=
                   upsert wc_CredentialID
                     (\<lambda>old new. new\<lparr>wc_ID := wc_ID old, wc_CreatedAtUtc := wc_CreatedAtUtc old\<rparr>)
                     new (db_credentials d),
                 db_credentials_seq := (if conflict then db_credentials_seq d else wc_ID new)\<rparr>))"

definition ListWebauthnCredentialsByUser_query :: "int \<Rightarrow> db \<Rightarrow> WebauthnCredential list" where
  "ListWebauthnCredentialsByUser_query user_id d =
     order_by wc_ID (filter (\<lambda>r. wc_UserID r = user_id) (db_credentials d))"

definition GetWebauthnCredentialByID_query :: "byte list \<Rightarrow> db \<Rightarrow> store_error + WebauthnCredential" where
  "GetWebauthnCredentialByID_query credential_id d =
     one (filter (\<lambda>r. wc_CredentialID r = credential_id) (db_credentials d))"

definition DeleteWebauthnCredentialByID_query :: "byte list \<Rightarrow> db \<Rightarrow> db" where
  "DeleteWebauthnCredentialByID_query credential_id d =
     d\<lparr>db_credentials := delete_where (\<lambda>r. wc_CredentialID r = credential_id) (db_credentials d)\<rparr>"

section \<open>Order scalers\<close>

definition GetOrderScaler_query :: "db \<Rightarrow> store_error + OrderScaler" where
  "GetOrderScaler_query d = one (filter (\<lambda>r. sc_ID r = 1) (db_order_scalers d))"

definition UpsertOrderScaler_query :: "int \<Rightarrow> f64 \<Rightarrow> string \<Rightarrow> string option \<Rightarrow> db \<Rightarrow> db" where
  "UpsertOrderScaler_query now_ms multiplier updated_by notes d =
     d\<lparr>db_order_scalers := upsert sc_ID (\<lambda>old new. new)
        \<lparr>sc_ID = 1, sc_Multiplier = multiplier, sc_UpdatedAtUtc = now_ms, sc_UpdatedBy = updated_by,
         sc_Notes = notes\<rparr> (db_order_scalers d)\<rparr>"

definition ListBotOrderScalers_query :: "db \<Rightarrow> BotOrderScaler list" where
  "ListBotOrderScalers_query d = order_by bs_BotID (db_bot_order_scalers d)"

definition GetBotOrderScaler_query :: "int \<Rightarrow> db \<Rightarrow> store_error + BotOrderScaler" where
  "GetBotOrderScaler_query bot_id d = one (filter (\<lambda>r. bs_BotID r = bot_id) (db_bot_order_scalers d))"

definition UpsertBotOrderScaler_query ::
  "int \<Rightarrow> int \<Rightarrow> f64 option \<Rightarrow> string option \<Rightarrow> string \<Rightarrow> db \<Rightarrow> db" where
  "UpsertBotOrderScaler_query now_ms bot_id multiplier notes updated_by d =
     d\<lparr>db_bot_order_scalers := upsert bs_BotID
        (\<lambda>old new. new\<lparr>bs_EffectiveFromUtc := bs_EffectiveFromUtc old\<rparr>)
        \<lparr>bs_BotID = bot_id, bs_Multiplier = multiplier, bs_Notes = notes, bs_EffectiveFromUtc = now_ms,
         bs_UpdatedAtUtc = now_ms, bs_UpdatedBy = updated_by\<rparr> (db_bot_order_scalers d)\<rparr>"

definition DeleteBotOrderScaler_query :: "int \<Rightarrow> db \<Rightarrow> db" where
  "DeleteBotOrderScaler_query bot_id d =
     d\<lparr>db_bot_order_scalers := delete_where (\<lambda>r. bs_BotID r = bot_id) (db_bot_order_scalers d)\<rparr>"

section \<open>Scaled orders\<close>

definition InsertScaledOrder :: "ScaledOrder \<Rightarrow> db \<Rightarrow> store_error + db" where
  "InsertScaledOrder row d =
     map_sum id (\<lambda>rows. d\<lparr>db_scaled_orders := rows\<rparr>) (insert_row so_key row (db_scaled_orders d))"

definition ListScaledOrdersByOrderId_query :: "string \<Rightarrow> string \<Rightarrow> db \<Rightarrow> ScaledOrder list" where
  "ListScaledOrdersByOrderId_query order_id prefx d =
     order_by (\<lambda>r. (so_CreatedAtUtc r, so_OrderID r))
       (filter (\<lambda>r. so_OrderID r = order_id \<or> like_prefix (so_OrderID r) prefx) (db_scaled_orders d))"

definition ListScaledOrdersByDeal_query :: "int \<Rightarrow> db \<Rightarrow> ScaledOrder list" where
  "ListScaledOrdersByDeal_query deal_id d =
     order_by (\<lambda>r. (so_CreatedAtUtc r, so_OrderID r))
       (filter (\<lambda>r. so_DealID r = deal_id) (db_scaled_orders d))"

definition ListScaledOrderAuditsForOrderId ::
  "string \<Rightarrow> string \<Rightarrow> string \<Rightarrow> int \<Rightarrow> int \<Rightarrow> db \<Rightarrow> ScaledOrder list" where
  "ListScaledOrderAuditsForOrderId venue order_id prefx observed_from observed_to d =
     order_by (\<lambda>r. (so_CreatedAtUtc r, so_OrderID r))
       (filter (\<lambda>r. so_VenueID r = venue \<and> (so_OrderID r = order_id \<or> like_prefix (so_OrderID r) prefx) \<and>
           observed_from \<le> so_CreatedAtUtc r \<and> so_CreatedAtUtc r \<le> observed_to) (db_scaled_orders d))"

definition CloneScaledOrdersToWallet :: "string \<Rightarrow> string \<Rightarrow> string \<Rightarrow> db \<Rightarrow> db" where
  "CloneScaledOrdersToWallet to_wallet venue from_wallet d =
     d\<lparr>db_scaled_orders := fold (\<lambda>r. insert_ignore so_key (r\<lparr>so_Wallet := to_wallet\<rparr>))
        (filter (\<lambda>r. so_VenueID r = venue \<and> so_Wallet r = from_wallet) (db_scaled_orders d))
        (db_scaled_orders d)\<rparr>"

definition DeleteScaledOrdersForWallet :: "string \<Rightarrow> string \<Rightarrow> db \<Rightarrow> db" where
  "DeleteScaledOrdersForWallet venue wallet d =
     d\<lparr>db_scaled_orders :=
        delete_where (\<lambda>r. so_VenueID r = venue \<and> so_Wallet r = wallet) (db_scaled_orders d)\<rparr>"

section \<open>Logs\<close>

definition InsertAppLogEntry ::
  "int \<Rightarrow> string \<Rightarrow> string option \<Rightarrow> string \<Rightarrow> string \<Rightarrow> string option \<Rightarrow> int option \<Rightarrow> string option
    \<Rightarrow> db \<Rightarrow> db" where
  "InsertAppLogEntry ts level scope message attrs source_file source_line source_func d =
     (let r = \<lparr>al_ID = db_app_logs_seq d + 1, al_TimestampUtc = ts, al_Level = level, al_Scope = scope,
        al_Message = message, al_Attrs = attrs, al_SourceFile = source_file, al_SourceLine = source_line,
        al_SourceFunc = source_func\<rparr>
      in d\<lparr>db_app_logs := db_app_logs d @ [r], db_app_logs_seq := al_ID r\<rparr>)"

section \<open>The tables as keyed tables\<close>

interpretation creates: keyed_table hs_key create_mrg
  by unfold_locales (simp add: hs_key_def create_mrg_def)

interpretation modifies: keyed_table hs_key modify_mrg
  by unfold_locales (simp add: hs_key_def modify_mrg_def)

interpretation cancels: keyed_table hs_key cancel_mrg
  by unfold_locales (simp add: hs_key_def cancel_mrg_def)

interpretation bot_rows: keyed_table bt_BotID
  "\<lambda>old new. old\<lparr>bt_Payload := bt_Payload new, bt_LastSyncedUtc := bt_LastSyncedUtc new\<rparr>"
  by unfold_locales simp

interpretation deal_rows: keyed_table td_DealID
  "\<lambda>old new. old\<lparr>td_BotID := td_BotID new, td_CreatedAtUtc := td_CreatedAtUtc new,
     td_UpdatedAtUtc := td_UpdatedAtUtc new, td_Payload := td_Payload new\<rparr>"
  by unfold_locales simp

interpretation venue_rows: keyed_table vn_ID "\<lambda>old new. new"
  by unfold_locales simp

interpretation assignment_rows: keyed_table va_key "\<lambda>old new. new"
  by unfold_locales simp

interpretation payload_rows: keyed_table vp_UserID "\<lambda>old new. new\<lparr>vp_ID := vp_ID old\<rparr>"
  by unfold_locales simp

interpretation credential_rows: keyed_table wc_CredentialID
  "\<lambda>old new. new\<lparr>wc_ID := wc_ID old, wc_CreatedAtUtc := wc_CreatedAtUtc old\<rparr>"
  by unfold_locales simp

interpretation scaler_rows: keyed_table sc_ID "\<lambda>old new. new"
  by unfold_locales simp

interpretation bot_scaler_rows: keyed_table bs_BotID
  "\<lambda>old new. new\<lparr>bs_EffectiveFromUtc := bs_EffectiveFromUtc old\<rparr>"
  by unfold_locales simp

end
