(* ===== verification/Storage.thy ===== *)
theory Storage
  imports Database
begin

text \<open>
  \<^verbatim>\<open>storage/storage.go\<close>: the operations of the storage layer on the tables of \<open>Database\<close>, and
  the stream events they publish. The laws are in \<open>Storage_Laws\<close>.

  The mutex makes each operation atomic, so an operation is a function on the state; \<^verbatim>\<open>time.Now()\<close>
  and SQLite's clock are the argument \<open>now\<close>. A read-only operation takes the database alone. A
  value, a found flag and an error that the code returns together are a sum whose right side is an
  option. Logging is left out. The order id of a row is the hex text the code writes.
\<close>

section \<open>State and events\<close>

datatype OrderLogEntryType =
  ThreeCommasEvent | HyperliquidSubmissionEntry | HyperliquidStatusEntry | OrderScalerConfigEntry
| ScaledOrderAuditEntry

datatype OrderScalerSource = OrderScalerSourceDefault | OrderScalerSourceBotOverride

record api_OrderScalerState =
  as_Multiplier :: f64
  as_Notes :: "string option"
  as_UpdatedAt :: time
  as_UpdatedBy :: string

record api_OrderScalerOverride =
  ao_BotId :: int
  ao_EffectiveFrom :: time
  ao_Multiplier :: "f64 option"
  ao_Notes :: "string option"
  ao_UpdatedAt :: time
  ao_UpdatedBy :: string

record api_EffectiveOrderScaler =
  ae_Default :: api_OrderScalerState
  ae_Multiplier :: f64
  ae_OrderId :: string
  ae_Override :: "api_OrderScalerOverride option"
  ae_Source :: OrderScalerSource

record api_ScaledOrderAudit =
  aa_BotId :: int
  aa_CreatedAt :: time
  aa_DealId :: int
  aa_Multiplier :: f64
  aa_MultiplierUpdatedBy :: string
  aa_OrderSide :: string
  aa_OriginalSize :: f64
  aa_RoundingDelta :: f64
  aa_ScaledSize :: f64
  aa_SkipReason :: "string option"
  aa_Skipped :: bool
  aa_StackIndex :: int
  aa_SubmittedOrderId :: "string option"

record StreamEvent =
  se_Type :: OrderLogEntryType
  se_OrderID :: OrderId
  se_Identifier :: "OrderIdentifier option"
  se_ObservedAt :: time
  se_BotEvent :: "tc_BotEvent option"
  se_Submission :: "submission option"
  se_Status :: "WsOrder option"
  se_Sequence :: "int option"
  se_ScalerConfig :: "api_EffectiveOrderScaler option"
  se_ScaledOrderAudit :: "api_ScaledOrderAudit option"
  se_Actor :: "string option"

definition new_StreamEvent :: "OrderLogEntryType \<Rightarrow> OrderId \<Rightarrow> StreamEvent" where
  "new_StreamEvent typ oid = \<lparr>se_Type = typ, se_OrderID = oid, se_Identifier = None,
     se_ObservedAt = zero_time, se_BotEvent = None, se_Submission = None, se_Status = None,
     se_Sequence = None, se_ScalerConfig = None, se_ScaledOrderAudit = None, se_Actor = None\<rparr>"

text \<open>\<open>sg_stream\<close>: a publisher is configured; \<open>sg_published\<close>: what was published, in order.\<close>

record Storage =
  sg_db :: db
  sg_stream :: bool
  sg_published :: "StreamEvent list"

record VenueAssignment =
  as_VenueID :: VenueID
  as_Wallet :: string
  as_IsPrimary :: bool

definition defaultHyperliquidVenueID :: VenueID where
  "defaultHyperliquidVenueID = ''hyperliquid:default''"

definition defaultHyperliquidVenueType :: string where
  "defaultHyperliquidVenueType = ''hyperliquid''"

definition defaultHyperliquidName :: string where
  "defaultHyperliquidName = ''Default Hyperliquid Venue''"

definition defaultHyperliquidWallet :: string where
  "defaultHyperliquidWallet = ''default''"

definition primaryHyperliquidFlagKey :: string where
  "primaryHyperliquidFlagKey = ''is_primary''"

definition hyperliquidCreatePayloadType :: string where
  "hyperliquidCreatePayloadType = ''hyperliquid.create.v1''"

definition hyperliquidModifyPayloadType :: string where
  "hyperliquidModifyPayloadType = ''hyperliquid.modify.v1''"

definition hyperliquidCancelPayloadType :: string where
  "hyperliquidCancelPayloadType = ''hyperliquid.cancel.v1''"

definition hyperliquidStatusPayloadType :: string where
  "hyperliquidStatusPayloadType = ''hyperliquid.status.v1''"

definition errPrimaryHyperliquidVenueNotFound :: store_error where
  "errPrimaryHyperliquidVenueNotFound = StoreErr ''storage: primary hyperliquid venue not found''"

definition publishStreamEventLocked :: "time \<Rightarrow> StreamEvent \<Rightarrow> Storage \<Rightarrow> Storage" where
  "publishStreamEventLocked now evt s =
     (if \<not> sg_stream s then s
      else let evt = (if se_ObservedAt evt = zero_time then evt\<lparr>se_ObservedAt := now\<rparr> else evt)
           in s\<lparr>sg_published := sg_published s @ [evt]\<rparr>)"

section \<open>Identifiers and errors\<close>

definition ensureIdentifier :: "OrderIdentifier \<Rightarrow> OrderIdentifier" where
  "ensureIdentifier ident =
     (let ident = (if oi_VenueID ident = [] then ident\<lparr>oi_VenueID := defaultHyperliquidVenueID\<rparr> else ident)
      in if oi_Wallet ident = [] then ident\<lparr>oi_Wallet := defaultHyperliquidWallet\<rparr> else ident)"

fun error_text :: "store_error \<Rightarrow> string" where
  "error_text ErrNoRows = ''sql: no rows in result set''"
| "error_text (StoreErr m) = m"

definition isUniqueConstraintError :: "store_error option \<Rightarrow> bool" where
  "isUniqueConstraintError err =
     (case err of None \<Rightarrow> False | Some e \<Rightarrow> Contains (error_text e) ''UNIQUE constraint failed'')"

section \<open>The default venue\<close>

definition migrateDefaultVenueWalletLocked :: "string \<Rightarrow> string \<Rightarrow> db \<Rightarrow> db" where
  "migrateDefaultVenueWalletLocked fromWallet toWallet d =
     (if fromWallet = toWallet then d
      else let venue = defaultHyperliquidVenueID;
               d = CloneHyperliquidSubmissionsToWallet toWallet venue fromWallet d;
               d = CloneHyperliquidStatusesToWallet toWallet venue fromWallet d;
               d = CloneScaledOrdersToWallet toWallet venue fromWallet d;
               d = DeleteHyperliquidStatusesForWallet venue fromWallet d;
               d = DeleteHyperliquidSubmissionsForWallet venue fromWallet d
           in DeleteScaledOrdersForWallet venue fromWallet d)"

text \<open>The transaction is the last step, so an error leaves the database as it was.\<close>

definition upsertDefaultVenueLocked :: "string \<Rightarrow> Storage \<Rightarrow> store_error option \<times> Storage" where
  "upsertDefaultVenueLocked wallet0 s =
     (let wallet = (if wallet0 = [] then defaultHyperliquidWallet else wallet0);
          existing = GetVenueByTypeAndWallet defaultHyperliquidVenueType wallet (sg_db s);
          hasConflictingVenue =
            (case existing of Inl _ \<Rightarrow> False | Inr v \<Rightarrow> vn_ID v \<noteq> defaultHyperliquidVenueID);
          row = GetVenue defaultHyperliquidVenueID (sg_db s);
          currentWallet =
            (case row of Inr v \<Rightarrow> if vn_Wallet v \<noteq> [] then vn_Wallet v else defaultHyperliquidWallet
                       | Inl _ \<Rightarrow> defaultHyperliquidWallet)
      in case existing of
           Inl (StoreErr m) \<Rightarrow> (Some (StoreErr m), s)
         | _ \<Rightarrow>
             (case row of
                Inl (StoreErr m) \<Rightarrow> (Some (StoreErr m), s)
              | _ \<Rightarrow>
                  (case UpsertVenue defaultHyperliquidVenueID defaultHyperliquidVenueType
                          defaultHyperliquidName wallet (Doc (JObject [])) (sg_db s) of
                     Inl e \<Rightarrow>
                       if hasConflictingVenue \<and> isUniqueConstraintError (Some e) then (None, s)
                       else (Some e, s)
                   | Inr d \<Rightarrow>
                       let d = (if currentWallet \<noteq> wallet
                                then migrateDefaultVenueWalletLocked currentWallet wallet d else d)
                       in (None, s\<lparr>sg_db := d\<rparr>))))"

definition ensureDefaultVenue :: "Storage \<Rightarrow> store_error option \<times> Storage" where
  "ensureDefaultVenue s = upsertDefaultVenueLocked defaultHyperliquidWallet s"

definition EnsureDefaultVenueWallet :: "string \<Rightarrow> Storage \<Rightarrow> store_error option \<times> Storage" where
  "EnsureDefaultVenueWallet wallet s = upsertDefaultVenueLocked wallet s"

text \<open>
  \<^verbatim>\<open>schema.sql\<close>, run on every start against the tables the file holds: it creates what is missing,
  seeds the default scaler and drops \<^verbatim>\<open>scaled_orders\<close>.
\<close>

definition apply_schema :: "time \<Rightarrow> db \<Rightarrow> db" where
  "apply_schema now d =
     d\<lparr>db_order_scalers := insert_ignore sc_ID
          \<lparr>sc_ID = 1, sc_Multiplier = 1, sc_UpdatedAtUtc = to_UnixMilli now, sc_UpdatedBy = ''system'',
           sc_Notes = None\<rparr> (db_order_scalers d),
       db_scaled_orders := []\<rparr>"

definition Storage_New :: "time \<Rightarrow> bool \<Rightarrow> db \<Rightarrow> store_error + Storage" where
  "Storage_New now stream d =
     (case ensureDefaultVenue \<lparr>sg_db = apply_schema now d, sg_stream = stream, sg_published = []\<rparr> of
        (Some e, _) \<Rightarrow> Inl e
      | (None, s) \<Rightarrow> Inr s)"

section \<open>Venues of a bot\<close>

definition UpsertBotVenueAssignment ::
  "time \<Rightarrow> uint32 \<Rightarrow> VenueID \<Rightarrow> bool \<Rightarrow> Storage \<Rightarrow> store_error option \<times> Storage" where
  "UpsertBotVenueAssignment now botID venueID isPrimary s =
     (case UpsertBotVenueAssignment_query (to_UnixMilli now) (uint botID) venueID
             (if isPrimary then 1 else 0) (sg_db s) of
        Inl e \<Rightarrow> (Some e, s)
      | Inr d \<Rightarrow> (None, s\<lparr>sg_db := d\<rparr>))"

definition HasPrimaryVenueAssignment :: "uint32 \<Rightarrow> db \<Rightarrow> store_error + bool" where
  "HasPrimaryVenueAssignment botID d =
     (case GetPrimaryVenueForBot (uint botID) d of
        Inr _ \<Rightarrow> Inr True
      | Inl ErrNoRows \<Rightarrow> Inr False
      | Inl e \<Rightarrow> Inl e)"

text \<open>A JSON value that is neither an object nor null does not decode into a Go map.\<close>

definition decodeVenueFlags :: "json blob \<Rightarrow> store_error + (string \<times> json) list" where
  "decodeVenueFlags raw =
     (case Unmarshal raw of
        Inl e \<Rightarrow> Inl e
      | Inr (JObject flags) \<Rightarrow> Inr flags
      | Inr JNull \<Rightarrow> Inr []
      | Inr _ \<Rightarrow> Inl (StoreErr ''json: cannot unmarshal into Go value''))"

text \<open>\<^verbatim>\<open>strconv.ParseBool\<close>.\<close>

definition ParseBool :: "string \<Rightarrow> bool option" where
  "ParseBool str =
     (if str \<in> {''1'', ''t'', ''T'', ''TRUE'', ''true'', ''True''} then Some True
      else if str \<in> {''0'', ''f'', ''F'', ''FALSE'', ''false'', ''False''} then Some False
      else None)"

definition isPrimaryVenueFlagged :: "(string \<times> json) list \<Rightarrow> bool" where
  "isPrimaryVenueFlagged flags =
     (case map_of flags primaryHyperliquidFlagKey of
        Some (JBool v) \<Rightarrow> v
      | Some (JNumber v) \<Rightarrow> \<not> feq v 0
      | Some (JString v) \<Rightarrow>
          if v = [] then False else (case ParseBool v of Some p \<Rightarrow> p | None \<Rightarrow> False)
      | _ \<Rightarrow> False)"

definition wallet_or_default :: "VenueRow \<Rightarrow> string" where
  "wallet_or_default row = (if vn_Wallet row = [] then defaultHyperliquidWallet else vn_Wallet row)"

fun find_primary_venue :: "VenueRow list \<Rightarrow> store_error + VenueAssignment" where
  "find_primary_venue [] = Inl errPrimaryHyperliquidVenueNotFound"
| "find_primary_venue (row # rows) =
     (if \<not> EqualFold (vn_Type row) defaultHyperliquidVenueType then find_primary_venue rows
      else (case decodeVenueFlags (vn_Flags row) of
          Inl e \<Rightarrow> Inl e
        | Inr flags \<Rightarrow>
            if \<not> isPrimaryVenueFlagged flags then find_primary_venue rows
            else Inr \<lparr>as_VenueID = vn_ID row, as_Wallet = wallet_or_default row, as_IsPrimary = True\<rparr>))"

definition findPrimaryHyperliquidVenueLocked :: "db \<Rightarrow> store_error + VenueAssignment" where
  "findPrimaryHyperliquidVenueLocked d = find_primary_venue (ListVenues d)"

definition defaultVenueAssignmentLocked :: "db \<Rightarrow> store_error + VenueAssignment" where
  "defaultVenueAssignmentLocked d =
     (case GetVenue defaultHyperliquidVenueID d of
        Inl ErrNoRows \<Rightarrow>
          Inr \<lparr>as_VenueID = defaultHyperliquidVenueID, as_Wallet = defaultHyperliquidWallet,
               as_IsPrimary = True\<rparr>
      | Inl e \<Rightarrow> Inl e
      | Inr row \<Rightarrow>
          let wallet = wallet_or_default row;
              assignment = \<lparr>as_VenueID = vn_ID row, as_Wallet = wallet, as_IsPrimary = True\<rparr>
          in if wallet \<noteq> defaultHyperliquidWallet then Inr assignment
             else (case findPrimaryHyperliquidVenueLocked d of
                 Inr primary \<Rightarrow> Inr primary
               | Inl e \<Rightarrow> if e = errPrimaryHyperliquidVenueNotFound then Inr assignment else Inl e))"

definition ResolveDefaultAlias :: "db \<Rightarrow> store_error + VenueAssignment" where
  "ResolveDefaultAlias d = defaultVenueAssignmentLocked d"

fun resolve_assignments :: "db \<Rightarrow> BotVenueAssignment list \<Rightarrow> store_error + VenueAssignment list" where
  "resolve_assignments d [] = Inr []"
| "resolve_assignments d (a # rest) =
     (case GetVenue (va_VenueID a) d of
        Inl ErrNoRows \<Rightarrow> resolve_assignments d rest
      | Inl e \<Rightarrow> Inl e
      | Inr row \<Rightarrow>
          map_sum id (\<lambda>vs. \<lparr>as_VenueID = va_VenueID a, as_Wallet = wallet_or_default row,
                           as_IsPrimary = (va_IsPrimary a \<noteq> 0)\<rparr> # vs)
            (resolve_assignments d rest))"

definition ListVenuesForBot :: "uint32 \<Rightarrow> db \<Rightarrow> store_error + VenueAssignment list" where
  "ListVenuesForBot botID d =
     (case resolve_assignments d (ListBotVenueAssignments (uint botID) d) of
        Inl e \<Rightarrow> Inl e
      | Inr [] \<Rightarrow> map_sum id (\<lambda>a. [a]) (defaultVenueAssignmentLocked d)
      | Inr vs \<Rightarrow> Inr vs)"

section \<open>Submission identifiers\<close>

definition append_identifier ::
  "OrderId \<Rightarrow> string \<times> string \<Rightarrow> OrderIdentifier list \<Rightarrow> OrderIdentifier list" where
  "append_identifier oid vw identifiers =
     (let ident = ensureIdentifier (NewOrderIdentifier (fst vw) (snd vw) oid)
      in if ident \<in> set identifiers then identifiers else identifiers @ [ident])"

definition ListSubmissionIdentifiersForOrder :: "OrderId \<Rightarrow> db \<Rightarrow> OrderIdentifier list" where
  "ListSubmissionIdentifiersForOrder oid d =
     (let hex = ToLower (Hex oid);
          subRows = map (\<lambda>r. (hs_VenueID r, hs_Wallet r))
            (filter (\<lambda>r. ToLower (hs_OrderID r) = hex) (db_submissions d));
          statusRows = map (\<lambda>r. (sh_VenueID r, sh_Wallet r))
            (filter (\<lambda>r. ToLower (sh_OrderID r) = hex) (db_statuses d))
      in fold (append_identifier oid) statusRows (fold (append_identifier oid) subRows []))"

section \<open>Bot events\<close>

definition RecordThreeCommasBotEvent ::
  "time \<Rightarrow> OrderId \<Rightarrow> tc_BotEvent \<Rightarrow> Storage \<Rightarrow> (store_error + int) \<times> Storage" where
  "RecordThreeCommasBotEvent now oid order s =
     (case InsertThreeCommasBotEvent (to_UnixMilli now) (Hex oid) (uint (BotID oid)) (uint (DealID oid))
             (uint (BotEventID oid)) (to_UnixMilli (ev_CreatedAt order)) (Doc order) (sg_db s) of
        (Inl e, _) \<Rightarrow> (Inl e, s)
      | (Inr lastInsertId, d) \<Rightarrow>
          let s = s\<lparr>sg_db := d\<rparr> in
          if lastInsertId \<noteq> 0 then
            (Inr lastInsertId, publishStreamEventLocked now
               ((new_StreamEvent ThreeCommasEvent oid)
                  \<lparr>se_Identifier := Some (ensureIdentifier (NewOrderIdentifier [] [] oid)),
                   se_BotEvent := Some order\<rparr>) s)
          else (Inr lastInsertId, s))"

definition RecordThreeCommasBotEventLog ::
  "time \<Rightarrow> OrderId \<Rightarrow> tc_BotEvent \<Rightarrow> Storage \<Rightarrow> (store_error + int) \<times> Storage" where
  "RecordThreeCommasBotEventLog now oid order s =
     (case InsertThreeCommasBotEventLog (to_UnixMilli now) (Hex oid) (uint (BotID oid))
             (uint (DealID oid)) (uint (BotEventID oid)) (to_UnixMilli (ev_CreatedAt order))
             (Doc order) (sg_db s) of
        (Inl e, _) \<Rightarrow> (Inl e, s)
      | (Inr lastInsertId, d) \<Rightarrow> (Inr lastInsertId, s\<lparr>sg_db := d\<rparr>))"

fun decode_events :: "(int \<times> tc_BotEvent blob) list \<Rightarrow> store_error + BotEvent list" where
  "decode_events [] = Inr []"
| "decode_events ((rowID, payload) # rows) =
     (case Unmarshal payload of
        Inl e \<Rightarrow> Inl e
      | Inr evt \<Rightarrow> map_sum id (Cons \<lparr>RowID = rowID, tc_event = evt\<rparr>) (decode_events rows))"

definition ListEventsForOrder :: "uint32 \<Rightarrow> uint32 \<Rightarrow> uint32 \<Rightarrow> db \<Rightarrow> store_error + BotEvent list" where
  "ListEventsForOrder botID dealID botEventID d =
     decode_events (ListThreeCommasBotEventsForOrder (uint botID) (uint dealID) (uint botEventID) d)"

record BotEventLog =
  bl_RowID :: int
  bl_BotEvent :: tc_BotEvent
  bl_BotID :: int
  bl_DealID :: int
  bl_BoteventID :: int
  bl_OrderId :: OrderId
  bl_CreatedAt :: time
  bl_ObservedAt :: time

definition decode_order_id :: "string \<Rightarrow> store_error + OrderId" where
  "decode_order_id str =
     (case FromHexString str of Inl _ \<Rightarrow> Inl (StoreErr ''decode orderid'') | Inr oid \<Rightarrow> Inr oid)"

fun decode_logs :: "ThreecommasBoteventsLog list \<Rightarrow> store_error + BotEventLog list" where
  "decode_logs [] = Inr []"
| "decode_logs (row # rows) =
     (case Unmarshal (be_Payload row) of
        Inl e \<Rightarrow> Inl e
      | Inr evt \<Rightarrow>
          (case decode_order_id (be_OrderID row) of
             Inl e \<Rightarrow> Inl e
           | Inr oid \<Rightarrow>
               map_sum id (Cons \<lparr>bl_RowID = be_ID row, bl_BotEvent = evt, bl_BotID = be_BotID row,
                 bl_DealID = be_DealID row, bl_BoteventID = be_BoteventID row, bl_OrderId = oid,
                 bl_CreatedAt = UnixMilli (be_CreatedAtUtc row),
                 bl_ObservedAt = UnixMilli (be_ObservedAtUtc row)\<rparr>) (decode_logs rows)))"

definition ListEventsLog :: "db \<Rightarrow> store_error + BotEventLog list" where
  "ListEventsLog d = decode_logs (ListThreeCommasBotEventLogs d)"

definition HasOrderId :: "OrderId \<Rightarrow> db \<Rightarrow> bool" where
  "HasOrderId oid d = (HasThreeCommasOrderId (Hex oid) d = 1)"

definition LoadThreeCommasBotEvent :: "OrderId \<Rightarrow> db \<Rightarrow> store_error + tc_BotEvent option" where
  "LoadThreeCommasBotEvent oid d =
     (case FetchThreeCommasBotEvent (Hex oid) d of
        Inl ErrNoRows \<Rightarrow> Inr None
      | Inl e \<Rightarrow> Inl e
      | Inr payload \<Rightarrow> map_sum id Some (Unmarshal payload))"

section \<open>Submissions\<close>

definition fetchBotEventByRowIDLocked :: "int \<Rightarrow> db \<Rightarrow> store_error + tc_BotEvent" where
  "fetchBotEventByRowIDLocked rowID d =
     (case one (filter (\<lambda>r. be_ID r = rowID) (db_botevents d)) of
        Inl e \<Rightarrow> Inl e
      | Inr r \<Rightarrow> Unmarshal (be_Payload r))"

definition publishHyperliquidSubmissionLocked ::
  "time \<Rightarrow> OrderIdentifier \<Rightarrow> submission \<Rightarrow> int \<Rightarrow> Storage \<Rightarrow> Storage" where
  "publishHyperliquidSubmissionLocked now ident0 sub boteventRowID s =
     (if \<not> sg_stream s then s
      else
        let ident = ensureIdentifier ident0;
            botEvent = (if 0 < boteventRowID
              then (case fetchBotEventByRowIDLocked boteventRowID (sg_db s) of
                      Inl _ \<Rightarrow> None | Inr evt \<Rightarrow> Some evt)
              else None)
        in publishStreamEventLocked now
             ((new_StreamEvent HyperliquidSubmissionEntry (oi_OrderId ident))
                \<lparr>se_Identifier := Some ident, se_BotEvent := botEvent, se_Submission := Some sub\<rparr>) s)"

definition RecordHyperliquidOrderRequest ::
  "time \<Rightarrow> OrderIdentifier \<Rightarrow> CreateOrderRequest \<Rightarrow> int \<Rightarrow> Storage \<Rightarrow> store_error option \<times> Storage" where
  "RecordHyperliquidOrderRequest now ident0 req boteventRowId s =
     (let ident = ensureIdentifier ident0 in
      case UpsertHyperliquidCreate (to_UnixMilli now) (Venue ident) (oi_Wallet ident) (oi_Hex ident)
             (Doc req) hyperliquidCreatePayloadType (Doc (SubCreate req)) boteventRowId (sg_db s) of
        Inl e \<Rightarrow> (Some e, s)
      | Inr d \<Rightarrow>
          (None, publishHyperliquidSubmissionLocked now ident (SubCreate req) boteventRowId (s\<lparr>sg_db := d\<rparr>)))"

definition AppendHyperliquidModify ::
  "time \<Rightarrow> OrderIdentifier \<Rightarrow> ModifyOrderRequest \<Rightarrow> int \<Rightarrow> Storage \<Rightarrow> store_error option \<times> Storage" where
  "AppendHyperliquidModify now ident0 req boteventRowId s =
     (let ident = ensureIdentifier ident0 in
      case AppendHyperliquidModify_query (to_UnixMilli now) (Venue ident) (oi_Wallet ident) (oi_Hex ident)
             (Doc req) hyperliquidModifyPayloadType (Doc (SubModify req)) boteventRowId (sg_db s) of
        Inl e \<Rightarrow> (Some e, s)
      | Inr d \<Rightarrow>
          (None, publishHyperliquidSubmissionLocked now ident (SubModify req) boteventRowId (s\<lparr>sg_db := d\<rparr>)))"

definition RecordHyperliquidCancel ::
  "time \<Rightarrow> OrderIdentifier \<Rightarrow> CancelOrderRequestByCloid \<Rightarrow> int \<Rightarrow> Storage \<Rightarrow> store_error option \<times> Storage" where
  "RecordHyperliquidCancel now ident0 req boteventRowId s =
     (let ident = ensureIdentifier ident0 in
      case UpsertHyperliquidCancel (to_UnixMilli now) (Venue ident) (oi_Wallet ident) (oi_Hex ident)
             (Doc req) hyperliquidCancelPayloadType (Doc (SubCancel req)) boteventRowId (sg_db s) of
        Inl e \<Rightarrow> (Some e, s)
      | Inr d \<Rightarrow>
          (None, publishHyperliquidSubmissionLocked now ident (SubCancel req) boteventRowId (s\<lparr>sg_db := d\<rparr>)))"

text \<open>
  Decoding a request column; no column is no request. The fallback reads the payload column. A
  payload of another kind is taken as undecodable; a row the program writes has its own column
  set whenever the fallback would be taken.
\<close>

definition decodeCreateRequest :: "CreateOrderRequest blob option \<Rightarrow> store_error + CreateOrderRequest option" where
  "decodeCreateRequest raw =
     (case raw of None \<Rightarrow> Inr None | Some b \<Rightarrow> map_sum id Some (Unmarshal b))"

definition decodeCancelRequest ::
  "CancelOrderRequestByCloid blob option \<Rightarrow> store_error + CancelOrderRequestByCloid option" where
  "decodeCancelRequest raw =
     (case raw of None \<Rightarrow> Inr None | Some b \<Rightarrow> map_sum id Some (Unmarshal b))"

fun decode_list :: "'a blob list \<Rightarrow> store_error + 'a list" where
  "decode_list [] = Inr []"
| "decode_list (b # bs) =
     (case Unmarshal b of Inl e \<Rightarrow> Inl e | Inr x \<Rightarrow> map_sum id (Cons x) (decode_list bs))"

definition decodeLatestModifyRequest ::
  "ModifyOrderRequest blob list \<Rightarrow> ModifyOrderRequest blob option \<Rightarrow> store_error + ModifyOrderRequest option" where
  "decodeLatestModifyRequest hist fallback =
     (case decode_list hist of
        Inl e \<Rightarrow> Inl e
      | Inr decoded \<Rightarrow>
          if decoded \<noteq> [] then Inr (Some (last decoded))
          else (case fallback of None \<Rightarrow> Inr None | Some b \<Rightarrow> map_sum id Some (Unmarshal b)))"

definition blob_as_create :: "submission blob \<Rightarrow> CreateOrderRequest blob" where
  "blob_as_create b = (case b of Doc (SubCreate r) \<Rightarrow> Doc r | _ \<Rightarrow> NotJson [])"

definition blob_as_modify :: "submission blob \<Rightarrow> ModifyOrderRequest blob" where
  "blob_as_modify b = (case b of Doc (SubModify r) \<Rightarrow> Doc r | _ \<Rightarrow> NotJson [])"

definition blob_as_cancel :: "submission blob \<Rightarrow> CancelOrderRequestByCloid blob" where
  "blob_as_cancel b = (case b of Doc (SubCancel r) \<Rightarrow> Doc r | _ \<Rightarrow> NotJson [])"

definition action_type_of :: "string \<Rightarrow> ActionType" where
  "action_type_of kind =
     (if kind = ''create'' then ActionCreate else if kind = ''modify'' then ActionModify
      else if kind = ''cancel'' then ActionCancel else ActionNone)"

definition load_create :: "string \<Rightarrow> HyperliquidSubmission \<Rightarrow> store_error + CreateOrderRequest option" where
  "load_create kind row =
     (case decodeCreateRequest (hs_CreatePayload row) of
        Inr None \<Rightarrow> if kind = ''create'' then decodeCreateRequest (Some (blob_as_create (hs_PayloadBlob row)))
                    else Inr None
      | r \<Rightarrow> r)"

definition load_modify :: "string \<Rightarrow> HyperliquidSubmission \<Rightarrow> store_error + ModifyOrderRequest option" where
  "load_modify kind row =
     (case decodeLatestModifyRequest (hs_ModifyPayloads row) None of
        Inr None \<Rightarrow> if kind = ''modify'' then decodeLatestModifyRequest [] (Some (blob_as_modify (hs_PayloadBlob row)))
                    else Inr None
      | r \<Rightarrow> r)"

definition load_cancel :: "string \<Rightarrow> HyperliquidSubmission \<Rightarrow> store_error + CancelOrderRequestByCloid option" where
  "load_cancel kind row =
     (case decodeCancelRequest (hs_CancelPayload row) of
        Inr None \<Rightarrow> if kind = ''cancel'' then decodeCancelRequest (Some (blob_as_cancel (hs_PayloadBlob row)))
                    else Inr None
      | r \<Rightarrow> r)"

definition decode_submission :: "HyperliquidSubmission \<Rightarrow> store_error + Action" where
  "decode_submission row =
     (let kind = ToLower (TrimSpace (hs_ActionKind row)) in
      case load_create kind row of
        Inl e \<Rightarrow> Inl e
      | Inr createReq \<Rightarrow>
          (case load_modify kind row of
             Inl e \<Rightarrow> Inl e
           | Inr modifyReq \<Rightarrow>
               (case load_cancel kind row of
                  Inl e \<Rightarrow> Inl e
                | Inr cancelReq \<Rightarrow>
                    let action = \<lparr>ac_Type = action_type_of kind,
                          ac_Create = (case createReq of None \<Rightarrow> zero_Create | Some r \<Rightarrow> r),
                          ac_Modify = (case modifyReq of None \<Rightarrow> zero_Modify | Some r \<Rightarrow> r),
                          ac_Cancel = (case cancelReq of None \<Rightarrow> zero_Cancel | Some r \<Rightarrow> r),
                          ac_Reason = []\<rparr>
                    in Inr (if ac_Type action = ActionModify \<and> modifyReq = None
                            then action\<lparr>ac_Type := ActionNone, ac_Reason := ''modify history empty''\<rparr>
                            else action))))"

definition LoadHyperliquidSubmission :: "OrderIdentifier \<Rightarrow> db \<Rightarrow> store_error + Action option" where
  "LoadHyperliquidSubmission ident0 d =
     (let ident = ensureIdentifier ident0 in
      case FetchHyperliquidSubmission (Venue ident) (oi_Wallet ident) (oi_Hex ident) d of
        Inl ErrNoRows \<Rightarrow> Inr None
      | Inl e \<Rightarrow> Inl e
      | Inr row \<Rightarrow> map_sum id Some (decode_submission row))"

definition LoadHyperliquidRequest :: "OrderIdentifier \<Rightarrow> db \<Rightarrow> store_error + CreateOrderRequest option" where
  "LoadHyperliquidRequest ident d = map_sum id (map_option ac_Create) (LoadHyperliquidSubmission ident d)"

section \<open>Statuses\<close>

text \<open>The loop over the attempts; \<open>n\<close> of them are left.\<close>

fun status_attempts :: "nat \<Rightarrow> int \<Rightarrow> OrderIdentifier \<Rightarrow> WsOrder \<Rightarrow> store_error option \<Rightarrow> db \<Rightarrow> store_error option \<times> db" where
  "status_attempts 0 recorded ident status lastErr d = (lastErr, d)"
| "status_attempts (Suc n) recorded ident status lastErr d =
     (case InsertHyperliquidStatus (Venue ident) (oi_Wallet ident) (oi_Hex ident)
             hyperliquidStatusPayloadType (Doc status) recorded d of
        Inl e \<Rightarrow> if isUniqueConstraintError (Some e)
                 then status_attempts n (recorded + 1) ident status (Some e) d else (Some e, d)
      | Inr d' \<Rightarrow> (None, d'))"

definition RecordHyperliquidStatus ::
  "time \<Rightarrow> OrderIdentifier \<Rightarrow> WsOrder \<Rightarrow> Storage \<Rightarrow> store_error option \<times> Storage" where
  "RecordHyperliquidStatus now ident0 status s =
     (if oi_VenueID ident0 = defaultHyperliquidVenueID then (None, s)
      else
        let ident = ensureIdentifier ident0 in
        (case status_attempts 5 (to_UnixMilli now) ident status None (sg_db s) of
           (Some e, _) \<Rightarrow> (Some e, s)
         | (None, d) \<Rightarrow>
             (None, publishStreamEventLocked now
                ((new_StreamEvent HyperliquidStatusEntry (oi_OrderId ident))
                   \<lparr>se_Identifier := Some ident, se_Status := Some status\<rparr>) (s\<lparr>sg_db := d\<rparr>))))"

definition loadLatestHyperliquidStatusLocked :: "OrderIdentifier \<Rightarrow> db \<Rightarrow> store_error + WsOrder option" where
  "loadLatestHyperliquidStatusLocked ident0 d =
     (let ident = ensureIdentifier ident0 in
      case FetchLatestHyperliquidStatus (Venue ident) (oi_Wallet ident) (oi_Hex ident) d of
        Inl ErrNoRows \<Rightarrow> Inr None
      | Inl e \<Rightarrow> Inl e
      | Inr row \<Rightarrow> map_sum id Some (Unmarshal (sh_PayloadBlob row)))"

definition LoadHyperliquidStatus :: "OrderIdentifier \<Rightarrow> db \<Rightarrow> store_error + WsOrder option" where
  "LoadHyperliquidStatus ident d = loadLatestHyperliquidStatusLocked ident d"

definition ListHyperliquidStatuses :: "OrderIdentifier \<Rightarrow> db \<Rightarrow> store_error + WsOrder list" where
  "ListHyperliquidStatuses ident0 d =
     (let ident = ensureIdentifier ident0
      in decode_list (map sh_PayloadBlob
           (ListHyperliquidStatuses_query (Venue ident) (oi_Wallet ident) (oi_Hex ident) d)))"

section \<open>Order ids\<close>

fun decode_identifiers :: "(string \<times> string \<times> string) list \<Rightarrow> store_error + OrderIdentifier list" where
  "decode_identifiers [] = Inr []"
| "decode_identifiers ((venue, wallet, hex) # rows) =
     (if hex = [] then decode_identifiers rows
      else (case decode_order_id hex of
          Inl e \<Rightarrow> Inl e
        | Inr oid \<Rightarrow> map_sum id (Cons (NewOrderIdentifier venue wallet oid)) (decode_identifiers rows)))"

definition ListHyperliquidOrderIds :: "db \<Rightarrow> store_error + OrderIdentifier list" where
  "ListHyperliquidOrderIds d =
     (let venueIDs = map vn_ID (ListVenues d) in
      if venueIDs = []
      then (case defaultVenueAssignmentLocked d of
          Inl e \<Rightarrow> Inl e
        | Inr a \<Rightarrow> decode_identifiers (ListHyperliquidOrderIds_query (as_VenueID a) d))
      else decode_identifiers (concat (map (\<lambda>v. ListHyperliquidOrderIds_query v d) venueIDs)))"

fun decode_order_ids :: "string list \<Rightarrow> store_error + OrderId list" where
  "decode_order_ids [] = Inr []"
| "decode_order_ids (hex # rest) =
     (if hex = [] then decode_order_ids rest
      else (case decode_order_id hex of
          Inl e \<Rightarrow> Inl e
        | Inr oid \<Rightarrow> map_sum id (Cons oid) (decode_order_ids rest)))"

definition ListOrderIdsForDeal :: "uint32 \<Rightarrow> db \<Rightarrow> store_error + OrderId list" where
  "ListOrderIdsForDeal dealID d = decode_order_ids (GetOrderIdForDeal (uint dealID) d)"

section \<open>Safety orders of a deal\<close>

record HyperliquidSafetyStatus =
  hf_OrderId :: OrderId
  hf_BotID :: uint32
  hf_DealID :: uint32
  hf_OrderType :: MarketOrderDealOrderType
  hf_OrderPosition :: int
  hf_OrderSize :: int
  hf_HLStatus :: OrderStatusValue
  hf_HLStatusRecorded :: time
  hf_HLEventTime :: time

fun decode_safeties :: "SafetyStatusRow list \<Rightarrow> store_error + HyperliquidSafetyStatus list" where
  "decode_safeties [] = Inr []"
| "decode_safeties (row # rows) =
     (case decode_order_id (ss_OrderID row) of
        Inl e \<Rightarrow> Inl e
      | Inr oid \<Rightarrow>
          map_sum id (Cons \<lparr>hf_OrderId = oid, hf_BotID = word_of_int (ss_BotID row),
            hf_DealID = word_of_int (ss_DealID row), hf_OrderType = ss_OrderType row,
            hf_OrderPosition = ss_OrderPosition row, hf_OrderSize = ss_OrderSize row,
            hf_HLStatus = ss_Status row, hf_HLStatusRecorded = UnixMilli (ss_RecordedAtUtc row),
            hf_HLEventTime = UnixMilli (ss_StatusTimestamp row)\<rparr>) (decode_safeties rows))"

definition ListLatestHyperliquidSafetyStatuses ::
  "uint32 \<Rightarrow> db \<Rightarrow> store_error + HyperliquidSafetyStatus list" where
  "ListLatestHyperliquidSafetyStatuses dealID d =
     (case ResolveDefaultAlias d of
        Inl e \<Rightarrow> Inl e
      | Inr a \<Rightarrow>
          (case ListLatestHyperliquidSafetyStatuses_query (as_VenueID a) (uint dealID) None d of
             Inl e \<Rightarrow> Inl e
           | Inr rows \<Rightarrow> decode_safeties rows))"

definition DealSafetiesFilled :: "uint32 \<Rightarrow> db \<Rightarrow> store_error + bool" where
  "DealSafetiesFilled dealID d =
     (case ListLatestHyperliquidSafetyStatuses dealID d of
        Inl e \<Rightarrow> Inl e
      | Inr [] \<Rightarrow> Inl (StoreErr ''no statuses available for deal'')
      | Inr (st # sts) \<Rightarrow>
          if hf_OrderSize st \<noteq> int (length (st # sts))
          then Inl (StoreErr ''ordersize does not match amount of statuses'')
          else if sts \<noteq> [] \<and> list_ex (\<lambda>x. hf_OrderSize st \<noteq> hf_OrderSize x) (st # sts)
          then Inl (StoreErr ''sizes should be equal across safety orders'')
          else Inr (list_all (\<lambda>x. hf_HLStatus x = OrderStatusValueFilled) (st # sts)))"

section \<open>Bots and deals\<close>

definition RecordBot :: "tc_Bot \<Rightarrow> time \<Rightarrow> Storage \<Rightarrow> Storage" where
  "RecordBot b syncedAt s = s\<lparr>sg_db := UpsertBot (bot_Id b) (Doc b) (to_UnixMilli syncedAt) (sg_db s)\<rparr>"

definition LoadBot :: "int \<Rightarrow> db \<Rightarrow> store_error + (tc_Bot \<times> time) option" where
  "LoadBot botID d =
     (case FetchBot botID d of
        Inl ErrNoRows \<Rightarrow> Inr None
      | Inl e \<Rightarrow> Inl e
      | Inr row \<Rightarrow> map_sum id (\<lambda>b. Some (b, UnixMilli (bt_LastSyncedUtc row))) (Unmarshal (bt_Payload row)))"

definition TouchBot :: "int \<Rightarrow> time \<Rightarrow> Storage \<Rightarrow> Storage" where
  "TouchBot botID syncedAt s = s\<lparr>sg_db := UpdateBotSync (to_UnixMilli syncedAt) botID (sg_db s)\<rparr>"

definition RecordThreeCommasDeal :: "time \<Rightarrow> Deal \<Rightarrow> Storage \<Rightarrow> Storage" where
  "RecordThreeCommasDeal now deal s =
     s\<lparr>sg_db := UpsertDeal (to_UnixMilli now) (dl_Id deal) (dl_BotId deal)
        (to_UnixMilli (dl_CreatedAt deal)) (to_UnixMilli (dl_UpdatedAt deal)) (Doc deal) (sg_db s)\<rparr>"

definition LoadThreeCommasDeal :: "int \<Rightarrow> db \<Rightarrow> store_error + Deal option" where
  "LoadThreeCommasDeal dealID d =
     (case FetchDeal dealID d of
        Inl ErrNoRows \<Rightarrow> Inr None
      | Inl e \<Rightarrow> Inl e
      | Inr payload \<Rightarrow> map_sum id Some (Unmarshal payload))"

definition ListDealIDs :: "db \<Rightarrow> int list" where
  "ListDealIDs d = ListDealIDs_query d"

definition LoadTakeProfitForDeal :: "uint32 \<Rightarrow> db \<Rightarrow> store_error + (OrderId \<times> tc_BotEvent)" where
  "LoadTakeProfitForDeal dealID d =
     (case GetTPForDeal (uint dealID) d of
        Inl e \<Rightarrow> Inl e
      | Inr row \<Rightarrow>
          (case decode_order_id (be_OrderID row) of
             Inl e \<Rightarrow> Inl e
           | Inr oid \<Rightarrow> map_sum id (Pair oid) (Unmarshal (be_Payload row))))"

end
