(* ===== verification/Scaler_Store.thy ===== *)
theory Scaler_Store
  imports Storage
begin

text \<open>
  \<^verbatim>\<open>storage/order_scalers.go\<close>: the default multiplier, the overrides per bot, the multiplier in
  effect for an order, the take-profit stack of a deal and the audit of scaled orders.

  \<^verbatim>\<open>RecordScaledOrder\<close> resolves the multiplier and inserts the audit in two critical sections;
  they are taken here without another storage call in between.
\<close>

section \<open>Data\<close>

record OrderScalerState =
  ss_Multiplier :: f64
  ss_UpdatedAt :: time
  ss_UpdatedBy :: string
  ss_Notes :: "string option"

record BotOrderScalerOverride =
  ov_BotID :: uint32
  ov_Multiplier :: "f64 option"
  ov_Notes :: "string option"
  ov_EffectiveFrom :: time
  ov_UpdatedAt :: time
  ov_UpdatedBy :: string

text \<open>The audit the storage returns; the fill tracker reads its first three fields.\<close>

record StoredScaledOrderAudit = ScaledOrderAudit +
  sa_OrderId :: OrderId
  sa_DealID :: uint32
  sa_BotID :: uint32
  sa_OriginalSize :: f64
  sa_Multiplier :: f64
  sa_RoundingDelta :: f64
  sa_StackIndex :: int
  sa_OrderSide :: string
  sa_MultiplierUpdatedBy :: string
  sa_CreatedAt :: time
  sa_SubmittedOrderID :: "string option"
  sa_Skipped :: bool
  sa_SkipReason :: "string option"

record ScaledOrderAuditParams =
  ap_Identifier :: OrderIdentifier
  ap_DealID :: uint32
  ap_BotID :: uint32
  ap_OriginalSize :: f64
  ap_ScaledSize :: f64
  ap_Multiplier :: f64
  ap_RoundingDelta :: f64
  ap_StackIndex :: int
  ap_OrderSide :: string
  ap_MultiplierUpdatedBy :: string
  ap_CreatedAt :: time
  ap_SubmittedOrderID :: "string option"
  ap_Skipped :: bool
  ap_SkipReason :: "string option"

record EffectiveOrderScaler =
  ef_OrderId :: OrderId
  ef_Multiplier :: f64
  ef_Source :: OrderScalerSource
  ef_Default :: OrderScalerState
  ef_Override :: "BotOrderScalerOverride option"

record RecordScaledOrderParams =
  rp_Identifier :: OrderIdentifier
  rp_DealID :: uint32
  rp_BotID :: uint32
  rp_OriginalSize :: f64
  rp_ScaledSize :: f64
  rp_AppliedMultiplier :: "f64 option"
  rp_StackIndex :: int
  rp_OrderSide :: string
  rp_CreatedAt :: time
  rp_SubmittedOrderID :: "string option"
  rp_Skipped :: bool
  rp_SkipReason :: "string option"

definition scaledOrderPayloadType :: string where
  "scaledOrderPayloadType = ''scaled_order.audit.v1''"

definition Actor :: "EffectiveOrderScaler \<Rightarrow> string" where
  "Actor e =
     (case ef_Override e of
        Some o' \<Rightarrow>
          if ef_Source e = OrderScalerSourceBotOverride \<and> ov_UpdatedBy o' \<noteq> [] then ov_UpdatedBy o'
          else ss_UpdatedBy (ef_Default e)
      | None \<Rightarrow> ss_UpdatedBy (ef_Default e))"

definition UpdatedAt :: "EffectiveOrderScaler \<Rightarrow> time" where
  "UpdatedAt e =
     (case ef_Override e of
        Some o' \<Rightarrow>
          if ef_Source e = OrderScalerSourceBotOverride \<and> ov_UpdatedAt o' \<noteq> zero_time then ov_UpdatedAt o'
          else ss_UpdatedAt (ef_Default e)
      | None \<Rightarrow> ss_UpdatedAt (ef_Default e))"

section \<open>Conversions\<close>

definition boolToInt :: "bool \<Rightarrow> int" where
  "boolToInt v = (if v then 1 else 0)"

definition convertOrderScaler :: "OrderScaler \<Rightarrow> OrderScalerState" where
  "convertOrderScaler row = \<lparr>ss_Multiplier = sc_Multiplier row, ss_UpdatedAt = UnixMilli (sc_UpdatedAtUtc row),
     ss_UpdatedBy = sc_UpdatedBy row, ss_Notes = sc_Notes row\<rparr>"

definition convertBotOrderScaler :: "BotOrderScaler \<Rightarrow> BotOrderScalerOverride" where
  "convertBotOrderScaler row = \<lparr>ov_BotID = word_of_int (bs_BotID row), ov_Multiplier = bs_Multiplier row,
     ov_Notes = bs_Notes row, ov_EffectiveFrom = UnixMilli (bs_EffectiveFromUtc row),
     ov_UpdatedAt = UnixMilli (bs_UpdatedAtUtc row), ov_UpdatedBy = bs_UpdatedBy row\<rparr>"

definition toAPIOrderScalerState :: "OrderScalerState \<Rightarrow> api_OrderScalerState" where
  "toAPIOrderScalerState st = \<lparr>as_Multiplier = ss_Multiplier st, as_Notes = ss_Notes st,
     as_UpdatedAt = ss_UpdatedAt st, as_UpdatedBy = ss_UpdatedBy st\<rparr>"

definition toAPIOrderScalerOverride :: "BotOrderScalerOverride \<Rightarrow> api_OrderScalerOverride" where
  "toAPIOrderScalerOverride o' = \<lparr>ao_BotId = uint (ov_BotID o'), ao_EffectiveFrom = ov_EffectiveFrom o',
     ao_Multiplier = ov_Multiplier o', ao_Notes = ov_Notes o', ao_UpdatedAt = ov_UpdatedAt o',
     ao_UpdatedBy = ov_UpdatedBy o'\<rparr>"

definition toAPIEffectiveOrderScaler :: "EffectiveOrderScaler \<Rightarrow> api_EffectiveOrderScaler" where
  "toAPIEffectiveOrderScaler e =
     \<lparr>ae_Default = toAPIOrderScalerState (ef_Default e), ae_Multiplier = ef_Multiplier e,
      ae_OrderId = Hex (ef_OrderId e),
      ae_Override = map_option toAPIOrderScalerOverride (ef_Override e), ae_Source = ef_Source e\<rparr>"

definition toAPIScaledOrderAudit :: "StoredScaledOrderAudit \<Rightarrow> api_ScaledOrderAudit" where
  "toAPIScaledOrderAudit a =
     \<lparr>aa_BotId = uint (sa_BotID a), aa_CreatedAt = sa_CreatedAt a, aa_DealId = uint (sa_DealID a),
      aa_Multiplier = sa_Multiplier a, aa_MultiplierUpdatedBy = sa_MultiplierUpdatedBy a,
      aa_OrderSide = sa_OrderSide a, aa_OriginalSize = sa_OriginalSize a,
      aa_RoundingDelta = sa_RoundingDelta a, aa_ScaledSize = sa_ScaledSize a,
      aa_SkipReason = sa_SkipReason a, aa_Skipped = sa_Skipped a, aa_StackIndex = sa_StackIndex a,
      aa_SubmittedOrderId = sa_SubmittedOrderID a\<rparr>"

section \<open>Multipliers\<close>

definition publishOrderScalerEventLocked ::
  "time \<Rightarrow> OrderId \<Rightarrow> EffectiveOrderScaler \<Rightarrow> string \<Rightarrow> time \<Rightarrow> Storage \<Rightarrow> Storage" where
  "publishOrderScalerEventLocked now oid effective actor observedAt s =
     (if \<not> sg_stream s then s
      else let observedAt = (if observedAt = zero_time then now else observedAt)
           in publishStreamEventLocked now
                ((new_StreamEvent OrderScalerConfigEntry oid)
                   \<lparr>se_Identifier := Some (ensureIdentifier (NewOrderIdentifier [] [] oid)),
                    se_ObservedAt := observedAt, se_Actor := Some actor,
                    se_ScalerConfig := Some (toAPIEffectiveOrderScaler effective)\<rparr>) s)"

definition GetOrderScaler :: "db \<Rightarrow> store_error + OrderScalerState" where
  "GetOrderScaler d = map_sum id convertOrderScaler (GetOrderScaler_query d)"

definition ResolveEffectiveOrderScaler :: "OrderId \<Rightarrow> db \<Rightarrow> store_error + EffectiveOrderScaler" where
  "ResolveEffectiveOrderScaler oid d =
     (case GetOrderScaler_query d of
        Inl e \<Rightarrow> Inl e
      | Inr stateRow \<Rightarrow>
          let defaultState = convertOrderScaler stateRow;
              effective = \<lparr>ef_OrderId = oid, ef_Multiplier = ss_Multiplier defaultState,
                ef_Source = OrderScalerSourceDefault, ef_Default = defaultState, ef_Override = None\<rparr>
          in (case GetBotOrderScaler_query (uint (BotID oid)) d of
                Inl ErrNoRows \<Rightarrow> Inr effective
              | Inl e \<Rightarrow> Inl e
              | Inr overrideRow \<Rightarrow>
                  let override = convertBotOrderScaler overrideRow;
                      effective = effective\<lparr>ef_Override := Some override\<rparr>
                  in (case ov_Multiplier override of
                        None \<Rightarrow> Inr effective
                      | Some m \<Rightarrow> Inr (effective\<lparr>ef_Multiplier := m, ef_Source := OrderScalerSourceBotOverride\<rparr>))))"

definition UpsertOrderScaler ::
  "time \<Rightarrow> f64 \<Rightarrow> string \<Rightarrow> string option \<Rightarrow> Storage \<Rightarrow> (store_error + OrderScalerState) \<times> Storage" where
  "UpsertOrderScaler now multiplier updatedBy notes s =
     (let s = s\<lparr>sg_db := UpsertOrderScaler_query (to_UnixMilli now) multiplier updatedBy notes (sg_db s)\<rparr> in
      case GetOrderScaler_query (sg_db s) of
        Inl e \<Rightarrow> (Inl e, s)
      | Inr row \<Rightarrow>
          let st = convertOrderScaler row in
          (Inr st, publishOrderScalerEventLocked now zero_OrderId
             \<lparr>ef_OrderId = zero_OrderId, ef_Multiplier = ss_Multiplier st,
              ef_Source = OrderScalerSourceDefault, ef_Default = st, ef_Override = None\<rparr>
             updatedBy (ss_UpdatedAt st) s))"

definition ListBotOrderScalers :: "db \<Rightarrow> BotOrderScalerOverride list" where
  "ListBotOrderScalers d = map convertBotOrderScaler (ListBotOrderScalers_query d)"

definition GetBotOrderScaler :: "uint32 \<Rightarrow> db \<Rightarrow> store_error + BotOrderScalerOverride option" where
  "GetBotOrderScaler botID d =
     (case GetBotOrderScaler_query (uint botID) d of
        Inl ErrNoRows \<Rightarrow> Inr None
      | Inl e \<Rightarrow> Inl e
      | Inr row \<Rightarrow> Inr (Some (convertBotOrderScaler row)))"

definition bot_oid :: "uint32 \<Rightarrow> OrderId" where
  "bot_oid botID = zero_OrderId\<lparr>BotID := botID\<rparr>"

definition UpsertBotOrderScaler ::
  "time \<Rightarrow> uint32 \<Rightarrow> f64 option \<Rightarrow> string option \<Rightarrow> string \<Rightarrow> Storage
    \<Rightarrow> (store_error + BotOrderScalerOverride) \<times> Storage" where
  "UpsertBotOrderScaler now botID multiplier notes updatedBy s =
     (let s = s\<lparr>sg_db := UpsertBotOrderScaler_query (to_UnixMilli now) (uint botID) multiplier notes updatedBy (sg_db s)\<rparr> in
      case GetBotOrderScaler_query (uint botID) (sg_db s) of
        Inl e \<Rightarrow> (Inl e, s)
      | Inr row \<Rightarrow>
          let override = convertBotOrderScaler row in
          (case GetOrderScaler_query (sg_db s) of
             Inl e \<Rightarrow> (Inl e, s)
           | Inr stateRow \<Rightarrow>
               let defaultState = convertOrderScaler stateRow;
                   effective = \<lparr>ef_OrderId = bot_oid botID, ef_Multiplier = ss_Multiplier defaultState,
                     ef_Source = OrderScalerSourceDefault, ef_Default = defaultState,
                     ef_Override = Some override\<rparr>;
                   effective = (case ov_Multiplier override of
                       None \<Rightarrow> effective
                     | Some m \<Rightarrow> effective\<lparr>ef_Multiplier := m, ef_Source := OrderScalerSourceBotOverride\<rparr>)
               in (Inr override,
                   publishOrderScalerEventLocked now (ef_OrderId effective) effective updatedBy
                     (ov_UpdatedAt override) s)))"

definition DeleteBotOrderScaler ::
  "time \<Rightarrow> uint32 \<Rightarrow> string \<Rightarrow> Storage \<Rightarrow> store_error option \<times> Storage" where
  "DeleteBotOrderScaler now botID updatedBy s =
     (let s = s\<lparr>sg_db := DeleteBotOrderScaler_query (uint botID) (sg_db s)\<rparr> in
      case GetOrderScaler_query (sg_db s) of
        Inl e \<Rightarrow> (Some e, s)
      | Inr stateRow \<Rightarrow>
          let defaultState = convertOrderScaler stateRow;
              effective = \<lparr>ef_OrderId = bot_oid botID, ef_Multiplier = ss_Multiplier defaultState,
                ef_Source = OrderScalerSourceDefault, ef_Default = defaultState, ef_Override = None\<rparr>
          in (None, publishOrderScalerEventLocked now (ef_OrderId effective) effective updatedBy now s))"

text \<open>The methods the HTTP API calls: the same operations, in the API's types.\<close>

definition GetDefaultOrderScaler :: "db \<Rightarrow> store_error + api_OrderScalerState" where
  "GetDefaultOrderScaler d = map_sum id toAPIOrderScalerState (GetOrderScaler d)"

definition UpsertDefaultOrderScaler ::
  "time \<Rightarrow> f64 \<Rightarrow> string \<Rightarrow> string option \<Rightarrow> Storage \<Rightarrow> (store_error + api_OrderScalerState) \<times> Storage" where
  "UpsertDefaultOrderScaler now multiplier updatedBy notes s =
     map_prod (map_sum id toAPIOrderScalerState) id (UpsertOrderScaler now multiplier updatedBy notes s)"

definition GetBotOrderScalerOverride :: "uint32 \<Rightarrow> db \<Rightarrow> store_error + api_OrderScalerOverride option" where
  "GetBotOrderScalerOverride botID d =
     map_sum id (map_option toAPIOrderScalerOverride) (GetBotOrderScaler botID d)"

definition UpsertBotOrderScalerOverride ::
  "time \<Rightarrow> uint32 \<Rightarrow> f64 option \<Rightarrow> string option \<Rightarrow> string \<Rightarrow> Storage
    \<Rightarrow> (store_error + api_OrderScalerOverride) \<times> Storage" where
  "UpsertBotOrderScalerOverride now botID multiplier notes updatedBy s =
     map_prod (map_sum id toAPIOrderScalerOverride) id (UpsertBotOrderScaler now botID multiplier notes updatedBy s)"

definition DeleteBotOrderScalerOverride ::
  "time \<Rightarrow> uint32 \<Rightarrow> string \<Rightarrow> Storage \<Rightarrow> store_error option \<times> Storage" where
  "DeleteBotOrderScalerOverride now botID updatedBy s = DeleteBotOrderScaler now botID updatedBy s"

definition ResolveEffectiveOrderScalerConfig :: "OrderId \<Rightarrow> db \<Rightarrow> store_error + api_EffectiveOrderScaler" where
  "ResolveEffectiveOrderScalerConfig oid d =
     map_sum id toAPIEffectiveOrderScaler (ResolveEffectiveOrderScaler oid d)"

section \<open>The take-profit stack of a deal\<close>

definition nullableString :: "string option \<Rightarrow> string" where
  "nullableString s = (case s of None \<Rightarrow> [] | Some x \<Rightarrow> x)"

definition parseNumericString :: "string \<Rightarrow> f64" where
  "parseNumericString val =
     (let val = TrimSpace val in
      if val = [] then 0 else (case ParseFloat val of None \<Rightarrow> 0 | Some f \<Rightarrow> f))"

definition step_position :: "int \<Rightarrow> TakeProfitStep \<Rightarrow> int" where
  "step_position idx stp =
     (case tp_Id stp of
        None \<Rightarrow> idx
      | Some i \<Rightarrow> if 0 < i then i - 1 else if i = 0 then 0 else idx)"

definition step_size :: "f64 \<Rightarrow> TakeProfitStep \<Rightarrow> f64" where
  "step_size baseVolume stp =
     (let sz = parseNumericString (nullableString (tp_InitialAmount stp)) in
      case tp_AmountPercentage stp of
        None \<Rightarrow> sz
      | Some pct \<Rightarrow> if sz \<le> 0 \<and> 0 < baseVolume then fdiv (baseVolume * pct) (fl64 100) else sz)"

fun stack_steps :: "f64 \<Rightarrow> int \<Rightarrow> TakeProfitStep list \<Rightarrow> (int \<times> f64) list \<Rightarrow> (int \<times> f64) list" where
  "stack_steps baseVolume idx [] m = m"
| "stack_steps baseVolume idx (stp # stps) m =
     (let sz = step_size baseVolume stp in
      stack_steps baseVolume (idx + 1) stps
        (if sz \<le> 0 then m else AList.update (step_position idx stp) sz m))"

definition takeProfitStackFromDeal :: "Deal \<Rightarrow> int \<Rightarrow> (int \<times> f64) list" where
  "takeProfitStackFromDeal deal stackSizeHint =
     (if dl_TakeProfitSteps deal = [] then []
      else
        let bv = parseNumericString (dl_BaseOrderVolume deal);
            baseVolume = (if bv \<le> 0 then parseNumericString (dl_BoughtAmount deal) else bv);
            result = stack_steps baseVolume 0 (dl_TakeProfitSteps deal) []
        in if result = [] then []
           else if 0 < stackSizeHint \<and> int (length result) \<noteq> stackSizeHint then
             (let normalized = filter (\<lambda>(pos, _). 0 \<le> pos \<and> pos < stackSizeHint) result
              in if normalized \<noteq> [] then normalized else result)
           else result)"

definition merge_stack :: "int \<Rightarrow> (int \<times> f64) list \<Rightarrow> (int \<times> f64) list \<Rightarrow> (int \<times> f64) list" where
  "merge_stack stackSize stack sizes =
     fold (\<lambda>(pos, sz) m.
         if pos < 0 \<or> stackSize \<le> pos \<or> sz \<le> 0 then m
         else if map_of m pos = None then AList.update pos sz m else m) stack sizes"

definition mergeStackFromDealLocked :: "db \<Rightarrow> OrderId \<Rightarrow> int \<Rightarrow> (int \<times> f64) list \<Rightarrow> (int \<times> f64) list" where
  "mergeStackFromDealLocked d oid stackSize sizes =
     (case FetchDeal (uint (DealID oid)) d of
        Inl _ \<Rightarrow> sizes
      | Inr payload \<Rightarrow>
          (case Unmarshal payload of
             Inl _ \<Rightarrow> sizes
           | Inr deal \<Rightarrow> merge_stack stackSize (takeProfitStackFromDeal deal stackSize) sizes))"

definition rows_by_position :: "int \<Rightarrow> (int \<times> f64) list \<Rightarrow> (int \<times> f64) list" where
  "rows_by_position stackSize rows =
     fold (\<lambda>(p, sz) m.
         if p - 1 < 0 \<or> stackSize \<le> p - 1 \<or> sz \<le> 0 then m else AList.update (p - 1) sz m) rows []"

text \<open>The sizes from position \<open>pos\<close> on, up to the first gap; \<open>n\<close> positions are left.\<close>

fun stack_prefix :: "nat \<Rightarrow> int \<Rightarrow> (int \<times> f64) list \<Rightarrow> f64 list" where
  "stack_prefix 0 pos m = []"
| "stack_prefix (Suc n) pos m =
     (case map_of m pos of
        None \<Rightarrow> []
      | Some sz \<Rightarrow> if sz \<le> 0 then [] else sz # stack_prefix n (pos + 1) m)"

definition ListTakeProfitStackSizes :: "OrderId \<Rightarrow> int \<Rightarrow> db \<Rightarrow> store_error + f64 list" where
  "ListTakeProfitStackSizes oid stackSize d =
     (if stackSize \<le> 0 then Inl (StoreErr ''stack size must be positive'')
      else (case ListLatestTakeProfitStackSizes (uint (DealID oid)) stackSize d of
          Inl e \<Rightarrow> Inl e
        | Inr rows \<Rightarrow>
            let byPosition = rows_by_position stackSize rows;
                byPosition = (if int (length byPosition) < stackSize
                              then mergeStackFromDealLocked d oid stackSize byPosition else byPosition)
            in Inr (if byPosition = [] then [] else stack_prefix (nat stackSize) 0 byPosition)))"

section \<open>Audits of scaled orders\<close>

text \<open>\<^verbatim>\<open>%d\<close>.\<close>

fun show_nat :: "nat \<Rightarrow> string" where
  "show_nat n = (if n < 10 then [char_of (48 + n)] else show_nat (n div 10) @ [char_of (48 + n mod 10)])"

declare show_nat.simps [simp del]

definition show_int :: "int \<Rightarrow> string" where
  "show_int i = (if i < 0 then CHR ''-'' # show_nat (nat (- i)) else show_nat (nat i))"

definition audit_order_id :: "OrderId \<Rightarrow> int \<Rightarrow> time \<Rightarrow> string" where
  "audit_order_id oid stackIndex createdAt =
     Hex oid @ ''#'' @ show_int stackIndex @ ''#'' @ show_int createdAt"

text \<open>The venue and wallet of the audit: the identifier's, completed from the default venue.\<close>

definition audit_venue :: "OrderIdentifier \<Rightarrow> db \<Rightarrow> store_error + string \<times> string" where
  "audit_venue ident d =
     (if oi_VenueID ident = [] \<or> oi_Wallet ident = []
      then (case defaultVenueAssignmentLocked d of
          Inl e \<Rightarrow> Inl e
        | Inr a \<Rightarrow> Inr (if oi_VenueID ident = [] then as_VenueID a else oi_VenueID ident,
                        if oi_Wallet ident = [] then as_Wallet a else oi_Wallet ident))
      else Inr (oi_VenueID ident, oi_Wallet ident))"

definition audit_row :: "string \<times> string \<Rightarrow> time \<Rightarrow> ScaledOrderAuditParams \<Rightarrow> ScaledOrder" where
  "audit_row vw createdAt p =
     \<lparr>so_VenueID = fst vw, so_Wallet = snd vw,
      so_OrderID = audit_order_id (oi_OrderId (ap_Identifier p)) (ap_StackIndex p) createdAt,
      so_DealID = uint (ap_DealID p), so_BotID = uint (ap_BotID p), so_OriginalSize = ap_OriginalSize p,
      so_ScaledSize = ap_ScaledSize p, so_Multiplier = ap_Multiplier p,
      so_RoundingDelta = ap_RoundingDelta p, so_StackIndex = ap_StackIndex p,
      so_OrderSide = ap_OrderSide p, so_MultiplierUpdatedBy = ap_MultiplierUpdatedBy p,
      so_CreatedAtUtc = to_UnixMilli createdAt, so_Skipped = boolToInt (ap_Skipped p),
      so_SkipReason = ap_SkipReason p,
      so_PayloadType = (case ap_SubmittedOrderID p of None \<Rightarrow> None | Some _ \<Rightarrow> Some scaledOrderPayloadType),
      so_PayloadBlob = (case ap_SubmittedOrderID p of None \<Rightarrow> None | Some i \<Rightarrow> Some (Doc (Some i)))\<rparr>"

text \<open>The audit that is returned has neither the venue nor the wallet set.\<close>

definition audit_result :: "time \<Rightarrow> ScaledOrderAuditParams \<Rightarrow> StoredScaledOrderAudit" where
  "audit_result createdAt p =
     \<lparr>sa_VenueID = [], sa_Wallet = [], sa_ScaledSize = ap_ScaledSize p,
      sa_OrderId = oi_OrderId (ap_Identifier p), sa_DealID = ap_DealID p, sa_BotID = ap_BotID p,
      sa_OriginalSize = ap_OriginalSize p, sa_Multiplier = ap_Multiplier p,
      sa_RoundingDelta = ap_RoundingDelta p, sa_StackIndex = ap_StackIndex p,
      sa_OrderSide = ap_OrderSide p, sa_MultiplierUpdatedBy = ap_MultiplierUpdatedBy p,
      sa_CreatedAt = createdAt, sa_SubmittedOrderID = ap_SubmittedOrderID p,
      sa_Skipped = ap_Skipped p, sa_SkipReason = ap_SkipReason p\<rparr>"

definition audit_effective :: "ScaledOrderAuditParams \<Rightarrow> db \<Rightarrow> store_error + EffectiveOrderScaler" where
  "audit_effective p d =
     (case GetOrderScaler_query d of
        Inl e \<Rightarrow> Inl e
      | Inr stateRow \<Rightarrow>
          let effective = \<lparr>ef_OrderId = oi_OrderId (ap_Identifier p), ef_Multiplier = ap_Multiplier p,
                ef_Source = OrderScalerSourceDefault, ef_Default = convertOrderScaler stateRow,
                ef_Override = None\<rparr>
          in (case GetBotOrderScaler_query (uint (ap_BotID p)) d of
                Inr overrideRow \<Rightarrow>
                  let override = convertBotOrderScaler overrideRow;
                      effective = effective\<lparr>ef_Override := Some override\<rparr>
                  in Inr (if ov_Multiplier override \<noteq> None
                          then effective\<lparr>ef_Source := OrderScalerSourceBotOverride\<rparr> else effective)
              | Inl ErrNoRows \<Rightarrow> Inr effective
              | Inl e \<Rightarrow> Inl e))"

definition InsertScaledOrderAudit ::
  "time \<Rightarrow> ScaledOrderAuditParams \<Rightarrow> Storage \<Rightarrow> (store_error + StoredScaledOrderAudit) \<times> Storage" where
  "InsertScaledOrderAudit now p s =
     (let createdAt = (if ap_CreatedAt p = zero_time then now else ap_CreatedAt p) in
      case audit_venue (ap_Identifier p) (sg_db s) of
        Inl e \<Rightarrow> (Inl e, s)
      | Inr vw \<Rightarrow>
          (case InsertScaledOrder (audit_row vw createdAt p) (sg_db s) of
             Inl e \<Rightarrow> (Inl e, s)
           | Inr d \<Rightarrow>
               let s = s\<lparr>sg_db := d\<rparr>; audit = audit_result createdAt p in
               (case audit_effective p (sg_db s) of
                  Inl e \<Rightarrow> (Inl e, s)
                | Inr effective \<Rightarrow>
                    (Inr audit, publishStreamEventLocked now
                       ((new_StreamEvent ScaledOrderAuditEntry (oi_OrderId (ap_Identifier p)))
                          \<lparr>se_Identifier := Some (ensureIdentifier (ap_Identifier p)),
                           se_ObservedAt := createdAt, se_Actor := Some (Actor effective),
                           se_ScaledOrderAudit := Some (toAPIScaledOrderAudit audit),
                           se_ScalerConfig := Some (toAPIEffectiveOrderScaler effective)\<rparr>) s))))"

definition RecordScaledOrder ::
  "time \<Rightarrow> RecordScaledOrderParams \<Rightarrow> Storage
    \<Rightarrow> (store_error + StoredScaledOrderAudit \<times> EffectiveOrderScaler) \<times> Storage" where
  "RecordScaledOrder now p s =
     (case ResolveEffectiveOrderScaler (oi_OrderId (rp_Identifier p)) (sg_db s) of
        Inl e \<Rightarrow> (Inl e, s)
      | Inr effective \<Rightarrow>
          let multiplier = (case rp_AppliedMultiplier p of None \<Rightarrow> ef_Multiplier effective | Some m \<Rightarrow> m);
              roundingDelta = rp_ScaledSize p - rp_OriginalSize p * multiplier
          in (case InsertScaledOrderAudit now
                 \<lparr>ap_Identifier = rp_Identifier p, ap_DealID = rp_DealID p, ap_BotID = rp_BotID p,
                  ap_OriginalSize = rp_OriginalSize p, ap_ScaledSize = rp_ScaledSize p,
                  ap_Multiplier = multiplier, ap_RoundingDelta = roundingDelta,
                  ap_StackIndex = rp_StackIndex p, ap_OrderSide = rp_OrderSide p,
                  ap_MultiplierUpdatedBy = Actor effective, ap_CreatedAt = rp_CreatedAt p,
                  ap_SubmittedOrderID = rp_SubmittedOrderID p, ap_Skipped = rp_Skipped p,
                  ap_SkipReason = rp_SkipReason p\<rparr> s of
                (Inl e, s) \<Rightarrow> (Inl e, s)
              | (Inr audit, s) \<Rightarrow> (Inr (audit, effective\<lparr>ef_Multiplier := multiplier\<rparr>), s)))"

definition convertScaledOrder :: "ScaledOrder \<Rightarrow> store_error + StoredScaledOrderAudit" where
  "convertScaledOrder row =
     (case decode_order_id (takeWhile (\<lambda>c. c \<noteq> CHR ''#'') (so_OrderID row)) of
        Inl e \<Rightarrow> Inl e
      | Inr oid \<Rightarrow>
          (case (if so_PayloadType row = Some scaledOrderPayloadType
                 then (case so_PayloadBlob row of None \<Rightarrow> Inr None | Some b \<Rightarrow> Unmarshal b)
                 else Inr None) of
             Inl e \<Rightarrow> Inl e
           | Inr submittedID \<Rightarrow>
               Inr \<lparr>sa_VenueID = so_VenueID row, sa_Wallet = so_Wallet row, sa_ScaledSize = so_ScaledSize row,
                 sa_OrderId = oid, sa_DealID = word_of_int (so_DealID row),
                 sa_BotID = word_of_int (so_BotID row), sa_OriginalSize = so_OriginalSize row,
                 sa_Multiplier = so_Multiplier row, sa_RoundingDelta = so_RoundingDelta row,
                 sa_StackIndex = so_StackIndex row, sa_OrderSide = so_OrderSide row,
                 sa_MultiplierUpdatedBy = so_MultiplierUpdatedBy row,
                 sa_CreatedAt = UnixMilli (so_CreatedAtUtc row), sa_SubmittedOrderID = submittedID,
                 sa_Skipped = (so_Skipped row \<noteq> 0), sa_SkipReason = so_SkipReason row\<rparr>))"

fun convertScaledOrdersFromOrderRows :: "ScaledOrder list \<Rightarrow> store_error + StoredScaledOrderAudit list" where
  "convertScaledOrdersFromOrderRows [] = Inr []"
| "convertScaledOrdersFromOrderRows (row # rows) =
     (case convertScaledOrder row of
        Inl e \<Rightarrow> Inl e
      | Inr audit \<Rightarrow> map_sum id (Cons audit) (convertScaledOrdersFromOrderRows rows))"

definition convertScaledOrdersFromDealRows :: "ScaledOrder list \<Rightarrow> store_error + StoredScaledOrderAudit list" where
  "convertScaledOrdersFromDealRows rows = convertScaledOrdersFromOrderRows rows"

definition convertScaledOrderFromAuditRow :: "ScaledOrder \<Rightarrow> store_error + StoredScaledOrderAudit" where
  "convertScaledOrderFromAuditRow row = convertScaledOrder row"

definition ListScaledOrdersByOrderId :: "OrderId \<Rightarrow> db \<Rightarrow> store_error + StoredScaledOrderAudit list" where
  "ListScaledOrdersByOrderId oid d =
     convertScaledOrdersFromOrderRows (ListScaledOrdersByOrderId_query (Hex oid) (Hex oid @ ''#'') d)"

definition ListScaledOrdersByDeal :: "uint32 \<Rightarrow> db \<Rightarrow> store_error + StoredScaledOrderAudit list" where
  "ListScaledOrdersByDeal dealID d =
     convertScaledOrdersFromDealRows (ListScaledOrdersByDeal_query (uint dealID) d)"

end
