(* ===== verification/Storage_Api.thy ===== *)
theory Storage_Api
  imports Scaler_Store Vault
begin

text \<open>
  \<^verbatim>\<open>storage/vault.go\<close> and the venue part of \<^verbatim>\<open>storage/api.go\<close>: what the HTTP handlers call to
  keep vault users, their encrypted payloads and their WebAuthn credentials, and to manage venues
  and the assignments of bots to venues. Byte slices are copied on the way in and out; values need
  no copies.
\<close>

section \<open>Vault records\<close>

record Payload =
  py_ID :: int
  py_UserID :: int
  py_Version :: string
  py_Ciphertext :: "byte list"
  py_Nonce :: "byte list"
  py_AssociatedData :: "byte list"
  py_PRFParams :: "json blob option"
  py_UpdatedAt :: time

record Credential =
  cd_ID :: int
  cd_UserID :: int
  cd_CredentialID :: "byte list"
  cd_Credential :: "json blob"
  cd_CreatedAt :: time
  cd_UpdatedAt :: time

record PayloadInput =
  pi_UserID :: int
  pi_Version :: string
  pi_Ciphertext :: "byte list"
  pi_Nonce :: "byte list"
  pi_AssociatedData :: "byte list"
  pi_PRFParams :: "json blob option"
  pi_UpdatedAt :: time

text \<open>An empty credential is \<open>None\<close>.\<close>

record CredentialInput =
  ci_UserID :: int
  ci_CredentialID :: "byte list"
  ci_Credential :: "json blob option"

definition mapVaultUser :: "VaultUser \<Rightarrow> User" where
  "mapVaultUser row = \<lparr>us_ID = vu_ID row, us_Username = vu_Username row,
     us_CreatedAt = UnixMilli (vu_CreatedAtUtc row)\<rparr>"

text \<open>A missing row is \<open>nil\<close> without an error.\<close>

definition nil_if_missing :: "('a \<Rightarrow> 'b) \<Rightarrow> store_error + 'a \<Rightarrow> store_error + 'b option" where
  "nil_if_missing f r =
     (case r of Inl ErrNoRows \<Rightarrow> Inr None | Inl e \<Rightarrow> Inl e | Inr row \<Rightarrow> Inr (Some (f row)))"

definition EnsureVaultUser :: "time \<Rightarrow> string \<Rightarrow> Storage \<Rightarrow> (store_error + User) \<times> Storage" where
  "EnsureVaultUser now username s =
     (if TrimSpace username = [] then (Inl (StoreErr ''username cannot be empty''), s)
      else (case EnsureVaultUser_query (to_UnixMilli now) username (sg_db s) of
          (Inl e, _) \<Rightarrow> (Inl e, s)
        | (Inr row, d) \<Rightarrow> (Inr (mapVaultUser row), s\<lparr>sg_db := d\<rparr>)))"

definition GetVaultUser :: "db \<Rightarrow> store_error + User option" where
  "GetVaultUser d = nil_if_missing mapVaultUser (GetVaultUser_query d)"

definition GetVaultUserByID :: "int \<Rightarrow> db \<Rightarrow> store_error + User option" where
  "GetVaultUserByID i d = nil_if_missing mapVaultUser (GetVaultUserByID_query i d)"

definition GetVaultUserByUsername :: "string \<Rightarrow> db \<Rightarrow> store_error + User option" where
  "GetVaultUserByUsername username d = nil_if_missing mapVaultUser (GetVaultUserByUsername_query username d)"

definition DeleteVaultUserByID :: "int \<Rightarrow> Storage \<Rightarrow> Storage" where
  "DeleteVaultUserByID i s = s\<lparr>sg_db := DeleteVaultUserByID_query i (sg_db s)\<rparr>"

definition UpsertVaultPayload :: "time \<Rightarrow> PayloadInput \<Rightarrow> Storage \<Rightarrow> store_error option \<times> Storage" where
  "UpsertVaultPayload now0 inp s =
     (if pi_UserID inp = 0 then (Some (StoreErr ''user id is required''), s)
      else if TrimSpace (pi_Version inp) = [] then (Some (StoreErr ''payload version is required''), s)
      else if pi_Ciphertext inp = [] then (Some (StoreErr ''ciphertext is required''), s)
      else if pi_Nonce inp = [] then (Some (StoreErr ''nonce is required''), s)
      else
        let now = (if pi_UpdatedAt inp = zero_time then now0 else pi_UpdatedAt inp) in
        (case UpsertVaultPayload_query (pi_UserID inp) (pi_Version inp) (pi_Ciphertext inp) (pi_Nonce inp)
                (pi_AssociatedData inp) (pi_PRFParams inp) (to_UnixMilli now) (sg_db s) of
           Inl e \<Rightarrow> (Some e, s)
         | Inr d \<Rightarrow> (None, s\<lparr>sg_db := d\<rparr>)))"

definition GetVaultPayloadForUser :: "int \<Rightarrow> db \<Rightarrow> store_error + Payload option" where
  "GetVaultPayloadForUser userID d =
     nil_if_missing (\<lambda>row. \<lparr>py_ID = vp_ID row, py_UserID = vp_UserID row, py_Version = vp_Version row,
         py_Ciphertext = vp_Ciphertext row, py_Nonce = vp_Nonce row,
         py_AssociatedData = vp_AssociatedData row, py_PRFParams = vp_PrfParams row,
         py_UpdatedAt = UnixMilli (vp_UpdatedAtUtc row)\<rparr>) (GetVaultPayloadForUser_query userID d)"

definition DeleteVaultPayloadForUser :: "int \<Rightarrow> Storage \<Rightarrow> Storage" where
  "DeleteVaultPayloadForUser userID s = s\<lparr>sg_db := DeleteVaultPayloadForUser_query userID (sg_db s)\<rparr>"

definition credential_of :: "WebauthnCredential \<Rightarrow> Credential" where
  "credential_of row = \<lparr>cd_ID = wc_ID row, cd_UserID = wc_UserID row, cd_CredentialID = wc_CredentialID row,
     cd_Credential = wc_Credential row, cd_CreatedAt = UnixMilli (wc_CreatedAtUtc row),
     cd_UpdatedAt = UnixMilli (wc_UpdatedAtUtc row)\<rparr>"

definition UpsertWebauthnCredential :: "time \<Rightarrow> CredentialInput \<Rightarrow> Storage \<Rightarrow> store_error option \<times> Storage" where
  "UpsertWebauthnCredential now inp s =
     (if ci_UserID inp = 0 then (Some (StoreErr ''user id is required''), s)
      else if ci_CredentialID inp = [] then (Some (StoreErr ''credential id is required''), s)
      else (case ci_Credential inp of
          None \<Rightarrow> (Some (StoreErr ''credential payload is required''), s)
        | Some cred \<Rightarrow>
            (case UpsertWebauthnCredential_query (to_UnixMilli now) (ci_UserID inp) (ci_CredentialID inp) cred (sg_db s) of
               Inl e \<Rightarrow> (Some e, s)
             | Inr d \<Rightarrow> (None, s\<lparr>sg_db := d\<rparr>))))"

definition ListWebauthnCredentialsByUser :: "int \<Rightarrow> db \<Rightarrow> Credential list" where
  "ListWebauthnCredentialsByUser userID d = map credential_of (ListWebauthnCredentialsByUser_query userID d)"

definition GetWebauthnCredential :: "byte list \<Rightarrow> db \<Rightarrow> store_error + Credential option" where
  "GetWebauthnCredential credentialID d =
     (if credentialID = [] then Inl (StoreErr ''credential id is required'')
      else nil_if_missing credential_of (GetWebauthnCredentialByID_query credentialID d))"

definition DeleteWebauthnCredential :: "byte list \<Rightarrow> Storage \<Rightarrow> store_error option \<times> Storage" where
  "DeleteWebauthnCredential credentialID s =
     (if credentialID = [] then (Some (StoreErr ''credential id is required''), s)
      else (None, s\<lparr>sg_db := DeleteWebauthnCredentialByID_query credentialID (sg_db s)\<rparr>))"

section \<open>Venues\<close>

datatype venue_error =
  ErrVenueNotFound | ErrVenueImmutable | ErrVenueInvalid | ErrVenueAssignmentNotFound
| VenueStoreErr store_error

record VenueRecord =
  vr_VenueId :: string
  vr_Type :: string
  vr_DisplayName :: string
  vr_Wallet :: string
  vr_Flags :: "(string \<times> json) list option"

record VenueUpsertRequest =
  ur_Type :: string
  ur_DisplayName :: string
  ur_Wallet :: string
  ur_Flags :: "(string \<times> json) list option"

record VenueAssignmentRecord =
  vs_BotId :: int
  vs_VenueId :: string
  vs_IsPrimary :: bool
  vs_AssignedAt :: time

record BotVenueAssignmentRecord =
  bv_VenueId :: string
  bv_Wallet :: string
  bv_IsPrimary :: bool

text \<open>Flags that do not decode, or are empty, are left out of the record.\<close>

definition venue_record :: "VenueRow \<Rightarrow> VenueRecord" where
  "venue_record row =
     \<lparr>vr_VenueId = vn_ID row, vr_Type = vn_Type row, vr_DisplayName = vn_DisplayName row,
      vr_Wallet = vn_Wallet row,
      vr_Flags = (case vn_Flags row of Doc (JObject m) \<Rightarrow> if m = [] then None else Some m | _ \<Rightarrow> None)\<rparr>"

definition Storage_ListVenues :: "db \<Rightarrow> VenueRecord list" where
  "Storage_ListVenues d = map venue_record (ListVenues d)"

definition Storage_UpsertVenue ::
  "string \<Rightarrow> VenueUpsertRequest \<Rightarrow> Storage \<Rightarrow> (venue_error + VenueRecord) \<times> Storage" where
  "Storage_UpsertVenue venueID0 payload s =
     (let venueID = TrimSpace venueID0; venueType = TrimSpace (ur_Type payload);
          displayName = TrimSpace (ur_DisplayName payload); wallet = TrimSpace (ur_Wallet payload) in
      if venueID = [] then (Inl ErrVenueInvalid, s)
      else if venueType = [] \<or> displayName = [] \<or> wallet = [] then (Inl ErrVenueInvalid, s)
      else
        let flagsValue = Doc (JObject (case ur_Flags payload of None \<Rightarrow> [] | Some m \<Rightarrow> m)) in
        (case UpsertVenue venueID venueType displayName wallet flagsValue (sg_db s) of
           Inl e \<Rightarrow> (Inl (VenueStoreErr e), s)
         | Inr d \<Rightarrow>
             let s = s\<lparr>sg_db := d\<rparr> in
             (case GetVenue venueID (sg_db s) of
                Inl ErrNoRows \<Rightarrow> (Inl ErrVenueNotFound, s)
              | Inl e \<Rightarrow> (Inl (VenueStoreErr e), s)
              | Inr row \<Rightarrow> (Inr (venue_record row), s))))"

definition Storage_DeleteVenue :: "string \<Rightarrow> Storage \<Rightarrow> venue_error option \<times> Storage" where
  "Storage_DeleteVenue venueID0 s =
     (let venueID = TrimSpace venueID0 in
      if venueID = [] then (Some ErrVenueInvalid, s)
      else if venueID = defaultHyperliquidVenueID then (Some ErrVenueImmutable, s)
      else (case GetVenue venueID (sg_db s) of
          Inl ErrNoRows \<Rightarrow> (Some ErrVenueNotFound, s)
        | Inl e \<Rightarrow> (Some (VenueStoreErr e), s)
        | Inr _ \<Rightarrow> (None, s\<lparr>sg_db := DeleteVenue venueID (sg_db s)\<rparr>)))"

definition assignment_record :: "BotVenueAssignment \<Rightarrow> VenueAssignmentRecord" where
  "assignment_record row = \<lparr>vs_BotId = va_BotID row, vs_VenueId = va_VenueID row,
     vs_IsPrimary = (va_IsPrimary row \<noteq> 0), vs_AssignedAt = UnixMilli (va_AssignedAtUtc row)\<rparr>"

definition Storage_ListVenueAssignments :: "string \<Rightarrow> db \<Rightarrow> venue_error + VenueAssignmentRecord list" where
  "Storage_ListVenueAssignments venueID0 d =
     (let venueID = TrimSpace venueID0 in
      if venueID = [] then Inl ErrVenueInvalid
      else (case GetVenue venueID d of
          Inl ErrNoRows \<Rightarrow> Inl ErrVenueNotFound
        | Inl e \<Rightarrow> Inl (VenueStoreErr e)
        | Inr _ \<Rightarrow> Inr (map assignment_record (ListVenueAssignments venueID d))))"

text \<open>A primary assignment clears the bot's other primary flags first, in the same transaction.\<close>

definition clear_primary :: "int \<Rightarrow> db \<Rightarrow> db" where
  "clear_primary botID d =
     d\<lparr>db_assignments := update_where (\<lambda>r. va_BotID r = botID) (\<lambda>r. r\<lparr>va_IsPrimary := 0\<rparr>) (db_assignments d)\<rparr>"

definition UpsertVenueAssignment ::
  "time \<Rightarrow> string \<Rightarrow> int \<Rightarrow> bool \<Rightarrow> Storage \<Rightarrow> (venue_error + VenueAssignmentRecord) \<times> Storage" where
  "UpsertVenueAssignment now venueID0 botID isPrimary s =
     (let venueID = TrimSpace venueID0 in
      if venueID = [] \<or> botID \<le> 0 then (Inl ErrVenueInvalid, s)
      else (case GetVenue venueID (sg_db s) of
          Inl ErrNoRows \<Rightarrow> (Inl ErrVenueNotFound, s)
        | Inl e \<Rightarrow> (Inl (VenueStoreErr e), s)
        | Inr _ \<Rightarrow>
            let d = (if isPrimary then clear_primary botID (sg_db s) else sg_db s) in
            (case UpsertBotVenueAssignment_query (to_UnixMilli now) botID venueID (if isPrimary then 1 else 0) d of
               Inl e \<Rightarrow>
                 if isUniqueConstraintError (Some e) then (Inl ErrVenueInvalid, s)
                 else (Inl (VenueStoreErr e), s)
             | Inr d \<Rightarrow>
                 let s = s\<lparr>sg_db := d\<rparr> in
                 (case find (\<lambda>r. va_VenueID r = venueID) (ListBotVenueAssignments botID (sg_db s)) of
                    None \<Rightarrow> (Inl ErrVenueAssignmentNotFound, s)
                  | Some row \<Rightarrow> (Inr (assignment_record row), s)))))"

definition DeleteVenueAssignment :: "string \<Rightarrow> int \<Rightarrow> Storage \<Rightarrow> venue_error option \<times> Storage" where
  "DeleteVenueAssignment venueID0 botID s =
     (let venueID = TrimSpace venueID0 in
      if venueID = [] \<or> botID \<le> 0 then (Some ErrVenueInvalid, s)
      else if \<not> list_ex (\<lambda>r. va_VenueID r = venueID) (ListBotVenueAssignments botID (sg_db s))
      then (Some ErrVenueAssignmentNotFound, s)
      else (None, s\<lparr>sg_db := DeleteBotVenueAssignment botID venueID (sg_db s)\<rparr>))"

definition ListBotVenues :: "int \<Rightarrow> db \<Rightarrow> venue_error + BotVenueAssignmentRecord list" where
  "ListBotVenues botID d =
     (if botID \<le> 0 then Inl ErrVenueInvalid
      else if 2 ^ 32 - 1 < botID then Inl ErrVenueInvalid
      else (case ListVenuesForBot (word_of_int botID) d of
          Inl e \<Rightarrow> Inl (VenueStoreErr e)
        | Inr venues \<Rightarrow>
            Inr (map (\<lambda>v. \<lparr>bv_VenueId = as_VenueID v, bv_Wallet = as_Wallet v, bv_IsPrimary = as_IsPrimary v\<rparr>) venues)))"

end
