(* ===== verification/Storage_Laws.thy ===== *)
theory Storage_Laws
  imports Storage_Api
begin

text \<open>
  What the storage layer guarantees: the invariant that every operation keeps (keys are unique,
  every row decodes, order ids are hex encodings), that reads therefore never fail to decode, and
  what a read returns after a write.
\<close>

section \<open>Order ids in text columns\<close>

interpretation hexid: codec Hex decode_order_id
  by unfold_locales (simp add: decode_order_id_def FromHexString_Hex)

lemmas Hex_eq_iff [simp] = hexid.enc_eq_iff
lemmas decode_Hex [simp] = hexid.dec_enc

lemma Hex_not_Nil [simp]: "Hex oid \<noteq> []"
  using length_Hex [of oid] by (metis list.size(3) zero_neq_numeral)

lemma hextable_lower: "list_all (\<lambda>c. lower_char c = c \<and> c \<noteq> CHR ''#'') hextable"
  by code_simp

lemma hex_digit_lower [simp]:
  assumes "n < 16"
  shows "lower_char (hex_digit n) = hex_digit n" and "hex_digit n \<noteq> CHR ''#''"
proof -
  have "unat n < 16" using assms by (simp add: word_less_nat_alt)
  then have "hextable ! unat n \<in> set hextable" by (intro nth_mem) (simp add: hextable_def)
  then show "lower_char (hex_digit n) = hex_digit n" and "hex_digit n \<noteq> CHR ''#''"
    using hextable_lower by (auto simp: hex_digit_def list_all_iff)
qed

lemma ToLower_Encode [simp]: "ToLower (EncodeToString bs) = EncodeToString bs"
  by (induction bs) (simp_all add: ToLower_def high_nibble_less low_nibble_less)

lemma hash_notin_Encode: "CHR ''#'' \<notin> set (EncodeToString bs)"
  by (induction bs) (auto simp: high_nibble_less low_nibble_less dest: sym)

lemma ToLower_Hex [simp]: "ToLower (Hex oid) = Hex oid"
proof -
  have "ToLower ''0x'' = ''0x''" by code_simp
  then show ?thesis
    using ToLower_Encode [of "AsHex oid"] by (simp add: Hex_def ToLower_def)
qed

lemma hash_notin_Hex: "CHR ''#'' \<notin> set (Hex oid)"
  using hash_notin_Encode [of "AsHex oid"] by (simp add: Hex_def)

lemma takeWhile_audit [simp]:
  "takeWhile (\<lambda>c. c \<noteq> CHR ''#'') (Hex oid @ CHR ''#'' # rest) = Hex oid"
proof -
  have "\<forall>c \<in> set (Hex oid). c \<noteq> CHR ''#''" using hash_notin_Hex [of oid] by metis
  then show ?thesis by (simp add: takeWhile_append2)
qed

lemma decode_audit_id: "decode_order_id (takeWhile (\<lambda>c. c \<noteq> CHR ''#'') (audit_order_id oid i t)) = Inr oid"
  by (simp add: audit_order_id_def)

section \<open>The invariant\<close>

definition event_row_ok :: "ThreecommasBotevent \<Rightarrow> bool" where
  "event_row_ok r \<longleftrightarrow> 0 < be_ID r \<and>
     (\<exists>oid e. be_OrderID r = Hex oid \<and> be_BotID r = uint (BotID oid) \<and> be_DealID r = uint (DealID oid) \<and>
        be_BoteventID r = uint (BotEventID oid) \<and> be_Payload r = Doc e \<and>
        be_CreatedAtUtc r = to_UnixMilli (ev_CreatedAt e))"

definition events_ok :: "ThreecommasBotevent list \<Rightarrow> int \<Rightarrow> bool" where
  "events_ok rows sq \<longleftrightarrow> 0 \<le> sq \<and> (\<forall>r \<in> set rows. event_row_ok r \<and> be_ID r \<le> sq) \<and>
     keys_unique be_key rows \<and> keys_unique be_ID rows"

definition sub_row_ok :: "HyperliquidSubmission \<Rightarrow> bool" where
  "sub_row_ok r \<longleftrightarrow> (\<exists>oid. hs_OrderID r = Hex oid) \<and> hs_VenueID r \<noteq> [] \<and> hs_Wallet r \<noteq> [] \<and>
     hs_ActionKind r \<in> {''create'', ''modify'', ''cancel''} \<and>
     (\<forall>b. hs_CreatePayload r = Some b \<longrightarrow> json_valid b) \<and> list_all json_valid (hs_ModifyPayloads r) \<and>
     (\<forall>b. hs_CancelPayload r = Some b \<longrightarrow> json_valid b) \<and>
     (hs_ActionKind r = ''create'' \<longrightarrow> hs_CreatePayload r \<noteq> None) \<and>
     (hs_ActionKind r = ''modify'' \<longrightarrow> hs_ModifyPayloads r \<noteq> []) \<and>
     (hs_ActionKind r = ''cancel'' \<longrightarrow> hs_CancelPayload r \<noteq> None)"

definition subs_ok :: "HyperliquidSubmission list \<Rightarrow> bool" where
  "subs_ok rows \<longleftrightarrow> (\<forall>r \<in> set rows. sub_row_ok r) \<and> keys_unique hs_key rows"

definition status_row_ok :: "HyperliquidStatusHistory \<Rightarrow> bool" where
  "status_row_ok r \<longleftrightarrow> (\<exists>oid. sh_OrderID r = Hex oid) \<and> sh_VenueID r \<noteq> [] \<and> sh_Wallet r \<noteq> [] \<and>
     json_valid (sh_PayloadBlob r)"

definition statuses_ok :: "HyperliquidStatusHistory list \<Rightarrow> bool" where
  "statuses_ok rows \<longleftrightarrow> (\<forall>r \<in> set rows. status_row_ok r) \<and> keys_unique sh_key rows"

definition scaled_row_ok :: "ScaledOrder \<Rightarrow> bool" where
  "scaled_row_ok r \<longleftrightarrow> (\<exists>oid i t. so_OrderID r = audit_order_id oid i t) \<and> so_VenueID r \<noteq> [] \<and> so_Wallet r \<noteq> [] \<and>
     (\<forall>b. so_PayloadBlob r = Some b \<longrightarrow> json_valid b)"

definition scaled_ok :: "ScaledOrder list \<Rightarrow> bool" where
  "scaled_ok rows \<longleftrightarrow> (\<forall>r \<in> set rows. scaled_row_ok r) \<and> keys_unique so_key rows"

definition bots_ok :: "ThreecommasBot list \<Rightarrow> bool" where
  "bots_ok rows \<longleftrightarrow> (\<forall>r \<in> set rows. \<exists>b. bt_Payload r = Doc b \<and> bot_Id b = bt_BotID r) \<and> keys_unique bt_BotID rows"

definition deals_ok :: "ThreecommasDeal list \<Rightarrow> bool" where
  "deals_ok rows \<longleftrightarrow>
     (\<forall>r \<in> set rows. \<exists>dl. td_Payload r = Doc dl \<and> dl_Id dl = td_DealID r \<and> dl_BotId dl = td_BotID r) \<and>
     keys_unique td_DealID rows"

fun is_flags :: "json blob \<Rightarrow> bool" where
  "is_flags (Doc (JObject m)) = True"
| "is_flags (Doc JNull) = True"
| "is_flags _ = False"

definition venues_ok :: "VenueRow list \<Rightarrow> bool" where
  "venues_ok rows \<longleftrightarrow> (\<forall>r \<in> set rows. vn_ID r \<noteq> [] \<and> vn_Wallet r \<noteq> [] \<and> is_flags (vn_Flags r)) \<and>
     keys_unique vn_ID rows \<and> keys_unique (\<lambda>r. (vn_Type r, vn_Wallet r)) rows"

definition one_primary :: "BotVenueAssignment list \<Rightarrow> bool" where
  "one_primary rows \<longleftrightarrow>
     (\<forall>r \<in> set rows. \<forall>q \<in> set rows. va_IsPrimary r = 1 \<and> va_IsPrimary q = 1 \<and> va_BotID r = va_BotID q \<longrightarrow>
        va_VenueID r = va_VenueID q)"

definition assignments_ok :: "BotVenueAssignment list \<Rightarrow> bool" where
  "assignments_ok rows \<longleftrightarrow> (\<forall>r \<in> set rows. va_IsPrimary r \<in> {0, 1}) \<and> keys_unique va_key rows \<and>
     one_primary rows"

definition scalers_ok :: "OrderScaler list \<Rightarrow> bool" where
  "scalers_ok rows \<longleftrightarrow> keys_unique sc_ID rows"

definition db_ok :: "db \<Rightarrow> bool" where
  "db_ok d \<longleftrightarrow> events_ok (db_botevents d) (db_botevents_seq d) \<and>
     events_ok (db_botevents_log d) (db_botevents_log_seq d) \<and> subs_ok (db_submissions d) \<and>
     statuses_ok (db_statuses d) \<and> scaled_ok (db_scaled_orders d) \<and> bots_ok (db_bots d) \<and>
     deals_ok (db_deals d) \<and> venues_ok (db_venues d) \<and> assignments_ok (db_assignments d) \<and>
     scalers_ok (db_order_scalers d) \<and> keys_unique bs_BotID (db_bot_order_scalers d)"

text \<open>A running storage also has its default multiplier and its default venue.\<close>

definition storage_ok :: "Storage \<Rightarrow> bool" where
  "storage_ok s \<longleftrightarrow> db_ok (sg_db s) \<and> 1 \<in> sc_ID ` set (db_order_scalers (sg_db s))"

lemma publish_db [simp]: "sg_db (publishStreamEventLocked now evt s) = sg_db s"
  by (simp add: publishStreamEventLocked_def Let_def)

lemma publish_submission_db [simp]: "sg_db (publishHyperliquidSubmissionLocked now i sub r s) = sg_db s"
  by (simp add: publishHyperliquidSubmissionLocked_def Let_def)

lemma publish_scaler_db [simp]: "sg_db (publishOrderScalerEventLocked now oid e a t s) = sg_db s"
  by (simp add: publishOrderScalerEventLocked_def Let_def)

lemma default_names [simp]: "defaultHyperliquidVenueID \<noteq> []" "defaultHyperliquidWallet \<noteq> []"
  by (simp_all add: defaultHyperliquidVenueID_def defaultHyperliquidWallet_def)

text \<open>An identifier with a venue and a wallet is what \<^verbatim>\<open>ensureIdentifier\<close> returns.\<close>

lemma ensured [simp]:
  "oi_VenueID (ensureIdentifier i) \<noteq> []" "oi_Wallet (ensureIdentifier i) \<noteq> []"
  "oi_OrderId (ensureIdentifier i) = oi_OrderId i"
  by (simp_all add: ensureIdentifier_def Let_def)

lemma ensureIdentifier_id: "oi_VenueID i \<noteq> [] \<Longrightarrow> oi_Wallet i \<noteq> [] \<Longrightarrow> ensureIdentifier i = i"
  by (simp add: ensureIdentifier_def Let_def)

lemma ensureIdentifier_idem [simp]: "ensureIdentifier (ensureIdentifier i) = ensureIdentifier i"
  by (rule ensureIdentifier_id) simp_all

subsection \<open>Bot events\<close>

lemma events_ok_insert:
  assumes "events_ok rows sq"
    and "be_key \<lparr>be_ID = sq + 1, be_OrderID = Hex oid, be_BotID = uint (BotID oid),
           be_DealID = uint (DealID oid), be_BoteventID = uint (BotEventID oid),
           be_CreatedAtUtc = to_UnixMilli (ev_CreatedAt e), be_ObservedAtUtc = t, be_Payload = Doc e\<rparr>
         \<notin> be_key ` set rows" (is "be_key ?row \<notin> _")
  shows "events_ok (rows @ [?row]) (sq + 1)"
proof -
  have "be_ID r \<noteq> be_ID ?row" if "r \<in> set rows" for r
    using assms(1) that by (auto simp: events_ok_def dest!: bspec)
  then show ?thesis
    using assms by (auto simp: events_ok_def keys_unique_snoc event_row_ok_def dest: bspec)
qed

lemma events_ok_seq: "events_ok rows sq \<Longrightarrow> sq + 1 \<noteq> 0"
  by (simp add: events_ok_def)

lemma RecordThreeCommasBotEvent_ok:
  "storage_ok s \<Longrightarrow> storage_ok (snd (RecordThreeCommasBotEvent now oid e s))"
  by (auto simp: storage_ok_def db_ok_def RecordThreeCommasBotEvent_def InsertThreeCommasBotEvent_def Let_def
      events_ok_seq intro!: events_ok_insert)

lemma RecordThreeCommasBotEventLog_ok:
  "storage_ok s \<Longrightarrow> storage_ok (snd (RecordThreeCommasBotEventLog now oid e s))"
  by (auto simp: storage_ok_def db_ok_def RecordThreeCommasBotEventLog_def InsertThreeCommasBotEventLog_def Let_def
      intro!: events_ok_insert)

subsection \<open>Submissions and statuses\<close>

text \<open>The row each of the three writers inserts, and what the writer does to the database.\<close>

definition new_submission :: "time \<Rightarrow> OrderIdentifier \<Rightarrow> int \<Rightarrow> string \<Rightarrow> string \<Rightarrow> submission \<Rightarrow> HyperliquidSubmission" where
  "new_submission now ident row_id kind typ sub =
     \<lparr>hs_VenueID = oi_VenueID (ensureIdentifier ident), hs_Wallet = oi_Wallet (ensureIdentifier ident),
      hs_OrderID = Hex (oi_OrderId ident), hs_ActionKind = kind,
      hs_CreatePayload = (case sub of SubCreate r \<Rightarrow> Some (Doc r) | _ \<Rightarrow> None),
      hs_ModifyPayloads = (case sub of SubModify r \<Rightarrow> [Doc r] | _ \<Rightarrow> []),
      hs_CancelPayload = (case sub of SubCancel r \<Rightarrow> Some (Doc r) | _ \<Rightarrow> None),
      hs_PayloadType = typ, hs_PayloadBlob = Doc sub, hs_UpdatedAtUtc = to_UnixMilli now,
      hs_BoteventRowID = row_id\<rparr>"

abbreviation create_row :: "time \<Rightarrow> OrderIdentifier \<Rightarrow> CreateOrderRequest \<Rightarrow> int \<Rightarrow> HyperliquidSubmission" where
  "create_row now ident req row_id \<equiv>
     new_submission now ident row_id ''create'' hyperliquidCreatePayloadType (SubCreate req)"

abbreviation modify_row :: "time \<Rightarrow> OrderIdentifier \<Rightarrow> ModifyOrderRequest \<Rightarrow> int \<Rightarrow> HyperliquidSubmission" where
  "modify_row now ident req row_id \<equiv>
     new_submission now ident row_id ''modify'' hyperliquidModifyPayloadType (SubModify req)"

abbreviation cancel_row :: "time \<Rightarrow> OrderIdentifier \<Rightarrow> CancelOrderRequestByCloid \<Rightarrow> int \<Rightarrow> HyperliquidSubmission" where
  "cancel_row now ident req row_id \<equiv>
     new_submission now ident row_id ''cancel'' hyperliquidCancelPayloadType (SubCancel req)"

lemma RecordHyperliquidOrderRequest_effect:
  "fst (RecordHyperliquidOrderRequest now i req r s) = None"
  "sg_db (snd (RecordHyperliquidOrderRequest now i req r s)) =
     (sg_db s)\<lparr>db_submissions := upsert hs_key create_mrg (create_row now i req r) (db_submissions (sg_db s))\<rparr>"
  by (simp_all add: RecordHyperliquidOrderRequest_def UpsertHyperliquidCreate_def Let_def new_submission_def
      Venue_def oi_Hex_def)

lemma AppendHyperliquidModify_effect:
  "fst (AppendHyperliquidModify now i req r s) = None"
  "sg_db (snd (AppendHyperliquidModify now i req r s)) =
     (sg_db s)\<lparr>db_submissions := upsert hs_key modify_mrg (modify_row now i req r) (db_submissions (sg_db s))\<rparr>"
  by (simp_all add: AppendHyperliquidModify_def AppendHyperliquidModify_query_def Let_def new_submission_def
      Venue_def oi_Hex_def)

lemma RecordHyperliquidCancel_effect:
  "fst (RecordHyperliquidCancel now i req r s) = None"
  "sg_db (snd (RecordHyperliquidCancel now i req r s)) =
     (sg_db s)\<lparr>db_submissions := upsert hs_key cancel_mrg (cancel_row now i req r) (db_submissions (sg_db s))\<rparr>"
  by (simp_all add: RecordHyperliquidCancel_def UpsertHyperliquidCancel_def Let_def new_submission_def
      Venue_def oi_Hex_def)

lemma new_submission_ok:
  "sub_row_ok (create_row now i req r)" "sub_row_ok (modify_row now i m r)" "sub_row_ok (cancel_row now i c r)"
  by (auto simp: sub_row_ok_def new_submission_def)

lemma merged_submission_ok:
  "sub_row_ok old \<Longrightarrow> sub_row_ok (create_mrg old (create_row now i req r))"
  "sub_row_ok old \<Longrightarrow> sub_row_ok (modify_mrg old (modify_row now i m r))"
  "sub_row_ok old \<Longrightarrow> sub_row_ok (cancel_mrg old (cancel_row now i c r))"
  by (auto simp: sub_row_ok_def new_submission_def create_mrg_def modify_mrg_def cancel_mrg_def)

lemma subs_ok_upsert:
  assumes "subs_ok rows"
  shows "subs_ok (upsert hs_key create_mrg (create_row now i req r) rows)"
    and "subs_ok (upsert hs_key modify_mrg (modify_row now i m r) rows)"
    and "subs_ok (upsert hs_key cancel_mrg (cancel_row now i c r) rows)"
  using assms unfolding subs_ok_def
  by (auto intro!: creates.unique_upsert modifies.unique_upsert cancels.unique_upsert
      dest!: creates.set_upsert modifies.set_upsert cancels.set_upsert
      intro: new_submission_ok merged_submission_ok)

lemma submissions_ok:
  assumes "storage_ok s"
  shows "storage_ok (snd (RecordHyperliquidOrderRequest now i req r s))"
    and "storage_ok (snd (AppendHyperliquidModify now i m r s))"
    and "storage_ok (snd (RecordHyperliquidCancel now i c r s))"
  using assms by (simp_all add: storage_ok_def db_ok_def subs_ok_upsert RecordHyperliquidOrderRequest_effect
      AppendHyperliquidModify_effect RecordHyperliquidCancel_effect)

text \<open>The row that \<^verbatim>\<open>RecordHyperliquidStatus\<close> inserts at a given millisecond.\<close>

definition status_row :: "OrderIdentifier \<Rightarrow> WsOrder \<Rightarrow> int \<Rightarrow> HyperliquidStatusHistory" where
  "status_row i st t = \<lparr>sh_VenueID = oi_VenueID i, sh_Wallet = oi_Wallet i, sh_OrderID = Hex (oi_OrderId i),
     sh_PayloadType = hyperliquidStatusPayloadType, sh_PayloadBlob = Doc st, sh_RecordedAtUtc = t\<rparr>"

lemma unique_failed_is_unique: "isUniqueConstraintError (Some unique_failed)"
  by (simp add: isUniqueConstraintError_def unique_failed_def Contains_iff) (metis append_Nil append_Nil2)

lemma InsertHyperliquidStatus_cases:
  "InsertHyperliquidStatus (Venue i) (oi_Wallet i) (oi_Hex i) hyperliquidStatusPayloadType (Doc st) t d =
     (if sh_key (status_row i st t) \<in> sh_key ` set (db_statuses d) then Inl unique_failed
      else Inr (d\<lparr>db_statuses := db_statuses d @ [status_row i st t]\<rparr>))"
  by (simp add: InsertHyperliquidStatus_def insert_row_def status_row_def Venue_def oi_Hex_def)

lemma find_map: "find P (map f xs) = map_option f (find (\<lambda>x. P (f x)) xs)"
  by (induction xs) simp_all

text \<open>The loop inserts at the first free millisecond of the next \<open>n\<close>, if there is one.\<close>

lemma status_attempts_eq:
  "status_attempts n t i st e d =
     (case find (\<lambda>k. sh_key (status_row i st (t + int k)) \<notin> sh_key ` set (db_statuses d)) [0..<n] of
        Some k \<Rightarrow> (None, d\<lparr>db_statuses := db_statuses d @ [status_row i st (t + int k)]\<rparr>)
      | None \<Rightarrow> (if n = 0 then e else Some unique_failed, d))"
proof (induction n arbitrary: t e)
  case (Suc n)
  have "find P [0..<Suc n] = (if P 0 then Some 0 else map_option Suc (find (\<lambda>k. P (Suc k)) [0..<n]))" for P
    by (subst upt_conv_Cons) (auto simp: map_Suc_upt [symmetric] find_map comp_def simp del: upt_Suc)
  then show ?case
    using Suc by (simp add: InsertHyperliquidStatus_cases unique_failed_is_unique algebra_simps
        option.case_eq_if option.map_sel split: option.splits)
qed simp

lemma RecordHyperliquidStatus_ok:
  assumes "storage_ok s"
  shows "storage_ok (snd (RecordHyperliquidStatus now i st s))"
proof -
  have "statuses_ok (rows @ [status_row (ensureIdentifier i) st t])"
    if "statuses_ok rows" and "sh_key (status_row (ensureIdentifier i) st t) \<notin> sh_key ` set rows" for rows t
    using that by (auto simp: statuses_ok_def keys_unique_snoc status_row_ok_def status_row_def)
  then show ?thesis
    using assms by (auto simp: storage_ok_def db_ok_def RecordHyperliquidStatus_def Let_def status_attempts_eq
        find_Some_iff split: option.splits)
qed

subsection \<open>Bots, deals, assignments\<close>

lemma RecordBot_ok: "storage_ok s \<Longrightarrow> storage_ok (RecordBot b t s)"
  by (auto simp: storage_ok_def db_ok_def RecordBot_def UpsertBot_def bots_ok_def
      intro!: bot_rows.unique_upsert dest!: bot_rows.set_upsert)

lemma TouchBot_ok: "storage_ok s \<Longrightarrow> storage_ok (TouchBot i t s)"
  by (auto simp: storage_ok_def db_ok_def TouchBot_def UpdateBotSync_def bots_ok_def keys_unique_update)
    (auto simp: update_where_def)

lemma RecordThreeCommasDeal_ok: "storage_ok s \<Longrightarrow> storage_ok (RecordThreeCommasDeal now dl s)"
  by (auto simp: storage_ok_def db_ok_def RecordThreeCommasDeal_def UpsertDeal_def deals_ok_def
      intro!: deal_rows.unique_upsert dest!: deal_rows.set_upsert)

lemma assignments_ok_upsert:
  assumes "assignments_ok rows" and "p \<in> {0, 1}"
    and "p = 1 \<Longrightarrow> \<forall>r \<in> set rows. va_BotID r = b \<and> va_IsPrimary r = 1 \<longrightarrow> va_VenueID r = v"
  shows "assignments_ok (upsert va_key (\<lambda>old new. new)
    \<lparr>va_BotID = b, va_VenueID = v, va_IsPrimary = p, va_AssignedAtUtc = t\<rparr> rows)" (is "assignments_ok (upsert _ _ ?new _)")
proof -
  have s: "r = ?new \<or> r \<in> set rows" if "r \<in> set (upsert va_key (\<lambda>old new. new) ?new rows)" for r
    using assignment_rows.set_upsert [OF that] by auto
  have "one_primary (upsert va_key (\<lambda>old new. new) ?new rows)"
    unfolding one_primary_def
  proof (intro ballI impI, elim conjE)
    fix r q
    assume rq: "r \<in> set (upsert va_key (\<lambda>old new. new) ?new rows)"
        "q \<in> set (upsert va_key (\<lambda>old new. new) ?new rows)"
      and prim: "va_IsPrimary r = 1" "va_IsPrimary q = 1" and b: "va_BotID r = va_BotID q"
    have old: "va_VenueID x = va_VenueID y" if "x \<in> set rows" "y \<in> set rows" "va_IsPrimary x = 1"
        "va_IsPrimary y = 1" "va_BotID x = va_BotID y" for x y
      using assms(1) that unfolding assignments_ok_def one_primary_def by blast
    have new: "va_VenueID x = v" if "x \<in> set rows" "va_IsPrimary x = 1" "va_BotID x = b" "p = 1" for x
      using assms(3) that by blast
    show "va_VenueID r = va_VenueID q"
      using s [OF rq(1)] s [OF rq(2)]
    proof (elim disjE)
      assume "r = ?new" "q \<in> set rows"
      then show ?thesis using new [of q] prim b by simp
    next
      assume "r \<in> set rows" "q = ?new"
      then show ?thesis using new [of r] prim b by simp
    next
      assume "r \<in> set rows" "q \<in> set rows"
      then show ?thesis using old [of r q] prim b by blast
    qed simp
  qed
  moreover have "\<forall>r \<in> set (upsert va_key (\<lambda>old new. new) ?new rows). va_IsPrimary r \<in> {0, 1}"
    using assms(1,2) by (intro assignment_rows.all_upsert) (simp_all add: assignments_ok_def)
  ultimately show ?thesis
    using assms(1) by (simp add: assignments_ok_def assignment_rows.unique_upsert)
qed

lemma UpsertBotVenueAssignment_ok:
  assumes "storage_ok s"
  shows "storage_ok (snd (UpsertBotVenueAssignment now b v p s))"
proof (cases "UpsertBotVenueAssignment_query (to_UnixMilli now) (uint b) v (if p then 1 else 0) (sg_db s)")
  case (Inr d)
  then have "db_ok d \<and> db_order_scalers d = db_order_scalers (sg_db s)"
    using assms by (auto simp: UpsertBotVenueAssignment_query_def storage_ok_def db_ok_def list_ex_iff
        intro!: assignments_ok_upsert split: if_splits)
  then show ?thesis
    using assms Inr by (simp add: storage_ok_def UpsertBotVenueAssignment_def)
qed (use assms in \<open>simp add: UpsertBotVenueAssignment_def\<close>)

subsection \<open>Moving the rows of a wallet\<close>

lemma fetch_insert_all:
  "fetch key k (fold (\<lambda>r. insert_ignore key (f r)) news rows) =
     (case fetch key k rows of Some r \<Rightarrow> Some r | None \<Rightarrow> fetch key k (map f news))"
proof (induction news arbitrary: rows)
  case (Cons n news)
  then show ?case
    by (auto simp: fetch_insert_ignore fetch_Cons split: option.splits)
qed (simp split: option.splits)

lemma unique_insert_all:
  "keys_unique key rows \<Longrightarrow> keys_unique key (fold (\<lambda>r. insert_ignore key (f r)) news rows)"
  by (induction news arbitrary: rows) (simp_all add: keys_unique_insert_ignore)

lemma set_insert_all:
  "set (fold (\<lambda>r. insert_ignore key (f r)) news rows) \<subseteq> set rows \<union> f ` set news"
proof (induction news arbitrary: rows)
  case (Cons n news)
  show ?case using Cons [of "insert_ignore key (f n) rows"] set_insert_ignore [of key "f n" rows] by auto
qed simp

text \<open>The effect on a table seen as a map: the rows under one wallet of a venue appear under another, where
  that wallet has no row of its own.\<close>

definition rename_wallet ::
  "string \<Rightarrow> string \<Rightarrow> string \<Rightarrow> ('r \<Rightarrow> 'r) \<Rightarrow> (string \<times> string \<times> 'o \<Rightarrow> 'r option) \<Rightarrow> string \<times> string \<times> 'o \<Rightarrow> 'r option" where
  "rename_wallet venue from_wallet to_wallet relabel m = (\<lambda>(v, w, oid).
     if v = venue \<and> w = from_wallet then None
     else if v = venue \<and> w = to_wallet
     then (case m (v, w, oid) of Some r \<Rightarrow> Some r | None \<Rightarrow> map_option relabel (m (v, from_wallet, oid)))
     else m (v, w, oid))"

text \<open>A table keyed by venue, wallet and the rest of the key, whose wallet can be relabelled.\<close>

locale wallet_table =
  fixes key :: "'r \<Rightarrow> string \<times> string \<times> 'o" and relabel :: "string \<Rightarrow> 'r \<Rightarrow> 'r"
  assumes key_relabel: "key (relabel w r) = (fst (key r), w, snd (snd (key r)))"
begin

abbreviation in_wallet :: "string \<Rightarrow> string \<Rightarrow> 'r \<Rightarrow> bool" where
  "in_wallet v w r \<equiv> fst (key r) = v \<and> fst (snd (key r)) = w"

lemma fetch_relabelled:
  "fetch key (v', w', oid) (map (relabel to) (filter (in_wallet v from) rows)) =
     (if v' = v \<and> w' = to then map_option (relabel to) (fetch key (v, from, oid) rows) else None)"
  by (induction rows) (auto simp: fetch_Cons key_relabel prod_eq_iff)

lemma move_refines:
  assumes "from \<noteq> to"
  shows "table_map key (delete_where (in_wallet v from)
      (fold (\<lambda>r. insert_ignore key (relabel to r)) (filter (in_wallet v from) rows) rows)) =
    rename_wallet v from to (relabel to) (table_map key rows)"
proof
  fix k :: "string \<times> string \<times> 'o"
  obtain v' w' oid where k: "k = (v', w', oid)" by (cases k)
  show "table_map key (delete_where (in_wallet v from)
      (fold (\<lambda>r. insert_ignore key (relabel to r)) (filter (in_wallet v from) rows) rows)) k =
    rename_wallet v from to (relabel to) (table_map key rows) k"
    using assms fetch_filter_key [of key k "\<lambda>k. \<not> (fst k = v \<and> fst (snd k) = from)"]
    by (auto simp: k table_map_def rename_wallet_def delete_where_def fetch_insert_all fetch_relabelled
        split: option.splits)
qed

end

interpretation submission_wallets: wallet_table hs_key "\<lambda>w r. r\<lparr>hs_Wallet := w\<rparr>"
  by unfold_locales (simp add: hs_key_def)

interpretation scaled_wallets: wallet_table so_key "\<lambda>w r. r\<lparr>so_Wallet := w\<rparr>"
  by unfold_locales (simp add: so_key_def)

text \<open>The status table has the same key, differently nested.\<close>

definition sh_flat :: "HyperliquidStatusHistory \<Rightarrow> string \<times> string \<times> string \<times> int" where
  "sh_flat r = (sh_VenueID r, sh_Wallet r, sh_OrderID r, sh_RecordedAtUtc r)"

interpretation status_wallets: wallet_table sh_flat "\<lambda>w r. r\<lparr>sh_Wallet := w\<rparr>"
  by unfold_locales (simp add: sh_flat_def)

lemma insert_ignore_sh_key: "insert_ignore sh_key = insert_ignore sh_flat"
proof (intro ext)
  fix new rows
  have "sh_key new \<in> sh_key ` set rows \<longleftrightarrow> sh_flat new \<in> sh_flat ` set rows"
    by (auto simp: image_iff sh_key_def sh_order_def sh_flat_def)
  then show "insert_ignore sh_key new rows = insert_ignore sh_flat new rows" by (simp add: insert_ignore_def)
qed

lemma migrate_tables:
  assumes "from \<noteq> to"
  shows "table_map hs_key (db_submissions (migrateDefaultVenueWalletLocked from to d)) =
      rename_wallet defaultHyperliquidVenueID from to (\<lambda>r. r\<lparr>hs_Wallet := to\<rparr>) (table_map hs_key (db_submissions d))"
    and "table_map sh_flat (db_statuses (migrateDefaultVenueWalletLocked from to d)) =
      rename_wallet defaultHyperliquidVenueID from to (\<lambda>r. r\<lparr>sh_Wallet := to\<rparr>) (table_map sh_flat (db_statuses d))"
    and "table_map so_key (db_scaled_orders (migrateDefaultVenueWalletLocked from to d)) =
      rename_wallet defaultHyperliquidVenueID from to (\<lambda>r. r\<lparr>so_Wallet := to\<rparr>) (table_map so_key (db_scaled_orders d))"
proof -
  note defs = migrateDefaultVenueWalletLocked_def Let_def CloneHyperliquidSubmissionsToWallet_def
    CloneHyperliquidStatusesToWallet_def CloneScaledOrdersToWallet_def DeleteHyperliquidStatusesForWallet_def
    DeleteHyperliquidSubmissionsForWallet_def DeleteScaledOrdersForWallet_def
  show "table_map hs_key (db_submissions (migrateDefaultVenueWalletLocked from to d)) =
      rename_wallet defaultHyperliquidVenueID from to (\<lambda>r. r\<lparr>hs_Wallet := to\<rparr>) (table_map hs_key (db_submissions d))"
    using submission_wallets.move_refines [OF assms, of defaultHyperliquidVenueID "db_submissions d"] assms
    by (simp add: defs hs_key_def)
  show "table_map sh_flat (db_statuses (migrateDefaultVenueWalletLocked from to d)) =
      rename_wallet defaultHyperliquidVenueID from to (\<lambda>r. r\<lparr>sh_Wallet := to\<rparr>) (table_map sh_flat (db_statuses d))"
    using status_wallets.move_refines [OF assms, of defaultHyperliquidVenueID "db_statuses d"] assms
    by (simp add: defs sh_flat_def insert_ignore_sh_key)
  show "table_map so_key (db_scaled_orders (migrateDefaultVenueWalletLocked from to d)) =
      rename_wallet defaultHyperliquidVenueID from to (\<lambda>r. r\<lparr>so_Wallet := to\<rparr>) (table_map so_key (db_scaled_orders d))"
    using scaled_wallets.move_refines [OF assms, of defaultHyperliquidVenueID "db_scaled_orders d"] assms
    by (simp add: defs so_key_def)
qed

lemma moved_rows_ok:
  assumes "\<forall>r \<in> set rows. Q r" and "\<And>r. Q r \<Longrightarrow> Q (f r)" and "keys_unique key rows"
  shows "\<forall>r \<in> set (delete_where P (fold (\<lambda>r. insert_ignore key (f r)) (filter S rows) rows)). Q r"
    and "keys_unique key (delete_where P (fold (\<lambda>r. insert_ignore key (f r)) (filter S rows) rows))"
  using assms set_insert_all [of key f "filter S rows" rows]
  by (auto simp: delete_where_def keys_unique_filter unique_insert_all)

lemma migrate_ok:
  assumes "db_ok d" and "to \<noteq> []"
  shows "db_ok (migrateDefaultVenueWalletLocked from to d)"
proof -
  have q: "sub_row_ok r \<Longrightarrow> sub_row_ok (r\<lparr>hs_Wallet := to\<rparr>)"
    "status_row_ok r' \<Longrightarrow> status_row_ok (r'\<lparr>sh_Wallet := to\<rparr>)"
    "scaled_row_ok r'' \<Longrightarrow> scaled_row_ok (r''\<lparr>so_Wallet := to\<rparr>)" for r r' r''
    using assms(2) by (auto simp: sub_row_ok_def status_row_ok_def scaled_row_ok_def)
  show ?thesis
    using assms(1) moved_rows_ok [of "db_submissions d" sub_row_ok "\<lambda>r. r\<lparr>hs_Wallet := to\<rparr>" hs_key, OF _ q(1)]
      moved_rows_ok [of "db_statuses d" status_row_ok "\<lambda>r. r\<lparr>sh_Wallet := to\<rparr>" sh_key, OF _ q(2)]
      moved_rows_ok [of "db_scaled_orders d" scaled_row_ok "\<lambda>r. r\<lparr>so_Wallet := to\<rparr>" so_key, OF _ q(3)]
    by (simp add: db_ok_def subs_ok_def statuses_ok_def scaled_ok_def migrateDefaultVenueWalletLocked_def Let_def
      CloneHyperliquidSubmissionsToWallet_def CloneHyperliquidStatusesToWallet_def CloneScaledOrdersToWallet_def
      DeleteHyperliquidStatusesForWallet_def DeleteHyperliquidSubmissionsForWallet_def DeleteScaledOrdersForWallet_def)
qed

lemma migrate_scalers [simp]:
  "db_order_scalers (migrateDefaultVenueWalletLocked from to d) = db_order_scalers d"
  "db_venues (migrateDefaultVenueWalletLocked from to d) = db_venues d"
  by (simp_all add: migrateDefaultVenueWalletLocked_def Let_def
      CloneHyperliquidSubmissionsToWallet_def CloneHyperliquidStatusesToWallet_def CloneScaledOrdersToWallet_def
      DeleteHyperliquidStatusesForWallet_def DeleteHyperliquidSubmissionsForWallet_def DeleteScaledOrdersForWallet_def)

lemma set_replace: "x \<in> set (upsert key (\<lambda>old new. new) new rows) \<Longrightarrow> x = new \<or> x \<in> set rows"
  by (induction rows) (auto split: if_splits)

text \<open>A second unique index survives an upsert that checks it against the other rows.\<close>

lemma second_index:
  assumes "keys_unique key rows" and "keys_unique g rows"
    and "\<And>r. r \<in> set rows \<Longrightarrow> key r \<noteq> key new \<Longrightarrow> g r \<noteq> g new"
  shows "keys_unique g (upsert key (\<lambda>old new. new) new rows)"
  using assms
proof (induction rows)
  case (Cons r rows)
  have d: "key r \<notin> key ` set rows" "g r \<notin> g ` set rows" "keys_unique key rows" "keys_unique g rows"
    using Cons.prems(1,2) by (auto simp: keys_unique_def)
  show ?case
  proof (cases "key r = key new")
    case True
    then have "g new \<notin> g ` set rows"
      using Cons.prems(3) d(1) by (auto simp: image_iff) force
    with True d show ?thesis by (simp add: keys_unique_def)
  next
    case False
    have "g r \<notin> g ` set (upsert key (\<lambda>old new. new) new rows)"
      using Cons.prems(3) [of r] False d(2) set_replace [of _ key new rows] by (auto simp: image_iff)
    moreover have "keys_unique g (upsert key (\<lambda>old new. new) new rows)"
      using Cons.IH d Cons.prems(3) by simp
    ultimately show ?thesis using False by (simp add: keys_unique_def)
  qed
qed (simp add: keys_unique_def)

lemma venues_ok_upsert:
  assumes "venues_ok rows" and "vn_ID new \<noteq> []" and "vn_Wallet new \<noteq> []" and "is_flags (vn_Flags new)"
    and "\<And>r. r \<in> set rows \<Longrightarrow> vn_ID r \<noteq> vn_ID new \<Longrightarrow> vn_Type r = vn_Type new \<Longrightarrow> vn_Wallet r \<noteq> vn_Wallet new"
  shows "venues_ok (upsert vn_ID (\<lambda>old new. new) new rows)"
proof -
  have "keys_unique (\<lambda>r. (vn_Type r, vn_Wallet r)) (upsert vn_ID (\<lambda>old new. new) new rows)"
    using assms(1,5) by (intro second_index) (auto simp: venues_ok_def)
  then show ?thesis
    using assms(1-4) by (auto simp: venues_ok_def venue_rows.unique_upsert dest!: set_replace)
qed

lemma UpsertVenue_ok:
  assumes "UpsertVenue vid typ nm w fl d = Inr d'" and "db_ok d" and "vid \<noteq> []" and "w \<noteq> []" and "is_flags fl"
  shows "db_ok d' \<and> db_order_scalers d' = db_order_scalers d"
  using assms by (auto simp: UpsertVenue_def db_ok_def list_ex_iff intro!: venues_ok_upsert split: if_splits) metis

lemma upsertDefaultVenueLocked_cases:
  fixes w s
  defines "w' \<equiv> if w = [] then defaultHyperliquidWallet else w"
  obtains "snd (upsertDefaultVenueLocked w s) = s"
  | d cur where "UpsertVenue defaultHyperliquidVenueID defaultHyperliquidVenueType defaultHyperliquidName w'
        (Doc (JObject [])) (sg_db s) = Inr d"
      and "upsertDefaultVenueLocked w s =
        (None, s\<lparr>sg_db := if cur \<noteq> w' then migrateDefaultVenueWalletLocked cur w' d else d\<rparr>)"
proof -
  note def = upsertDefaultVenueLocked_def Let_def w'_def [symmetric]
  show thesis
  proof (cases "UpsertVenue defaultHyperliquidVenueID defaultHyperliquidVenueType defaultHyperliquidName w'
        (Doc (JObject [])) (sg_db s)")
    case (Inl e)
    have "snd (upsertDefaultVenueLocked w s) = s"
      by (simp add: def Inl split: sum.split store_error.split)
    then show thesis by (rule that(1))
  next
    case (Inr d)
    show thesis
    proof (rule that(2) [OF Inr])
      have e: "GetVenueByTypeAndWallet t w (sg_db s) \<noteq> Inl (StoreErr m)" "GetVenue i (sg_db s) \<noteq> Inl (StoreErr m)" for t w i m
        by (simp_all add: GetVenueByTypeAndWallet_def GetVenue_def)
      show "upsertDefaultVenueLocked w s = (None, s\<lparr>sg_db :=
          if (case GetVenue defaultHyperliquidVenueID (sg_db s) of
                Inr v \<Rightarrow> if vn_Wallet v \<noteq> [] then vn_Wallet v else defaultHyperliquidWallet
              | Inl _ \<Rightarrow> defaultHyperliquidWallet) \<noteq> w'
          then migrateDefaultVenueWalletLocked (case GetVenue defaultHyperliquidVenueID (sg_db s) of
                Inr v \<Rightarrow> if vn_Wallet v \<noteq> [] then vn_Wallet v else defaultHyperliquidWallet
              | Inl _ \<Rightarrow> defaultHyperliquidWallet) w' d else d\<rparr>)"
        using e by (auto simp: def Inr split: sum.split store_error.split)
    qed
  qed
qed

lemma upsertDefaultVenueLocked_ok:
  assumes "storage_ok s"
  shows "storage_ok (snd (upsertDefaultVenueLocked w s))"
proof (cases rule: upsertDefaultVenueLocked_cases [of w s])
  case (2 d cur)
  have "db_ok d \<and> db_order_scalers d = db_order_scalers (sg_db s)"
    by (rule UpsertVenue_ok [OF 2(1)]) (use assms in \<open>simp_all add: storage_ok_def\<close>)
  with 2 assms show ?thesis by (simp add: storage_ok_def migrate_ok)
qed (simp add: assms)

subsection \<open>Starting the storage\<close>

lemma apply_schema_ok:
  assumes "db_ok d"
  shows "storage_ok \<lparr>sg_db = apply_schema now d, sg_stream = b, sg_published = []\<rparr>"
  using assms by (auto simp: storage_ok_def db_ok_def apply_schema_def scalers_ok_def scaled_ok_def
      keys_unique_snoc insert_ignore_def)

lemma Storage_New_ok: "db_ok d \<Longrightarrow> Storage_New now b d = Inr s \<Longrightarrow> storage_ok s"
  using upsertDefaultVenueLocked_ok [OF apply_schema_ok, of d defaultHyperliquidWallet now b]
  by (auto simp: Storage_New_def ensureDefaultVenue_def split: prod.splits option.splits)

lemma empty_db_ok: "db_ok empty_db"
  by (simp add: db_ok_def empty_db_def events_ok_def subs_ok_def statuses_ok_def scaled_ok_def bots_ok_def
      deals_ok_def venues_ok_def assignments_ok_def one_primary_def scalers_ok_def)

subsection \<open>Scalers and audits\<close>

lemma GetOrderScaler_total: "storage_ok s \<Longrightarrow> \<exists>r. GetOrderScaler_query (sg_db s) = Inr r"
  by (auto simp: storage_ok_def GetOrderScaler_query_def one_filter [where key = sc_ID] fetch_None
      split: option.splits)

lemma UpsertOrderScaler_ok: "storage_ok s \<Longrightarrow> storage_ok (snd (UpsertOrderScaler now m u n s))"
  by (simp add: storage_ok_def db_ok_def UpsertOrderScaler_def UpsertOrderScaler_query_def Let_def scalers_ok_def
      scaler_rows.unique_upsert scaler_rows.keys_upsert split: sum.split)

lemma UpsertBotOrderScaler_ok: "storage_ok s \<Longrightarrow> storage_ok (snd (UpsertBotOrderScaler now b m n u s))"
  by (auto simp: storage_ok_def db_ok_def UpsertBotOrderScaler_def UpsertBotOrderScaler_query_def Let_def
      bot_scaler_rows.unique_upsert split: sum.splits)

lemma DeleteBotOrderScaler_ok: "storage_ok s \<Longrightarrow> storage_ok (snd (DeleteBotOrderScaler now b u s))"
  by (auto simp: storage_ok_def db_ok_def DeleteBotOrderScaler_def DeleteBotOrderScaler_query_def Let_def
      keys_unique_delete split: sum.splits)

lemma GetVenue_ok: "venues_ok (db_venues d) \<Longrightarrow> GetVenue v d = Inr row \<Longrightarrow>
    row \<in> set (db_venues d) \<and> vn_ID row = v \<and> vn_ID row \<noteq> [] \<and> vn_Wallet row \<noteq> []"
  by (auto simp: GetVenue_def one_filter [where key = vn_ID] venues_ok_def split: option.splits dest!: fetch_Some)

lemma decodeVenueFlags_total: "is_flags f \<Longrightarrow> \<exists>m. decodeVenueFlags f = Inr m"
  by (cases f rule: is_flags.cases) (simp_all add: decodeVenueFlags_def)

lemma find_primary_cases:
  assumes "\<forall>r \<in> set rows. vn_ID r \<noteq> [] \<and> vn_Wallet r \<noteq> [] \<and> is_flags (vn_Flags r)"
  shows "(case find_primary_venue rows of
      Inl e \<Rightarrow> e = errPrimaryHyperliquidVenueNotFound
    | Inr a \<Rightarrow> \<exists>r \<in> set rows. as_VenueID a = vn_ID r \<and> as_Wallet a = vn_Wallet r \<and> as_IsPrimary a)"
  using assms
proof (induction rows)
  case (Cons r rows)
  then obtain m where "decodeVenueFlags (vn_Flags r) = Inr m"
    using decodeVenueFlags_total by (metis list.set_intros(1))
  then show ?case
    using Cons by (auto simp: wallet_or_default_def split: sum.splits)
qed simp

text \<open>The default assignment is a stored venue, or the sentinel with the sentinel wallet.\<close>

lemma defaultVenueAssignment_total:
  assumes "db_ok d"
  obtains a where "defaultVenueAssignmentLocked d = Inr a" and "as_VenueID a \<noteq> []" and "as_Wallet a \<noteq> []"
    and "as_IsPrimary a"
proof -
  have v: "venues_ok (db_venues d)" using assms by (simp add: db_ok_def)
  then have f: "case findPrimaryHyperliquidVenueLocked d of
      Inl e \<Rightarrow> e = errPrimaryHyperliquidVenueNotFound
    | Inr a \<Rightarrow> as_VenueID a \<noteq> [] \<and> as_Wallet a \<noteq> [] \<and> as_IsPrimary a"
    using find_primary_cases [of "ListVenues d"]
    by (auto simp: findPrimaryHyperliquidVenueLocked_def ListVenues_def venues_ok_def split: sum.splits)
  have "\<exists>a. defaultVenueAssignmentLocked d = Inr a \<and> as_VenueID a \<noteq> [] \<and> as_Wallet a \<noteq> [] \<and> as_IsPrimary a"
  proof (cases "GetVenue defaultHyperliquidVenueID d")
    case (Inl e)
    then have "e = ErrNoRows" by (simp add: GetVenue_def)
    with Inl show ?thesis by (simp add: defaultVenueAssignmentLocked_def)
  next
    case (Inr row)
    with GetVenue_ok [OF v Inr] f show ?thesis
      by (auto simp: defaultVenueAssignmentLocked_def Let_def wallet_or_default_def split: sum.splits)
  qed
  then show thesis using that by blast
qed

lemma audit_venue_total:
  assumes "db_ok d"
  obtains vw where "audit_venue i d = Inr vw" and "fst vw \<noteq> []" and "snd vw \<noteq> []"
proof -
  obtain a where "defaultVenueAssignmentLocked d = Inr a" "as_VenueID a \<noteq> []" "as_Wallet a \<noteq> []"
    using assms by (rule defaultVenueAssignment_total)
  then have "\<exists>vw. audit_venue i d = Inr vw \<and> fst vw \<noteq> [] \<and> snd vw \<noteq> []"
    by (auto simp: audit_venue_def)
  then show thesis using that by blast
qed

lemma audit_row_ok: "fst vw \<noteq> [] \<Longrightarrow> snd vw \<noteq> [] \<Longrightarrow> scaled_row_ok (audit_row vw t p)"
  by (auto simp: scaled_row_ok_def audit_row_def split: option.splits)

lemma InsertScaledOrder_Inr:
  "InsertScaledOrder row d = Inr d' \<longleftrightarrow> so_key row \<notin> so_key ` set (db_scaled_orders d) \<and>
     d' = d\<lparr>db_scaled_orders := db_scaled_orders d @ [row]\<rparr>"
  by (auto simp: InsertScaledOrder_def insert_row_def)

lemma InsertScaledOrderAudit_ok:
  assumes "storage_ok s"
  shows "storage_ok (snd (InsertScaledOrderAudit now p s))"
proof -
  let ?t = "if ap_CreatedAt p = zero_time then now else ap_CreatedAt p"
  obtain vw where vw: "audit_venue (ap_Identifier p) (sg_db s) = Inr vw" "fst vw \<noteq> []" "snd vw \<noteq> []"
    using assms audit_venue_total unfolding storage_ok_def by metis
  have "db_ok d \<and> db_order_scalers d = db_order_scalers (sg_db s)"
    if "InsertScaledOrder (audit_row vw ?t p) (sg_db s) = Inr d" for d
    using that assms vw by (auto simp: InsertScaledOrder_Inr storage_ok_def db_ok_def scaled_ok_def
        keys_unique_snoc audit_row_ok)
  then show ?thesis
    using assms by (cases "InsertScaledOrder (audit_row vw ?t p) (sg_db s)")
      (simp_all add: InsertScaledOrderAudit_def Let_def vw storage_ok_def split: sum.split)
qed

lemma RecordScaledOrder_ok: "storage_ok s \<Longrightarrow> storage_ok (snd (RecordScaledOrder now p s))"
  using InsertScaledOrderAudit_ok [of s now]
  by (simp add: RecordScaledOrder_def Let_def split: sum.split prod.split) (metis snd_conv)

subsection \<open>Venues and vault\<close>

lemma Storage_UpsertVenue_ok: "storage_ok s \<Longrightarrow> storage_ok (snd (Storage_UpsertVenue v p s))"
  by (auto simp: Storage_UpsertVenue_def Let_def storage_ok_def dest: UpsertVenue_ok
      split: sum.splits store_error.splits)

lemma Storage_DeleteVenue_ok: "storage_ok s \<Longrightarrow> storage_ok (snd (Storage_DeleteVenue v s))"
  by (auto simp: Storage_DeleteVenue_def Let_def storage_ok_def db_ok_def DeleteVenue_def venues_ok_def
      keys_unique_delete delete_where_def keys_unique_filter split: sum.splits store_error.splits)

lemma one_primary_mono:
  assumes "one_primary rows" and "\<And>r. r \<in> set rows' \<Longrightarrow> va_IsPrimary r = 1 \<Longrightarrow> r \<in> set rows"
  shows "one_primary rows'"
  using assms unfolding one_primary_def by blast

lemma clear_primary_ok:
  assumes "assignments_ok (db_assignments d)"
  shows "assignments_ok (db_assignments (clear_primary b d))"
proof -
  have "one_primary (db_assignments (clear_primary b d))"
    by (rule one_primary_mono [of "db_assignments d"])
      (use assms in \<open>auto simp: assignments_ok_def clear_primary_def update_where_def\<close>)
  moreover have "keys_unique va_key (db_assignments (clear_primary b d))"
    using assms by (simp add: assignments_ok_def clear_primary_def keys_unique_update va_key_def)
  ultimately show ?thesis
    using assms by (auto simp: assignments_ok_def) (auto simp: clear_primary_def update_where_def)
qed

lemma UpsertVenueAssignment_ok:
  assumes "storage_ok s"
  shows "storage_ok (snd (UpsertVenueAssignment now v b p s))"
proof -
  let ?d = "if p then clear_primary b (sg_db s) else sg_db s"
  have d: "db_ok ?d" "db_order_scalers ?d = db_order_scalers (sg_db s)"
    using assms clear_primary_ok [of "sg_db s" b] by (auto simp: storage_ok_def db_ok_def clear_primary_def)
  have "db_ok d' \<and> db_order_scalers d' = db_order_scalers (sg_db s)"
    if "UpsertBotVenueAssignment_query t b w (if p then 1 else 0) ?d = Inr d'" for t w d'
    using that d unfolding UpsertBotVenueAssignment_query_def db_ok_def
    by (auto simp: list_ex_iff intro!: assignments_ok_upsert split: if_splits)
  then show ?thesis
    using assms by (auto simp: UpsertVenueAssignment_def Let_def storage_ok_def split: sum.splits option.splits store_error.splits)
qed

lemma DeleteVenueAssignment_ok:
  assumes "storage_ok s"
  shows "storage_ok (snd (DeleteVenueAssignment v b s))"
proof -
  have "one_primary (delete_where P (db_assignments (sg_db s)))" for P
    by (rule one_primary_mono [of "db_assignments (sg_db s)"])
      (use assms in \<open>auto simp: storage_ok_def db_ok_def assignments_ok_def delete_where_def\<close>)
  then show ?thesis
    using assms by (simp add: DeleteVenueAssignment_def Let_def storage_ok_def db_ok_def DeleteBotVenueAssignment_def
        assignments_ok_def keys_unique_delete) (simp add: delete_where_def)
qed

lemma vault_ops_ok:
  assumes "storage_ok s"
  shows "storage_ok (snd (EnsureVaultUser now u s))" and "storage_ok (DeleteVaultUserByID i s)"
    and "storage_ok (snd (UpsertVaultPayload now inp s))" and "storage_ok (DeleteVaultPayloadForUser i s)"
    and "storage_ok (snd (UpsertWebauthnCredential now ci s))" and "storage_ok (snd (DeleteWebauthnCredential c s))"
  using assms
  by (simp_all add: storage_ok_def db_ok_def EnsureVaultUser_def EnsureVaultUser_query_def DeleteVaultUserByID_def
      DeleteVaultUserByID_query_def UpsertVaultPayload_def UpsertVaultPayload_query_def DeleteVaultPayloadForUser_def
      DeleteVaultPayloadForUser_query_def UpsertWebauthnCredential_def UpsertWebauthnCredential_query_def
      DeleteWebauthnCredential_def DeleteWebauthnCredentialByID_query_def Let_def split: option.split)

subsection \<open>Every operation\<close>

text \<open>One call of a storage operation that writes.\<close>

inductive storage_step :: "Storage \<Rightarrow> Storage \<Rightarrow> bool" where
  event: "storage_step s (snd (RecordThreeCommasBotEvent now oid e s))"
| event_log: "storage_step s (snd (RecordThreeCommasBotEventLog now oid e s))"
| create: "storage_step s (snd (RecordHyperliquidOrderRequest now i req r s))"
| modify: "storage_step s (snd (AppendHyperliquidModify now i m r s))"
| cancel: "storage_step s (snd (RecordHyperliquidCancel now i c r s))"
| status: "storage_step s (snd (RecordHyperliquidStatus now i st s))"
| bot_row: "storage_step s (RecordBot b t s)"
| touch: "storage_step s (TouchBot bi t s)"
| deal_row: "storage_step s (RecordThreeCommasDeal now dl s)"
| assign: "storage_step s (snd (UpsertBotVenueAssignment now u v p s))"
| wallet: "storage_step s (snd (EnsureDefaultVenueWallet w s))"
| scaler: "storage_step s (snd (UpsertOrderScaler now f by' n s))"
| bot_scaler: "storage_step s (snd (UpsertBotOrderScaler now u fo n by' s))"
| no_bot_scaler: "storage_step s (snd (DeleteBotOrderScaler now u by' s))"
| audit: "storage_step s (snd (RecordScaledOrder now rp s))"
| venue: "storage_step s (snd (Storage_UpsertVenue v up s))"
| no_venue: "storage_step s (snd (Storage_DeleteVenue v s))"
| api_assign: "storage_step s (snd (UpsertVenueAssignment now v bi p s))"
| api_unassign: "storage_step s (snd (DeleteVenueAssignment v bi s))"
| user: "storage_step s (snd (EnsureVaultUser now v s))"
| no_user: "storage_step s (DeleteVaultUserByID bi s)"
| payload: "storage_step s (snd (UpsertVaultPayload now inp s))"
| no_payload: "storage_step s (DeleteVaultPayloadForUser bi s)"
| credential: "storage_step s (snd (UpsertWebauthnCredential now ci s))"
| no_credential: "storage_step s (snd (DeleteWebauthnCredential cid s))"

lemmas storage_ok_ops = RecordThreeCommasBotEvent_ok RecordThreeCommasBotEventLog_ok submissions_ok
  RecordHyperliquidStatus_ok RecordBot_ok TouchBot_ok RecordThreeCommasDeal_ok UpsertBotVenueAssignment_ok
  upsertDefaultVenueLocked_ok UpsertOrderScaler_ok UpsertBotOrderScaler_ok DeleteBotOrderScaler_ok
  RecordScaledOrder_ok Storage_UpsertVenue_ok Storage_DeleteVenue_ok UpsertVenueAssignment_ok
  DeleteVenueAssignment_ok vault_ops_ok

lemma storage_step_ok: "storage_step s t \<Longrightarrow> storage_ok s \<Longrightarrow> storage_ok t"
  by (induction rule: storage_step.induct) (simp_all add: storage_ok_ops EnsureDefaultVenueWallet_def)

text \<open>A storage opened on an empty or an earlier database.\<close>

definition storage_init :: "Storage \<Rightarrow> bool" where
  "storage_init s \<longleftrightarrow> (\<exists>now stream d. db_ok d \<and> Storage_New now stream d = Inr s)"

interpretation storage_sys: invariant_system storage_init storage_step storage_ok
  by unfold_locales (auto simp: storage_init_def intro: Storage_New_ok storage_step_ok)

section \<open>Reading\<close>

text \<open>What a well-formed row decodes to.\<close>

lemma decode_events_ok: "\<forall>p \<in> set rows. json_valid (snd p) \<Longrightarrow> \<exists>es. decode_events rows = Inr es"
proof (induction rows)
  case (Cons p rows)
  then show ?case by (cases p; cases "snd p") auto
qed simp

lemma decode_list_ok: "list_all json_valid bs \<Longrightarrow> \<exists>xs. decode_list bs = Inr xs \<and> length xs = length bs"
proof (induction bs)
  case (Cons b bs)
  then show ?case by (cases b) auto
qed simp

lemma decode_order_ids_ok: "\<forall>h \<in> set hs. \<exists>oid. h = Hex oid \<Longrightarrow> \<exists>oids. decode_order_ids hs = Inr oids"
proof (induction hs)
  case (Cons h hs)
  then obtain oid oids where "h = Hex oid" "decode_order_ids hs = Inr oids" by auto
  then show ?case by simp
qed simp

lemma decode_identifiers_ok:
  "\<forall>(v, w, h) \<in> set rows. \<exists>oid. h = Hex oid \<Longrightarrow> \<exists>is. decode_identifiers rows = Inr is"
proof (induction rows)
  case (Cons p rows)
  obtain v w h where p: "p = (v, w, h)" by (cases p)
  with Cons obtain oid "is" where "h = Hex oid" "decode_identifiers rows = Inr is" by auto
  then show ?case by (simp add: p)
qed simp

lemma event_row_valid:
  assumes "event_row_ok r"
  obtains oid e where "be_OrderID r = Hex oid" and "be_Payload r = Doc e"
    and "be_CreatedAtUtc r = to_UnixMilli (ev_CreatedAt e)" and "be_BotID r = uint (BotID oid)"
    and "be_DealID r = uint (DealID oid)" and "be_BoteventID r = uint (BotEventID oid)"
  using assms by (auto simp: event_row_ok_def)

lemma events_rows: "events_ok rows sq \<Longrightarrow> r \<in> set rows \<Longrightarrow> event_row_ok r"
  by (simp add: events_ok_def)

lemma decode_logs_ok: "\<forall>r \<in> set rows. event_row_ok r \<Longrightarrow> \<exists>ls. decode_logs rows = Inr ls"
proof (induction rows)
  case (Cons r rows)
  then obtain oid e where "be_OrderID r = Hex oid" "be_Payload r = Doc e"
    by (meson event_row_valid list.set_intros(1))
  with Cons show ?case by auto
qed simp

text \<open>The action a well-formed submission row stands for.\<close>

definition doc_value :: "'a blob option \<Rightarrow> 'a \<Rightarrow> 'a" where
  "doc_value b z = (case b of Some (Doc x) \<Rightarrow> x | _ \<Rightarrow> z)"

definition last_doc :: "'a blob list \<Rightarrow> 'a \<Rightarrow> 'a" where
  "last_doc bs z = (if bs = [] then z else doc_value (Some (last bs)) z)"

definition row_action :: "HyperliquidSubmission \<Rightarrow> Action" where
  "row_action r = \<lparr>ac_Type = action_type_of (hs_ActionKind r),
     ac_Create = doc_value (hs_CreatePayload r) zero_Create,
     ac_Modify = last_doc (hs_ModifyPayloads r) zero_Modify,
     ac_Cancel = doc_value (hs_CancelPayload r) zero_Cancel, ac_Reason = []\<rparr>"

lemma kind_trim: "k \<in> {''create'', ''modify'', ''cancel''} \<Longrightarrow> ToLower (TrimSpace k) = k"
  by (elim insertE emptyE; hypsubst; code_simp)

lemma decode_list_last:
  assumes "list_all json_valid bs"
  shows "decode_list bs = Inr (map (\<lambda>b. doc_value (Some b) z) bs)"
  using assms
proof (induction bs)
  case (Cons b bs)
  then show ?case by (cases b) (auto simp: doc_value_def)
qed simp

lemma decode_submission_ok:
  assumes "sub_row_ok r"
  shows "decode_submission r = Inr (row_action r)"
proof -
  have k: "ToLower (TrimSpace (hs_ActionKind r)) = hs_ActionKind r"
    using assms kind_trim by (auto simp: sub_row_ok_def)
  have c: "load_create (hs_ActionKind r) r = Inr (map_option (\<lambda>b. doc_value (Some b) zero_Create) (hs_CreatePayload r))"
    using assms by (auto simp: load_create_def decodeCreateRequest_def sub_row_ok_def doc_value_def
        split: option.splits blob.splits)
  have m: "load_modify (hs_ActionKind r) r =
      Inr (if hs_ModifyPayloads r = [] then None else Some (last_doc (hs_ModifyPayloads r) zero_Modify))"
    using assms decode_list_last [of "hs_ModifyPayloads r" zero_Modify]
    by (auto simp: load_modify_def decodeLatestModifyRequest_def sub_row_ok_def last_doc_def last_map)
  have x: "load_cancel (hs_ActionKind r) r = Inr (map_option (\<lambda>b. doc_value (Some b) zero_Cancel) (hs_CancelPayload r))"
    using assms by (auto simp: load_cancel_def decodeCancelRequest_def sub_row_ok_def doc_value_def
        split: option.splits blob.splits)
  show ?thesis
    using assms by (auto simp: decode_submission_def k c m x row_action_def Let_def sub_row_ok_def action_type_of_def
        doc_value_def last_doc_def split: option.splits)
qed

subsection \<open>Reads of a well-formed database\<close>

lemma db_okD:
  assumes "db_ok d"
  shows "events_ok (db_botevents d) (db_botevents_seq d)"
    and "events_ok (db_botevents_log d) (db_botevents_log_seq d)" and "subs_ok (db_submissions d)"
    and "statuses_ok (db_statuses d)" and "scaled_ok (db_scaled_orders d)" and "bots_ok (db_bots d)"
    and "deals_ok (db_deals d)" and "venues_ok (db_venues d)" and "assignments_ok (db_assignments d)"
  using assms by (simp_all add: db_ok_def)

lemma event_payload_valid: "event_row_ok r \<Longrightarrow> json_valid (be_Payload r)"
  by (auto simp: event_row_ok_def)

lemma ListEventsForOrder_total: "db_ok d \<Longrightarrow> \<exists>es. ListEventsForOrder b dl be d = Inr es"
  unfolding ListEventsForOrder_def ListThreeCommasBotEventsForOrder_def
  by (rule decode_events_ok) (auto dest!: db_okD(1) events_rows event_payload_valid)

lemma ListEventsLog_total: "db_ok d \<Longrightarrow> \<exists>ls. ListEventsLog d = Inr ls"
  unfolding ListEventsLog_def ListThreeCommasBotEventLogs_def
  by (rule decode_logs_ok) (auto dest!: db_okD(2) events_rows)

lemma one_cases: "(\<exists>r \<in> set rows. one rows = Inr r) \<or> one rows = Inl ErrNoRows"
  by (cases rows) auto

lemma LoadThreeCommasBotEvent_total: "db_ok d \<Longrightarrow> \<exists>e. LoadThreeCommasBotEvent oid d = Inr e"
  using one_cases [of "order_by (\<lambda>r. (- be_ObservedAtUtc r, - be_ID r))
      (filter (\<lambda>r. be_OrderID r = Hex oid) (db_botevents d))"]
  by (auto simp: LoadThreeCommasBotEvent_def FetchThreeCommasBotEvent_def event_row_ok_def
      dest!: db_okD(1) dest: events_rows) (metis Unmarshal.simps(1) event_row_valid events_rows map_sum.simps(2))

lemma FetchHyperliquidSubmission_eq:
  "FetchHyperliquidSubmission v w h d =
     (case table_map hs_key (db_submissions d) (v, w, h) of None \<Rightarrow> Inl ErrNoRows | Some r \<Rightarrow> Inr r)"
  by (simp add: FetchHyperliquidSubmission_def one_filter table_map_def)

text \<open>The submission of an identifier, seen through the table as a map.\<close>

lemma LoadHyperliquidSubmission_eq:
  assumes "subs_ok (db_submissions d)"
  shows "LoadHyperliquidSubmission i d =
     Inr (map_option row_action (table_map hs_key (db_submissions d)
       (oi_VenueID (ensureIdentifier i), oi_Wallet (ensureIdentifier i), Hex (oi_OrderId i))))"
proof -
  have "sub_row_ok r" if "table_map hs_key (db_submissions d) k = Some r" for k r
    using that assms fetch_Some [of hs_key k] by (auto simp: subs_ok_def table_map_def)
  then show ?thesis
    by (auto simp: LoadHyperliquidSubmission_def Let_def FetchHyperliquidSubmission_eq Venue_def oi_Hex_def
        decode_submission_ok split: option.splits)
qed

lemma LoadHyperliquidSubmission_total: "db_ok d \<Longrightarrow> \<exists>a. LoadHyperliquidSubmission i d = Inr a"
  by (simp add: LoadHyperliquidSubmission_eq db_okD)

lemma LoadHyperliquidStatus_total:
  assumes "db_ok d"
  shows "\<exists>st. LoadHyperliquidStatus i d = Inr st"
proof -
  let ?i = "ensureIdentifier i"
  let ?q = "FetchLatestHyperliquidStatus (Venue ?i) (oi_Wallet ?i) (oi_Hex ?i) d"
  have v: "json_valid (sh_PayloadBlob r)" if "r \<in> set (db_statuses d)" for r
    using that db_okD(4) [OF assms] by (auto simp: statuses_ok_def status_row_ok_def)
  have "(\<exists>r \<in> set (db_statuses d). ?q = Inr r) \<or> ?q = Inl ErrNoRows"
    using one_cases [of "order_by (\<lambda>r. - sh_RecordedAtUtc r)
      (filter (\<lambda>r. sh_order r = (Venue ?i, oi_Wallet ?i, oi_Hex ?i)) (db_statuses d))"]
    by (auto simp: FetchLatestHyperliquidStatus_def)
  then show ?thesis
  proof (elim disjE bexE)
    fix r assume r: "r \<in> set (db_statuses d)" "?q = Inr r"
    with v obtain st where "sh_PayloadBlob r = Doc st" by (metis json_valid.elims(2))
    with r show ?thesis by (simp add: LoadHyperliquidStatus_def loadLatestHyperliquidStatusLocked_def)
  qed (simp add: LoadHyperliquidStatus_def loadLatestHyperliquidStatusLocked_def)
qed

lemma ListHyperliquidStatuses_total: "db_ok d \<Longrightarrow> \<exists>sts. ListHyperliquidStatuses i d = Inr sts"
proof -
  assume "db_ok d"
  then have "list_all json_valid (map sh_PayloadBlob (ListHyperliquidStatuses_query v w h d))" for v w h
    by (auto simp: list_all_iff ListHyperliquidStatuses_query_def statuses_ok_def status_row_ok_def dest!: db_okD(4))
  then show ?thesis
    using decode_list_ok unfolding ListHyperliquidStatuses_def Let_def by blast
qed

lemma ListHyperliquidOrderIds_total: "db_ok d \<Longrightarrow> \<exists>is. ListHyperliquidOrderIds d = Inr is"
proof -
  assume d: "db_ok d"
  have "\<exists>oid. hs_OrderID r = Hex oid" if "r \<in> set (db_submissions d)" for r
    using that db_okD(3) [OF d] by (auto simp: subs_ok_def sub_row_ok_def)
  then have q: "\<forall>(v, w, h) \<in> set (ListHyperliquidOrderIds_query u d). \<exists>oid. h = Hex oid" for u
    by (auto simp: ListHyperliquidOrderIds_query_def hs_key_def)
  then have "\<forall>(v, w, h) \<in> set (concat (map (\<lambda>u. ListHyperliquidOrderIds_query u d) us)). \<exists>oid. h = Hex oid" for us
    by fastforce
  with q defaultVenueAssignment_total [OF d] show ?thesis
    unfolding ListHyperliquidOrderIds_def Let_def using decode_identifiers_ok by (auto split: sum.splits) blast+
qed

lemma ListOrderIdsForDeal_total: "db_ok d \<Longrightarrow> \<exists>oids. ListOrderIdsForDeal dl d = Inr oids"
  unfolding ListOrderIdsForDeal_def GetOrderIdForDeal_def
  by (rule decode_order_ids_ok) (auto dest!: db_okD(1) events_rows simp: event_row_ok_def)

lemma LoadThreeCommasDeal_total: "db_ok d \<Longrightarrow> \<exists>dl. LoadThreeCommasDeal i d = Inr dl"
  by (auto simp: LoadThreeCommasDeal_def FetchDeal_def one_filter [where key = td_DealID] deals_ok_def
      split: option.splits dest!: db_okD(7) fetch_Some dest: bspec) fastforce

lemma LoadBot_total: "db_ok d \<Longrightarrow> \<exists>b. LoadBot i d = Inr b"
  by (auto simp: LoadBot_def FetchBot_def one_filter [where key = bt_BotID] bots_ok_def
      split: option.splits dest!: db_okD(6) fetch_Some dest: bspec) fastforce

lemma LoadTakeProfitForDeal_total:
  "db_ok d \<Longrightarrow> LoadTakeProfitForDeal dl d = Inl ErrNoRows \<or> (\<exists>x. LoadTakeProfitForDeal dl d = Inr x)"
proof -
  assume d: "db_ok d"
  let ?rows = "filter (\<lambda>r. be_DealID r = uint dl) (db_botevents d)"
  have ok: "event_row_ok r" if "r \<in> set ?rows" for r using that db_okD(1) [OF d] events_rows by auto
  then have v: "\<not> list_ex (\<lambda>r. \<not> json_valid (be_Payload r)) ?rows"
    using event_payload_valid by (auto simp: list_ex_iff)
  show ?thesis
  proof (cases "GetTPForDeal (uint dl) d")
    case (Inl e)
    with v show ?thesis by (auto simp: LoadTakeProfitForDeal_def GetTPForDeal_def Let_def)
  next
    case (Inr r)
    then have "r \<in> set ?rows" using v one_order_by_least(1) by (fastforce simp: GetTPForDeal_def Let_def)
    then obtain oid e where "be_OrderID r = Hex oid" "be_Payload r = Doc e"
      using ok event_row_valid by metis
    with Inr show ?thesis by (simp add: LoadTakeProfitForDeal_def)
  qed
qed

end
