(* ===== verification/Storage_Props.thy ===== *)
theory Storage_Props
  imports Storage_Laws
begin

text \<open>
  The properties of the storage layer: reachable databases are well-formed and every read of one
  decodes; the submissions table refines a map from identifiers to actions; a wallet migration
  is a renaming; events and statuses read back as written; the multiplier in effect; and what the
  schema and the missing foreign keys leave behind.
\<close>

section \<open>Remaining reads\<close>

lemma resolve_assignments_total:
  assumes "venues_ok (db_venues d)"
  shows "\<exists>vs. resolve_assignments d as = Inr vs \<and>
    map as_VenueID vs = filter (\<lambda>v. v \<in> vn_ID ` set (db_venues d)) (map va_VenueID as) \<and>
    (\<forall>v \<in> set vs. as_VenueID v \<noteq> [] \<and> as_Wallet v \<noteq> [] \<and>
       (\<exists>r \<in> set (db_venues d). vn_ID r = as_VenueID v \<and> vn_Wallet r = as_Wallet v))"
proof (induction "as")
  case (Cons a "as")
  then show ?case
  proof (cases "GetVenue (va_VenueID a) d")
    case (Inl e)
    then have "e = ErrNoRows" and "va_VenueID a \<notin> vn_ID ` set (db_venues d)"
      by (auto simp: GetVenue_def one_filter [where key = vn_ID] fetch_None split: option.splits)
    with Inl Cons show ?thesis by auto
  next
    case (Inr row)
    note r = GetVenue_ok [OF assms Inr]
    then have "va_VenueID a \<in> vn_ID ` set (db_venues d)" by (metis imageI)
    with Inr Cons r show ?thesis by (auto simp: wallet_or_default_def)
  qed
qed simp

lemma ListVenuesForBot_total:
  assumes "db_ok d"
  obtains vs where "ListVenuesForBot b d = Inr vs" and "vs \<noteq> []"
    and "\<forall>v \<in> set vs. as_VenueID v \<noteq> [] \<and> as_Wallet v \<noteq> []"
proof -
  obtain vs where vs: "resolve_assignments d (ListBotVenueAssignments (uint b) d) = Inr vs"
      "\<forall>v \<in> set vs. as_VenueID v \<noteq> [] \<and> as_Wallet v \<noteq> []"
    using resolve_assignments_total [OF db_okD(8) [OF assms]] by metis
  obtain a where a: "defaultVenueAssignmentLocked d = Inr a" "as_VenueID a \<noteq> []" "as_Wallet a \<noteq> []"
    using assms by (rule defaultVenueAssignment_total)
  show thesis
  proof (cases vs)
    case Nil
    with vs a show thesis by (intro that [of "[a]"]) (simp_all add: ListVenuesForBot_def)
  next
    case (Cons x xs)
    with vs show thesis by (intro that [of vs]) (simp_all add: ListVenuesForBot_def)
  qed
qed

lemma GetBotOrderScaler_cases: "GetBotOrderScaler_query b d = Inl ErrNoRows \<or> (\<exists>r. GetBotOrderScaler_query b d = Inr r)"
  using one_cases [of "filter (\<lambda>r. bs_BotID r = b) (db_bot_order_scalers d)"]
  by (auto simp: GetBotOrderScaler_query_def)

lemma ResolveEffectiveOrderScaler_total:
  assumes "storage_ok s"
  shows "\<exists>e. ResolveEffectiveOrderScaler oid (sg_db s) = Inr e"
  using GetOrderScaler_total [OF assms] GetBotOrderScaler_cases [of "uint (BotID oid)" "sg_db s"]
  by (auto simp: ResolveEffectiveOrderScaler_def Let_def split: option.splits)

lemma convertScaledOrder_ok:
  assumes "scaled_row_ok r"
  shows "\<exists>a. convertScaledOrder r = Inr a"
proof -
  obtain oid i t where "so_OrderID r = audit_order_id oid i t" using assms by (auto simp: scaled_row_ok_def)
  moreover have "\<exists>x. (case so_PayloadBlob r of None \<Rightarrow> Inr None | Some b \<Rightarrow> Unmarshal b) = Inr x"
    using assms by (auto simp: scaled_row_ok_def split: option.split elim!: json_valid.elims(2))
  ultimately show ?thesis
    by (auto simp: convertScaledOrder_def decode_audit_id split: sum.splits)
qed

lemma convertScaledOrders_ok:
  "\<forall>r \<in> set rows. scaled_row_ok r \<Longrightarrow> \<exists>as. convertScaledOrdersFromOrderRows rows = Inr as"
proof (induction rows)
  case (Cons r rows)
  then obtain a "as" where "convertScaledOrder r = Inr a" "convertScaledOrdersFromOrderRows rows = Inr as"
    using convertScaledOrder_ok by (metis list.set_intros)
  then show ?case by simp
qed simp

lemma ListScaledOrdersByOrderId_total: "db_ok d \<Longrightarrow> \<exists>as. ListScaledOrdersByOrderId oid d = Inr as"
  unfolding ListScaledOrdersByOrderId_def ListScaledOrdersByOrderId_query_def
  by (rule convertScaledOrders_ok) (auto dest!: db_okD(5) simp: scaled_ok_def)

lemma decode_safeties_ok: "\<forall>r \<in> set rows. \<exists>oid. ss_OrderID r = Hex oid \<Longrightarrow> \<exists>x. decode_safeties rows = Inr x"
proof (induction rows)
  case (Cons r rows)
  then obtain oid x where "ss_OrderID r = Hex oid" "decode_safeties rows = Inr x" by auto
  then show ?case by simp
qed simp

lemma ListLatestHyperliquidSafetyStatuses_total:
  assumes "db_ok d"
  shows "\<exists>x. ListLatestHyperliquidSafetyStatuses dl d = Inr x"
proof -
  obtain a where a: "defaultVenueAssignmentLocked d = Inr a"
    using assms by (rule defaultVenueAssignment_total)
  let ?j = "safety_join (as_VenueID a) (uint dl) None d"
  have j: "event_row_ok b \<and> json_valid (sh_PayloadBlob l)" if "(l, b) \<in> set ?j" for l b
    using that db_okD(1,4) [OF assms]
    by (auto simp: safety_join_def latest_statuses_def events_ok_def statuses_ok_def status_row_ok_def split: if_splits)
  have nb: "\<not> list_ex (\<lambda>(l, b). \<not> json_valid (be_Payload b)) ?j"
    "\<not> list_ex (\<lambda>(l, b). \<not> json_valid (sh_PayloadBlob l)) (filter (\<lambda>(l, b). is_safety (be_Payload b)) ?j)"
    using j event_payload_valid by (auto simp: list_ex_iff)
  have "\<exists>x. decode_safeties (order_by ss_OrderPosition
      (concat (map safety_row (filter (\<lambda>(l, b). is_safety (be_Payload b)) ?j)))) = Inr x"
  proof (rule decode_safeties_ok, safe)
    fix r assume "r \<in> set (order_by ss_OrderPosition
      (concat (map safety_row (filter (\<lambda>(l, b). is_safety (be_Payload b)) ?j))))"
    then obtain l b where "(l, b) \<in> set ?j" "r \<in> set (safety_row (l, b))" by auto
    with j show "\<exists>oid. ss_OrderID r = Hex oid"
      by (auto simp: event_row_ok_def split: blob.splits) blast
  qed
  with a nb show ?thesis
    by (simp add: ListLatestHyperliquidSafetyStatuses_def ResolveDefaultAlias_def
        ListLatestHyperliquidSafetyStatuses_query_def Let_def)
qed

section \<open>Well-formedness\<close>

text \<open>A storage opened on an empty database.\<close>

definition fresh_storage :: Storage where
  "fresh_storage = (case Storage_New 0 True empty_db of
     Inr s \<Rightarrow> s | Inl _ \<Rightarrow> \<lparr>sg_db = empty_db, sg_stream = True, sg_published = []\<rparr>)"

lemma fresh_storage_init: "storage_init fresh_storage"
proof -
  have "case_sum (\<lambda>_. False) (\<lambda>_. True) (Storage_New 0 True empty_db)" by code_simp
  then have "Storage_New 0 True empty_db = Inr fresh_storage"
    by (auto simp: fresh_storage_def split: sum.splits)
  then show ?thesis using empty_db_ok by (auto simp: storage_init_def)
qed

text \<open>
  C6: In every state the storage can reach from an opened database, every read decodes: the event
  history and the log, the events, submissions, statuses and identifiers of an order, deals and
  bots, the venues of a bot (never an empty list), the effective multiplier, the audits and the
  safety statuses all come back without an error, and the take profit of a deal is found or absent.\<close>

theorem reads_always_decode:
  assumes "storage_init s0" and "storage_step\<^sup>*\<^sup>* s0 s"
  defines "d \<equiv> sg_db s"
  shows "(\<exists>es. ListEventsForOrder botID dealID eventID d = Inr es) \<and> (\<exists>ls. ListEventsLog d = Inr ls) \<and>
    (\<exists>e. LoadThreeCommasBotEvent oid d = Inr e) \<and> (\<exists>a. LoadHyperliquidSubmission ident d = Inr a) \<and>
    (\<exists>st. LoadHyperliquidStatus ident d = Inr st) \<and> (\<exists>sts. ListHyperliquidStatuses ident d = Inr sts) \<and>
    (\<exists>is. ListHyperliquidOrderIds d = Inr is) \<and> (\<exists>oids. ListOrderIdsForDeal dealID d = Inr oids) \<and>
    (\<exists>dl. LoadThreeCommasDeal i d = Inr dl) \<and> (\<exists>b. LoadBot i d = Inr b) \<and>
    (\<exists>v vs. ListVenuesForBot botID d = Inr (v # vs)) \<and> (\<exists>a. ResolveDefaultAlias d = Inr a) \<and>
    (\<exists>e. ResolveEffectiveOrderScaler oid d = Inr e) \<and> (\<exists>as. ListScaledOrdersByOrderId oid d = Inr as) \<and>
    (\<exists>x. ListLatestHyperliquidSafetyStatuses dealID d = Inr x) \<and>
    (LoadTakeProfitForDeal dealID d = Inl ErrNoRows \<or> (\<exists>x. LoadTakeProfitForDeal dealID d = Inr x))"
proof -
  have s: "storage_ok s" by (rule storage_sys.inv_reachable [OF assms(1,2)])
  then have d: "db_ok d" by (simp add: storage_ok_def d_def)
  obtain vs where "ListVenuesForBot botID d = Inr vs" "vs \<noteq> []" using d by (rule ListVenuesForBot_total)
  moreover obtain a where "defaultVenueAssignmentLocked d = Inr a" using d by (rule defaultVenueAssignment_total)
  ultimately show ?thesis
    using ResolveEffectiveOrderScaler_total [OF s, of oid]
    by (intro conjI ListEventsForOrder_total [OF d] ListEventsLog_total [OF d] LoadThreeCommasBotEvent_total [OF d]
        LoadHyperliquidSubmission_total [OF d] LoadHyperliquidStatus_total [OF d] ListHyperliquidStatuses_total [OF d]
        ListHyperliquidOrderIds_total [OF d] ListOrderIdsForDeal_total [OF d] LoadThreeCommasDeal_total [OF d]
        LoadBot_total [OF d] ListScaledOrdersByOrderId_total [OF d] LoadTakeProfitForDeal_total [OF d]
        ListLatestHyperliquidSafetyStatuses_total [OF d])
      (auto simp: ResolveDefaultAlias_def d_def neq_Nil_conv)
qed

theorem reads_always_decode_witness:
  "storage_init fresh_storage \<and>
   (\<exists>v vs. ListVenuesForBot 7 (sg_db (snd (RecordThreeCommasBotEvent 5 zero_OrderId zero_tc_BotEvent fresh_storage))) =
      Inr (v # vs))"
  using fresh_storage_init
    reads_always_decode [OF fresh_storage_init r_into_rtranclp
      [where r = storage_step, OF storage_step.event [of fresh_storage 5 zero_OrderId zero_tc_BotEvent]], where botID = 7]
  by simp

section \<open>Submissions as a map\<close>

text \<open>
  The contract of the submissions table: a map from identifiers to the action last submitted, on
  which recording a request updates the entry of its identifier. Identifiers that differ only in
  a venue or wallet left to the default name the same entry.
\<close>

definition submission_view :: "Storage \<Rightarrow> OrderIdentifier \<Rightarrow> Action option" where
  "submission_view s i = (case LoadHyperliquidSubmission i (sg_db s) of Inr a \<Rightarrow> a | Inl _ \<Rightarrow> None)"

definition update_entry ::
  "OrderIdentifier \<Rightarrow> (Action \<Rightarrow> Action) \<Rightarrow> (OrderIdentifier \<Rightarrow> Action option) \<Rightarrow> OrderIdentifier \<Rightarrow> Action option" where
  "update_entry i f m = (\<lambda>j.
     if ensureIdentifier j = ensureIdentifier i
     then Some (f (case m i of None \<Rightarrow> zero_Action | Some a \<Rightarrow> a)) else m j)"

lemma submission_view_eq:
  "subs_ok (db_submissions (sg_db s)) \<Longrightarrow> submission_view s j =
     map_option row_action (table_map hs_key (db_submissions (sg_db s))
       (oi_VenueID (ensureIdentifier j), oi_Wallet (ensureIdentifier j), Hex (oi_OrderId j)))"
  by (simp add: submission_view_def LoadHyperliquidSubmission_eq)

lemma hs_key_new:
  "hs_key (new_submission now i r k t sub) =
     (oi_VenueID (ensureIdentifier i), oi_Wallet (ensureIdentifier i), Hex (oi_OrderId i))"
  by (simp add: hs_key_def new_submission_def)

lemma same_entry:
  "(oi_VenueID (ensureIdentifier j), oi_Wallet (ensureIdentifier j), Hex (oi_OrderId j)) =
     (oi_VenueID (ensureIdentifier i), oi_Wallet (ensureIdentifier i), Hex (oi_OrderId i)) \<longleftrightarrow>
   ensureIdentifier j = ensureIdentifier i"
  by (metis OrderIdentifier.equality ensured(3) Hex_eq_iff old.unit.exhaust prod.inject)

lemma row_action_merge:
  "row_action (create_mrg old (create_row now i req r)) = (row_action old)\<lparr>ac_Type := ActionCreate, ac_Create := req\<rparr>"
  "row_action (modify_mrg old (modify_row now i m r)) = (row_action old)\<lparr>ac_Type := ActionModify, ac_Modify := m\<rparr>"
  "row_action (cancel_mrg old (cancel_row now i c r)) = (row_action old)\<lparr>ac_Type := ActionCancel, ac_Cancel := c\<rparr>"
  "row_action (create_row now i req r) = zero_Action\<lparr>ac_Type := ActionCreate, ac_Create := req\<rparr>"
  "row_action (modify_row now i m r) = zero_Action\<lparr>ac_Type := ActionModify, ac_Modify := m\<rparr>"
  "row_action (cancel_row now i c r) = zero_Action\<lparr>ac_Type := ActionCancel, ac_Cancel := c\<rparr>"
  by (simp_all add: row_action_def new_submission_def create_mrg_def modify_mrg_def cancel_mrg_def zero_Action_def
      action_type_of_def doc_value_def last_doc_def)

lemma view_of_update:
  assumes "subs_ok (db_submissions (sg_db s))" and "subs_ok (db_submissions (sg_db t))"
    and "table_map hs_key (db_submissions (sg_db t)) =
      (table_map hs_key (db_submissions (sg_db s)))(hs_key new \<mapsto>
        (case table_map hs_key (db_submissions (sg_db s)) (hs_key new) of None \<Rightarrow> new | Some old \<Rightarrow> mrg old new))"
    and "hs_key new = (oi_VenueID (ensureIdentifier i), oi_Wallet (ensureIdentifier i), Hex (oi_OrderId i))"
    and "row_action new = f zero_Action" and "\<And>old. row_action (mrg old new) = f (row_action old)"
  shows "submission_view t = update_entry i f (submission_view s)"
proof
  fix j
  show "submission_view t j = update_entry i f (submission_view s) j"
    using assms(5,6) same_entry [of j i]
    by (auto simp: submission_view_eq [OF assms(1)] submission_view_eq [OF assms(2)] assms(3,4) update_entry_def
        split: option.splits)
qed

text \<open>
  C5: Recording a request refines an update of the map: after a create, a modify or a cancel the
  entry of the identifier has that type and that request, the other requests of the entry and all
  other entries are as they were.\<close>

theorem submissions_refine_map:
  assumes "storage_init s0" and "storage_step\<^sup>*\<^sup>* s0 s"
  shows "submission_view (snd (RecordHyperliquidOrderRequest now i req r s)) =
      update_entry i (\<lambda>a. a\<lparr>ac_Type := ActionCreate, ac_Create := req\<rparr>) (submission_view s) \<and>
    submission_view (snd (AppendHyperliquidModify now i m r s)) =
      update_entry i (\<lambda>a. a\<lparr>ac_Type := ActionModify, ac_Modify := m\<rparr>) (submission_view s) \<and>
    submission_view (snd (RecordHyperliquidCancel now i c r s)) =
      update_entry i (\<lambda>a. a\<lparr>ac_Type := ActionCancel, ac_Cancel := c\<rparr>) (submission_view s)"
proof (intro conjI)
  have s: "storage_ok s" by (rule storage_sys.inv_reachable [OF assms])
  have k: "subs_ok (db_submissions (sg_db t))" if "storage_ok t" for t
    using that by (simp add: storage_ok_def db_okD(3))
  note ok = k [OF s] submissions_ok [OF s, THEN k]
  show "submission_view (snd (RecordHyperliquidOrderRequest now i req r s)) =
      update_entry i (\<lambda>a. a\<lparr>ac_Type := ActionCreate, ac_Create := req\<rparr>) (submission_view s)"
    by (rule view_of_update [OF ok(1,2), where new = "create_row now i req r" and mrg = create_mrg])
      (simp_all add: RecordHyperliquidOrderRequest_effect creates.upsert_refines hs_key_new row_action_merge)
  show "submission_view (snd (AppendHyperliquidModify now i m r s)) =
      update_entry i (\<lambda>a. a\<lparr>ac_Type := ActionModify, ac_Modify := m\<rparr>) (submission_view s)"
    by (rule view_of_update [OF ok(1,3), where new = "modify_row now i m r" and mrg = modify_mrg])
      (simp_all add: AppendHyperliquidModify_effect modifies.upsert_refines hs_key_new row_action_merge)
  show "submission_view (snd (RecordHyperliquidCancel now i c r s)) =
      update_entry i (\<lambda>a. a\<lparr>ac_Type := ActionCancel, ac_Cancel := c\<rparr>) (submission_view s)"
    by (rule view_of_update [OF ok(1,4), where new = "cancel_row now i c r" and mrg = cancel_mrg])
      (simp_all add: RecordHyperliquidCancel_effect cancels.upsert_refines hs_key_new row_action_merge)
qed

theorem submissions_refine_map_witness:
  "storage_init fresh_storage \<and>
   submission_view (snd (RecordHyperliquidOrderRequest 5 zero_OrderIdentifier zero_Create 0 fresh_storage)) =
     update_entry zero_OrderIdentifier (\<lambda>a. a\<lparr>ac_Type := ActionCreate, ac_Create := zero_Create\<rparr>)
       (submission_view fresh_storage)"
  using fresh_storage_init submissions_refine_map [OF fresh_storage_init rtranclp.rtrancl_refl] by simp

section \<open>Wallet migration\<close>

text \<open>
  C25: Moving the default venue to another wallet renames the wallet of its submissions, statuses
  and audits: a row of the old wallet appears under the new one unless that wallet already had
  its own row for the order, nothing of the old wallet is left, and no other row changes.\<close>

theorem wallet_migration_renames:
  assumes "fromWallet \<noteq> toWallet"
  shows "table_map hs_key (db_submissions (migrateDefaultVenueWalletLocked fromWallet toWallet d)) =
      rename_wallet defaultHyperliquidVenueID fromWallet toWallet (\<lambda>r. r\<lparr>hs_Wallet := toWallet\<rparr>)
        (table_map hs_key (db_submissions d)) \<and>
    table_map sh_flat (db_statuses (migrateDefaultVenueWalletLocked fromWallet toWallet d)) =
      rename_wallet defaultHyperliquidVenueID fromWallet toWallet (\<lambda>r. r\<lparr>sh_Wallet := toWallet\<rparr>)
        (table_map sh_flat (db_statuses d)) \<and>
    table_map so_key (db_scaled_orders (migrateDefaultVenueWalletLocked fromWallet toWallet d)) =
      rename_wallet defaultHyperliquidVenueID fromWallet toWallet (\<lambda>r. r\<lparr>so_Wallet := toWallet\<rparr>)
        (table_map so_key (db_scaled_orders d))"
  using migrate_tables [OF assms, of d] by simp

theorem wallet_migration_renames_witness:
  "''default'' \<noteq> ''0xabc'' \<and>
   table_map hs_key (db_submissions (migrateDefaultVenueWalletLocked ''default'' ''0xabc'' (sg_db fresh_storage))) =
     rename_wallet defaultHyperliquidVenueID ''default'' ''0xabc'' (\<lambda>r. r\<lparr>hs_Wallet := ''0xabc''\<rparr>)
       (table_map hs_key (db_submissions (sg_db fresh_storage)))"
  using wallet_migration_renames [of "''default''" "''0xabc''" "sg_db fresh_storage"] by simp

section \<open>Statuses\<close>

lemma FetchLatest_new:
  assumes "\<And>r. r \<in> set rows \<Longrightarrow> sh_order r = sh_order new \<Longrightarrow> sh_RecordedAtUtc r < sh_RecordedAtUtc new"
  shows "one (order_by (\<lambda>r. - sh_RecordedAtUtc r) (filter (\<lambda>r. sh_order r = sh_order new) (rows @ [new]))) = Inr new"
    (is "one ?rows = _")
proof (cases "one ?rows")
  case (Inl e)
  then have "filter (\<lambda>r. sh_order r = sh_order new) (rows @ [new]) = []" by simp
  then show ?thesis by simp
next
  case (Inr r)
  note l = one_order_by_least [OF Inr]
  have "sh_RecordedAtUtc new \<le> sh_RecordedAtUtc r" using l(2) [of new] by simp
  with l(1) assms [of r] have "r = new" by auto
  with Inr show ?thesis by simp
qed

lemma LoadHyperliquidStatus_eq:
  "LoadHyperliquidStatus i d =
     (case one (order_by (\<lambda>r. - sh_RecordedAtUtc r) (filter (\<lambda>r. sh_order r =
         (oi_VenueID (ensureIdentifier i), oi_Wallet (ensureIdentifier i), Hex (oi_OrderId i))) (db_statuses d))) of
        Inl ErrNoRows \<Rightarrow> Inr None | Inl e \<Rightarrow> Inl e | Inr row \<Rightarrow> map_sum id Some (Unmarshal (sh_PayloadBlob row)))"
  by (simp add: LoadHyperliquidStatus_def loadLatestHyperliquidStatusLocked_def FetchLatestHyperliquidStatus_def
      Venue_def oi_Hex_def Let_def)

lemma sh_order_status_row:
  "sh_order (status_row (ensureIdentifier i) st t) =
     (oi_VenueID (ensureIdentifier i), oi_Wallet (ensureIdentifier i), Hex (oi_OrderId i))"
  by (simp add: sh_order_def status_row_def)

text \<open>
  A status recorded for a venue other than the default alias, by a clock that is not behind the
  statuses already stored for the order, is stored in one of at most two attempts and is the one
  that is loaded next; the latest status of every other identifier is unchanged.\<close>

theorem status_roundtrip:
  assumes "oi_VenueID i \<noteq> defaultHyperliquidVenueID"
    and "\<forall>row \<in> set (db_statuses (sg_db s)). sh_order row =
        (oi_VenueID (ensureIdentifier i), oi_Wallet (ensureIdentifier i), Hex (oi_OrderId i)) \<longrightarrow>
        sh_RecordedAtUtc row \<le> to_UnixMilli now"
  shows "fst (RecordHyperliquidStatus now i st s) = None \<and>
    LoadHyperliquidStatus i (sg_db (snd (RecordHyperliquidStatus now i st s))) = Inr (Some st) \<and>
    (ensureIdentifier j \<noteq> ensureIdentifier i \<longrightarrow>
       LoadHyperliquidStatus j (sg_db (snd (RecordHyperliquidStatus now i st s))) = LoadHyperliquidStatus j (sg_db s))"
proof -
  let ?row = "\<lambda>k. status_row (ensureIdentifier i) st (to_UnixMilli now + int k)"
  let ?rows = "db_statuses (sg_db s)"
  let ?free = "\<lambda>k. sh_key (?row k) \<notin> sh_key ` set ?rows"
  have free1: "?free 1" using assms(2) by (auto simp: sh_key_def sh_order_status_row) (auto simp: status_row_def)
  have "(1 :: nat) \<in> set [0..<5]" by simp
  with free1 obtain k where k: "find ?free [0..<5] = Some k"
    by (cases "find ?free [0..<5]") (unfold find_None_iff, blast+)
  then have "?free k" by (auto simp: find_Some_iff)
  then have less: "sh_RecordedAtUtc r < sh_RecordedAtUtc (?row k)"
    if "r \<in> set ?rows" "sh_order r = sh_order (?row k)" for r
  proof -
    have "sh_RecordedAtUtc r \<le> to_UnixMilli now" using assms(2) that by (simp add: sh_order_status_row)
    moreover have "sh_key r \<noteq> sh_key (?row k)" using \<open>?free k\<close> that(1) by (metis imageI)
    ultimately show ?thesis using that(2) by (simp add: sh_key_def) (simp add: status_row_def)
  qed
  have rec: "RecordHyperliquidStatus now i st s = (None, t)" "db_statuses (sg_db t) = ?rows @ [?row k]"
    if "t = snd (RecordHyperliquidStatus now i st s)" for t
    using k assms(1) that by (simp_all add: RecordHyperliquidStatus_def Let_def status_attempts_eq)
  let ?t = "snd (RecordHyperliquidStatus now i st s)"
  have "LoadHyperliquidStatus i (sg_db ?t) = map_sum id Some (Unmarshal (sh_PayloadBlob (?row k)))"
    using FetchLatest_new [of ?rows "?row k", OF less]
    by (simp only: LoadHyperliquidStatus_eq rec(2) [OF refl] sh_order_status_row sum.case)
  moreover have "LoadHyperliquidStatus j (sg_db ?t) = LoadHyperliquidStatus j (sg_db s)"
    if "ensureIdentifier j \<noteq> ensureIdentifier i"
    using that same_entry [of j i]
    by (simp only: LoadHyperliquidStatus_eq rec(2) [OF refl] filter_append filter.simps sh_order_status_row
        if_False append_Nil2 eq_commute)
  moreover have "fst (RecordHyperliquidStatus now i st s) = None"
    using rec(1) [OF refl] by (metis fst_conv)
  ultimately show ?thesis by (simp add: status_row_def)
qed

theorem status_roundtrip_witness:
  "LoadHyperliquidStatus (NewOrderIdentifier ''hyperliquid:main'' ''0xabc'' zero_OrderId)
     (sg_db (snd (RecordHyperliquidStatus 5 (NewOrderIdentifier ''hyperliquid:main'' ''0xabc'' zero_OrderId)
       (sample_ws ''open'' ''1'') fresh_storage))) = Inr (Some (sample_ws ''open'' ''1''))"
proof -
  have "db_statuses (sg_db fresh_storage) = []" by code_simp
  then show ?thesis
    using status_roundtrip [of "NewOrderIdentifier ''hyperliquid:main'' ''0xabc'' zero_OrderId" fresh_storage 5]
    by (simp add: NewOrderIdentifier_def defaultHyperliquidVenueID_def)
qed

section \<open>The history of an order\<close>

definition event_history :: "OrderId \<Rightarrow> Storage \<Rightarrow> BotEvent list" where
  "event_history oid s =
     (case ListEventsForOrder (BotID oid) (DealID oid) (BotEventID oid) (sg_db s) of Inr es \<Rightarrow> es | Inl _ \<Rightarrow> [])"

definition row_event :: "ThreecommasBotevent \<Rightarrow> BotEvent" where
  "row_event r = \<lparr>RowID = be_ID r, tc_event = doc_value (Some (be_Payload r)) zero_tc_BotEvent\<rparr>"

definition history_rows :: "OrderId \<Rightarrow> db \<Rightarrow> ThreecommasBotevent list" where
  "history_rows oid d = order_by (\<lambda>r. (be_CreatedAtUtc r, be_ObservedAtUtc r, be_ID r))
     (filter (\<lambda>r. be_BotID r = uint (BotID oid) \<and> be_DealID r = uint (DealID oid) \<and>
        be_BoteventID r = uint (BotEventID oid)) (db_botevents d))"

lemma decode_events_eq:
  "\<forall>r \<in> set rows. event_row_ok r \<Longrightarrow>
     decode_events (map (\<lambda>r. (be_ID r, be_Payload r)) rows) = Inr (map row_event rows)"
proof (induction rows)
  case (Cons r rows)
  then obtain oid e where "be_Payload r = Doc e" by (meson event_row_valid list.set_intros(1))
  with Cons show ?case by (simp add: row_event_def doc_value_def)
qed simp

lemma ListEventsForOrder_eq:
  assumes "db_ok d"
  shows "ListEventsForOrder (BotID oid) (DealID oid) (BotEventID oid) d = Inr (map row_event (history_rows oid d))"
proof -
  have "\<forall>r \<in> set (history_rows oid d). event_row_ok r"
    using db_okD(1) [OF assms] by (auto simp: history_rows_def events_ok_def)
  then show ?thesis
    by (simp add: ListEventsForOrder_def ListThreeCommasBotEventsForOrder_def decode_events_eq
        flip: history_rows_def)
qed

lemma row_event_created:
  "event_row_ok r \<Longrightarrow> to_UnixMilli (ev_CreatedAt (tc_event (row_event r))) = be_CreatedAtUtc r"
  by (auto simp: event_row_ok_def row_event_def doc_value_def)

lemma history_sorted:
  assumes "db_ok d"
  shows "sorted (map (\<lambda>e. to_UnixMilli (ev_CreatedAt (tc_event e))) (map row_event (history_rows oid d)))"
proof -
  have "\<forall>r \<in> set (history_rows oid d). event_row_ok r"
    using db_okD(1) [OF assms] by (auto simp: history_rows_def events_ok_def)
  then have "map (\<lambda>e. to_UnixMilli (ev_CreatedAt (tc_event e))) (map row_event (history_rows oid d)) =
      map be_CreatedAtUtc (history_rows oid d)"
    by (simp add: row_event_created comp_def cong: map_cong)
  moreover have "sorted (map (\<lambda>r. (be_CreatedAtUtc r, be_ObservedAtUtc r, be_ID r)) (history_rows oid d))"
    unfolding history_rows_def by (rule sorted_order_by)
  then have "sorted (map be_CreatedAtUtc (history_rows oid d))"
    by (auto simp: sorted_iff_nth_mono less_eq_prod_def le_less)
  ultimately show ?thesis by (simp only:)
qed

lemma RecordThreeCommasBotEvent_cases:
  fixes oid e now s
  defines "row \<equiv> \<lparr>be_ID = db_botevents_seq (sg_db s) + 1, be_OrderID = Hex oid, be_BotID = uint (BotID oid),
    be_DealID = uint (DealID oid), be_BoteventID = uint (BotEventID oid),
    be_CreatedAtUtc = to_UnixMilli (ev_CreatedAt e), be_ObservedAtUtc = to_UnixMilli now, be_Payload = Doc e\<rparr>"
  obtains "be_key row \<in> be_key ` set (db_botevents (sg_db s))" "RecordThreeCommasBotEvent now oid e s = (Inl ErrNoRows, s)"
  | t where "be_key row \<notin> be_key ` set (db_botevents (sg_db s))"
      "RecordThreeCommasBotEvent now oid e s = (Inr (be_ID row), t)"
      "db_botevents (sg_db t) = db_botevents (sg_db s) @ [row]" "db_botevents_seq (sg_db t) = be_ID row"
proof (cases "be_key row \<in> be_key ` set (db_botevents (sg_db s))")
  case True
  then show thesis
    by (intro that(1)) (simp_all add: RecordThreeCommasBotEvent_def InsertThreeCommasBotEvent_def Let_def row_def)
next
  case False
  then show thesis
    by (intro that(2) [of "snd (RecordThreeCommasBotEvent now oid e s)"])
      (simp_all add: RecordThreeCommasBotEvent_def InsertThreeCommasBotEvent_def Let_def row_def)
qed

text \<open>
  C23: Recording an event either adds it once to the history of its order, which is listed in the
  order of creation, and recording it again then changes nothing and reports a duplicate; or the
  history already has an event of that millisecond, the state is unchanged and a duplicate is
  reported.\<close>

theorem event_recorded_once:
  assumes "storage_init s0" and "storage_step\<^sup>*\<^sup>* s0 s"
  shows "case RecordThreeCommasBotEvent now oid e s of
      (Inr row_id, t) \<Rightarrow>
        mset (event_history oid t) = add_mset \<lparr>RowID = row_id, tc_event = e\<rparr> (mset (event_history oid s)) \<and>
        sorted (map (\<lambda>e. to_UnixMilli (ev_CreatedAt (tc_event e))) (event_history oid t)) \<and>
        RecordThreeCommasBotEvent now' oid e t = (Inl ErrNoRows, t)
    | (Inl err, t) \<Rightarrow> err = ErrNoRows \<and> t = s \<and>
        (\<exists>e' \<in> set (event_history oid s). to_UnixMilli (ev_CreatedAt (tc_event e')) = to_UnixMilli (ev_CreatedAt e))"
proof -
  have s: "storage_ok s" by (rule storage_sys.inv_reachable [OF assms(1,2)])
  then have d: "db_ok (sg_db s)" by (simp add: storage_ok_def)
  have h: "event_history oid s = map row_event (history_rows oid (sg_db s))" if "db_ok (sg_db s)" for s
    using ListEventsForOrder_eq [OF that, of oid] by (simp add: event_history_def)
  show ?thesis
  proof (cases rule: RecordThreeCommasBotEvent_cases [of s oid e now])
    case 1
    then obtain r where r: "r \<in> set (db_botevents (sg_db s))" "be_OrderID r = Hex oid"
        "be_CreatedAtUtc r = to_UnixMilli (ev_CreatedAt e)"
      by (auto simp: be_key_def)
    have ok: "event_row_ok r" using db_okD(1) [OF d] r(1) events_rows by auto
    then have "r \<in> set (history_rows oid (sg_db s))"
      using r by (auto simp: history_rows_def event_row_ok_def)
    with ok r(3) show ?thesis
      by (auto simp: 1(2) h [OF d] row_event_created intro!: bexI [of _ r])
  next
    case (2 t)
    have t: "db_ok (sg_db t)"
      using RecordThreeCommasBotEvent_ok [OF s, of now oid e] by (simp add: 2(2) storage_ok_def)
    have "mset (event_history oid t) = add_mset \<lparr>RowID = db_botevents_seq (sg_db s) + 1, tc_event = e\<rparr> (mset (event_history oid s))"
      by (simp add: h [OF d] h [OF t] history_rows_def 2(3) row_event_def doc_value_def)
    moreover have "RecordThreeCommasBotEvent now' oid e t = (Inl ErrNoRows, t)"
      by (simp add: RecordThreeCommasBotEvent_def InsertThreeCommasBotEvent_def Let_def 2(3) be_key_def)
    ultimately show ?thesis
      using history_sorted [OF t, of oid] by (simp add: 2(2) h [OF t])
  qed
qed

theorem event_recorded_once_witness:
  "RecordThreeCommasBotEvent 9 zero_OrderId zero_tc_BotEvent
     (snd (RecordThreeCommasBotEvent 5 zero_OrderId zero_tc_BotEvent fresh_storage)) =
   (Inl ErrNoRows, snd (RecordThreeCommasBotEvent 5 zero_OrderId zero_tc_BotEvent fresh_storage))"
proof -
  have "db_botevents (sg_db fresh_storage) = []" by code_simp
  then obtain row_id t where r: "RecordThreeCommasBotEvent 5 zero_OrderId zero_tc_BotEvent fresh_storage = (Inr row_id, t)"
    by (cases rule: RecordThreeCommasBotEvent_cases [of fresh_storage zero_OrderId zero_tc_BotEvent 5]) auto
  show ?thesis
    using event_recorded_once [OF fresh_storage_init rtranclp.rtrancl_refl,
        where now = 5 and oid = zero_OrderId and e = zero_tc_BotEvent and now' = 9]
    by (simp add: r)
qed

section \<open>Multipliers\<close>

definition multiplier_of :: "Storage \<Rightarrow> OrderId \<Rightarrow> f64 option" where
  "multiplier_of s oid =
     (case ResolveEffectiveOrderScaler oid (sg_db s) of Inr e \<Rightarrow> Some (ef_Multiplier e) | Inl _ \<Rightarrow> None)"

definition default_multiplier :: "Storage \<Rightarrow> f64 option" where
  "default_multiplier s = (case GetOrderScaler (sg_db s) of Inr st \<Rightarrow> Some (ss_Multiplier st) | Inl _ \<Rightarrow> None)"

definition override_of :: "Storage \<Rightarrow> uint32 \<Rightarrow> f64 option" where
  "override_of s b =
     (case fetch bs_BotID (uint b) (db_bot_order_scalers (sg_db s)) of None \<Rightarrow> None | Some r \<Rightarrow> bs_Multiplier r)"

lemma multiplier_of_eq:
  "multiplier_of s oid = (case default_multiplier s of None \<Rightarrow> None
     | Some m \<Rightarrow> Some (case override_of s (BotID oid) of None \<Rightarrow> m | Some x \<Rightarrow> x))"
  by (auto simp: multiplier_of_def ResolveEffectiveOrderScaler_def Let_def override_of_def default_multiplier_def
      GetOrderScaler_def GetBotOrderScaler_query_def one_filter [where key = bs_BotID] convertBotOrderScaler_def
      split: sum.splits option.splits)

lemma default_multiplier_eq:
  "default_multiplier s = map_option sc_Multiplier (fetch sc_ID 1 (db_order_scalers (sg_db s)))"
  by (auto simp: default_multiplier_def GetOrderScaler_def GetOrderScaler_query_def one_filter [where key = sc_ID]
      convertOrderScaler_def split: sum.splits option.splits)

lemma scaler_effects:
  assumes "storage_ok s"
  shows "sg_db (snd (UpsertBotOrderScaler now b m n u s)) =
      UpsertBotOrderScaler_query (to_UnixMilli now) (uint b) m n u (sg_db s)"
    and "sg_db (snd (DeleteBotOrderScaler now b u s)) = DeleteBotOrderScaler_query (uint b) (sg_db s)"
    and "sg_db (snd (UpsertOrderScaler now f u n s)) =
      UpsertOrderScaler_query (to_UnixMilli now) f u n (sg_db s)"
  by (simp_all add: UpsertBotOrderScaler_def DeleteBotOrderScaler_def UpsertOrderScaler_def Let_def split: sum.split)

text \<open>
  C24: The multiplier of an order is its bot's override if one is set, else the default. Setting or
  clearing an override changes the multiplier of the orders of that bot only, removing it restores
  the default, and changing the default leaves orders with an override alone.\<close>

theorem multiplier_in_effect:
  assumes "storage_init s0" and "storage_step\<^sup>*\<^sup>* s0 s"
  shows "multiplier_of (snd (UpsertBotOrderScaler now b m n u s)) oid =
      (if BotID oid = b then (if m = None then default_multiplier s else m) else multiplier_of s oid) \<and>
    multiplier_of (snd (DeleteBotOrderScaler now b u s)) oid =
      (if BotID oid = b then default_multiplier s else multiplier_of s oid) \<and>
    multiplier_of (snd (UpsertOrderScaler now f u n s)) oid =
      (if override_of s (BotID oid) = None then Some f else multiplier_of s oid)"
proof -
  have s: "storage_ok s" by (rule storage_sys.inv_reachable [OF assms])
  note eff = scaler_effects [OF s]
  obtain dm where dm: "default_multiplier s = Some dm"
    using GetOrderScaler_total [OF s] by (auto simp: default_multiplier_def GetOrderScaler_def)
  have uc: "uint c = uint b \<longleftrightarrow> c = b" for c
    by (simp add: word_uint_eq_iff)
  have o1: "override_of (snd (UpsertBotOrderScaler now b m n u s)) c = (if c = b then m else override_of s c)" for c
    by (auto simp: override_of_def eff UpsertBotOrderScaler_query_def bot_scaler_rows.fetch_upsert uc split: option.splits)
  have o2: "override_of (snd (DeleteBotOrderScaler now b u s)) c = (if c = b then None else override_of s c)" for c
    using fetch_filter_key [of bs_BotID "uint c" "\<lambda>k. k \<noteq> uint b" "db_bot_order_scalers (sg_db s)"]
    by (auto simp: override_of_def eff DeleteBotOrderScaler_query_def delete_where_def uc split: option.splits)
  have "default_multiplier (snd (UpsertOrderScaler now f u n s)) = Some f"
    by (auto simp: default_multiplier_eq eff UpsertOrderScaler_query_def scaler_rows.fetch_upsert split: option.split)
  moreover have "override_of (snd (UpsertOrderScaler now f u n s)) c = override_of s c" for c
    by (simp add: override_of_def eff UpsertOrderScaler_query_def)
  moreover have "default_multiplier (snd (UpsertBotOrderScaler now b m n u s)) = Some dm"
    "default_multiplier (snd (DeleteBotOrderScaler now b u s)) = Some dm"
    using dm by (simp_all add: default_multiplier_eq eff UpsertBotOrderScaler_query_def DeleteBotOrderScaler_query_def)
  ultimately show ?thesis
    by (auto simp: multiplier_of_eq o1 o2 dm split: option.splits)
qed

theorem multiplier_in_effect_witness:
  "multiplier_of (snd (UpsertBotOrderScaler 5 7 (Some (fl64 2)) None ''ops'' fresh_storage))
     (zero_OrderId\<lparr>BotID := 7\<rparr>) = Some (fl64 2)"
  using multiplier_in_effect [OF fresh_storage_init rtranclp.rtrancl_refl,
      where now = 5 and b = 7 and m = "Some (fl64 2)" and oid = "zero_OrderId\<lparr>BotID := 7\<rparr>"]
  by simp

section \<open>Audits\<close>

lemma like_prefix_audit: "like_prefix (audit_order_id oid i t) (Hex oid @ ''#'')"
  using like_prefix_append [of "Hex oid @ ''#''"] by (simp add: audit_order_id_def)

lemma convert_in:
  "convertScaledOrdersFromOrderRows rows = Inr as \<Longrightarrow> r \<in> set rows \<Longrightarrow> convertScaledOrder r = Inr a \<Longrightarrow> a \<in> set as"
proof (induction rows arbitrary: "as")
  case (Cons r' rows)
  then show ?case by (auto split: sum.splits) (cases "convertScaledOrdersFromOrderRows rows"; auto)+
qed simp

definition listed_audit :: "string \<times> string \<Rightarrow> time \<Rightarrow> ScaledOrderAuditParams \<Rightarrow> StoredScaledOrderAudit" where
  "listed_audit vw t p = (audit_result (UnixMilli (to_UnixMilli t)) p)\<lparr>sa_VenueID := fst vw, sa_Wallet := snd vw\<rparr>"

lemma convert_audit_row: "convertScaledOrder (audit_row vw t p) = Inr (listed_audit vw t p)"
proof -
  have "decode_order_id (takeWhile (\<lambda>c. c \<noteq> CHR ''#'') (so_OrderID (audit_row vw t p))) =
      Inr (oi_OrderId (ap_Identifier p))"
    using decode_audit_id by (simp add: audit_row_def)
  then show ?thesis
    by (auto simp: convertScaledOrder_def listed_audit_def audit_result_def audit_row_def boolToInt_def split: option.split)
qed

text \<open>The audit a successful \<^verbatim>\<open>RecordScaledOrder\<close> inserts.\<close>

definition recorded_audit :: "RecordScaledOrderParams \<Rightarrow> f64 \<Rightarrow> string \<Rightarrow> ScaledOrderAuditParams" where
  "recorded_audit p m actor =
     \<lparr>ap_Identifier = rp_Identifier p, ap_DealID = rp_DealID p, ap_BotID = rp_BotID p,
      ap_OriginalSize = rp_OriginalSize p, ap_ScaledSize = rp_ScaledSize p, ap_Multiplier = m,
      ap_RoundingDelta = rp_ScaledSize p - rp_OriginalSize p * m, ap_StackIndex = rp_StackIndex p,
      ap_OrderSide = rp_OrderSide p, ap_MultiplierUpdatedBy = actor, ap_CreatedAt = rp_CreatedAt p,
      ap_SubmittedOrderID = rp_SubmittedOrderID p, ap_Skipped = rp_Skipped p, ap_SkipReason = rp_SkipReason p\<rparr>"

text \<open>What the insertion of an audit does when the storage is well-formed.\<close>

lemma InsertScaledOrderAudit_cases:
  fixes now p s
  assumes "storage_ok s"
  defines "t \<equiv> if ap_CreatedAt p = zero_time then now else ap_CreatedAt p"
  obtains vw where "audit_venue (ap_Identifier p) (sg_db s) = Inr vw"
      "so_key (audit_row vw t p) \<in> so_key ` set (db_scaled_orders (sg_db s))"
      "InsertScaledOrderAudit now p s = (Inl unique_failed, s)"
  | vw s' where "audit_venue (ap_Identifier p) (sg_db s) = Inr vw"
      "so_key (audit_row vw t p) \<notin> so_key ` set (db_scaled_orders (sg_db s))"
      "InsertScaledOrderAudit now p s = (Inr (audit_result t p), s')"
      "sg_db s' = (sg_db s)\<lparr>db_scaled_orders := db_scaled_orders (sg_db s) @ [audit_row vw t p]\<rparr>"
proof -
  obtain vw where vw: "audit_venue (ap_Identifier p) (sg_db s) = Inr vw"
    using assms(1) audit_venue_total unfolding storage_ok_def by metis
  have d: "InsertScaledOrderAudit now p s = (case InsertScaledOrder (audit_row vw t p) (sg_db s) of
      Inl e \<Rightarrow> (Inl e, s)
    | Inr d \<Rightarrow> (case audit_effective p d of
          Inl e \<Rightarrow> (Inl e, s\<lparr>sg_db := d\<rparr>)
        | Inr effective \<Rightarrow> (Inr (audit_result t p), publishStreamEventLocked now
             ((new_StreamEvent ScaledOrderAuditEntry (oi_OrderId (ap_Identifier p)))
                \<lparr>se_Identifier := Some (ensureIdentifier (ap_Identifier p)),
                 se_ObservedAt := t, se_Actor := Some (Actor effective),
                 se_ScaledOrderAudit := Some (toAPIScaledOrderAudit (audit_result t p)),
                 se_ScalerConfig := Some (toAPIEffectiveOrderScaler effective)\<rparr>) (s\<lparr>sg_db := d\<rparr>))))"
    by (simp add: InsertScaledOrderAudit_def Let_def vw t_def cong: sum.case_cong)
  show thesis
  proof (cases "so_key (audit_row vw t p) \<in> so_key ` set (db_scaled_orders (sg_db s))")
    case True
    then have "InsertScaledOrder (audit_row vw t p) (sg_db s) = Inl unique_failed"
      by (simp add: InsertScaledOrder_def insert_row_def)
    with d show thesis by (intro that(1) [OF vw True]) simp
  next
    case False
    let ?d = "(sg_db s)\<lparr>db_scaled_orders := db_scaled_orders (sg_db s) @ [audit_row vw t p]\<rparr>"
    have i: "InsertScaledOrder (audit_row vw t p) (sg_db s) = Inr ?d"
      using False by (simp add: InsertScaledOrder_Inr)
    have "GetOrderScaler_query ?d = GetOrderScaler_query (sg_db s)" "GetBotOrderScaler_query b ?d = GetBotOrderScaler_query b (sg_db s)" for b
      by (simp_all add: GetOrderScaler_query_def GetBotOrderScaler_query_def)
    then obtain effective where "audit_effective p ?d = Inr effective"
      using GetOrderScaler_total [OF assms(1)] GetBotOrderScaler_cases [of "uint (ap_BotID p)" "sg_db s"]
      by (auto simp: audit_effective_def Let_def)
    with d i obtain evt where
      "InsertScaledOrderAudit now p s = (Inr (audit_result t p), publishStreamEventLocked now evt (s\<lparr>sg_db := ?d\<rparr>))"
      by simp
    then show thesis by (rule that(2) [OF vw False]) simp
  qed
qed

lemma audit_venue_cong:
  assumes "db_venues d' = db_venues d"
  shows "audit_venue i d' = audit_venue i d"
proof -
  have "GetVenue v d' = GetVenue v d" "findPrimaryHyperliquidVenueLocked d' = findPrimaryHyperliquidVenueLocked d" for v
    by (simp_all add: assms GetVenue_def findPrimaryHyperliquidVenueLocked_def ListVenues_def)
  then show ?thesis unfolding audit_venue_def defaultVenueAssignmentLocked_def by presburger
qed

lemma ResolveEffectiveOrderScaler_cong:
  assumes "db_order_scalers d' = db_order_scalers d" and "db_bot_order_scalers d' = db_bot_order_scalers d"
  shows "ResolveEffectiveOrderScaler oid d' = ResolveEffectiveOrderScaler oid d"
proof -
  have "GetOrderScaler_query d' = GetOrderScaler_query d" "GetBotOrderScaler_query b d' = GetBotOrderScaler_query b d" for b
    by (simp_all add: assms GetOrderScaler_query_def GetBotOrderScaler_query_def)
  then show ?thesis unfolding ResolveEffectiveOrderScaler_def by presburger
qed

lemma Actor_multiplier [simp]: "Actor (e\<lparr>ef_Multiplier := m\<rparr>) = Actor e"
  by (simp add: Actor_def split: option.split)

lemma RecordScaledOrder_eq:
  "RecordScaledOrder now p s =
     (case ResolveEffectiveOrderScaler (oi_OrderId (rp_Identifier p)) (sg_db s) of
        Inl e \<Rightarrow> (Inl e, s)
      | Inr e \<Rightarrow>
          let e' = e\<lparr>ef_Multiplier := (case rp_AppliedMultiplier p of None \<Rightarrow> ef_Multiplier e | Some m \<Rightarrow> m)\<rparr>
          in map_prod (map_sum id (\<lambda>a. (a, e'))) id
               (InsertScaledOrderAudit now (recorded_audit p (ef_Multiplier e') (Actor e')) s))"
  by (auto simp: RecordScaledOrder_def recorded_audit_def Let_def split: sum.split prod.split)

lemma listed_after_insert:
  assumes "db_ok d'" and rows: "db_scaled_orders d' = rows @ [audit_row vw t p]"
  shows "\<exists>as. ListScaledOrdersByOrderId (oi_OrderId (ap_Identifier p)) d' = Inr as \<and> listed_audit vw t p \<in> set as"
    and "\<exists>as. ListScaledOrdersByDeal (ap_DealID p) d' = Inr as \<and> listed_audit vw t p \<in> set as"
proof -
  have r: "audit_row vw t p \<in> set (db_scaled_orders d')" by (simp add: rows)
  have ok: "\<forall>r \<in> set (db_scaled_orders d'). scaled_row_ok r"
    using db_okD(5) [OF assms(1)] by (simp add: scaled_ok_def)
  have "audit_row vw t p \<in> set (ListScaledOrdersByOrderId_query (Hex (oi_OrderId (ap_Identifier p)))
      (Hex (oi_OrderId (ap_Identifier p)) @ ''#'') d')"
    using r like_prefix_audit by (simp add: ListScaledOrdersByOrderId_query_def audit_row_def)
  then show "\<exists>as. ListScaledOrdersByOrderId (oi_OrderId (ap_Identifier p)) d' = Inr as \<and> listed_audit vw t p \<in> set as"
    using ListScaledOrdersByOrderId_total [OF assms(1)] convert_in [OF _ _ convert_audit_row]
    unfolding ListScaledOrdersByOrderId_def by meson
  have "audit_row vw t p \<in> set (ListScaledOrdersByDeal_query (uint (ap_DealID p)) d')"
    using r by (simp add: ListScaledOrdersByDeal_query_def audit_row_def)
  moreover obtain as' where
    "convertScaledOrdersFromOrderRows (ListScaledOrdersByDeal_query (uint (ap_DealID p)) d') = Inr as'"
    using convertScaledOrders_ok [of "ListScaledOrdersByDeal_query (uint (ap_DealID p)) d'"] ok
    by (auto simp: ListScaledOrdersByDeal_query_def)
  ultimately show "\<exists>as. ListScaledOrdersByDeal (ap_DealID p) d' = Inr as \<and> listed_audit vw t p \<in> set as"
    using convert_in [OF _ _ convert_audit_row]
    unfolding ListScaledOrdersByDeal_def convertScaledOrdersFromDealRows_def by blast
qed

text \<open>
  An audit that is recorded can be read back by its order and by its deal, with its venue and
  wallet, the multiplier that was applied, the rounding delta and the creation time in
  milliseconds; recording the same order, stack position and time again fails and changes nothing,
  and nothing else makes recording fail.\<close>

theorem audit_recorded_once:
  assumes "storage_init s0" and "storage_step\<^sup>*\<^sup>* s0 s" and "rp_CreatedAt p \<noteq> zero_time"
  shows "case RecordScaledOrder now p s of
      (Inl e, s') \<Rightarrow> e = unique_failed \<and> s' = s \<and>
        (\<exists>r \<in> set (db_scaled_orders (sg_db s)).
           so_OrderID r = audit_order_id (oi_OrderId (rp_Identifier p)) (rp_StackIndex p) (rp_CreatedAt p))
    | (Inr (a, e), s') \<Rightarrow>
        Some (ef_Multiplier e) = (case rp_AppliedMultiplier p of
            None \<Rightarrow> multiplier_of s (oi_OrderId (rp_Identifier p)) | Some m \<Rightarrow> Some m) \<and>
        (\<exists>vw. audit_venue (rp_Identifier p) (sg_db s) = Inr vw \<and>
           (\<exists>as. ListScaledOrdersByOrderId (oi_OrderId (rp_Identifier p)) (sg_db s') = Inr as \<and>
              listed_audit vw (rp_CreatedAt p) (recorded_audit p (ef_Multiplier e) (Actor e)) \<in> set as) \<and>
           (\<exists>as. ListScaledOrdersByDeal (rp_DealID p) (sg_db s') = Inr as \<and>
              listed_audit vw (rp_CreatedAt p) (recorded_audit p (ef_Multiplier e) (Actor e)) \<in> set as)) \<and>
        RecordScaledOrder now' p s' = (Inl unique_failed, s')"
proof -
  have s: "storage_ok s" by (rule storage_sys.inv_reachable [OF assms(1,2)])
  obtain e where e: "ResolveEffectiveOrderScaler (oi_OrderId (rp_Identifier p)) (sg_db s) = Inr e"
    using ResolveEffectiveOrderScaler_total [OF s] by blast
  define e' where "e' = e\<lparr>ef_Multiplier := (case rp_AppliedMultiplier p of None \<Rightarrow> ef_Multiplier e | Some m \<Rightarrow> m)\<rparr>"
  define ap where "ap = recorded_audit p (ef_Multiplier e') (Actor e')"
  have ap: "ap_Identifier ap = rp_Identifier p" "ap_CreatedAt ap = rp_CreatedAt p" "ap_DealID ap = rp_DealID p"
    "ap_StackIndex ap = rp_StackIndex p"
    by (simp_all add: ap_def recorded_audit_def)
  have rec: "RecordScaledOrder t p s' = map_prod (map_sum id (\<lambda>a. (a, e'))) id (InsertScaledOrderAudit t ap s')"
    if "ResolveEffectiveOrderScaler (oi_OrderId (rp_Identifier p)) (sg_db s') = Inr e" for t s'
    by (simp add: RecordScaledOrder_eq that Let_def ap_def e'_def)
  show ?thesis
  proof (cases rule: InsertScaledOrderAudit_cases [OF s, of ap now])
    case (1 vw)
    then show ?thesis using rec [OF e] assms(3)
      by (auto simp: ap audit_row_def so_key_def)
  next
    case (2 vw s')
    have s': "storage_ok s'" using InsertScaledOrderAudit_ok [OF s, of now ap] 2 by simp
    have e2: "ResolveEffectiveOrderScaler (oi_OrderId (rp_Identifier p)) (sg_db s') = Inr e"
      using e by (subst ResolveEffectiveOrderScaler_cong [where d = "sg_db s"]) (simp_all add: 2)
    have v2: "audit_venue (rp_Identifier p) (sg_db s') = Inr vw"
      using 2 by (subst audit_venue_cong [where d = "sg_db s"]) (simp_all add: ap)
    have again: "InsertScaledOrderAudit now' ap s' = (Inl unique_failed, s')"
      by (cases rule: InsertScaledOrderAudit_cases [OF s', of ap now'])
        (use 2 v2 assms(3) in \<open>auto simp: ap\<close>)
    have "Some (ef_Multiplier e') = (case rp_AppliedMultiplier p of
            None \<Rightarrow> multiplier_of s (oi_OrderId (rp_Identifier p)) | Some m \<Rightarrow> Some m)"
      by (simp add: e'_def multiplier_of_def e split: option.split)
    moreover note listed_after_insert [of "sg_db s'" "db_scaled_orders (sg_db s)" vw "rp_CreatedAt p" ap]
    ultimately show ?thesis
      using 2 rec [OF e] rec [OF e2, of now'] s' assms(3)
      by (simp add: ap again storage_ok_def flip: ap_def)
  qed
qed

theorem audit_recorded_once_witness:
  "let p = \<lparr>rp_Identifier = NewOrderIdentifier ''hl'' ''w'' zero_OrderId, rp_DealID = 1, rp_BotID = 7,
       rp_OriginalSize = fl64 2, rp_ScaledSize = fl64 3, rp_AppliedMultiplier = None, rp_StackIndex = 0,
       rp_OrderSide = ''buy'', rp_CreatedAt = 9, rp_SubmittedOrderID = None, rp_Skipped = False, rp_SkipReason = None\<rparr>
   in \<exists>a s'. RecordScaledOrder 5 p fresh_storage = (Inr a, s') \<and> RecordScaledOrder 6 p s' = (Inl unique_failed, s')"
proof -
  let ?p = "\<lparr>rp_Identifier = NewOrderIdentifier ''hl'' ''w'' zero_OrderId, rp_DealID = 1, rp_BotID = 7,
       rp_OriginalSize = fl64 2, rp_ScaledSize = fl64 3, rp_AppliedMultiplier = None, rp_StackIndex = 0,
       rp_OrderSide = ''buy'', rp_CreatedAt = 9, rp_SubmittedOrderID = None, rp_Skipped = False, rp_SkipReason = None\<rparr>"
  have "db_scaled_orders (sg_db fresh_storage) = []" by code_simp
  moreover have "rp_CreatedAt ?p \<noteq> zero_time" by (simp add: zero_time_def)
  ultimately show ?thesis
    using audit_recorded_once [OF fresh_storage_init rtranclp.rtrancl_refl, where p = ?p and now = 5 and now' = 6]
    by (auto simp: Let_def split: prod.splits sum.splits)
qed

section \<open>Restarts and deletions\<close>

lemma unique_failed_recognised: "isUniqueConstraintError (Some unique_failed)"
  by code_simp

lemma upsertDefaultVenueLocked_total:
  assumes "db_ok (sg_db s)"
  shows "fst (upsertDefaultVenueLocked w s) = None"
proof -
  define w' where "w' = (if w = [] then defaultHyperliquidWallet else w)"
  have no_err: "GetVenueByTypeAndWallet t x (sg_db s) \<noteq> Inl (StoreErr m)" "GetVenue i (sg_db s) \<noteq> Inl (StoreErr m)" for t x i m
    by (simp_all add: GetVenueByTypeAndWallet_def GetVenue_def)
  note def = upsertDefaultVenueLocked_def Let_def UpsertVenue_def w'_def [symmetric]
  show ?thesis
  proof (cases "list_ex (\<lambda>r. vn_ID r \<noteq> defaultHyperliquidVenueID \<and> vn_Type r = defaultHyperliquidVenueType \<and>
      vn_Wallet r = w') (db_venues (sg_db s))")
    case True
    then obtain r where r: "r \<in> set (db_venues (sg_db s))" "vn_ID r \<noteq> defaultHyperliquidVenueID"
      "vn_Type r = defaultHyperliquidVenueType" "vn_Wallet r = w'"
      by (auto simp: list_ex_iff)
    have "keys_unique (\<lambda>r. (vn_Type r, vn_Wallet r)) (db_venues (sg_db s))"
      using db_okD(8) [OF assms] by (simp add: venues_ok_def)
    from fetch_unique [OF this r(1)] have "GetVenueByTypeAndWallet defaultHyperliquidVenueType w' (sg_db s) = Inr r"
      using one_filter [of "\<lambda>r. (vn_Type r, vn_Wallet r)" "(defaultHyperliquidVenueType, w')" "db_venues (sg_db s)"]
      by (simp add: r GetVenueByTypeAndWallet_def)
    with True r no_err(2) show ?thesis
      using unique_failed_recognised by (auto simp: def split: sum.split store_error.split)
  next
    case False
    with no_err show ?thesis by (auto simp: def split: sum.split store_error.split)
  qed
qed

lemma migrate_other_tables:
  defines "m \<equiv> migrateDefaultVenueWalletLocked"
  shows "db_botevents (m f t d) = db_botevents d" and "db_botevents_log (m f t d) = db_botevents_log d"
    and "db_bots (m f t d) = db_bots d" and "db_deals (m f t d) = db_deals d"
    and "db_assignments (m f t d) = db_assignments d" and "db_order_scalers (m f t d) = db_order_scalers d"
    and "db_bot_order_scalers (m f t d) = db_bot_order_scalers d"
    and "db_scaled_orders d = [] \<Longrightarrow> db_scaled_orders (m f t d) = []"
  unfolding m_def
  by (simp_all add: migrateDefaultVenueWalletLocked_def Let_def CloneHyperliquidSubmissionsToWallet_def
      CloneHyperliquidStatusesToWallet_def CloneScaledOrdersToWallet_def DeleteHyperliquidStatusesForWallet_def
      DeleteHyperliquidSubmissionsForWallet_def DeleteScaledOrdersForWallet_def delete_where_def)

text \<open>
  Opening a database that the storage has written always succeeds and keeps the events, their
  log, the bots, the deals, the assignments and the multipliers, but no audit survives it: the
  schema drops the table, so the scaled orders of every order and deal are empty after a restart.\<close>

theorem restart_drops_audits:
  assumes "storage_init s0" and "storage_step\<^sup>*\<^sup>* s0 s"
  shows "\<exists>s'. Storage_New now stream (sg_db s) = Inr s' \<and>
    db_botevents (sg_db s') = db_botevents (sg_db s) \<and> db_botevents_log (sg_db s') = db_botevents_log (sg_db s) \<and>
    db_bots (sg_db s') = db_bots (sg_db s) \<and> db_deals (sg_db s') = db_deals (sg_db s) \<and>
    db_assignments (sg_db s') = db_assignments (sg_db s) \<and>
    (\<forall>oid. multiplier_of s' oid = multiplier_of s oid) \<and>
    (\<forall>oid. ListScaledOrdersByOrderId oid (sg_db s') = Inr []) \<and>
    (\<forall>deal. ListScaledOrdersByDeal deal (sg_db s') = Inr [])"
proof -
  have s: "storage_ok s" by (rule storage_sys.inv_reachable [OF assms])
  define s1 where "s1 = \<lparr>sg_db = apply_schema now (sg_db s), sg_stream = stream, sg_published = []\<rparr>"
  define s' where "s' = snd (upsertDefaultVenueLocked defaultHyperliquidWallet s1)"
  have s1: "storage_ok s1" unfolding s1_def using s by (intro apply_schema_ok) (simp add: storage_ok_def)
  have sc: "db_order_scalers (sg_db s1) = db_order_scalers (sg_db s)"
    using s by (auto simp: s1_def apply_schema_def insert_ignore_def storage_ok_def)
  have "fst (upsertDefaultVenueLocked defaultHyperliquidWallet s1) = None"
    by (rule upsertDefaultVenueLocked_total) (use s1 in \<open>simp add: storage_ok_def\<close>)
  then have new: "Storage_New now stream (sg_db s) = Inr s'"
    by (auto simp: Storage_New_def ensureDefaultVenue_def s'_def split: prod.split option.split simp flip: s1_def)
  have t: "db_botevents (sg_db s') = db_botevents (sg_db s1)" "db_botevents_log (sg_db s') = db_botevents_log (sg_db s1)"
    "db_bots (sg_db s') = db_bots (sg_db s1)" "db_deals (sg_db s') = db_deals (sg_db s1)"
    "db_assignments (sg_db s') = db_assignments (sg_db s1)" "db_order_scalers (sg_db s') = db_order_scalers (sg_db s1)"
    "db_bot_order_scalers (sg_db s') = db_bot_order_scalers (sg_db s1)" "db_scaled_orders (sg_db s') = []"
    unfolding s'_def
    by (cases rule: upsertDefaultVenueLocked_cases [of defaultHyperliquidWallet s1];
        force simp: migrate_other_tables UpsertVenue_def s1_def apply_schema_def split: if_splits)+
  have "multiplier_of s' oid = multiplier_of s oid" for oid
    using t sc by (simp add: multiplier_of_def ResolveEffectiveOrderScaler_cong [of "sg_db s'" "sg_db s"] s1_def apply_schema_def)
  with new t show ?thesis
    by (auto simp: s1_def apply_schema_def ListScaledOrdersByOrderId_def ListScaledOrdersByOrderId_query_def
        ListScaledOrdersByDeal_def convertScaledOrdersFromDealRows_def ListScaledOrdersByDeal_query_def)
qed

theorem restart_drops_audits_witness:
  "\<exists>s'. Storage_New 5 True (sg_db fresh_storage) = Inr s' \<and> ListScaledOrdersByDeal 7 (sg_db s') = Inr []"
  using restart_drops_audits [OF fresh_storage_init rtranclp.rtrancl_refl, of 5 True] by blast

text \<open>
  Deleting a vault user removes the user and nothing else: the encrypted payload and the
  passkeys of the user stay readable.\<close>

theorem user_deletion_keeps_payload:
  "GetVaultUserByID i (sg_db (DeleteVaultUserByID i s)) = Inr None \<and>
   GetVaultPayloadForUser i (sg_db (DeleteVaultUserByID i s)) = GetVaultPayloadForUser i (sg_db s) \<and>
   ListWebauthnCredentialsByUser i (sg_db (DeleteVaultUserByID i s)) = ListWebauthnCredentialsByUser i (sg_db s)"
  by (simp add: DeleteVaultUserByID_def DeleteVaultUserByID_query_def GetVaultUserByID_def GetVaultUserByID_query_def
      GetVaultPayloadForUser_def GetVaultPayloadForUser_query_def ListWebauthnCredentialsByUser_def
      ListWebauthnCredentialsByUser_query_def nil_if_missing_def delete_where_def)

end
