(* ===== verification/Order_Scaler.thy ===== *)
theory Order_Scaler
  imports Storage_Props Constraints
begin

text \<open>
  \<^verbatim>\<open>engine/orderscaler/service.go\<close>: the size and price an order is sent with. The multiplier comes
  from the storage, the rounding rules from the constraints of the coin; a take profit that is part
  of a stack is rounded together with the other legs, by a search over the lots next to each target.

  The interface \<^verbatim>\<open>Constraints\<close> is a function with its own state, which the program instantiates
  with \<^verbatim>\<open>hl.OrderIdCache\<close>; a panic in it is \<open>None\<close>. The storage is the one of the program. The
  service is called with an order, never with nil.
\<close>

section \<open>Data\<close>

type_synonym 'm resolver = "string \<Rightarrow> 'm \<Rightarrow> ((resolve_error + CoinConstraints) \<times> 'm) option"

record Request =
  rq_Identifier :: OrderIdentifier
  rq_OrderId :: OrderId
  rq_Coin :: string
  rq_Side :: string
  rq_OriginalSize :: f64
  rq_Price :: f64
  rq_StackIndex :: int
  rq_StackSize :: int
  rq_Timestamp :: time

record Result =
  rs_Size :: f64
  rs_Price :: f64
  rs_Audit :: StoredScaledOrderAudit
  rs_Effective :: EffectiveOrderScaler
  rs_Multiplier :: f64

datatype scale_error =
  ResolveMultiplier store_error
| ResolveConstraints resolve_error
| RecordSkipped store_error
| RecordScaled store_error

text \<open>\<^verbatim>\<open>ErrBelowMinimum\<close> is returned together with a result.\<close>

datatype scale_outcome = Scaled Result | ErrBelowMinimum Result | ScaleErr scale_error

definition WithMaxMultiplier :: "f64 \<Rightarrow> f64 \<Rightarrow> f64" where
  "WithMaxMultiplier mx old = (if 0 < mx then mx else old)"

section \<open>Rounding a stack\<close>

definition clampToNonNegative :: "f64 \<Rightarrow> f64" where
  "clampToNonNegative v = (if v < 0 then 0 else v)"

definition ratioWeight :: f64 where
  "ratioWeight = fl64 1"

definition totalWeight :: f64 where
  "totalWeight = fl64 (1 / 10)"

definition roundingWeight :: f64 where
  "roundingWeight = fl64 (5 / 100)"

definition equalityPenalty :: f64 where
  "equalityPenalty = fl64 1"

definition ratioTolerance :: f64 where
  "ratioTolerance = fl64 (1 / 1000000000)"

text \<open>
  The loop of \<^verbatim>\<open>evaluateStackCost\<close>; \<open>prev\<close> holds the original and the rounded size of the leg
  before, \<open>None\<close> for the first leg.
\<close>

fun stack_cost :: "f64 \<Rightarrow> f64 \<Rightarrow> (f64 \<times> f64) option \<Rightarrow> (f64 \<times> f64 \<times> f64) list \<Rightarrow> f64 \<Rightarrow> f64" where
  "stack_cost baseOriginal baseSize prev [] cost = cost"
| "stack_cost baseOriginal baseSize prev ((original, target, sz) # legs) cost =
     (let cost = cost + roundingWeight * math_Abs (sz - target);
          cost = (case prev of
              None \<Rightarrow> cost
            | Some (prevOriginal, prevSize) \<Rightarrow>
                let cost = (if prevOriginal + ratioTolerance < original \<and> sz \<le> prevSize
                            then cost + equalityPenalty else cost)
                in if ratioTolerance < baseOriginal \<and> ratioTolerance < baseSize
                   then (let desiredRatio = fdiv original baseOriginal; actualRatio = fdiv sz baseSize
                         in cost + ratioWeight * math_Abs (actualRatio - desiredRatio))
                   else cost)
      in stack_cost baseOriginal baseSize (Some (original, sz)) legs cost)"

definition evaluateStackCost :: "f64 list \<Rightarrow> f64 list \<Rightarrow> f64 list \<Rightarrow> f64" where
  "evaluateStackCost original targets sizes =
     (let totalTarget = fold (\<lambda>t a. a + t) targets 0;
          totalSize = fold (\<lambda>t a. a + t) sizes 0;
          cost = totalWeight * math_Abs (totalSize - totalTarget)
      in stack_cost (hd original) (hd sizes) None (zip original (zip targets sizes)) cost)"

text \<open>The numbers of lots to try for a leg.\<close>

definition lot_options :: "f64 \<Rightarrow> f64 \<Rightarrow> int list" where
  "lot_options sizeStep target =
     (let base = fdiv target sizeStep;
          lower = go_int (math_Floor base);
          upper = go_int (math_Ceil base);
          upper = (if upper < lower then lower else upper);
          optionSet = filter (\<lambda>v. 0 \<le> v) [lower, upper]
      in if optionSet = [] then [0] else sort (remdups optionSet))"

definition lot_sizes :: "f64 \<Rightarrow> int list \<Rightarrow> f64 list" where
  "lot_sizes sizeStep steps = map (\<lambda>k. fl64 (of_int k) * sizeStep) steps"

text \<open>The closure \<^verbatim>\<open>backtrack\<close>: \<open>steps\<close> are the lots chosen so far, the pair is the best cost and stack.\<close>

fun backtrack ::
  "f64 list \<Rightarrow> f64 list \<Rightarrow> f64 \<Rightarrow> int list \<Rightarrow> int list list \<Rightarrow> f64 \<times> f64 list \<Rightarrow> f64 \<times> f64 list" where
  "backtrack original targets sizeStep steps [] (bestCost, best) =
     (let sizes = lot_sizes sizeStep steps; cost = evaluateStackCost original targets sizes
      in if cost < bestCost then (cost, sizes) else (bestCost, best))"
| "backtrack original targets sizeStep steps (opts # rest) acc =
     fold (\<lambda>opt. backtrack original targets sizeStep (steps @ [opt]) rest) opts acc"

definition computeStackRoundedSizes :: "f64 list \<Rightarrow> f64 \<Rightarrow> f64 \<Rightarrow> f64 list" where
  "computeStackRoundedSizes original multiplier sizeStep =
     (if original = [] then []
      else let targets = map (\<lambda>v. v * multiplier) original in
        if sizeStep \<le> 0 then targets
        else (case backtrack original targets sizeStep [] (map (lot_options sizeStep) targets)
                (PInf, replicate (length original) 0) of
            (bestCost, best) \<Rightarrow>
              if bestCost = PInf then map (\<lambda>t. math_Round (fdiv t sizeStep) * sizeStep) targets
              else best))"

section \<open>Scaling an order\<close>

text \<open>\<^verbatim>\<open>%.4f\<close>.\<close>

definition format_4 :: "f64 \<Rightarrow> string" where
  "format_4 v =
     (case v of
        NaN \<Rightarrow> ''NaN''
      | PInf \<Rightarrow> ''+Inf''
      | NInf \<Rightarrow> ''-Inf''
      | Fin x \<Rightarrow>
          let n = nat (rhe (\<bar>x\<bar> * 10000)); frac = show_nat (n mod 10000)
          in (if x < 0 then ''-'' else []) @ show_nat (n div 10000) @ ''.'' @
             replicate (4 - length frac) (CHR ''0'') @ frac)"

definition skip_reason :: "f64 \<Rightarrow> f64 \<Rightarrow> string" where
  "skip_reason notional minNotional =
     ''scaled order below minimum notional ('' @ format_4 notional @ '' < '' @ format_4 minNotional @ '')''"

definition applied_multiplier :: "f64 \<Rightarrow> f64 \<Rightarrow> f64" where
  "applied_multiplier maxMultiplier multiplier =
     (if 0 < maxMultiplier \<and> maxMultiplier < multiplier then maxMultiplier else multiplier)"

text \<open>The size, rounded alone or, when every leg of the stack is known, with the stack.\<close>

definition rounded_size :: "CoinConstraints \<Rightarrow> f64 \<Rightarrow> Request \<Rightarrow> db \<Rightarrow> f64" where
  "rounded_size constraints multiplier req d =
     (let roundedSize = RoundSize constraints (rq_OriginalSize req * multiplier) in
      if 1 < rq_StackSize req \<and> 0 \<le> rq_StackIndex req
      then (case ListTakeProfitStackSizes (rq_OrderId req) (rq_StackSize req) d of
          Inl _ \<Rightarrow> roundedSize
        | Inr stackSizes \<Rightarrow>
            if int (length stackSizes) = rq_StackSize req
            then (let stackRounded = computeStackRoundedSizes stackSizes multiplier (SizeStep constraints)
                  in case slice_at stackRounded (rq_StackIndex req) of
                       None \<Rightarrow> roundedSize
                     | Some sz \<Rightarrow> sz)
            else roundedSize)
      else roundedSize)"

definition audit_params :: "Request \<Rightarrow> f64 \<Rightarrow> f64 \<Rightarrow> string option \<Rightarrow> RecordScaledOrderParams" where
  "audit_params req roundedSize multiplier skip =
     \<lparr>rp_Identifier = rq_Identifier req, rp_DealID = DealID (rq_OrderId req), rp_BotID = BotID (rq_OrderId req),
      rp_OriginalSize = rq_OriginalSize req, rp_ScaledSize = roundedSize, rp_AppliedMultiplier = Some multiplier,
      rp_StackIndex = rq_StackIndex req, rp_OrderSide = rq_Side req, rp_CreatedAt = rq_Timestamp req,
      rp_SubmittedOrderID = None, rp_Skipped = (skip \<noteq> None), rp_SkipReason = skip\<rparr>"

definition Scale ::
  "'m resolver \<Rightarrow> f64 \<Rightarrow> time \<Rightarrow> Request \<Rightarrow> CreateOrderRequest \<Rightarrow> Storage \<Rightarrow> 'm
    \<Rightarrow> (scale_outcome \<times> CreateOrderRequest \<times> Storage \<times> 'm) option" where
  "Scale resolve maxMultiplier now req order s m =
     (let req = (if rq_Coin req = [] then req\<lparr>rq_Coin := cr_Coin order\<rparr> else req) in
      case ResolveEffectiveOrderScaler (rq_OrderId req) (sg_db s) of
        Inl e \<Rightarrow> Some (ScaleErr (ResolveMultiplier e), order, s, m)
      | Inr effective \<Rightarrow>
          let multiplier = applied_multiplier maxMultiplier (ef_Multiplier effective) in
          (case resolve (rq_Coin req) m of
             None \<Rightarrow> None
           | Some (Inl e, m) \<Rightarrow> Some (ScaleErr (ResolveConstraints e), order, s, m)
           | Some (Inr constraints, m) \<Rightarrow>
               (case RoundPrice constraints (if 0 < rq_Price req then rq_Price req else cr_Price order) of
                  None \<Rightarrow> None
                | Some roundedPrice \<Rightarrow>
                    let roundedSize = clampToNonNegative (rounded_size constraints multiplier req (sg_db s));
                        notional = math_Abs (roundedSize * roundedPrice);
                        result = (\<lambda>audit effectiveAfter. \<lparr>rs_Size = roundedSize, rs_Price = roundedPrice,
                          rs_Audit = audit, rs_Effective = effectiveAfter, rs_Multiplier = multiplier\<rparr>)
                    in if NotionalBelowMinimum constraints roundedSize roundedPrice
                       then (case RecordScaledOrder now (audit_params req roundedSize multiplier
                                  (Some (skip_reason notional (MinNotional constraints)))) s of
                           (Inl e, s) \<Rightarrow> Some (ScaleErr (RecordSkipped e), order, s, m)
                         | (Inr (audit, effectiveAfter), s) \<Rightarrow>
                             Some (ErrBelowMinimum (result audit effectiveAfter), order, s, m))
                       else let order = order\<lparr>cr_Price := roundedPrice, cr_Size := roundedSize\<rparr> in
                         (case RecordScaledOrder now (audit_params req roundedSize multiplier None) s of
                            (Inl e, s) \<Rightarrow> Some (ScaleErr (RecordScaled e), order, s, m)
                          | (Inr (audit, effectiveAfter), s) \<Rightarrow>
                              Some (Scaled (result audit effectiveAfter), order, s, m)))))"

definition BuildRequest :: "OrderIdentifier \<Rightarrow> tc_BotEvent \<Rightarrow> CreateOrderRequest \<Rightarrow> Request" where
  "BuildRequest ident evt order =
     (let side = (if cr_IsBuy order then ''buy'' else ''sell'');
          stackIndex = wrap64 (ev_OrderPosition evt - 1);
          stackIndex = (if stackIndex < 0 then 0 else stackIndex);
          stackSize = ev_OrderSize evt;
          stackSize = (if stackSize \<le> 0 then 1 else stackSize);
          stackIndex = (if stackSize \<le> stackIndex then stackSize - 1 else stackIndex);
          price = cr_Price order;
          price = (if price \<le> 0 then ev_Price evt else price);
          sz = ev_Size evt;
          sz = (if sz \<le> 0 then cr_Size order else sz)
      in \<lparr>rq_Identifier = ident, rq_OrderId = oi_OrderId ident, rq_Coin = cr_Coin order, rq_Side = side,
          rq_OriginalSize = sz, rq_Price = price, rq_StackIndex = stackIndex, rq_StackSize = stackSize,
          rq_Timestamp = ev_CreatedAt evt\<rparr>)"

section \<open>The search finds the first best stack\<close>

text \<open>The body of the innermost loop, as a step over candidate stacks.\<close>

definition try_stack :: "('a \<Rightarrow> f64) \<Rightarrow> 'a \<Rightarrow> f64 \<times> 'a \<Rightarrow> f64 \<times> 'a" where
  "try_stack cost sizes acc = (if cost sizes < fst acc then (cost sizes, sizes) else acc)"

lemma backtrack_eq_fold:
  "backtrack original targets sizeStep steps opts acc =
     fold (\<lambda>ks. try_stack (evaluateStackCost original targets) (lot_sizes sizeStep (steps @ ks)))
       (product_lists opts) acc"
proof (induction opts arbitrary: steps acc)
  case Nil
  then show ?case by (cases acc) (simp add: try_stack_def Let_def)
next
  case (Cons os opts)
  have "fold (\<lambda>opt. backtrack original targets sizeStep (steps @ [opt]) opts) xs acc =
      fold (\<lambda>ks. try_stack (evaluateStackCost original targets) (lot_sizes sizeStep (steps @ ks)))
        (concat (map (\<lambda>x. map ((#) x) (product_lists opts)) xs)) acc" for xs acc
    by (induction xs arbitrary: acc) (simp_all add: Cons.IH fold_map comp_def)
  then show ?case by simp
qed

text \<open>The reference: the first candidate no other candidate is cheaper than.\<close>

definition cheapest :: "('a \<Rightarrow> f64) \<Rightarrow> 'a list \<Rightarrow> 'a option" where
  "cheapest cost cands = find (\<lambda>c. cost c < PInf \<and> list_all (\<lambda>c'. \<not> cost c' < cost c) cands) cands"

definition best_so_far :: "('a \<Rightarrow> f64) \<Rightarrow> 'a \<Rightarrow> 'a list \<Rightarrow> f64 \<times> 'a \<Rightarrow> bool" where
  "best_so_far cost dflt cands acc \<longleftrightarrow>
     (acc = (PInf, dflt) \<and> (\<forall>c \<in> set cands. \<not> cost c < PInf)) \<or>
     (\<exists>i < length cands. acc = (cost (cands ! i), cands ! i) \<and> cost (cands ! i) < PInf \<and>
        (\<forall>c \<in> set cands. \<not> cost c < cost (cands ! i)) \<and> (\<forall>j < i. \<not> cost (cands ! j) \<le> cost (cands ! i)))"

lemma f64_less_trans: "(a :: f64) < b \<Longrightarrow> b < c \<Longrightarrow> a < c"
  by (cases a; cases b; cases c) (auto simp: less_f64_def)

lemma f64_above: "(a :: f64) < b \<Longrightarrow> \<not> x < b \<Longrightarrow> \<not> x < a \<and> \<not> x \<le> a"
  by (cases a; cases b; cases x) (auto simp: less_f64_def)

lemma f64_less_irrefl [simp]: "\<not> (a :: f64) < a"
  by (simp add: less_f64_def)

lemma best_so_far_step:
  assumes "best_so_far cost dflt cands acc"
  shows "best_so_far cost dflt (cands @ [c]) (try_stack cost c acc)"
proof (cases "cost c < fst acc")
  case True
  have better: "\<not> cost x < cost c \<and> \<not> cost x \<le> cost c" if "x \<in> set cands" for x
  proof (rule f64_above [OF True])
    show "\<not> cost x < fst acc" using assms that unfolding best_so_far_def by auto
  qed
  have "cost c < PInf" using assms True unfolding best_so_far_def by (auto intro: f64_less_trans)
  with True better show ?thesis
    unfolding best_so_far_def try_stack_def
    by (intro disjI2 exI [of _ "length cands"]) (auto simp: nth_append)
next
  case False
  from assms consider "acc = (PInf, dflt)" "\<forall>x \<in> set cands. \<not> cost x < PInf"
    | i where "i < length cands" "acc = (cost (cands ! i), cands ! i)" "cost (cands ! i) < PInf"
        "\<forall>x \<in> set cands. \<not> cost x < cost (cands ! i)" "\<forall>j < i. \<not> cost (cands ! j) \<le> cost (cands ! i)"
    unfolding best_so_far_def by blast
  then show ?thesis
  proof cases
    case 1
    with False show ?thesis by (simp add: best_so_far_def try_stack_def)
  next
    case 2
    with False show ?thesis
      unfolding best_so_far_def try_stack_def
      by (intro disjI2 exI [of _ i]) (simp add: nth_append)
  qed
qed

lemma best_so_far_fold: "best_so_far cost dflt cands (fold (try_stack cost) cands (PInf, dflt))"
  by (induction cands rule: rev_induct) (simp_all add: best_so_far_step, simp add: best_so_far_def)

lemma fold_try_stack:
  "fold (try_stack cost) cands (PInf, dflt) =
     (case cheapest cost cands of None \<Rightarrow> (PInf, dflt) | Some c \<Rightarrow> (cost c, c))"
  using best_so_far_fold [of cost dflt cands] unfolding best_so_far_def
proof (elim disjE exE conjE)
  assume "fold (try_stack cost) cands (PInf, dflt) = (PInf, dflt)" "\<forall>c \<in> set cands. \<not> cost c < PInf"
  moreover from this have "cheapest cost cands = None"
    by (auto simp: cheapest_def find_None_iff)
  ultimately show ?thesis by simp
next
  fix i
  assume i: "i < length cands" "fold (try_stack cost) cands (PInf, dflt) = (cost (cands ! i), cands ! i)"
    "cost (cands ! i) < PInf" "\<forall>c \<in> set cands. \<not> cost c < cost (cands ! i)"
    "\<forall>j < i. \<not> cost (cands ! j) \<le> cost (cands ! i)"
  have "\<not> (cost (cands ! j) < PInf \<and> list_all (\<lambda>c'. \<not> cost c' < cost (cands ! j)) cands)" if "j < i" for j
  proof
    assume j: "cost (cands ! j) < PInf \<and> list_all (\<lambda>c'. \<not> cost c' < cost (cands ! j)) cands"
    then have "\<not> cost (cands ! i) < cost (cands ! j)" using i(1) by (auto simp: list_all_iff)
    moreover have "\<not> cost (cands ! j) \<le> cost (cands ! i)" using i(5) that by blast
    ultimately show False
      using j i(3) by (cases "cost (cands ! i)"; cases "cost (cands ! j)") (auto simp: less_f64_def)
  qed
  with i have "cheapest cost cands = Some (cands ! i)"
    unfolding cheapest_def by (auto simp: find_Some_iff list_all_iff intro!: exI [of _ i])
  with i(2) show ?thesis by simp
qed

text \<open>The stacks that are tried.\<close>

definition candidate_stacks :: "f64 list \<Rightarrow> f64 \<Rightarrow> f64 list list" where
  "candidate_stacks targets sizeStep =
     map (lot_sizes sizeStep) (product_lists (map (lot_options sizeStep) targets))"

lemma cheapest_in: "cheapest cost cands = Some c \<Longrightarrow> c \<in> set cands"
  by (auto simp: cheapest_def find_Some_iff)

lemma candidate_length: "c \<in> set (candidate_stacks targets sizeStep) \<Longrightarrow> length c = length targets"
  by (auto simp: candidate_stacks_def lot_sizes_def dest: in_set_product_lists_length)

lemma lot_options_near:
  assumes "k \<in> set (lot_options sizeStep t)"
  shows "0 \<le> k \<and> (k = 0 \<or> (case fdiv t sizeStep of Fin x \<Rightarrow> \<bar>of_int k - x\<bar> < 1 | _ \<Rightarrow> False))"
proof (cases "fdiv t sizeStep")
  case (Fin x)
  have "go_int (Fin (of_int n)) = n \<or> go_int (Fin (of_int n)) < 0" for n
    by (simp add: Let_def)
  then have "k = 0 \<or> 0 \<le> k \<and> (k = \<lfloor>x\<rfloor> \<or> k = \<lceil>x\<rceil>)"
    using assms Fin unfolding lot_options_def math_Floor_def math_Ceil_def
    by (auto simp: Let_def split: if_splits)
  moreover have "\<bar>of_int \<lfloor>x\<rfloor> - x\<bar> < 1" "\<bar>of_int \<lceil>x\<rceil> - x\<bar> < 1"
    using floor_correct [of x] ceiling_correct [of x] by linarith+
  ultimately show ?thesis using Fin by auto
qed (use assms in \<open>simp_all add: lot_options_def math_Floor_def math_Ceil_def\<close>)

text \<open>
  C13: For a positive lot size the search is equivalent to exhaustive search: over all
  combinations of the lots next to each leg's target it returns the first one no other is cheaper
  than, and nearest-lot rounding of each leg if no combination has a cost below infinity. The
  stack keeps its length, and every leg tried is 0 or a whole number of lots, at least 0 and less
  than one lot away from the target.\<close>

theorem stack_search_equiv:
  fixes original multiplier sizeStep
  assumes "\<not> sizeStep \<le> 0" and "original \<noteq> []"
  defines "targets \<equiv> map (\<lambda>v. v * multiplier) original"
  shows "computeStackRoundedSizes original multiplier sizeStep =
      (case cheapest (evaluateStackCost original targets) (candidate_stacks targets sizeStep) of
         None \<Rightarrow> map (\<lambda>t. math_Round (fdiv t sizeStep) * sizeStep) targets
       | Some best \<Rightarrow> best) \<and>
    length (computeStackRoundedSizes original multiplier sizeStep) = length original \<and>
    list_all (\<lambda>t. list_all (\<lambda>k. 0 \<le> k \<and>
      (k = 0 \<or> (case fdiv t sizeStep of Fin b \<Rightarrow> \<bar>of_int k - b\<bar> < 1 | _ \<Rightarrow> False))) (lot_options sizeStep t)) targets"
proof -
  let ?best = "cheapest (evaluateStackCost original targets) (candidate_stacks targets sizeStep)"
  have bt: "backtrack original targets sizeStep [] (map (lot_options sizeStep) targets) (PInf, z) =
      (case ?best of None \<Rightarrow> (PInf, z) | Some c \<Rightarrow> (evaluateStackCost original targets c, c))" for z
    by (simp add: backtrack_eq_fold candidate_stacks_def fold_map comp_def flip: fold_try_stack)
  have fin: "evaluateStackCost original targets c \<noteq> PInf" if "?best = Some c" for c
    using that by (auto simp: cheapest_def find_Some_iff)
  have eq: "computeStackRoundedSizes original multiplier sizeStep =
      (case ?best of None \<Rightarrow> map (\<lambda>t. math_Round (fdiv t sizeStep) * sizeStep) targets | Some best \<Rightarrow> best)"
    using assms(1,2) fin
    by (simp add: computeStackRoundedSizes_def Let_def bt flip: targets_def split: option.split)
  moreover have "length (computeStackRoundedSizes original multiplier sizeStep) = length original"
    using candidate_length [OF cheapest_in] by (simp add: eq targets_def split: option.split)
  ultimately show ?thesis by (simp add: list_all_iff lot_options_near)
qed

theorem stack_search_equiv_witness:
  "computeStackRoundedSizes [Fin 3] (Fin (1 / 2)) (Fin 1) = [Fin 1] \<and>
   length (computeStackRoundedSizes [Fin 3] (Fin (1 / 2)) (Fin 1)) = 1"
proof
  show "computeStackRoundedSizes [Fin 3] (Fin (1 / 2)) (Fin 1) = [Fin 1]" by code_simp
  show "length (computeStackRoundedSizes [Fin 3] (Fin (1 / 2)) (Fin 1)) = 1"
    using stack_search_equiv [of "Fin 1" "[Fin 3]" "Fin (1 / 2)", THEN conjunct2, THEN conjunct1]
    by (simp add: zero_f64_def)
qed

section \<open>What scaling does\<close>

text \<open>The request with the coin filled in, and the three ways a call of \<^verbatim>\<open>Scale\<close> ends.\<close>

definition with_coin :: "CreateOrderRequest \<Rightarrow> Request \<Rightarrow> Request" where
  "with_coin order req = (if rq_Coin req = [] then req\<lparr>rq_Coin := cr_Coin order\<rparr> else req)"

lemma with_coin_simps [simp]:
  "rq_Identifier (with_coin order req) = rq_Identifier req" "rq_OrderId (with_coin order req) = rq_OrderId req"
  "rq_OriginalSize (with_coin order req) = rq_OriginalSize req" "rq_StackIndex (with_coin order req) = rq_StackIndex req"
  "rq_StackSize (with_coin order req) = rq_StackSize req" "rq_Price (with_coin order req) = rq_Price req"
  by (simp_all add: with_coin_def)

text \<open>A call can only fail to return if the rounding rules or the rounding of the price do.\<close>

definition scale_panics :: "'m resolver \<Rightarrow> CreateOrderRequest \<Rightarrow> Request \<Rightarrow> 'm \<Rightarrow> bool" where
  "scale_panics resolve order req m =
     (case resolve (rq_Coin (with_coin order req)) m of
        None \<Rightarrow> True
      | Some (Inl _, _) \<Rightarrow> False
      | Some (Inr c, _) \<Rightarrow> RoundPrice c (if 0 < rq_Price req then rq_Price req else cr_Price order) = None)"

lemma Scale_cases:
  obtains "Scale resolve mx now req order s m = None"
      and "scale_panics resolve order req m"
  | e m' where "Scale resolve mx now req order s m = Some (ScaleErr e, order, s, m')"
  | c m' px k sz skip r s' where "resolve (rq_Coin (with_coin order req)) m = Some (Inr c, m')"
      and "\<not> (0 < mx \<and> mx < k)" and "\<not> sz < 0" and "skip \<noteq> None \<longleftrightarrow> NotionalBelowMinimum c sz px"
      and "RecordScaledOrder now (audit_params (with_coin order req) sz k skip) s = (r, s')"
      and "Scale resolve mx now req order s m =
        Some (case r of
            Inl e \<Rightarrow> ScaleErr (if skip = None then RecordScaled e else RecordSkipped e)
          | Inr (a, ef) \<Rightarrow> (if skip = None then Scaled else ErrBelowMinimum)
              \<lparr>rs_Size = sz, rs_Price = px, rs_Audit = a, rs_Effective = ef, rs_Multiplier = k\<rparr>,
          if skip = None then order\<lparr>cr_Price := px, cr_Size := sz\<rparr> else order, s', m')"
proof (cases "ResolveEffectiveOrderScaler (rq_OrderId req) (sg_db s)")
  case (Inl err)
  then show thesis by (intro that(2)) (simp add: Scale_def Let_def flip: with_coin_def)
next
  case (Inr e)
  let ?req = "with_coin order req"
  define k where "k = applied_multiplier mx (ef_Multiplier e)"
  have k: "\<not> (0 < mx \<and> mx < k)" by (simp add: k_def applied_multiplier_def)
  define px0 where "px0 = (if 0 < rq_Price req then rq_Price req else cr_Price order)"
  note unfold = Scale_def Let_def with_coin_def [symmetric] with_coin_simps Inr sum.case k_def [symmetric]
    px0_def
  show thesis
  proof (cases "resolve (rq_Coin ?req) m")
    case None
    then show thesis by (intro that(1)) (simp_all add: unfold scale_panics_def)
  next
    case (Some x)
    then consider err m' where "resolve (rq_Coin ?req) m = Some (Inl err, m')"
      | c m' where "resolve (rq_Coin ?req) m = Some (Inr c, m')"
      by (metis old.prod.exhaust sum.exhaust)
    then show thesis
    proof cases
      case 1
      then show thesis by (intro that(2)) (simp add: unfold)
    next
      case res: 2
      show thesis
      proof (cases "RoundPrice c px0")
        case None
        with res show thesis by (intro that(1); cases "0 < rq_Price req") (simp_all add: unfold scale_panics_def)
      next
        case (Some px)
        define sz where "sz = clampToNonNegative (rounded_size c k ?req (sg_db s))"
        have sz: "\<not> sz < 0" by (simp add: sz_def clampToNonNegative_def)
        define skip where "skip = (if NotionalBelowMinimum c sz px
          then Some (skip_reason (math_Abs (sz * px)) (MinNotional c)) else None)"
        obtain r s' where r: "RecordScaledOrder now (audit_params ?req sz k skip) s = (r, s')" by fastforce
        have out: "Scale resolve mx now req order s m =
            Some (case r of
                Inl e \<Rightarrow> ScaleErr (if skip = None then RecordScaled e else RecordSkipped e)
              | Inr (a, ef) \<Rightarrow> (if skip = None then Scaled else ErrBelowMinimum)
                  \<lparr>rs_Size = sz, rs_Price = px, rs_Audit = a, rs_Effective = ef, rs_Multiplier = k\<rparr>,
              if skip = None then order\<lparr>cr_Price := px, cr_Size := sz\<rparr> else order, s', m')"
          using res Some r
          by (cases "NotionalBelowMinimum c sz px"; cases "0 < rq_Price req"; cases r)
            (simp_all add: unfold skip_def split: prod.split flip: sz_def)
        show thesis by (rule that(3) [OF res k sz _ r out]) (simp add: skip_def)
      qed
    qed
  qed
qed

lemma RecordScaledOrder_listed:
  assumes "storage_ok s" and "rp_AppliedMultiplier p = Some k"
  shows "case RecordScaledOrder now p s of
      (Inl e, s') \<Rightarrow> e = unique_failed \<and> s' = s
    | (Inr (a, e), s') \<Rightarrow> (\<exists>as vw t. ListScaledOrdersByOrderId (oi_OrderId (rp_Identifier p)) (sg_db s') = Inr as \<and>
        listed_audit vw t (recorded_audit p k (Actor e)) \<in> set as)"
proof -
  obtain e where e: "ResolveEffectiveOrderScaler (oi_OrderId (rp_Identifier p)) (sg_db s) = Inr e"
    using ResolveEffectiveOrderScaler_total [OF assms(1)] by blast
  let ?p = "recorded_audit p k (Actor e)"
  have id: "ap_Identifier ?p = rp_Identifier p" by (simp add: recorded_audit_def)
  have rec: "RecordScaledOrder now p s = map_prod (map_sum id (\<lambda>a. (a, e\<lparr>ef_Multiplier := k\<rparr>))) id
      (InsertScaledOrderAudit now ?p s)"
    by (simp add: RecordScaledOrder_eq e Let_def assms(2))
  show ?thesis
  proof (cases rule: InsertScaledOrderAudit_cases [OF assms(1), of ?p now])
    case (1 vw)
    then show ?thesis by (simp add: rec)
  next
    case (2 vw s')
    have "storage_ok s'" using InsertScaledOrderAudit_ok [OF assms(1), of now ?p] 2 by simp
    then have "\<exists>as vw t. ListScaledOrdersByOrderId (oi_OrderId (rp_Identifier p)) (sg_db s') = Inr as \<and>
        listed_audit vw t ?p \<in> set as"
      using listed_after_insert(1) [OF _ 2(4) [THEN arg_cong [of _ _ db_scaled_orders], simplified]]
      unfolding storage_ok_def id by blast
    then show ?thesis by (simp add: rec 2(3))
  qed
qed

text \<open>
  C26: Scaling, branch by branch. On success the order carries the rounded price and size of the
  result, the size is not negative and the multiplier is within the configured maximum; below the
  minimum the order is left alone. In both cases the audit can be read back with the size and the
  multiplier that were used, marked as skipped exactly in the second case; on an error nothing was
  recorded. The call returns unless resolving the constraints or rounding the price does not.\<close>

theorem Scale_outcome:
  fixes ident evt order
  assumes "storage_init s0" and "storage_step\<^sup>*\<^sup>* s0 s"
  defines "req \<equiv> BuildRequest ident evt order"
  shows "case Scale resolve maxMultiplier now req order s m of
      None \<Rightarrow> scale_panics resolve order req m
    | Some (Scaled r, order', s', m') \<Rightarrow>
        order' = order\<lparr>cr_Price := rs_Price r, cr_Size := rs_Size r\<rparr> \<and> \<not> rs_Size r < 0 \<and>
        \<not> (0 < maxMultiplier \<and> maxMultiplier < rs_Multiplier r) \<and>
        (\<exists>as. ListScaledOrdersByOrderId (oi_OrderId ident) (sg_db s') = Inr as \<and>
          (\<exists>a \<in> set as. sa_ScaledSize a = rs_Size r \<and> sa_Multiplier a = rs_Multiplier r \<and> \<not> sa_Skipped a \<and>
             sa_OriginalSize a = rq_OriginalSize req \<and> sa_StackIndex a = rq_StackIndex req))
    | Some (ErrBelowMinimum r, order', s', m') \<Rightarrow>
        order' = order \<and>
        (\<exists>as. ListScaledOrdersByOrderId (oi_OrderId ident) (sg_db s') = Inr as \<and>
          (\<exists>a \<in> set as. sa_ScaledSize a = rs_Size r \<and> sa_Multiplier a = rs_Multiplier r \<and> sa_Skipped a \<and>
             sa_SkipReason a \<noteq> None))
    | Some (ScaleErr e, order', s', m') \<Rightarrow> s' = s"
proof -
  have s: "storage_ok s" by (rule storage_sys.inv_reachable [OF assms(1,2)])
  have req: "rq_Identifier req = ident" by (simp add: req_def BuildRequest_def Let_def)
  have listed: "\<exists>as. ListScaledOrdersByOrderId (oi_OrderId ident) (sg_db s') = Inr as \<and>
      (\<exists>a \<in> set as. sa_ScaledSize a = sz \<and> sa_Multiplier a = k \<and> (sa_Skipped a \<longleftrightarrow> skip \<noteq> None) \<and>
         sa_SkipReason a = skip \<and> sa_OriginalSize a = rq_OriginalSize req \<and> sa_StackIndex a = rq_StackIndex req)"
    if rec: "RecordScaledOrder now (audit_params (with_coin order req) sz k skip) s = (Inr x, s')" for sz k skip x s'
  proof -
    let ?p = "audit_params (with_coin order req) sz k skip"
    have p: "rp_AppliedMultiplier ?p = Some k" "rp_Identifier ?p = ident" by (simp_all add: audit_params_def req)
    obtain "as" vw t u where "ListScaledOrdersByOrderId (oi_OrderId ident) (sg_db s') = Inr as"
        and a: "listed_audit vw t (recorded_audit ?p k u) \<in> set as"
      using RecordScaledOrder_listed [OF s p(1), of now, unfolded rec p(2)] by (cases x) auto
    then show ?thesis
      by (auto simp: audit_params_def listed_audit_def recorded_audit_def audit_result_def intro!: bexI [OF _ a])
  qed
  show ?thesis
  proof (cases rule: Scale_cases [of resolve maxMultiplier now req order s m])
    case (3 c m' px k sz skip r s')
    have "s' = s" if "r = Inl e" for e
      using RecordScaledOrder_listed [OF s, of "audit_params (with_coin order req) sz k skip" k now, unfolded 3(5)] that
      by (simp add: audit_params_def)
    with 3 listed [of sz k skip _ s'] show ?thesis
      by (cases r) (auto split: prod.split)
  qed simp_all
qed

text \<open>A coin with whole lots, and a base order of a quarter lot.\<close>

definition doge_info :: info_answers where
  "doge_info = \<lparr>perp_meta = Some [(''DOGE'', 0)], spot_meta = None\<rparr>"

definition quarter_order :: CreateOrderRequest where
  "quarter_order = zero_Create\<lparr>cr_Coin := ''DOGE'', cr_IsBuy := True, cr_Price := Fin 2, cr_Size := Fin (1 / 4)\<rparr>"

definition quarter_event :: tc_BotEvent where
  "quarter_event = zero_tc_BotEvent\<lparr>ev_CreatedAt := 3, ev_Size := Fin (1 / 4), ev_Price := Fin 2\<rparr>"

lemma Resolve_minimum: "Resolve info coin m = Some (Inr c, m') \<Longrightarrow> MinNotional c = 0"
  by (auto simp: Resolve_def split: if_splits option.splits)

lemma no_minimum: "MinNotional c = 0 \<Longrightarrow> \<not> NotionalBelowMinimum c sz px"
  by (simp add: NotionalBelowMinimum_def zero_f64_def)

lemma Scale_without_minimum:
  assumes "\<And>coin m c m'. resolve coin m = Some (Inr c, m') \<Longrightarrow> MinNotional c = 0"
  shows "Scale resolve maxMultiplier now req order s m \<noteq> Some (ErrBelowMinimum r, x)"
  by (cases rule: Scale_cases [of resolve maxMultiplier now req order s m])
    (use assms in \<open>auto simp: no_minimum split: sum.splits prod.splits\<close>)

lemma first_audit_succeeds:
  assumes "storage_ok s" and "db_scaled_orders (sg_db s) = []"
  shows "\<exists>a e s'. RecordScaledOrder now p s = (Inr (a, e), s')"
proof -
  obtain e where e: "ResolveEffectiveOrderScaler (oi_OrderId (rp_Identifier p)) (sg_db s) = Inr e"
    using ResolveEffectiveOrderScaler_total [OF assms(1)] by blast
  have "\<exists>a s'. InsertScaledOrderAudit now ap s = (Inr a, s')" for ap
    by (cases rule: InsertScaledOrderAudit_cases [OF assms(1), of ap now]) (use assms(2) in auto)
  then show ?thesis unfolding RecordScaledOrder_eq e by (simp add: Let_def) (metis map_prod_simp map_sum.simps(2) id_apply)
qed

lemma quarter_scaled:
  "case Scale (Resolve doge_info) 0 5 (BuildRequest sample_ident quarter_event quarter_order) quarter_order
       fresh_storage NewOrderIdCache of
      Some (Scaled r, order', _) \<Rightarrow> order' = quarter_order\<lparr>cr_Size := 0\<rparr> | _ \<Rightarrow> False"
proof -
  let ?req = "BuildRequest sample_ident quarter_event quarter_order"
  let ?c = "\<lparr>Coin = ''DOGE'', SizeDecimals = 0, SizeStep = Fin 1, PriceSigFigs = 5, MinNotional = 0\<rparr>"
  have s: "storage_ok fresh_storage" using storage_sys.inv_reachable [OF fresh_storage_init rtranclp.rtrancl_refl] .
  have r: "Resolve doge_info ''DOGE'' NewOrderIdCache =
      Some (Inr ?c, \<lparr>once_done = True, decimals = [(''DOGE'', 0)]\<rparr>)"
    by code_simp
  have req: "rq_Coin ?req = ''DOGE''" "rq_OrderId ?req = sample_oid" "rq_StackSize ?req = 1"
    "(if 0 < rq_Price ?req then rq_Price ?req else cr_Price quarter_order) = Fin 2"
    by code_simp+
  have "map_sum id ef_Multiplier (ResolveEffectiveOrderScaler sample_oid (sg_db fresh_storage)) = Inr (Fin 1)"
    by code_simp
  then obtain e where e: "ResolveEffectiveOrderScaler sample_oid (sg_db fresh_storage) = Inr e" "ef_Multiplier e = Fin 1"
    by (cases "ResolveEffectiveOrderScaler sample_oid (sg_db fresh_storage)") auto
  have px: "RoundPrice ?c (Fin 2) = Some (Fin 2)" by code_simp
  have "clampToNonNegative (RoundSize ?c (rq_OriginalSize ?req * Fin 1)) = Fin 0" by code_simp
  then have sz: "clampToNonNegative (rounded_size ?c (Fin 1) ?req (sg_db fresh_storage)) = 0"
    by (simp add: rounded_size_def req zero_f64_def)
  have "db_scaled_orders (sg_db fresh_storage) = []" by code_simp
  then obtain a e' s' where "RecordScaledOrder 5 (audit_params ?req 0 (Fin 1) None) fresh_storage = (Inr (a, e'), s')"
    using first_audit_succeeds [OF s] by blast
  then show "case Scale (Resolve doge_info) 0 5 ?req quarter_order fresh_storage NewOrderIdCache of
      Some (Scaled r, order', _) \<Rightarrow> order' = quarter_order\<lparr>cr_Size := 0\<rparr> | _ \<Rightarrow> False"
    by (simp add: Scale_def Let_def req r e px sz no_minimum applied_multiplier_def)
      (simp add: quarter_order_def zero_Create_def)
qed

theorem Scale_outcome_witness:
  "storage_init fresh_storage \<and>
   (case Scale (Resolve doge_info) 0 5 (BuildRequest sample_ident quarter_event quarter_order) quarter_order
       fresh_storage NewOrderIdCache of
      Some (Scaled r, order', s', m') \<Rightarrow> cr_Size order' = 0 \<and> rs_Size r = 0 \<and>
        (\<exists>as. ListScaledOrdersByOrderId (oi_OrderId sample_ident) (sg_db s') = Inr as \<and>
          (\<exists>a \<in> set as. sa_ScaledSize a = 0 \<and> \<not> sa_Skipped a))
    | _ \<Rightarrow> False)"
  using fresh_storage_init quarter_scaled
    Scale_outcome [OF fresh_storage_init rtranclp.rtrancl_refl, where resolve = "Resolve doge_info" and
      maxMultiplier = 0 and now = 5 and ident = sample_ident and evt = quarter_event and order = quarter_order and
      m = NewOrderIdCache]
  by (fastforce split: option.splits prod.splits scale_outcome.splits dest: arg_cong [of _ _ cr_Size])

text \<open>
  With the constraints the program resolves no order is ever skipped for being too small: the
  minimum notional is always 0. An order of a quarter of a lot is scaled to size 0 and goes on.\<close>

theorem minimum_never_enforced:
  "(case Scale (Resolve info) maxMultiplier now req order s m of
      Some (ErrBelowMinimum r, _) \<Rightarrow> False | _ \<Rightarrow> True) \<and>
   (case Scale (Resolve doge_info) 0 5 (BuildRequest sample_ident quarter_event quarter_order) quarter_order
       fresh_storage NewOrderIdCache of
      Some (Scaled r, order', _) \<Rightarrow> order' = quarter_order\<lparr>cr_Size := 0\<rparr> | _ \<Rightarrow> False)"
proof
  show "case Scale (Resolve info) maxMultiplier now req order s m of
      Some (ErrBelowMinimum r, _) \<Rightarrow> False | _ \<Rightarrow> True"
    using Scale_without_minimum [of "Resolve info", OF Resolve_minimum]
    by (simp split: option.split prod.split scale_outcome.split)
qed (rule quarter_scaled)

end
