(* ===== verification/Engine.thy ===== *)
theory Engine
  imports Order_Scaler Adapter Limiter
begin

text \<open>
  \<^verbatim>\<open>engine/engine.go\<close>: the loop that turns the events of a 3Commas deal into work for the venues.
  \<^verbatim>\<open>ProduceActiveDeals\<close> lists the deals of every bot and enqueues them, \<^verbatim>\<open>HandleDeal\<close> fetches one deal
  and records its events, and \<^verbatim>\<open>processDeal\<close> reduces the history of every order that has a new event
  to an action, decides to which venues it goes, adjusts take profits to the tracked position,
  scales the order per venue and hands it to the emitter.

  The 3Commas client is a parameter, and so is the fingerprint the SDK computes from an event. The
  emitter is the list of the work it was given: an error it returns is only logged. Go leaves the
  order open in which \<^verbatim>\<open>processDeal\<close> ranges over the orders it has seen and in which the bots are
  fetched; the argument \<open>iter\<close> is that order. One call reads the clock once, and no other call
  works on the same deal meanwhile (the work queue hands out a key to one worker at a time). A panic
  is \<open>None\<close>.
\<close>

section \<open>Data\<close>

record WorkKey =
  wi_DealID :: uint32
  wi_BotID :: uint32

datatype engine_error =
  RecordBotEventLog store_error
| RecordBotEvent store_error
| ReduceOrder uint32 store_error
| ScaleOrder uint32 string scale_error
| ListBotsFailed string
| GetDealFailed string
| RateLimitReserve limiter_error

record emissionPlan =
  pl_action :: Action
  pl_targets :: "OrderIdentifier list"
  pl_latest :: "BotEvent option"
  pl_skipExisting :: bool

text \<open>
  What the engine is built with (\<open>en_scaler\<close>: the rounding rules and the maximum multiplier of the
  order scaler, if there is one) and what it changes: the storage, the state behind the rounding
  rules, the fill tracker, the limiter, the work emitted and the keys enqueued.
\<close>

record 'm Engine =
  en_scaler :: "('m resolver \<times> f64) option"

record 'm world =
  ew_store :: Storage
  ew_cache :: 'm
  ew_tracker :: "Service option"
  ew_limiter :: "Limiter option"
  ew_emitted :: "OrderWork list"
  ew_queue :: "WorkKey list"

section \<open>The next action of an order\<close>

definition sameSnapshot :: "BotEvent \<Rightarrow> BotEvent \<Rightarrow> bool" where
  "sameSnapshot a b =
     (let a = tc_event a; b = tc_event b in
      ev_Status a = ev_Status b \<and> feq (ev_Price a) (ev_Price b) \<and> feq (ev_Size a) (ev_Size b) \<and>
      ev_OrderType a = ev_OrderType b \<and> ev_Type a = ev_Type b \<and> ev_IsMarket a = ev_IsMarket b)"

definition previousDistinct :: "BotEvent list \<Rightarrow> BotEvent option" where
  "previousDistinct events =
     (if length events < 2 then None
      else find (\<lambda>evt. \<not> sameSnapshot evt (last events)) (rev (butlast events)))"

definition reduceOrderEvents ::
  "string \<Rightarrow> OrderId \<Rightarrow> bool \<Rightarrow> db \<Rightarrow> store_error + Action \<times> BotEvent option \<times> bool" where
  "reduceOrderEvents currency oid hasLocalOrder d =
     (case ListEventsForOrder (BotID oid) (DealID oid) (BotEventID oid) d of
        Inl e \<Rightarrow> Inl e
      | Inr events \<Rightarrow>
          if events = [] then Inr (zero_Action, None, False)
          else
            let lt = last events;
                prev = (if hasLocalOrder then previousDistinct events else None);
                action = BuildAction currency prev lt oid
            in (case ac_Type action of
                  ActionNone \<Rightarrow> Inr (action, Some lt, False)
                | ActionModify \<Rightarrow>
                    if \<not> hasLocalOrder
                    then Inr (zero_Action\<lparr>ac_Type := ActionCreate, ac_Create := ToCreateOrderRequest currency lt oid\<rparr>,
                           Some lt, True)
                    else Inr (action, Some lt, True)
                | ActionCancel \<Rightarrow>
                    if \<not> hasLocalOrder
                    then Inr (zero_Action\<lparr>ac_Type := ActionNone,
                             ac_Reason := ''cancel skipped: order never created locally''\<rparr>, Some lt, False)
                    else Inr (action, Some lt, True)
                | ActionCreate \<Rightarrow> Inr (action, Some lt, True)))"

definition qtyTolerance :: f64 where
  "qtyTolerance = fl64 (1 / 1000000)"

definition priceTolerance :: f64 where
  "priceTolerance = fl64 (1 / 1000000)"

definition nearlyEqual :: "f64 \<Rightarrow> f64 \<Rightarrow> bool" where
  "nearlyEqual a b = (math_Abs (a - b) \<le> qtyTolerance)"

definition skip_action :: "string \<Rightarrow> Action" where
  "skip_action reason = zero_Action\<lparr>ac_Type := ActionNone, ac_Reason := reason\<rparr>"

text \<open>Whether the one active take profit already has the size and the price that are wanted.\<close>

definition take_profit_matches :: "BotEvent \<Rightarrow> Action \<Rightarrow> f64 \<Rightarrow> OrderSnapshot \<Rightarrow> bool" where
  "take_profit_matches lt action desiredQty active =
     (let targetPrice = ev_Price (tc_event lt);
          targetPrice = (case ac_Type action of
              ActionCreate \<Rightarrow> if feq targetPrice 0 then cr_Price (ac_Create action) else targetPrice
            | ActionModify \<Rightarrow> if feq targetPrice 0 then cr_Price (mo_Order (ac_Modify action)) else targetPrice
            | _ \<Rightarrow> targetPrice);
          priceMatches = (0 < targetPrice \<and> math_Abs (os_limitPrice active - targetPrice) \<le> priceTolerance)
      in os_reduceOnly active \<and> nearlyEqual (os_remainingQty active) desiredQty \<and> priceMatches)"

definition size_take_profit :: "f64 \<Rightarrow> CreateOrderRequest \<Rightarrow> CreateOrderRequest" where
  "size_take_profit desiredQty req = req\<lparr>cr_Size := desiredQty, cr_ReduceOnly := True\<rparr>"

definition adjustActionWithTracker ::
  "string \<Rightarrow> OrderId \<Rightarrow> BotEvent \<Rightarrow> Action \<Rightarrow> DealSnapshot option \<Rightarrow> bool \<Rightarrow> Action \<times> bool" where
  "adjustActionWithTracker currency oid lt action snapshot skipExisting =
     (case snapshot of
        None \<Rightarrow>
          if ev_OrderType (tc_event lt) = DealOrderTypeTakeProfit
          then (skip_action ''skip take-profit: fill snapshot unavailable'', False)
          else (action, True)
      | Some sn \<Rightarrow>
          if ev_OrderType (tc_event lt) \<noteq> DealOrderTypeTakeProfit then (action, True)
          else if 1 < length (sn_ActiveTakeProfits sn) then (action, True)
          else
            let desiredQty = NetQty (sn_Position sn) in
            if desiredQty \<le> qtyTolerance then (skip_action ''skip take-profit: position flat'', False)
            else if (case sn_ActiveTakeProfits sn of
                       [active] \<Rightarrow> \<not> skipExisting \<and> take_profit_matches lt action desiredQty active
                     | _ \<Rightarrow> False)
            then (skip_action ''take-profit already matches position'', False)
            else (case ac_Type action of
                ActionNone \<Rightarrow>
                  (zero_Action\<lparr>ac_Type := ActionCreate,
                     ac_Create := size_take_profit desiredQty (ToCreateOrderRequest currency lt oid)\<rparr>, True)
              | ActionCreate \<Rightarrow> (action\<lparr>ac_Create := size_take_profit desiredQty (ac_Create action)\<rparr>, True)
              | ActionModify \<Rightarrow>
                  (action\<lparr>ac_Modify := (ac_Modify action)
                     \<lparr>mo_Order := size_take_profit desiredQty (mo_Order (ac_Modify action))\<rparr>\<rparr>, True)
              | ActionCancel \<Rightarrow> (action, True)))"

section \<open>Targets\<close>

definition compareIdentifiers :: "OrderIdentifier \<Rightarrow> OrderIdentifier \<Rightarrow> int" where
  "compareIdentifiers a b =
     (let cmp = Compare (Venue a) (Venue b) in
      if cmp \<noteq> 0 then cmp
      else let cmp = Compare (oi_Wallet a) (oi_Wallet b) in
           if cmp \<noteq> 0 then cmp else Compare (oi_Hex a) (oi_Hex b))"

text \<open>The key \<^verbatim>\<open>compareIdentifiers\<close> and the comparison in \<^verbatim>\<open>resolveOrderTargets\<close> sort by.\<close>

definition ident_key :: "OrderIdentifier \<Rightarrow> string \<times> string \<times> string" where
  "ident_key i = (Venue i, oi_Wallet i, oi_Hex i)"

definition assignment_ident :: "OrderId \<Rightarrow> VenueAssignment \<Rightarrow> OrderIdentifier" where
  "assignment_ident oid a = NewOrderIdentifier (as_VenueID a) (as_Wallet a) oid"

definition resolveOrderTargets ::
  "OrderId \<Rightarrow> VenueAssignment list \<Rightarrow> OrderIdentifier list \<Rightarrow> ActionType \<Rightarrow> VenueAssignment option
    \<Rightarrow> OrderIdentifier list" where
  "resolveOrderTargets oid assignments stored actionType defaultAssignment =
     (let targets = fold (\<lambda>i. AList.update i True) stored [];
          targets = fold (\<lambda>a m. let ident = assignment_ident oid a in
              if map_of m ident = None then AList.update ident False m else m) assignments targets;
          targets = (case defaultAssignment of
              Some a \<Rightarrow> if targets = [] then [(assignment_ident oid a, stored \<noteq> [])] else targets
            | None \<Rightarrow> targets);
          kept = filter (\<lambda>(ident, hadSubmission).
              (case actionType of
                 ActionCreate \<Rightarrow> \<not> hadSubmission
               | ActionModify \<Rightarrow> hadSubmission
               | ActionCancel \<Rightarrow> hadSubmission
               | ActionNone \<Rightarrow> True)) targets
      in sort_key ident_key (map fst kept))"

definition missingAssignmentTargets ::
  "OrderId \<Rightarrow> VenueAssignment list \<Rightarrow> OrderIdentifier list \<Rightarrow> OrderIdentifier list" where
  "missingAssignmentTargets oid assignments stored =
     (if assignments = [] then []
      else sort_key ident_key (filter (\<lambda>i. i \<notin> set stored) (map (assignment_ident oid) assignments)))"

text \<open>The identifier under the venue and wallet of an assignment, if it has one.\<close>

definition normalize_ident :: "VenueAssignment list \<Rightarrow> OrderIdentifier \<Rightarrow> OrderIdentifier option" where
  "normalize_ident assignments ident =
     (let venueWallets = fold (\<lambda>a. AList.update (as_VenueID a) (as_Wallet a)) assignments [];
          walletLookup = fold (\<lambda>a m. if as_Wallet a \<noteq> [] then AList.update (ToLower (as_Wallet a)) (as_VenueID a) m
                                     else m) assignments []
      in case map_of venueWallets (oi_VenueID ident) of
           None \<Rightarrow>
             (case map_of walletLookup (ToLower (oi_Wallet ident)) of
                None \<Rightarrow> None
              | Some mapped \<Rightarrow>
                  let normalized = ident\<lparr>oi_VenueID := mapped\<rparr> in
                  (case map_of venueWallets mapped of
                     None \<Rightarrow> Some normalized
                   | Some wallet \<Rightarrow> Some (if wallet \<noteq> [] then normalized\<lparr>oi_Wallet := wallet\<rparr> else normalized)))
         | Some wallet \<Rightarrow> Some (if wallet \<noteq> [] then ident\<lparr>oi_Wallet := wallet\<rparr> else ident))"

fun normalize_loop ::
  "VenueAssignment list \<Rightarrow> OrderIdentifier list \<Rightarrow> (string \<times> string) list \<Rightarrow> OrderIdentifier list" where
  "normalize_loop assignments [] seen = []"
| "normalize_loop assignments (ident # stored) seen =
     (case (if assignments = [] then Some ident else normalize_ident assignments ident) of
        None \<Rightarrow> normalize_loop assignments stored seen
      | Some normalized \<Rightarrow>
          let k = (Venue normalized, ToLower (oi_Wallet normalized)) in
          if k \<in> set seen then normalize_loop assignments stored seen
          else normalized # normalize_loop assignments stored (k # seen))"

definition normalizeSubmissionIdentifiers ::
  "VenueAssignment list \<Rightarrow> OrderIdentifier list \<Rightarrow> OrderIdentifier list" where
  "normalizeSubmissionIdentifiers assignments stored = normalize_loop assignments stored []"

section \<open>Scaling and emitting\<close>

definition scaled_event :: "Result \<Rightarrow> BotEvent \<Rightarrow> BotEvent" where
  "scaled_event result lt =
     (let evt = (tc_event lt)\<lparr>ev_Size := rs_Size result\<rparr>
      in lt\<lparr>tc_event := (if 0 < rs_Price result then evt\<lparr>ev_Price := rs_Price result\<rparr> else evt)\<rparr>)"

text \<open>
  The common part of the two branches of \<^verbatim>\<open>applyScaling\<close>; \<open>put\<close> stores the scaled request in the
  action. The event is passed by reference, so the updated event is part of the result.
\<close>

definition scale_request ::
  "'m resolver \<times> f64 \<Rightarrow> time \<Rightarrow> OrderIdentifier \<Rightarrow> BotEvent \<Rightarrow> CreateOrderRequest \<Rightarrow> (CreateOrderRequest \<Rightarrow> Action)
    \<Rightarrow> 'm world \<Rightarrow> ((scale_error + Action \<times> Result option \<times> bool \<times> BotEvent) \<times> 'm world) option" where
  "scale_request scaler now ident lt order put w =
     (let req = BuildRequest ident (tc_event lt) order in
      case Scale (fst scaler) (snd scaler) now req order (ew_store w) (ew_cache w) of
        None \<Rightarrow> None
      | Some (outcome, order, s, m) \<Rightarrow>
          let w = w\<lparr>ew_store := s, ew_cache := m\<rparr> in
          (case outcome of
             ScaleErr e \<Rightarrow> Some (Inl e, w)
           | ErrBelowMinimum result \<Rightarrow>
               let reason = (case sa_SkipReason (rs_Audit result) of
                   None \<Rightarrow> ''scaled order below minimum'' | Some r \<Rightarrow> r)
               in Some (Inr (skip_action reason, None, False, lt), w)
           | Scaled result \<Rightarrow> Some (Inr (put order, Some result, True, scaled_event result lt), w)))"

definition applyScaling ::
  "'m Engine \<Rightarrow> time \<Rightarrow> OrderIdentifier \<Rightarrow> BotEvent \<Rightarrow> Action \<Rightarrow> 'm world
    \<Rightarrow> ((scale_error + Action \<times> Result option \<times> bool \<times> BotEvent) \<times> 'm world) option" where
  "applyScaling e now ident lt action w =
     (case en_scaler e of
        None \<Rightarrow> Some (Inr (action, None, True, lt), w)
      | Some scaler \<Rightarrow>
          (case ac_Type action of
             ActionCreate \<Rightarrow>
               scale_request scaler now ident lt (ac_Create action) (\<lambda>r. action\<lparr>ac_Create := r\<rparr>) w
           | ActionModify \<Rightarrow>
               scale_request scaler now ident lt (mo_Order (ac_Modify action))
                 (\<lambda>r. action\<lparr>ac_Modify := (ac_Modify action)\<lparr>mo_Order := r\<rparr>\<rparr>) w
           | _ \<Rightarrow> Some (Inr (action, None, True, lt), w)))"

definition emitted_event :: "BotEvent option \<Rightarrow> Result option \<Rightarrow> BotEvent" where
  "emitted_event lt result =
     (case lt of
        None \<Rightarrow> zero_BotEvent
      | Some evt \<Rightarrow>
          (case result of
             None \<Rightarrow> evt
           | Some r \<Rightarrow> evt\<lparr>tc_event := (tc_event evt)\<lparr>ev_Size := rs_Size r, ev_Price := rs_Price r\<rparr>\<rparr>))"

text \<open>The body of the loop over the targets of a plan.\<close>

definition emit_target ::
  "'m Engine \<Rightarrow> time \<Rightarrow> OrderId \<Rightarrow> BotEvent option \<Rightarrow> Action \<Rightarrow> OrderIdentifier \<Rightarrow> 'm world
    \<Rightarrow> (engine_error option \<times> 'm world) option" where
  "emit_target e now oid lt action ident w =
     (case (case lt of
              None \<Rightarrow> Some (Inr (action, None, True, zero_BotEvent), w)
            | Some evt \<Rightarrow> applyScaling e now ident evt action w) of
        None \<Rightarrow> None
      | Some (Inl err, w) \<Rightarrow> Some (Some (ScaleOrder (BotEventID oid) (Venue ident) err), w)
      | Some (Inr (identAction, scaleResult, emit, _), w) \<Rightarrow>
          if \<not> emit then Some (None, w)
          else
            let w = (case (ew_tracker w, scaleResult) of
                  (Some t, Some r) \<Rightarrow> w\<lparr>ew_tracker := Some (ApplyScaledOrder now ident (rs_Size r) (rs_Price r) t)\<rparr>
                | _ \<Rightarrow> w);
                work = \<lparr>wk_Identifier = ident, wk_OrderId = oid, wk_Action = identAction,
                  wk_BotEvent = emitted_event lt scaleResult\<rparr>
            in Some (None, w\<lparr>ew_emitted := ew_emitted w @ [work]\<rparr>))"

fun emit_targets ::
  "'m Engine \<Rightarrow> time \<Rightarrow> OrderId \<Rightarrow> BotEvent option \<Rightarrow> Action \<Rightarrow> OrderIdentifier list \<Rightarrow> 'm world
    \<Rightarrow> (engine_error option \<times> 'm world) option" where
  "emit_targets e now oid lt action [] w = Some (None, w)"
| "emit_targets e now oid lt action (ident # idents) w =
     (case emit_target e now oid lt action ident w of
        Some (None, w) \<Rightarrow> emit_targets e now oid lt action idents w
      | r \<Rightarrow> r)"

definition emit_plan ::
  "'m Engine \<Rightarrow> time \<Rightarrow> string \<Rightarrow> OrderId \<Rightarrow> DealSnapshot option \<Rightarrow> emissionPlan \<Rightarrow> 'm world
    \<Rightarrow> (engine_error option \<times> 'm world) option" where
  "emit_plan e now currency oid snapshot plan w =
     (let (action, emit) = (case pl_latest plan of
          None \<Rightarrow> (pl_action plan, True)
        | Some lt \<Rightarrow> adjustActionWithTracker currency oid lt (pl_action plan) snapshot (pl_skipExisting plan))
      in if \<not> emit \<or> ac_Type action = ActionNone then Some (None, w)
         else emit_targets e now oid (pl_latest plan) action (pl_targets plan) w)"

fun emit_plans ::
  "'m Engine \<Rightarrow> time \<Rightarrow> string \<Rightarrow> OrderId \<Rightarrow> DealSnapshot option \<Rightarrow> emissionPlan list \<Rightarrow> 'm world
    \<Rightarrow> (engine_error option \<times> 'm world) option" where
  "emit_plans e now currency oid snapshot [] w = Some (None, w)"
| "emit_plans e now currency oid snapshot (plan # plans) w =
     (case emit_plan e now currency oid snapshot plan w of
        Some (None, w) \<Rightarrow> emit_plans e now currency oid snapshot plans w
      | r \<Rightarrow> r)"

section \<open>Processing a deal\<close>

text \<open>The plans for one order: the action for its venues, and the replay for venues added later.\<close>

definition plan_order :: "string \<Rightarrow> DealSnapshot option \<Rightarrow> OrderId \<Rightarrow> db \<Rightarrow> engine_error + emissionPlan list" where
  "plan_order currency snapshot oid d =
     (let assignments = (case ListVenuesForBot (BotID oid) d of Inl _ \<Rightarrow> [] | Inr vs \<Rightarrow> vs);
          storedIdents = normalizeSubmissionIdentifiers assignments (ListSubmissionIdentifiersForOrder oid d);
          hasLocalOrder = (storedIdents \<noteq> [])
      in case reduceOrderEvents currency oid hasLocalOrder d of
           Inl err \<Rightarrow> Inl (ReduceOrder (BotEventID oid) err)
         | Inr (action, latestEvent, shouldEmit) \<Rightarrow>
             let missingTargets = missingAssignmentTargets oid assignments storedIdents;
                 replayAvailable = (hasLocalOrder \<and> missingTargets \<noteq> [] \<and>
                   (case latestEvent of None \<Rightarrow> False | Some lt \<Rightarrow> ev_Status (tc_event lt) = Active));
                 (action, shouldEmit) = (case latestEvent of
                     None \<Rightarrow> (action, shouldEmit)
                   | Some lt \<Rightarrow> adjustActionWithTracker currency oid lt action snapshot False);
                 shouldEmit = (ac_Type action \<noteq> ActionNone \<and> shouldEmit);
                 defaultAssignment = (if assignments = [] \<and> storedIdents = []
                   then (case ResolveDefaultAlias d of Inl _ \<Rightarrow> None | Inr a \<Rightarrow> Some a) else None);
                 targets = resolveOrderTargets oid assignments storedIdents (ac_Type action) defaultAssignment;
                 emissions = (if shouldEmit \<and> targets \<noteq> []
                   then [\<lparr>pl_action = action, pl_targets = targets, pl_latest = latestEvent, pl_skipExisting = False\<rparr>]
                   else [])
             in Inr (case latestEvent of
                  Some lt \<Rightarrow>
                    if replayAvailable
                    then emissions @ [\<lparr>pl_action = zero_Action\<lparr>ac_Type := ActionCreate,
                           ac_Create := ToCreateOrderRequest currency lt oid\<rparr>,
                         pl_targets = missingTargets, pl_latest = Some lt, pl_skipExisting = True\<rparr>]
                    else emissions
                | None \<Rightarrow> emissions))"

fun process_orders ::
  "'m Engine \<Rightarrow> time \<Rightarrow> string \<Rightarrow> DealSnapshot option \<Rightarrow> OrderId list \<Rightarrow> 'm world
    \<Rightarrow> (engine_error option \<times> 'm world) option" where
  "process_orders e now currency snapshot [] w = Some (None, w)"
| "process_orders e now currency snapshot (oid # oids) w =
     (case plan_order currency snapshot oid (sg_db (ew_store w)) of
        Inl err \<Rightarrow> Some (Some err, w)
      | Inr plans \<Rightarrow>
          (case emit_plans e now currency oid snapshot plans w of
             Some (None, w) \<Rightarrow> process_orders e now currency snapshot oids w
           | r \<Rightarrow> r))"

definition event_oid :: "(tc_BotEvent \<Rightarrow> uint32) \<Rightarrow> WorkKey \<Rightarrow> tc_BotEvent \<Rightarrow> OrderId" where
  "event_oid fingerprint wi event =
     \<lparr>BotID = wi_BotID wi, DealID = wi_DealID wi, BotEventID = fingerprint event\<rparr>"

text \<open>Whether an event is acted upon; every event is logged.\<close>

definition acted_on :: "tc_BotEvent \<Rightarrow> bool" where
  "acted_on event =
     (\<not> (ev_OrderType event = DealOrderTypeTakeProfit \<and> ev_Action event \<in> {ActionCancelEvent, ActionCancelled}) \<and>
      ev_Action event \<in> {ActionPlace, ActionCancelEvent, ActionModifyEvent})"

fun record_events ::
  "(tc_BotEvent \<Rightarrow> uint32) \<Rightarrow> time \<Rightarrow> WorkKey \<Rightarrow> tc_BotEvent list \<Rightarrow> (uint32 \<times> OrderId) list \<Rightarrow> Storage
    \<Rightarrow> (engine_error + (uint32 \<times> OrderId) list) \<times> Storage" where
  "record_events fingerprint now wi [] seen s = (Inr seen, s)"
| "record_events fingerprint now wi (event # events) seen s =
     (let oid = event_oid fingerprint wi event in
      case RecordThreeCommasBotEventLog now oid event s of
        (Inl (StoreErr m), s) \<Rightarrow> (Inl (RecordBotEventLog (StoreErr m)), s)
      | (_, s) \<Rightarrow>
          if acted_on event
          then (case RecordThreeCommasBotEvent now oid event s of
              (Inl ErrNoRows, s) \<Rightarrow> record_events fingerprint now wi events seen s
            | (Inl err, s) \<Rightarrow> (Inl (RecordBotEvent err), s)
            | (Inr lastInsertedId, s) \<Rightarrow>
                record_events fingerprint now wi events
                  (if lastInsertedId \<noteq> 0 then AList.update (BotEventID oid) oid seen else seen) s)
          else record_events fingerprint now wi events seen s)"

definition deal_snapshot_of :: "'m world \<Rightarrow> WorkKey \<Rightarrow> DealSnapshot option" where
  "deal_snapshot_of w wi = (case ew_tracker w of None \<Rightarrow> None | Some t \<Rightarrow> Snapshot (wi_DealID wi) t)"

definition processDeal ::
  "(tc_BotEvent \<Rightarrow> uint32) \<Rightarrow> (OrderId list \<Rightarrow> OrderId list) \<Rightarrow> 'm Engine \<Rightarrow> time \<Rightarrow> WorkKey \<Rightarrow> string
    \<Rightarrow> tc_BotEvent list \<Rightarrow> 'm world \<Rightarrow> (engine_error option \<times> 'm world) option" where
  "processDeal fingerprint iter e now wi currency events w =
     (let fillSnapshot = deal_snapshot_of w wi in
      case record_events fingerprint now wi events [] (ew_store w) of
        (Inl err, s) \<Rightarrow> Some (Some err, w\<lparr>ew_store := s\<rparr>)
      | (Inr seen, s) \<Rightarrow> process_orders e now currency fillSnapshot (iter (map snd seen)) (w\<lparr>ew_store := s\<rparr>))"

section \<open>The workflow around a deal\<close>

text \<open>
  The client is the rate-limited one as soon as there is a limiter (\<^verbatim>\<open>app.go\<close>). \<open>await\<close> is what
  happens while a queued reservation waits: the moves of the other workflows, until the grant or the
  end of the context.
\<close>

type_synonym await = "nat \<Rightarrow> Limiter \<Rightarrow> limiter_error option \<times> Limiter"

definition reserve_slots ::
  "await \<Rightarrow> (nat \<Rightarrow> time) \<Rightarrow> string \<Rightarrow> int \<Rightarrow> Limiter \<Rightarrow> limiter_error option \<times> Limiter" where
  "reserve_slots await clock wid n l =
     (case Reserve clock wid n l of
        (ReserveErr err, l) \<Rightarrow> (Some err, l)
      | (Granted, l) \<Rightarrow> (None, l)
      | (Waiting ch, l) \<Rightarrow> await ch l)"

text \<open>The deferred calls run in reverse order.\<close>

definition finish_workflow :: "(nat \<Rightarrow> time) \<Rightarrow> string \<Rightarrow> Limiter \<Rightarrow> Limiter" where
  "finish_workflow clock wid l = snd (Release clock wid (snd (SignalComplete clock wid l)))"

definition deal_workflow :: "WorkKey \<Rightarrow> string" where
  "deal_workflow wi = ''deal:'' @ show_int (uint (wi_DealID wi)) @ '':'' @ show_int (uint (wi_BotID wi))"

definition finish_world :: "(nat \<Rightarrow> time) \<Rightarrow> string \<Rightarrow> 'm world \<Rightarrow> 'm world" where
  "finish_world clock wid w = w\<lparr>ew_limiter := map_option (finish_workflow clock wid) (ew_limiter w)\<rparr>"

text \<open>A call of the client: with a limiter it needs a slot of the workflow.\<close>

definition api_call ::
  "string \<Rightarrow> (string + 'r) \<Rightarrow> time \<Rightarrow> string \<Rightarrow> 'm world \<Rightarrow> (string + 'r) \<times> 'm world" where
  "api_call operation answer now wid w =
     (case ew_limiter w of
        None \<Rightarrow> (answer, w)
      | Some l \<Rightarrow>
          (case client_call operation (\<lambda>_. answer) () now wid l of
             (Inl _, _, l) \<Rightarrow> (Inl ''rate limit consume'', w\<lparr>ew_limiter := Some l\<rparr>)
           | (Inr r, _, l) \<Rightarrow> (r, w\<lparr>ew_limiter := Some l\<rparr>)))"

definition adjust_down :: "(nat \<Rightarrow> time) \<Rightarrow> string \<Rightarrow> int \<Rightarrow> 'm world \<Rightarrow> 'm world" where
  "adjust_down clock wid n w = w\<lparr>ew_limiter := map_option (\<lambda>l. snd (AdjustDown clock wid n l)) (ew_limiter w)\<rparr>"

definition HandleDeal ::
  "(tc_BotEvent \<Rightarrow> uint32) \<Rightarrow> (OrderId list \<Rightarrow> OrderId list) \<Rightarrow> (uint32 \<Rightarrow> string + Deal) \<Rightarrow> await \<Rightarrow> (nat \<Rightarrow> time)
    \<Rightarrow> 'm Engine \<Rightarrow> time \<Rightarrow> WorkKey \<Rightarrow> 'm world \<Rightarrow> (engine_error option \<times> 'm world) option" where
  "HandleDeal fingerprint iter client await clock e now wi w =
     (if wi_DealID wi = 0 then Some (None, w)
      else
        let wid = deal_workflow wi;
            (refused, w) = (case ew_limiter w of
                None \<Rightarrow> (None, w)
              | Some l \<Rightarrow> map_prod id (\<lambda>l. w\<lparr>ew_limiter := Some l\<rparr>) (reserve_slots await clock wid 2 l))
        in case refused of
             Some err \<Rightarrow> Some (Some (RateLimitReserve err), w)
           | None \<Rightarrow>
               map_option (map_prod id (finish_world clock wid))
                 (case api_call ''GetDealForID'' (client (wi_DealID wi)) now wid w of
                    (Inl err, w) \<Rightarrow> Some (Some (GetDealFailed err), w)
                  | (Inr deal, w) \<Rightarrow>
                      processDeal fingerprint iter e now wi (dl_ToCurrency deal) (dl_Events deal)
                        (adjust_down clock wid 1 w)))"

section \<open>Producing work\<close>

definition day :: duration where
  "day = 24 * 3600 * second"

definition min_milli :: "time \<Rightarrow> time \<Rightarrow> time" where
  "min_milli a b = UnixMilli (min (to_UnixMilli a) (to_UnixMilli b))"

text \<open>
  The loop over the deals of a bot: the earliest update, the keys enqueued, the deals stored. The clock is read
  for each deal.
\<close>

fun enqueue_deals :: "(nat \<Rightarrow> time) \<Rightarrow> Deal list \<Rightarrow> time \<Rightarrow> 'm world \<Rightarrow> time \<times> 'm world" where
  "enqueue_deals clock [] minUpdatedAt w = (minUpdatedAt, w)"
| "enqueue_deals clock (d # ds) minUpdatedAt w =
     (let minUpdatedAt = (if minUpdatedAt = zero_time then dl_UpdatedAt d else minUpdatedAt);
          minUpdatedAt = min_milli minUpdatedAt (dl_UpdatedAt d)
      in enqueue_deals (\<lambda>i. clock (Suc i)) ds minUpdatedAt
           (w\<lparr>ew_queue := ew_queue w @ [\<lparr>wi_DealID = word_of_int (dl_Id d), wi_BotID = word_of_int (dl_BotId d)\<rparr>],
              ew_store := RecordThreeCommasDeal (clock 0) d (ew_store w)\<rparr>))"

definition synced_at :: "tc_Bot \<Rightarrow> db \<Rightarrow> time option" where
  "synced_at b d = (case LoadBot (bot_Id b) d of Inr (Some (_, t)) \<Rightarrow> Some t | _ \<Rightarrow> None)"

text \<open>
  The goroutine for one bot; \<open>list_deals\<close> answers with the deals updated since an instant. The clock is read before the
  request, by the limiter, for each deal, and once more when there are no deals of a new bot.
\<close>

definition produce_bot ::
  "(int \<Rightarrow> time \<Rightarrow> string + Deal list) \<Rightarrow> string \<Rightarrow> (nat \<Rightarrow> time) \<Rightarrow> tc_Bot \<Rightarrow> 'm world \<Rightarrow> 'm world" where
  "produce_bot list_deals wid clock b w =
     (let found = synced_at b (sg_db (ew_store w));
          lastReq = (case found of None \<Rightarrow> clock 0 - day | Some t \<Rightarrow> t)
      in case api_call ''GetListOfDeals'' (list_deals (bot_Id b) lastReq) (clock 1) wid w of
           (Inl _, w) \<Rightarrow> w
         | (Inr ds, w) \<Rightarrow>
             let (minUpdatedAt, w) = enqueue_deals (\<lambda>i. clock (2 + i)) ds zero_time w;
                 watermark = (if ds = [] then (case found of Some t \<Rightarrow> t | None \<Rightarrow> clock 2 - day)
                              else min_milli lastReq minUpdatedAt)
             in w\<lparr>ew_store := TouchBot (bot_Id b) watermark (RecordBot b (bot_UpdatedAt b) (ew_store w))\<rparr>)"

definition produce_workflow :: string where
  "produce_workflow = ''produce:all-bots''"

text \<open>\<open>bot_clock\<close> are the readings of the clock by the goroutine of a bot.\<close>

definition ProduceActiveDeals ::
  "(string + tc_Bot list) \<Rightarrow> (int \<Rightarrow> time \<Rightarrow> string + Deal list) \<Rightarrow> (tc_Bot list \<Rightarrow> tc_Bot list) \<Rightarrow> await
    \<Rightarrow> (nat \<Rightarrow> time) \<Rightarrow> time \<Rightarrow> (int \<Rightarrow> nat \<Rightarrow> time) \<Rightarrow> 'm world \<Rightarrow> engine_error option \<times> 'm world" where
  "ProduceActiveDeals list_bots list_deals iter await clock now bot_clock w =
     (let (refused, w) = (case ew_limiter w of
            None \<Rightarrow> (None, w)
          | Some l \<Rightarrow>
              let ((_, lmt, _, _), l) = Stats (clock 0) l
              in map_prod id (\<lambda>l. w\<lparr>ew_limiter := Some l\<rparr>) (reserve_slots await clock produce_workflow lmt l))
      in case refused of
           Some err \<Rightarrow> (Some (RateLimitReserve err), w)
         | None \<Rightarrow>
             map_prod id (finish_world clock produce_workflow)
               (case api_call ''ListBots'' list_bots now produce_workflow w of
                  (Inl err, w) \<Rightarrow> (Some (ListBotsFailed err), w)
                | (Inr bots, w) \<Rightarrow>
                    let w = adjust_down clock produce_workflow (1 + int (length bots)) w
                    in (None, fold (\<lambda>b. produce_bot list_deals produce_workflow (bot_clock (bot_Id b)) b) (iter bots) w)))"

end
