(* ===== verification/Engine_Props.thy ===== *)
theory Engine_Props
  imports Engine
begin

text \<open>
  What the engine guarantees: to which venues an action goes, that every piece of work it emits is
  justified by the stored history, that a deal that is processed again causes nothing, that take
  profits wait for fills, that the watermark of a bot never passes a deal, and that the
  reservations of the limiter are given back. Two theorems pin down defects: the replay that
  repeats a create, and the scaler that overrides the tracked size of a take profit.
\<close>

section \<open>Targets\<close>

lemma compareIdentifiers_key:
  "compareIdentifiers a b = (if ident_key a = ident_key b then 0 else if ident_key a < ident_key b then - 1 else 1)"
  by (auto simp: compareIdentifiers_def ident_key_def Compare_def Let_def)

lemma ident_key_inj: "ident_key a = ident_key b \<longleftrightarrow> a = b"
  by (cases a; cases b) (auto simp: ident_key_def Venue_def oi_Hex_def Hex_eq_iff)

lemma fold_update_distinct:
  "distinct (map fst m) \<Longrightarrow> distinct (map fst (fold (\<lambda>i. AList.update i v) is m))"
  by (induction "is" arbitrary: m) (simp_all add: distinct_update)

lemma fold_update_map:
  "map_of (fold (\<lambda>i. AList.update i v) is m) i = (if i \<in> set is then Some v else map_of m i)"
  by (induction "is" arbitrary: m) auto

text \<open>The map of \<^verbatim>\<open>resolveOrderTargets\<close> before the default is added.\<close>

definition target_map :: "OrderId \<Rightarrow> VenueAssignment list \<Rightarrow> OrderIdentifier list \<Rightarrow> (OrderIdentifier \<times> bool) list" where
  "target_map oid assignments stored =
     fold (\<lambda>a m. let ident = assignment_ident oid a in
       if map_of m ident = None then AList.update ident False m else m) assignments
       (fold (\<lambda>i. AList.update i True) stored [])"

lemma assigned_distinct:
  "distinct (map fst m) \<Longrightarrow> distinct (map fst (fold (\<lambda>a m. let ident = assignment_ident oid a in
     if map_of m ident = None then AList.update ident False m else m) assignments m))"
  by (induction assignments arbitrary: m) (simp_all add: distinct_update Let_def)

lemma assigned_map:
  "map_of (fold (\<lambda>a m. let ident = assignment_ident oid a in
     if map_of m ident = None then AList.update ident False m else m) assignments m) i =
   (case map_of m i of Some b \<Rightarrow> Some b | None \<Rightarrow> if i \<in> assignment_ident oid ` set assignments then Some False else None)"
  by (induction assignments arbitrary: m) (auto simp: Let_def split: option.splits)

lemma target_map:
  shows "distinct (map fst (target_map oid assignments stored))"
    and "map_of (target_map oid assignments stored) i = (if i \<in> set stored then Some True
      else if i \<in> assignment_ident oid ` set assignments then Some False else None)"
  by (auto simp: target_map_def assigned_map fold_update_map intro!: assigned_distinct fold_update_distinct split: option.split)

lemma set_filter_map:
  assumes "distinct (map fst m)"
  shows "set (map fst (filter (\<lambda>(i, b). P i b) m)) = {i. \<exists>b. map_of m i = Some b \<and> P i b}"
  using assms by (force simp: map_of_eq_Some_iff [OF assms])

lemma target_map_empty: "target_map oid assignments stored = [] \<longleftrightarrow> assignments = [] \<and> stored = []"
proof
  assume "target_map oid assignments stored = []"
  then have none: "map_of (target_map oid assignments stored) i = None" for i by simp
  have "set stored = {}" "assignment_ident oid ` set assignments = {}"
    using none unfolding target_map(2) by (metis equals0I option.distinct(1))+
  then show "assignments = [] \<and> stored = []" by simp
qed (simp add: target_map_def)

definition kept_targets :: "ActionType \<Rightarrow> bool \<Rightarrow> bool" where
  "kept_targets ty hadSubmission = (case ty of
     ActionCreate \<Rightarrow> \<not> hadSubmission | ActionModify \<Rightarrow> hadSubmission | ActionCancel \<Rightarrow> hadSubmission | ActionNone \<Rightarrow> True)"

definition full_target_map ::
  "OrderId \<Rightarrow> VenueAssignment list \<Rightarrow> OrderIdentifier list \<Rightarrow> VenueAssignment option \<Rightarrow> (OrderIdentifier \<times> bool) list" where
  "full_target_map oid assignments stored dflt = (case dflt of
     Some a \<Rightarrow> if target_map oid assignments stored = [] then [(assignment_ident oid a, stored \<noteq> [])]
       else target_map oid assignments stored
   | None \<Rightarrow> target_map oid assignments stored)"

lemma full_target_map:
  shows "distinct (map fst (full_target_map oid assignments stored dflt))"
    and "map_of (full_target_map oid assignments stored dflt) i = (if i \<in> set stored then Some True
      else if i \<in> assignment_ident oid ` set assignments then Some False
      else if assignments = [] \<and> stored = [] \<and> i \<in> assignment_ident oid ` set_option dflt then Some False else None)"
proof -
  show "distinct (map fst (full_target_map oid assignments stored dflt))"
    by (simp add: full_target_map_def target_map(1) split: option.split)
  show "map_of (full_target_map oid assignments stored dflt) i = (if i \<in> set stored then Some True
      else if i \<in> assignment_ident oid ` set assignments then Some False
      else if assignments = [] \<and> stored = [] \<and> i \<in> assignment_ident oid ` set_option dflt then Some False else None)"
    by (auto simp: full_target_map_def target_map(2) target_map_empty split: option.split)
qed

lemma resolveOrderTargets_eq:
  "resolveOrderTargets oid assignments stored ty dflt =
     sort_key ident_key (map fst (filter (\<lambda>(i, b). kept_targets ty b) (full_target_map oid assignments stored dflt)))"
  by (simp add: resolveOrderTargets_def full_target_map_def kept_targets_def target_map_def Let_def split: option.split)

lemma set_resolveOrderTargets:
  "set (resolveOrderTargets oid assignments stored ty dflt) =
     (let assigned = assignment_ident oid ` set assignments;
          fallback = (if assignments = [] \<and> stored = [] then assignment_ident oid ` set_option dflt else {})
      in case ty of
           ActionCreate \<Rightarrow> assigned - set stored \<union> fallback
         | ActionModify \<Rightarrow> set stored
         | ActionCancel \<Rightarrow> set stored
         | ActionNone \<Rightarrow> assigned \<union> set stored \<union> fallback)"
proof -
  have "set (resolveOrderTargets oid assignments stored ty dflt) =
      {i. \<exists>b. map_of (full_target_map oid assignments stored dflt) i = Some b \<and> kept_targets ty b}"
    unfolding resolveOrderTargets_eq using set_filter_map [OF full_target_map(1)] by simp
  then show ?thesis
    by (cases ty) (auto simp: full_target_map(2) kept_targets_def Let_def split: if_splits)
qed

lemma set_missingAssignmentTargets:
  "set (missingAssignmentTargets oid assignments stored) = assignment_ident oid ` set assignments - set stored"
  by (auto simp: missingAssignmentTargets_def)

text \<open>
  C14: The targets of an action. A create goes exactly to the assigned venues that have no
  submission for the order (or to the default venue if there is neither an assignment nor a
  submission), a modify and a cancel exactly to the venues that have one; no venue is listed twice,
  and the list is in the order of \<^verbatim>\<open>compareIdentifiers\<close>. The venues a create is replayed to are the
  assigned ones without a submission.\<close>

theorem targets_exact:
  "distinct (resolveOrderTargets oid assignments stored ty dflt) \<and>
   sorted_wrt (\<lambda>a b. compareIdentifiers a b = - 1) (resolveOrderTargets oid assignments stored ty dflt) \<and>
   set (resolveOrderTargets oid assignments stored ty dflt) =
     (let assigned = assignment_ident oid ` set assignments;
          fallback = (if assignments = [] \<and> stored = [] then assignment_ident oid ` set_option dflt else {})
      in case ty of
           ActionCreate \<Rightarrow> assigned - set stored \<union> fallback
         | ActionModify \<Rightarrow> set stored
         | ActionCancel \<Rightarrow> set stored
         | ActionNone \<Rightarrow> assigned \<union> set stored \<union> fallback) \<and>
   set (missingAssignmentTargets oid assignments stored) = assignment_ident oid ` set assignments - set stored"
proof -
  let ?t = "resolveOrderTargets oid assignments stored ty dflt"
  have dist: "distinct ?t"
    unfolding resolveOrderTargets_eq by (simp add: full_target_map(1) distinct_map_filter)
  then have "distinct (map ident_key ?t)" by (simp add: distinct_map inj_on_def ident_key_inj)
  moreover have "sorted (map ident_key ?t)" by (simp add: resolveOrderTargets_eq)
  ultimately have "sorted_wrt (<) (map ident_key ?t)" by (simp add: strict_sorted_iff)
  then have "sorted_wrt (\<lambda>a b. compareIdentifiers a b = - 1) ?t"
    unfolding sorted_wrt_map by (rule sorted_wrt_mono_rel [rotated]) (auto simp: compareIdentifiers_key)
  with dist show ?thesis by (simp add: set_resolveOrderTargets set_missingAssignmentTargets)
qed

section \<open>Recording events\<close>

definition event_key :: "OrderId \<Rightarrow> tc_BotEvent \<Rightarrow> string \<times> int \<times> int" where
  "event_key oid e = (Hex oid, uint (BotEventID oid), to_UnixMilli (ev_CreatedAt e))"

definition logged_keys :: "Storage \<Rightarrow> (string \<times> int \<times> int) set" where
  "logged_keys s = be_key ` set (db_botevents_log (sg_db s))"

definition event_keys :: "Storage \<Rightarrow> (string \<times> int \<times> int) set" where
  "event_keys s = be_key ` set (db_botevents (sg_db s))"

declare record_events.simps(2) [simp del]

lemmas key_sets = logged_keys_def event_keys_def event_key_def be_key_def

lemma RecordThreeCommasBotEventLog_effect:
  obtains r s' where "RecordThreeCommasBotEventLog now oid e s = (r, s')" and "\<And>m. r \<noteq> Inl (StoreErr m)"
    and "logged_keys s' = insert (event_key oid e) (logged_keys s)" and "event_keys s' = event_keys s"
    and "event_key oid e \<in> logged_keys s \<Longrightarrow> s' = s"
proof -
  obtain r s' where eq: "RecordThreeCommasBotEventLog now oid e s = (r, s')" by fastforce
  then have "r \<noteq> Inl (StoreErr m)" "logged_keys s' = insert (event_key oid e) (logged_keys s)"
    "event_keys s' = event_keys s" "event_key oid e \<in> logged_keys s \<Longrightarrow> s' = s" for m
    by (auto simp: RecordThreeCommasBotEventLog_def InsertThreeCommasBotEventLog_def Let_def key_sets split: if_splits)
  with eq show thesis by (rule that)
qed

lemma RecordThreeCommasBotEvent_effect:
  obtains "event_key oid e \<in> event_keys s" and "RecordThreeCommasBotEvent now oid e s = (Inl ErrNoRows, s)"
  | i s' where "event_key oid e \<notin> event_keys s" and "RecordThreeCommasBotEvent now oid e s = (Inr i, s')"
      and "logged_keys s' = logged_keys s" and "event_keys s' = insert (event_key oid e) (event_keys s)"
proof (cases "event_key oid e \<in> event_keys s")
  case True
  then show thesis
    by (intro that(1)) (auto simp: RecordThreeCommasBotEvent_def InsertThreeCommasBotEvent_def Let_def key_sets)
next
  case False
  obtain r s' where eq: "RecordThreeCommasBotEvent now oid e s = (r, s')" by fastforce
  with False have "\<exists>i. r = Inr i" and "logged_keys s' = logged_keys s"
    and "event_keys s' = insert (event_key oid e) (event_keys s)"
    by (auto simp: RecordThreeCommasBotEvent_def InsertThreeCommasBotEvent_def Let_def key_sets split: if_splits)
  with False eq show thesis by (auto intro: that(2))
qed

text \<open>Recording never fails, leaves every event recorded, and sees only orders of events acted upon.\<close>

text \<open>The events that are acted upon and that the storage does not have yet.\<close>

definition newly_acted_on :: "(tc_BotEvent \<Rightarrow> uint32) \<Rightarrow> WorkKey \<Rightarrow> Storage \<Rightarrow> tc_BotEvent \<Rightarrow> bool" where
  "newly_acted_on fp wi s e \<longleftrightarrow> acted_on e \<and> event_key (event_oid fp wi e) e \<notin> event_keys s"

lemma record_events_effect:
  assumes "storage_ok s"
  obtains seen' s' where "record_events fp now wi events seen s = (Inr seen', s')" and "storage_ok s'"
    and "event_keys s \<subseteq> event_keys s'" and "logged_keys s \<subseteq> logged_keys s'"
    and "\<forall>e \<in> set events. event_key (event_oid fp wi e) e \<in> logged_keys s'"
    and "\<forall>e \<in> set events. acted_on e \<longrightarrow> event_key (event_oid fp wi e) e \<in> event_keys s'"
    and "snd ` set seen' \<subseteq> snd ` set seen \<union> event_oid fp wi ` {e \<in> set events. newly_acted_on fp wi s e}"
  using assms
proof (induction events arbitrary: seen s thesis)
  case Nil
  then show ?case by simp
next
  case (Cons e es)
  let ?oid = "event_oid fp wi e"
  obtain r s1 where l: "RecordThreeCommasBotEventLog now ?oid e s = (r, s1)" "\<And>m. r \<noteq> Inl (StoreErr m)"
    "logged_keys s1 = insert (event_key ?oid e) (logged_keys s)" "event_keys s1 = event_keys s"
    using RecordThreeCommasBotEventLog_effect [of now ?oid e s] by metis
  have s1: "storage_ok s1" using RecordThreeCommasBotEventLog_ok [OF Cons.prems(2), of now ?oid e] l(1) by simp
  have step: "record_events fp now wi (e # es) seen s =
      (if acted_on e then (case RecordThreeCommasBotEvent now ?oid e s1 of
          (Inl ErrNoRows, s) \<Rightarrow> record_events fp now wi es seen s
        | (Inl err, s) \<Rightarrow> (Inl (RecordBotEvent err), s)
        | (Inr i, s) \<Rightarrow> record_events fp now wi es (if i \<noteq> 0 then AList.update (BotEventID ?oid) ?oid seen else seen) s)
       else record_events fp now wi es seen s1)"
    using l(1,2) by (auto simp: record_events.simps(2) Let_def split: sum.split store_error.split)
  have more: thesis
    if t: "record_events fp now wi (e # es) seen s = record_events fp now wi es seen1 s2" "storage_ok s2"
      "event_keys s1 \<subseteq> event_keys s2" "logged_keys s1 = logged_keys s2" "acted_on e \<Longrightarrow> event_key ?oid e \<in> event_keys s2"
      "snd ` set seen1 \<subseteq> snd ` set seen \<union> (if newly_acted_on fp wi s e then {?oid} else {})" for seen1 s2
  proof (rule Cons.IH [OF _ t(2), of seen1])
    fix seen' s'
    assume a: "record_events fp now wi es seen1 s2 = (Inr seen', s')" "storage_ok s'"
      "event_keys s2 \<subseteq> event_keys s'" "logged_keys s2 \<subseteq> logged_keys s'"
      "\<forall>e \<in> set es. event_key (event_oid fp wi e) e \<in> logged_keys s'"
      "\<forall>e \<in> set es. acted_on e \<longrightarrow> event_key (event_oid fp wi e) e \<in> event_keys s'"
      "snd ` set seen' \<subseteq> snd ` set seen1 \<union> event_oid fp wi ` {e \<in> set es. newly_acted_on fp wi s2 e}"
    let ?new = "event_oid fp wi ` {x \<in> set (e # es). newly_acted_on fp wi s x}"
    have "newly_acted_on fp wi s x" if "newly_acted_on fp wi s2 x" for x
      using that t(3) l(4) by (auto simp: newly_acted_on_def)
    then have "event_oid fp wi ` {x \<in> set es. newly_acted_on fp wi s2 x} \<subseteq> ?new" by auto
    moreover have "snd ` set seen1 \<subseteq> snd ` set seen \<union> ?new"
      by (rule order_trans [OF t(6)]) auto
    ultimately have "snd ` set seen' \<subseteq> snd ` set seen \<union> ?new"
      by (intro order_trans [OF a(7)] Un_least) auto
    then show thesis
      by (rule Cons.prems(1) [of seen' s', rotated 6]) (use a t l(3,4) in auto)
  qed
  show ?case
  proof (cases "acted_on e")
    case False
    then show ?thesis by (intro more [of seen s1]) (simp_all add: step s1)
  next
    case True
    show ?thesis
    proof (cases rule: RecordThreeCommasBotEvent_effect [of ?oid e s1 now])
      case 1
      with True show ?thesis by (intro more [of seen s1]) (auto simp: step s1)
    next
      case (2 i s2)
      have "storage_ok s2" using RecordThreeCommasBotEvent_ok [OF s1, of now ?oid e] 2(2) by simp
      with True 2 show ?thesis
        by (intro more [of "if i \<noteq> 0 then AList.update (BotEventID ?oid) ?oid seen else seen" s2])
          (auto simp: step newly_acted_on_def l(4) dest: set_update_subset)
    qed
  qed
qed

lemma record_events_new:
  assumes "storage_ok s"
  obtains seen s' where "record_events fp now wi events [] s = (Inr seen, s')" and "storage_ok s'"
    and "\<forall>e \<in> set events. event_key (event_oid fp wi e) e \<in> logged_keys s'"
    and "\<forall>e \<in> set events. acted_on e \<longrightarrow> event_key (event_oid fp wi e) e \<in> event_keys s'"
    and "snd ` set seen \<subseteq> event_oid fp wi ` {e \<in> set events. newly_acted_on fp wi s e}"
  by (rule record_events_effect [OF assms, of fp now wi events "[]"]) (rule that, simp_all)

lemma record_events_again:
  assumes "\<forall>e \<in> set events. event_key (event_oid fp wi e) e \<in> logged_keys s"
    and "\<forall>e \<in> set events. acted_on e \<longrightarrow> event_key (event_oid fp wi e) e \<in> event_keys s"
  shows "record_events fp now wi events seen s = (Inr seen, s)"
  using assms
proof (induction events)
  case (Cons e es)
  let ?oid = "event_oid fp wi e"
  obtain r where "RecordThreeCommasBotEventLog now ?oid e s = (r, s)" "\<And>m. r \<noteq> Inl (StoreErr m)"
    using RecordThreeCommasBotEventLog_effect [of now ?oid e s] Cons.prems(1) by (metis list.set_intros(1))
  moreover have "RecordThreeCommasBotEvent now ?oid e s = (Inl ErrNoRows, s)" if "acted_on e"
    by (cases rule: RecordThreeCommasBotEvent_effect [of ?oid e s now]) (use that Cons.prems(2) in auto)
  ultimately show ?case
    using Cons by (auto simp: record_events.simps(2) Let_def split: sum.split store_error.split)
qed simp

section \<open>What emitting changes\<close>

text \<open>Scaling only adds audits to the storage.\<close>

definition only_audits :: "Storage \<Rightarrow> Storage \<Rightarrow> bool" where
  "only_audits s s' \<longleftrightarrow> storage_ok s' \<and> (\<exists>rows. sg_db s' = (sg_db s)\<lparr>db_scaled_orders := rows\<rparr>)"

lemma only_audits_refl: "storage_ok s \<Longrightarrow> only_audits s s"
  by (auto simp: only_audits_def intro!: exI [of _ "db_scaled_orders (sg_db s)"])

lemma only_audits_trans: "only_audits s t \<Longrightarrow> only_audits t u \<Longrightarrow> only_audits s u"
  by (auto simp: only_audits_def)

lemma RecordScaledOrder_only_audits:
  assumes "storage_ok s" and "RecordScaledOrder now p s = (r, s')"
  shows "only_audits s s'"
proof -
  have ins: "only_audits s (snd (InsertScaledOrderAudit now ap s))" for ap
  proof (cases rule: InsertScaledOrderAudit_cases [OF assms(1), of ap now])
    case (1 vw)
    then show ?thesis by (simp add: only_audits_refl [OF assms(1)])
  next
    case (2 vw t)
    with InsertScaledOrderAudit_ok [OF assms(1), of now ap] show ?thesis
      unfolding only_audits_def by (metis snd_conv)
  qed
  show ?thesis
    using assms ins only_audits_refl [OF assms(1)]
    by (auto simp: RecordScaledOrder_eq Let_def map_prod_def split: sum.splits prod.splits) (metis snd_conv)+
qed

lemma Scale_only_audits:
  assumes "storage_ok s" and "Scale resolve mx now req order s m = Some (out, order', s', m')"
  shows "only_audits s s'"
proof (cases rule: Scale_cases [of resolve mx now req order s m])
  case (3 c m'' px k sz skip r t)
  from RecordScaledOrder_only_audits [OF assms(1) 3(5)] have "only_audits s t" .
  moreover have "t = s'" using assms(2) unfolding 3(6) by simp
  ultimately show ?thesis by simp
qed (use assms only_audits_refl [OF assms(1)] in simp_all)

text \<open>
  \<open>emits P w w'\<close>: from \<open>w\<close> to \<open>w'\<close> only audits are added, work that satisfies \<open>P\<close> is emitted, and
  the limiter is left alone.
\<close>

definition emits :: "(OrderWork \<Rightarrow> bool) \<Rightarrow> 'm world \<Rightarrow> 'm world \<Rightarrow> bool" where
  "emits P w w' \<longleftrightarrow> only_audits (ew_store w) (ew_store w') \<and> ew_limiter w' = ew_limiter w \<and>
     (\<exists>works. ew_emitted w' = ew_emitted w @ works \<and> list_all P works)"

lemma emits_refl: "storage_ok (ew_store w) \<Longrightarrow> emits P w w"
  by (simp add: emits_def only_audits_refl)

lemma emits_trans: "emits P w w' \<Longrightarrow> emits P w' w'' \<Longrightarrow> emits P w w''"
  by (auto simp: emits_def intro: only_audits_trans)

lemma emits_mono: "emits P w w' \<Longrightarrow> (\<And>wk. P wk \<Longrightarrow> Q wk) \<Longrightarrow> emits Q w w'"
  unfolding emits_def by (metis list.pred_mono_strong)

lemma emits_ok: "emits P w w' \<Longrightarrow> storage_ok (ew_store w')"
  by (simp add: emits_def only_audits_def)

lemma scale_request_store:
  assumes "storage_ok (ew_store w)" and "scale_request sc now ident lt order put w = Some (r, w')"
  shows "only_audits (ew_store w) (ew_store w') \<and> ew_emitted w' = ew_emitted w \<and> ew_limiter w' = ew_limiter w \<and>
    (case r of Inr (a, res, True, lt') \<Rightarrow> \<exists>ord. a = put ord | _ \<Rightarrow> True)"
  using assms Scale_only_audits [OF assms(1)]
  by (auto simp: scale_request_def Let_def split: option.splits prod.splits scale_outcome.splits)

lemma applyScaling_store:
  assumes "storage_ok (ew_store w)" and "applyScaling e now ident lt action w = Some (r, w')"
  shows "only_audits (ew_store w) (ew_store w') \<and> ew_emitted w' = ew_emitted w \<and> ew_limiter w' = ew_limiter w \<and>
    (case r of Inr (a, res, True, lt') \<Rightarrow> ac_Type a = ac_Type action | _ \<Rightarrow> True)"
proof -
  have sr: ?thesis if "scale_request sc now ident lt ord put w = Some (r, w')" "\<And>x. ac_Type (put x) = ac_Type action" for sc ord put
    using scale_request_store [OF assms(1) that(1)] that(2) by (auto split: sum.splits prod.splits bool.splits)
  show ?thesis
  proof (cases "en_scaler e")
    case None
    with assms(2) only_audits_refl [OF assms(1)] show ?thesis by (auto simp: applyScaling_def)
  next
    case (Some sc)
    show ?thesis
    proof (cases "ac_Type action")
      case ActionCreate
      then have "scale_request sc now ident lt (ac_Create action) (\<lambda>x. action\<lparr>ac_Create := x\<rparr>) w = Some (r, w')"
        using assms(2) Some by (simp add: applyScaling_def)
      then show ?thesis by (rule sr) simp
    next
      case ActionModify
      then have "scale_request sc now ident lt (mo_Order (ac_Modify action))
          (\<lambda>x. action\<lparr>ac_Modify := (ac_Modify action)\<lparr>mo_Order := x\<rparr>\<rparr>) w = Some (r, w')"
        using assms(2) Some by (simp add: applyScaling_def)
      then show ?thesis by (rule sr) simp
    qed (use assms(2) Some only_audits_refl [OF assms(1)] in \<open>auto simp: applyScaling_def\<close>)
  qed
qed

text \<open>What a piece of work emitted for a target looks like.\<close>

definition work_for :: "OrderId \<Rightarrow> BotEvent \<Rightarrow> ActionType \<Rightarrow> OrderWork \<Rightarrow> bool" where
  "work_for oid lt ty wk \<longleftrightarrow> wk_OrderId wk = oid \<and> ac_Type (wk_Action wk) = ty \<and>
     ev_OrderType (tc_event (wk_BotEvent wk)) = ev_OrderType (tc_event lt)"

lemma emit_target_emits:
  assumes "storage_ok (ew_store w)" and "emit_target e now oid (Some lt) action ident w = Some (r, w')"
  shows "emits (\<lambda>wk. work_for oid lt (ac_Type action) wk \<and> wk_Identifier wk = ident) w w'"
proof -
  obtain x w1 where x: "applyScaling e now ident lt action w = Some (x, w1)"
    using assms(2) by (auto simp: emit_target_def split: option.splits)
  note st = applyScaling_store [OF assms(1) x]
  show ?thesis
    using assms(2) st
    by (auto simp: emit_target_def x emits_def work_for_def emitted_event_def Let_def
        split: sum.splits prod.splits if_splits option.splits)
qed

lemma emit_targets_emits:
  assumes "storage_ok (ew_store w)" and "emit_targets e now oid (Some lt) action idents w = Some (r, w')"
  shows "emits (\<lambda>wk. work_for oid lt (ac_Type action) wk \<and> wk_Identifier wk \<in> set idents) w w'"
  using assms
proof (induction idents arbitrary: w)
  case Nil
  then show ?case by (simp add: emits_refl)
next
  case (Cons ident idents)
  obtain r1 w1 where 1: "emit_target e now oid (Some lt) action ident w = Some (r1, w1)"
    using Cons.prems(2) by (auto split: option.splits)
  have e1: "emits (\<lambda>wk. work_for oid lt (ac_Type action) wk \<and> wk_Identifier wk \<in> set (ident # idents)) w w1"
    by (rule emits_mono [OF emit_target_emits [OF Cons.prems(1) 1]]) simp
  show ?case
  proof (cases r1)
    case None
    then have "emit_targets e now oid (Some lt) action idents w1 = Some (r, w')" using Cons.prems(2) 1 by simp
    from Cons.IH [OF emits_ok [OF e1] this] show ?thesis
      by (intro emits_trans [OF e1]) (auto elim: emits_mono)
  qed (use Cons.prems(2) 1 e1 in simp)
qed

section \<open>Plans\<close>

definition order_assignments :: "OrderId \<Rightarrow> db \<Rightarrow> VenueAssignment list" where
  "order_assignments oid d = (case ListVenuesForBot (BotID oid) d of Inl _ \<Rightarrow> [] | Inr vs \<Rightarrow> vs)"

text \<open>The venues an order was submitted to, under the bot's assignments.\<close>

definition order_submissions :: "OrderId \<Rightarrow> db \<Rightarrow> OrderIdentifier list" where
  "order_submissions oid d =
     normalizeSubmissionIdentifiers (order_assignments oid d) (ListSubmissionIdentifiersForOrder oid d)"

definition target_ok :: "OrderId \<Rightarrow> db \<Rightarrow> ActionType \<Rightarrow> OrderIdentifier \<Rightarrow> bool" where
  "target_ok oid d ty ident =
     (case ty of
        ActionCreate \<Rightarrow> ident \<in> assignment_ident oid ` set (order_assignments oid d) \<and> ident \<notin> set (order_submissions oid d)
      | ActionModify \<Rightarrow> ident \<in> set (order_submissions oid d)
      | ActionCancel \<Rightarrow> ident \<in> set (order_submissions oid d)
      | ActionNone \<Rightarrow> False)"

definition fills_known :: "DealSnapshot option \<Rightarrow> bool" where
  "fills_known snapshot =
     (case snapshot of
        None \<Rightarrow> False
      | Some sn \<Rightarrow> 1 < length (sn_ActiveTakeProfits sn) \<or> \<not> NetQty (sn_Position sn) \<le> qtyTolerance)"

lemma adjust_type:
  "adjustActionWithTracker cur oid lt a sn sk = (a', True) \<Longrightarrow> ac_Type a \<noteq> ActionNone \<Longrightarrow> ac_Type a' = ac_Type a"
  by (auto simp: adjustActionWithTracker_def Let_def split: option.splits if_splits ActionType.splits)

lemma adjust_take_profit:
  "adjustActionWithTracker cur oid lt a sn sk = (a', True) \<Longrightarrow>
   ev_OrderType (tc_event lt) = DealOrderTypeTakeProfit \<Longrightarrow> fills_known sn"
  by (auto simp: adjustActionWithTracker_def Let_def fills_known_def split: option.splits if_splits)

text \<open>What a plan of \<^verbatim>\<open>plan_order\<close> looks like.\<close>

definition plan_ok :: "OrderId \<Rightarrow> db \<Rightarrow> emissionPlan \<Rightarrow> bool" where
  "plan_ok oid d plan \<longleftrightarrow> pl_latest plan \<noteq> None \<and> ac_Type (pl_action plan) \<noteq> ActionNone \<and>
     (\<forall>ident \<in> set (pl_targets plan). target_ok oid d (ac_Type (pl_action plan)) ident)"

lemma reduceOrderEvents_None: "reduceOrderEvents cur oid h d = Inr (a, None, b) \<Longrightarrow> \<not> b"
  by (auto simp: reduceOrderEvents_def Let_def split: sum.splits if_splits ActionType.splits)

text \<open>The plans, once the history has been reduced to an action and the latest event.\<close>

definition order_plans ::
  "string \<Rightarrow> OrderId \<Rightarrow> VenueAssignment list \<Rightarrow> OrderIdentifier list \<Rightarrow> VenueAssignment option \<Rightarrow> BotEvent \<Rightarrow> Action \<times> bool
    \<Rightarrow> emissionPlan list" where
  "order_plans cur oid assignments stored dflt lt adj =
     (let targets = resolveOrderTargets oid assignments stored (ac_Type (fst adj)) dflt;
          missing = missingAssignmentTargets oid assignments stored
      in (if ac_Type (fst adj) \<noteq> ActionNone \<and> snd adj \<and> targets \<noteq> []
          then [\<lparr>pl_action = fst adj, pl_targets = targets, pl_latest = Some lt, pl_skipExisting = False\<rparr>] else []) @
         (if stored \<noteq> [] \<and> missing \<noteq> [] \<and> ev_Status (tc_event lt) = Active
          then [\<lparr>pl_action = zero_Action\<lparr>ac_Type := ActionCreate, ac_Create := ToCreateOrderRequest cur lt oid\<rparr>,
                 pl_targets = missing, pl_latest = Some lt, pl_skipExisting = True\<rparr>] else []))"

definition default_alias :: "OrderId \<Rightarrow> db \<Rightarrow> VenueAssignment option" where
  "default_alias oid d = (if order_assignments oid d = [] \<and> order_submissions oid d = []
     then (case ResolveDefaultAlias d of Inl _ \<Rightarrow> None | Inr a \<Rightarrow> Some a) else None)"

lemma plan_order_eq:
  "plan_order cur sn oid d =
     (case reduceOrderEvents cur oid (order_submissions oid d \<noteq> []) d of
        Inl err \<Rightarrow> Inl (ReduceOrder (BotEventID oid) err)
      | Inr (action, None, b) \<Rightarrow> Inr []
      | Inr (action, Some lt, b) \<Rightarrow>
          Inr (order_plans cur oid (order_assignments oid d) (order_submissions oid d) (default_alias oid d) lt
            (adjustActionWithTracker cur oid lt action sn False)))"
proof (cases "reduceOrderEvents cur oid (order_submissions oid d \<noteq> []) d")
  case (Inl err)
  then show ?thesis
    unfolding plan_order_def Let_def order_assignments_def [symmetric] order_submissions_def [symmetric] by simp
next
  case (Inr x)
  obtain action ltopt b where x: "x = (action, ltopt, b)" by (cases x)
  show ?thesis
  proof (cases ltopt)
    case None
    then have "\<not> b" using reduceOrderEvents_None Inr x by blast
    then show ?thesis
      using Inr x None
      unfolding plan_order_def Let_def order_assignments_def [symmetric] order_submissions_def [symmetric] by simp
  next
    case (Some lt)
    then show ?thesis
      using Inr x
      unfolding plan_order_def Let_def order_assignments_def [symmetric] order_submissions_def [symmetric]
        default_alias_def [symmetric]
      by (auto simp: order_plans_def Let_def split: prod.split)
  qed
qed

lemma plan_order_ok:
  assumes "db_ok d" and "plan_order cur sn oid d = Inr plans"
  shows "\<forall>plan \<in> set plans. plan_ok oid d plan"
proof -
  let ?as = "order_assignments oid d" and ?st = "order_submissions oid d"
  obtain vs where "ListVenuesForBot (BotID oid) d = Inr vs" "vs \<noteq> []"
    using assms(1) by (rule ListVenuesForBot_total)
  then have as_ne: "?as \<noteq> []" by (simp add: order_assignments_def)
  have create: "target_ok oid d ActionCreate i" if "i \<in> assignment_ident oid ` set ?as - set ?st" for i
    using that by (simp add: target_ok_def)
  have tg: "target_ok oid d ty i" if "i \<in> set (resolveOrderTargets oid ?as ?st ty dflt)" "ty \<noteq> ActionNone" for ty i dflt
    using that as_ne by (cases ty) (auto simp: set_resolveOrderTargets target_ok_def)
  have ms: "target_ok oid d ActionCreate i" if "i \<in> set (missingAssignmentTargets oid ?as ?st)" for i
    using that by (intro create) (simp add: set_missingAssignmentTargets)
  show ?thesis
    using assms(2) ms tg
    by (auto simp: plan_order_eq order_plans_def Let_def plan_ok_def zero_Action_def
        split: sum.splits option.splits if_splits)
qed

section \<open>Every piece of work is justified\<close>

text \<open>What the engine reads of the storage does not depend on the audits.\<close>

lemma reads_ignore_audits [simp]:
  fixes rows d
  defines "d' \<equiv> d\<lparr>db_scaled_orders := rows\<rparr>"
  shows "order_assignments oid d' = order_assignments oid d" and "order_submissions oid d' = order_submissions oid d"
    and "default_alias oid d' = default_alias oid d" and "reduceOrderEvents cur oid h d' = reduceOrderEvents cur oid h d"
proof -
  have v: "GetVenue v d' = GetVenue v d" "findPrimaryHyperliquidVenueLocked d' = findPrimaryHyperliquidVenueLocked d" for v
    by (simp_all add: d'_def GetVenue_def findPrimaryHyperliquidVenueLocked_def ListVenues_def)
  have dv: "defaultVenueAssignmentLocked d' = defaultVenueAssignmentLocked d"
    unfolding defaultVenueAssignmentLocked_def v ..
  have ra: "resolve_assignments d' xs = resolve_assignments d xs" for xs
    by (induction xs) (auto simp: v split: sum.split store_error.split)
  have lb: "ListBotVenueAssignments b d' = ListBotVenueAssignments b d" for b
    by (simp add: d'_def ListBotVenueAssignments_def)
  have lv: "ListVenuesForBot b d' = ListVenuesForBot b d" for b
    unfolding ListVenuesForBot_def ra lb dv ..
  show "order_assignments oid d' = order_assignments oid d" by (simp add: order_assignments_def lv)
  moreover show sub: "order_submissions oid d' = order_submissions oid d"
    unfolding order_submissions_def ListSubmissionIdentifiersForOrder_def order_assignments_def lv by (simp add: d'_def)
  ultimately show "default_alias oid d' = default_alias oid d"
    by (simp add: default_alias_def ResolveDefaultAlias_def dv)
  have "ListEventsForOrder b dl ev d' = ListEventsForOrder b dl ev d" for b dl ev
    by (simp add: d'_def ListEventsForOrder_def ListThreeCommasBotEventsForOrder_def)
  then show "reduceOrderEvents cur oid h d' = reduceOrderEvents cur oid h d"
    unfolding reduceOrderEvents_def by presburger
qed

lemma plan_order_audits:
  assumes "only_audits s s'"
  shows "plan_order cur sn oid (sg_db s') = plan_order cur sn oid (sg_db s)"
    and "target_ok oid (sg_db s') ty i = target_ok oid (sg_db s) ty i"
proof -
  obtain rows where d: "sg_db s' = (sg_db s)\<lparr>db_scaled_orders := rows\<rparr>" using assms by (auto simp: only_audits_def)
  show "plan_order cur sn oid (sg_db s') = plan_order cur sn oid (sg_db s)"
    unfolding plan_order_eq d reads_ignore_audits ..
  show "target_ok oid (sg_db s') ty i = target_ok oid (sg_db s) ty i"
    unfolding target_ok_def d reads_ignore_audits ..
qed

definition work_ok :: "db \<Rightarrow> DealSnapshot option \<Rightarrow> OrderWork \<Rightarrow> bool" where
  "work_ok d sn wk \<longleftrightarrow> target_ok (wk_OrderId wk) d (ac_Type (wk_Action wk)) (wk_Identifier wk) \<and>
     (ev_OrderType (tc_event (wk_BotEvent wk)) = DealOrderTypeTakeProfit \<longrightarrow> fills_known sn)"

lemma emit_plan_emits:
  assumes "storage_ok (ew_store w)" and "plan_ok oid d plan"
    and "emit_plan e now cur oid sn plan w = Some (r, w')"
  shows "emits (\<lambda>wk. wk_OrderId wk = oid \<and> work_ok d sn wk) w w'"
proof -
  obtain lt where lt: "pl_latest plan = Some lt" using assms(2) by (auto simp: plan_ok_def)
  obtain a b where adj: "adjustActionWithTracker cur oid lt (pl_action plan) sn (pl_skipExisting plan) = (a, b)" by fastforce
  show ?thesis
  proof (cases "b \<and> ac_Type a \<noteq> ActionNone")
    case False
    then show ?thesis using assms(1,3) by (auto simp: emit_plan_def lt adj emits_refl)
  next
    case True
    then have r: "emit_targets e now oid (Some lt) a (pl_targets plan) w = Some (r, w')"
      using assms(3) by (simp add: emit_plan_def lt adj)
    have ty: "ac_Type a = ac_Type (pl_action plan)"
      using adjust_type [of cur oid lt "pl_action plan" sn "pl_skipExisting plan" a] adj True assms(2)
      by (simp add: plan_ok_def)
    have tp: "ev_OrderType (tc_event lt) = DealOrderTypeTakeProfit \<Longrightarrow> fills_known sn"
      using adjust_take_profit [of cur oid lt "pl_action plan" sn "pl_skipExisting plan" a] adj True by simp
    show ?thesis
      by (rule emits_mono [OF emit_targets_emits [OF assms(1) r]])
        (use assms(2) tp in \<open>auto simp: work_for_def work_ok_def plan_ok_def ty\<close>)
  qed
qed

lemma emit_plans_emits:
  assumes "storage_ok (ew_store w)" and "\<forall>plan \<in> set plans. plan_ok oid d plan"
    and "emit_plans e now cur oid sn plans w = Some (r, w')"
  shows "emits (\<lambda>wk. wk_OrderId wk = oid \<and> work_ok d sn wk) w w'"
  using assms
proof (induction plans arbitrary: w)
  case Nil
  then show ?case by (simp add: emits_refl)
next
  case (Cons plan plans)
  obtain r1 w1 where 1: "emit_plan e now cur oid sn plan w = Some (r1, w1)"
    using Cons.prems(3) by (auto split: option.splits)
  have e1: "emits (\<lambda>wk. wk_OrderId wk = oid \<and> work_ok d sn wk) w w1"
    by (rule emit_plan_emits [OF Cons.prems(1) _ 1]) (use Cons.prems(2) in simp)
  show ?case
  proof (cases r1)
    case None
    then have "emit_plans e now cur oid sn plans w1 = Some (r, w')" using Cons.prems(3) 1 by simp
    with Cons.IH [OF emits_ok [OF e1]] Cons.prems(2) show ?thesis by (auto intro: emits_trans [OF e1])
  qed (use Cons.prems(3) 1 e1 in simp)
qed

lemma process_orders_emits:
  assumes "storage_ok (ew_store w)" and "process_orders e now cur sn oids w = Some (r, w')"
  shows "emits (\<lambda>wk. wk_OrderId wk \<in> set oids \<and> work_ok (sg_db (ew_store w)) sn wk) w w'"
  using assms
proof (induction oids arbitrary: w)
  case Nil
  then show ?case by (simp add: emits_refl)
next
  case (Cons oid oids)
  let ?P = "\<lambda>wk. wk_OrderId wk \<in> set (oid # oids) \<and> work_ok (sg_db (ew_store w)) sn wk"
  show ?case
  proof (cases "plan_order cur sn oid (sg_db (ew_store w))")
    case (Inl err)
    then show ?thesis using Cons.prems by (simp add: emits_refl)
  next
    case (Inr plans)
    obtain r1 w1 where 1: "emit_plans e now cur oid sn plans w = Some (r1, w1)"
      using Cons.prems(2) Inr by (auto split: option.splits)
    have ok: "\<forall>plan \<in> set plans. plan_ok oid (sg_db (ew_store w)) plan"
      by (rule plan_order_ok [OF _ Inr]) (use Cons.prems(1) in \<open>simp add: storage_ok_def\<close>)
    have e1: "emits ?P w w1"
      by (rule emits_mono [OF emit_plans_emits [OF Cons.prems(1) ok 1]]) simp
    show ?thesis
    proof (cases r1)
      case None
      then have "process_orders e now cur sn oids w1 = Some (r, w')" using Cons.prems(2) Inr 1 by simp
      from Cons.IH [OF emits_ok [OF e1] this] have "emits ?P w1 w'"
        by (rule emits_mono) (use e1 plan_order_audits(2) in \<open>auto simp: work_ok_def emits_def\<close>)
      then show ?thesis by (rule emits_trans [OF e1])
    qed (use Cons.prems(2) Inr 1 e1 in simp)
  qed
qed

text \<open>
  C2: Everything the engine emits for a deal is justified. Each piece of work belongs to an order one of whose
  events is acted upon and was not recorded before the run, and is afterwards; a create goes to a venue the bot is assigned to and the order was
  not submitted to, a modify or a cancel to a venue it was submitted to, and nothing is emitted
  without an action; work for a take profit is emitted only if the fills of the deal are known and
  either the position is not flat or several take profits are active.\<close>

theorem emitted_work_is_justified:
  assumes "storage_init s0" and "storage_step\<^sup>*\<^sup>* s0 (ew_store w)" and "\<And>xs. set (iter xs) \<subseteq> set xs"
    and "processDeal fingerprint iter e now wi currency events w = Some (r, w')"
  shows "\<exists>works. ew_emitted w' = ew_emitted w @ works \<and>
    list_all (\<lambda>wk. (\<exists>ev \<in> set events. wk_OrderId wk = event_oid fingerprint wi ev \<and> acted_on ev \<and>
        event_key (wk_OrderId wk) ev \<notin> event_keys (ew_store w) \<and> event_key (wk_OrderId wk) ev \<in> event_keys (ew_store w')) \<and>
      target_ok (wk_OrderId wk) (sg_db (ew_store w')) (ac_Type (wk_Action wk)) (wk_Identifier wk) \<and>
      (ev_OrderType (tc_event (wk_BotEvent wk)) = DealOrderTypeTakeProfit \<longrightarrow> fills_known (deal_snapshot_of w wi))) works"
proof -
  have s: "storage_ok (ew_store w)" by (rule storage_sys.inv_reachable [OF assms(1,2)])
  let ?new = "{ev \<in> set events. newly_acted_on fingerprint wi (ew_store w) ev}"
  obtain seen s' where rec: "record_events fingerprint now wi events [] (ew_store w) = (Inr seen, s')" "storage_ok s'"
      "\<forall>ev \<in> set events. event_key (event_oid fingerprint wi ev) ev \<in> logged_keys s'"
      "\<forall>ev \<in> set events. acted_on ev \<longrightarrow> event_key (event_oid fingerprint wi ev) ev \<in> event_keys s'"
      "snd ` set seen \<subseteq> event_oid fingerprint wi ` ?new"
    by (rule record_events_new [OF s])
  let ?sn = "deal_snapshot_of w wi"
  have "process_orders e now currency ?sn (iter (map snd seen)) (w\<lparr>ew_store := s'\<rparr>) = Some (r, w')"
    using assms(4) rec(1) by (simp add: processDeal_def)
  from process_orders_emits [OF _ this] rec(2)
  have "emits (\<lambda>wk. wk_OrderId wk \<in> set (iter (map snd seen)) \<and> work_ok (sg_db s') ?sn wk) (w\<lparr>ew_store := s'\<rparr>) w'"
    by simp
  then obtain works where 1: "ew_emitted w' = ew_emitted w @ works" and only: "only_audits s' (ew_store w')"
      and works: "\<forall>wk \<in> set works. wk_OrderId wk \<in> set (iter (map snd seen)) \<and> work_ok (sg_db s') ?sn wk"
    by (auto simp: emits_def list_all_iff)
  have keys: "event_keys (ew_store w') = event_keys s'" using only by (auto simp: only_audits_def event_keys_def)
  have "\<exists>ev \<in> set events. oid = event_oid fingerprint wi ev \<and> acted_on ev \<and>
      event_key oid ev \<notin> event_keys (ew_store w) \<and> event_key oid ev \<in> event_keys (ew_store w')"
    if "oid \<in> set (iter (map snd seen))" for oid
    using that assms(3) [of "map snd seen"] rec(4,5) unfolding keys by (force simp: newly_acted_on_def)
  with 1 works show ?thesis
    using plan_order_audits(2) [OF only] by (intro exI [of _ works]) (auto simp: list_all_iff work_ok_def)
qed

lemma processDeal_limiter:
  assumes "storage_ok (ew_store w)" and "processDeal fp iter e now wi cur events w = Some (r, w')"
  shows "ew_limiter w' = ew_limiter w"
proof -
  obtain seen s' where rec: "record_events fp now wi events [] (ew_store w) = (Inr seen, s')" "storage_ok s'"
    by (rule record_events_new [OF assms(1)])
  then have "process_orders e now cur (deal_snapshot_of w wi) (iter (map snd seen)) (w\<lparr>ew_store := s'\<rparr>) = Some (r, w')"
    using assms(2) by (simp add: processDeal_def)
  from process_orders_emits [OF _ this] rec(2) show ?thesis by (simp add: emits_def)
qed

text \<open>Without a scaler nothing can panic, and the targets get the work one after the other.\<close>

definition target_work :: "OrderId \<Rightarrow> BotEvent option \<Rightarrow> Action \<Rightarrow> OrderIdentifier \<Rightarrow> OrderWork" where
  "target_work oid lt action ident =
     \<lparr>wk_Identifier = ident, wk_OrderId = oid, wk_Action = action, wk_BotEvent = emitted_event lt None\<rparr>"

lemma emit_targets_unscaled:
  assumes "en_scaler e = None"
  shows "emit_targets e now oid lt action idents w =
    Some (None, w\<lparr>ew_emitted := ew_emitted w @ map (target_work oid lt action) idents\<rparr>)"
proof (induction idents arbitrary: w)
  case (Cons ident idents)
  have "emit_target e now oid lt action ident w =
      Some (None, w\<lparr>ew_emitted := ew_emitted w @ [target_work oid lt action ident]\<rparr>)"
    by (cases lt) (simp_all add: emit_target_def applyScaling_def assms target_work_def split: option.split)
  then show ?case by (simp add: Cons.IH)
qed simp

lemma emit_plans_unscaled:
  assumes "en_scaler e = None"
  shows "\<exists>works. emit_plans e now cur oid sn plans w = Some (None, w\<lparr>ew_emitted := ew_emitted w @ works\<rparr>)"
proof (induction plans arbitrary: w)
  case Nil
  show ?case by (intro exI [of _ "[]"]) simp
next
  case (Cons plan plans)
  have "\<exists>works. emit_plan e now cur oid sn plan w = Some (None, w\<lparr>ew_emitted := ew_emitted w @ works\<rparr>)"
    by (auto simp: emit_plan_def emit_targets_unscaled [OF assms] split: option.splits prod.splits
        intro: exI [of _ "[]"])
  then obtain works where 1: "emit_plan e now cur oid sn plan w = Some (None, w\<lparr>ew_emitted := ew_emitted w @ works\<rparr>)" ..
  from Cons.IH [of "w\<lparr>ew_emitted := ew_emitted w @ works\<rparr>"] show ?case by (auto simp: 1)
qed

lemma process_orders_unscaled:
  assumes "en_scaler e = None"
  shows "\<exists>r w'. process_orders e now cur sn oids w = Some (r, w')"
proof (induction oids arbitrary: w)
  case (Cons oid oids)
  then show ?case
  proof (cases "plan_order cur sn oid (sg_db (ew_store w))")
    case (Inr plans)
    then show ?thesis using emit_plans_unscaled [OF assms, of now cur oid sn plans w] Cons.IH by auto
  qed simp
qed simp

lemma processDeal_unscaled:
  assumes "en_scaler e = None"
  shows "\<exists>r w'. processDeal fp iter e now wi cur events w = Some (r, w')"
  using process_orders_unscaled [OF assms] by (simp add: processDeal_def split: sum.split prod.split)

definition fresh_world :: "OrderIdCache world" where
  "fresh_world = \<lparr>ew_store = fresh_storage, ew_cache = NewOrderIdCache, ew_tracker = None, ew_limiter = None,
     ew_emitted = [], ew_queue = []\<rparr>"

definition place_event :: tc_BotEvent where
  "place_event = quarter_event\<lparr>ev_Action := ActionPlace, ev_Status := Active, ev_OrderType := DealOrderTypeBase\<rparr>"

theorem emitted_work_is_justified_witness:
  "\<exists>r w'. processDeal (\<lambda>_. 7) id \<lparr>en_scaler = None\<rparr> 5 \<lparr>wi_DealID = 3, wi_BotID = 2\<rparr> ''DOGE'' [place_event] fresh_world = Some (r, w') \<and>
     list_all (\<lambda>wk. wk_OrderId wk = \<lparr>BotID = 2, DealID = 3, BotEventID = 7\<rparr> \<and>
       target_ok (wk_OrderId wk) (sg_db (ew_store w')) (ac_Type (wk_Action wk)) (wk_Identifier wk)) (ew_emitted w')"
proof -
  obtain r w' where 1: "processDeal (\<lambda>_. 7) id \<lparr>en_scaler = None\<rparr> 5 \<lparr>wi_DealID = 3, wi_BotID = 2\<rparr> ''DOGE'' [place_event] fresh_world =
      Some (r, w')"
    using processDeal_unscaled [of "\<lparr>en_scaler = None\<rparr>"] by fastforce
  have "storage_step\<^sup>*\<^sup>* fresh_storage (ew_store fresh_world)" by (simp add: fresh_world_def)
  from emitted_work_is_justified [OF fresh_storage_init this _ 1] 1 show ?thesis
    by (auto simp: fresh_world_def list_all_iff event_oid_def split: if_splits)
qed

section \<open>Processing a deal again\<close>

text \<open>
  C32: A deal that is processed again with the same events causes nothing: no work is emitted and
  no state changes, whatever the outcome of the first run. In particular the retry of a run that
  failed after the events were recorded succeeds without emitting what the first run left out.\<close>

theorem reprocessing_is_silent:
  assumes "storage_init s0" and "storage_step\<^sup>*\<^sup>* s0 (ew_store w)" and "\<And>xs. set (iter xs) \<subseteq> set xs"
    and "processDeal fingerprint iter e now wi currency events w = Some (r, w')"
  shows "processDeal fingerprint iter e' now' wi currency' events w' = Some (None, w')"
proof -
  have s: "storage_ok (ew_store w)" by (rule storage_sys.inv_reachable [OF assms(1,2)])
  obtain seen s' where rec: "record_events fingerprint now wi events [] (ew_store w) = (Inr seen, s')" "storage_ok s'"
      "\<forall>e \<in> set events. event_key (event_oid fingerprint wi e) e \<in> logged_keys s'"
      "\<forall>e \<in> set events. acted_on e \<longrightarrow> event_key (event_oid fingerprint wi e) e \<in> event_keys s'"
      "snd ` set seen \<subseteq> event_oid fingerprint wi ` {e \<in> set events. newly_acted_on fingerprint wi (ew_store w) e}"
    by (rule record_events_new [OF s])
  have "process_orders e now currency (deal_snapshot_of w wi) (iter (map snd seen)) (w\<lparr>ew_store := s'\<rparr>) = Some (r, w')"
    using assms(4) rec(1) by (simp add: processDeal_def)
  from process_orders_emits [OF _ this] rec(2) have "only_audits s' (ew_store w')" by (simp add: emits_def)
  then have keys: "logged_keys (ew_store w') = logged_keys s'" "event_keys (ew_store w') = event_keys s'"
    by (auto simp: only_audits_def logged_keys_def event_keys_def)
  have "record_events fingerprint now' wi events [] (ew_store w') = (Inr [], ew_store w')"
    using rec(3,4) by (intro record_events_again) (simp_all add: keys)
  moreover have "iter [] = []" using assms(3) [of "[]"] by simp
  ultimately show ?thesis by (simp add: processDeal_def)
qed

theorem reprocessing_is_silent_witness:
  "\<exists>r w'. processDeal (\<lambda>_. 7) id \<lparr>en_scaler = None\<rparr> 5 \<lparr>wi_DealID = 3, wi_BotID = 2\<rparr> ''DOGE'' [place_event] fresh_world = Some (r, w') \<and>
     processDeal (\<lambda>_. 7) id \<lparr>en_scaler = None\<rparr> 6 \<lparr>wi_DealID = 3, wi_BotID = 2\<rparr> ''DOGE'' [place_event] w' = Some (None, w')"
proof -
  obtain r w' where 1: "processDeal (\<lambda>_. 7) id \<lparr>en_scaler = None\<rparr> 5 \<lparr>wi_DealID = 3, wi_BotID = 2\<rparr> ''DOGE'' [place_event] fresh_world =
      Some (r, w')"
    using processDeal_unscaled [of "\<lparr>en_scaler = None\<rparr>"] by fastforce
  have "storage_step\<^sup>*\<^sup>* fresh_storage (ew_store fresh_world)" by (simp add: fresh_world_def)
  from reprocessing_is_silent [OF fresh_storage_init this _ 1] 1 show ?thesis by auto
qed

section \<open>Replay and create\<close>

lemma reduce_first_create:
  assumes "ListEventsForOrder (BotID oid) (DealID oid) (BotEventID oid) d = Inr events" and "events \<noteq> []"
    and "previousDistinct events = None" and "ev_Status (tc_event (last events)) = Active"
  shows "reduceOrderEvents cur oid h d =
    Inr (zero_Action\<lparr>ac_Type := ActionCreate, ac_Create := ToCreateOrderRequest cur (last events) oid\<rparr>, Some (last events), True)"
  using assms by (simp add: reduceOrderEvents_def BuildAction_def Let_def)

text \<open>
  An active order that was submitted to some venues and then reported again unchanged is
  created twice on every venue that was assigned meanwhile: the unchanged history reduces to a
  create whose targets are the venues without a submission, and the replay adds the same create
  for the same venues.\<close>

theorem replay_duplicates_create:
  assumes "ListEventsForOrder (BotID oid) (DealID oid) (BotEventID oid) (sg_db (ew_store w)) = Inr events"
    and "events \<noteq> []" and "previousDistinct events = None" and "ev_Status (tc_event (last events)) = Active"
    and "ev_OrderType (tc_event (last events)) \<noteq> DealOrderTypeTakeProfit"
    and "order_submissions oid (sg_db (ew_store w)) \<noteq> []" and "en_scaler e = None"
    and "ident \<in> set (missingAssignmentTargets oid (order_assignments oid (sg_db (ew_store w)))
           (order_submissions oid (sg_db (ew_store w))))"
  shows "\<exists>works. process_orders e now cur sn [oid] w = Some (None, w\<lparr>ew_emitted := ew_emitted w @ works\<rparr>) \<and>
    2 \<le> length (filter (\<lambda>wk. wk_Identifier wk = ident \<and> ac_Type (wk_Action wk) = ActionCreate \<and>
      ac_Create (wk_Action wk) = ToCreateOrderRequest cur (last events) oid) works)"
proof -
  let ?d = "sg_db (ew_store w)" and ?lt = "last events"
  let ?as = "order_assignments oid ?d" and ?st = "order_submissions oid ?d"
  let ?a = "zero_Action\<lparr>ac_Type := ActionCreate, ac_Create := ToCreateOrderRequest cur ?lt oid\<rparr>"
  let ?t1 = "resolveOrderTargets oid ?as ?st ActionCreate (default_alias oid ?d)"
  let ?t2 = "missingAssignmentTargets oid ?as ?st"
  have adj: "adjustActionWithTracker cur oid ?lt ?a sn b = (?a, True)" for b
    using assms(5) by (simp add: adjustActionWithTracker_def split: option.split)
  have in1: "ident \<in> set ?t1"
    using assms(6,8) by (simp add: set_resolveOrderTargets set_missingAssignmentTargets)
  let ?p1 = "\<lparr>pl_action = ?a, pl_targets = ?t1, pl_latest = Some ?lt, pl_skipExisting = False\<rparr>"
  let ?p2 = "\<lparr>pl_action = ?a, pl_targets = ?t2, pl_latest = Some ?lt, pl_skipExisting = True\<rparr>"
  have plans: "plan_order cur sn oid ?d = Inr [?p1, ?p2]"
    using assms(4,6,8) in1
    by (auto simp: plan_order_eq reduce_first_create [OF assms(1-4)] order_plans_def adj Let_def)
  let ?works = "map (target_work oid (Some ?lt) ?a) ?t1 @ map (target_work oid (Some ?lt) ?a) ?t2"
  let ?Q = "\<lambda>wk. wk_Identifier wk = ident \<and> ac_Type (wk_Action wk) = ActionCreate \<and>
      ac_Create (wk_Action wk) = ToCreateOrderRequest cur ?lt oid"
  have run: "process_orders e now cur sn [oid] w = Some (None, w\<lparr>ew_emitted := ew_emitted w @ ?works\<rparr>)"
    by (simp add: plans emit_plan_def adj emit_targets_unscaled [OF assms(7)])
  have "1 \<le> length (filter ?Q (map (target_work oid (Some ?lt) ?a) ts))"
    if "ident \<in> set ts" for ts
  proof -
    have "target_work oid (Some ?lt) ?a ident \<in> set (filter ?Q (map (target_work oid (Some ?lt) ?a) ts))"
      using that by (auto simp: target_work_def)
    from length_pos_if_in_set [OF this] show ?thesis by linarith
  qed
  from this [OF in1] this [OF assms(8)] have "2 \<le> length (filter ?Q ?works)"
    unfolding filter_append length_append by linarith
  with run show ?thesis by blast
qed

text \<open>Bot 2 is assigned to two venues, and the order \<open>h\<close> was submitted to the first one only.\<close>

definition replay_oid :: OrderId where
  "replay_oid = \<lparr>BotID = 2, DealID = 3, BotEventID = 7\<rparr>"

definition replay_db :: "string \<Rightarrow> db" where
  "replay_db h = empty_db
     \<lparr>db_venues := [\<lparr>vn_ID = ''a'', vn_Type = ''hyperliquid'', vn_DisplayName = ''A'', vn_Wallet = ''w1'', vn_Flags = Doc (JObject [])\<rparr>,
        \<lparr>vn_ID = ''b'', vn_Type = ''hyperliquid'', vn_DisplayName = ''B'', vn_Wallet = ''w2'', vn_Flags = Doc (JObject [])\<rparr>],
      db_assignments := [\<lparr>va_BotID = 2, va_VenueID = ''a'', va_IsPrimary = 1, va_AssignedAtUtc = 0\<rparr>,
        \<lparr>va_BotID = 2, va_VenueID = ''b'', va_IsPrimary = 0, va_AssignedAtUtc = 0\<rparr>],
      db_submissions := [\<lparr>hs_VenueID = ''a'', hs_Wallet = ''w1'', hs_OrderID = h, hs_ActionKind = ''create'',
        hs_CreatePayload = None, hs_ModifyPayloads = [], hs_CancelPayload = None, hs_PayloadType = [],
        hs_PayloadBlob = NotJson [], hs_UpdatedAtUtc = 0, hs_BoteventRowID = 1\<rparr>],
      db_botevents := [\<lparr>be_ID = 1, be_OrderID = h, be_BotID = 2, be_DealID = 3, be_BoteventID = 7,
        be_CreatedAtUtc = 0, be_ObservedAtUtc = 0, be_Payload = Doc place_event\<rparr>]\<rparr>"

lemma replay_db_reads:
  shows "order_assignments replay_oid (replay_db h) =
      [\<lparr>as_VenueID = ''a'', as_Wallet = ''w1'', as_IsPrimary = True\<rparr>, \<lparr>as_VenueID = ''b'', as_Wallet = ''w2'', as_IsPrimary = False\<rparr>]"
    and "ListEventsForOrder 2 3 7 (replay_db h) = Inr [\<lparr>RowID = 1, tc_event = place_event\<rparr>]"
    and "ListSubmissionIdentifiersForOrder replay_oid (replay_db (Hex replay_oid)) = [NewOrderIdentifier ''a'' ''w1'' replay_oid]"
    and "order_submissions replay_oid (replay_db (Hex replay_oid)) = [NewOrderIdentifier ''a'' ''w1'' replay_oid]"
proof -
  show as: "order_assignments replay_oid (replay_db h) =
      [\<lparr>as_VenueID = ''a'', as_Wallet = ''w1'', as_IsPrimary = True\<rparr>, \<lparr>as_VenueID = ''b'', as_Wallet = ''w2'', as_IsPrimary = False\<rparr>]" for h
    by code_simp
  show "ListEventsForOrder 2 3 7 (replay_db h) = Inr [\<lparr>RowID = 1, tc_event = place_event\<rparr>]"
    by (simp add: ListEventsForOrder_def ListThreeCommasBotEventsForOrder_def replay_db_def order_by_def)
  show ls: "ListSubmissionIdentifiersForOrder replay_oid (replay_db (Hex replay_oid)) = [NewOrderIdentifier ''a'' ''w1'' replay_oid]"
    by (simp add: ListSubmissionIdentifiersForOrder_def replay_db_def empty_db_def append_identifier_def ensureIdentifier_def
        NewOrderIdentifier_def)
  show "order_submissions replay_oid (replay_db (Hex replay_oid)) = [NewOrderIdentifier ''a'' ''w1'' replay_oid]"
    by (simp add: order_submissions_def as ls normalizeSubmissionIdentifiers_def normalize_ident_def NewOrderIdentifier_def)
qed

theorem replay_duplicates_create_witness:
  "let w = fresh_world\<lparr>ew_store := fresh_storage\<lparr>sg_db := replay_db (Hex replay_oid)\<rparr>\<rparr> in
   \<exists>works. process_orders \<lparr>en_scaler = None\<rparr> 5 ''DOGE'' None [replay_oid] w = Some (None, w\<lparr>ew_emitted := works\<rparr>) \<and>
     2 \<le> length (filter (\<lambda>wk. wk_Identifier wk = NewOrderIdentifier ''b'' ''w2'' replay_oid) works)"
proof -
  let ?w = "fresh_world\<lparr>ew_store := fresh_storage\<lparr>sg_db := replay_db (Hex replay_oid)\<rparr>\<rparr>"
  have events: "ListEventsForOrder (BotID replay_oid) (DealID replay_oid) (BotEventID replay_oid) (sg_db (ew_store ?w)) =
      Inr [\<lparr>RowID = 1, tc_event = place_event\<rparr>]"
    using replay_db_reads(2) by (simp add: replay_oid_def)
  have none: "ew_emitted ?w @ works = works" for works by (simp add: fresh_world_def)
  obtain works where run: "process_orders \<lparr>en_scaler = None\<rparr> 5 ''DOGE'' None [replay_oid] ?w =
        Some (None, ?w\<lparr>ew_emitted := ew_emitted ?w @ works\<rparr>)"
      and n: "2 \<le> length (filter (\<lambda>wk. wk_Identifier wk = NewOrderIdentifier ''b'' ''w2'' replay_oid \<and>
        ac_Type (wk_Action wk) = ActionCreate \<and>
        ac_Create (wk_Action wk) = ToCreateOrderRequest ''DOGE'' (last [\<lparr>RowID = 1, tc_event = place_event\<rparr>]) replay_oid) works)"
    using replay_duplicates_create [OF events, of "\<lparr>en_scaler = None\<rparr>" "NewOrderIdentifier ''b'' ''w2'' replay_oid" 5 "''DOGE''" None]
    by (auto simp: previousDistinct_def place_event_def set_missingAssignmentTargets replay_db_reads assignment_ident_def
        NewOrderIdentifier_def)
  have le: "length (filter (\<lambda>x. P x \<and> Q x) xs) \<le> length (filter P xs)" for P Q and xs :: "OrderWork list"
    by (induction xs) auto
  have "2 \<le> length (filter (\<lambda>wk. wk_Identifier wk = NewOrderIdentifier ''b'' ''w2'' replay_oid) works)"
    by (rule order_trans [OF n le])
  with run [unfolded none] show ?thesis unfolding Let_def by blast
qed

section \<open>The tracked size and the scaler\<close>

text \<open>\<^verbatim>\<open>Scale\<close> overwrites the size of the order; otherwise it reads only its coin and price.\<close>

lemma Scale_size_irrelevant:
  fixes order q
  defines "order' \<equiv> size_take_profit q order"
  shows "Scale resolve mx now req order' s m = None \<and>
      Scale resolve mx now req (size_take_profit q' order) s m = None \<or>
    (\<exists>out s' m' o1 o2. Scale resolve mx now req order' s m = Some (out, o1, s', m') \<and>
      Scale resolve mx now req (size_take_profit q' order) s m = Some (out, o2, s', m') \<and>
      (case out of Scaled _ \<Rightarrow> o1 = o2 | _ \<Rightarrow> True))"
proof -
  have wc: "with_coin (size_take_profit x order) req = with_coin order req" for x
    by (simp add: with_coin_def size_take_profit_def)
  have sz: "cr_Price (size_take_profit x order) = cr_Price order"
    "size_take_profit x order\<lparr>cr_Price := p, cr_Size := z\<rparr> = order\<lparr>cr_Price := p, cr_Size := z, cr_ReduceOnly := True\<rparr>"
    for x p z by (simp_all add: size_take_profit_def)
  note unfold = Scale_def Let_def with_coin_def [symmetric] wc with_coin_simps order'_def sz
  show ?thesis
  proof (cases "ResolveEffectiveOrderScaler (rq_OrderId req) (sg_db s)")
    case (Inl e)
    then show ?thesis by (simp add: unfold)
  next
    case eff: (Inr e)
    show ?thesis
    proof (cases "resolve (rq_Coin (with_coin order req)) m")
      case None
      with eff show ?thesis by (simp add: unfold)
    next
      case (Some x)
      show ?thesis
      proof (cases "fst x")
        case (Inl err)
        with eff Some show ?thesis by (cases x) (simp add: unfold)
      next
        case (Inr c)
        let ?px = "RoundPrice c (if 0 < rq_Price req then rq_Price req else cr_Price order)"
        from eff Some Inr show ?thesis
          by (cases x; cases "0 < rq_Price req"; cases ?px) (auto simp: unfold split: prod.split sum.split)
      qed
    qed
  qed
qed

text \<open>
  With an order scaler the size that the fill tracker computed for a take profit has no
  influence on the order: as soon as the event carries a size, scaling starts from the event, and
  the emitted order, the audit and the state are the same whatever the tracked size was.\<close>

theorem tracked_size_is_overridden:
  assumes "en_scaler e = Some scaler" and "ac_Type action = ActionCreate" and "0 < ev_Size (tc_event lt)"
  shows "applyScaling e now ident lt (action\<lparr>ac_Create := size_take_profit q1 req\<rparr>) w =
    applyScaling e now ident lt (action\<lparr>ac_Create := size_take_profit q2 req\<rparr>) w"
proof -
  let ?o = "\<lambda>q. size_take_profit q req"
  have nle: "\<not> ev_Size (tc_event lt) \<le> 0" using assms(3) by (simp add: less_f64_def)
  have req: "BuildRequest ident (tc_event lt) (?o q1) = BuildRequest ident (tc_event lt) (?o q2)"
    by (simp add: BuildRequest_def size_take_profit_def nle)
  have "scale_request scaler now ident lt (?o q1) put w = scale_request scaler now ident lt (?o q2) put w" for put
    using Scale_size_irrelevant [of "fst scaler" "snd scaler" now "BuildRequest ident (tc_event lt) (?o q2)" q1 req
        "ew_store w" "ew_cache w" q2]
    by (auto simp: scale_request_def req Let_def split: scale_outcome.splits)
  then show ?thesis using assms(1,2) by (simp add: applyScaling_def)
qed

theorem tracked_size_is_overridden_witness:
  "applyScaling \<lparr>en_scaler = Some (Resolve doge_info, 0)\<rparr> 5 sample_ident \<lparr>RowID = 1, tc_event = quarter_event\<rparr>
     (zero_Action\<lparr>ac_Type := ActionCreate, ac_Create := size_take_profit (Fin 100) quarter_order\<rparr>) fresh_world =
   applyScaling \<lparr>en_scaler = Some (Resolve doge_info, 0)\<rparr> 5 sample_ident \<lparr>RowID = 1, tc_event = quarter_event\<rparr>
     (zero_Action\<lparr>ac_Type := ActionCreate, ac_Create := size_take_profit (Fin 1) quarter_order\<rparr>) fresh_world"
  by (rule tracked_size_is_overridden) (simp_all add: quarter_event_def zero_f64_def)

section \<open>The watermark of a bot\<close>

lemma to_UnixMilli_min [simp]: "to_UnixMilli (min_milli a b) = min (to_UnixMilli a) (to_UnixMilli b)"
  by (simp add: min_milli_def)

definition deal_key :: "Deal \<Rightarrow> WorkKey" where
  "deal_key d = \<lparr>wi_DealID = word_of_int (dl_Id d), wi_BotID = word_of_int (dl_BotId d)\<rparr>"

lemma enqueue_deals_effect:
  assumes "\<forall>d \<in> set ds. to_UnixMilli zero_time < to_UnixMilli (dl_UpdatedAt d)"
    and "mn = zero_time \<or> to_UnixMilli zero_time < to_UnixMilli mn"
    and "enqueue_deals clock ds mn w = (t, w')"
  shows "(\<forall>d \<in> set ds. to_UnixMilli t \<le> to_UnixMilli (dl_UpdatedAt d)) \<and>
    (mn \<noteq> zero_time \<longrightarrow> to_UnixMilli t \<le> to_UnixMilli mn) \<and>
    ew_queue w' = ew_queue w @ map deal_key ds \<and> db_bots (sg_db (ew_store w')) = db_bots (sg_db (ew_store w)) \<and>
    (\<forall>i. fetch td_DealID i (db_deals (sg_db (ew_store w))) \<noteq> None \<or> i \<in> dl_Id ` set ds \<longrightarrow>
       fetch td_DealID i (db_deals (sg_db (ew_store w'))) \<noteq> None)"
  using assms
proof (induction ds arbitrary: clock mn w)
  case (Cons d ds)
  let ?mn = "min_milli (if mn = zero_time then dl_UpdatedAt d else mn) (dl_UpdatedAt d)"
  let ?w = "w\<lparr>ew_queue := ew_queue w @ [deal_key d], ew_store := RecordThreeCommasDeal (clock 0) d (ew_store w)\<rparr>"
  have mn: "to_UnixMilli zero_time < to_UnixMilli ?mn" using Cons.prems(1,2) by auto
  have step: "enqueue_deals (\<lambda>i. clock (Suc i)) ds ?mn ?w = (t, w')"
    using Cons.prems(3) by (simp add: Let_def deal_key_def)
  have f: "fetch td_DealID i (db_deals (sg_db (ew_store ?w))) \<noteq> None"
    if "fetch td_DealID i (db_deals (sg_db (ew_store w))) \<noteq> None \<or> i = dl_Id d" for i
    using that by (auto simp: RecordThreeCommasDeal_def UpsertDeal_def deal_rows.fetch_upsert split: option.splits)
  note IH = Cons.IH [OF _ disjI2 [OF mn] step]
  have "?mn \<noteq> zero_time" using mn by (metis less_irrefl)
  with IH Cons.prems(1) f show ?case
    by (auto simp: RecordThreeCommasDeal_def UpsertDeal_def split: if_splits)
qed auto

lemma synced_at_touched:
  "synced_at b (sg_db (TouchBot (bot_Id b) t (RecordBot b u s))) = Some (UnixMilli (to_UnixMilli t))"
proof -
  have upd: "fetch bt_BotID (bot_Id b) (update_where (\<lambda>r. bt_BotID r = bot_Id b) (\<lambda>r. r\<lparr>bt_LastSyncedUtc := x\<rparr>) rows) =
      map_option (\<lambda>r. r\<lparr>bt_LastSyncedUtc := x\<rparr>) (fetch bt_BotID (bot_Id b) rows)" for rows x
    by (induction rows) (auto simp: update_where_def fetch_Cons)
  show ?thesis
    by (auto simp: synced_at_def LoadBot_def FetchBot_def one_filter [where key = bt_BotID] TouchBot_def UpdateBotSync_def
        RecordBot_def UpsertBot_def upd bot_rows.fetch_upsert split: option.splits)
qed

text \<open>
  C27: The watermark of a bot. After the deals of a bot were listed, the stored watermark is not later than the update of any deal
  that was listed, nor than the instant they were listed from, so the next listing starts early enough to contain them
  again; only a bot that is new and has no deals gets a later one, 24 hours before the clock is read after the answer.
  Every listed deal is stored and its key is enqueued, in the order of the answer.\<close>

theorem watermark_never_passes_a_deal:
  fixes b w clock list_deals wid
  defines "found \<equiv> synced_at b (sg_db (ew_store w))"
    and "w' \<equiv> produce_bot list_deals wid clock b w"
  defines "from \<equiv> (case found of None \<Rightarrow> clock 0 - day | Some t \<Rightarrow> t)"
  assumes "api_call ''GetListOfDeals'' (list_deals (bot_Id b) from) (clock 1) wid w = (Inr ds, w1)"
    and "\<forall>d \<in> set ds. to_UnixMilli zero_time < to_UnixMilli (dl_UpdatedAt d)"
  shows "\<exists>t. synced_at b (sg_db (ew_store w')) = Some t \<and>
    (if found = None \<and> ds = [] then to_UnixMilli t = to_UnixMilli (clock 2 - day) else to_UnixMilli t \<le> to_UnixMilli from) \<and>
    (\<forall>d \<in> set ds. to_UnixMilli t \<le> to_UnixMilli (dl_UpdatedAt d) \<and>
       fetch td_DealID (dl_Id d) (db_deals (sg_db (ew_store w'))) \<noteq> None) \<and>
    ew_queue w' = ew_queue w @ map deal_key ds"
proof -
  obtain mn w2 where 2: "enqueue_deals (\<lambda>i. clock (2 + i)) ds zero_time w1 = (mn, w2)" by fastforce
  have q: "ew_queue w1 = ew_queue w"
    using assms(4) by (auto simp: api_call_def split: option.splits sum.splits prod.splits)
  define wm where "wm = (if ds = [] then (case found of Some t \<Rightarrow> t | None \<Rightarrow> clock 2 - day) else min_milli from mn)"
  have w': "w' = w2\<lparr>ew_store := TouchBot (bot_Id b) wm (RecordBot b (bot_UpdatedAt b) (ew_store w2))\<rparr>"
    using assms(4) 2 by (simp add: w'_def produce_bot_def wm_def from_def found_def Let_def)
  note eff = enqueue_deals_effect [OF assms(5) disjI1 [OF refl] 2]
  have "if found = None \<and> ds = [] then to_UnixMilli wm = to_UnixMilli (clock 2 - day) else to_UnixMilli wm \<le> to_UnixMilli from"
    by (auto simp: wm_def from_def split: option.split)
  moreover have "\<forall>d \<in> set ds. to_UnixMilli wm \<le> to_UnixMilli (dl_UpdatedAt d)"
    using eff by (auto simp: wm_def min_le_iff_disj)
  moreover have "db_deals (sg_db (ew_store w')) = db_deals (sg_db (ew_store w2))"
    by (simp add: w' TouchBot_def RecordBot_def UpsertBot_def UpdateBotSync_def)
  ultimately show ?thesis
    using eff q by (auto simp: w' synced_at_touched)
qed

definition listed_deal :: Deal where
  "listed_deal = \<lparr>dl_Finished = False, dl_Status = [], dl_Id = 3, dl_BotId = 2, dl_CreatedAt = 4, dl_UpdatedAt = 5,
     dl_ToCurrency = ''DOGE'', dl_BaseOrderVolume = [], dl_BoughtAmount = [], dl_TakeProfitSteps = [], dl_Events = []\<rparr>"

theorem watermark_never_passes_a_deal_witness:
  "\<exists>t. synced_at \<lparr>bot_Id = 2, bot_Name = [], bot_UpdatedAt = 0\<rparr> (sg_db (ew_store
       (produce_bot (\<lambda>_ _. Inr [listed_deal]) [] (\<lambda>_. 2 * day) \<lparr>bot_Id = 2, bot_Name = [], bot_UpdatedAt = 0\<rparr> fresh_world))) = Some t \<and>
     to_UnixMilli t \<le> to_UnixMilli 5"
proof -
  let ?b = "\<lparr>bot_Id = 2, bot_Name = [], bot_UpdatedAt = 0\<rparr>"
  have call: "api_call ''GetListOfDeals'' (Inr [listed_deal]) (2 * day) [] fresh_world = (Inr [listed_deal], fresh_world)"
    by (simp add: api_call_def fresh_world_def)
  have "\<forall>d \<in> set [listed_deal]. to_UnixMilli zero_time < to_UnixMilli (dl_UpdatedAt d)"
    by (simp add: listed_deal_def to_UnixMilli_def zero_time_def millisecond_def)
  from watermark_never_passes_a_deal [where b = ?b and list_deals = "\<lambda>_ _. Inr [listed_deal]" and clock = "\<lambda>_. 2 * day", OF call this]
  show ?thesis by (auto simp: listed_deal_def)
qed

section \<open>Reservations\<close>

definition not_queued :: "string \<Rightarrow> Limiter \<Rightarrow> bool" where
  "not_queued wid l \<longleftrightarrow> wid \<notin> ww_workflowID ` set (waitQueue l)"

lemma reset_keeps [simp]:
  "activeReservations (snd (resetWindowIfNeeded now l)) = activeReservations l"
  "waitQueue (snd (resetWindowIfNeeded now l)) = waitQueue l"
  by (simp_all add: resetWindowIfNeeded_def)

lemma grant_loop_other:
  "wid \<notin> ww_workflowID ` set q \<Longrightarrow>
   map_of (activeReservations (snd (grant_loop clock k q g l))) wid = map_of (activeReservations l) wid \<and>
   set (waitQueue (snd (grant_loop clock k q g l))) \<subseteq> set q"
proof (induction q arbitrary: k g l)
  case (Cons nxt q)
  let ?l = "snd (resetWindowIfNeeded (clock (2 * k)) l)"
  let ?l2 = "put_reservation (clock (2 * k + 1)) (ww_workflowID nxt) (requestedSlots nxt) ?l"
  from Cons.IH [of "Suc k" "Suc g" "?l2\<lparr>closed_ready := closed_ready ?l2 @ [ready nxt]\<rparr>"] Cons.prems
  show ?case by (auto simp: Let_def put_reservation_def)
qed simp

lemma tryGrantWaiting_other:
  assumes "not_queued wid l"
  shows "map_of (activeReservations (snd (tryGrantWaiting clock l))) wid = map_of (activeReservations l) wid"
    and "not_queued wid (snd (tryGrantWaiting clock l))"
  using grant_loop_other [of wid "waitQueue l" clock 0 0 l] assms by (auto simp: tryGrantWaiting_def not_queued_def)

lemma workflow_stays_unqueued:
  assumes "not_queued wid l"
  shows "not_queued wid (snd (ConsumeWithOperation now wid l))" and "not_queued wid (snd (AdjustDown clock wid n l))"
    and "not_queued wid (snd (SignalComplete clock wid l))"
  using assms
  by (auto simp: ConsumeWithOperation_def AdjustDown_def SignalComplete_def Let_def
      intro!: tryGrantWaiting_other(2) split: option.split) (auto simp: not_queued_def)

lemma finish_workflow_releases:
  assumes "not_queued wid l" and "wid \<noteq> []"
  shows "map_of (activeReservations (finish_workflow clock wid l)) wid = None"
proof -
  define l1 where "l1 = snd (SignalComplete clock wid l)"
  have "not_queued wid l1" unfolding l1_def by (rule workflow_stays_unqueued(3) [OF assms(1)])
  then have "not_queued wid (l1\<lparr>activeReservations := AList.delete wid (activeReservations l1), orphans := os\<rparr>)" for os
    by (simp add: not_queued_def)
  from tryGrantWaiting_other(1) [OF this] show ?thesis
    by (simp add: finish_workflow_def Release_def Let_def assms(2) split: option.split flip: l1_def)
qed

text \<open>A wait that ends with the grant leaves the workflow out of the queue.\<close>

definition await_ok :: "string \<Rightarrow> await \<Rightarrow> bool" where
  "await_ok wid aw \<longleftrightarrow> (\<forall>ch l l'. aw ch l = (None, l') \<longrightarrow> not_queued wid l')"

lemma reserve_slots_unqueued:
  assumes "not_queued wid l" and "await_ok wid aw" and "reserve_slots aw clock wid n l = (None, l')"
  shows "not_queued wid l'"
  using assms by (auto simp: reserve_slots_def Reserve_def Let_def await_ok_def not_queued_def put_reservation_def
      split: if_splits)

lemma api_call_unqueued:
  assumes "api_call operation answer now wid w = (r, w')" and "ew_limiter w = Some l" and "not_queued wid l"
  shows "\<exists>l'. ew_limiter w' = Some l' \<and> not_queued wid l'" and "ew_store w' = ew_store w"
  using assms workflow_stays_unqueued(1) [OF assms(3), of now]
  by (auto simp: api_call_def client_call_def split: if_splits prod.splits option.splits sum.splits)

text \<open>
  C28: \<^verbatim>\<open>HandleDeal\<close> gives its reservation back. Whatever the client, the storage and the scaler
  answer, the workflow of the deal holds no reservation when the call returns, unless the
  reservation itself was refused.\<close>

theorem HandleDeal_releases:
  assumes "storage_init s0" and "storage_step\<^sup>*\<^sup>* s0 (ew_store w)"
    and "ew_limiter w = Some l" and "not_queued (deal_workflow wi) l" and "await_ok (deal_workflow wi) aw"
    and "wi_DealID wi \<noteq> 0"
    and "HandleDeal fingerprint iter client aw clock e now wi w = Some (r, w')"
  shows "(case r of Some (RateLimitReserve _) \<Rightarrow> True
    | _ \<Rightarrow> (\<exists>l'. ew_limiter w' = Some l' \<and> map_of (activeReservations l') (deal_workflow wi) = None))"
proof -
  let ?wid = "deal_workflow wi"
  have wid: "?wid \<noteq> []" by (simp add: deal_workflow_def)
  have s: "storage_ok (ew_store w)" by (rule storage_sys.inv_reachable [OF assms(1,2)])
  obtain refused l1 where 1: "reserve_slots aw clock ?wid 2 l = (refused, l1)" by fastforce
  show ?thesis
  proof (cases refused)
    case (Some err)
    then show ?thesis using assms(3,6,7) 1 by (auto simp: HandleDeal_def Let_def)
  next
    case None
    define w1 where "w1 = w\<lparr>ew_limiter := Some l1\<rparr>"
    have l1: "not_queued ?wid l1" using reserve_slots_unqueued [OF assms(4,5)] 1 None by simp
    obtain ans w2 where 2: "api_call ''GetDealForID'' (client (wi_DealID wi)) now ?wid w1 = (ans, w2)" by fastforce
    obtain l2 where l2: "ew_limiter w2 = Some l2" "not_queued ?wid l2" "ew_store w2 = ew_store w"
      using api_call_unqueued [OF 2, of l1] l1 by (auto simp: w1_def)
    have fin: "\<exists>l'. ew_limiter (finish_world clock ?wid w3) = Some l' \<and> map_of (activeReservations l') ?wid = None"
      if "ew_limiter w3 = Some l3" "not_queued ?wid l3" for w3 l3
      using finish_workflow_releases [OF that(2) wid] that(1) by (simp add: finish_world_def)
    show ?thesis
    proof (cases ans)
      case (Inl err)
      then have "r = Some (GetDealFailed err)" "w' = finish_world clock ?wid w2"
        using assms(3,6,7) 1 None 2 by (simp_all add: HandleDeal_def Let_def w1_def)
      then show ?thesis using fin [OF l2(1,2)] by simp
    next
      case (Inr deal)
      define w3 where "w3 = adjust_down clock ?wid 1 w2"
      obtain w4 where 4: "processDeal fingerprint iter e now wi (dl_ToCurrency deal) (dl_Events deal) w3 = Some (r, w4)"
          "w' = finish_world clock ?wid w4"
        using assms(3,6,7) 1 None 2 Inr by (auto simp: HandleDeal_def Let_def w1_def w3_def)
      have w3: "ew_limiter w3 = Some (snd (AdjustDown clock ?wid 1 l2))" "ew_store w3 = ew_store w"
        by (simp_all add: w3_def adjust_down_def l2)
      have lim4: "ew_limiter w4 = ew_limiter w3"
        using processDeal_limiter [OF _ 4(1)] s w3(2) by simp
      show ?thesis
        using fin [of w4] workflow_stays_unqueued(2) [OF l2(2)] lim4 w3(1) 4(2)
        by (auto split: option.split engine_error.split)
    qed
  qed
qed

theorem HandleDeal_releases_witness:
  "\<exists>r w'. HandleDeal (\<lambda>_. 7) id (\<lambda>_. Inr listed_deal) (\<lambda>ch l. (None, l\<lparr>waitQueue := []\<rparr>)) (\<lambda>_. 1) \<lparr>en_scaler = None\<rparr> 5
      \<lparr>wi_DealID = 3, wi_BotID = 2\<rparr> (fresh_world\<lparr>ew_limiter := Some (NewLimiter (sample_cfg 10) 0)\<rparr>) = Some (r, w') \<and>
    (case r of Some (RateLimitReserve _) \<Rightarrow> True
     | _ \<Rightarrow> (\<exists>l'. ew_limiter w' = Some l' \<and>
         map_of (activeReservations l') (deal_workflow \<lparr>wi_DealID = 3, wi_BotID = 2\<rparr>) = None))"
proof -
  let ?wi = "\<lparr>wi_DealID = 3, wi_BotID = 2\<rparr>"
  let ?w = "fresh_world\<lparr>ew_limiter := Some (NewLimiter (sample_cfg 10) 0)\<rparr>"
  let ?aw = "\<lambda>ch l. (None, l\<lparr>waitQueue := []\<rparr>)"
  have "\<exists>r w'. HandleDeal (\<lambda>_. 7) id (\<lambda>_. Inr listed_deal) ?aw (\<lambda>_. 1) \<lparr>en_scaler = None\<rparr> 5 ?wi ?w = Some (r, w')"
    using processDeal_unscaled [of "\<lparr>en_scaler = None\<rparr>" "\<lambda>_. 7" id 5 ?wi]
    by (simp add: HandleDeal_def Let_def map_prod_def split: option.split prod.split sum.split) blast
  then obtain r w' where 1: "HandleDeal (\<lambda>_. 7) id (\<lambda>_. Inr listed_deal) ?aw (\<lambda>_. 1) \<lparr>en_scaler = None\<rparr> 5 ?wi ?w = Some (r, w')"
    by blast
  have "storage_step\<^sup>*\<^sup>* fresh_storage (ew_store ?w)" by (simp add: fresh_world_def)
  moreover have "not_queued (deal_workflow ?wi) (NewLimiter (sample_cfg 10) 0)" "await_ok (deal_workflow ?wi) ?aw"
    by (simp_all add: not_queued_def await_ok_def NewLimiter_def)
  ultimately have "case r of Some (RateLimitReserve _) \<Rightarrow> True
     | _ \<Rightarrow> (\<exists>l'. ew_limiter w' = Some l' \<and> map_of (activeReservations l') (deal_workflow ?wi) = None)"
    by (intro HandleDeal_releases [OF fresh_storage_init _ _ _ _ _ 1]) simp_all
  with 1 show ?thesis by blast
qed

end
