(* ===== verification/Listing.thy ===== *)
theory Listing
  imports Storage_Props
begin

text \<open>
  The listings behind the HTTP API: \<^verbatim>\<open>ListBots\<close>, \<^verbatim>\<open>ListDeals\<close>, \<^verbatim>\<open>ListOrders\<close> and the page tokens
  of \<^verbatim>\<open>storage/api.go\<close>, and \<^verbatim>\<open>ListOrderScalers\<close> of \<^verbatim>\<open>storage/order_scalers.go\<close>.

  A listing is a query in descending order of a time and an id, cut to a page; the token of the
  next page names a row. The locale \<open>keyset_pages\<close> says once what a client sees that follows the
  tokens; it is interpreted for the three listings.

  The loop over the orders of a page runs over a Go map; \<open>iter\<close> is the order of that iteration.
  \<^verbatim>\<open>sort.Slice\<close> does not promise the order of entries of the same instant; \<open>sorter\<close> is the sort.
\<close>

section \<open>Page tokens\<close>

text \<open>\<^verbatim>\<open>strconv.ParseInt(s, 10, 64)\<close> and \<^verbatim>\<open>strings.Split\<close> by one character.\<close>

definition ParseInt :: "string \<Rightarrow> int option" where
  "ParseInt s =
     (let (neg, ds) = take_sign s in
      if ds = [] \<or> \<not> list_all is_digit ds then None
      else let v = (if neg then - digits_val ds else digits_val ds)
           in if - (2 ^ 63) \<le> v \<and> v < 2 ^ 63 then Some v else None)"

fun Split :: "string \<Rightarrow> char \<Rightarrow> string list" where
  "Split [] c = [[]]"
| "Split (a # s) c =
     (if a = c then [] # Split s c
      else (case Split s c of [] \<Rightarrow> [[a]] | w # ws \<Rightarrow> (a # w) # ws))"

definition cursorSeparator :: char where
  "cursorSeparator = CHR '':''"

definition encodeCursor :: "int \<Rightarrow> int \<Rightarrow> string" where
  "encodeCursor primary secondary = show_int primary @ [cursorSeparator] @ show_int secondary"

definition decodeCursor :: "string \<Rightarrow> store_error + int \<times> int" where
  "decodeCursor token =
     (case Split token cursorSeparator of
        [a, b] \<Rightarrow>
          (case ParseInt a of
             None \<Rightarrow> Inl (StoreErr ''parse primary cursor'')
           | Some primary \<Rightarrow>
               (case ParseInt b of
                  None \<Rightarrow> Inl (StoreErr ''parse secondary cursor'')
                | Some secondary \<Rightarrow> Inr (primary, secondary)))
      | _ \<Rightarrow> Inl (StoreErr ''cursor must contain two parts''))"

section \<open>What the listings share\<close>

definition default_limit :: "int \<Rightarrow> int" where
  "default_limit l = (if l \<le> 0 then 50 else l)"

definition page_cursor :: "string \<Rightarrow> store_error + (int \<times> int) option" where
  "page_cursor token =
     (if token = [] then Inr None
      else (case decodeCursor token of
          Inl _ \<Rightarrow> Inl (StoreErr ''invalid page token'')
        | Inr c \<Rightarrow> Inr (Some c)))"

text \<open>The condition \<^verbatim>\<open>(time < ? OR (time = ? AND id < ?))\<close>.\<close>

definition before_cursor :: "int \<times> int \<Rightarrow> int \<times> int \<Rightarrow> bool" where
  "before_cursor c k = (fst k < fst c \<or> fst k = fst c \<and> snd k < snd c)"

text \<open>One row more than the page was asked for; its key is the token of the next page.\<close>

definition cut_page :: "('r \<Rightarrow> int \<times> int) \<Rightarrow> int \<Rightarrow> 'r list \<Rightarrow> 'r list \<times> string option" where
  "cut_page key lmt raw =
     (if lmt < int (length raw)
      then (take (nat lmt) raw,
            Some (encodeCursor (fst (key (raw ! nat lmt))) (snd (key (raw ! nat lmt)))))
      else (raw, None))"

section \<open>Bots and deals\<close>

record ListBotsOptions =
  lb_BotID :: "int option"
  lb_UpdatedFrom :: "time option"
  lb_UpdatedTo :: "time option"
  lb_Limit :: int
  lb_PageToken :: string

record ListDealsOptions =
  ld_DealID :: "int option"
  ld_BotID :: "int option"
  ld_UpdatedFrom :: "time option"
  ld_UpdatedTo :: "time option"
  ld_Limit :: int
  ld_PageToken :: string

record BotItem =
  bi_Bot :: tc_Bot
  bi_LastSyncedAt :: time

definition bot_key :: "ThreecommasBot \<Rightarrow> int \<times> int" where
  "bot_key r = (bt_LastSyncedUtc r, bt_BotID r)"

definition bot_selected :: "ListBotsOptions \<Rightarrow> ThreecommasBot \<Rightarrow> bool" where
  "bot_selected opts r =
     (null_or (lb_BotID opts) (\<lambda>b. bt_BotID r = b) \<and>
      null_or (lb_UpdatedFrom opts) (\<lambda>t. to_UnixMilli t \<le> bt_LastSyncedUtc r) \<and>
      null_or (lb_UpdatedTo opts) (\<lambda>t. bt_LastSyncedUtc r \<le> to_UnixMilli t))"

fun decode_bots :: "ThreecommasBot list \<Rightarrow> store_error + BotItem list" where
  "decode_bots [] = Inr []"
| "decode_bots (r # rows) =
     (case Unmarshal (bt_Payload r) of
        Inl e \<Rightarrow> Inl e
      | Inr b \<Rightarrow> map_sum id (Cons \<lparr>bi_Bot = b, bi_LastSyncedAt = UnixMilli (bt_LastSyncedUtc r)\<rparr>) (decode_bots rows))"

definition ListBots :: "ListBotsOptions \<Rightarrow> db \<Rightarrow> store_error + BotItem list \<times> string option" where
  "ListBots opts d =
     (let lmt = default_limit (lb_Limit opts) in
      case page_cursor (lb_PageToken opts) of
        Inl e \<Rightarrow> Inl e
      | Inr cursor \<Rightarrow>
          let (raw, nextToken) = cut_page bot_key lmt
                (limit_rows (lmt + 1) (order_by (\<lambda>r. (- bt_LastSyncedUtc r, - bt_BotID r))
                  (filter (\<lambda>r. bot_selected opts r \<and> null_or cursor (\<lambda>c. before_cursor c (bot_key r))) (db_bots d))))
          in map_sum id (\<lambda>items. (items, nextToken)) (decode_bots raw))"

definition deal_row_key :: "ThreecommasDeal \<Rightarrow> int \<times> int" where
  "deal_row_key r = (td_UpdatedAtUtc r, td_DealID r)"

definition deal_selected :: "ListDealsOptions \<Rightarrow> ThreecommasDeal \<Rightarrow> bool" where
  "deal_selected opts r =
     (null_or (ld_DealID opts) (\<lambda>i. td_DealID r = i) \<and> null_or (ld_BotID opts) (\<lambda>b. td_BotID r = b) \<and>
      null_or (ld_UpdatedFrom opts) (\<lambda>t. to_UnixMilli t \<le> td_UpdatedAtUtc r) \<and>
      null_or (ld_UpdatedTo opts) (\<lambda>t. td_UpdatedAtUtc r \<le> to_UnixMilli t))"

definition ListDeals :: "ListDealsOptions \<Rightarrow> db \<Rightarrow> store_error + Deal list \<times> string option" where
  "ListDeals opts d =
     (let lmt = default_limit (ld_Limit opts) in
      case page_cursor (ld_PageToken opts) of
        Inl e \<Rightarrow> Inl e
      | Inr cursor \<Rightarrow>
          let (raw, nextToken) = cut_page deal_row_key lmt
                (limit_rows (lmt + 1) (order_by (\<lambda>r. (- td_UpdatedAtUtc r, - td_DealID r))
                  (filter (\<lambda>r. deal_selected opts r \<and> null_or cursor (\<lambda>c. before_cursor c (deal_row_key r))) (db_deals d))))
          in map_sum id (\<lambda>items. (items, nextToken)) (decode_list (map td_Payload raw)))"

section \<open>Orders\<close>

record ListOrdersOptions =
  lo_OrderIdPrefix :: "string option"
  lo_BotID :: "int option"
  lo_DealID :: "int option"
  lo_BotEventID :: "int option"
  lo_ObservedFrom :: "time option"
  lo_ObservedTo :: "time option"
  lo_IncludeLog :: bool
  lo_Limit :: int
  lo_PageToken :: string

record OrderLogItem =
  li_Type :: OrderLogEntryType
  li_OrderId :: OrderId
  li_ObservedAt :: time
  li_Identifier :: "OrderIdentifier option"
  li_BotEvent :: "tc_BotEvent option"
  li_Submission :: "submission option"
  li_Status :: "WsOrder option"
  li_ScalerConfig :: "api_EffectiveOrderScaler option"
  li_ScaledAudit :: "api_ScaledOrderAudit option"
  li_Actor :: "string option"

record OrderItem =
  it_OrderId :: OrderId
  it_ObservedAt :: time
  it_BotEvent :: "tc_BotEvent option"
  it_LatestSubmission :: "submission option"
  it_LatestStatus :: "WsOrder option"
  it_Identifier :: "OrderIdentifier option"
  it_LogEntries :: "OrderLogItem list"

definition new_LogItem :: "OrderLogEntryType \<Rightarrow> OrderId \<Rightarrow> time \<Rightarrow> OrderIdentifier \<Rightarrow> OrderLogItem" where
  "new_LogItem typ oid t ident = \<lparr>li_Type = typ, li_OrderId = oid, li_ObservedAt = t, li_Identifier = Some ident,
     li_BotEvent = None, li_Submission = None, li_Status = None, li_ScalerConfig = None,
     li_ScaledAudit = None, li_Actor = None\<rparr>"

definition event_row_key :: "ThreecommasBotevent \<Rightarrow> int \<times> int" where
  "event_row_key r = (be_ObservedAtUtc r, be_ID r)"

text \<open>The request of the latest submission, by its kind.\<close>

definition decode_latest_submission :: "HyperliquidSubmission \<Rightarrow> store_error + submission option" where
  "decode_latest_submission row =
     (let actionKind = ToLower (TrimSpace (hs_ActionKind row)) in
      if actionKind = ''create'' then map_sum id (map_option SubCreate) (load_create actionKind row)
      else if actionKind = ''modify''
      then map_sum id (map_option SubModify)
             (decodeLatestModifyRequest (hs_ModifyPayloads row) (Some (blob_as_modify (hs_PayloadBlob row))))
      else if actionKind = ''cancel'' then map_sum id (map_option SubCancel) (load_cancel actionKind row)
      else Inr None)"

text \<open>Submission, its time and its identifier; without one the default venue is selected.\<close>

definition select_submission ::
  "VenueAssignment \<Rightarrow> OrderId \<Rightarrow> string \<Rightarrow> db \<Rightarrow> store_error + submission option \<times> time option \<times> OrderIdentifier" where
  "select_submission defaultAssignment oid oidHex d =
     (case (case FetchLatestHyperliquidSubmissionAnyIdentifier oidHex d of
              Inl ErrNoRows \<Rightarrow> Inr (None, None, zero_OrderIdentifier)
            | Inl e \<Rightarrow> Inl e
            | Inr row \<Rightarrow>
                map_sum id (\<lambda>sub. (sub, if 0 < hs_UpdatedAtUtc row then Some (UnixMilli (hs_UpdatedAtUtc row)) else None,
                    NewOrderIdentifier (hs_VenueID row) (hs_Wallet row) oid)) (decode_latest_submission row)) of
        Inl e \<Rightarrow> Inl e
      | Inr (sub, t, ident) \<Rightarrow>
          Inr (sub, t, if ident = zero_OrderIdentifier
            then NewOrderIdentifier (as_VenueID defaultAssignment) (as_Wallet defaultAssignment) oid else ident))"

text \<open>An empty payload counts as no status.\<close>

definition decode_status :: "WsOrder blob \<Rightarrow> store_error + WsOrder option" where
  "decode_status b = (if b = NotJson [] then Inr None else map_sum id Some (Unmarshal b))"

definition select_status ::
  "OrderIdentifier \<Rightarrow> OrderId \<Rightarrow> string \<Rightarrow> db \<Rightarrow> store_error + WsOrder option \<times> OrderIdentifier" where
  "select_status ident oid oidHex d =
     (case FetchLatestHyperliquidStatus (Venue ident) (oi_Wallet ident) oidHex d of
        Inr row \<Rightarrow> map_sum id (\<lambda>st. (st, ident)) (decode_status (sh_PayloadBlob row))
      | Inl ErrNoRows \<Rightarrow>
          (case FetchLatestHyperliquidStatusAnyIdentifier oidHex d of
             Inl ErrNoRows \<Rightarrow> Inr (None, ident)
           | Inl e \<Rightarrow> Inl e
           | Inr row \<Rightarrow>
               map_sum id (\<lambda>st. case st of
                   None \<Rightarrow> (None, ident)
                 | Some _ \<Rightarrow> (st, NewOrderIdentifier (sh_VenueID row) (sh_Wallet row) oid))
                 (decode_status (sh_PayloadBlob row)))
      | Inl e \<Rightarrow> Inl e)"

fun event_entries ::
  "OrderId \<Rightarrow> OrderIdentifier \<Rightarrow> ThreecommasBoteventsLog list \<Rightarrow> store_error + OrderLogItem list" where
  "event_entries oid ident [] = Inr []"
| "event_entries oid ident (row # rows) =
     (case Unmarshal (be_Payload row) of
        Inl e \<Rightarrow> Inl e
      | Inr evt \<Rightarrow>
          map_sum id (Cons ((new_LogItem ThreeCommasEvent oid (UnixMilli (be_ObservedAtUtc row)) ident)
            \<lparr>li_BotEvent := Some evt\<rparr>)) (event_entries oid ident rows))"

text \<open>The loop over the status history also moves the latest status and the selected identifier on.\<close>

fun status_entries ::
  "OrderId \<Rightarrow> HyperliquidStatusHistory list \<Rightarrow> WsOrder option \<times> OrderIdentifier
    \<Rightarrow> store_error + OrderLogItem list \<times> WsOrder option \<times> OrderIdentifier" where
  "status_entries oid [] cur = Inr ([], cur)"
| "status_entries oid (row # rows) cur =
     (case Unmarshal (sh_PayloadBlob row) of
        Inl e \<Rightarrow> Inl e
      | Inr st \<Rightarrow>
          let ident = ensureIdentifier (NewOrderIdentifier (sh_VenueID row) (sh_Wallet row) oid)
          in map_sum id (map_prod (Cons ((new_LogItem HyperliquidStatusEntry oid
                 (UnixMilli (sh_RecordedAtUtc row)) ident)\<lparr>li_Status := Some st\<rparr>)) id)
               (status_entries oid rows (Some st, ident)))"

fun audit_entries :: "OrderId \<Rightarrow> ScaledOrder list \<Rightarrow> store_error + OrderLogItem list" where
  "audit_entries oid [] = Inr []"
| "audit_entries oid (row # rows) =
     (case convertScaledOrderFromAuditRow row of
        Inl e \<Rightarrow> Inl e
      | Inr audit \<Rightarrow>
          let ident = ensureIdentifier (NewOrderIdentifier (so_VenueID row) (so_Wallet row) oid)
          in map_sum id (Cons ((new_LogItem ScaledOrderAuditEntry oid (sa_CreatedAt audit) ident)
               \<lparr>li_ScaledAudit := Some (toAPIScaledOrderAudit audit),
                li_Actor := Some (sa_MultiplierUpdatedBy audit)\<rparr>)) (audit_entries oid rows))"

definition submission_entry :: "OrderId \<Rightarrow> OrderIdentifier \<Rightarrow> submission option \<Rightarrow> time option \<Rightarrow> OrderLogItem list" where
  "submission_entry oid ident sub submissionTime =
     (case (sub, submissionTime) of
        (Some x, Some t) \<Rightarrow> [(new_LogItem HyperliquidSubmissionEntry oid t ident)\<lparr>li_Submission := Some x\<rparr>]
      | _ \<Rightarrow> [])"

definition log_from :: "ListOrdersOptions \<Rightarrow> int" where
  "log_from opts = (case lo_ObservedFrom opts of None \<Rightarrow> - (2 ^ 63) | Some t \<Rightarrow> to_UnixMilli t)"

definition log_to :: "ListOrdersOptions \<Rightarrow> int" where
  "log_to opts = (case lo_ObservedTo opts of None \<Rightarrow> 2 ^ 63 - 1 | Some t \<Rightarrow> to_UnixMilli t)"

definition order_log ::
  "ListOrdersOptions \<Rightarrow> OrderId \<Rightarrow> string \<Rightarrow> submission option \<Rightarrow> time option \<Rightarrow> WsOrder option \<Rightarrow> OrderIdentifier
    \<Rightarrow> db \<Rightarrow> store_error + OrderLogItem list \<times> WsOrder option \<times> OrderIdentifier" where
  "order_log opts oid oidHex sub submissionTime st ident d =
     (case event_entries oid ident
             (ListThreeCommasBotEventLogsForOrderId oidHex (log_from opts) (log_to opts) d) of
        Inl e \<Rightarrow> Inl e
      | Inr evts \<Rightarrow>
          (case status_entries oid (ListHyperliquidStatusesForOrderId (Venue ident) oidHex
                  (Some (oi_Wallet ident)) (log_from opts) (log_to opts) d) (st, ident) of
             Inl e \<Rightarrow> Inl e
           | Inr (sts, st', ident') \<Rightarrow>
               (case audit_entries oid (ListScaledOrderAuditsForOrderId (Venue ident) oidHex (oidHex @ ''#'')
                       (log_from opts) (log_to opts) d) of
                  Inl e \<Rightarrow> Inl e
                | Inr audits \<Rightarrow>
                    Inr (evts @ sts @ audits @ submission_entry oid ident' sub submissionTime, st', ident'))))"

text \<open>The body of the loop over the orders of the page.\<close>

definition order_view ::
  "(OrderLogItem list \<Rightarrow> OrderLogItem list) \<Rightarrow> ListOrdersOptions \<Rightarrow> VenueAssignment \<Rightarrow> db \<Rightarrow> OrderId \<Rightarrow> string
    \<Rightarrow> store_error + submission option \<times> WsOrder option \<times> OrderIdentifier \<times> OrderLogItem list" where
  "order_view sorter opts defaultAssignment d oid oidHex =
     (case select_submission defaultAssignment oid oidHex d of
        Inl e \<Rightarrow> Inl e
      | Inr (sub, submissionTime, ident) \<Rightarrow>
          (case select_status ident oid oidHex d of
             Inl e \<Rightarrow> Inl e
           | Inr (st, ident) \<Rightarrow>
               let ident = ensureIdentifier ident in
               if lo_IncludeLog opts
               then (case order_log opts oid oidHex sub submissionTime st ident d of
                   Inl e \<Rightarrow> Inl e
                 | Inr (entries, st, ident) \<Rightarrow> Inr (sub, st, ident, sorter entries))
               else Inr (sub, st, ident, [])))"

fun decode_orders :: "ThreecommasBotevent list \<Rightarrow> store_error + (string \<times> OrderItem) list" where
  "decode_orders [] = Inr []"
| "decode_orders (row # rows) =
     (case decode_order_id (be_OrderID row) of
        Inl e \<Rightarrow> Inl e
      | Inr oid \<Rightarrow>
          (case Unmarshal (be_Payload row) of
             Inl e \<Rightarrow> Inl e
           | Inr event \<Rightarrow>
               map_sum id (Cons (be_OrderID row, \<lparr>it_OrderId = oid, it_ObservedAt = UnixMilli (be_ObservedAtUtc row),
                   it_BotEvent = Some event, it_LatestSubmission = None, it_LatestStatus = None,
                   it_Identifier = None, it_LogEntries = []\<rparr>)) (decode_orders rows)))"

fun view_orders :: "(string \<Rightarrow> store_error + 'v) \<Rightarrow> string list \<Rightarrow> store_error + (string \<times> 'v) list" where
  "view_orders f [] = Inr []"
| "view_orders f (h # hs) =
     (case f h of Inl e \<Rightarrow> Inl e | Inr v \<Rightarrow> map_sum id (Cons (h, v)) (view_orders f hs))"

definition fill_item ::
  "(string \<times> submission option \<times> WsOrder option \<times> OrderIdentifier \<times> OrderLogItem list) list
    \<Rightarrow> string \<times> OrderItem \<Rightarrow> OrderItem" where
  "fill_item views row =
     (case map_of views (fst row) of
        None \<Rightarrow> snd row
      | Some (sub, st, ident, entries) \<Rightarrow>
          (snd row)\<lparr>it_LatestSubmission := sub, it_LatestStatus := st, it_Identifier := Some ident,
            it_LogEntries := entries\<rparr>)"

definition order_prefix :: "ListOrdersOptions \<Rightarrow> string option" where
  "order_prefix opts =
     (case lo_OrderIdPrefix opts of
        None \<Rightarrow> None
      | Some p \<Rightarrow> if TrimSpace p = [] then None else Some (ToLower (TrimSpace p)))"

definition ListOrders ::
  "(string list \<Rightarrow> string list) \<Rightarrow> (OrderLogItem list \<Rightarrow> OrderLogItem list) \<Rightarrow> ListOrdersOptions \<Rightarrow> db
    \<Rightarrow> store_error + OrderItem list \<times> string option" where
  "ListOrders iter sorter opts d =
     (let lmt = default_limit (lo_Limit opts) in
      case page_cursor (lo_PageToken opts) of
        Inl e \<Rightarrow> Inl e
      | Inr cursor \<Rightarrow>
          let rows = ListThreeCommasBotEventsForAPI (lo_BotID opts) (lo_DealID opts) (lo_BotEventID opts)
                (map_option to_UnixMilli (lo_ObservedFrom opts)) (map_option to_UnixMilli (lo_ObservedTo opts))
                (order_prefix opts) (map_option fst cursor) (map_option snd cursor) (lmt + 1) d
          in if rows = [] then Inr ([], None)
             else let (rows, nextToken) = cut_page event_row_key lmt rows in
               (case decode_orders rows of
                  Inl e \<Rightarrow> Inl e
                | Inr items \<Rightarrow>
                    (case defaultVenueAssignmentLocked d of
                       Inl e \<Rightarrow> Inl e
                     | Inr dflt \<Rightarrow>
                         (case view_orders (\<lambda>h. order_view sorter opts dflt d (it_OrderId (the (map_of items h))) h)
                                 (iter (remdups (map fst items))) of
                            Inl e \<Rightarrow> Inl e
                          | Inr views \<Rightarrow> Inr (map (fill_item views) items, nextToken)))))"

section \<open>Multipliers\<close>

record ListOrderScalersOptions =
  ls_OrderIdPrefix :: "string option"
  ls_BotID :: "int option"
  ls_DealID :: "int option"
  ls_BotEventID :: "int option"
  ls_Limit :: int
  ls_PageToken :: string

record OrderScalerConfigItem =
  ci_OrderId :: OrderId
  ci_ObservedAt :: time
  ci_Actor :: string
  ci_Config :: api_EffectiveOrderScaler

fun scaler_items :: "db \<Rightarrow> OrderItem list \<Rightarrow> store_error + OrderScalerConfigItem list" where
  "scaler_items d [] = Inr []"
| "scaler_items d (row # rows) =
     (case ResolveEffectiveOrderScaler (it_OrderId row) d of
        Inl e \<Rightarrow> Inl e
      | Inr e \<Rightarrow>
          map_sum id (Cons \<lparr>ci_OrderId = it_OrderId row, ci_ObservedAt = UpdatedAt e, ci_Actor = Actor e,
            ci_Config = toAPIEffectiveOrderScaler e\<rparr>) (scaler_items d rows))"

definition ListOrderScalers ::
  "(string list \<Rightarrow> string list) \<Rightarrow> (OrderLogItem list \<Rightarrow> OrderLogItem list) \<Rightarrow> ListOrderScalersOptions \<Rightarrow> db
    \<Rightarrow> store_error + OrderScalerConfigItem list \<times> string option" where
  "ListOrderScalers iter sorter opts d =
     (case ListOrders iter sorter
             \<lparr>lo_OrderIdPrefix = ls_OrderIdPrefix opts, lo_BotID = ls_BotID opts, lo_DealID = ls_DealID opts,
              lo_BotEventID = ls_BotEventID opts, lo_ObservedFrom = None, lo_ObservedTo = None,
              lo_IncludeLog = False, lo_Limit = default_limit (ls_Limit opts), lo_PageToken = ls_PageToken opts\<rparr> d of
        Inl e \<Rightarrow> Inl e
      | Inr (rows, nextToken) \<Rightarrow> map_sum id (\<lambda>items. (items, nextToken)) (scaler_items d rows))"

end
