(* ===== verification/Listing_Props.thy ===== *)
theory Listing_Props
  imports Listing
begin

text \<open>
  What the listings promise: page tokens decode to what they encode, a listing of a well-formed
  database never fails, and what a client sees that follows the page tokens.
\<close>

section \<open>Page tokens\<close>

definition int64 :: "int \<Rightarrow> bool" where
  "int64 v \<longleftrightarrow> - (2 ^ 63) \<le> v \<and> v < 2 ^ 63"

lemma digit_char:
  assumes "n < 10"
  shows "is_digit (char_of (48 + n :: nat))" and "digit_val (char_of (48 + n :: nat)) = int n"
proof -
  have "(of_char (char_of (48 + n :: nat)) :: int) = int (of_char (char_of (48 + n :: nat)))"
    by (simp only: of_nat_of_char)
  also have "\<dots> = 48 + int n" using assms by simp
  finally show "is_digit (char_of (48 + n :: nat))" and "digit_val (char_of (48 + n :: nat)) = int n"
    using assms by (simp_all add: is_digit_def digit_val_def Let_def)
qed

lemma digits_val_snoc: "digits_val (ds @ [c]) = 10 * digits_val ds + digit_val c"
  by (simp add: digits_val_def)

lemma show_nat_digits: "show_nat n \<noteq> [] \<and> list_all is_digit (show_nat n) \<and> digits_val (show_nat n) = int n"
proof (induction n rule: show_nat.induct)
  case (1 n)
  show ?case
  proof (cases "n < 10")
    case True
    then show ?thesis using digit_char [of n] by (simp add: show_nat.simps [of n] digits_val_def)
  next
    case False
    then have eq: "show_nat n = show_nat (n div 10) @ [char_of (48 + n mod 10)]"
      by (simp add: show_nat.simps [of n])
    have "10 * int (n div 10) + int (n mod 10) = int n"
      by (metis mult_div_mod_eq of_nat_add of_nat_mult of_nat_numeral)
    then show ?thesis
      unfolding eq using 1 [OF False] digit_char [of "n mod 10"] by (simp add: digits_val_snoc)
  qed
qed

lemma sign_not_digit: "is_digit c \<Longrightarrow> c \<noteq> CHR ''-'' \<and> c \<noteq> CHR ''+'' \<and> c \<noteq> cursorSeparator"
  by (auto simp: is_digit_def cursorSeparator_def)

lemma take_sign_digits: "ds \<noteq> [] \<Longrightarrow> list_all is_digit ds \<Longrightarrow> take_sign ds = (False, ds)"
  using sign_not_digit by (cases ds) auto

lemma ParseInt_show: "int64 v \<Longrightarrow> ParseInt (show_int v) = Some v"
  using show_nat_digits [of "nat v"] show_nat_digits [of "nat (- v)"] take_sign_digits [of "show_nat (nat v)"]
  by (auto simp: ParseInt_def show_int_def int64_def)

lemma separator_notin_show: "cursorSeparator \<notin> set (show_int v)"
  using show_nat_digits [of "nat v"] show_nat_digits [of "nat (- v)"] sign_not_digit
  by (auto simp: show_int_def list_all_iff cursorSeparator_def)

lemma Split_none: "c \<notin> set s \<Longrightarrow> Split s c = [s]"
  by (induction s) auto

lemma Split_append: "c \<notin> set a \<Longrightarrow> Split (a @ c # b) c = a # Split b c"
  by (induction a) auto

lemma decode_encode_cursor: "int64 p \<Longrightarrow> int64 q \<Longrightarrow> decodeCursor (encodeCursor p q) = Inr (p, q)"
  using separator_notin_show [of p] separator_notin_show [of q]
  by (simp add: decodeCursor_def encodeCursor_def Split_append Split_none ParseInt_show)

lemma page_cursor_Nil [simp]: "page_cursor [] = Inr None"
  by (simp add: page_cursor_def)

lemma page_cursor_encode: "int64 p \<Longrightarrow> int64 q \<Longrightarrow> page_cursor (encodeCursor p q) = Inr (Some (p, q))"
  using decode_encode_cursor [of p q] by (auto simp: page_cursor_def encodeCursor_def)

section \<open>Following the tokens\<close>

text \<open>The pages a client collects that starts without a token and takes up to \<open>n\<close> pages.\<close>

fun page_chain :: "(string \<Rightarrow> store_error + 'i list \<times> string option) \<Rightarrow> nat \<Rightarrow> string \<Rightarrow> 'i list list" where
  "page_chain f 0 token = []"
| "page_chain f (Suc n) token =
     (case f token of
        Inl _ \<Rightarrow> []
      | Inr (items, None) \<Rightarrow> [items]
      | Inr (items, Some t) \<Rightarrow> items # page_chain f n t)"

text \<open>The pages as cut from the whole listing.\<close>

fun shown_pages :: "nat \<Rightarrow> nat \<Rightarrow> 'a list \<Rightarrow> 'a list list" where
  "shown_pages l 0 xs = []"
| "shown_pages l (Suc n) xs =
     (if length xs \<le> l then [xs] else take l xs # shown_pages l n (drop (Suc l) xs))"

lemma nths_cut:
  assumes "l < length xs"
  shows "nths xs {i. i mod Suc l \<noteq> l} = take l xs @ nths (drop (Suc l) xs) {i. i mod Suc l \<noteq> l}"
proof -
  have xs: "xs = take l xs @ xs ! l # drop (Suc l) xs" using assms by (rule id_take_nth_drop)
  have len: "length (take l xs) = l" using assms by simp
  have a: "nths (take l xs) {i. i mod Suc l \<noteq> l} = take l xs"
    by (rule nths_all) (use assms in auto)
  have b: "{j. j + l \<in> {i. i mod Suc l \<noteq> l}} \<inter> {0} = {}" by simp
  have c: "{j. Suc j \<in> {j. j + l \<in> {i. i mod Suc l \<noteq> l}}} = {i. i mod Suc l \<noteq> l}"
  proof -
    have "(Suc j + l) mod Suc l = j mod Suc l" for j
      using mod_add_self2 [of j "Suc l"] by (simp add: add.commute)
    then show ?thesis by simp
  qed
  have "nths xs {i. i mod Suc l \<noteq> l} =
      nths (take l xs) {i. i mod Suc l \<noteq> l} @ nths (xs ! l # drop (Suc l) xs) {j. j + l \<in> {i. i mod Suc l \<noteq> l}}"
    by (subst xs, subst nths_append) (simp only: len)
  also have "nths (xs ! l # drop (Suc l) xs) {j. j + l \<in> {i. i mod Suc l \<noteq> l}} =
      nths (drop (Suc l) xs) {i. i mod Suc l \<noteq> l}"
    by (subst nths_Cons, subst c) simp
  finally show ?thesis by (simp only: a)
qed

lemma concat_shown_pages: "length xs < n \<Longrightarrow> concat (shown_pages l n xs) = nths xs {i. i mod Suc l \<noteq> l}"
proof (induction l n xs rule: shown_pages.induct)
  case (2 l n xs)
  show ?case
  proof (cases "length xs \<le> l")
    case True
    then have "nths xs {i. i mod Suc l \<noteq> l} = xs" by (intro nths_all) auto
    with True show ?thesis by simp
  next
    case False
    with 2 show ?thesis by (simp add: nths_cut)
  qed
qed simp

text \<open>
  A listing in descending order of a key, whose token names the row after the page, and which
  goes on with the rows that come strictly after the one named. \<open>ok\<close> are the states in which the
  provider keeps this contract.
\<close>

locale keyset_pages =
  fixes ok :: "'s \<Rightarrow> bool" and key :: "'r \<Rightarrow> int \<times> int" and rows :: "'s \<Rightarrow> 'r list" and item :: "'s \<Rightarrow> 'r \<Rightarrow> 'i"
    and lmt :: "'s \<Rightarrow> nat" and list_page :: "'s \<Rightarrow> string \<Rightarrow> store_error + 'i list \<times> string option"
  assumes rows_desc: "ok s \<Longrightarrow> sorted_wrt (\<lambda>a b. before_cursor (key a) (key b)) (rows s)"
    and key_int64: "ok s \<Longrightarrow> r \<in> set (rows s) \<Longrightarrow> int64 (fst (key r)) \<and> int64 (snd (key r))"
    and list_page: "ok s \<Longrightarrow> page_cursor token = Inr c \<Longrightarrow> list_page s token =
      Inr (map_prod (map (item s)) id (cut_page key (int (lmt s))
        (limit_rows (int (lmt s) + 1) (filter (\<lambda>r. null_or c (\<lambda>c. before_cursor c (key r))) (rows s)))))"
begin

lemma cut_limited:
  "cut_page key (int l) (limit_rows (int l + 1) xs) =
     (take l xs, if l < length xs then Some (encodeCursor (fst (key (xs ! l))) (snd (key (xs ! l)))) else None)"
  by (auto simp: cut_page_def limit_rows_def nat_add_distrib min_def)

lemma after_row:
  assumes "ok s" and "i < length (rows s)"
  shows "filter (\<lambda>r. before_cursor (key (rows s ! i)) (key r)) (rows s) = drop (Suc i) (rows s)"
proof -
  let ?xs = "rows s" and ?P = "\<lambda>r. before_cursor (key (rows s ! i)) (key r)"
  have sorted: "before_cursor (key (?xs ! j)) (key (?xs ! k))" if "j < k" "k < length ?xs" for j k
    using sorted_wrt_nth_less [OF rows_desc [OF assms(1)] that] .
  have "\<not> ?P r" if r: "r \<in> set (take (Suc i) ?xs)" for r
  proof -
    from r obtain j where "j < length (take (Suc i) ?xs)" "r = take (Suc i) ?xs ! j" by (metis in_set_conv_nth)
    then have j: "j \<le> i" "r = ?xs ! j" by simp_all
    then show ?thesis using sorted [of j i] assms(2) by (cases "j = i") (auto simp: before_cursor_def)
  qed
  then have "filter ?P (take (Suc i) ?xs) = []" by (simp add: filter_empty_conv)
  moreover have "filter ?P (drop (Suc i) ?xs) = drop (Suc i) ?xs"
    using sorted by (intro filter_True) (auto simp: in_set_conv_nth)
  ultimately show ?thesis by (metis append_Nil append_take_drop_id filter_append)
qed

lemma page_at:
  assumes "ok s" and "page_cursor token = Inr c"
    and "filter (\<lambda>r. null_or c (\<lambda>c. before_cursor c (key r))) (rows s) = drop k (rows s)"
  shows "page_chain (list_page s) n token = map (map (item s)) (shown_pages (lmt s) n (drop k (rows s)))"
  using assms
proof (induction n arbitrary: token c k)
  case (Suc n)
  let ?l = "lmt s" and ?xs = "drop k (rows s)"
  have page: "list_page s token = Inr (map (item s) (take ?l ?xs),
      if ?l < length ?xs then Some (encodeCursor (fst (key (?xs ! ?l))) (snd (key (?xs ! ?l)))) else None)"
    by (simp add: list_page [OF Suc.prems(1,2)] Suc.prems(3) cut_limited)
  show ?case
  proof (cases "?l < length ?xs")
    case False
    then show ?thesis by (simp add: page)
  next
    case True
    let ?r = "rows s ! (k + ?l)"
    have r: "?xs ! ?l = ?r" "k + ?l < length (rows s)" using True by auto
    have "page_cursor (encodeCursor (fst (key ?r)) (snd (key ?r))) = Inr (Some (key ?r))"
      using key_int64 [OF Suc.prems(1)] r(2) by (simp add: page_cursor_encode)
    from Suc.IH [OF Suc.prems(1) this, of "Suc (k + ?l)"] show ?thesis
      using True after_row [OF Suc.prems(1) r(2)] r
      by (simp add: page null_or_def take_map add.commute)
  qed
qed simp

lemma follow_tokens:
  assumes "ok s" and "length (rows s) < n"
  shows "concat (page_chain (list_page s) n []) = map (item s) (nths (rows s) {i. i mod Suc (lmt s) \<noteq> lmt s})"
  using page_at [OF assms(1) page_cursor_Nil, of 0 n] concat_shown_pages [OF assms(2), of "lmt s"]
  by (simp add: null_or_def flip: map_concat)

text \<open>A page that holds the whole listing has no token.\<close>

lemma whole:
  assumes "ok s" and "list_page s [] = Inr (items, None)"
  shows "items = map (item s) (rows s)"
  using assms(2) by (simp add: list_page [OF assms(1) page_cursor_Nil] null_or_def cut_limited split: if_splits)

end

section \<open>The listings keep the contract\<close>

lemma order_by_filter: "order_by k (filter P xs) = filter P (order_by k xs)"
  by (simp add: order_by_def filter_sort)

lemma order_by_desc:
  assumes "keys_unique ident rows"
  shows "sorted_wrt (\<lambda>a b. before_cursor (t a, ident a) (t b, ident b)) (order_by (\<lambda>r. (- t r :: int, - ident r)) rows)"
proof -
  let ?k = "\<lambda>r. (- t r, - ident r)" and ?xs = "order_by (\<lambda>r. (- t r, - ident r)) rows"
  have "distinct (map ident ?xs)" using assms by (simp add: keys_unique_def)
  then have "distinct (map ?k ?xs)" by (auto simp: distinct_map inj_on_def)
  then have "sorted_wrt (<) (map ?k ?xs)" using sorted_order_by by (simp add: strict_sorted_iff)
  then show ?thesis
    by (auto simp: sorted_wrt_map before_cursor_def less_prod_def elim: sorted_wrt_mono_rel [rotated])
qed

lemma default_limit_nonneg [simp]: "0 \<le> default_limit l" "\<not> default_limit l < 0"
  by (simp_all add: default_limit_def)

lemma all_cut_limit: "\<forall>r \<in> set xs. P r \<Longrightarrow> \<forall>r \<in> set (fst (cut_page key l (limit_rows n xs))). P r"
  by (auto simp: cut_page_def limit_rows_def dest: in_set_takeD)

subsection \<open>Bots\<close>

definition bot_rows :: "ListBotsOptions \<times> db \<Rightarrow> ThreecommasBot list" where
  "bot_rows s = order_by (\<lambda>r. (- bt_LastSyncedUtc r, - bt_BotID r)) (filter (bot_selected (fst s)) (db_bots (snd s)))"

definition bot_item :: "ThreecommasBot \<Rightarrow> BotItem" where
  "bot_item r = \<lparr>bi_Bot = projr (Unmarshal (bt_Payload r)), bi_LastSyncedAt = UnixMilli (bt_LastSyncedUtc r)\<rparr>"

definition bot_columns :: "db \<Rightarrow> bool" where
  "bot_columns d \<longleftrightarrow> list_all (\<lambda>r. int64 (bt_LastSyncedUtc r) \<and> int64 (bt_BotID r)) (db_bots d)"

lemma decode_bots_eq: "\<forall>r \<in> set rows. \<exists>b. bt_Payload r = Doc b \<Longrightarrow> decode_bots rows = Inr (map bot_item rows)"
  by (induction rows) (auto simp: bot_item_def)

lemma ListBots_page:
  assumes "db_ok d" and "page_cursor token = Inr c"
  shows "ListBots (opts\<lparr>lb_PageToken := token\<rparr>) d =
    Inr (map_prod (map bot_item) id (cut_page bot_key (default_limit (lb_Limit opts))
      (limit_rows (default_limit (lb_Limit opts) + 1)
        (filter (\<lambda>r. null_or c (\<lambda>c. before_cursor c (bot_key r))) (bot_rows (opts, d))))))"
    (is "_ = Inr (map_prod _ _ (cut_page _ ?l (limit_rows _ ?rows)))")
proof -
  have "bot_selected (opts\<lparr>lb_PageToken := token\<rparr>) = bot_selected opts"
    by (simp add: bot_selected_def fun_eq_iff)
  then have rows: "order_by (\<lambda>r. (- bt_LastSyncedUtc r, - bt_BotID r))
      (filter (\<lambda>r. bot_selected (opts\<lparr>lb_PageToken := token\<rparr>) r \<and> null_or c (\<lambda>c. before_cursor c (bot_key r))) (db_bots d)) =
      ?rows"
    by (simp add: bot_rows_def order_by_filter conj_commute)
  have "\<forall>r \<in> set ?rows. \<exists>b. bt_Payload r = Doc b"
    using db_okD(6) [OF assms(1)] by (auto simp: bot_rows_def bots_ok_def)
  then have "decode_bots (fst (cut_page bot_key ?l (limit_rows (?l + 1) ?rows))) =
      Inr (map bot_item (fst (cut_page bot_key ?l (limit_rows (?l + 1) ?rows))))"
    by (intro decode_bots_eq all_cut_limit)
  then show ?thesis
    by (simp add: ListBots_def Let_def assms(2) rows split_beta map_prod_def)
qed

interpretation bot_pages: keyset_pages
  "\<lambda>s. db_ok (snd s) \<and> bot_columns (snd s)" bot_key bot_rows "\<lambda>_. bot_item"
  "\<lambda>s. nat (default_limit (lb_Limit (fst s)))" "\<lambda>s token. ListBots (fst s\<lparr>lb_PageToken := token\<rparr>) (snd s)"
proof (unfold_locales, goal_cases)
  case (1 s)
  then show ?case
    unfolding bot_key_def bot_rows_def
    by (intro order_by_desc keys_unique_filter) (auto simp: bots_ok_def dest: db_okD(6))
next
  case (2 s r)
  then show ?case by (auto simp: bot_columns_def list_all_iff bot_rows_def bot_key_def)
next
  case (3 s token c)
  then show ?case using ListBots_page [of "snd s" token c "fst s"] by simp
qed

subsection \<open>Deals\<close>

definition deal_rows :: "ListDealsOptions \<times> db \<Rightarrow> ThreecommasDeal list" where
  "deal_rows s = order_by (\<lambda>r. (- td_UpdatedAtUtc r, - td_DealID r)) (filter (deal_selected (fst s)) (db_deals (snd s)))"

definition deal_item :: "ThreecommasDeal \<Rightarrow> Deal" where
  "deal_item r = projr (Unmarshal (td_Payload r))"

definition deal_columns :: "db \<Rightarrow> bool" where
  "deal_columns d \<longleftrightarrow> list_all (\<lambda>r. int64 (td_UpdatedAtUtc r) \<and> int64 (td_DealID r)) (db_deals d)"

lemma decode_deals_eq:
  "\<forall>r \<in> set rows. \<exists>b. td_Payload r = Doc b \<Longrightarrow> decode_list (map td_Payload rows) = Inr (map deal_item rows)"
  by (induction rows) (auto simp: deal_item_def)

lemma ListDeals_page:
  assumes "db_ok d" and "page_cursor token = Inr c"
  shows "ListDeals (opts\<lparr>ld_PageToken := token\<rparr>) d =
    Inr (map_prod (map deal_item) id (cut_page deal_row_key (default_limit (ld_Limit opts))
      (limit_rows (default_limit (ld_Limit opts) + 1)
        (filter (\<lambda>r. null_or c (\<lambda>c. before_cursor c (deal_row_key r))) (deal_rows (opts, d))))))"
    (is "_ = Inr (map_prod _ _ (cut_page _ ?l (limit_rows _ ?rows)))")
proof -
  have "deal_selected (opts\<lparr>ld_PageToken := token\<rparr>) = deal_selected opts"
    by (simp add: deal_selected_def fun_eq_iff)
  then have rows: "order_by (\<lambda>r. (- td_UpdatedAtUtc r, - td_DealID r))
      (filter (\<lambda>r. deal_selected (opts\<lparr>ld_PageToken := token\<rparr>) r \<and> null_or c (\<lambda>c. before_cursor c (deal_row_key r))) (db_deals d)) =
      ?rows"
    by (simp add: deal_rows_def order_by_filter conj_commute)
  have "\<forall>r \<in> set ?rows. \<exists>b. td_Payload r = Doc b"
    using db_okD(7) [OF assms(1)] by (auto simp: deal_rows_def deals_ok_def)
  then have "decode_list (map td_Payload (fst (cut_page deal_row_key ?l (limit_rows (?l + 1) ?rows)))) =
      Inr (map deal_item (fst (cut_page deal_row_key ?l (limit_rows (?l + 1) ?rows))))"
    by (intro decode_deals_eq all_cut_limit)
  then show ?thesis
    by (simp add: ListDeals_def Let_def assms(2) rows split_beta map_prod_def)
qed

interpretation deal_pages: keyset_pages
  "\<lambda>s. db_ok (snd s) \<and> deal_columns (snd s)" deal_row_key deal_rows "\<lambda>_. deal_item"
  "\<lambda>s. nat (default_limit (ld_Limit (fst s)))" "\<lambda>s token. ListDeals (fst s\<lparr>ld_PageToken := token\<rparr>) (snd s)"
proof (unfold_locales, goal_cases)
  case (1 s)
  then show ?case
    unfolding deal_row_key_def deal_rows_def
    by (intro order_by_desc keys_unique_filter) (auto simp: deals_ok_def dest: db_okD(7))
next
  case (2 s r)
  then show ?case by (auto simp: deal_columns_def list_all_iff deal_rows_def deal_row_key_def)
next
  case (3 s token c)
  then show ?case using ListDeals_page [of "snd s" token c "fst s"] by simp
qed

subsection \<open>Orders\<close>

lemma map_sum_ex_Inr: "(\<exists>y. map_sum f g x = Inr y) \<longleftrightarrow> (\<exists>y. x = Inr y)"
  by (cases x) auto

lemma decode_latest_submission_total:
  assumes "sub_row_ok r"
  shows "\<exists>sub. decode_latest_submission r = Inr sub"
proof -
  have k: "ToLower (TrimSpace (hs_ActionKind r)) = hs_ActionKind r"
    using assms kind_trim by (auto simp: sub_row_ok_def)
  have "\<exists>x. load_create (hs_ActionKind r) r = Inr x" if "hs_ActionKind r = ''create''"
    using assms that by (auto simp: load_create_def decodeCreateRequest_def sub_row_ok_def
        split: option.splits blob.splits elim!: json_valid.elims(2))
  moreover have "\<exists>x. decodeLatestModifyRequest (hs_ModifyPayloads r) b = Inr x" if "hs_ActionKind r = ''modify''" for b
    using assms that decode_list_last [of "hs_ModifyPayloads r" zero_Modify]
    by (auto simp: decodeLatestModifyRequest_def sub_row_ok_def)
  moreover have "\<exists>x. load_cancel (hs_ActionKind r) r = Inr x" if "hs_ActionKind r = ''cancel''"
    using assms that by (auto simp: load_cancel_def decodeCancelRequest_def sub_row_ok_def
        split: option.splits blob.splits elim!: json_valid.elims(2))
  ultimately show ?thesis
    by (simp add: decode_latest_submission_def k Let_def map_sum_ex_Inr)
qed

lemma select_submission_total:
  assumes "db_ok d"
  shows "\<exists>x. select_submission dflt oid h d = Inr x"
proof -
  let ?q = "FetchLatestHyperliquidSubmissionAnyIdentifier h d"
  have "(\<exists>r \<in> set (db_submissions d). ?q = Inr r) \<or> ?q = Inl ErrNoRows"
    using one_cases [of "order_by (\<lambda>r. - hs_UpdatedAtUtc r) (filter (\<lambda>r. hs_OrderID r = h) (db_submissions d))"]
    by (auto simp: FetchLatestHyperliquidSubmissionAnyIdentifier_def)
  then show ?thesis
  proof (elim disjE bexE)
    fix r assume r: "r \<in> set (db_submissions d)" "?q = Inr r"
    then have "sub_row_ok r" using db_okD(3) [OF assms] by (simp add: subs_ok_def)
    then obtain sub where "decode_latest_submission r = Inr sub" using decode_latest_submission_total by blast
    with r show ?thesis by (simp add: select_submission_def)
  qed (simp add: select_submission_def)
qed

lemma status_row_valid: "db_ok d \<Longrightarrow> r \<in> set (db_statuses d) \<Longrightarrow> \<exists>st. sh_PayloadBlob r = Doc st"
  by (metis db_okD(4) json_valid.elims(2) status_row_ok_def statuses_ok_def)

lemma select_status_total:
  assumes "db_ok d"
  shows "\<exists>x. select_status i oid h d = Inr x"
proof -
  have one: "(\<exists>r st. one (order_by k (filter P (db_statuses d))) = Inr r \<and> sh_PayloadBlob r = Doc st) \<or>
      one (order_by k (filter P (db_statuses d))) = Inl ErrNoRows" for k :: "HyperliquidStatusHistory \<Rightarrow> int" and P
    using one_cases [of "order_by k (filter P (db_statuses d))"] status_row_valid [OF assms] by auto
  show ?thesis
    using one [of "\<lambda>r. - sh_RecordedAtUtc r" "\<lambda>r. sh_order r = (Venue i, oi_Wallet i, h)"]
      one [of "\<lambda>r. - sh_RecordedAtUtc r" "\<lambda>r. sh_OrderID r = h"]
    by (auto simp: select_status_def FetchLatestHyperliquidStatus_def FetchLatestHyperliquidStatusAnyIdentifier_def
        decode_status_def)
qed

lemma event_entries_total:
  "\<forall>r \<in> set rows. json_valid (be_Payload r) \<Longrightarrow> \<exists>es. event_entries oid i rows = Inr es"
  by (induction rows) (auto elim!: json_valid.elims(2))

lemma status_entries_total:
  "\<forall>r \<in> set rows. \<exists>st. sh_PayloadBlob r = Doc st \<Longrightarrow> \<exists>es. status_entries oid rows cur = Inr es"
proof (induction rows arbitrary: cur)
  case (Cons r rows)
  then obtain st where "sh_PayloadBlob r = Doc st" by auto
  moreover obtain es where "status_entries oid rows
      (Some st, ensureIdentifier (NewOrderIdentifier (sh_VenueID r) (sh_Wallet r) oid)) = Inr es"
    using Cons by (metis list.set_intros(2))
  ultimately show ?case by (simp add: Let_def del: split_paired_Ex)
qed simp

lemma audit_entries_total: "\<forall>r \<in> set rows. scaled_row_ok r \<Longrightarrow> \<exists>es. audit_entries oid rows = Inr es"
proof (induction rows)
  case (Cons r rows)
  then obtain a where "convertScaledOrder r = Inr a" using convertScaledOrder_ok by (metis list.set_intros(1))
  with Cons show ?case by (auto simp: convertScaledOrderFromAuditRow_def Let_def)
qed simp

lemma order_log_total:
  assumes "db_ok d"
  shows "\<exists>x. order_log opts oid h sub t st i d = Inr x"
proof -
  obtain es where "event_entries oid i (ListThreeCommasBotEventLogsForOrderId h (log_from opts) (log_to opts) d) = Inr es"
    using event_entries_total [of "ListThreeCommasBotEventLogsForOrderId h (log_from opts) (log_to opts) d"]
      db_okD(2) [OF assms] events_rows event_payload_valid
    by (fastforce simp: ListThreeCommasBotEventLogsForOrderId_def)
  moreover obtain sts where "status_entries oid (ListHyperliquidStatusesForOrderId (Venue i) h
      (Some (oi_Wallet i)) (log_from opts) (log_to opts) d) (st, i) = Inr sts"
    using status_entries_total [of "ListHyperliquidStatusesForOrderId (Venue i) h
      (Some (oi_Wallet i)) (log_from opts) (log_to opts) d"] status_row_valid [OF assms]
    by (fastforce simp: ListHyperliquidStatusesForOrderId_def)
  moreover obtain as where "audit_entries oid (ListScaledOrderAuditsForOrderId (Venue i) h (h @ ''#'')
      (log_from opts) (log_to opts) d) = Inr as"
    using audit_entries_total [of "ListScaledOrderAuditsForOrderId (Venue i) h (h @ ''#'')
      (log_from opts) (log_to opts) d"] db_okD(5) [OF assms]
    by (fastforce simp: ListScaledOrderAuditsForOrderId_def scaled_ok_def)
  ultimately show ?thesis by (auto simp: order_log_def split: prod.splits)
qed

lemma order_view_total:
  assumes "db_ok d"
  shows "\<exists>v. order_view sorter opts dflt d oid h = Inr v"
proof -
  obtain sub t i where "select_submission dflt oid h d = Inr (sub, t, i)"
    using select_submission_total [OF assms] by (metis prod_cases3)
  moreover obtain st i' where "select_status i oid h d = Inr (st, i')"
    using select_status_total [OF assms] by (metis surj_pair)
  moreover obtain es st'' i'' where "order_log opts oid h sub t st (ensureIdentifier i') d = Inr (es, st'', i'')"
    using order_log_total [OF assms] by (metis prod_cases3)
  ultimately show ?thesis by (simp add: order_view_def Let_def)
qed

definition order_selected :: "ListOrdersOptions \<Rightarrow> ThreecommasBotevent \<Rightarrow> bool" where
  "order_selected opts r \<longleftrightarrow>
     null_or (lo_BotID opts) (\<lambda>b. be_BotID r = b) \<and> null_or (lo_DealID opts) (\<lambda>b. be_DealID r = b) \<and>
     null_or (lo_BotEventID opts) (\<lambda>b. be_BoteventID r = b) \<and>
     null_or (lo_ObservedFrom opts) (\<lambda>t. to_UnixMilli t \<le> be_ObservedAtUtc r) \<and>
     null_or (lo_ObservedTo opts) (\<lambda>t. be_ObservedAtUtc r \<le> to_UnixMilli t) \<and>
     null_or (order_prefix opts) (\<lambda>p. like_prefix (ToLower (be_OrderID r)) (ToLower p))"

text \<open>What a listing of orders runs on: the iteration, the sort, the options and the database.\<close>

type_synonym order_query =
  "(string list \<Rightarrow> string list) \<times> (OrderLogItem list \<Rightarrow> OrderLogItem list) \<times> ListOrdersOptions \<times> db"

fun order_rows :: "order_query \<Rightarrow> ThreecommasBotevent list" where
  "order_rows (iter, sorter, opts, d) =
     order_by (\<lambda>r. (- be_ObservedAtUtc r, - be_ID r)) (filter (order_selected opts) (db_botevents d))"

definition base_item :: "ThreecommasBotevent \<Rightarrow> OrderItem" where
  "base_item r = \<lparr>it_OrderId = projr (decode_order_id (be_OrderID r)), it_ObservedAt = UnixMilli (be_ObservedAtUtc r),
     it_BotEvent = Some (projr (Unmarshal (be_Payload r))), it_LatestSubmission = None, it_LatestStatus = None,
     it_Identifier = None, it_LogEntries = []\<rparr>"

fun order_item :: "order_query \<Rightarrow> ThreecommasBotevent \<Rightarrow> OrderItem" where
  "order_item (iter, sorter, opts, d) r =
     (case projr (order_view sorter opts (projr (defaultVenueAssignmentLocked d)) d
             (projr (decode_order_id (be_OrderID r))) (be_OrderID r)) of
        (sub, st, ident, entries) \<Rightarrow>
          (base_item r)\<lparr>it_LatestSubmission := sub, it_LatestStatus := st, it_Identifier := Some ident,
            it_LogEntries := entries\<rparr>)"

definition event_columns :: "db \<Rightarrow> bool" where
  "event_columns d \<longleftrightarrow> list_all (\<lambda>r. int64 (be_ObservedAtUtc r) \<and> int64 (be_ID r)) (db_botevents d)"

definition iteration :: "(string list \<Rightarrow> string list) \<Rightarrow> bool" where
  "iteration iter \<longleftrightarrow> (\<forall>xs. set (iter xs) = set xs)"

lemma decode_orders_eq:
  "\<forall>r \<in> set rows. event_row_ok r \<Longrightarrow> decode_orders rows = Inr (map (\<lambda>r. (be_OrderID r, base_item r)) rows)"
  by (induction rows) (auto simp: base_item_def event_row_ok_def)

lemma view_orders_eq:
  "\<forall>h \<in> set hs. \<exists>v. f h = Inr v \<Longrightarrow> view_orders f hs = Inr (map (\<lambda>h. (h, projr (f h))) hs)"
  by (induction hs) auto

lemma map_of_graph: "map_of (map (\<lambda>h. (h, g h)) hs) h = (if h \<in> set hs then Some (g h) else None)"
  by (induction hs) auto

lemma map_of_base:
  "r \<in> set rows \<Longrightarrow> \<exists>r'. map_of (map (\<lambda>r. (be_OrderID r, base_item r)) rows) (be_OrderID r) = Some (base_item r') \<and>
     be_OrderID r' = be_OrderID r"
  by (induction rows) auto

lemma ListOrders_items:
  assumes "db_ok d" and "iteration iter" and "\<forall>r \<in> set rows. event_row_ok r"
    and "defaultVenueAssignmentLocked d = Inr dflt"
  defines "items \<equiv> map (\<lambda>r. (be_OrderID r, base_item r)) rows"
  shows "\<exists>views. view_orders (\<lambda>h. order_view sorter opts dflt d (it_OrderId (the (map_of items h))) h)
      (iter (remdups (map fst items))) = Inr views \<and>
    map (fill_item views) items = map (order_item (iter, sorter, opts, d)) rows"
proof -
  let ?f = "\<lambda>h. order_view sorter opts dflt d (it_OrderId (the (map_of items h))) h"
  let ?hs = "iter (remdups (map fst items))"
  have hs: "set ?hs = be_OrderID ` set rows"
    using assms(2) by (simp add: iteration_def items_def image_image)
  have "view_orders ?f ?hs = Inr (map (\<lambda>h. (h, projr (?f h))) ?hs)"
    using order_view_total [OF assms(1)] by (intro view_orders_eq) blast
  moreover have "fill_item (map (\<lambda>h. (h, projr (?f h))) ?hs) (be_OrderID r, base_item r) =
      order_item (iter, sorter, opts, d) r" if r: "r \<in> set rows" for r
  proof -
    obtain r' where "map_of items (be_OrderID r) = Some (base_item r')" "be_OrderID r' = be_OrderID r"
      using map_of_base [OF r] by (auto simp: items_def)
    then have "it_OrderId (the (map_of items (be_OrderID r))) = projr (decode_order_id (be_OrderID r))"
      by (simp add: base_item_def)
    then show ?thesis
      using r hs by (simp add: fill_item_def map_of_graph assms(4) split: prod.split)
  qed
  ultimately show ?thesis by (auto simp: items_def)
qed

lemma null_or_map: "null_or (map_option f x) P = null_or x (\<lambda>y. P (f y))"
    "null_or None P" "null_or (Some y) P = P y"
  by (cases x) (simp_all add: null_or_def)

text \<open>Neither the limit nor the token matters to what is shown of an order.\<close>

lemma order_view_page: "order_view sorter (opts\<lparr>lo_PageToken := token\<rparr>) = order_view sorter opts"
  and order_view_limit: "order_view sorter (opts\<lparr>lo_Limit := l\<rparr>) = order_view sorter opts"
proof -
  have eqI: "order_view sorter o1 = order_view sorter o2"
    if eq: "log_from o1 = log_from o2" "log_to o1 = log_to o2" "lo_IncludeLog o1 = lo_IncludeLog o2" for o1 o2
  proof -
    have lg: "order_log o1 = order_log o2" by (intro ext) (unfold order_log_def eq, rule refl)
    show ?thesis by (intro ext) (unfold order_view_def lg eq(3), rule refl)
  qed
  show "order_view sorter (opts\<lparr>lo_PageToken := token\<rparr>) = order_view sorter opts"
    and "order_view sorter (opts\<lparr>lo_Limit := l\<rparr>) = order_view sorter opts"
    by (rule eqI; simp add: log_from_def log_to_def)+
qed

lemma ListOrders_page:
  assumes "db_ok d" and "iteration iter" and "page_cursor token = Inr c"
  shows "ListOrders iter sorter (opts\<lparr>lo_PageToken := token\<rparr>) d =
    Inr (map_prod (map (order_item (iter, sorter, opts, d))) id (cut_page event_row_key (default_limit (lo_Limit opts))
      (limit_rows (default_limit (lo_Limit opts) + 1)
        (filter (\<lambda>r. null_or c (\<lambda>c. before_cursor c (event_row_key r))) (order_rows (iter, sorter, opts, d))))))"
    (is "_ = Inr (map_prod _ _ (cut_page _ ?l (limit_rows _ ?rows)))")
proof -
  have p [simp]: "order_prefix (opts\<lparr>lo_PageToken := token\<rparr>) = order_prefix opts" by (simp add: order_prefix_def)
  have q: "ListThreeCommasBotEventsForAPI (lo_BotID opts) (lo_DealID opts) (lo_BotEventID opts)
      (map_option to_UnixMilli (lo_ObservedFrom opts)) (map_option to_UnixMilli (lo_ObservedTo opts))
      (order_prefix opts) (map_option fst c) (map_option snd c) (?l + 1) d = limit_rows (?l + 1) ?rows"
    unfolding ListThreeCommasBotEventsForAPI_def order_rows.simps order_by_filter [symmetric] filter_filter
    by (rule arg_cong [of _ _ "\<lambda>P. limit_rows _ (order_by _ (filter P _))"], cases c)
      (simp_all add: fun_eq_iff order_selected_def null_or_map before_cursor_def event_row_key_def)
  obtain dflt where dflt: "defaultVenueAssignmentLocked d = Inr dflt"
    using defaultVenueAssignment_total [OF assms(1)] by blast
  let ?page = "fst (cut_page event_row_key ?l (limit_rows (?l + 1) ?rows))"
  have ok: "\<forall>r \<in> set ?page. event_row_ok r"
    using db_okD(1) [OF assms(1)] by (intro all_cut_limit) (auto simp: events_ok_def)
  show ?thesis
  proof (cases "limit_rows (?l + 1) ?rows = []")
    case True
    then show ?thesis
      unfolding ListOrders_def by (simp add: assms(3) q Let_def cut_page_def del: order_rows.simps)
  next
    case False
    obtain views where "view_orders (\<lambda>h. order_view sorter opts dflt d
        (it_OrderId (the (map_of (map (\<lambda>r. (be_OrderID r, base_item r)) ?page) h))) h)
        (iter (remdups (map fst (map (\<lambda>r. (be_OrderID r, base_item r)) ?page)))) = Inr views"
      "map (fill_item views) (map (\<lambda>r. (be_OrderID r, base_item r)) ?page) = map (order_item (iter, sorter, opts, d)) ?page"
      using ListOrders_items [OF assms(1,2) ok dflt, of sorter opts] by blast
    with False decode_orders_eq [OF ok] show ?thesis
      unfolding ListOrders_def
      by (simp add: assms(3) q Let_def order_view_page dflt split_beta map_prod_def del: order_rows.simps)
  qed
qed

interpretation order_pages: keyset_pages
  "\<lambda>s. db_ok (snd (snd (snd s))) \<and> event_columns (snd (snd (snd s))) \<and> iteration (fst s)" event_row_key order_rows
  order_item "\<lambda>s. nat (default_limit (lo_Limit (fst (snd (snd s)))))"
  "\<lambda>s token. ListOrders (fst s) (fst (snd s)) (fst (snd (snd s))\<lparr>lo_PageToken := token\<rparr>) (snd (snd (snd s)))"
proof (unfold_locales, goal_cases)
  case (1 s)
  then show ?case
    unfolding event_row_key_def
    by (cases s) (auto simp: events_ok_def dest: db_okD(1) intro!: order_by_desc keys_unique_filter)
next
  case (2 s r)
  then show ?case by (cases s) (auto simp: event_columns_def list_all_iff event_row_key_def)
next
  case (3 s token c)
  then show ?case by (cases s) (simp add: ListOrders_page del: order_rows.simps)
qed

section \<open>Properties\<close>

lemma reachable_db_ok: "storage_init s\<^sub>0 \<Longrightarrow> storage_step\<^sup>*\<^sup>* s\<^sub>0 s \<Longrightarrow> db_ok (sg_db s)"
  using storage_sys.inv_reachable [of s\<^sub>0 s] by (simp add: storage_ok_def)

lemma isl_page_cursor: "isl (page_cursor token) \<longleftrightarrow> token \<noteq> [] \<and> isl (decodeCursor token)"
  by (auto simp: page_cursor_def split: sum.splits)

lemma isl_ListOrders:
  assumes "db_ok d" and "iteration iter"
  shows "isl (ListOrders iter sorter opts d) \<longleftrightarrow> isl (page_cursor (lo_PageToken opts))"
  using ListOrders_page [OF assms, of "lo_PageToken opts" _ sorter opts]
  by (cases "page_cursor (lo_PageToken opts)") (auto simp: ListOrders_def)

definition scaler_orders :: "ListOrderScalersOptions \<Rightarrow> ListOrdersOptions" where
  "scaler_orders opts =
     \<lparr>lo_OrderIdPrefix = ls_OrderIdPrefix opts, lo_BotID = ls_BotID opts, lo_DealID = ls_DealID opts,
      lo_BotEventID = ls_BotEventID opts, lo_ObservedFrom = None, lo_ObservedTo = None,
      lo_IncludeLog = False, lo_Limit = default_limit (ls_Limit opts), lo_PageToken = ls_PageToken opts\<rparr>"

lemma scaler_items_total: "storage_ok s \<Longrightarrow> \<not> isl (scaler_items (sg_db s) rows)"
proof (induction rows)
  case (Cons r rows)
  obtain e where "ResolveEffectiveOrderScaler (it_OrderId r) (sg_db s) = Inr e"
    using ResolveEffectiveOrderScaler_total [OF Cons.prems] by blast
  with Cons show ?case by (simp add: isl_map_sum)
qed simp

lemma order_rows_limit: "order_rows (iter, sorter, opts\<lparr>lo_Limit := l\<rparr>, d) = order_rows (iter, sorter, opts, d)"
  by (simp add: order_selected_def [abs_def] order_prefix_def)

lemma order_item_limit: "order_item (iter, sorter, opts\<lparr>lo_Limit := l\<rparr>, d) = order_item (iter, sorter, opts, d)"
  by (simp add: fun_eq_iff order_view_limit)

text \<open>Three events recorded one after the other, and a listing of all of them.\<close>

definition event_order :: "nat \<Rightarrow> OrderId" where
  "event_order i = zero_OrderId\<lparr>BotEventID := of_nat i\<rparr>"

fun some_events :: "nat \<Rightarrow> Storage" where
  "some_events 0 = fresh_storage"
| "some_events (Suc n) = snd (RecordThreeCommasBotEvent (int n) (event_order n) zero_tc_BotEvent (some_events n))"

definition all_orders :: ListOrdersOptions where
  "all_orders = \<lparr>lo_OrderIdPrefix = None, lo_BotID = None, lo_DealID = None, lo_BotEventID = None, lo_ObservedFrom = None,
     lo_ObservedTo = None, lo_IncludeLog = True, lo_Limit = 0, lo_PageToken = []\<rparr>"

lemma some_events_reachable: "storage_step\<^sup>*\<^sup>* fresh_storage (some_events n)"
  by (induction n) (auto intro: rtranclp.rtrancl_into_rtrancl storage_step.event)

lemma event_order_inj: "i < n \<Longrightarrow> n < 3 \<Longrightarrow> event_order i \<noteq> event_order n"
proof -
  assume "i < n" "n < 3"
  then consider "i = 0 \<and> n = 1" | "i = 0 \<and> n = 2" | "i = 1 \<and> n = 2" by linarith
  then show ?thesis by cases (simp_all add: event_order_def zero_OrderId_def)
qed

lemma some_events_rows:
  "n \<le> 3 \<Longrightarrow> db_botevents_seq (sg_db (some_events n)) = int n \<and>
     map (\<lambda>r. (be_OrderID r, be_ID r, be_ObservedAtUtc r)) (db_botevents (sg_db (some_events n))) =
     map (\<lambda>i. (Hex (event_order i), int i + 1, to_UnixMilli (int i))) [0..<n]"
proof (induction n)
  case 0
  have "db_botevents (sg_db fresh_storage) = []" "db_botevents_seq (sg_db fresh_storage) = 0" by code_simp+
  then show ?case by simp
next
  case (Suc n)
  then have rows: "map (\<lambda>r. (be_OrderID r, be_ID r, be_ObservedAtUtc r)) (db_botevents (sg_db (some_events n))) =
     map (\<lambda>i. (Hex (event_order i), int i + 1, to_UnixMilli (int i))) [0..<n]" by simp
  show ?case
  proof (cases rule: RecordThreeCommasBotEvent_cases [of "some_events n" "event_order n" zero_tc_BotEvent "int n"])
    case 1
    then obtain r where "r \<in> set (db_botevents (sg_db (some_events n)))" "be_OrderID r = Hex (event_order n)"
      by (auto simp: be_key_def)
    then have "Hex (event_order n) \<in> fst ` set (map (\<lambda>r. (be_OrderID r, be_ID r, be_ObservedAtUtc r))
        (db_botevents (sg_db (some_events n))))" by force
    with event_order_inj Suc.prems show ?thesis unfolding rows by fastforce
  next
    case (2 t)
    with Suc show ?thesis by simp
  qed
qed

lemma some_events_columns: "event_columns (sg_db (some_events 3))"
proof -
  let ?m = "map (\<lambda>r. (be_OrderID r, be_ID r, be_ObservedAtUtc r)) (db_botevents (sg_db (some_events 3)))"
  have "list_all (\<lambda>(_, i, t). int64 t \<and> int64 i) ?m"
    using some_events_rows [of 3] by (simp add: upt_rec int64_def to_UnixMilli_def millisecond_def)
  then show ?thesis by (simp add: event_columns_def list.pred_map comp_def)
qed

lemma some_events_listed:
  "\<exists>listed. ListOrders id id (all_orders\<lparr>lo_Limit := 0, lo_PageToken := []\<rparr>) (sg_db (some_events 3)) = Inr (listed, None) \<and>
     length listed = 3"
proof -
  let ?s = "(id, id, all_orders\<lparr>lo_Limit := 0\<rparr>, sg_db (some_events 3))"
  have "length (db_botevents (sg_db (some_events 3))) = 3"
    using arg_cong [of _ _ length, OF conjunct2 [OF some_events_rows [of 3]]] by simp
  then have len: "length (order_rows ?s) = 3"
    by (simp add: order_selected_def [abs_def] all_orders_def order_prefix_def null_or_map order_by_def
        del: some_events.simps)
  have ok: "db_ok (sg_db (some_events 3))" by (rule reachable_db_ok [OF fresh_storage_init some_events_reachable])
  show ?thesis
    using order_pages.list_page [of ?s, OF _ page_cursor_Nil] ok some_events_columns len
    by (simp add: iteration_def cut_page_def limit_rows_def null_or_map default_limit_def del: order_rows.simps)
qed

text \<open>
  C30: In a reachable state a client that follows the page tokens of \<^verbatim>\<open>ListOrders\<close> with a limit of \<open>L\<close> is
  shown the whole listing less every (\<open>L\<close> + 1)-st order: the token names the first order that is
  not on the page, and the next page starts strictly after it.
\<close>

theorem order_pages_skip_rows:
  assumes "storage_init s\<^sub>0" and "storage_step\<^sup>*\<^sup>* s\<^sub>0 s" and "iteration iter" and "event_columns (sg_db s)"
    and "0 < L" and "ListOrders iter sorter (opts\<lparr>lo_Limit := M, lo_PageToken := []\<rparr>) (sg_db s) = Inr (listed, None)"
    and "length listed < n"
  shows "concat (page_chain (\<lambda>token. ListOrders iter sorter (opts\<lparr>lo_Limit := L, lo_PageToken := token\<rparr>) (sg_db s)) n []) =
    nths listed {i. i mod Suc (nat L) \<noteq> nat L}"
proof -
  note ok = reachable_db_ok [OF assms(1,2)]
  have all: "listed = map (order_item (iter, sorter, opts, sg_db s)) (order_rows (iter, sorter, opts, sg_db s))"
    using order_pages.whole [of "(iter, sorter, opts\<lparr>lo_Limit := M\<rparr>, sg_db s)" listed] ok assms(3,4,6)
    by (simp add: order_item_limit order_rows_limit del: order_rows.simps order_item.simps)
  have "default_limit L = L" using assms(5) by (simp add: default_limit_def)
  then show ?thesis
    using order_pages.follow_tokens [of "(iter, sorter, opts\<lparr>lo_Limit := L\<rparr>, sg_db s)" n] ok assms(3,4,7)
    by (simp add: all order_item_limit order_rows_limit nths_map del: order_rows.simps order_item.simps)
qed

theorem order_pages_skip_rows_witness:
  "\<exists>listed. ListOrders id id (all_orders\<lparr>lo_Limit := 0, lo_PageToken := []\<rparr>) (sg_db (some_events 3)) = Inr (listed, None) \<and>
     length listed = 3 \<and>
     concat (page_chain (\<lambda>token. ListOrders id id (all_orders\<lparr>lo_Limit := 1, lo_PageToken := token\<rparr>) (sg_db (some_events 3))) 4 []) =
       [listed ! 0, listed ! 2]"
proof -
  obtain listed where l: "ListOrders id id (all_orders\<lparr>lo_Limit := 0, lo_PageToken := []\<rparr>) (sg_db (some_events 3)) = Inr (listed, None)"
    "length listed = 3" using some_events_listed by blast
  then obtain a b c where abc: "listed = [a, b, c]" by (auto simp: length_Suc_conv numeral_3_eq_3)
  have "concat (page_chain (\<lambda>token. ListOrders id id (all_orders\<lparr>lo_Limit := 1, lo_PageToken := token\<rparr>) (sg_db (some_events 3))) 4 []) =
      nths listed {i. i mod Suc (nat 1) \<noteq> nat 1}"
    by (rule order_pages_skip_rows [OF fresh_storage_init some_events_reachable _ some_events_columns _ l(1)])
      (simp_all add: iteration_def l(2))
  also have "\<dots> = [a, c]" by (simp add: abc nths_Cons)
  finally show ?thesis using l abc by auto
qed

text \<open>The same of the bots and of the deals.\<close>

lemma bot_rows_limit: "bot_rows (opts\<lparr>lb_Limit := l\<rparr>, d) = bot_rows (opts, d)"
  by (simp add: bot_rows_def bot_selected_def [abs_def])

lemma deal_rows_limit: "deal_rows (opts\<lparr>ld_Limit := l\<rparr>, d) = deal_rows (opts, d)"
  by (simp add: deal_rows_def deal_selected_def [abs_def])

lemma bot_pages_skip_rows:
  assumes "storage_init s\<^sub>0" and "storage_step\<^sup>*\<^sup>* s\<^sub>0 s" and "bot_columns (sg_db s)"
    and "0 < L" and "ListBots (opts\<lparr>lb_Limit := M, lb_PageToken := []\<rparr>) (sg_db s) = Inr (listed, None)"
    and "length listed < n"
  shows "concat (page_chain (\<lambda>token. ListBots (opts\<lparr>lb_Limit := L, lb_PageToken := token\<rparr>) (sg_db s)) n []) =
    nths listed {i. i mod Suc (nat L) \<noteq> nat L}"
proof -
  note ok = reachable_db_ok [OF assms(1,2)]
  have all: "listed = map bot_item (bot_rows (opts, sg_db s))"
    using bot_pages.whole [of "(opts\<lparr>lb_Limit := M\<rparr>, sg_db s)" listed] ok assms(3,5) by (simp add: bot_rows_limit)
  have "default_limit L = L" using assms(4) by (simp add: default_limit_def)
  then show ?thesis
    using bot_pages.follow_tokens [of "(opts\<lparr>lb_Limit := L\<rparr>, sg_db s)" n] ok assms(3,6)
    by (simp add: all bot_rows_limit nths_map)
qed

lemma deal_pages_skip_rows:
  assumes "storage_init s\<^sub>0" and "storage_step\<^sup>*\<^sup>* s\<^sub>0 s" and "deal_columns (sg_db s)"
    and "0 < L" and "ListDeals (opts\<lparr>ld_Limit := M, ld_PageToken := []\<rparr>) (sg_db s) = Inr (listed, None)"
    and "length listed < n"
  shows "concat (page_chain (\<lambda>token. ListDeals (opts\<lparr>ld_Limit := L, ld_PageToken := token\<rparr>) (sg_db s)) n []) =
    nths listed {i. i mod Suc (nat L) \<noteq> nat L}"
proof -
  note ok = reachable_db_ok [OF assms(1,2)]
  have all: "listed = map deal_item (deal_rows (opts, sg_db s))"
    using deal_pages.whole [of "(opts\<lparr>ld_Limit := M\<rparr>, sg_db s)" listed] ok assms(3,5) by (simp add: deal_rows_limit)
  have "default_limit L = L" using assms(4) by (simp add: default_limit_def)
  then show ?thesis
    using deal_pages.follow_tokens [of "(opts\<lparr>ld_Limit := L\<rparr>, sg_db s)" n] ok assms(3,6)
    by (simp add: all deal_rows_limit nths_map)
qed

text \<open>
  In a reachable state a listing fails only on a malformed page token, and then without touching
  a row: \<^verbatim>\<open>ListBots\<close>, \<^verbatim>\<open>ListDeals\<close>, \<^verbatim>\<open>ListOrders\<close> and \<^verbatim>\<open>ListOrderScalers\<close> return a page for every
  token that decodes to a cursor, and for the empty one.
\<close>

theorem listings_fail_only_on_bad_token:
  assumes "storage_init s\<^sub>0" and "storage_step\<^sup>*\<^sup>* s\<^sub>0 s" and "iteration iter"
  shows "(isl (ListBots bo (sg_db s)) \<longleftrightarrow> lb_PageToken bo \<noteq> [] \<and> isl (decodeCursor (lb_PageToken bo))) \<and>
    (isl (ListDeals dl (sg_db s)) \<longleftrightarrow> ld_PageToken dl \<noteq> [] \<and> isl (decodeCursor (ld_PageToken dl))) \<and>
    (isl (ListOrders iter sorter oo (sg_db s)) \<longleftrightarrow> lo_PageToken oo \<noteq> [] \<and> isl (decodeCursor (lo_PageToken oo))) \<and>
    (isl (ListOrderScalers iter sorter so (sg_db s)) \<longleftrightarrow> ls_PageToken so \<noteq> [] \<and> isl (decodeCursor (ls_PageToken so)))"
proof (intro conjI)
  note ok = storage_sys.inv_reachable [OF assms(1,2)] and db = reachable_db_ok [OF assms(1,2)]
  show "isl (ListBots bo (sg_db s)) \<longleftrightarrow> lb_PageToken bo \<noteq> [] \<and> isl (decodeCursor (lb_PageToken bo))"
    using ListBots_page [OF db, of "lb_PageToken bo" _ bo]
    by (cases "page_cursor (lb_PageToken bo)") (auto simp: isl_page_cursor [symmetric] ListBots_def)
  show "isl (ListDeals dl (sg_db s)) \<longleftrightarrow> ld_PageToken dl \<noteq> [] \<and> isl (decodeCursor (ld_PageToken dl))"
    using ListDeals_page [OF db, of "ld_PageToken dl" _ dl]
    by (cases "page_cursor (ld_PageToken dl)") (auto simp: isl_page_cursor [symmetric] ListDeals_def)
  show "isl (ListOrders iter sorter oo (sg_db s)) \<longleftrightarrow> lo_PageToken oo \<noteq> [] \<and> isl (decodeCursor (lo_PageToken oo))"
    by (simp add: isl_ListOrders [OF db assms(3)] isl_page_cursor)
  show "isl (ListOrderScalers iter sorter so (sg_db s)) \<longleftrightarrow> ls_PageToken so \<noteq> [] \<and> isl (decodeCursor (ls_PageToken so))"
  proof -
    have "isl (ListOrders iter sorter (scaler_orders so) (sg_db s)) \<longleftrightarrow> isl (page_cursor (ls_PageToken so))"
      by (simp add: isl_ListOrders [OF db assms(3)] scaler_orders_def)
    then show ?thesis
      using scaler_items_total [OF ok]
      by (cases "ListOrders iter sorter (scaler_orders so) (sg_db s)")
        (auto simp: ListOrderScalers_def scaler_orders_def [symmetric] isl_page_cursor isl_map_sum)
  qed
qed

theorem listings_fail_only_on_bad_token_witness:
  "\<not> isl (ListOrders id id all_orders (sg_db (some_events 3))) \<and>
   isl (ListOrders id id (all_orders\<lparr>lo_PageToken := ''7:x''\<rparr>) (sg_db (some_events 3)))"
proof -
  have bad: "isl (decodeCursor ''7:x'')" by code_simp
  have it: "iteration id" by (simp add: iteration_def)
  show ?thesis
    using listings_fail_only_on_bad_token [OF fresh_storage_init some_events_reachable it, of undefined 3 undefined id all_orders undefined]
      listings_fail_only_on_bad_token [OF fresh_storage_init some_events_reachable it, of undefined 3 undefined id
        "all_orders\<lparr>lo_PageToken := ''7:x''\<rparr>" undefined] bad
    by (simp add: all_orders_def)
qed

end
