(* ===== verification/Event_Stream.thy ===== *)
theory Event_Stream
  imports Storage
begin

text \<open>
  \<^verbatim>\<open>internal/api/stream_controller.go\<close>: the fan-out of order events to the subscribers of the event
  stream, with buffered channels, cancellation and the read-write lock.

  A channel is a buffer, a closed flag and what its reader has taken so far; sending on a closed
  channel and closing one twice panic, and a panic is recorded in the state. The steps that run
  under the lock are functions on the state. The step relation interleaves any number of
  subscribers and publishers: a publisher takes its sequence number before it takes the read lock,
  publishers share the read lock and send to one subscriber at a time, and the operations that take
  the write lock wait until no publisher holds it. The sequence counter is unbounded.
\<close>

section \<open>Channels\<close>

record 'e chan =
  ch_cap :: nat
  ch_buf :: "'e list"
  ch_closed :: bool
  ch_out :: "'e list"

definition make_chan :: "nat \<Rightarrow> 'e chan" where
  "make_chan n = \<lparr>ch_cap = n, ch_buf = [], ch_closed = False, ch_out = []\<rparr>"

text \<open>
  A send in a \<^verbatim>\<open>select\<close> with a default case: \<open>None\<close> is the panic on a closed channel, the flag says
  whether the value was sent.
\<close>

definition select_send :: "'e \<Rightarrow> 'e chan \<Rightarrow> ('e chan \<times> bool) option" where
  "select_send e ch =
     (if ch_closed ch then None
      else if length (ch_buf ch) < ch_cap ch then Some (ch\<lparr>ch_buf := ch_buf ch @ [e]\<rparr>, True)
      else Some (ch, False))"

definition close_chan :: "'e chan \<Rightarrow> 'e chan option" where
  "close_chan ch = (if ch_closed ch then None else Some (ch\<lparr>ch_closed := True\<rparr>))"

definition receive :: "'e chan \<Rightarrow> 'e chan" where
  "receive ch = (case ch_buf ch of [] \<Rightarrow> ch | e # es \<Rightarrow> ch\<lparr>ch_buf := es, ch_out := ch_out ch @ [e]\<rparr>)"

text \<open>Everything that was put into a channel, in order.\<close>

definition ch_log :: "'e chan \<Rightarrow> 'e list" where
  "ch_log ch = ch_out ch @ ch_buf ch"

lemma ch_log_receive [simp]: "ch_log (receive ch) = ch_log ch"
  by (simp add: ch_log_def receive_def split: list.split)

lemma receive_simps [simp]:
  "ch_closed (receive ch) = ch_closed ch" "ch_cap (receive ch) = ch_cap ch" "length (ch_buf (receive ch)) \<le> length (ch_buf ch)"
  by (simp_all add: receive_def split: list.split)

section \<open>The controller\<close>

definition defaultStreamBuffer :: nat where
  "defaultStreamBuffer = 64"

record StreamFilter =
  sf_OrderIdPrefix :: "string option"
  sf_BotID :: "int option"
  sf_DealID :: "int option"
  sf_BotEventID :: "int option"
  sf_ObservedFrom :: "time option"

record streamSubscriber =
  sub_id :: int
  sub_filter :: StreamFilter

text \<open>The channel of a subscriber is the one with its id.\<close>

record StreamController =
  stc_subscribers :: "(int \<times> streamSubscriber) list"
  stc_nextSubID :: int
  stc_sequence :: int
  stc_bufferSize :: nat
  stc_chans :: "int \<Rightarrow> StreamEvent chan option"
  stc_panicked :: bool

definition NewStreamController :: "int option \<Rightarrow> StreamController" where
  "NewStreamController bufferSize =
     \<lparr>stc_subscribers = [], stc_nextSubID = 0, stc_sequence = 0,
      stc_bufferSize = (case bufferSize of Some n \<Rightarrow> if 0 < n then nat n else defaultStreamBuffer
        | None \<Rightarrow> defaultStreamBuffer),
      stc_chans = Map.empty, stc_panicked = False\<rparr>"

definition matchesFilter :: "StreamFilter \<Rightarrow> StreamEvent \<Rightarrow> bool" where
  "matchesFilter f evt =
     ((case sf_OrderIdPrefix f of
         None \<Rightarrow> True
       | Some p \<Rightarrow> let pre = ToLower (TrimSpace p) in pre = [] \<or> HasPrefix (ToLower (Hex (se_OrderID evt))) pre) \<and>
      (case sf_BotID f of None \<Rightarrow> True | Some b \<Rightarrow> BotID (se_OrderID evt) = word_of_int b) \<and>
      (case sf_DealID f of None \<Rightarrow> True | Some b \<Rightarrow> DealID (se_OrderID evt) = word_of_int b) \<and>
      (case sf_BotEventID f of None \<Rightarrow> True | Some b \<Rightarrow> BotEventID (se_OrderID evt) = word_of_int b) \<and>
      (case sf_ObservedFrom f of None \<Rightarrow> True | Some t \<Rightarrow> \<not> se_ObservedAt evt < t))"

text \<open>\<^verbatim>\<open>Subscribe\<close> makes the subscriber and its channel, and then registers it under the lock.\<close>

definition Subscribe_make :: "StreamFilter \<Rightarrow> StreamController \<Rightarrow> streamSubscriber \<times> StreamController" where
  "Subscribe_make f c =
     (let i = stc_nextSubID c + 1
      in (\<lparr>sub_id = i, sub_filter = f\<rparr>,
          c\<lparr>stc_nextSubID := i, stc_chans := (stc_chans c)(i \<mapsto> make_chan (stc_bufferSize c))\<rparr>))"

definition Subscribe_register :: "streamSubscriber \<Rightarrow> StreamController \<Rightarrow> StreamController" where
  "Subscribe_register sub c = c\<lparr>stc_subscribers := AList.update (sub_id sub) sub (stc_subscribers c)\<rparr>"

definition Subscribe :: "StreamFilter \<Rightarrow> StreamController \<Rightarrow> streamSubscriber \<times> StreamController" where
  "Subscribe f c = (let (sub, c) = Subscribe_make f c in (sub, Subscribe_register sub c))"

definition close_sub :: "int \<Rightarrow> StreamController \<Rightarrow> StreamController" where
  "close_sub i c =
     (case stc_chans c i of
        None \<Rightarrow> c\<lparr>stc_panicked := True\<rparr>
      | Some ch \<Rightarrow> (case close_chan ch of
            None \<Rightarrow> c\<lparr>stc_panicked := True\<rparr>
          | Some ch' \<Rightarrow> c\<lparr>stc_chans := (stc_chans c)(i \<mapsto> ch')\<rparr>))"

definition awaitCancellation :: "int \<Rightarrow> StreamController \<Rightarrow> StreamController" where
  "awaitCancellation i c =
     (case map_of (stc_subscribers c) i of
        None \<Rightarrow> c
      | Some _ \<Rightarrow> close_sub i (c\<lparr>stc_subscribers := AList.delete i (stc_subscribers c)\<rparr>))"

text \<open>\<^verbatim>\<open>Publish\<close> numbers the event, and then sends it to each subscriber whose filter it matches.\<close>

definition Publish_number :: "StreamEvent \<Rightarrow> StreamController \<Rightarrow> StreamEvent \<times> StreamController" where
  "Publish_number evt c =
     (let n = stc_sequence c + 1 in (evt\<lparr>se_Sequence := Some n\<rparr>, c\<lparr>stc_sequence := n\<rparr>))"

definition Publish_send :: "StreamEvent \<Rightarrow> streamSubscriber \<Rightarrow> StreamController \<Rightarrow> StreamController" where
  "Publish_send evt sub c =
     (if \<not> matchesFilter (sub_filter sub) evt then c
      else (case stc_chans c (sub_id sub) of
          None \<Rightarrow> c
        | Some ch \<Rightarrow> (case select_send evt ch of
              None \<Rightarrow> c\<lparr>stc_panicked := True\<rparr>
            | Some (ch', _) \<Rightarrow> c\<lparr>stc_chans := (stc_chans c)(sub_id sub \<mapsto> ch')\<rparr>)))"

definition Publish :: "StreamEvent \<Rightarrow> StreamController \<Rightarrow> StreamController" where
  "Publish evt c =
     (let (evt', c) = Publish_number evt c in fold (Publish_send evt') (map snd (stc_subscribers c)) c)"

fun flush_subs :: "(int \<times> streamSubscriber) list \<Rightarrow> StreamController \<Rightarrow> StreamController" where
  "flush_subs [] c = c"
| "flush_subs ((i, sub) # subs) c =
     flush_subs subs ((close_sub (sub_id sub) c)\<lparr>stc_subscribers := AList.delete i (stc_subscribers c)\<rparr>)"

definition stream_Flush :: "StreamController \<Rightarrow> StreamController" where
  "stream_Flush c = flush_subs (stc_subscribers c) c"

section \<open>Interleavings\<close>

text \<open>
  Subscribers that have a channel and are not yet registered, publishers that have a number and
  not yet the lock, and publishers that hold the read lock with the subscribers they still have to
  send to.
\<close>

record stream_system =
  ctrl :: StreamController
  joining :: "streamSubscriber list"
  numbered :: "StreamEvent list"
  sending :: "(StreamEvent \<times> streamSubscriber list) list"

text \<open>With \<open>serial\<close> an event is numbered only when no other publisher is under way.\<close>

inductive stream_step :: "bool \<Rightarrow> stream_system \<Rightarrow> stream_system \<Rightarrow> bool" for serial :: bool where
  make: "Subscribe_make f (ctrl s) = (sub, c) \<Longrightarrow>
    stream_step serial s (s\<lparr>ctrl := c, joining := joining s @ [sub]\<rparr>)"
| register: "sending s = [] \<Longrightarrow> sub \<in> set (joining s) \<Longrightarrow>
    stream_step serial s (s\<lparr>ctrl := Subscribe_register sub (ctrl s), joining := remove1 sub (joining s)\<rparr>)"
| cancel: "sending s = [] \<Longrightarrow> stream_step serial s (s\<lparr>ctrl := awaitCancellation i (ctrl s)\<rparr>)"
| flush: "sending s = [] \<Longrightarrow> stream_step serial s (s\<lparr>ctrl := stream_Flush (ctrl s)\<rparr>)"
| number: "(serial \<Longrightarrow> numbered s = [] \<and> sending s = []) \<Longrightarrow> Publish_number evt (ctrl s) = (evt', c) \<Longrightarrow>
    stream_step serial s (s\<lparr>ctrl := c, numbered := numbered s @ [evt']\<rparr>)"
| lock: "evt \<in> set (numbered s) \<Longrightarrow> distinct subs \<Longrightarrow> set subs = snd ` set (stc_subscribers (ctrl s)) \<Longrightarrow>
    stream_step serial s (s\<lparr>numbered := remove1 evt (numbered s), sending := sending s @ [(evt, subs)]\<rparr>)"
| send: "sending s = as @ (evt, sub # subs) # bs \<Longrightarrow>
    stream_step serial s (s\<lparr>ctrl := Publish_send evt sub (ctrl s), sending := as @ (evt, subs) # bs\<rparr>)"
| unlock: "sending s = as @ (evt, []) # bs \<Longrightarrow> stream_step serial s (s\<lparr>sending := as @ bs\<rparr>)"
| recv: "stc_chans (ctrl s) i = Some ch \<Longrightarrow>
    stream_step serial s (s\<lparr>ctrl := (ctrl s)\<lparr>stc_chans := (stc_chans (ctrl s))(i \<mapsto> receive ch)\<rparr>\<rparr>)"

inductive_cases stream_stepE: "stream_step serial s t"

definition stream_init :: "stream_system \<Rightarrow> bool" where
  "stream_init s \<longleftrightarrow> (\<exists>n. ctrl s = NewStreamController n) \<and> joining s = [] \<and> numbered s = [] \<and> sending s = []"

section \<open>The invariant\<close>

definition open_chan :: "StreamController \<Rightarrow> int \<Rightarrow> bool" where
  "open_chan c i \<longleftrightarrow> (\<exists>ch. stc_chans c i = Some ch \<and> \<not> ch_closed ch)"

definition ctrl_ok :: "StreamController \<Rightarrow> bool" where
  "ctrl_ok c \<longleftrightarrow> \<not> stc_panicked c \<and> distinct (map fst (stc_subscribers c)) \<and>
     (\<forall>(i, sub) \<in> set (stc_subscribers c). sub_id sub = i \<and> open_chan c i) \<and>
     (\<forall>i ch. stc_chans c i = Some ch \<longrightarrow> i \<le> stc_nextSubID c \<and> ch_cap ch = stc_bufferSize c \<and>
        length (ch_buf ch) \<le> stc_bufferSize c)"

definition stream_inv :: "stream_system \<Rightarrow> bool" where
  "stream_inv s \<longleftrightarrow> ctrl_ok (ctrl s) \<and> distinct (map sub_id (joining s)) \<and>
     (\<forall>sub \<in> set (joining s). open_chan (ctrl s) (sub_id sub) \<and> sub_id sub \<notin> fst ` set (stc_subscribers (ctrl s))) \<and>
     (\<forall>(evt, subs) \<in> set (sending s). set subs \<subseteq> snd ` set (stc_subscribers (ctrl s)))"

lemma open_chan_le: "ctrl_ok c \<Longrightarrow> open_chan c i \<Longrightarrow> i \<le> stc_nextSubID c"
  by (auto simp: ctrl_ok_def open_chan_def)

lemma open_chan_update: "open_chan (c\<lparr>stc_chans := (stc_chans c)(i \<mapsto> ch)\<rparr>) j \<longleftrightarrow> (if j = i then \<not> ch_closed ch else open_chan c j)"
  by (auto simp: open_chan_def)

lemma open_chan_cong [simp]:
  "open_chan (c\<lparr>stc_subscribers := x\<rparr>) i = open_chan c i" "open_chan (c\<lparr>stc_sequence := n\<rparr>) i = open_chan c i"
  by (simp_all add: open_chan_def)

lemma ctrl_ok_sequence [simp]: "ctrl_ok (c\<lparr>stc_sequence := n\<rparr>) = ctrl_ok c"
  by (simp add: ctrl_ok_def)

text \<open>Sending to an open channel and taking from a channel only change that channel.\<close>

lemma ctrl_ok_chan:
  assumes "ctrl_ok c" and "stc_chans c i = Some ch" and "ch_cap ch' = ch_cap ch" "length (ch_buf ch') \<le> ch_cap ch"
    and "ch_closed ch' = ch_closed ch"
  shows "ctrl_ok (c\<lparr>stc_chans := (stc_chans c)(i \<mapsto> ch')\<rparr>)"
    and "open_chan (c\<lparr>stc_chans := (stc_chans c)(i \<mapsto> ch')\<rparr>) = open_chan c"
proof -
  show eq: "open_chan (c\<lparr>stc_chans := (stc_chans c)(i \<mapsto> ch')\<rparr>) = open_chan c"
    using assms(2,5) by (intro ext) (auto simp: open_chan_def)
  show "ctrl_ok (c\<lparr>stc_chans := (stc_chans c)(i \<mapsto> ch')\<rparr>)"
    using assms by (auto simp: ctrl_ok_def eq)
qed

lemma Publish_send_ok:
  assumes "ctrl_ok c" and "sub \<in> snd ` set (stc_subscribers c)"
  shows "ctrl_ok (Publish_send evt sub c)" and "open_chan (Publish_send evt sub c) = open_chan c"
    and "stc_subscribers (Publish_send evt sub c) = stc_subscribers c"
proof -
  have "open_chan c (sub_id sub)" using assms by (auto simp: ctrl_ok_def)
  then obtain ch where ch: "stc_chans c (sub_id sub) = Some ch" "\<not> ch_closed ch" by (auto simp: open_chan_def)
  then have cap: "length (ch_buf ch) \<le> ch_cap ch" using assms(1) by (simp add: ctrl_ok_def)
  show "ctrl_ok (Publish_send evt sub c)" "open_chan (Publish_send evt sub c) = open_chan c"
    "stc_subscribers (Publish_send evt sub c) = stc_subscribers c"
    using assms(1) ch cap ctrl_ok_chan [OF assms(1) ch(1)]
    by (simp_all add: Publish_send_def select_send_def)
qed

lemma Subscribe_make_ok:
  assumes "ctrl_ok c" and "Subscribe_make f c = (sub, c')"
  shows "ctrl_ok c'" and "open_chan c' (sub_id sub)" and "sub_id sub = stc_nextSubID c + 1"
    and "open_chan c i \<Longrightarrow> open_chan c' i" and "stc_subscribers c' = stc_subscribers c"
proof -
  have c': "c' = c\<lparr>stc_nextSubID := sub_id sub, stc_chans := (stc_chans c)(sub_id sub \<mapsto> make_chan (stc_bufferSize c))\<rparr>"
    and id: "sub_id sub = stc_nextSubID c + 1"
    using assms(2) by (auto simp: Subscribe_make_def Let_def)
  show "open_chan c i \<Longrightarrow> open_chan c' i" for i
    using open_chan_le [OF assms(1)] by (auto simp: c' id open_chan_def make_chan_def)
  with assms(1) show "ctrl_ok c'" by (auto simp: ctrl_ok_def c' id make_chan_def) (smt (verit))+
  show "open_chan c' (sub_id sub)" by (simp add: c' open_chan_def make_chan_def)
qed (use assms(2) in \<open>auto simp: Subscribe_make_def Let_def\<close>)

lemma in_delete: "p \<in> set (AList.delete k m) \<longleftrightarrow> p \<in> set m \<and> fst p \<noteq> k"
  by (auto simp: AList.delete_eq)

lemma awaitCancellation_ok:
  assumes "ctrl_ok c"
  shows "ctrl_ok (awaitCancellation i c)"
    and "stc_subscribers (awaitCancellation i c) = AList.delete i (stc_subscribers c)"
    and "open_chan c j \<Longrightarrow> j \<noteq> i \<or> j \<notin> fst ` set (stc_subscribers c) \<Longrightarrow> open_chan (awaitCancellation i c) j"
proof -
  have eff: "awaitCancellation i c = c \<and> i \<notin> fst ` set (stc_subscribers c) \<or>
    (\<exists>ch. stc_chans c i = Some ch \<and> i \<in> fst ` set (stc_subscribers c) \<and>
       awaitCancellation i c = c\<lparr>stc_subscribers := AList.delete i (stc_subscribers c),
         stc_chans := (stc_chans c)(i \<mapsto> ch\<lparr>ch_closed := True\<rparr>)\<rparr>)"
  proof (cases "map_of (stc_subscribers c) i")
    case None
    then show ?thesis using map_of_eq_None_iff [of "stc_subscribers c" i] by (simp add: awaitCancellation_def)
  next
    case (Some sub)
    then have m: "(i, sub) \<in> set (stc_subscribers c)" by (rule map_of_SomeD)
    then have "open_chan c i" "i \<in> fst ` set (stc_subscribers c)" using assms by (force simp: ctrl_ok_def)+
    with Some show ?thesis
      by (auto simp: awaitCancellation_def close_sub_def open_chan_def close_chan_def)
  qed
  show "stc_subscribers (awaitCancellation i c) = AList.delete i (stc_subscribers c)"
    using eff by (auto simp: delete_id)
  show "open_chan c j \<Longrightarrow> j \<noteq> i \<or> j \<notin> fst ` set (stc_subscribers c) \<Longrightarrow> open_chan (awaitCancellation i c) j" for j
    using eff by (auto simp: open_chan_def)
  note op = this
  from eff show "ctrl_ok (awaitCancellation i c)"
  proof (elim disjE exE conjE)
    fix ch assume ch: "stc_chans c i = Some ch" and eq: "awaitCancellation i c =
      c\<lparr>stc_subscribers := AList.delete i (stc_subscribers c), stc_chans := (stc_chans c)(i \<mapsto> ch\<lparr>ch_closed := True\<rparr>)\<rparr>"
    have "\<forall>p \<in> set (AList.delete i (stc_subscribers c)). sub_id (snd p) = fst p \<and> open_chan (awaitCancellation i c) (fst p)"
    proof
      fix p assume "p \<in> set (AList.delete i (stc_subscribers c))"
      then have "p \<in> set (stc_subscribers c)" "fst p \<noteq> i" by (simp_all add: in_delete)
      with assms op [of "fst p"] show "sub_id (snd p) = fst p \<and> open_chan (awaitCancellation i c) (fst p)"
        by (cases p) (auto simp: ctrl_ok_def)
    qed
    moreover have "\<forall>j ch'. stc_chans (awaitCancellation i c) j = Some ch' \<longrightarrow> j \<le> stc_nextSubID c \<and>
        ch_cap ch' = stc_bufferSize c \<and> length (ch_buf ch') \<le> stc_bufferSize c"
      using assms ch by (auto simp: ctrl_ok_def eq)
    moreover have "\<not> stc_panicked c" "distinct (map fst (AList.delete i (stc_subscribers c)))"
      using assms by (simp_all add: ctrl_ok_def distinct_delete)
    ultimately show ?thesis
      unfolding ctrl_ok_def split_beta by (simp add: eq)
  qed (use assms in simp)
qed

lemma flush_subs_eq:
  "ctrl_ok c \<Longrightarrow> flush_subs (stc_subscribers c) c = fold awaitCancellation (map fst (stc_subscribers c)) c"
proof (induction "stc_subscribers c" arbitrary: c)
  case (Cons p subs)
  obtain i sub where p: "p = (i, sub)" by (cases p)
  note subs = Cons.hyps(2) [symmetric, unfolded p]
  have i: "sub_id sub = i" "i \<notin> fst ` set subs" using Cons.prems by (auto simp: ctrl_ok_def subs)
  then have del: "AList.delete i (stc_subscribers c) = subs" by (simp add: subs delete_id)
  have step: "(close_sub i c)\<lparr>stc_subscribers := AList.delete i (stc_subscribers c)\<rparr> = awaitCancellation i c"
    by (simp add: awaitCancellation_def subs close_sub_def split: option.split)
  have "stc_subscribers (awaitCancellation i c) = subs" using awaitCancellation_ok(2) [OF Cons.prems] del by simp
  with Cons.hyps(1) [of "awaitCancellation i c"] awaitCancellation_ok(1) [OF Cons.prems, of i] step del i
  show ?case by (simp add: subs)
qed simp

lemma Flush_ok:
  assumes "ctrl_ok c"
  shows "ctrl_ok (stream_Flush c)" and "stc_subscribers (stream_Flush c) = []"
    and "open_chan c j \<Longrightarrow> j \<notin> fst ` set (stc_subscribers c) \<Longrightarrow> open_chan (stream_Flush c) j"
proof -
  have *: "ctrl_ok (fold awaitCancellation is c) \<and>
      stc_subscribers (fold awaitCancellation is c) = fold AList.delete is (stc_subscribers c) \<and>
      (\<forall>j. open_chan c j \<and> j \<notin> fst ` set (stc_subscribers c) \<longrightarrow> open_chan (fold awaitCancellation is c) j)"
    if "ctrl_ok c" for "is" c
    using that
  proof (induction "is" arbitrary: c)
    case (Cons i "is")
    from Cons.IH [OF awaitCancellation_ok(1) [OF Cons.prems, of i]] show ?case
      using awaitCancellation_ok(2,3) [OF Cons.prems, where i = i] by (auto dest!: set_delete_subset)
  qed simp
  have "fold AList.delete (map fst xs) xs = []" for xs :: "(int \<times> streamSubscriber) list"
  proof -
    have "set (fold AList.delete ks xs) \<subseteq> {p \<in> set xs. fst p \<notin> set ks}" for ks and xs :: "(int \<times> streamSubscriber) list"
      by (induction ks arbitrary: xs) (fastforce simp: AList.delete_eq)+
    then have "set (fold AList.delete (map fst xs) xs) \<subseteq> {p \<in> set xs. fst p \<notin> set (map fst xs)}" .
    also have "\<dots> = {}" by auto
    finally show ?thesis by simp
  qed
  with * [OF assms, of "map fst (stc_subscribers c)"]
  show "ctrl_ok (stream_Flush c)" "stc_subscribers (stream_Flush c) = []"
    "open_chan c j \<Longrightarrow> j \<notin> fst ` set (stc_subscribers c) \<Longrightarrow> open_chan (stream_Flush c) j"
    by (auto simp: stream_Flush_def flush_subs_eq [OF assms])
qed

lemma distinct_map_remove1:
  assumes "distinct (map f xs)"
  shows "distinct (map f (remove1 x xs))" and "y \<in> set (remove1 x xs) \<longleftrightarrow> y \<in> set xs \<and> y \<noteq> x"
    and "x \<in> set xs \<Longrightarrow> y \<in> set (remove1 x xs) \<Longrightarrow> f y \<noteq> f x"
  using assms by (auto simp: distinct_map inj_on_def distinct_remove1)

lemma Subscribe_register_ok:
  assumes "ctrl_ok c" and "open_chan c (sub_id sub)" and "sub_id sub \<notin> fst ` set (stc_subscribers c)"
  shows "ctrl_ok (Subscribe_register sub c)" and "open_chan (Subscribe_register sub c) = open_chan c"
    and "set (stc_subscribers (Subscribe_register sub c)) \<subseteq> insert (sub_id sub, sub) (set (stc_subscribers c))"
proof -
  show "open_chan (Subscribe_register sub c) = open_chan c"
    by (simp add: Subscribe_register_def fun_eq_iff)
  show "set (stc_subscribers (Subscribe_register sub c)) \<subseteq> insert (sub_id sub, sub) (set (stc_subscribers c))"
    by (auto simp: Subscribe_register_def dest: set_update_subset)
  show "ctrl_ok (Subscribe_register sub c)"
    using assms by (auto simp: ctrl_ok_def Subscribe_register_def distinct_update dest!: set_update_subset)
qed

lemma stream_inv_step: "stream_inv s \<Longrightarrow> stream_step serial s t \<Longrightarrow> stream_inv t"
proof (erule stream_stepE)
  assume inv: "stream_inv s"
  then have ok: "ctrl_ok (ctrl s)" by (simp add: stream_inv_def)
  {
    fix f sub c assume m: "Subscribe_make f (ctrl s) = (sub, c)" and t: "t = s\<lparr>ctrl := c, joining := joining s @ [sub]\<rparr>"
    note mk = Subscribe_make_ok [OF ok m]
    have "sub_id sub \<notin> fst ` set (stc_subscribers (ctrl s)) \<and> sub_id sub \<notin> sub_id ` set (joining s)"
      using inv open_chan_le [OF ok] mk(3) by (fastforce simp: stream_inv_def ctrl_ok_def)
    with inv mk show "stream_inv t" by (auto simp: stream_inv_def t)
  next
    fix sub assume "sending s = []" "sub \<in> set (joining s)"
      and t: "t = s\<lparr>ctrl := Subscribe_register sub (ctrl s), joining := remove1 sub (joining s)\<rparr>"
    from this(1,2) have sub: "open_chan (ctrl s) (sub_id sub)" "sub_id sub \<notin> fst ` set (stc_subscribers (ctrl s))"
      and d: "distinct (map sub_id (joining s))" and "sending s = []"
      using inv by (auto simp: stream_inv_def)
    have "open_chan (ctrl s) (sub_id sub') \<and> sub_id sub' \<notin> fst ` set (stc_subscribers (Subscribe_register sub (ctrl s)))"
      if "sub' \<in> set (remove1 sub (joining s))" for sub'
      using that inv distinct_map_remove1 (2,3) [OF d, of sub' sub] \<open>sub \<in> set (joining s)\<close>
      by (auto simp: stream_inv_def Subscribe_register_def simp del: set_remove1_eq dest!: set_update_subset)
    then show "stream_inv t"
      using Subscribe_register_ok(1,2) [OF ok sub] distinct_map_remove1(1) [OF d, of sub] \<open>sending s = []\<close>
      by (simp add: stream_inv_def t del: set_remove1_eq)
  next
    fix i assume "sending s = []" and t: "t = s\<lparr>ctrl := awaitCancellation i (ctrl s)\<rparr>"
    moreover have "open_chan (awaitCancellation i (ctrl s)) (sub_id sub) \<and>
        sub_id sub \<notin> fst ` set (AList.delete i (stc_subscribers (ctrl s)))" if "sub \<in> set (joining s)" for sub
      using that inv awaitCancellation_ok(3) [OF ok, of "sub_id sub" i] by (auto simp: stream_inv_def dest!: subsetD [OF dom_delete_subset])
    ultimately show "stream_inv t"
      using inv awaitCancellation_ok(1,2) [OF ok, of i] by (simp add: stream_inv_def)
  next
    assume "sending s = []" and t: "t = s\<lparr>ctrl := stream_Flush (ctrl s)\<rparr>"
    then show "stream_inv t" using inv Flush_ok [OF ok]
      by (fastforce simp: stream_inv_def t)
  next
    fix evt evt' c assume "Publish_number evt (ctrl s) = (evt', c)" and t: "t = s\<lparr>ctrl := c, numbered := numbered s @ [evt']\<rparr>"
    then show "stream_inv t" using inv by (simp add: Publish_number_def Let_def) (clarsimp simp: stream_inv_def)
  next
    fix evt subs assume "set subs = snd ` set (stc_subscribers (ctrl s))"
      and t: "t = s\<lparr>numbered := remove1 evt (numbered s), sending := sending s @ [(evt, subs)]\<rparr>"
    then show "stream_inv t" using inv by (auto simp: stream_inv_def)
  next
    fix as evt sub subs bs assume sd: "sending s = as @ (evt, sub # subs) # bs"
      and t: "t = s\<lparr>ctrl := Publish_send evt sub (ctrl s), sending := as @ (evt, subs) # bs\<rparr>"
    then have "sub \<in> snd ` set (stc_subscribers (ctrl s))" using inv by (auto simp: stream_inv_def)
    from Publish_send_ok [OF ok this, of evt] inv sd show "stream_inv t" by (auto simp: stream_inv_def t)
  next
    fix as evt bs assume "sending s = as @ (evt, []) # bs" "t = s\<lparr>sending := as @ bs\<rparr>"
    then show "stream_inv t" using inv by (auto simp: stream_inv_def)
  next
    fix i ch assume ch: "stc_chans (ctrl s) i = Some ch"
      and t: "t = s\<lparr>ctrl := (ctrl s)\<lparr>stc_chans := (stc_chans (ctrl s))(i \<mapsto> receive ch)\<rparr>\<rparr>"
    have "length (ch_buf ch) \<le> ch_cap ch" using ok ch unfolding ctrl_ok_def by metis
    then have "length (ch_buf (receive ch)) \<le> ch_cap ch" using receive_simps(3) le_trans by blast
    with ctrl_ok_chan [OF ok ch, of "receive ch"] inv show "stream_inv t" by (simp add: stream_inv_def t)
  }
qed

lemma stream_inv_init: "stream_init s \<Longrightarrow> stream_inv s"
  by (auto simp: stream_init_def stream_inv_def ctrl_ok_def NewStreamController_def)

interpretation stream_sys: invariant_system stream_init "stream_step serial" stream_inv for serial
  by unfold_locales (auto intro: stream_inv_init stream_inv_step)

section \<open>What the channels carry\<close>

definition chan_log :: "StreamController \<Rightarrow> int \<Rightarrow> StreamEvent list" where
  "chan_log c i = (case stc_chans c i of None \<Rightarrow> [] | Some ch \<Rightarrow> ch_log ch)"

lemma ch_log_simps [simp]:
  "ch_log (make_chan n) = []" "ch_log (ch\<lparr>ch_closed := b\<rparr>) = ch_log ch" "ch_log (ch\<lparr>ch_buf := ch_buf ch @ [e]\<rparr>) = ch_log ch @ [e]"
  by (simp_all add: ch_log_def make_chan_def)

lemma chan_log_simps [simp]:
  "chan_log (c\<lparr>stc_subscribers := x\<rparr>) = chan_log c" "chan_log (c\<lparr>stc_sequence := n\<rparr>) = chan_log c"
  "chan_log (c\<lparr>stc_panicked := b\<rparr>) = chan_log c" "chan_log (c\<lparr>stc_nextSubID := n\<rparr>) = chan_log c"
  "chan_log (c\<lparr>stc_chans := (stc_chans c)(i \<mapsto> ch)\<rparr>) = (chan_log c)(i := ch_log ch)"
  by (auto simp: chan_log_def fun_eq_iff)

lemma chan_log_close [simp]: "chan_log (close_sub i c) = chan_log c"
  by (auto simp: close_sub_def close_chan_def chan_log_def fun_eq_iff split: option.split)

lemma chan_log_cancel [simp]: "chan_log (awaitCancellation i c) = chan_log c"
  by (simp add: awaitCancellation_def split: option.split)

lemma chan_log_flush [simp]: "chan_log (flush_subs subs c) = chan_log c"
  by (induction subs c rule: flush_subs.induct) simp_all

lemma chan_log_locked [simp]: "chan_log (stream_Flush c) = chan_log c" "chan_log (Subscribe_register sub c) = chan_log c"
  by (simp_all add: stream_Flush_def Subscribe_register_def)

lemma chan_log_make:
  assumes "ctrl_ok c" and "Subscribe_make f c = (sub, c')"
  shows "chan_log c' = chan_log c"
proof -
  have "stc_chans c (stc_nextSubID c + 1) = None"
  proof (rule ccontr)
    assume "stc_chans c (stc_nextSubID c + 1) \<noteq> None"
    with assms(1) have "stc_nextSubID c + 1 \<le> stc_nextSubID c" unfolding ctrl_ok_def by blast
    then show False by simp
  qed
  with assms(2) show ?thesis by (auto simp: Subscribe_make_def Let_def chan_log_def fun_eq_iff)
qed

text \<open>A send appends the event to the channel, if it matches the filter and there is room.\<close>

definition has_room :: "StreamController \<Rightarrow> int \<Rightarrow> bool" where
  "has_room c i \<longleftrightarrow> (\<exists>ch. stc_chans c i = Some ch \<and> length (ch_buf ch) < ch_cap ch)"

lemma chan_log_send:
  assumes "open_chan c (sub_id sub)"
  shows "chan_log (Publish_send evt sub c) =
    (if matchesFilter (sub_filter sub) evt \<and> has_room c (sub_id sub)
     then (chan_log c)(sub_id sub := chan_log c (sub_id sub) @ [evt]) else chan_log c)"
  using assms by (auto simp: Publish_send_def open_chan_def has_room_def select_send_def chan_log_def fun_eq_iff)

lemma log_step:
  assumes "stream_inv s" and "stream_step serial s t"
  obtains (same) "chan_log (ctrl t) = chan_log (ctrl s)"
  | (sent) as evt sub subs bs where "sending s = as @ (evt, sub # subs) # bs" "matchesFilter (sub_filter sub) evt"
      "t = s\<lparr>ctrl := Publish_send evt sub (ctrl s), sending := as @ (evt, subs) # bs\<rparr>"
      "sub \<in> snd ` set (stc_subscribers (ctrl s))"
      "chan_log (ctrl t) = (chan_log (ctrl s))(sub_id sub := chan_log (ctrl s) (sub_id sub) @ [evt])"
  using assms(2)
proof cases
  case (make f sub c)
  then show ?thesis using chan_log_make [of "ctrl s"] assms(1) by (intro same) (auto simp: stream_inv_def)
next
  case (send as evt sub subs bs)
  then have sub: "sub \<in> snd ` set (stc_subscribers (ctrl s))" using assms(1) by (auto simp: stream_inv_def)
  then have op: "open_chan (ctrl s) (sub_id sub)" using assms(1) by (auto simp: stream_inv_def ctrl_ok_def)
  show ?thesis
  proof (cases "matchesFilter (sub_filter sub) evt \<and> has_room (ctrl s) (sub_id sub)")
    case True
    then show ?thesis using sent [OF send(2) _ send(1) sub] send(1) by (simp add: chan_log_send [OF op])
  next
    case False
    have "chan_log (Publish_send evt sub (ctrl s)) = chan_log (ctrl s)"
      unfolding chan_log_send [OF op] if_not_P [OF False] by (rule refl)
    then show ?thesis using send(1) by (intro same) simp
  qed
qed (auto simp: Subscribe_register_def stream_Flush_def Publish_number_def Let_def fun_eq_iff chan_log_def intro!: same)

text \<open>A registered subscriber, and one about to register, was sent only what its filter asks for.\<close>

definition content_inv :: "stream_system \<Rightarrow> bool" where
  "content_inv s \<longleftrightarrow> stream_inv s \<and>
     (\<forall>sub \<in> set (joining s) \<union> snd ` set (stc_subscribers (ctrl s)).
        \<forall>e \<in> set (chan_log (ctrl s) (sub_id sub)). matchesFilter (sub_filter sub) e)"

lemma subs_registered: "ctrl_ok c \<Longrightarrow> sub \<in> snd ` set (stc_subscribers c) \<Longrightarrow> sub_id sub \<in> fst ` set (stc_subscribers c)"
  by (force simp: ctrl_ok_def)

lemma subs_unique:
  assumes "ctrl_ok c" and "a \<in> snd ` set (stc_subscribers c)" and "b \<in> snd ` set (stc_subscribers c)" and "sub_id a = sub_id b"
  shows "a = b"
proof -
  have "(sub_id a, a) \<in> set (stc_subscribers c)" "(sub_id b, b) \<in> set (stc_subscribers c)"
    using assms(1-3) by (force simp: ctrl_ok_def)+
  with assms(1,4) show ?thesis by (metis ctrl_ok_def eq_key_imp_eq_value)
qed

lemma subs_inj: "ctrl_ok c \<Longrightarrow> inj_on sub_id (snd ` set (stc_subscribers c))"
  by (rule inj_onI) (rule subs_unique)

lemma distinct_subs:
  assumes "ctrl_ok c"
  shows "distinct (map snd (stc_subscribers c))"
proof -
  have "map sub_id (map snd (stc_subscribers c)) = map fst (stc_subscribers c)"
    using assms by (auto simp: ctrl_ok_def)
  moreover have "distinct (map fst (stc_subscribers c))" using assms by (simp add: ctrl_ok_def)
  ultimately have "distinct (map sub_id (map snd (stc_subscribers c)))" by (simp only:)
  then show ?thesis unfolding distinct_map by blast
qed

lemma subscribers_step:
  assumes "stream_inv s" and "stream_step serial s t"
    and "sub \<in> set (joining t) \<union> snd ` set (stc_subscribers (ctrl t))"
  shows "sub \<in> set (joining s) \<union> snd ` set (stc_subscribers (ctrl s)) \<or> chan_log (ctrl t) (sub_id sub) = []"
  using assms(2)
proof cases
  case (make f sub' c)
  have ok: "ctrl_ok (ctrl s)" using assms(1) by (simp add: stream_inv_def)
  have "chan_log c (sub_id sub') = []"
    using make(2) by (auto simp: Subscribe_make_def Let_def chan_log_def)
  with make assms(3) Subscribe_make_ok(5) [OF ok make(2)] show ?thesis by auto
next
  case (flush)
  with assms(1,3) Flush_ok(2) [of "ctrl s"] show ?thesis by (simp add: stream_inv_def)
next
  case (send as evt sub' subs bs)
  then have "sub' \<in> snd ` set (stc_subscribers (ctrl s))" using assms(1) by (auto simp: stream_inv_def)
  with send assms(1,3) Publish_send_ok(3) [of "ctrl s" sub'] show ?thesis by (simp add: stream_inv_def)
qed (use assms(1,3) awaitCancellation_ok(2) [of "ctrl s"] in
      \<open>auto simp: Subscribe_register_def Publish_number_def Let_def stream_inv_def in_delete
        dest!: set_update_subset dest: notin_set_remove1\<close>)

lemma content_inv_step: "content_inv s \<Longrightarrow> stream_step serial s t \<Longrightarrow> content_inv t"
proof -
  assume c: "content_inv s" and st: "stream_step serial s t"
  then have inv: "stream_inv s" by (simp add: content_inv_def)
  have "matchesFilter (sub_filter sub) e"
    if sub: "sub \<in> set (joining t) \<union> snd ` set (stc_subscribers (ctrl t))" and e: "e \<in> set (chan_log (ctrl t) (sub_id sub))" for sub e
  proof -
    have old: "sub \<in> set (joining s) \<union> snd ` set (stc_subscribers (ctrl s))"
      using subscribers_step [OF inv st sub] e by auto
    from inv st show ?thesis
    proof (cases rule: log_step)
      case same
      with old e c show ?thesis by (auto simp: content_inv_def)
    next
      case (sent as evt sub' subs bs)
      have "sub = sub'" if "sub_id sub = sub_id sub'"
      proof -
        have "sub_id sub' \<in> fst ` set (stc_subscribers (ctrl s))"
          using sent(4) subs_registered inv unfolding stream_inv_def by blast
        then have "sub \<notin> set (joining s)" using that inv unfolding stream_inv_def by metis
        with old show ?thesis using subs_unique [OF _ _ sent(4) that] inv by (auto simp: stream_inv_def)
      qed
      with sent(2,5) old e c show ?thesis by (auto simp: content_inv_def split: if_splits)
    qed
  qed
  with stream_inv_step [OF inv st] show ?thesis by (auto simp: content_inv_def)
qed

section \<open>Order of delivery\<close>

definition evt_seq :: "StreamEvent \<Rightarrow> int" where
  "evt_seq e = (case se_Sequence e of None \<Rightarrow> 0 | Some n \<Rightarrow> n)"

definition below :: "StreamController \<Rightarrow> int \<Rightarrow> bool" where
  "below c i \<longleftrightarrow> (\<forall>e \<in> set (chan_log c i). evt_seq e < stc_sequence c)"

fun one_publisher :: "StreamController \<Rightarrow> StreamEvent list \<Rightarrow> (StreamEvent \<times> streamSubscriber list) list \<Rightarrow> bool" where
  "one_publisher c [] [] \<longleftrightarrow> True"
| "one_publisher c [e] [] \<longleftrightarrow> evt_seq e = stc_sequence c \<and> (\<forall>i. below c i)"
| "one_publisher c [] [(e, subs)] \<longleftrightarrow> evt_seq e = stc_sequence c \<and> distinct (map sub_id subs) \<and> (\<forall>sub \<in> set subs. below c (sub_id sub))"
| "one_publisher c _ _ \<longleftrightarrow> False"

definition order_inv :: "stream_system \<Rightarrow> bool" where
  "order_inv s \<longleftrightarrow> stream_inv s \<and> one_publisher (ctrl s) (numbered s) (sending s) \<and>
     (\<forall>i. sorted_wrt (<) (map evt_seq (chan_log (ctrl s) i)) \<and>
        (\<forall>e \<in> set (chan_log (ctrl s) i). evt_seq e \<le> stc_sequence (ctrl s)))"

lemma one_publisher_cong:
  "chan_log c' = chan_log c \<Longrightarrow> stc_sequence c' = stc_sequence c \<Longrightarrow> one_publisher c' ns ss = one_publisher c ns ss"
  by (cases "(c, ns, ss)" rule: one_publisher.cases) (simp_all add: below_def [abs_def])

lemma one_publisher_sending: "one_publisher c ns (as @ (e, subs) # bs) \<Longrightarrow> ns = [] \<and> as = [] \<and> bs = []"
  by (cases "(c, ns, as @ (e, subs) # bs)" rule: one_publisher.cases) (auto simp: append_eq_Cons_conv)

lemma order_inv_cong:
  assumes "order_inv s" and "stream_inv t" and "chan_log (ctrl t) = chan_log (ctrl s)" and "stc_sequence (ctrl t) = stc_sequence (ctrl s)"
    and "numbered t = numbered s" and "sending t = sending s"
  shows "order_inv t"
  using assms one_publisher_cong [OF assms(3,4)] by (simp add: order_inv_def)

lemma sequence_simps [simp]:
  "stc_sequence (Subscribe_register sub c) = stc_sequence c" "stc_sequence (awaitCancellation i c) = stc_sequence c"
  "stc_sequence (stream_Flush c) = stc_sequence c" "stc_sequence (Publish_send evt sub c) = stc_sequence c"
proof -
  have cl: "stc_sequence (close_sub i c) = stc_sequence c" for i c
    by (simp add: close_sub_def split: option.split)
  then have "stc_sequence (flush_subs subs c) = stc_sequence c" for subs c
    by (induction subs c rule: flush_subs.induct) simp_all
  with cl show "stc_sequence (Subscribe_register sub c) = stc_sequence c" "stc_sequence (awaitCancellation i c) = stc_sequence c"
    "stc_sequence (stream_Flush c) = stc_sequence c" "stc_sequence (Publish_send evt sub c) = stc_sequence c"
    by (simp_all add: Subscribe_register_def awaitCancellation_def stream_Flush_def Publish_send_def split: option.split prod.split)
qed

lemma order_inv_step:
  assumes "order_inv s" and "stream_step True s t"
  shows "order_inv t"
proof -
  have inv: "stream_inv s" using assms(1) by (simp add: order_inv_def)
  note inv' = stream_inv_step [OF inv assms(2)]
  have pub: "one_publisher (ctrl s) (numbered s) (sending s)" using assms(1) by (simp add: order_inv_def)
  from assms(2) show ?thesis
  proof cases
    case (make f sub c)
    then show ?thesis using chan_log_make [OF _ make(2)] inv
      by (intro order_inv_cong [OF assms(1) inv']) (auto simp: stream_inv_def Subscribe_make_def Let_def)
  next
    case (number evt evt' c)
    then have "evt_seq evt' = stc_sequence (ctrl s) + 1" "c = (ctrl s)\<lparr>stc_sequence := stc_sequence (ctrl s) + 1\<rparr>"
      by (auto simp: Publish_number_def Let_def evt_seq_def)
    with number assms(1) inv' show ?thesis by (fastforce simp: order_inv_def below_def)
  next
    case (lock evt subs)
    have "inj_on sub_id (set subs)" using subs_inj [of "ctrl s"] inv by (simp add: stream_inv_def lock(4))
    moreover from pub lock(2) have "numbered s = [evt]" "sending s = []"
      by (cases "(ctrl s, numbered s, sending s)" rule: one_publisher.cases; auto)+
    ultimately show ?thesis using pub lock(1,3) assms(1) inv' by (auto simp: order_inv_def distinct_map)
  next
    case (send as evt sub subs bs)
    with pub one_publisher_sending have nil: "numbered s = []" "as = []" "bs = []" by force+
    with pub send have e: "evt_seq evt = stc_sequence (ctrl s)" "distinct (map sub_id (sub # subs))"
      "\<forall>x \<in> set (sub # subs). below (ctrl s) (sub_id x)" by auto
    have "sub \<in> snd ` set (stc_subscribers (ctrl s))" using inv send(2) by (auto simp: stream_inv_def)
    then have op: "open_chan (ctrl s) (sub_id sub)" using inv by (auto simp: stream_inv_def ctrl_ok_def)
    have "one_publisher (ctrl t) (numbered t) (sending t)"
      using e send(1) nil by (auto simp: below_def chan_log_send [OF op] image_iff)
    moreover have "sorted_wrt (<) (map evt_seq (chan_log (ctrl t) i)) \<and> (\<forall>x \<in> set (chan_log (ctrl t) i). evt_seq x \<le> stc_sequence (ctrl t))" for i
      using e assms(1) send(1) by (auto simp: chan_log_send [OF op] order_inv_def below_def sorted_wrt_append)
    ultimately show ?thesis using inv' by (simp add: order_inv_def)
  next
    case (unlock as evt bs)
    with pub one_publisher_sending have "numbered s = []" "as = []" "bs = []" by force+
    with unlock assms(1) inv' show ?thesis by (simp add: order_inv_def)
  next
    case (recv i ch)
    then show ?thesis
      by (intro order_inv_cong [OF assms(1) inv']) (auto simp: chan_log_def fun_eq_iff)
  qed (intro order_inv_cong [OF assms(1) inv']; simp)+
qed

interpretation stream_content: invariant_system stream_init "stream_step serial" content_inv for serial
proof
  show "stream_init s \<Longrightarrow> content_inv s" for s
    using stream_inv_init [of s] by (auto simp: content_inv_def stream_init_def NewStreamController_def)
qed (rule content_inv_step)

interpretation stream_order: invariant_system stream_init "stream_step True" order_inv
proof
  show "stream_init s \<Longrightarrow> order_inv s" for s
    using stream_inv_init [of s] by (auto simp: order_inv_def stream_init_def NewStreamController_def chan_log_def)
qed (rule order_inv_step)

section \<open>Atomic runs\<close>

text \<open>The methods run without interference are runs of the system.\<close>

lemma send_all_steps:
  "(stream_step serial)\<^sup>*\<^sup>* (s\<lparr>sending := [(evt, subs)]\<rparr>)
     (s\<lparr>ctrl := fold (Publish_send evt) subs (ctrl s), sending := [(evt, [])]\<rparr>)"
proof (induction subs arbitrary: s)
  case (Cons sub subs)
  have "stream_step serial (s\<lparr>sending := [(evt, sub # subs)]\<rparr>) (s\<lparr>ctrl := Publish_send evt sub (ctrl s), sending := [(evt, subs)]\<rparr>)"
    using stream_step.send [of "s\<lparr>sending := [(evt, sub # subs)]\<rparr>" "[]" evt sub subs "[]" serial] by simp
  with Cons [of "s\<lparr>ctrl := Publish_send evt sub (ctrl s)\<rparr>"] show ?case
    by (simp add: converse_rtranclp_into_rtranclp)
qed simp

lemma publish_steps:
  assumes "stream_inv s" and "numbered s = []" and "sending s = []"
  shows "(stream_step serial)\<^sup>*\<^sup>* s (s\<lparr>ctrl := Publish evt (ctrl s)\<rparr>)"
proof -
  obtain evt' c where n: "Publish_number evt (ctrl s) = (evt', c)" by (cases "Publish_number evt (ctrl s)")
  then have subs: "stc_subscribers c = stc_subscribers (ctrl s)" by (auto simp: Publish_number_def Let_def)
  let ?subs = "map snd (stc_subscribers c)"
  have "stream_step serial s (s\<lparr>ctrl := c, numbered := [evt']\<rparr>)"
    using stream_step.number [of serial s evt evt' c] n assms(2,3) by simp
  moreover have "stream_step serial (s\<lparr>ctrl := c, numbered := [evt']\<rparr>) (s\<lparr>ctrl := c, sending := [(evt', ?subs)]\<rparr>)"
    using stream_step.lock [of evt' "s\<lparr>ctrl := c, numbered := [evt']\<rparr>" ?subs serial] assms distinct_subs [of "ctrl s"]
    by (cases s) (simp add: subs stream_inv_def)
  moreover have "(stream_step serial)\<^sup>*\<^sup>* (s\<lparr>ctrl := c, sending := [(evt', ?subs)]\<rparr>)
      (s\<lparr>ctrl := fold (Publish_send evt') ?subs c, sending := [(evt', [])]\<rparr>)"
    using send_all_steps [where s = "s\<lparr>ctrl := c\<rparr>" and evt = evt' and subs = ?subs] by simp
  moreover have "stream_step serial (s\<lparr>ctrl := fold (Publish_send evt') ?subs c, sending := [(evt', [])]\<rparr>)
      (s\<lparr>ctrl := fold (Publish_send evt') ?subs c\<rparr>)"
    using stream_step.unlock [of "s\<lparr>ctrl := fold (Publish_send evt') ?subs c, sending := [(evt', [])]\<rparr>" "[]" evt' "[]" serial] assms(3)
    by (cases s) simp
  ultimately show ?thesis
    unfolding Publish_def n Let_def prod.case
    by (meson converse_rtranclp_into_rtranclp rtranclp.rtrancl_into_rtrancl)
qed

lemma subscribe_steps:
  assumes "joining s = []" and "sending s = []"
  shows "(stream_step serial)\<^sup>*\<^sup>* s (s\<lparr>ctrl := snd (Subscribe f (ctrl s))\<rparr>)"
proof -
  obtain sub c where m: "Subscribe_make f (ctrl s) = (sub, c)" by (cases "Subscribe_make f (ctrl s)")
  have "stream_step serial s (s\<lparr>ctrl := c, joining := [sub]\<rparr>)"
    using stream_step.make [OF m, of serial] assms(1) by simp
  moreover have "stream_step serial (s\<lparr>ctrl := c, joining := [sub]\<rparr>) (s\<lparr>ctrl := Subscribe_register sub c\<rparr>)"
    using stream_step.register [of "s\<lparr>ctrl := c, joining := [sub]\<rparr>" sub serial] assms by (cases s) simp
  ultimately show ?thesis by (simp add: Subscribe_def m)
qed

text \<open>
  What a publication does to a channel, in whatever order the subscribers are visited.
\<close>

lemma send_all_other: "sub_id sub \<notin> sub_id ` set subs \<Longrightarrow>
    stc_chans (fold (Publish_send evt) subs c) (sub_id sub) = stc_chans c (sub_id sub)"
proof (induction subs arbitrary: c)
  case (Cons x subs)
  have "stc_chans (Publish_send evt x c) (sub_id sub) = stc_chans c (sub_id sub)"
    using Cons.prems by (auto simp: Publish_send_def split: option.split)
  with Cons show ?case by simp
qed simp

lemma send_all_unregistered: "i \<notin> sub_id ` set subs \<Longrightarrow> stc_chans (fold (Publish_send evt) subs c) i = stc_chans c i"
  using send_all_other [of "\<lparr>sub_id = i, sub_filter = undefined\<rparr>"] by simp

lemma send_all_registered:
  assumes "inj_on sub_id (set subs)" and "distinct subs" and "sub \<in> set subs" and "stc_chans c (sub_id sub) = Some ch"
    and "\<not> ch_closed ch"
  shows "stc_chans (fold (Publish_send evt) subs c) (sub_id sub) =
    Some (if matchesFilter (sub_filter sub) evt \<and> length (ch_buf ch) < ch_cap ch then ch\<lparr>ch_buf := ch_buf ch @ [evt]\<rparr> else ch)"
proof -
  obtain xs ys where subs: "subs = xs @ sub # ys" using assms(3) by (meson split_list)
  have new: "sub_id sub \<notin> sub_id ` set xs" "sub_id sub \<notin> sub_id ` set ys"
    using assms(1,2) by (auto simp: subs inj_on_def)
  have "stc_chans (fold (Publish_send evt) xs c) (sub_id sub) = Some ch"
    using send_all_unregistered [OF new(1)] assms(4) by simp
  with assms(5) have "stc_chans (Publish_send evt sub (fold (Publish_send evt) xs c)) (sub_id sub) =
      Some (if matchesFilter (sub_filter sub) evt \<and> length (ch_buf ch) < ch_cap ch then ch\<lparr>ch_buf := ch_buf ch @ [evt]\<rparr> else ch)"
    by (simp add: Publish_send_def select_send_def)
  with send_all_unregistered [OF new(2)] show ?thesis by (simp add: subs)
qed

lemma Publish_fold_exact:
  assumes ok: "ctrl_ok c" and c': "c' = c\<lparr>stc_sequence := n\<rparr>" and d: "distinct subs" and subs: "set subs = snd ` set (stc_subscribers c)"
  shows "stc_chans (fold (Publish_send evt) subs c') i =
      map_option (\<lambda>ch. if (\<exists>sub. map_of (stc_subscribers c) i = Some sub \<and> matchesFilter (sub_filter sub) evt) \<and>
          length (ch_buf ch) < ch_cap ch then ch\<lparr>ch_buf := ch_buf ch @ [evt]\<rparr> else ch) (stc_chans c i)"
proof (cases "map_of (stc_subscribers c) i")
  case None
  then have "i \<notin> fst ` set (stc_subscribers c)" by (simp add: map_of_eq_None_iff)
  then have "i \<notin> sub_id ` set subs" using subs_registered [OF ok] by (auto simp: subs)
  then show ?thesis using None send_all_unregistered [of i subs evt c'] by (simp add: c' option.map_ident)
next
  case (Some sub)
  then have m: "(i, sub) \<in> set (stc_subscribers c)" by (rule map_of_SomeD)
  then have i: "sub_id sub = i" "open_chan c i" using ok by (auto simp: ctrl_ok_def)
  then obtain ch where ch: "stc_chans c' (sub_id sub) = Some ch" "\<not> ch_closed ch" by (auto simp: open_chan_def c')
  have "sub \<in> set subs" using m by (force simp: subs)
  from send_all_registered [OF _ d this ch, of evt] subs_inj [OF ok] show ?thesis
    using ch(1) Some i(1) by (simp add: subs c')
qed

section \<open>Properties\<close>

text \<open>A controller with one subscriber, and an event.\<close>

definition stream_start :: stream_system where
  "stream_start = \<lparr>ctrl = NewStreamController None, joining = [], numbered = [], sending = []\<rparr>"

definition every_event :: StreamFilter where
  "every_event = \<lparr>sf_OrderIdPrefix = None, sf_BotID = None, sf_DealID = None, sf_BotEventID = None, sf_ObservedFrom = None\<rparr>"

definition one_subscriber :: stream_system where
  "one_subscriber = stream_start\<lparr>ctrl := snd (Subscribe every_event (NewStreamController None))\<rparr>"

definition some_event :: StreamEvent where
  "some_event = new_StreamEvent ThreeCommasEvent zero_OrderId"

definition two_published :: stream_system where
  "two_published = one_subscriber\<lparr>ctrl := Publish some_event (Publish some_event (ctrl one_subscriber))\<rparr>"

lemma stream_start_init: "stream_init stream_start"
  by (auto simp: stream_init_def stream_start_def)

lemma one_subscriber_reachable: "(stream_step serial)\<^sup>*\<^sup>* stream_start one_subscriber"
  using subscribe_steps [of stream_start serial every_event] by (simp add: stream_start_def one_subscriber_def)

lemma two_published_reachable: "(stream_step serial)\<^sup>*\<^sup>* stream_start two_published"
proof -
  have idle: "numbered one_subscriber = []" "sending one_subscriber = []"
    by (simp_all add: one_subscriber_def stream_start_def)
  let ?s = "one_subscriber\<lparr>ctrl := Publish some_event (ctrl one_subscriber)\<rparr>"
  have inv: "stream_inv one_subscriber" by (rule stream_sys.inv_reachable [OF stream_start_init one_subscriber_reachable])
  have one: "(stream_step serial)\<^sup>*\<^sup>* one_subscriber ?s" by (rule publish_steps [OF inv idle])
  have "(stream_step serial)\<^sup>*\<^sup>* ?s (?s\<lparr>ctrl := Publish some_event (ctrl ?s)\<rparr>)"
    using stream_sys.inv_steps [OF one inv] idle by (intro publish_steps) simp_all
  with one one_subscriber_reachable [of serial] show ?thesis by (simp add: two_published_def)
qed

lemma two_published_chan:
  "stc_chans (ctrl two_published) 1 = Some \<lparr>ch_cap = 64, ch_buf = [some_event\<lparr>se_Sequence := Some 1\<rparr>, some_event\<lparr>se_Sequence := Some 2\<rparr>],
     ch_closed = False, ch_out = []\<rparr>"
  by (simp add: two_published_def one_subscriber_def stream_start_def NewStreamController_def Subscribe_def Subscribe_make_def
      Subscribe_register_def Publish_def Publish_number_def Publish_send_def matchesFilter_def every_event_def make_chan_def
      select_send_def defaultStreamBuffer_def Let_def)

text \<open>
  C15: However subscribers, readers, cancellations, flushes and publishers interleave, the controller
  never sends on a closed channel and never closes one twice, no buffer outgrows its size, every
  registered subscriber has an open channel, and it was sent only events that match its filter.
\<close>

theorem stream_never_panics:
  assumes "stream_init s\<^sub>0" and "(stream_step serial)\<^sup>*\<^sup>* s\<^sub>0 s"
  shows "\<not> stc_panicked (ctrl s) \<and>
    (\<forall>i ch. stc_chans (ctrl s) i = Some ch \<longrightarrow> length (ch_buf ch) \<le> stc_bufferSize (ctrl s)) \<and>
    (\<forall>(i, sub) \<in> set (stc_subscribers (ctrl s)). \<exists>ch. stc_chans (ctrl s) i = Some ch \<and> \<not> ch_closed ch \<and>
       (\<forall>e \<in> set (ch_out ch @ ch_buf ch). matchesFilter (sub_filter sub) e))"
proof -
  have c: "content_inv s" by (rule stream_content.inv_reachable [OF assms])
  then have ok: "ctrl_ok (ctrl s)" by (simp add: content_inv_def stream_inv_def)
  have "\<exists>ch. stc_chans (ctrl s) i = Some ch \<and> \<not> ch_closed ch \<and> (\<forall>e \<in> set (ch_out ch @ ch_buf ch). matchesFilter (sub_filter sub) e)"
    if "(i, sub) \<in> set (stc_subscribers (ctrl s))" for i sub
  proof -
    have "sub_id sub = i" "open_chan (ctrl s) i" using ok that by (auto simp: ctrl_ok_def)
    moreover have "\<forall>e \<in> set (chan_log (ctrl s) (sub_id sub)). matchesFilter (sub_filter sub) e"
      using c that by (force simp: content_inv_def)
    ultimately show ?thesis by (auto simp: open_chan_def chan_log_def ch_log_def)
  qed
  with ok show ?thesis by (auto simp: ctrl_ok_def)
qed

theorem stream_never_panics_witness:
  "\<not> stc_panicked (ctrl two_published) \<and> length [some_event, some_event] \<le> stc_bufferSize (ctrl two_published)"
  using stream_never_panics [OF stream_start_init two_published_reachable [of True]] two_published_chan by fastforce

text \<open>
  When the events are published one after the other, as the storage layer does that holds its
  mutex, every channel carries its events in increasing order of their sequence numbers, so none
  is delivered twice.
\<close>

theorem stream_delivers_in_order:
  assumes "stream_init s\<^sub>0" and "(stream_step True)\<^sup>*\<^sup>* s\<^sub>0 s" and "stc_chans (ctrl s) i = Some ch"
  shows "sorted_wrt (<) (map evt_seq (ch_out ch @ ch_buf ch)) \<and> distinct (ch_out ch @ ch_buf ch)"
proof -
  have "order_inv s" by (rule stream_order.inv_reachable [OF assms(1,2)])
  then have "sorted_wrt (<) (map evt_seq (chan_log (ctrl s) i))" unfolding order_inv_def by blast
  moreover have "chan_log (ctrl s) i = ch_out ch @ ch_buf ch" using assms(3) by (simp add: chan_log_def ch_log_def)
  ultimately have "sorted_wrt (<) (map evt_seq (ch_out ch @ ch_buf ch))" by simp
  then show ?thesis using strict_sorted_iff [of "map evt_seq (ch_out ch @ ch_buf ch)"] distinct_map by blast
qed

theorem stream_delivers_in_order_witness:
  "distinct [some_event\<lparr>se_Sequence := Some 1\<rparr>, some_event\<lparr>se_Sequence := Some 2\<rparr>]"
  using stream_delivers_in_order [OF stream_start_init two_published_reachable two_published_chan] by simp

text \<open>Two publishers that overlap can deliver in the other order.\<close>

lemma overlapping_publishers_reorder:
  "\<exists>s ch. (stream_step False)\<^sup>*\<^sup>* stream_start s \<and> stc_chans (ctrl s) 1 = Some ch \<and> map evt_seq (ch_buf ch) = [2, 1]"
proof -
  let ?e = "\<lambda>n. some_event\<lparr>se_Sequence := Some n\<rparr>"
  let ?s0 = "one_subscriber"
  let ?c = "(ctrl ?s0)\<lparr>stc_sequence := 2\<rparr>"
  let ?sub = "\<lparr>sub_id = 1, sub_filter = every_event\<rparr>"
  define s1 where "s1 = ?s0\<lparr>ctrl := (ctrl ?s0)\<lparr>stc_sequence := 1\<rparr>, numbered := [?e 1]\<rparr>"
  define s2 where "s2 = ?s0\<lparr>ctrl := ?c, numbered := [?e 1, ?e 2]\<rparr>"
  define s3 where "s3 = ?s0\<lparr>ctrl := ?c, numbered := [?e 1], sending := [(?e 2, [?sub])]\<rparr>"
  define s4 where "s4 = ?s0\<lparr>ctrl := ?c, numbered := [], sending := [(?e 2, [?sub]), (?e 1, [?sub])]\<rparr>"
  define s5 where "s5 = s4\<lparr>ctrl := Publish_send (?e 2) ?sub ?c, sending := [(?e 2, []), (?e 1, [?sub])]\<rparr>"
  define s6 where "s6 = s4\<lparr>ctrl := Publish_send (?e 1) ?sub (Publish_send (?e 2) ?sub ?c), sending := [(?e 2, []), (?e 1, [])]\<rparr>"
  note sdefs = s1_def s2_def s3_def s4_def s5_def s6_def
  note defs = one_subscriber_def stream_start_def NewStreamController_def Subscribe_def Subscribe_make_def Subscribe_register_def
    Publish_number_def Let_def
  have ne: "?e 1 \<noteq> ?e 2" by (simp add: some_event_def new_StreamEvent_def)
  then have r: "remove1 (?e 2) [?e 1, ?e 2] = [?e 1]" by simp
  have subs: "stc_subscribers (ctrl ?s0) = [(1, ?sub)]" and idle: "sending ?s0 = []" by (simp_all add: defs)
  have 1: "stream_step False ?s0 s1" using stream_step.number [of False ?s0 some_event] by (simp add: sdefs defs)
  have 2: "stream_step False s1 s2" using stream_step.number [of False s1 some_event] by (simp add: sdefs defs)
  have 3: "stream_step False s2 s3" using stream_step.lock [of "?e 2" s2 "[?sub]" False] idle by (simp add: sdefs subs r del: remove1.simps)
  have 4: "stream_step False s3 s4" using stream_step.lock [of "?e 1" s3 "[?sub]" False] idle by (simp add: sdefs subs)
  have 5: "stream_step False s4 s5"
    using stream_step.send [of s4 "[]" "?e 2" ?sub "[]" "[(?e 1, [?sub])]" False] by (simp add: sdefs)
  have 6: "stream_step False s5 s6"
    using stream_step.send [of s5 "[(?e 2, [])]" "?e 1" ?sub "[]" "[]" False] by (simp add: sdefs)
  note more = rtranclp.rtrancl_into_rtrancl
  have "(stream_step False)\<^sup>*\<^sup>* stream_start s6"
    by (rule more [OF more [OF more [OF more [OF more [OF more [OF one_subscriber_reachable 1] 2] 3] 4] 5] 6])
  moreover have "stc_chans (ctrl s6) 1 = Some \<lparr>ch_cap = 64, ch_buf = [?e 2, ?e 1], ch_closed = False, ch_out = []\<rparr>"
  proof -
    have ch: "stc_chans (ctrl ?s0) 1 = Some \<lparr>ch_cap = 64, ch_buf = [], ch_closed = False, ch_out = []\<rparr>"
      by (simp add: defs make_chan_def defaultStreamBuffer_def)
    have f: "matchesFilter every_event e" for e by (simp add: matchesFilter_def every_event_def)
    show ?thesis unfolding s6_def by (simp add: Publish_send_def f ch select_send_def)
  qed
  moreover have "map evt_seq [?e 2, ?e 1] = [2, 1]" by (simp add: evt_seq_def)
  ultimately show ?thesis by (metis chan.select_convs(2))
qed

text \<open>
  A publication in a reachable state appends the numbered event to the channel of exactly the
  registered subscribers whose filter it matches and whose buffer has room; the others lose it, and
  the result does not depend on the order in which the map of subscribers is visited.
\<close>

theorem Publish_exact:
  assumes "stream_init s\<^sub>0" and "(stream_step serial)\<^sup>*\<^sup>* s\<^sub>0 s" and "Publish_number evt (ctrl s) = (evt', c)"
    and "distinct subs" and "set subs = snd ` set (stc_subscribers (ctrl s))"
  shows "evt' = evt\<lparr>se_Sequence := Some (stc_sequence (ctrl s) + 1)\<rparr> \<and>
    stc_chans (Publish evt (ctrl s)) i =
      map_option (\<lambda>ch. if (\<exists>sub. map_of (stc_subscribers (ctrl s)) i = Some sub \<and> matchesFilter (sub_filter sub) evt') \<and>
          length (ch_buf ch) < ch_cap ch then ch\<lparr>ch_buf := ch_buf ch @ [evt']\<rparr> else ch) (stc_chans (ctrl s) i) \<and>
    stc_chans (fold (Publish_send evt') subs c) i = stc_chans (Publish evt (ctrl s)) i"
proof -
  have ok: "ctrl_ok (ctrl s)"
    using stream_sys.inv_reachable [OF assms(1,2)] by (simp add: stream_inv_def)
  have c: "c = (ctrl s)\<lparr>stc_sequence := stc_sequence (ctrl s) + 1\<rparr>"
    and evt': "evt' = evt\<lparr>se_Sequence := Some (stc_sequence (ctrl s) + 1)\<rparr>"
    using assms(3) by (auto simp: Publish_number_def Let_def)
  note sent = Publish_fold_exact [OF ok c]
  have "Publish evt (ctrl s) = fold (Publish_send evt') (map snd (stc_subscribers (ctrl s))) c"
    by (simp add: Publish_def assms(3) c)
  then show ?thesis
    using sent [OF assms(4,5), of evt' i] sent [OF distinct_subs [OF ok], of evt' i] by (simp add: evt')
qed

theorem Publish_exact_witness:
  "stc_chans (Publish some_event (ctrl two_published)) 1 =
     Some \<lparr>ch_cap = 64, ch_buf = [some_event\<lparr>se_Sequence := Some 1\<rparr>, some_event\<lparr>se_Sequence := Some 2\<rparr>,
       some_event\<lparr>se_Sequence := Some 3\<rparr>], ch_closed = False, ch_out = []\<rparr>"
proof -
  have ok: "ctrl_ok (ctrl two_published)"
    using stream_sys.inv_reachable [OF stream_start_init two_published_reachable [of True]] by (simp add: stream_inv_def)
  have subs: "stc_subscribers (ctrl two_published) = [(1, \<lparr>sub_id = 1, sub_filter = every_event\<rparr>)]"
    and sq: "stc_sequence (ctrl two_published) = 2"
    by (simp_all add: two_published_def one_subscriber_def stream_start_def NewStreamController_def Subscribe_def Subscribe_make_def
      Subscribe_register_def Publish_def Publish_number_def Publish_send_def matchesFilter_def every_event_def make_chan_def
      select_send_def defaultStreamBuffer_def Let_def)
  have "Publish_number some_event (ctrl two_published) =
      (some_event\<lparr>se_Sequence := Some 3\<rparr>, (ctrl two_published)\<lparr>stc_sequence := 3\<rparr>)"
    by (simp add: Publish_number_def Let_def sq)
  from Publish_exact [OF stream_start_init two_published_reachable [of True] this distinct_subs [OF ok], of 1]
  show ?thesis by (simp add: two_published_chan subs matchesFilter_def every_event_def)
qed

end
