(* ===== verification/Http_Vault.thy ===== *)
theory Http_Vault
  imports Storage_Api
begin

text \<open>
  \<^verbatim>\<open>internal/api/vault.go\<close>: the session behind the cookie and the handlers of the vault.

  A handler is a function of the request, of the cookie it carries and of the handler's state, and
  returns the status code, the body and the state. A request without the cookie and one without the
  request in its context are both \<open>None\<close>. One clock reading serves a request; \<open>entropy\<close> is what the random
  source returns, \<open>None\<close> being its error. \<open>marshal\<close> is the JSON text the server keeps of the
  bundle, and \<open>flag_value\<close> reads the JSON text of a flag.
\<close>

section \<open>The session\<close>

definition vaultSessionTokenLength :: nat where
  "vaultSessionTokenLength = 32"

definition defaultVaultSessionTTL :: duration where
  "defaultVaultSessionTTL = 1800 * second"

definition maxVaultSessionTTL :: duration where
  "maxVaultSessionTTL = 86400 * second"

definition minVaultSessionTTL :: duration where
  "minVaultSessionTTL = 60 * second"

record vaultSession =
  ses_token :: string
  ses_expiresAt :: time

type_synonym vaultSessionManager = "vaultSession option"

text \<open>\<^verbatim>\<open>base64.RawURLEncoding\<close>.\<close>

definition base64_digit :: "nat \<Rightarrow> char" where
  "base64_digit n = ''ABCDEFGHIJKLMNOPQRSTUVWXYZabcdefghijklmnopqrstuvwxyz0123456789-_'' ! (n mod 64)"

fun RawURLEncoding :: "byte list \<Rightarrow> string" where
  "RawURLEncoding [] = []"
| "RawURLEncoding [a] = (let n = unat a * 65536 in [base64_digit (n div 262144), base64_digit (n div 4096)])"
| "RawURLEncoding [a, b] =
     (let n = unat a * 65536 + unat b * 256
      in [base64_digit (n div 262144), base64_digit (n div 4096), base64_digit (n div 64)])"
| "RawURLEncoding (a # b # c # bs) =
     (let n = unat a * 65536 + unat b * 256 + unat c
      in [base64_digit (n div 262144), base64_digit (n div 4096), base64_digit (n div 64), base64_digit n] @ RawURLEncoding bs)"

definition Issue :: "byte list option \<Rightarrow> time \<Rightarrow> vaultSessionManager \<Rightarrow> string option \<times> vaultSessionManager" where
  "Issue entropy expiry m =
     (if expiry = zero_time then (None, m)
      else (case entropy of
          None \<Rightarrow> (None, m)
        | Some buf \<Rightarrow>
            let token = RawURLEncoding buf
            in (Some token, Some \<lparr>ses_token = token, ses_expiresAt = expiry\<rparr>)))"

text \<open>Whether the token is valid, and whether it has expired.\<close>

definition session_Validate :: "string \<Rightarrow> time \<Rightarrow> vaultSessionManager \<Rightarrow> (bool \<times> bool) \<times> vaultSessionManager" where
  "session_Validate token now m =
     (if token = [] then ((False, False), m)
      else (case m of
          None \<Rightarrow> ((False, False), m)
        | Some cur \<Rightarrow>
            if ses_token cur \<noteq> token then ((False, False), m)
            else if ses_expiresAt cur < now then ((False, True), None)
            else ((True, False), m)))"

definition session_Clear :: "vaultSessionManager \<Rightarrow> vaultSessionManager" where
  "session_Clear m = None"

definition session_Expiry :: "vaultSessionManager \<Rightarrow> time option" where
  "session_Expiry m = map_option ses_expiresAt m"

section \<open>The handler\<close>

text \<open>A missing controller or session manager is \<open>None\<close>.\<close>

record ApiHandler =
  ah_store :: Storage
  ah_vault :: "Controller option"
  ah_session :: "vaultSessionManager option"
  ah_debug :: bool
  ah_orderScalerMaxMultiplier :: f64

definition requireSession :: "string option \<Rightarrow> time \<Rightarrow> ApiHandler \<Rightarrow> (bool \<times> bool) \<times> ApiHandler" where
  "requireSession cookie now h =
     (if ah_debug h then ((True, False), h)
      else (case ah_session h of
          None \<Rightarrow> ((False, False), h)
        | Some m \<Rightarrow>
            (case cookie of
               None \<Rightarrow> ((False, False), h)
             | Some token \<Rightarrow>
                 (case session_Validate token now m of
                    ((valid, expired), m) \<Rightarrow>
                      let h = h\<lparr>ah_session := Some m\<rparr> in
                      (case ah_vault h of
                         None \<Rightarrow> ((valid, expired), h)
                       | Some v \<Rightarrow>
                           if \<not> valid \<and> expired
                           then ((False, True), h\<lparr>ah_vault := Some (snd (Seal now v)), ah_session := Some (session_Clear m)\<rparr>)
                           else ((valid, expired), h))))))"

definition controllerStatus :: "ApiHandler \<Rightarrow> ControllerStatus option" where
  "controllerStatus h = map_option Status (ah_vault h)"

datatype session_check = SessionOk | SessionExpired | SessionSealed | SessionInvalid | SessionError

text \<open>The four results of \<^verbatim>\<open>requireUnsealedSession\<close> as one value.\<close>

definition requireUnsealedSession :: "string option \<Rightarrow> time \<Rightarrow> ApiHandler \<Rightarrow> session_check \<times> ApiHandler" where
  "requireUnsealedSession cookie now h =
     (case requireSession cookie now h of
        ((valid, expired), h) \<Rightarrow>
          if \<not> valid then (if expired then SessionExpired else SessionInvalid, h)
          else (case controllerStatus h of
              None \<Rightarrow> (SessionError, h)
            | Some status \<Rightarrow> if st_State status \<noteq> StateUnsealed then (SessionSealed, h) else (SessionOk, h)))"

type_synonym 'b response = "int \<times> 'b option"

definition refused_code :: "session_check \<Rightarrow> int" where
  "refused_code r = (case r of SessionError \<Rightarrow> 500 | SessionSealed \<Rightarrow> 403 | _ \<Rightarrow> 401)"

section \<open>Requests and responses\<close>

record VaultEncryptedPayload =
  ep_Version :: string
  ep_Ciphertext :: "byte list"
  ep_Nonce :: "byte list"
  ep_AssociatedData :: "byte list option"
  ep_PrfParams :: "(string \<times> json) list option"

record VaultVenueSecret =
  vv_Id :: string
  vv_Type :: string
  vv_Wallet :: string
  vv_PrivateKey :: string
  vv_IsPrimary :: bool
  vv_DisplayName :: "string option"
  vv_ApiUrl :: "string option"
  vv_Flags :: "(string \<times> string) list option"

record VaultSecretsBundle =
  vb_Username :: string
  vb_APIKEY :: string
  vb_PRIVATEKEY :: string
  vb_PLANTIER :: string
  vb_Venues :: "VaultVenueSecret list"

record api_VaultStatus =
  av_State :: State
  av_User :: "(string \<times> time) option"
  av_SealedAt :: "time option"
  av_UnsealedAt :: "time option"
  av_SessionExpiresAt :: "time option"
  av_DebugMode :: bool

record VaultSetupRequest =
  vsr_Username :: string
  vsr_Payload :: VaultEncryptedPayload

record VaultUnsealRequest =
  vur_Payload :: VaultSecretsBundle
  vur_RememberSessionSeconds :: "int option"

record VaultPayloadUpdate =
  vpu_EncryptedPayload :: VaultEncryptedPayload
  vpu_DecryptedPayload :: VaultSecretsBundle

definition convertControllerStatus :: "ApiHandler \<Rightarrow> ControllerStatus \<Rightarrow> api_VaultStatus" where
  "convertControllerStatus h st =
     \<lparr>av_State = st_State st, av_User = map_option (\<lambda>u. (us_Username u, us_CreatedAt u)) (st_User st),
      av_SealedAt = st_SealedAt st, av_UnsealedAt = st_UnsealedAt st, av_SessionExpiresAt = st_SessionExpiresAt st,
      av_DebugMode = ah_debug h\<rparr>"

text \<open>Stored parameters are an object, or a text that is none. Associated data is stored as NULL, here the empty list, when empty.\<close>

definition convertVaultPayload :: "Payload \<Rightarrow> VaultEncryptedPayload option" where
  "convertVaultPayload p =
     (let e = \<lparr>ep_Version = py_Version p, ep_Ciphertext = py_Ciphertext p, ep_Nonce = py_Nonce p,
            ep_AssociatedData = (if py_AssociatedData p = [] then None else Some (py_AssociatedData p)), ep_PrfParams = None\<rparr>
      in case py_PRFParams p of
           None \<Rightarrow> Some e
         | Some (Doc (JObject m)) \<Rightarrow> Some (e\<lparr>ep_PrfParams := Some m\<rparr>)
         | Some (Doc JNull) \<Rightarrow> Some (e\<lparr>ep_PrfParams := Some []\<rparr>)
         | Some _ \<Rightarrow> None)"

definition validateEncryptedPayload :: "VaultEncryptedPayload \<Rightarrow> bool" where
  "validateEncryptedPayload p = (TrimSpace (ep_Version p) \<noteq> [] \<and> ep_Ciphertext p \<noteq> [] \<and> ep_Nonce p \<noteq> [])"

definition buildPayloadInput :: "VaultEncryptedPayload \<Rightarrow> int \<Rightarrow> time \<Rightarrow> PayloadInput" where
  "buildPayloadInput p userID now =
     \<lparr>pi_UserID = userID, pi_Version = TrimSpace (ep_Version p), pi_Ciphertext = ep_Ciphertext p, pi_Nonce = ep_Nonce p,
      pi_AssociatedData = (case ep_AssociatedData p of None \<Rightarrow> [] | Some ad \<Rightarrow> ad),
      pi_PRFParams = map_option (\<lambda>m. Doc (JObject m)) (ep_PrfParams p), pi_UpdatedAt = now\<rparr>"

text \<open>\<^verbatim>\<open>cloneInterfaceMap\<close>: nil stays nil.\<close>

definition cloneInterfaceMap :: "(string \<times> 'v) list option \<Rightarrow> (string \<times> 'v) list option" where
  "cloneInterfaceMap src = src"

definition trimmed :: "string option \<Rightarrow> string" where
  "trimmed s = (case s of None \<Rightarrow> [] | Some x \<Rightarrow> TrimSpace x)"

text \<open>The loop over the venues: the normalised request, the secrets and the number of primaries.\<close>

fun build_venues ::
  "VaultVenueSecret list \<Rightarrow> string + VaultVenueSecret list \<times> VenueSecret list \<times> nat" where
  "build_venues [] = Inr ([], [], 0)"
| "build_venues (venue # rest) =
     (let vid = TrimSpace (vv_Id venue); venueType = TrimSpace (vv_Type venue); wallet = TrimSpace (vv_Wallet venue);
          privateKey = TrimSpace (vv_PrivateKey venue) in
      if vid = [] \<or> venueType = [] \<or> wallet = [] \<or> privateKey = []
      then Inl ''venue definitions must include id, type, wallet, and private key''
      else
        let displayName = trimmed (vv_DisplayName venue); apiURL = trimmed (vv_ApiUrl venue) in
        if EqualFold venueType ''hyperliquid'' \<and> apiURL = [] then Inl ''hyperliquid venues require an api_url''
        else
          let flags = cloneInterfaceMap (vv_Flags venue);
              normed = \<lparr>vv_Id = vid, vv_Type = venueType, vv_Wallet = wallet, vv_PrivateKey = privateKey,
                vv_IsPrimary = vv_IsPrimary venue, vv_DisplayName = (if displayName \<noteq> [] then Some displayName else None),
                vv_ApiUrl = (if apiURL \<noteq> [] then Some apiURL else None),
                vv_Flags = (case flags of None \<Rightarrow> None | Some m \<Rightarrow> if m = [] then None else Some m)\<rparr>;
              secret = \<lparr>vs_ID = vid, vs_Type = venueType, vs_DisplayName = displayName, vs_Wallet = wallet,
                vs_PrivateKey = privateKey, vs_APIURL = apiURL, vs_WebsocketURL = [], vs_Flags = flags,
                vs_Primary = vv_IsPrimary venue\<rparr>
          in map_sum id (\<lambda>(ns, vs, n). (normed # ns, secret # vs, if vv_IsPrimary venue then Suc n else n)) (build_venues rest))"

definition buildSecretsBundle ::
  "(VaultSecretsBundle \<Rightarrow> byte list) \<Rightarrow> VaultSecretsBundle \<Rightarrow> time \<Rightarrow> string + Secrets" where
  "buildSecretsBundle marshal bundle now =
     (let username = TrimSpace (vb_Username bundle); threeCommasKey = TrimSpace (vb_APIKEY bundle);
          threeCommasSecret = TrimSpace (vb_PRIVATEKEY bundle); planTierRaw = TrimSpace (vb_PLANTIER bundle) in
      if username = [] then Inl ''payload username is required''
      else if threeCommasKey = [] \<or> threeCommasSecret = [] then Inl ''missing required secret fields''
      else if planTierRaw = [] then Inl ''missing required secret field 'THREECOMMAS_PLAN_TIER' ''
      else (case ParseThreeCommasPlanTier planTierRaw of
          Inl _ \<Rightarrow> Inl ''plan tier''
        | Inr planTier \<Rightarrow>
            if vb_Venues bundle = [] then Inl ''vault secrets require at least one venue''
            else (case build_venues (vb_Venues bundle) of
                Inl e \<Rightarrow> Inl e
              | Inr (normed, venues, primaryCount) \<Rightarrow>
                  if primaryCount = 0 then Inl ''vault secrets require at least one primary venue''
                  else Inr \<lparr>sc_Secrets = \<lparr>THREECOMMASAPIKEY = threeCommasKey, THREECOMMASPRIVATEKEY = threeCommasSecret,
                              THREECOMMASPLANTIER = planTier, Venues = venues\<rparr>,
                            sc_Raw = marshal \<lparr>vb_Username = username, vb_APIKEY = threeCommasKey,
                              vb_PRIVATEKEY = threeCommasSecret, vb_PLANTIER = planTier, vb_Venues = normed\<rparr>,
                            sc_ReceivedAt = now\<rparr>)))"

text \<open>Multiplying seconds to a \<^verbatim>\<open>time.Duration\<close> wraps around.\<close>

definition deriveSessionTTL :: "int option \<Rightarrow> duration" where
  "deriveSessionTTL rememberSeconds =
     (if rememberSeconds = Some 0 then defaultVaultSessionTTL
      else
        let ttl = (case rememberSeconds of
                None \<Rightarrow> defaultVaultSessionTTL
              | Some n \<Rightarrow> if 0 < n then wrap64 (n * second) else defaultVaultSessionTTL);
            ttl = (if ttl < minVaultSessionTTL then minVaultSessionTTL else ttl)
        in if maxVaultSessionTTL < ttl then maxVaultSessionTTL else ttl)"

section \<open>Handlers\<close>

text \<open>The flags of a venue, with its URL unless they name one.\<close>

definition venue_flags :: "(string \<Rightarrow> json) \<Rightarrow> VenueSecret \<Rightarrow> (string \<times> json) list option" where
  "venue_flags flag_value venue =
     (let flags = map_option (map (map_prod id flag_value)) (cloneInterfaceMap (vs_Flags venue));
          flags = (if vs_APIURL venue = [] then flags
                   else (let m = (case flags of None \<Rightarrow> [] | Some m \<Rightarrow> m)
                         in Some (if map_of m ''api_url'' = None then m @ [(''api_url'', JString (vs_APIURL venue))] else m)))
      in case flags of None \<Rightarrow> None | Some m \<Rightarrow> if m = [] then None else Some m)"

fun syncVenueMetadata :: "(string \<Rightarrow> json) \<Rightarrow> VenueSecret list \<Rightarrow> Storage \<Rightarrow> venue_error option \<times> Storage" where
  "syncVenueMetadata flag_value [] s = (None, s)"
| "syncVenueMetadata flag_value (venue # rest) s =
     (let displayName = TrimSpace (vs_DisplayName venue);
          displayName = (if displayName = [] then vs_ID venue else displayName)
      in case Storage_UpsertVenue (TrimSpace (vs_ID venue))
              \<lparr>ur_Type = TrimSpace (vs_Type venue), ur_DisplayName = displayName, ur_Wallet = TrimSpace (vs_Wallet venue),
               ur_Flags = venue_flags flag_value venue\<rparr> s of
           (Inl e, s) \<Rightarrow> (Some e, s)
         | (Inr _, s) \<Rightarrow> syncVenueMetadata flag_value rest s)"

definition GetVaultPayload :: "string option \<Rightarrow> time \<Rightarrow> ApiHandler \<Rightarrow> VaultEncryptedPayload response \<times> ApiHandler" where
  "GetVaultPayload cookie now h =
     (case requireSession cookie now h of
        ((ok, _), h) \<Rightarrow>
          if \<not> ok then ((401, None), h)
          else (case controllerStatus h of
              None \<Rightarrow> ((500, None), h)
            | Some st \<Rightarrow>
                (case st_User st of
                   None \<Rightarrow> ((423, None), h)
                 | Some user \<Rightarrow>
                     if st_State st = StateSetupRequired then ((423, None), h)
                     else (case GetVaultPayloadForUser (us_ID user) (sg_db (ah_store h)) of
                         Inl _ \<Rightarrow> ((500, None), h)
                       | Inr None \<Rightarrow> ((404, None), h)
                       | Inr (Some payload) \<Rightarrow>
                           (case convertVaultPayload payload of
                              None \<Rightarrow> ((500, None), h)
                            | Some encrypted \<Rightarrow> ((200, Some encrypted), h))))))"

definition UpdateVaultPayload ::
  "(VaultSecretsBundle \<Rightarrow> byte list) \<Rightarrow> (string \<Rightarrow> json) \<Rightarrow> string option \<Rightarrow> time \<Rightarrow> VaultPayloadUpdate option
    \<Rightarrow> ApiHandler \<Rightarrow> unit response \<times> ApiHandler" where
  "UpdateVaultPayload marshal flag_value cookie now body h =
     (case body of
        None \<Rightarrow> ((400, None), h)
      | Some b \<Rightarrow>
          (case requireSession cookie now h of
             ((ok, _), h) \<Rightarrow>
               if \<not> ok then ((401, None), h)
               else (case controllerStatus h of
                   None \<Rightarrow> ((500, None), h)
                 | Some st \<Rightarrow>
                     if st_State st \<noteq> StateUnsealed then ((403, None), h)
                     else (case st_User st of
                         None \<Rightarrow> ((500, None), h)
                       | Some user \<Rightarrow>
                           if \<not> validateEncryptedPayload (vpu_EncryptedPayload b) then ((400, None), h)
                           else (case buildSecretsBundle marshal (vpu_DecryptedPayload b) now of
                               Inl _ \<Rightarrow> ((400, None), h)
                             | Inr secrets \<Rightarrow>
                                 if Validate (sc_Secrets secrets) \<noteq> None then ((400, None), h)
                                 else (case UpsertVaultPayload now
                                         (buildPayloadInput (vpu_EncryptedPayload b) (us_ID user) now) (ah_store h) of
                                     (Some _, s) \<Rightarrow> ((500, None), h\<lparr>ah_store := s\<rparr>)
                                   | (None, s) \<Rightarrow>
                                       ((200, Some ()), h\<lparr>ah_store :=
                                          snd (syncVenueMetadata flag_value (Venues (sc_Secrets secrets)) s)\<rparr>)))))))"

definition GetVaultStatus :: "string option \<Rightarrow> time \<Rightarrow> ApiHandler \<Rightarrow> api_VaultStatus response \<times> ApiHandler" where
  "GetVaultStatus cookie now h =
     (case controllerStatus h of
        None \<Rightarrow> ((500, None), h)
      | Some status \<Rightarrow>
          let (sessionValid, status, h) =
            (if st_State status \<noteq> StateUnsealed then (False, status, h)
             else (case requireSession cookie now h of
                 ((valid, _), h) \<Rightarrow>
                   (valid, if valid then status else status\<lparr>st_State := StateSealed, st_SessionExpiresAt := None\<rparr>, h)));
            status = (case ah_session h of
                None \<Rightarrow> status
              | Some m \<Rightarrow>
                  (case session_Expiry m of
                     Some expiry \<Rightarrow> if sessionValid then status\<lparr>st_SessionExpiresAt := Some expiry\<rparr> else status
                   | None \<Rightarrow> status))
          in ((200, Some (convertControllerStatus h status)), h))"

definition SealVault :: "string option \<Rightarrow> time \<Rightarrow> ApiHandler \<Rightarrow> api_VaultStatus response \<times> ApiHandler" where
  "SealVault cookie now h =
     (case requireSession cookie now h of
        ((ok, _), h) \<Rightarrow>
          if \<not> ok then ((401, None), h)
          else (case ah_vault h of
              None \<Rightarrow> ((500, None), h)
            | Some v \<Rightarrow>
                (case Seal now v of
                   (Some _, v) \<Rightarrow> ((500, None), h\<lparr>ah_vault := Some v\<rparr>)
                 | (None, v) \<Rightarrow>
                     let h = h\<lparr>ah_vault := Some v, ah_session := map_option session_Clear (ah_session h)\<rparr>
                     in ((200, Some (convertControllerStatus h (Status v))), h))))"

definition SetupVault :: "time \<Rightarrow> VaultSetupRequest option \<Rightarrow> ApiHandler \<Rightarrow> api_VaultStatus response \<times> ApiHandler" where
  "SetupVault now body h =
     (case body of
        None \<Rightarrow> ((400, None), h)
      | Some b \<Rightarrow>
          (case ah_vault h of
             None \<Rightarrow> ((500, None), h)
           | Some v \<Rightarrow>
               if vc_state v \<noteq> StateSetupRequired then ((409, None), h)
               else let username = TrimSpace (vsr_Username b) in
                 if username = [] then ((400, None), h)
                 else if \<not> validateEncryptedPayload (vsr_Payload b) then ((400, None), h)
                 else (case EnsureVaultUser now username (ah_store h) of
                     (Inl _, s) \<Rightarrow> ((500, None), h\<lparr>ah_store := s\<rparr>)
                   | (Inr user, s) \<Rightarrow>
                       let h = h\<lparr>ah_store := s\<rparr> in
                       (case GetVaultPayloadForUser (us_ID user) (sg_db s) of
                          Inl _ \<Rightarrow> ((500, None), h)
                        | Inr (Some _) \<Rightarrow> ((409, None), h)
                        | Inr None \<Rightarrow>
                            (case UpsertVaultPayload now (buildPayloadInput (vsr_Payload b) (us_ID user) now) s of
                               (Some _, s) \<Rightarrow> ((500, None), h\<lparr>ah_store := s\<rparr>)
                             | (None, s) \<Rightarrow>
                                 let h = h\<lparr>ah_store := s\<rparr>; v = SetUser (Some user) v in
                                 (case Seal now v of
                                    (Some _, v) \<Rightarrow> ((500, None), h\<lparr>ah_vault := Some v\<rparr>)
                                  | (None, v) \<Rightarrow>
                                      let h = h\<lparr>ah_vault := Some v, ah_session := map_option session_Clear (ah_session h)\<rparr>
                                      in ((201, Some (convertControllerStatus h (Status v))), h)))))))"

text \<open>The body of a success carries the cookie's value next to the status.\<close>

definition UnsealVault ::
  "(VaultSecretsBundle \<Rightarrow> byte list) \<Rightarrow> (string \<Rightarrow> json) \<Rightarrow> byte list option \<Rightarrow> time \<Rightarrow> VaultUnsealRequest option
    \<Rightarrow> ApiHandler \<Rightarrow> (api_VaultStatus \<times> string) response \<times> ApiHandler" where
  "UnsealVault marshal flag_value entropy now body h =
     (case body of
        None \<Rightarrow> ((400, None), h)
      | Some b \<Rightarrow>
          (case ah_vault h of
             None \<Rightarrow> ((500, None), h)
           | Some v \<Rightarrow>
               if vc_state v = StateSetupRequired then ((423, None), h)
               else (case buildSecretsBundle marshal (vur_Payload b) now of
                   Inl _ \<Rightarrow> ((400, None), h)
                 | Inr secrets \<Rightarrow>
                     (case syncVenueMetadata flag_value (Venues (sc_Secrets secrets)) (ah_store h) of
                        (Some _, s) \<Rightarrow> ((500, None), h\<lparr>ah_store := s\<rparr>)
                      | (None, s) \<Rightarrow>
                          let h = h\<lparr>ah_store := s\<rparr>; expiry = now + deriveSessionTTL (vur_RememberSessionSeconds b) in
                          (case Unseal now secrets (Some expiry) v of
                             (Some ErrInvalidTransition, v) \<Rightarrow> ((409, None), h\<lparr>ah_vault := Some v\<rparr>)
                           | (Some _, v) \<Rightarrow> ((500, None), h\<lparr>ah_vault := Some v\<rparr>)
                           | (None, v) \<Rightarrow>
                               let h = h\<lparr>ah_vault := Some v\<rparr> in
                               (case ah_session h of
                                  None \<Rightarrow> ((500, None), h)
                                | Some m \<Rightarrow>
                                    (case Issue entropy expiry m of
                                       (None, m) \<Rightarrow> ((500, None), h\<lparr>ah_session := Some m\<rparr>)
                                     | (Some token, m) \<Rightarrow>
                                         let h = h\<lparr>ah_session := Some m\<rparr>;
                                             status = (convertControllerStatus h (Status v))\<lparr>av_SessionExpiresAt := Some expiry\<rparr>
                                         in ((200, Some (status, token)), h)))))))) "

end
