(* ===== verification/Order_View.thy ===== *)
theory Order_View
  imports Listing Event_Stream Http_Vault
begin

text \<open>
  The part of \<^verbatim>\<open>internal/api/handler.go\<close> that turns stored orders and stream events into the
  records of the API: identifiers, submissions, statuses and log entries, and \<^verbatim>\<open>writeSSEFrame\<close> of
  \<^verbatim>\<open>handler_streaming.go\<close>.

  A union type of the generated API is a datatype. Its \<^verbatim>\<open>From...\<close> method marshals the value and
  fails when a number is infinite or not a number; the predicates named \<open>json_...\<close> say when it succeeds. Converting an SDK enumeration
  to \<^verbatim>\<open>string\<close> keeps its value, so the enumeration is kept.
\<close>

section \<open>Records of the API\<close>

record OrderIdentifiers =
  ids_Hex :: string
  ids_BotId :: int
  ids_DealId :: int
  ids_BotEventId :: int
  ids_CreatedAt :: time
  ids_VenueId :: string
  ids_Wallet :: string

definition zero_OrderIdentifiers :: OrderIdentifiers where
  "zero_OrderIdentifiers = \<lparr>ids_Hex = [], ids_BotId = 0, ids_DealId = 0, ids_BotEventId = 0,
     ids_CreatedAt = zero_time, ids_VenueId = [], ids_Wallet = []\<rparr>"

record ThreeCommasBotEvent =
  tb_CreatedAt :: time
  tb_Action :: BotEventAction
  tb_Coin :: string
  tb_Type :: MarketOrderOrderType
  tb_Status :: MarketOrderStatusString
  tb_Price :: f64
  tb_Size :: f64
  tb_OrderType :: MarketOrderDealOrderType
  tb_OrderSize :: int
  tb_OrderPosition :: int
  tb_QuoteVolume :: f64
  tb_QuoteCurrency :: string
  tb_IsMarket :: bool
  tb_Text :: string
  tb_Profit :: "f64 option"
  tb_ProfitCurrency :: "string option"
  tb_ProfitUsd :: "f64 option"
  tb_ProfitPercentage :: "f64 option"

record HyperliquidOrderType =
  ht_Limit :: "Tif option"
  ht_Trigger :: "TriggerOrderType option"

record HyperliquidCreateOrder =
  hc_Coin :: string
  hc_IsBuy :: bool
  hc_Price :: f64
  hc_Size :: f64
  hc_ReduceOnly :: bool
  hc_OrderType :: HyperliquidOrderType
  hc_Cloid :: "string option"

record HyperliquidModifyAction =
  hm_Cloid :: "string option"
  hm_Oid :: "int option"
  hm_Order :: HyperliquidCreateOrder

record HyperliquidCancelOrder =
  hx_Coin :: string
  hx_Cloid :: string

datatype HyperliquidAction =
  CreateAction HyperliquidCreateOrder | ModifyAction HyperliquidModifyAction | CancelAction HyperliquidCancelOrder

record HyperliquidWsBasicOrder =
  hb_Coin :: string
  hb_Side :: string
  hb_LimitPx :: string
  hb_Size :: string
  hb_Oid :: int
  hb_Timestamp :: int
  hb_OrigSize :: string
  hb_Cloid :: "string option"

record HyperliquidWsOrder =
  hw_Order :: HyperliquidWsBasicOrder
  hw_Status :: OrderStatusValue
  hw_StatusTimestamp :: int

record HyperliquidOrderState =
  hos_Identifier :: "OrderIdentifiers option"
  hos_LatestSubmission :: "HyperliquidAction option"
  hos_LatestStatus :: "HyperliquidWsOrder option"

datatype log_payload =
  EventPayload ThreeCommasBotEvent
| SubmissionPayload HyperliquidAction
| StatusPayload HyperliquidWsOrder
| ConfigPayload api_EffectiveOrderScaler string
| AuditPayload api_ScaledOrderAudit "api_EffectiveOrderScaler option" string

text \<open>
  The five log entry types, which share all fields but one. Only the first three have the id of
  the bot event.
\<close>

record OrderLogEntry =
  le_OrderId :: string
  le_ObservedAt :: time
  le_Payload :: log_payload
  le_BotEventId :: "int option"
  le_Identifiers :: "OrderIdentifiers option"
  le_Sequence :: "int option"

record OrderRecord =
  or_OrderId :: string
  or_Identifiers :: OrderIdentifiers
  or_ObservedAt :: time
  or_ThreeCommas :: ThreeCommasBotEvent
  or_Hyperliquid :: "HyperliquidOrderState option"
  or_LogEntries :: "OrderLogEntry list option"

section \<open>What marshals\<close>

fun json_number :: "f64 \<Rightarrow> bool" where
  "json_number (Fin r) = True"
| "json_number _ = False"

definition json_optional :: "f64 option \<Rightarrow> bool" where
  "json_optional x = (case x of None \<Rightarrow> True | Some f \<Rightarrow> json_number f)"

definition json_event :: "ThreeCommasBotEvent \<Rightarrow> bool" where
  "json_event e \<longleftrightarrow> json_number (tb_Price e) \<and> json_number (tb_Size e) \<and> json_number (tb_QuoteVolume e) \<and>
     json_optional (tb_Profit e) \<and> json_optional (tb_ProfitUsd e) \<and> json_optional (tb_ProfitPercentage e)"

definition json_order :: "HyperliquidCreateOrder \<Rightarrow> bool" where
  "json_order r \<longleftrightarrow> json_number (hc_Price r) \<and> json_number (hc_Size r) \<and>
     json_optional (map_option trg_TriggerPx (ht_Trigger (hc_OrderType r)))"

fun json_action :: "HyperliquidAction \<Rightarrow> bool" where
  "json_action (CreateAction r) = json_order r"
| "json_action (ModifyAction m) = json_order (hm_Order m)"
| "json_action (CancelAction c) = True"

definition json_scaler :: "api_EffectiveOrderScaler \<Rightarrow> bool" where
  "json_scaler e \<longleftrightarrow> json_number (as_Multiplier (ae_Default e)) \<and> json_number (ae_Multiplier e) \<and>
     json_optional (Option.bind (ae_Override e) ao_Multiplier)"

definition json_audit :: "api_ScaledOrderAudit \<Rightarrow> bool" where
  "json_audit a \<longleftrightarrow> json_number (aa_Multiplier a) \<and> json_number (aa_OriginalSize a) \<and>
     json_number (aa_RoundingDelta a) \<and> json_number (aa_ScaledSize a)"

fun json_payload :: "log_payload \<Rightarrow> bool" where
  "json_payload (EventPayload e) = json_event e"
| "json_payload (SubmissionPayload a) = json_action a"
| "json_payload (StatusPayload w) = True"
| "json_payload (ConfigPayload c actor) = json_scaler c"
| "json_payload (AuditPayload a c actor) = (json_audit a \<and> (case c of None \<Rightarrow> True | Some x \<Rightarrow> json_scaler x))"

section \<open>Conversions\<close>

definition makeOrderIdentifiers ::
  "OrderId \<Rightarrow> tc_BotEvent option \<Rightarrow> time \<Rightarrow> OrderIdentifier option \<Rightarrow> OrderIdentifiers" where
  "makeOrderIdentifiers oid event fallback ident =
     \<lparr>ids_Hex = Hex oid, ids_BotId = uint (BotID oid), ids_DealId = uint (DealID oid),
      ids_BotEventId = uint (BotEventID oid),
      ids_CreatedAt = (case event of
          None \<Rightarrow> fallback
        | Some e \<Rightarrow> if ev_CreatedAt e = zero_time then fallback else ev_CreatedAt e),
      ids_VenueId = (case ident of None \<Rightarrow> [] | Some i \<Rightarrow> Venue i),
      ids_Wallet = (case ident of None \<Rightarrow> [] | Some i \<Rightarrow> oi_Wallet i)\<rparr>"

definition convertThreeCommasBotEvent :: "tc_BotEvent \<Rightarrow> ThreeCommasBotEvent" where
  "convertThreeCommasBotEvent evt =
     \<lparr>tb_CreatedAt = ev_CreatedAt evt, tb_Action = ev_Action evt, tb_Coin = ev_Coin evt, tb_Type = ev_Type evt,
      tb_Status = ev_Status evt, tb_Price = ev_Price evt, tb_Size = ev_Size evt, tb_OrderType = ev_OrderType evt,
      tb_OrderSize = ev_OrderSize evt, tb_OrderPosition = ev_OrderPosition evt, tb_QuoteVolume = ev_QuoteVolume evt,
      tb_QuoteCurrency = ev_QuoteCurrency evt, tb_IsMarket = ev_IsMarket evt, tb_Text = ev_Text evt,
      tb_Profit = Some (ev_Profit evt), tb_ProfitCurrency = Some (ev_ProfitCurrency evt),
      tb_ProfitUsd = Some (ev_ProfitUSD evt), tb_ProfitPercentage = Some (ev_ProfitPercentage evt)\<rparr>"

definition convertHyperliquidOrderType :: "OrderType \<Rightarrow> HyperliquidOrderType" where
  "convertHyperliquidOrderType src = \<lparr>ht_Limit = ot_Limit src, ht_Trigger = ot_Trigger src\<rparr>"

definition convertHyperliquidCreateOrder :: "CreateOrderRequest \<Rightarrow> HyperliquidCreateOrder" where
  "convertHyperliquidCreateOrder req =
     \<lparr>hc_Coin = cr_Coin req, hc_IsBuy = cr_IsBuy req, hc_Price = cr_Price req, hc_Size = cr_Size req,
      hc_ReduceOnly = cr_ReduceOnly req, hc_OrderType = convertHyperliquidOrderType (cr_OrderType req),
      hc_Cloid = cr_ClientOrderID req\<rparr>"

definition convertHyperliquidModify :: "ModifyOrderRequest \<Rightarrow> HyperliquidModifyAction option" where
  "convertHyperliquidModify req =
     (let action = \<lparr>hm_Cloid = mo_Cloid req, hm_Oid = mo_Oid req, hm_Order = convertHyperliquidCreateOrder (mo_Order req)\<rparr>;
          action = (if hm_Oid action = None \<and> hm_Cloid action = None \<and> cr_ClientOrderID (mo_Order req) \<noteq> None
                    then action\<lparr>hm_Cloid := cr_ClientOrderID (mo_Order req)\<rparr> else action)
      in if hm_Oid action = None \<and> hm_Cloid action = None then None else Some action)"

definition convertHyperliquidCancel :: "CancelOrderRequestByCloid \<Rightarrow> HyperliquidCancelOrder" where
  "convertHyperliquidCancel req = \<lparr>hx_Coin = ca_Coin req, hx_Cloid = ca_Cloid req\<rparr>"

definition marshalled :: "HyperliquidAction \<Rightarrow> HyperliquidAction option" where
  "marshalled action = (if json_action action then Some action else None)"

definition convertHyperliquidAction :: "submission option \<Rightarrow> HyperliquidAction option" where
  "convertHyperliquidAction payload =
     (case payload of
        Some (SubCreate v) \<Rightarrow> marshalled (CreateAction (convertHyperliquidCreateOrder v))
      | Some (SubModify v) \<Rightarrow>
          (case convertHyperliquidModify v of None \<Rightarrow> None | Some modify \<Rightarrow> marshalled (ModifyAction modify))
      | Some (SubCancel v) \<Rightarrow> marshalled (CancelAction (convertHyperliquidCancel v))
      | None \<Rightarrow> None)"

definition convertHyperliquidWsOrder :: "WsOrder option \<Rightarrow> HyperliquidWsOrder option" where
  "convertHyperliquidWsOrder src =
     (case src of
        None \<Rightarrow> None
      | Some w \<Rightarrow>
          let b = ws_Order w in
          Some \<lparr>hw_Order = \<lparr>hb_Coin = wo_Coin b, hb_Side = wo_Side b, hb_LimitPx = wo_LimitPx b, hb_Size = wo_Sz b,
                  hb_Oid = wo_Oid b, hb_Timestamp = wo_Timestamp b, hb_OrigSize = wo_OrigSz b, hb_Cloid = wo_Cloid b\<rparr>,
                hw_Status = ws_Status w, hw_StatusTimestamp = ws_StatusTimestamp w\<rparr>)"

definition buildHyperliquidOrderState ::
  "OrderIdentifiers option \<Rightarrow> submission option \<Rightarrow> WsOrder option \<Rightarrow> HyperliquidOrderState option" where
  "buildHyperliquidOrderState identifiers sub status =
     (let state = \<lparr>hos_Identifier = identifiers, hos_LatestSubmission = convertHyperliquidAction sub,
            hos_LatestStatus = convertHyperliquidWsOrder status\<rparr>
      in if hos_LatestSubmission state = None \<and> hos_LatestStatus state = None then None else Some state)"

definition cloneIdentifiers :: "OrderIdentifiers option \<Rightarrow> OrderId \<Rightarrow> time \<Rightarrow> time \<Rightarrow> OrderIdentifiers" where
  "cloneIdentifiers base oid createdAt fallback =
     (let ident = (case base of None \<Rightarrow> zero_OrderIdentifiers | Some b \<Rightarrow> b);
          ident = ident\<lparr>ids_Hex := Hex oid, ids_BotId := uint (BotID oid), ids_DealId := uint (DealID oid),
                        ids_BotEventId := uint (BotEventID oid)\<rparr>
      in if createdAt \<noteq> zero_time then ident\<lparr>ids_CreatedAt := createdAt\<rparr>
         else if ids_CreatedAt ident = zero_time then ident\<lparr>ids_CreatedAt := fallback\<rparr>
         else ident)"

definition createdAt :: "tc_BotEvent option \<Rightarrow> time" where
  "createdAt evt = (case evt of None \<Rightarrow> zero_time | Some e \<Rightarrow> ev_CreatedAt e)"

section \<open>Multipliers\<close>

definition clampOrderScalerMultiplier :: "f64 \<Rightarrow> f64 \<Rightarrow> f64" where
  "clampOrderScalerMultiplier multiplier maxMultiplier =
     (if 0 < maxMultiplier \<and> maxMultiplier < multiplier then maxMultiplier else multiplier)"

definition clampEffectiveOrderScaler ::
  "api_EffectiveOrderScaler option \<Rightarrow> f64 \<Rightarrow> api_EffectiveOrderScaler option" where
  "clampEffectiveOrderScaler effective maxMultiplier =
     map_option (\<lambda>e. e\<lparr>ae_Multiplier := clampOrderScalerMultiplier (ae_Multiplier e) maxMultiplier\<rparr>) effective"

section \<open>Log entries\<close>

text \<open>The payload of an entry; \<open>None\<close> where the code logs a warning and gives the entry up.\<close>

definition log_entry_payload ::
  "ApiHandler \<Rightarrow> OrderLogEntryType \<Rightarrow> tc_BotEvent option \<Rightarrow> submission option \<Rightarrow> WsOrder option
    \<Rightarrow> api_EffectiveOrderScaler option \<Rightarrow> api_ScaledOrderAudit option \<Rightarrow> string option \<Rightarrow> log_payload option" where
  "log_entry_payload h entryType botEvent sub status config audit actor =
     (let clampedConfig = clampEffectiveOrderScaler config (ah_orderScalerMaxMultiplier h);
          actorVal = (case actor of None \<Rightarrow> [] | Some a \<Rightarrow> a)
      in case entryType of
           ThreeCommasEvent \<Rightarrow> map_option (\<lambda>e. EventPayload (convertThreeCommasBotEvent e)) botEvent
         | HyperliquidSubmissionEntry \<Rightarrow> map_option SubmissionPayload (convertHyperliquidAction sub)
         | HyperliquidStatusEntry \<Rightarrow> map_option StatusPayload (convertHyperliquidWsOrder status)
         | OrderScalerConfigEntry \<Rightarrow> map_option (\<lambda>c. ConfigPayload c actorVal) clampedConfig
         | ScaledOrderAuditEntry \<Rightarrow> map_option (\<lambda>a. AuditPayload a clampedConfig actorVal) audit)"

text \<open>The identifiers: a configuration entry takes the time of the observation.\<close>

definition log_entry_identifiers ::
  "OrderId \<Rightarrow> time \<Rightarrow> OrderLogEntryType \<Rightarrow> tc_BotEvent option \<Rightarrow> OrderIdentifier option
    \<Rightarrow> OrderIdentifiers option \<Rightarrow> OrderIdentifiers" where
  "log_entry_identifiers oid observedAt entryType botEvent logIdentifier baseIdentifiers =
     (case logIdentifier of
        Some _ \<Rightarrow> makeOrderIdentifiers oid (if entryType = OrderScalerConfigEntry then None else botEvent) observedAt logIdentifier
      | None \<Rightarrow> cloneIdentifiers baseIdentifiers oid
                  (if entryType = OrderScalerConfigEntry then observedAt else createdAt botEvent) observedAt)"

definition makeOrderLogEntry ::
  "ApiHandler \<Rightarrow> OrderId \<Rightarrow> time \<Rightarrow> OrderLogEntryType \<Rightarrow> tc_BotEvent option \<Rightarrow> submission option \<Rightarrow> WsOrder option
    \<Rightarrow> api_EffectiveOrderScaler option \<Rightarrow> api_ScaledOrderAudit option \<Rightarrow> string option \<Rightarrow> OrderIdentifier option
    \<Rightarrow> OrderIdentifiers option \<Rightarrow> int option \<Rightarrow> OrderLogEntry option" where
  "makeOrderLogEntry h oid observedAt entryType botEvent sub status config audit actor logIdentifier baseIdentifiers sequence =
     (case log_entry_payload h entryType botEvent sub status config audit actor of
        None \<Rightarrow> None
      | Some p \<Rightarrow>
          if \<not> json_payload p then None
          else Some \<lparr>le_OrderId = Hex oid, le_ObservedAt = observedAt, le_Payload = p,
            le_BotEventId = (if BotEventID oid = 0 \<or> entryType \<in> {OrderScalerConfigEntry, ScaledOrderAuditEntry}
                             then None else Some (uint (BotEventID oid))),
            le_Identifiers = Some (log_entry_identifiers oid observedAt entryType botEvent logIdentifier baseIdentifiers),
            le_Sequence = sequence\<rparr>)"

definition log_item_entry :: "ApiHandler \<Rightarrow> OrderIdentifiers \<Rightarrow> OrderLogItem \<Rightarrow> OrderLogEntry option" where
  "log_item_entry h identCopy r =
     makeOrderLogEntry h (li_OrderId r) (li_ObservedAt r) (li_Type r) (li_BotEvent r) (li_Submission r) (li_Status r)
       (li_ScalerConfig r) (li_ScaledAudit r) (li_Actor r) (li_Identifier r) (Some identCopy) None"

definition orderRecordFromItem :: "ApiHandler \<Rightarrow> OrderItem \<Rightarrow> bool \<Rightarrow> OrderRecord option" where
  "orderRecordFromItem h row includeLog =
     (case it_BotEvent row of
        None \<Rightarrow> None
      | Some event \<Rightarrow>
          let identifiers = makeOrderIdentifiers (it_OrderId row) (Some event) (it_ObservedAt row) (it_Identifier row);
              entries = (if includeLog then List.map_filter (log_item_entry h identifiers) (it_LogEntries row) else [])
          in Some \<lparr>or_OrderId = Hex (it_OrderId row), or_Identifiers = identifiers, or_ObservedAt = it_ObservedAt row,
               or_ThreeCommas = convertThreeCommasBotEvent event,
               or_Hyperliquid = buildHyperliquidOrderState (Some identifiers) (it_LatestSubmission row) (it_LatestStatus row),
               or_LogEntries = (if entries = [] then None else Some entries)\<rparr>)"

definition buildOrderRecords :: "ApiHandler \<Rightarrow> OrderItem list \<Rightarrow> bool \<Rightarrow> OrderRecord list" where
  "buildOrderRecords h rows includeLog = List.map_filter (\<lambda>row. orderRecordFromItem h row includeLog) rows"

section \<open>Stream frames\<close>

text \<open>The name and the data of the frame; an event without an entry writes nothing.\<close>

definition writeSSEFrame :: "ApiHandler \<Rightarrow> StreamEvent \<Rightarrow> (OrderLogEntryType \<times> OrderLogEntry) option" where
  "writeSSEFrame h evt =
     (let ident = makeOrderIdentifiers (se_OrderID evt) (se_BotEvent evt) (se_ObservedAt evt) (se_Identifier evt)
      in map_option (Pair (se_Type evt))
           (makeOrderLogEntry h (se_OrderID evt) (se_ObservedAt evt) (se_Type evt) (se_BotEvent evt) (se_Submission evt)
             (se_Status evt) (se_ScalerConfig evt) (se_ScaledOrderAudit evt) (se_Actor evt) (se_Identifier evt) (Some ident)
             (se_Sequence evt)))"

end
