(* ===== verification/Web_Authn.thy ===== *)
theory Web_Authn
  imports Http_Vault
begin

text \<open>
  \<^verbatim>\<open>internal/api/webauth.go\<close>: the WebAuthn ceremonies over the stored credentials, the caches of
  the ceremonies under way, and their handlers. A login issues the session that
  \<^verbatim>\<open>GetVaultPayload\<close> asks for.

  The go-webauthn library is the argument \<open>lib\<close>: a record of the functions the code calls. A
  credential, a challenge and a parsed answer are JSON values of that library.
\<close>

section \<open>State\<close>

definition defaultWebAuthnSessionTTL :: duration where
  "defaultWebAuthnSessionTTL = 300 * second"

definition sessionTokenLength :: nat where
  "sessionTokenLength = 32"

record webAuthnUser =
  wu_userID :: int
  wu_id :: "byte list"
  wu_username :: string
  wu_displayName :: string
  wu_credentials :: "json list"

record SessionData =
  sd_Expires :: time
  sd_data :: json

record sessionEntry =
  en_userID :: int
  en_data :: SessionData
  en_expiry :: time

record webauthn_lib =
  lib_BeginRegistration :: "webAuthnUser \<Rightarrow> json list \<Rightarrow> string + json \<times> SessionData"
  lib_Descriptor :: "json \<Rightarrow> json"
  lib_CreateCredential :: "webAuthnUser \<Rightarrow> SessionData \<Rightarrow> json \<Rightarrow> string + json"
  lib_BeginLogin :: "webAuthnUser \<Rightarrow> string + json \<times> SessionData"
  lib_ValidateLogin :: "webAuthnUser \<Rightarrow> SessionData \<Rightarrow> json \<Rightarrow> string + json"
  lib_CredentialID :: "json \<Rightarrow> byte list"
  lib_ParseCreation :: "json \<Rightarrow> json option"
  lib_ParseRequest :: "json \<Rightarrow> json option"

datatype webauthn_error =
  ErrWebAuthnSessionNotFound | ErrWebAuthnSessionExpired | ErrWebAuthnUserNotFound | ErrWebAuthnNoCredentials
| WebAuthnErr string

type_synonym webauthnSessionCache = "(string \<times> sessionEntry) list"

record WebAuthnService =
  was_registrationCache :: webauthnSessionCache
  was_loginCache :: webauthnSessionCache
  was_sessionTTL :: duration

definition NewWebAuthnService :: "duration \<Rightarrow> WebAuthnService" where
  "NewWebAuthnService ttl = \<lparr>was_registrationCache = [], was_loginCache = [],
     was_sessionTTL = (if ttl \<le> 0 then defaultWebAuthnSessionTTL else ttl)\<rparr>"

section \<open>The ceremonies\<close>

definition entry_expired :: "time \<Rightarrow> sessionEntry \<Rightarrow> bool" where
  "entry_expired now e = (if en_expiry e = zero_time then False else en_expiry e < now)"

definition cache_put ::
  "time \<Rightarrow> string \<Rightarrow> int \<Rightarrow> SessionData \<Rightarrow> duration \<Rightarrow> webauthnSessionCache \<Rightarrow> webauthnSessionCache" where
  "cache_put now token userID data fallbackTTL c =
     (let expiry = (if sd_Expires data = zero_time then now + fallbackTTL else sd_Expires data)
      in AList.update token \<lparr>en_userID = userID, en_data = data, en_expiry = expiry\<rparr> c)"

definition cache_pop :: "string \<Rightarrow> webauthnSessionCache \<Rightarrow> sessionEntry option \<times> webauthnSessionCache" where
  "cache_pop token c = (map_of c token, AList.delete token c)"

definition generateSessionToken :: "byte list option \<Rightarrow> string option" where
  "generateSessionToken entropy = map_option RawURLEncoding entropy"

text \<open>The id as eight bytes, the highest first.\<close>

definition userHandleFromID :: "int \<Rightarrow> byte list" where
  "userHandleFromID i = map (\<lambda>k. word_of_int (i div 256 ^ k)) (rev [0..<8])"

definition credentialDescriptors :: "webauthn_lib \<Rightarrow> json list \<Rightarrow> json list" where
  "credentialDescriptors lib creds = map (lib_Descriptor lib) creds"

fun decode_credentials :: "Credential list \<Rightarrow> webauthn_error + json list" where
  "decode_credentials [] = Inr []"
| "decode_credentials (cred # creds) =
     (case Unmarshal (cd_Credential cred) of
        Inl _ \<Rightarrow> Inl (WebAuthnErr ''decode credential'')
      | Inr decoded \<Rightarrow> map_sum id (Cons decoded) (decode_credentials creds))"

definition buildWebAuthnUser :: "User \<Rightarrow> db \<Rightarrow> webauthn_error + webAuthnUser" where
  "buildWebAuthnUser user d =
     map_sum id (\<lambda>creds. \<lparr>wu_userID = us_ID user, wu_id = userHandleFromID (us_ID user), wu_username = us_Username user,
         wu_displayName = us_Username user, wu_credentials = creds\<rparr>)
       (decode_credentials (ListWebauthnCredentialsByUser (us_ID user) d))"

definition buildWebAuthnUserByID :: "int \<Rightarrow> db \<Rightarrow> webauthn_error + webAuthnUser" where
  "buildWebAuthnUserByID userID d =
     (case GetVaultUserByID userID d of
        Inl _ \<Rightarrow> Inl (WebAuthnErr ''get vault user'')
      | Inr None \<Rightarrow> Inl ErrWebAuthnUserNotFound
      | Inr (Some user) \<Rightarrow> buildWebAuthnUser user d)"

definition BeginRegistration ::
  "webauthn_lib \<Rightarrow> byte list option \<Rightarrow> time \<Rightarrow> string \<Rightarrow> WebAuthnService \<times> Storage
    \<Rightarrow> (webauthn_error + json \<times> string) \<times> WebAuthnService \<times> Storage" where
  "BeginRegistration lib entropy now username0 st =
     (let (svc, s) = st; username = TrimSpace username0 in
      if username = [] then (Inl (WebAuthnErr ''username is required''), svc, s)
      else (case EnsureVaultUser now username s of
          (Inl _, s) \<Rightarrow> (Inl (WebAuthnErr ''ensure vault user''), svc, s)
        | (Inr user, s) \<Rightarrow>
            (case buildWebAuthnUser user (sg_db s) of
               Inl e \<Rightarrow> (Inl e, svc, s)
             | Inr weUser \<Rightarrow>
                 (case lib_BeginRegistration lib weUser (credentialDescriptors lib (wu_credentials weUser)) of
                    Inl _ \<Rightarrow> (Inl (WebAuthnErr ''begin registration''), svc, s)
                  | Inr (creation, sessionData) \<Rightarrow>
                      (case generateSessionToken entropy of
                         None \<Rightarrow> (Inl (WebAuthnErr ''generate session token''), svc, s)
                       | Some token \<Rightarrow>
                           (Inr (creation, token),
                            svc\<lparr>was_registrationCache := cache_put now token (us_ID user) sessionData (was_sessionTTL svc)
                                  (was_registrationCache svc)\<rparr>, s))))))"

definition BeginLogin ::
  "webauthn_lib \<Rightarrow> byte list option \<Rightarrow> time \<Rightarrow> string \<Rightarrow> WebAuthnService \<times> Storage
    \<Rightarrow> (webauthn_error + json \<times> string) \<times> WebAuthnService \<times> Storage" where
  "BeginLogin lib entropy now username0 st =
     (let (svc, s) = st; username = TrimSpace username0 in
      if username = [] then (Inl (WebAuthnErr ''username is required''), svc, s)
      else (case GetVaultUserByUsername username (sg_db s) of
          Inl _ \<Rightarrow> (Inl (WebAuthnErr ''get vault user''), svc, s)
        | Inr None \<Rightarrow> (Inl ErrWebAuthnUserNotFound, svc, s)
        | Inr (Some user) \<Rightarrow>
            (case buildWebAuthnUser user (sg_db s) of
               Inl e \<Rightarrow> (Inl e, svc, s)
             | Inr weUser \<Rightarrow>
                 if wu_credentials weUser = [] then (Inl ErrWebAuthnNoCredentials, svc, s)
                 else (case lib_BeginLogin lib weUser of
                     Inl _ \<Rightarrow> (Inl (WebAuthnErr ''begin login''), svc, s)
                   | Inr (assertion, sessionData) \<Rightarrow>
                       (case generateSessionToken entropy of
                          None \<Rightarrow> (Inl (WebAuthnErr ''generate session token''), svc, s)
                        | Some token \<Rightarrow>
                            (Inr (assertion, token),
                             svc\<lparr>was_loginCache := cache_put now token (wu_userID weUser) sessionData (was_sessionTTL svc)
                                   (was_loginCache svc)\<rparr>, s))))))"

text \<open>What \<^verbatim>\<open>FinishRegistration\<close> and \<^verbatim>\<open>FinishLogin\<close> do with the popped entry.\<close>

definition finish_ceremony ::
  "webauthn_lib \<Rightarrow> (webAuthnUser \<Rightarrow> SessionData \<Rightarrow> json \<Rightarrow> string + json) \<Rightarrow> time \<Rightarrow> sessionEntry option \<Rightarrow> json option
    \<Rightarrow> Storage \<Rightarrow> (webauthn_error + json) \<times> Storage" where
  "finish_ceremony lib verify now entry parsed s =
     (case entry of
        None \<Rightarrow> (Inl ErrWebAuthnSessionNotFound, s)
      | Some e \<Rightarrow>
          if entry_expired now e then (Inl ErrWebAuthnSessionExpired, s)
          else (case parsed of
              None \<Rightarrow> (Inl (WebAuthnErr ''parsed credential cannot be nil''), s)
            | Some p \<Rightarrow>
                (case buildWebAuthnUserByID (en_userID e) (sg_db s) of
                   Inl err \<Rightarrow> (Inl err, s)
                 | Inr weUser \<Rightarrow>
                     (case verify weUser (en_data e) p of
                        Inl _ \<Rightarrow> (Inl (WebAuthnErr ''finish''), s)
                      | Inr credential \<Rightarrow>
                          (case UpsertWebauthnCredential now \<lparr>ci_UserID = en_userID e,
                                  ci_CredentialID = lib_CredentialID lib credential, ci_Credential = Some (Doc credential)\<rparr> s of
                             (Some _, s) \<Rightarrow> (Inl (WebAuthnErr ''store credential''), s)
                           | (None, s) \<Rightarrow> (Inr credential, s))))))"

definition FinishRegistration ::
  "webauthn_lib \<Rightarrow> time \<Rightarrow> string \<Rightarrow> json option \<Rightarrow> WebAuthnService \<times> Storage
    \<Rightarrow> (webauthn_error + json) \<times> WebAuthnService \<times> Storage" where
  "FinishRegistration lib now token parsed st =
     (let (svc, s) = st; (entry, c) = cache_pop token (was_registrationCache svc);
          (r, s) = finish_ceremony lib (lib_CreateCredential lib) now entry parsed s
      in (r, svc\<lparr>was_registrationCache := c\<rparr>, s))"

definition FinishLogin ::
  "webauthn_lib \<Rightarrow> time \<Rightarrow> string \<Rightarrow> json option \<Rightarrow> WebAuthnService \<times> Storage
    \<Rightarrow> (webauthn_error + json) \<times> WebAuthnService \<times> Storage" where
  "FinishLogin lib now token parsed st =
     (let (svc, s) = st; (entry, c) = cache_pop token (was_loginCache svc);
          (r, s) = finish_ceremony lib (lib_ValidateLogin lib) now entry parsed s
      in (r, svc\<lparr>was_loginCache := c\<rparr>, s))"

section \<open>Handlers\<close>

text \<open>The options of a ceremony are a struct; its JSON is an object.\<close>

definition marshalToMap :: "json \<Rightarrow> (string \<times> json) list option" where
  "marshalToMap v = (case v of JObject m \<Rightarrow> Some m | JNull \<Rightarrow> Some [] | _ \<Rightarrow> None)"

definition begin_response ::
  "(webauthn_error \<Rightarrow> int) \<Rightarrow> webauthn_error + json \<times> string \<Rightarrow> (string \<times> (string \<times> json) list) response" where
  "begin_response code r =
     (case r of
        Inl e \<Rightarrow> (code e, None)
      | Inr (options, token) \<Rightarrow>
          (case marshalToMap options of None \<Rightarrow> (500, None) | Some m \<Rightarrow> (200, Some (token, m))))"

definition BeginWebauthnRegistration ::
  "webauthn_lib \<Rightarrow> byte list option \<Rightarrow> time \<Rightarrow> string option \<Rightarrow> WebAuthnService option \<Rightarrow> ApiHandler
    \<Rightarrow> (string \<times> (string \<times> json) list) response \<times> WebAuthnService option \<times> ApiHandler" where
  "BeginWebauthnRegistration lib entropy now body w h =
     (case w of
        None \<Rightarrow> ((500, None), w, h)
      | Some svc \<Rightarrow>
          (case body of
             None \<Rightarrow> ((400, None), w, h)
           | Some name \<Rightarrow>
               if TrimSpace name = [] then ((400, None), w, h)
               else (case BeginRegistration lib entropy now (TrimSpace name) (svc, ah_store h) of
                   (r, svc, s) \<Rightarrow> (begin_response (\<lambda>_. 500) r, Some svc, h\<lparr>ah_store := s\<rparr>))))"

definition BeginWebauthnLogin ::
  "webauthn_lib \<Rightarrow> byte list option \<Rightarrow> time \<Rightarrow> string option \<Rightarrow> WebAuthnService option \<Rightarrow> ApiHandler
    \<Rightarrow> (string \<times> (string \<times> json) list) response \<times> WebAuthnService option \<times> ApiHandler" where
  "BeginWebauthnLogin lib entropy now body w h =
     (case w of
        None \<Rightarrow> ((500, None), w, h)
      | Some svc \<Rightarrow>
          (case body of
             None \<Rightarrow> ((400, None), w, h)
           | Some name \<Rightarrow>
               if TrimSpace name = [] then ((400, None), w, h)
               else (case BeginLogin lib entropy now (TrimSpace name) (svc, ah_store h) of
                   (r, svc, s) \<Rightarrow>
                     (begin_response (\<lambda>e. if e = ErrWebAuthnUserNotFound \<or> e = ErrWebAuthnNoCredentials then 404 else 500) r,
                      Some svc, h\<lparr>ah_store := s\<rparr>))))"

text \<open>A body is the token and the client's response, a JSON object.\<close>

definition finish_code :: "webauthn_error \<Rightarrow> int" where
  "finish_code e = (if e = ErrWebAuthnSessionNotFound \<or> e = ErrWebAuthnSessionExpired then 404 else 500)"

definition FinishWebauthnRegistration ::
  "webauthn_lib \<Rightarrow> time \<Rightarrow> (string \<times> (string \<times> json) list) option \<Rightarrow> WebAuthnService option \<Rightarrow> ApiHandler
    \<Rightarrow> unit response \<times> WebAuthnService option \<times> ApiHandler" where
  "FinishWebauthnRegistration lib now body w h =
     (case w of
        None \<Rightarrow> ((500, None), w, h)
      | Some svc \<Rightarrow>
          (case body of
             None \<Rightarrow> ((400, None), w, h)
           | Some (token0, clientResponse) \<Rightarrow>
               let token = TrimSpace token0 in
               if token = [] \<or> clientResponse = [] then ((400, None), w, h)
               else (case lib_ParseCreation lib (JObject clientResponse) of
                   None \<Rightarrow> ((400, None), w, h)
                 | Some parsed \<Rightarrow>
                     (case FinishRegistration lib now token (Some parsed) (svc, ah_store h) of
                        (Inl e, svc, s) \<Rightarrow> ((finish_code e, None), Some svc, h\<lparr>ah_store := s\<rparr>)
                      | (Inr _, svc, s) \<Rightarrow> ((200, Some ()), Some svc, h\<lparr>ah_store := s\<rparr>)))))"

text \<open>The body of a successful login is the value of the cookie, empty when none was issued.\<close>

definition FinishWebauthnLogin ::
  "webauthn_lib \<Rightarrow> byte list option \<Rightarrow> time \<Rightarrow> (string \<times> (string \<times> json) list) option \<Rightarrow> WebAuthnService option
    \<Rightarrow> ApiHandler \<Rightarrow> string response \<times> WebAuthnService option \<times> ApiHandler" where
  "FinishWebauthnLogin lib entropy now body w h =
     (case w of
        None \<Rightarrow> ((500, None), w, h)
      | Some svc \<Rightarrow>
          (case body of
             None \<Rightarrow> ((400, None), w, h)
           | Some (token0, clientResponse) \<Rightarrow>
               let token = TrimSpace token0 in
               if token = [] \<or> clientResponse = [] then ((400, None), w, h)
               else (case lib_ParseRequest lib (JObject clientResponse) of
                   None \<Rightarrow> ((400, None), w, h)
                 | Some parsed \<Rightarrow>
                     (case FinishLogin lib now token (Some parsed) (svc, ah_store h) of
                        (Inl e, svc, s) \<Rightarrow> ((finish_code e, None), Some svc, h\<lparr>ah_store := s\<rparr>)
                      | (Inr _, svc, s) \<Rightarrow>
                          let h = h\<lparr>ah_store := s\<rparr> in
                          (case ah_session h of
                             None \<Rightarrow> ((200, Some []), Some svc, h)
                           | Some m \<Rightarrow>
                               (case Issue entropy (now + defaultVaultSessionTTL) m of
                                  (None, m) \<Rightarrow> ((200, Some []), Some svc, h\<lparr>ah_session := Some m\<rparr>)
                                | (Some tok, m) \<Rightarrow> ((200, Some tok), Some svc, h\<lparr>ah_session := Some m\<rparr>)))))))"

end
