(* ===== verification/System_Stream.thy ===== *)
theory System_Stream
  imports Event_Stream
begin

text \<open>
  \<^verbatim>\<open>internal/api/system_stream.go\<close>: the fan-out of system events, with the history that late
  subscribers are given, and \<^verbatim>\<open>internal/api/system_status.go\<close>.

  Unlike the order stream, the events are sent outside the lock of the controller; each subscriber
  has its own lock and a closed flag instead. The step relation interleaves publishers, the
  goroutines that send the history, cancellations and readers at the granularity of these locks.
  \<^verbatim>\<open>time.Now()\<close> is an argument.
\<close>

section \<open>State\<close>

type_synonym SystemEventLevel = string

definition SystemEventDebug :: SystemEventLevel where
  "SystemEventDebug = ''debug''"

definition SystemEventInfo :: SystemEventLevel where
  "SystemEventInfo = ''info''"

definition SystemEventWarn :: SystemEventLevel where
  "SystemEventWarn = ''warn''"

definition SystemEventError :: SystemEventLevel where
  "SystemEventError = ''error''"

lemmas system_levels = SystemEventDebug_def SystemEventInfo_def SystemEventWarn_def SystemEventError_def

record SystemEvent =
  sv_Level :: SystemEventLevel
  sv_Timestamp :: time
  sv_Source :: string
  sv_Message :: string
  sv_Details :: "(string \<times> json) list option"

definition defaultSystemStreamBuffer :: nat where
  "defaultSystemStreamBuffer = 100"

definition defaultSystemEventHistory :: nat where
  "defaultSystemEventHistory = 50"

definition defaultSystemEventMaxAge :: duration where
  "defaultSystemEventMaxAge = 300 * second"

record systemSubscriber =
  ysub_ch :: "SystemEvent chan"
  ysub_closed :: bool

text \<open>The subscriber objects outlive their entry in the map, so both are kept.\<close>

record SystemStreamController =
  yc_subscribers :: "int list"
  yc_subs :: "int \<Rightarrow> systemSubscriber option"
  yc_nextSubID :: int
  yc_sequence :: int
  yc_bufferSize :: nat
  yc_minLevel :: SystemEventLevel
  yc_eventHistory :: "SystemEvent list"
  yc_maxHistorySize :: nat
  yc_maxHistoryAge :: duration
  yc_panicked :: bool

definition NewSystemStreamController :: "SystemEventLevel \<Rightarrow> SystemStreamController" where
  "NewSystemStreamController minLevel =
     \<lparr>yc_subscribers = [], yc_subs = Map.empty, yc_nextSubID = 0, yc_sequence = 0,
      yc_bufferSize = defaultSystemStreamBuffer, yc_minLevel = minLevel, yc_eventHistory = [],
      yc_maxHistorySize = defaultSystemEventHistory, yc_maxHistoryAge = defaultSystemEventMaxAge, yc_panicked = False\<rparr>"

section \<open>Operations\<close>

text \<open>Sent, closed, and the state after.\<close>

definition trySend :: "int \<Rightarrow> SystemEvent \<Rightarrow> SystemStreamController \<Rightarrow> bool \<times> bool \<times> SystemStreamController" where
  "trySend i evt c =
     (case yc_subs c i of
        None \<Rightarrow> (False, False, c\<lparr>yc_panicked := True\<rparr>)
      | Some sub \<Rightarrow>
          if ysub_closed sub then (False, True, c)
          else (case select_send evt (ysub_ch sub) of
              None \<Rightarrow> (False, False, c\<lparr>yc_panicked := True\<rparr>)
            | Some (ch, sent) \<Rightarrow> (sent, False, c\<lparr>yc_subs := (yc_subs c)(i \<mapsto> sub\<lparr>ysub_ch := ch\<rparr>)\<rparr>)))"

definition subscriber_close :: "int \<Rightarrow> SystemStreamController \<Rightarrow> SystemStreamController" where
  "subscriber_close i c =
     (case yc_subs c i of
        None \<Rightarrow> c\<lparr>yc_panicked := True\<rparr>
      | Some sub \<Rightarrow>
          if ysub_closed sub then c
          else (case close_chan (ysub_ch sub) of
              None \<Rightarrow> c\<lparr>yc_panicked := True\<rparr>
            | Some ch \<Rightarrow> c\<lparr>yc_subs := (yc_subs c)(i \<mapsto> sub\<lparr>ysub_ch := ch, ysub_closed := True\<rparr>)\<rparr>))"

definition getRecentHistory :: "time \<Rightarrow> SystemStreamController \<Rightarrow> SystemEvent list" where
  "getRecentHistory now c = filter (\<lambda>evt. now - yc_maxHistoryAge c < sv_Timestamp evt) (yc_eventHistory c)"

text \<open>\<^verbatim>\<open>Subscribe\<close>: the subscriber is registered and the history is read under the lock.\<close>

definition system_Subscribe :: "time \<Rightarrow> SystemStreamController \<Rightarrow> int \<times> SystemEvent list \<times> SystemStreamController" where
  "system_Subscribe now c =
     (let i = yc_nextSubID c + 1;
          c = c\<lparr>yc_nextSubID := i,
                yc_subs := (yc_subs c)(i \<mapsto> \<lparr>ysub_ch = make_chan (yc_bufferSize c), ysub_closed = False\<rparr>),
                yc_subscribers := yc_subscribers c @ [i]\<rparr>
      in (i, getRecentHistory now c, c))"

definition addToHistory :: "time \<Rightarrow> SystemEvent \<Rightarrow> SystemStreamController \<Rightarrow> SystemStreamController" where
  "addToHistory now evt c =
     (let h = yc_eventHistory c @ [evt];
          h = (if yc_maxHistorySize c < length h then drop (length h - yc_maxHistorySize c) h else h);
          cutoff = now - yc_maxHistoryAge c
      in c\<lparr>yc_eventHistory :=
           (if list_ex (\<lambda>e. cutoff < sv_Timestamp e) h then dropWhile (\<lambda>e. \<not> cutoff < sv_Timestamp e) h else h)\<rparr>)"

text \<open>A level that is not in the map has rank 0.\<close>

definition levelRank :: "SystemEventLevel \<Rightarrow> int" where
  "levelRank l =
     (if l = SystemEventInfo then 1 else if l = SystemEventWarn then 2 else if l = SystemEventError then 3 else 0)"

definition shouldPublish :: "SystemEventLevel \<Rightarrow> SystemStreamController \<Rightarrow> bool" where
  "shouldPublish level c = (levelRank (yc_minLevel c) \<le> levelRank level)"

text \<open>
  \<^verbatim>\<open>Publish\<close>: the part under the lock gives the subscribers to send to, none if the event is
  below the minimal level.
\<close>

definition system_Publish_lock ::
  "time \<Rightarrow> SystemEvent \<Rightarrow> SystemStreamController \<Rightarrow> int list \<times> SystemStreamController" where
  "system_Publish_lock now evt c =
     (if \<not> shouldPublish (sv_Level evt) c then ([], c)
      else (yc_subscribers c, addToHistory now evt (c\<lparr>yc_sequence := yc_sequence c + 1\<rparr>)))"

definition system_Publish :: "time \<Rightarrow> SystemEvent \<Rightarrow> SystemStreamController \<Rightarrow> SystemStreamController" where
  "system_Publish now evt c =
     (let (subs, c) = system_Publish_lock now evt c in fold (\<lambda>i c. snd (snd (trySend i evt c))) subs c)"

text \<open>\<^verbatim>\<open>awaitCancellation\<close>: the first part removes the subscriber, the second closes it.\<close>

definition cancel_remove :: "int \<Rightarrow> SystemStreamController \<Rightarrow> bool \<times> SystemStreamController" where
  "cancel_remove i c =
     (if i \<in> set (yc_subscribers c) then (True, c\<lparr>yc_subscribers := remove1 i (yc_subscribers c)\<rparr>) else (False, c))"

definition system_Flush :: "SystemStreamController \<Rightarrow> SystemStreamController" where
  "system_Flush c = (fold subscriber_close (yc_subscribers c) c)\<lparr>yc_subscribers := []\<rparr>"

section \<open>Interleavings\<close>

text \<open>
  Publishers and history goroutines with what they still have to send, the subscribers to be closed,
  and the record of what was published since the start with the latest clock reading.
\<close>

record system_system =
  yctrl :: SystemStreamController
  publishing :: "(SystemEvent \<times> int list) list"
  replaying :: "(int \<times> SystemEvent list) list"
  closing :: "int list"
  published :: "SystemEvent list"
  clock :: time

inductive system_step :: "system_system \<Rightarrow> system_system \<Rightarrow> bool" where
  subscribe: "clock s \<le> now \<Longrightarrow> system_Subscribe now (yctrl s) = (i, hist, c) \<Longrightarrow>
    system_step s (s\<lparr>yctrl := c, replaying := replaying s @ [(i, hist)], clock := now\<rparr>)"
| replay: "replaying s = as @ (i, evt # hist) # bs \<Longrightarrow> trySend i evt (yctrl s) = (sent, gone, c) \<Longrightarrow>
    system_step s (s\<lparr>yctrl := c, replaying := as @ (if gone then [] else [(i, hist)]) @ bs\<rparr>)"
| replay_stop: "replaying s = as @ (i, hist) # bs \<Longrightarrow> system_step s (s\<lparr>replaying := as @ bs\<rparr>)"
| publish: "clock s \<le> now \<Longrightarrow> system_Publish_lock now evt (yctrl s) = (subs, c) \<Longrightarrow> mset is = mset subs \<Longrightarrow>
    system_step s (s\<lparr>yctrl := c, publishing := publishing s @ [(evt, is)],
      published := published s @ (if shouldPublish (sv_Level evt) (yctrl s) then [evt] else []), clock := now\<rparr>)"
| fan_out: "publishing s = as @ (evt, i # is) # bs \<Longrightarrow>
    system_step s (s\<lparr>yctrl := snd (snd (trySend i evt (yctrl s))), publishing := as @ (evt, is) # bs\<rparr>)"
| remove: "cancel_remove i (yctrl s) = (b, c) \<Longrightarrow>
    system_step s (s\<lparr>yctrl := c, closing := (if b then i # closing s else closing s)\<rparr>)"
| close: "i \<in> set (closing s) \<Longrightarrow>
    system_step s (s\<lparr>yctrl := subscriber_close i (yctrl s), closing := remove1 i (closing s)\<rparr>)"
| flush: "system_step s (s\<lparr>yctrl := system_Flush (yctrl s)\<rparr>)"
| recv: "yc_subs (yctrl s) i = Some sub \<Longrightarrow>
    system_step s (s\<lparr>yctrl := (yctrl s)\<lparr>yc_subs := (yc_subs (yctrl s))(i \<mapsto> sub\<lparr>ysub_ch := receive (ysub_ch sub)\<rparr>)\<rparr>\<rparr>)"

inductive_cases system_stepE: "system_step s t"

definition system_init :: "system_system \<Rightarrow> bool" where
  "system_init s \<longleftrightarrow> (\<exists>l. yctrl s = NewSystemStreamController l) \<and> publishing s = [] \<and> replaying s = [] \<and>
     closing s = [] \<and> published s = []"

section \<open>The invariant\<close>

definition sub_ok :: "SystemStreamController \<Rightarrow> systemSubscriber \<Rightarrow> bool" where
  "sub_ok c sub \<longleftrightarrow> ch_closed (ysub_ch sub) = ysub_closed sub \<and> ch_cap (ysub_ch sub) = yc_bufferSize c \<and>
     length (ch_buf (ysub_ch sub)) \<le> yc_bufferSize c"

definition yctrl_ok :: "SystemStreamController \<Rightarrow> bool" where
  "yctrl_ok c \<longleftrightarrow> \<not> yc_panicked c \<and> (\<forall>i sub. yc_subs c i = Some sub \<longrightarrow> sub_ok c sub) \<and>
     set (yc_subscribers c) \<subseteq> dom (yc_subs c)"

definition system_inv :: "system_system \<Rightarrow> bool" where
  "system_inv s \<longleftrightarrow> yctrl_ok (yctrl s) \<and> (\<forall>(evt, is) \<in> set (publishing s). set is \<subseteq> dom (yc_subs (yctrl s))) \<and>
     (\<forall>(i, hist) \<in> set (replaying s). i \<in> dom (yc_subs (yctrl s))) \<and> set (closing s) \<subseteq> dom (yc_subs (yctrl s))"

lemma yctrl_ok_update:
  "yctrl_ok c \<Longrightarrow> i \<in> dom (yc_subs c) \<Longrightarrow> sub_ok c sub \<Longrightarrow> yctrl_ok (c\<lparr>yc_subs := (yc_subs c)(i \<mapsto> sub)\<rparr>)"
  by (auto simp: yctrl_ok_def sub_ok_def)

lemma dom_update_same: "i \<in> dom m \<Longrightarrow> dom (m(i \<mapsto> v)) = dom m"
  by auto

text \<open>On a known subscriber neither a send nor a close panics, and the set of subscribers stays.\<close>

lemma trySend_ok:
  assumes "yctrl_ok c" and "i \<in> dom (yc_subs c)" and "trySend i evt c = (sent, gone, c')"
  shows "yctrl_ok c'" and "dom (yc_subs c') = dom (yc_subs c)"
proof -
  obtain sub where sub: "yc_subs c i = Some sub" using assms(2) by blast
  then have ok: "sub_ok c sub" using assms(1) by (simp add: yctrl_ok_def)
  show "yctrl_ok c'" "dom (yc_subs c') = dom (yc_subs c)"
    using assms sub ok yctrl_ok_update [OF assms(1,2)]
    by (auto simp: trySend_def select_send_def sub_ok_def dom_update_same split: if_splits)
qed

lemma subscriber_close_ok:
  assumes "yctrl_ok c" and "i \<in> dom (yc_subs c)"
  shows "yctrl_ok (subscriber_close i c)" and "dom (yc_subs (subscriber_close i c)) = dom (yc_subs c)"
proof -
  obtain sub where sub: "yc_subs c i = Some sub" using assms(2) by blast
  then have ok: "sub_ok c sub" using assms(1) by (simp add: yctrl_ok_def)
  show "yctrl_ok (subscriber_close i c)" "dom (yc_subs (subscriber_close i c)) = dom (yc_subs c)"
    using assms sub ok yctrl_ok_update [OF assms]
    by (auto simp: subscriber_close_def close_chan_def sub_ok_def dom_update_same)
qed

lemma close_all_ok:
  "yctrl_ok c \<Longrightarrow> set is \<subseteq> dom (yc_subs c) \<Longrightarrow>
     yctrl_ok (fold subscriber_close is c) \<and> dom (yc_subs (fold subscriber_close is c)) = dom (yc_subs c)"
  by (induction "is" arbitrary: c) (auto simp: subscriber_close_ok)

lemma history_other [simp]:
  "yctrl_ok (c\<lparr>yc_eventHistory := h\<rparr>) = yctrl_ok c" "yctrl_ok (c\<lparr>yc_sequence := n\<rparr>) = yctrl_ok c"
  by (simp_all add: yctrl_ok_def sub_ok_def)

lemma Publish_lock_ok:
  assumes "system_Publish_lock now evt c = (subs, c')"
  shows "yctrl_ok c' = yctrl_ok c" and "yc_subs c' = yc_subs c" and "yctrl_ok c \<Longrightarrow> set subs \<subseteq> dom (yc_subs c)"
  using assms by (auto simp: system_Publish_lock_def addToHistory_def Let_def yctrl_ok_def sub_ok_def split: if_splits)

lemma Subscribe_ok:
  assumes "yctrl_ok c" and "system_Subscribe now c = (i, hist, c')"
  shows "yctrl_ok c'" and "dom (yc_subs c') = insert i (dom (yc_subs c))"
proof -
  have c': "c' = c\<lparr>yc_nextSubID := i, yc_subs := (yc_subs c)(i \<mapsto> \<lparr>ysub_ch = make_chan (yc_bufferSize c), ysub_closed = False\<rparr>),
      yc_subscribers := yc_subscribers c @ [i]\<rparr>"
    using assms(2) by (auto simp: system_Subscribe_def Let_def)
  show "yctrl_ok c'" "dom (yc_subs c') = insert i (dom (yc_subs c))"
    using assms(1) by (auto simp: c' yctrl_ok_def sub_ok_def make_chan_def)
qed

lemma cancel_remove_ok:
  assumes "yctrl_ok c" and "cancel_remove i c = (b, c')"
  shows "yctrl_ok c'" and "yc_subs c' = yc_subs c" and "b \<Longrightarrow> i \<in> dom (yc_subs c)"
proof -
  have "set (remove1 i (yc_subscribers c)) \<subseteq> dom (yc_subs c)"
    using assms(1) set_remove1_subset unfolding yctrl_ok_def by (metis order_trans)
  with assms show "yctrl_ok c'" "yc_subs c' = yc_subs c" "b \<Longrightarrow> i \<in> dom (yc_subs c)"
    by (auto simp: cancel_remove_def yctrl_ok_def sub_ok_def split: if_splits)
qed

lemma system_Flush_ok:
  assumes "yctrl_ok c"
  shows "yctrl_ok (system_Flush c)" and "dom (yc_subs (system_Flush c)) = dom (yc_subs c)"
  using close_all_ok [OF assms, of "yc_subscribers c"] assms
  by (simp_all add: system_Flush_def yctrl_ok_def sub_ok_def)

lemma system_inv_step: "system_inv s \<Longrightarrow> system_step s t \<Longrightarrow> system_inv t"
proof (erule system_stepE)
  assume inv: "system_inv s"
  then have ok: "yctrl_ok (yctrl s)" by (simp add: system_inv_def)
  {
    fix now i hist c assume sb: "system_Subscribe now (yctrl s) = (i, hist, c)"
      and t: "t = s\<lparr>yctrl := c, replaying := replaying s @ [(i, hist)], clock := now\<rparr>"
    from Subscribe_ok [OF ok sb] inv show "system_inv t" by (auto simp: system_inv_def t)
  next
    fix as i evt hist bs sent gone c assume r: "replaying s = as @ (i, evt # hist) # bs" and sd: "trySend i evt (yctrl s) = (sent, gone, c)"
      and t: "t = s\<lparr>yctrl := c, replaying := as @ (if gone then [] else [(i, hist)]) @ bs\<rparr>"
    have "i \<in> dom (yc_subs (yctrl s))" using inv by (auto simp: system_inv_def r)
    from trySend_ok [OF ok this sd] inv show "system_inv t" by (auto simp: system_inv_def t r)
  next
    fix as i hist bs assume "replaying s = as @ (i, hist) # bs" "t = s\<lparr>replaying := as @ bs\<rparr>"
    then show "system_inv t" using inv by (auto simp: system_inv_def)
  next
    fix now evt subs c "is" assume l: "system_Publish_lock now evt (yctrl s) = (subs, c)" and perm: "mset is = mset subs"
      and t: "t = s\<lparr>yctrl := c, publishing := publishing s @ [(evt, is)],
        published := published s @ (if shouldPublish (sv_Level evt) (yctrl s) then [evt] else []), clock := now\<rparr>"
    have "set is = set subs" using perm by (rule mset_eq_setD)
    with Publish_lock_ok [OF l] inv show "system_inv t" by (auto simp: system_inv_def t)
  next
    fix as evt i "is" bs assume p: "publishing s = as @ (evt, i # is) # bs"
      and t: "t = s\<lparr>yctrl := snd (snd (trySend i evt (yctrl s))), publishing := as @ (evt, is) # bs\<rparr>"
    obtain sent gone c where sd: "trySend i evt (yctrl s) = (sent, gone, c)" by (metis prod_cases3)
    have "i \<in> dom (yc_subs (yctrl s))" using inv by (auto simp: system_inv_def p)
    from trySend_ok [OF ok this sd] inv show "system_inv t" by (auto simp: system_inv_def t p sd)
  next
    fix i b c assume r: "cancel_remove i (yctrl s) = (b, c)"
      and t: "t = s\<lparr>yctrl := c, closing := if b then i # closing s else closing s\<rparr>"
    from cancel_remove_ok [OF ok r] inv show "system_inv t" by (simp add: system_inv_def t)
  next
    fix i assume i: "i \<in> set (closing s)" and t: "t = s\<lparr>yctrl := subscriber_close i (yctrl s), closing := remove1 i (closing s)\<rparr>"
    have "i \<in> dom (yc_subs (yctrl s))" using i inv by (auto simp: system_inv_def)
    from subscriber_close_ok [OF ok this] inv show "system_inv t"
      using set_remove1_subset [of i "closing s"] by (auto simp: system_inv_def t)
  next
    assume t: "t = s\<lparr>yctrl := system_Flush (yctrl s)\<rparr>"
    from system_Flush_ok [OF ok] inv show "system_inv t" by (simp add: system_inv_def t)
  next
    fix i sub assume sub: "yc_subs (yctrl s) i = Some sub"
      and t: "t = s\<lparr>yctrl := (yctrl s)\<lparr>yc_subs := (yc_subs (yctrl s))(i \<mapsto> sub\<lparr>ysub_ch := receive (ysub_ch sub)\<rparr>)\<rparr>\<rparr>"
    have "sub_ok (yctrl s) sub" using ok sub by (simp add: yctrl_ok_def)
    then have "sub_ok (yctrl s) (sub\<lparr>ysub_ch := receive (ysub_ch sub)\<rparr>)"
      using le_trans [OF receive_simps(3) [of "ysub_ch sub"]] by (simp add: sub_ok_def)
    then show "system_inv t"
      using inv yctrl_ok_update [OF ok, of i] sub by (auto simp: system_inv_def t dom_update_same)
  }
qed

interpretation system_sys: invariant_system system_init system_step system_inv
proof
  show "system_init s \<Longrightarrow> system_inv s" for s
    by (auto simp: system_init_def system_inv_def yctrl_ok_def NewSystemStreamController_def)
qed (rule system_inv_step)

section \<open>The history\<close>

definition last_n :: "nat \<Rightarrow> 'a list \<Rightarrow> 'a list" where
  "last_n n xs = drop (length xs - n) xs"

text \<open>
  What the history leaves out of the latest publications is too old for a late subscriber.
\<close>

definition history_ok :: "nat \<Rightarrow> time \<Rightarrow> SystemEvent list \<Rightarrow> SystemEvent list \<Rightarrow> bool" where
  "history_ok n cutoff pub hist \<longleftrightarrow> length hist \<le> n \<and>
     (\<exists>old. pub = old @ hist \<and> (\<forall>e \<in> set (drop (length pub - n) old). sv_Timestamp e \<le> cutoff))"

lemma history_ok_mono: "history_ok n cutoff pub hist \<Longrightarrow> cutoff \<le> cutoff' \<Longrightarrow> history_ok n cutoff' pub hist"
  by (force simp: history_ok_def)

lemma history_ok_recent:
  assumes "history_ok n cutoff pub hist"
  shows "filter (\<lambda>e. cutoff < sv_Timestamp e) hist = filter (\<lambda>e. cutoff < sv_Timestamp e) (last_n n pub)"
proof -
  obtain old where old: "pub = old @ hist" "\<forall>e \<in> set (drop (length pub - n) old). sv_Timestamp e \<le> cutoff" and len: "length hist \<le> n"
    using assms by (auto simp: history_ok_def)
  have "filter (\<lambda>e. cutoff < sv_Timestamp e) (drop (length pub - n) old) = []"
    using old(2) by (auto simp: filter_empty_conv)
  moreover have "last_n n pub = drop (length pub - n) old @ hist"
    using len by (simp add: last_n_def old(1))
  ultimately show ?thesis by simp
qed

lemma history_ok_size:
  assumes "history_ok n cutoff pub hist"
  shows "history_ok n cutoff (pub @ [evt]) (if n < length (hist @ [evt]) then drop (length (hist @ [evt]) - n) (hist @ [evt]) else hist @ [evt])"
proof -
  obtain old where old: "pub = old @ hist" "\<forall>e \<in> set (drop (length pub - n) old). sv_Timestamp e \<le> cutoff" and len: "length hist \<le> n"
    using assms by (auto simp: history_ok_def)
  show ?thesis
  proof (cases "length hist = n")
    case True
    then have "pub @ [evt] = (old @ take 1 (hist @ [evt])) @ drop 1 (hist @ [evt])"
      by (simp only: append_assoc append_take_drop_id old(1))
    moreover have "drop (length (pub @ [evt]) - n) (old @ take 1 (hist @ [evt])) = []" using True by (simp add: old(1))
    ultimately show ?thesis using True by (simp add: history_ok_def)
  next
    case False
    have "set (drop (Suc (length pub) - n) old) \<subseteq> set (drop (length pub - n) old)"
      by (rule set_drop_subset_set_drop) simp
    with False old len show ?thesis by (auto simp: history_ok_def)
  qed
qed

lemma history_ok_age:
  assumes "history_ok n cutoff pub hist"
  shows "history_ok n cutoff pub (dropWhile (\<lambda>e. \<not> cutoff < sv_Timestamp e) hist)"
proof -
  let ?old = "\<lambda>e. \<not> cutoff < sv_Timestamp e"
  obtain old where old: "pub = old @ hist" "\<forall>e \<in> set (drop (length pub - n) old). sv_Timestamp e \<le> cutoff" and len: "length hist \<le> n"
    using assms by (auto simp: history_ok_def)
  have "pub = (old @ takeWhile ?old hist) @ dropWhile ?old hist" by (simp add: old(1))
  moreover have "\<forall>e \<in> set (drop (length pub - n) (old @ takeWhile ?old hist)). sv_Timestamp e \<le> cutoff"
  proof
    fix e assume "e \<in> set (drop (length pub - n) (old @ takeWhile ?old hist))"
    then have "e \<in> set (drop (length pub - n) old) \<or> e \<in> set (takeWhile ?old hist)"
      by (auto dest: in_set_dropD)
    with old(2) show "sv_Timestamp e \<le> cutoff" by (auto dest: set_takeWhileD)
  qed
  moreover have "length (dropWhile ?old hist) \<le> n" using len length_dropWhile_le le_trans by blast
  ultimately show ?thesis unfolding history_ok_def by blast
qed

definition history_inv :: "system_system \<Rightarrow> bool" where
  "history_inv s \<longleftrightarrow> yc_maxHistorySize (yctrl s) = defaultSystemEventHistory \<and>
     yc_maxHistoryAge (yctrl s) = defaultSystemEventMaxAge \<and>
     history_ok defaultSystemEventHistory (clock s - defaultSystemEventMaxAge) (published s) (yc_eventHistory (yctrl s))"

lemma history_inv_at:
  assumes "history_inv s" and "clock s \<le> now"
  shows "history_ok defaultSystemEventHistory (now - defaultSystemEventMaxAge) (published s) (yc_eventHistory (yctrl s))"
  using assms by (auto simp: history_inv_def intro: history_ok_mono [where cutoff = "clock s - defaultSystemEventMaxAge"])

lemma history_same:
  "yc_eventHistory (snd (snd (trySend i evt c))) = yc_eventHistory c \<and> yc_maxHistorySize (snd (snd (trySend i evt c))) = yc_maxHistorySize c \<and>
   yc_maxHistoryAge (snd (snd (trySend i evt c))) = yc_maxHistoryAge c"
  "yc_eventHistory (subscriber_close i c) = yc_eventHistory c \<and> yc_maxHistorySize (subscriber_close i c) = yc_maxHistorySize c \<and>
   yc_maxHistoryAge (subscriber_close i c) = yc_maxHistoryAge c"
  by (simp_all add: trySend_def subscriber_close_def split: option.split prod.split)

lemma history_same_all:
  "yc_eventHistory (fold subscriber_close is c) = yc_eventHistory c \<and>
   yc_maxHistorySize (fold subscriber_close is c) = yc_maxHistorySize c \<and> yc_maxHistoryAge (fold subscriber_close is c) = yc_maxHistoryAge c"
  by (induction "is" arbitrary: c) (simp_all add: history_same)

lemma addToHistory_ok:
  assumes "history_ok (yc_maxHistorySize c) (now - yc_maxHistoryAge c) pub (yc_eventHistory c)"
  shows "history_ok (yc_maxHistorySize c) (now - yc_maxHistoryAge c) (pub @ [evt]) (yc_eventHistory (addToHistory now evt c))"
  using history_ok_size [OF assms, of evt] history_ok_age [OF history_ok_size [OF assms, of evt]]
  by (simp add: addToHistory_def Let_def del: length_append)

lemma history_inv_step: "history_inv s \<Longrightarrow> system_step s t \<Longrightarrow> history_inv t"
proof (erule system_stepE)
  assume inv: "history_inv s"
  {
    fix now i hist c assume le: "clock s \<le> now" and "system_Subscribe now (yctrl s) = (i, hist, c)"
      "t = s\<lparr>yctrl := c, replaying := replaying s @ [(i, hist)], clock := now\<rparr>"
    then show "history_inv t" using inv history_inv_at [OF inv le]
      by (auto simp: history_inv_def system_Subscribe_def Let_def)
  next
    fix as i evt hist bs sent gone c assume "trySend i evt (yctrl s) = (sent, gone, c)"
      "t = s\<lparr>yctrl := c, replaying := as @ (if gone then [] else [(i, hist)]) @ bs\<rparr>"
    then show "history_inv t" using inv history_same(1) [of i evt "yctrl s"] by (simp add: history_inv_def)
  next
    fix now evt subs c "is" assume le: "clock s \<le> now" and l: "system_Publish_lock now evt (yctrl s) = (subs, c)"
      and t: "t = s\<lparr>yctrl := c, publishing := publishing s @ [(evt, is)],
        published := published s @ (if shouldPublish (sv_Level evt) (yctrl s) then [evt] else []), clock := now\<rparr>"
    show "history_inv t"
      using inv history_inv_at [OF inv le] l addToHistory_ok [of "(yctrl s)\<lparr>yc_sequence := yc_sequence (yctrl s) + 1\<rparr>" now "published s" evt]
      by (auto simp: history_inv_def t system_Publish_lock_def addToHistory_def Let_def split: if_splits)
  next
    fix i b c assume "cancel_remove i (yctrl s) = (b, c)" "t = s\<lparr>yctrl := c, closing := if b then i # closing s else closing s\<rparr>"
    then show "history_inv t" using inv by (auto simp: history_inv_def cancel_remove_def split: if_splits)
  }
qed (auto simp: history_inv_def history_same history_same_all system_Flush_def)

interpretation system_history: invariant_system system_init system_step history_inv
proof
  show "system_init s \<Longrightarrow> history_inv s" for s
    by (auto simp: system_init_def history_inv_def NewSystemStreamController_def history_ok_def)
qed (rule history_inv_step)

section \<open>Properties\<close>

text \<open>
  However publishers, history replays, cancellations, flushes and readers interleave, the system
  stream never sends on a closed channel and never closes one twice, no buffer outgrows its size, and
  the history never holds more than 50 events.
\<close>

theorem system_stream_never_panics:
  assumes "system_init s\<^sub>0" and "system_step\<^sup>*\<^sup>* s\<^sub>0 s"
  shows "\<not> yc_panicked (yctrl s) \<and>
    (\<forall>i sub. yc_subs (yctrl s) i = Some sub \<longrightarrow> length (ch_buf (ysub_ch sub)) \<le> yc_bufferSize (yctrl s)) \<and>
    length (yc_eventHistory (yctrl s)) \<le> 50"
  using system_sys.inv_reachable [OF assms] system_history.inv_reachable [OF assms]
  by (auto simp: system_inv_def yctrl_ok_def sub_ok_def history_inv_def history_ok_def defaultSystemEventHistory_def)

text \<open>
  C29: A late subscriber is given exactly the events of the last five minutes among the last fifty that
  were published at or above the minimal level, in the order of publication, whatever their
  timestamps are; the pruning of the history never costs it one.
\<close>

theorem late_subscriber_history:
  assumes "system_init s\<^sub>0" and "system_step\<^sup>*\<^sup>* s\<^sub>0 s" and "clock s \<le> now"
  shows "fst (snd (system_Subscribe now (yctrl s))) =
    filter (\<lambda>evt. now - 300 * second < sv_Timestamp evt) (last_n 50 (published s))"
proof -
  have inv: "history_inv s" by (rule system_history.inv_reachable [OF assms(1,2)])
  have "history_ok 50 (now - 300 * second) (published s) (yc_eventHistory (yctrl s))"
    using history_inv_at [OF inv assms(3)] by (simp add: defaultSystemEventHistory_def defaultSystemEventMaxAge_def)
  from history_ok_recent [OF this] inv show ?thesis
    by (simp add: system_Subscribe_def Let_def getRecentHistory_def history_inv_def defaultSystemEventMaxAge_def)
qed

text \<open>A stream on which an old and a new event were published.\<close>

definition system_start :: system_system where
  "system_start = \<lparr>yctrl = NewSystemStreamController SystemEventInfo, publishing = [], replaying = [], closing = [],
     published = [], clock = 0\<rparr>"

definition system_evt :: "time \<Rightarrow> SystemEvent" where
  "system_evt t = \<lparr>sv_Level = SystemEventWarn, sv_Timestamp = t, sv_Source = ''engine'', sv_Message = [], sv_Details = None\<rparr>"

definition two_events :: system_system where
  "two_events = system_start\<lparr>
     yctrl := snd (system_Publish_lock (400 * second) (system_evt (400 * second))
       (snd (system_Publish_lock (10 * second) (system_evt (10 * second)) (yctrl system_start)))),
     publishing := [(system_evt (10 * second), []), (system_evt (400 * second), [])],
     published := [system_evt (10 * second), system_evt (400 * second)], clock := 400 * second\<rparr>"

lemma system_start_init: "system_init system_start"
  by (auto simp: system_init_def system_start_def)

lemma two_events_reachable: "system_step\<^sup>*\<^sup>* system_start two_events"
proof -
  let ?e1 = "system_evt (10 * second)" and ?e2 = "system_evt (400 * second)"
  define s1 where "s1 = system_start\<lparr>yctrl := snd (system_Publish_lock (10 * second) ?e1 (yctrl system_start)),
    publishing := [(?e1, [])], published := [?e1], clock := 10 * second\<rparr>"
  have pub: "shouldPublish SystemEventWarn c" if "yc_minLevel c = SystemEventInfo" for c
    using that by (simp add: shouldPublish_def levelRank_def system_levels)
  have lvl: "yc_minLevel (yctrl system_start) = SystemEventInfo" "yc_subscribers (yctrl system_start) = []"
    by (simp_all add: system_start_def NewSystemStreamController_def)
  then have lvl1: "yc_minLevel (yctrl s1) = SystemEventInfo" "yc_subscribers (yctrl s1) = []"
    by (simp_all add: s1_def system_Publish_lock_def addToHistory_def Let_def)
  have evt: "sv_Level (system_evt t) = SystemEventWarn" for t by (simp add: system_evt_def)
  have 1: "system_step system_start s1"
    using system_step.publish [of system_start "10 * second" ?e1 "[]" "yctrl s1" "[]"] lvl pub [OF lvl(1)] evt
    by (simp add: s1_def system_start_def second_def system_Publish_lock_def)
  have 2: "system_step s1 two_events"
    using system_step.publish [of s1 "400 * second" ?e2 "[]" "yctrl two_events" "[]"] lvl1 pub [OF lvl1(1)] evt
    by (simp add: s1_def two_events_def second_def system_Publish_lock_def)
  from 1 2 show ?thesis by (meson r_into_rtranclp rtranclp_trans)
qed

theorem late_subscriber_history_witness:
  "fst (snd (system_Subscribe (401 * second) (yctrl two_events))) = [system_evt (400 * second)]"
  using late_subscriber_history [OF system_start_init two_events_reachable, of "401 * second"]
  by (simp add: two_events_def last_n_def system_evt_def second_def)

theorem system_stream_never_panics_witness:
  "\<not> yc_panicked (yctrl two_events) \<and> length (yc_eventHistory (yctrl two_events)) \<le> 50"
  using system_stream_never_panics [OF system_start_init two_events_reachable] by simp

end
