(* ===== verification/Http_Api.thy ===== *)
theory Http_Api
  imports Order_View Web_Authn System_Stream Emitter
begin

text \<open>
  \<^verbatim>\<open>internal/api/handler.go\<close>, \<^verbatim>\<open>handler_order_scaler.go\<close>, \<^verbatim>\<open>handler_venues.go\<close> and the subscribing
  handlers of \<^verbatim>\<open>handler_streaming.go\<close>.

  A handler that shares its name with a storage method has the prefix \<open>Api\<close>. An error a handler returns instead of a
  response reaches the client as 500 (\<^verbatim>\<open>NewStrictHandler\<close>). The pages of a listing come with the
  token of the next one.
\<close>

section \<open>Parameters\<close>

definition defaultPageSize :: int where
  "defaultPageSize = 100"

definition maxPageSize :: int where
  "maxPageSize = 500"

definition clampPageSize :: "int option \<Rightarrow> int" where
  "clampPageSize v =
     (case v of
        None \<Rightarrow> defaultPageSize
      | Some n \<Rightarrow> if n \<le> 0 then defaultPageSize else if maxPageSize < n then maxPageSize else n)"

definition deref :: "string option \<Rightarrow> string" where
  "deref v = (case v of None \<Rightarrow> [] | Some s \<Rightarrow> s)"

definition normalizeBotID :: "int \<Rightarrow> uint32 option" where
  "normalizeBotID raw = (if raw \<le> 0 \<or> 2 ^ 32 - 1 < raw then None else Some (word_of_int raw))"

definition resolveActor :: "ApiHandler \<Rightarrow> string" where
  "resolveActor h =
     (case Option.bind (controllerStatus h) st_User of
        None \<Rightarrow> ''system''
      | Some user \<Rightarrow> if TrimSpace (us_Username user) \<noteq> [] then TrimSpace (us_Username user) else ''system'')"

section \<open>Listings\<close>

record BotRecord =
  br_BotId :: int
  br_LastSyncedAt :: time
  br_Payload :: tc_Bot

record DealRecord =
  dr_DealId :: int
  dr_BotId :: int
  dr_CreatedAt :: time
  dr_UpdatedAt :: time
  dr_Payload :: Deal

record OrderScalerConfigRecord =
  cfr_OrderId :: string
  cfr_ObservedAt :: time
  cfr_Actor :: string
  cfr_Config :: api_EffectiveOrderScaler

definition makeBotRecords :: "BotItem list \<Rightarrow> BotRecord list" where
  "makeBotRecords rows =
     map (\<lambda>item. \<lparr>br_BotId = bot_Id (bi_Bot item), br_LastSyncedAt = bi_LastSyncedAt item, br_Payload = bi_Bot item\<rparr>) rows"

definition makeDealRecords :: "Deal list \<Rightarrow> DealRecord list" where
  "makeDealRecords rows =
     map (\<lambda>deal. \<lparr>dr_DealId = dl_Id deal, dr_BotId = dl_BotId deal, dr_CreatedAt = dl_CreatedAt deal,
       dr_UpdatedAt = dl_UpdatedAt deal, dr_Payload = deal\<rparr>) rows"

definition Api_ListBots ::
  "int option \<Rightarrow> time option \<Rightarrow> time option \<Rightarrow> int option \<Rightarrow> string option \<Rightarrow> ApiHandler
    \<Rightarrow> (BotRecord list \<times> string option) response" where
  "Api_ListBots botId updatedFrom updatedTo lmt pageToken h =
     (case ListBots \<lparr>lb_BotID = botId, lb_UpdatedFrom = updatedFrom, lb_UpdatedTo = updatedTo,
             lb_Limit = clampPageSize lmt, lb_PageToken = deref pageToken\<rparr> (sg_db (ah_store h)) of
        Inl _ \<Rightarrow> (500, None)
      | Inr (rows, nextToken) \<Rightarrow> (200, Some (makeBotRecords rows, nextToken)))"

definition Api_ListDeals ::
  "string option \<Rightarrow> time \<Rightarrow> int option \<Rightarrow> int option \<Rightarrow> time option \<Rightarrow> time option \<Rightarrow> int option \<Rightarrow> string option
    \<Rightarrow> ApiHandler \<Rightarrow> (DealRecord list \<times> string option) response \<times> ApiHandler" where
  "Api_ListDeals cookie now dealId botId updatedFrom updatedTo lmt pageToken h =
     (case requireUnsealedSession cookie now h of
        (r, h) \<Rightarrow>
          if r \<noteq> SessionOk then ((refused_code r, None), h)
          else (case ListDeals \<lparr>ld_DealID = dealId, ld_BotID = botId, ld_UpdatedFrom = updatedFrom, ld_UpdatedTo = updatedTo,
                       ld_Limit = clampPageSize lmt, ld_PageToken = deref pageToken\<rparr> (sg_db (ah_store h)) of
              Inl _ \<Rightarrow> ((500, None), h)
            | Inr (rows, nextToken) \<Rightarrow> ((200, Some (makeDealRecords rows, nextToken)), h)))"

record ListOrdersParams =
  lp_OrderId :: "string option"
  lp_BotId :: "int option"
  lp_DealId :: "int option"
  lp_BotEventId :: "int option"
  lp_ObservedFrom :: "time option"
  lp_ObservedTo :: "time option"
  lp_IncludeLog :: "bool option"
  lp_Limit :: "int option"
  lp_PageToken :: "string option"

definition orders_options :: "ListOrdersParams \<Rightarrow> ListOrdersOptions" where
  "orders_options p =
     \<lparr>lo_OrderIdPrefix = lp_OrderId p, lo_BotID = lp_BotId p, lo_DealID = lp_DealId p, lo_BotEventID = lp_BotEventId p,
      lo_ObservedFrom = lp_ObservedFrom p, lo_ObservedTo = lp_ObservedTo p, lo_IncludeLog = (lp_IncludeLog p = Some True),
      lo_Limit = clampPageSize (lp_Limit p), lo_PageToken = deref (lp_PageToken p)\<rparr>"

definition Api_ListOrders ::
  "(string list \<Rightarrow> string list) \<Rightarrow> (OrderLogItem list \<Rightarrow> OrderLogItem list) \<Rightarrow> string option \<Rightarrow> time \<Rightarrow> ListOrdersParams
    \<Rightarrow> ApiHandler \<Rightarrow> (OrderRecord list \<times> string option) response \<times> ApiHandler" where
  "Api_ListOrders iter sorter cookie now p h =
     (case requireUnsealedSession cookie now h of
        (r, h) \<Rightarrow>
          if r \<noteq> SessionOk then ((refused_code r, None), h)
          else (case ListOrders iter sorter (orders_options p) (sg_db (ah_store h)) of
              Inl _ \<Rightarrow> ((500, None), h)
            | Inr (rows, nextToken) \<Rightarrow>
                ((200, Some (buildOrderRecords h rows (lp_IncludeLog p = Some True), nextToken)), h)))"

definition Api_ListOrderScalers ::
  "(string list \<Rightarrow> string list) \<Rightarrow> (OrderLogItem list \<Rightarrow> OrderLogItem list) \<Rightarrow> string option \<Rightarrow> int option \<Rightarrow> int option
    \<Rightarrow> int option \<Rightarrow> int option \<Rightarrow> string option \<Rightarrow> ApiHandler \<Rightarrow> (OrderScalerConfigRecord list \<times> string option) response" where
  "Api_ListOrderScalers iter sorter orderId botId dealId botEventId lmt pageToken h =
     (case ListOrderScalers iter sorter
             \<lparr>ls_OrderIdPrefix = orderId, ls_BotID = botId, ls_DealID = dealId, ls_BotEventID = botEventId,
              ls_Limit = clampPageSize lmt, ls_PageToken = deref pageToken\<rparr> (sg_db (ah_store h)) of
        Inl _ \<Rightarrow> (500, None)
      | Inr (rows, nextToken) \<Rightarrow>
          (200, Some (map (\<lambda>item. \<lparr>cfr_OrderId = Hex (ci_OrderId item), cfr_ObservedAt = ci_ObservedAt item,
               cfr_Actor = ci_Actor item,
               cfr_Config = (ci_Config item)\<lparr>ae_Multiplier :=
                 clampOrderScalerMultiplier (ae_Multiplier (ci_Config item)) (ah_orderScalerMaxMultiplier h)\<rparr>\<rparr>) rows,
             nextToken)))"

section \<open>Multipliers\<close>

record OrderScalerEffectiveMultiplier =
  em_Source :: OrderScalerSource
  em_Value :: f64
  em_UpdatedAt :: time
  em_UpdatedBy :: string
  em_Notes :: "string option"

record OrderScalerConfigResponse =
  sr_Default :: api_OrderScalerState
  sr_Effective :: OrderScalerEffectiveMultiplier

record BotOrderScalerConfigResponse =
  sb_BotId :: int
  sb_Default :: api_OrderScalerState
  sb_Effective :: OrderScalerEffectiveMultiplier
  sb_Override :: "api_OrderScalerOverride option"

definition validateOrderScalerMultiplier :: "ApiHandler \<Rightarrow> f64 \<Rightarrow> bool" where
  "validateOrderScalerMultiplier h multiplier =
     (\<not> multiplier \<le> 0 \<and> \<not> (0 < ah_orderScalerMaxMultiplier h \<and> ah_orderScalerMaxMultiplier h < multiplier))"

definition buildOrderScalerEffectiveMultiplier ::
  "api_EffectiveOrderScaler \<Rightarrow> f64 \<Rightarrow> OrderScalerEffectiveMultiplier" where
  "buildOrderScalerEffectiveMultiplier effective maxMultiplier =
     (let dflt = ae_Default effective;
          (updatedBy, updatedAt, notes) =
            (case ae_Override effective of
               Some o' \<Rightarrow>
                 if ae_Source effective = OrderScalerSourceBotOverride then (ao_UpdatedBy o', ao_UpdatedAt o', ao_Notes o')
                 else (as_UpdatedBy dflt, as_UpdatedAt dflt, as_Notes dflt)
             | None \<Rightarrow> (as_UpdatedBy dflt, as_UpdatedAt dflt, as_Notes dflt))
      in \<lparr>em_Source = ae_Source effective, em_Value = clampOrderScalerMultiplier (ae_Multiplier effective) maxMultiplier,
          em_UpdatedAt = updatedAt, em_UpdatedBy = updatedBy, em_Notes = notes\<rparr>)"

definition GetOrderScalerConfig ::
  "string option \<Rightarrow> time \<Rightarrow> ApiHandler \<Rightarrow> OrderScalerConfigResponse response \<times> ApiHandler" where
  "GetOrderScalerConfig cookie now h =
     (case requireSession cookie now h of
        ((ok, _), h) \<Rightarrow>
          if \<not> ok then ((401, None), h)
          else (case GetDefaultOrderScaler (sg_db (ah_store h)) of
              Inl _ \<Rightarrow> ((500, None), h)
            | Inr defaultState \<Rightarrow>
                (case ResolveEffectiveOrderScalerConfig zero_OrderId (sg_db (ah_store h)) of
                   Inl _ \<Rightarrow> ((500, None), h)
                 | Inr effective \<Rightarrow>
                     ((200, Some \<lparr>sr_Default = defaultState,
                        sr_Effective = buildOrderScalerEffectiveMultiplier effective (ah_orderScalerMaxMultiplier h)\<rparr>), h))))"

text \<open>The body is a multiplier and notes.\<close>

definition UpdateOrderScalerConfig ::
  "string option \<Rightarrow> time \<Rightarrow> (f64 \<times> string option) option \<Rightarrow> ApiHandler \<Rightarrow> OrderScalerConfigResponse response \<times> ApiHandler" where
  "UpdateOrderScalerConfig cookie now body h =
     (case requireSession cookie now h of
        ((ok, _), h) \<Rightarrow>
          if \<not> ok then ((401, None), h)
          else (case body of
              None \<Rightarrow> ((400, None), h)
            | Some (multiplier, notes) \<Rightarrow>
                if \<not> validateOrderScalerMultiplier h multiplier then ((400, None), h)
                else (case UpsertDefaultOrderScaler now multiplier (resolveActor h) notes (ah_store h) of
                    (Inl _, s) \<Rightarrow> ((500, None), h\<lparr>ah_store := s\<rparr>)
                  | (Inr state, s) \<Rightarrow>
                      let effective = \<lparr>ae_Default = state, ae_Multiplier = as_Multiplier state, ae_OrderId = [],
                            ae_Override = None, ae_Source = OrderScalerSourceDefault\<rparr>
                      in ((200, Some \<lparr>sr_Default = state,
                            sr_Effective = buildOrderScalerEffectiveMultiplier effective (ah_orderScalerMaxMultiplier h)\<rparr>),
                          h\<lparr>ah_store := s\<rparr>))))"

definition GetBotOrderScalerConfig ::
  "string option \<Rightarrow> time \<Rightarrow> int \<Rightarrow> ApiHandler \<Rightarrow> BotOrderScalerConfigResponse response \<times> ApiHandler" where
  "GetBotOrderScalerConfig cookie now botId h =
     (case requireSession cookie now h of
        ((ok, _), h) \<Rightarrow>
          if \<not> ok then ((401, None), h)
          else (case normalizeBotID botId of
              None \<Rightarrow> ((400, None), h)
            | Some botID \<Rightarrow>
                (case GetDefaultOrderScaler (sg_db (ah_store h)) of
                   Inl _ \<Rightarrow> ((500, None), h)
                 | Inr defaultState \<Rightarrow>
                     (case GetBotOrderScalerOverride botID (sg_db (ah_store h)) of
                        Inl _ \<Rightarrow> ((500, None), h)
                      | Inr override \<Rightarrow>
                          (case ResolveEffectiveOrderScalerConfig (bot_oid botID) (sg_db (ah_store h)) of
                             Inl _ \<Rightarrow> ((500, None), h)
                           | Inr effective \<Rightarrow>
                               ((200, Some \<lparr>sb_BotId = uint botID, sb_Default = defaultState,
                                  sb_Effective = buildOrderScalerEffectiveMultiplier effective (ah_orderScalerMaxMultiplier h),
                                  sb_Override = override\<rparr>), h))))))"

text \<open>What the two changes of an override answer with, once it is stored.\<close>

definition bot_scaler_response ::
  "uint32 \<Rightarrow> api_OrderScalerOverride option \<Rightarrow> ApiHandler \<Rightarrow> BotOrderScalerConfigResponse response" where
  "bot_scaler_response botID override h =
     (case GetDefaultOrderScaler (sg_db (ah_store h)) of
        Inl _ \<Rightarrow> (500, None)
      | Inr defaultState \<Rightarrow>
          (case ResolveEffectiveOrderScalerConfig (bot_oid botID) (sg_db (ah_store h)) of
             Inl _ \<Rightarrow> (500, None)
           | Inr effective \<Rightarrow>
               (200, Some \<lparr>sb_BotId = uint botID, sb_Default = defaultState,
                  sb_Effective = buildOrderScalerEffectiveMultiplier effective (ah_orderScalerMaxMultiplier h),
                  sb_Override = override\<rparr>)))"

definition UpsertBotOrderScalerConfig ::
  "string option \<Rightarrow> time \<Rightarrow> int \<Rightarrow> (f64 \<times> string option) option \<Rightarrow> ApiHandler
    \<Rightarrow> BotOrderScalerConfigResponse response \<times> ApiHandler" where
  "UpsertBotOrderScalerConfig cookie now botId body h =
     (case requireSession cookie now h of
        ((ok, _), h) \<Rightarrow>
          if \<not> ok then ((401, None), h)
          else (case normalizeBotID botId of
              None \<Rightarrow> ((400, None), h)
            | Some botID \<Rightarrow>
                (case body of
                   None \<Rightarrow> ((400, None), h)
                 | Some (multiplier, notes) \<Rightarrow>
                     if \<not> validateOrderScalerMultiplier h multiplier then ((400, None), h)
                     else (case UpsertBotOrderScalerOverride now botID (Some multiplier) notes (resolveActor h) (ah_store h) of
                         (Inl _, s) \<Rightarrow> ((500, None), h\<lparr>ah_store := s\<rparr>)
                       | (Inr override, s) \<Rightarrow>
                           let h = h\<lparr>ah_store := s\<rparr> in (bot_scaler_response botID (Some override) h, h)))))"

definition DeleteBotOrderScalerConfig ::
  "string option \<Rightarrow> time \<Rightarrow> int \<Rightarrow> ApiHandler \<Rightarrow> BotOrderScalerConfigResponse response \<times> ApiHandler" where
  "DeleteBotOrderScalerConfig cookie now botId h =
     (case requireSession cookie now h of
        ((ok, _), h) \<Rightarrow>
          if \<not> ok then ((401, None), h)
          else (case normalizeBotID botId of
              None \<Rightarrow> ((400, None), h)
            | Some botID \<Rightarrow>
                (case DeleteBotOrderScalerOverride now botID (resolveActor h) (ah_store h) of
                   (Some _, s) \<Rightarrow> ((500, None), h\<lparr>ah_store := s\<rparr>)
                 | (None, s) \<Rightarrow> let h = h\<lparr>ah_store := s\<rparr> in (bot_scaler_response botID None h, h))))"

section \<open>Venues\<close>

definition Api_ListVenues :: "ApiHandler \<Rightarrow> VenueRecord list response" where
  "Api_ListVenues h = (200, Some (Storage_ListVenues (sg_db (ah_store h))))"

definition Api_UpsertVenue ::
  "string \<Rightarrow> VenueUpsertRequest option \<Rightarrow> ApiHandler \<Rightarrow> VenueRecord response \<times> ApiHandler" where
  "Api_UpsertVenue venueId body h =
     (let venueID = TrimSpace venueId in
      case body of
        None \<Rightarrow> ((400, None), h)
      | Some b \<Rightarrow>
          if venueID = [] then ((400, None), h)
          else (case Storage_UpsertVenue venueID b (ah_store h) of
              (Inl e, s) \<Rightarrow> ((if e = ErrVenueInvalid then 400 else 500, None), h\<lparr>ah_store := s\<rparr>)
            | (Inr record', s) \<Rightarrow> ((200, Some record'), h\<lparr>ah_store := s\<rparr>)))"

definition Api_DeleteVenue :: "string \<Rightarrow> ApiHandler \<Rightarrow> unit response \<times> ApiHandler" where
  "Api_DeleteVenue venueId h =
     (let venueID = TrimSpace venueId in
      if venueID = [] then ((400, None), h)
      else (case Storage_DeleteVenue venueID (ah_store h) of
          (Some e, s) \<Rightarrow>
            ((case e of ErrVenueNotFound \<Rightarrow> 404 | ErrVenueImmutable \<Rightarrow> 409 | ErrVenueInvalid \<Rightarrow> 400 | _ \<Rightarrow> 500, None),
             h\<lparr>ah_store := s\<rparr>)
        | (None, s) \<Rightarrow> ((204, None), h\<lparr>ah_store := s\<rparr>)))"

definition Api_ListVenueAssignments :: "string \<Rightarrow> ApiHandler \<Rightarrow> VenueAssignmentRecord list response" where
  "Api_ListVenueAssignments venueId h =
     (let venueID = TrimSpace venueId in
      if venueID = [] then (400, None)
      else (case Storage_ListVenueAssignments venueID (sg_db (ah_store h)) of
          Inl e \<Rightarrow> (if e = ErrVenueNotFound then 404 else 500, None)
        | Inr assignments \<Rightarrow> (200, Some assignments)))"

text \<open>The body of the request is its flag \<^verbatim>\<open>is_primary\<close>.\<close>

definition Api_UpsertVenueAssignment ::
  "time \<Rightarrow> string \<Rightarrow> int \<Rightarrow> bool option \<Rightarrow> ApiHandler \<Rightarrow> VenueAssignmentRecord response \<times> ApiHandler" where
  "Api_UpsertVenueAssignment now venueId botID body h =
     (let venueID = TrimSpace venueId in
      case body of
        None \<Rightarrow> ((400, None), h)
      | Some isPrimary \<Rightarrow>
          if venueID = [] then ((400, None), h)
          else if botID \<le> 0 then ((400, None), h)
          else (case UpsertVenueAssignment now venueID botID isPrimary (ah_store h) of
              (Inl e, s) \<Rightarrow>
                ((case e of ErrVenueNotFound \<Rightarrow> 404 | ErrVenueInvalid \<Rightarrow> 400 | _ \<Rightarrow> 500, None), h\<lparr>ah_store := s\<rparr>)
            | (Inr record', s) \<Rightarrow> ((200, Some record'), h\<lparr>ah_store := s\<rparr>)))"

definition Api_DeleteVenueAssignment :: "string \<Rightarrow> int \<Rightarrow> ApiHandler \<Rightarrow> unit response \<times> ApiHandler" where
  "Api_DeleteVenueAssignment venueId botID h =
     (let venueID = TrimSpace venueId in
      if venueID = [] then ((400, None), h)
      else if botID \<le> 0 then ((400, None), h)
      else (case DeleteVenueAssignment venueID botID (ah_store h) of
          (Some e, s) \<Rightarrow>
            ((case e of ErrVenueAssignmentNotFound \<Rightarrow> 404 | ErrVenueInvalid \<Rightarrow> 400 | _ \<Rightarrow> 500, None), h\<lparr>ah_store := s\<rparr>)
        | (None, s) \<Rightarrow> ((204, None), h\<lparr>ah_store := s\<rparr>)))"

definition Api_ListBotVenues :: "int \<Rightarrow> ApiHandler \<Rightarrow> BotVenueAssignmentRecord list response" where
  "Api_ListBotVenues botID h =
     (if botID \<le> 0 then (400, None)
      else (case ListBotVenues botID (sg_db (ah_store h)) of
          Inl e \<Rightarrow> (if e = ErrVenueInvalid then 400 else 500, None)
        | Inr assignments \<Rightarrow> (200, Some assignments)))"

section \<open>Cancelling an order\<close>

definition isCancelableStatus :: "WsOrder option \<Rightarrow> bool" where
  "isCancelableStatus status =
     (case status of
        None \<Rightarrow> True
      | Some w \<Rightarrow> let v = TrimSpace (ws_Status w) in v = [] \<or> EqualFold v ''open'')"

definition strPtr :: "string \<Rightarrow> string option" where
  "strPtr s = (if s = [] then None else Some s)"

text \<open>What the loop over the identifiers collects; the status is the last one loaded.\<close>

record cancel_scan =
  sn_coin :: string
  sn_pending :: "OrderIdentifier list"
  sn_lastStatus :: "WsOrder option"
  sn_anySubmission :: bool

definition cancel_coin :: "Action \<Rightarrow> string" where
  "cancel_coin action =
     (let c = TrimSpace (if ac_Type action = ActionCreate then cr_Coin (ac_Create action)
                         else cr_Coin (mo_Order (ac_Modify action)))
      in if c = [] then [] else ToUpper c)"

fun scan_identifiers :: "db \<Rightarrow> OrderIdentifier list \<Rightarrow> cancel_scan \<Rightarrow> store_error + cancel_scan" where
  "scan_identifiers d [] sn = Inr sn"
| "scan_identifiers d (ident # idents) sn =
     (case LoadHyperliquidSubmission ident d of
        Inl e \<Rightarrow> Inl e
      | Inr None \<Rightarrow> scan_identifiers d idents sn
      | Inr (Some action) \<Rightarrow>
          if ac_Type action \<notin> {ActionCreate, ActionModify} then scan_identifiers d idents sn
          else
            let sn = sn\<lparr>sn_anySubmission := True, sn_coin := (if sn_coin sn = [] then cancel_coin action else sn_coin sn)\<rparr> in
            (case LoadHyperliquidStatus ident d of
               Inl e \<Rightarrow> Inl e
             | Inr None \<Rightarrow> scan_identifiers d idents (sn\<lparr>sn_pending := sn_pending sn @ [ident]\<rparr>)
             | Inr (Some status) \<Rightarrow>
                 let sn = sn\<lparr>sn_lastStatus := Some status\<rparr> in
                 if isCancelableStatus (Some status)
                 then scan_identifiers d idents (sn\<lparr>sn_pending := sn_pending sn @ [ident]\<rparr>)
                 else scan_identifiers d idents sn))"

definition manual_cancel_work :: "OrderId \<Rightarrow> string \<Rightarrow> string \<Rightarrow> OrderIdentifier \<Rightarrow> OrderWork" where
  "manual_cancel_work oid coin reason ident =
     \<lparr>wk_Identifier = ident, wk_OrderId = oid,
      wk_Action = zero_Action\<lparr>ac_Type := ActionCancel, ac_Cancel := \<lparr>ca_Coin = coin, ca_Cloid = Hex oid\<rparr>, ac_Reason := reason\<rparr>,
      wk_BotEvent = zero_BotEvent\<rparr>"

fun emit_works :: "(OrderWork \<Rightarrow> 's \<Rightarrow> emit_error option \<times> 's) \<Rightarrow> OrderWork list \<Rightarrow> 's \<Rightarrow> emit_error option \<times> 's" where
  "emit_works emit [] s = (None, s)"
| "emit_works emit (w # ws) s =
     (case emit w s of (Some e, s) \<Rightarrow> (Some e, s) | (None, s) \<Rightarrow> emit_works emit ws s)"

record CancelOrderByOrderIdResponse =
  co_OrderId :: string
  co_Status :: string
  co_Message :: "string option"
  co_Cancel :: HyperliquidCancelOrder

record cancel_request =
  cq_OrderId :: string
  cq_VenueId :: "string option"
  cq_DryRun :: "bool option"
  cq_Reason :: "string option"

definition venue_filtered :: "string option \<Rightarrow> OrderIdentifier list \<Rightarrow> OrderIdentifier list" where
  "venue_filtered venueId idents =
     (let venueFilter = trimmed venueId in
      if venueFilter = [] then idents else filter (\<lambda>ident. EqualFold (Venue ident) venueFilter) idents)"

text \<open>The emitter the handler was given, if any, is an \<open>emit\<close> operation on a state. A body without fields and no body are the same.\<close>

definition CancelOrderByOrderId ::
  "(OrderWork \<Rightarrow> 's \<Rightarrow> emit_error option \<times> 's) option \<Rightarrow> cancel_request \<Rightarrow> ApiHandler \<Rightarrow> 's
    \<Rightarrow> CancelOrderByOrderIdResponse response \<times> 's" where
  "CancelOrderByOrderId emitter req h st =
     (case emitter of
        None \<Rightarrow> ((500, None), st)
      | Some emit \<Rightarrow>
          let rawOrderId = TrimSpace (cq_OrderId req) in
          if rawOrderId = [] then ((400, None), st)
          else (case FromHexString rawOrderId of
              Inl _ \<Rightarrow> ((400, None), st)
            | Inr oid \<Rightarrow>
                let d = sg_db (ah_store h);
                    idents = venue_filtered (cq_VenueId req) (ListSubmissionIdentifiersForOrder oid d) in
                if idents = [] then ((404, None), st)
                else (case scan_identifiers d idents \<lparr>sn_coin = [], sn_pending = [], sn_lastStatus = None, sn_anySubmission = False\<rparr> of
                    Inl _ \<Rightarrow> ((500, None), st)
                  | Inr sn \<Rightarrow>
                      if \<not> sn_anySubmission sn then ((404, None), st)
                      else if sn_coin sn = [] then ((404, None), st)
                      else if sn_pending sn = [] then ((409, None), st)
                      else
                        let reason = trimmed (cq_Reason req);
                            resp = \<lparr>co_OrderId = Hex oid, co_Status = [], co_Message = None,
                              co_Cancel = \<lparr>hx_Coin = sn_coin sn, hx_Cloid = Hex oid\<rparr>\<rparr> in
                        if cq_DryRun req = Some True
                        then ((202, Some (resp\<lparr>co_Status := ''validated'',
                               co_Message := strPtr ''dry-run requested; cancel not enqueued''\<rparr>)), st)
                        else (case emit_works emit (map (manual_cancel_work oid (sn_coin sn) reason) (sn_pending sn)) st of
                            (Some _, st) \<Rightarrow> ((500, None), st)
                          | (None, st) \<Rightarrow>
                              ((202, Some (resp\<lparr>co_Status := ''queued'',
                                 co_Message := (if reason \<noteq> [] then strPtr reason
                                   else (case sn_lastStatus sn of
                                       None \<Rightarrow> None
                                     | Some w \<Rightarrow> strPtr (''latest status: '' @ ws_Status w)))\<rparr>)), st)))))"

section \<open>Streams\<close>

definition StreamOrders ::
  "string option \<Rightarrow> time \<Rightarrow> StreamFilter \<Rightarrow> ApiHandler \<Rightarrow> StreamController option
    \<Rightarrow> int response \<times> ApiHandler \<times> StreamController option" where
  "StreamOrders cookie now flt h stream =
     (case requireUnsealedSession cookie now h of
        (r, h) \<Rightarrow>
          if r \<noteq> SessionOk then ((refused_code r, None), h, stream)
          else (case stream of
              None \<Rightarrow> ((500, None), h, stream)
            | Some c \<Rightarrow> (case Subscribe flt c of (sub, c) \<Rightarrow> ((200, Some (sub_id sub)), h, Some c))))"

definition StreamSystemEvents ::
  "string option \<Rightarrow> time \<Rightarrow> ApiHandler \<Rightarrow> SystemStreamController option
    \<Rightarrow> int response \<times> ApiHandler \<times> SystemStreamController option" where
  "StreamSystemEvents cookie now h stream =
     (case requireUnsealedSession cookie now h of
        (r, h) \<Rightarrow>
          if r \<noteq> SessionOk then ((refused_code r, None), h, stream)
          else (case stream of
              None \<Rightarrow> ((500, None), h, stream)
            | Some c \<Rightarrow> (case system_Subscribe now c of (i, _, c) \<Rightarrow> ((200, Some i), h, Some c))))"

text \<open>\<^verbatim>\<open>dedupeCoins\<close>: the set \<open>seen\<close> and the result hold the same names.\<close>

fun dedupe_from :: "string list \<Rightarrow> string list \<Rightarrow> string list" where
  "dedupe_from [] seen = []"
| "dedupe_from (v # vs) seen =
     (let normalized = ToUpper (TrimSpace v)
      in if normalized = [] \<or> normalized \<in> set seen then dedupe_from vs seen
         else normalized # dedupe_from vs (normalized # seen))"

definition dedupeCoins :: "string list \<Rightarrow> string list" where
  "dedupeCoins values = dedupe_from values []"

text \<open>
  The subscriptions of a price stream: \<open>subscribe\<close> says whether the source accepts the coin. The
  result is the status and the coins that stay subscribed; after an error all are cancelled.
\<close>

fun open_prices :: "(string \<Rightarrow> bool) \<Rightarrow> string list \<Rightarrow> string list \<Rightarrow> string list option" where
  "open_prices subscribe [] subs = Some subs"
| "open_prices subscribe (coin # coins) subs =
     (if subscribe coin then open_prices subscribe coins (subs @ [coin]) else None)"

definition StreamHyperliquidPrices :: "(string \<Rightarrow> bool) option \<Rightarrow> string list \<Rightarrow> int \<times> string list" where
  "StreamHyperliquidPrices prices coin =
     (case prices of
        None \<Rightarrow> (500, [])
      | Some subscribe \<Rightarrow>
          let coins = dedupeCoins coin in
          if coins = [] then (400, [])
          else (case open_prices subscribe coins [] of None \<Rightarrow> (500, []) | Some subs \<Rightarrow> (200, subs)))"

end
