(* ===== verification/Http_Session.thy ===== *)
theory Http_Session
  imports Http_Api
begin

text \<open>
  What the session cookie protects. \<open>authorised\<close> says when a request may pass, \<open>lock_out\<close> what a
  refused request does to the server. The locale \<open>protected_handler\<close> is the contract of every
  handler that asks for a session; \<open>quiet_handler\<close> adds that the handler leaves vault and session
  alone once the request has passed. Both are interpreted for the handlers of the API, and the
  handlers together form a transition system over the server's state.
\<close>

section \<open>Requests that pass\<close>

definition authorised :: "string option \<Rightarrow> time \<Rightarrow> ApiHandler \<Rightarrow> bool" where
  "authorised cookie now h \<longleftrightarrow> ah_debug h \<or>
     (case (ah_session h, cookie) of
        (Some (Some ses), Some token) \<Rightarrow> token \<noteq> [] \<and> ses_token ses = token \<and> now \<le> ses_expiresAt ses
      | _ \<Rightarrow> False)"

text \<open>The cookie names the current session, which is over.\<close>

definition token_expired :: "string option \<Rightarrow> time \<Rightarrow> ApiHandler \<Rightarrow> bool" where
  "token_expired cookie now h \<longleftrightarrow> \<not> ah_debug h \<and>
     (case (ah_session h, cookie) of
        (Some (Some ses), Some token) \<Rightarrow> token \<noteq> [] \<and> ses_token ses = token \<and> ses_expiresAt ses < now
      | _ \<Rightarrow> False)"

definition lock_out :: "string option \<Rightarrow> time \<Rightarrow> ApiHandler \<Rightarrow> ApiHandler" where
  "lock_out cookie now h =
     (if token_expired cookie now h
      then h\<lparr>ah_vault := map_option (\<lambda>v. snd (Seal now v)) (ah_vault h), ah_session := Some None\<rparr> else h)"

lemma requireSession_eq:
  "requireSession cookie now h =
     ((authorised cookie now h, token_expired cookie now h), lock_out cookie now h)"
  by (auto simp: requireSession_def session_Validate_def session_Clear_def authorised_def token_expired_def lock_out_def
      Let_def split: option.splits)

lemma lock_out_authorised: "authorised cookie now h \<Longrightarrow> lock_out cookie now h = h"
  by (auto simp: authorised_def token_expired_def lock_out_def split: option.splits)

lemma lock_out_keeps [simp]:
  "ah_store (lock_out cookie now h) = ah_store h" "ah_debug (lock_out cookie now h) = ah_debug h"
  "ah_orderScalerMaxMultiplier (lock_out cookie now h) = ah_orderScalerMaxMultiplier h"
  by (simp_all add: lock_out_def)

lemma requireSession_ok: "authorised cookie now h \<Longrightarrow> requireSession cookie now h = ((True, False), h)"
  by (auto simp: requireSession_eq lock_out_authorised authorised_def token_expired_def split: option.splits)

lemma requireSession_refused:
  "\<not> authorised cookie now h \<Longrightarrow> requireSession cookie now h = ((False, token_expired cookie now h), lock_out cookie now h)"
  by (simp add: requireSession_eq)

lemmas session_cases = requireSession_ok requireSession_refused

lemma unsealed_session_refused:
  assumes "\<not> authorised cookie now h"
  shows "\<exists>r. requireUnsealedSession cookie now h = (r, lock_out cookie now h) \<and> r \<noteq> SessionOk \<and> refused_code r = 401"
  using assms by (auto simp: requireUnsealedSession_def requireSession_refused refused_code_def)

lemma unsealed_session_state: "snd (requireUnsealedSession cookie now h) = lock_out cookie now h"
  by (auto simp: requireUnsealedSession_def requireSession_eq split: option.splits)

text \<open>A request passes the stricter check if the vault is unsealed too.\<close>

lemma unsealed_session_ok:
  "requireUnsealedSession cookie now h = (SessionOk, h') \<longleftrightarrow>
     authorised cookie now h \<and> h' = h \<and> (\<exists>v. ah_vault h = Some v \<and> vc_state v = StateUnsealed)"
  by (auto simp: requireUnsealedSession_def requireSession_eq lock_out_authorised controllerStatus_def Status_def
      split: option.splits if_splits)

section \<open>The contracts\<close>

locale protected_handler =
  fixes handle :: "string option \<Rightarrow> time \<Rightarrow> ApiHandler \<Rightarrow> 'b response \<times> ApiHandler"
  assumes refuses: "\<not> authorised cookie now h \<Longrightarrow> handle cookie now h = ((401, None), lock_out cookie now h)"
begin

lemma refused_store: "\<not> authorised cookie now h \<Longrightarrow> ah_store (snd (handle cookie now h)) = ah_store h"
  by (simp add: refuses)

lemma answered_authorised: "fst (fst (handle cookie now h)) \<noteq> 401 \<Longrightarrow> authorised cookie now h"
  by (rule ccontr) (simp add: refuses)

text \<open>Presenting an expired token locks the vault.\<close>

lemma expired_locks:
  assumes "token_expired cookie now h" "ah_vault h = Some v" "vault_inv v" "vc_state v = StateUnsealed"
  shows "\<exists>v'. ah_vault (snd (handle cookie now h)) = Some v' \<and> vc_state v' = StateSealed \<and> vc_secrets v' = None \<and>
    ah_session (snd (handle cookie now h)) = Some None"
proof -
  have "\<not> authorised cookie now h"
    using assms(1) by (auto simp: authorised_def token_expired_def split: option.splits)
  then show ?thesis
    using assms by (simp add: refuses lock_out_def Seal_def)
qed

end

locale quiet_handler = protected_handler +
  assumes keeps: "authorised cookie now h \<Longrightarrow>
    ah_vault (snd (handle cookie now h)) = ah_vault h \<and> ah_session (snd (handle cookie now h)) = ah_session h \<and>
    ah_debug (snd (handle cookie now h)) = ah_debug h"
begin

lemma guards:
  "ah_vault (snd (handle cookie now h)) = ah_vault (lock_out cookie now h) \<and>
   ah_session (snd (handle cookie now h)) = ah_session (lock_out cookie now h) \<and>
   ah_debug (snd (handle cookie now h)) = ah_debug h"
  using keeps [of cookie now h] refuses [of cookie now h] by (cases "authorised cookie now h") (simp_all add: lock_out_authorised)

end

section \<open>The handlers\<close>

lemmas handler_splits = option.splits sum.splits prod.splits if_splits

text \<open>A handler that asks for an unsealed vault and then changes nothing.\<close>

lemma quiet_unsealedI:
  assumes refused: "\<And>cookie now h h' r. requireUnsealedSession cookie now h = (r, h') \<Longrightarrow> r \<noteq> SessionOk \<Longrightarrow>
      f cookie now h = ((refused_code r, None), h')"
    and passed: "\<And>cookie now h h'. requireUnsealedSession cookie now h = (SessionOk, h') \<Longrightarrow> snd (f cookie now h) = h'"
  shows "quiet_handler f"
proof unfold_locales
  fix cookie now h
  show "\<not> authorised cookie now h \<Longrightarrow> f cookie now h = ((401, None), lock_out cookie now h)"
    using unsealed_session_refused [of cookie now h] refused by fastforce
  assume a: "authorised cookie now h"
  obtain r h' where r: "requireUnsealedSession cookie now h = (r, h')"
    by fastforce
  then have "h' = h"
    using unsealed_session_state [of cookie now h] a by (simp add: lock_out_authorised)
  then have "snd (f cookie now h) = h"
    using refused [OF r] passed [of cookie now h h'] r by (cases "r = SessionOk") simp_all
  then show "ah_vault (snd (f cookie now h)) = ah_vault h \<and> ah_session (snd (f cookie now h)) = ah_session h \<and>
      ah_debug (snd (f cookie now h)) = ah_debug h"
    by simp
qed

interpretation get_payload: quiet_handler GetVaultPayload
  by unfold_locales (auto simp: GetVaultPayload_def session_cases split: handler_splits)

interpretation update_payload: quiet_handler "\<lambda>cookie now. UpdateVaultPayload marshal flag_value cookie now (Some b)"
  by unfold_locales (auto simp: UpdateVaultPayload_def session_cases split: handler_splits)

interpretation seal_vault: protected_handler SealVault
  by unfold_locales (simp add: SealVault_def session_cases)

interpretation list_deals: quiet_handler "\<lambda>cookie now. Api_ListDeals cookie now dealId botId updatedFrom updatedTo lmt pageToken"
  by (rule quiet_unsealedI) (auto simp: Api_ListDeals_def split: handler_splits)

interpretation list_orders: quiet_handler "\<lambda>cookie now. Api_ListOrders iter sorter cookie now p"
  by (rule quiet_unsealedI) (auto simp: Api_ListOrders_def split: handler_splits)

interpretation get_scaler: quiet_handler GetOrderScalerConfig
  by unfold_locales (auto simp: GetOrderScalerConfig_def session_cases split: handler_splits)

interpretation update_scaler: quiet_handler "\<lambda>cookie now. UpdateOrderScalerConfig cookie now body"
  by unfold_locales (auto simp: UpdateOrderScalerConfig_def session_cases Let_def split: handler_splits)

interpretation get_bot_scaler: quiet_handler "\<lambda>cookie now. GetBotOrderScalerConfig cookie now botId"
  by unfold_locales (auto simp: GetBotOrderScalerConfig_def session_cases split: handler_splits)

interpretation upsert_bot_scaler: quiet_handler "\<lambda>cookie now. UpsertBotOrderScalerConfig cookie now botId body"
  by unfold_locales (auto simp: UpsertBotOrderScalerConfig_def session_cases Let_def split: handler_splits)

interpretation delete_bot_scaler: quiet_handler "\<lambda>cookie now. DeleteBotOrderScalerConfig cookie now botId"
  by unfold_locales (auto simp: DeleteBotOrderScalerConfig_def session_cases Let_def split: handler_splits)

text \<open>The two streams return the stream's state as well.\<close>

interpretation stream_orders: quiet_handler
  "\<lambda>cookie now h. (fst (StreamOrders cookie now flt h stream), fst (snd (StreamOrders cookie now flt h stream)))"
  by (rule quiet_unsealedI) (auto simp: StreamOrders_def split: handler_splits)

interpretation stream_system_events: quiet_handler
  "\<lambda>cookie now h. (fst (StreamSystemEvents cookie now h stream), fst (snd (StreamSystemEvents cookie now h stream)))"
  by (rule quiet_unsealedI) (auto simp: StreamSystemEvents_def split: handler_splits)

end
