(* ===== verification/Http_Props.thy ===== *)
theory Http_Props
  imports Http_Session
begin

text \<open>
  The HTTP API as a whole: the handlers as a transition system over the server's state, what holds
  in every state it reaches, and the behaviour of the single handlers: unsealing, logging in,
  cancelling, multipliers, listings and streams.
\<close>

section \<open>The server as a transition system\<close>

type_synonym server = "ApiHandler \<times> WebAuthnService option"

text \<open>
  One step is one request, with any cookie, any body and any clock reading after the year 1. The
  random source delivers when a session is issued.
\<close>

inductive api_step ::
  "webauthn_lib \<Rightarrow> (VaultSecretsBundle \<Rightarrow> byte list) \<Rightarrow> (string \<Rightarrow> json) \<Rightarrow> server \<Rightarrow> server \<Rightarrow> bool"
  for lib marshal flag_value where
  get_payload: "api_step lib marshal flag_value (h, w) (snd (GetVaultPayload cookie now h), w)"
| update_payload: "api_step lib marshal flag_value (h, w) (snd (UpdateVaultPayload marshal flag_value cookie now body h), w)"
| get_status: "api_step lib marshal flag_value (h, w) (snd (GetVaultStatus cookie now h), w)"
| seal: "api_step lib marshal flag_value (h, w) (snd (SealVault cookie now h), w)"
| set_up: "api_step lib marshal flag_value (h, w) (snd (SetupVault now body h), w)"
| unseal: "zero_time < now \<Longrightarrow> length buf = vaultSessionTokenLength \<Longrightarrow>
    api_step lib marshal flag_value (h, w) (snd (UnsealVault marshal flag_value (Some buf) now body h), w)"
| begin_registration: "BeginWebauthnRegistration lib entropy now name w h = (r, w', h') \<Longrightarrow>
    api_step lib marshal flag_value (h, w) (h', w')"
| finish_registration: "FinishWebauthnRegistration lib now response w h = (r, w', h') \<Longrightarrow>
    api_step lib marshal flag_value (h, w) (h', w')"
| begin_login: "BeginWebauthnLogin lib entropy now name w h = (r, w', h') \<Longrightarrow>
    api_step lib marshal flag_value (h, w) (h', w')"
| finish_login: "length buf = vaultSessionTokenLength \<Longrightarrow>
    FinishWebauthnLogin lib (Some buf) now response w h = (r, w', h') \<Longrightarrow>
    api_step lib marshal flag_value (h, w) (h', w')"
| list_deals: "api_step lib marshal flag_value (h, w)
    (snd (Api_ListDeals cookie now dealId botId updatedFrom updatedTo lmt pageToken h), w)"
| list_orders: "api_step lib marshal flag_value (h, w) (snd (Api_ListOrders iter sorter cookie now p h), w)"
| get_scaler: "api_step lib marshal flag_value (h, w) (snd (GetOrderScalerConfig cookie now h), w)"
| update_scaler: "api_step lib marshal flag_value (h, w) (snd (UpdateOrderScalerConfig cookie now change h), w)"
| get_bot_scaler: "api_step lib marshal flag_value (h, w) (snd (GetBotOrderScalerConfig cookie now botId h), w)"
| upsert_bot_scaler: "api_step lib marshal flag_value (h, w) (snd (UpsertBotOrderScalerConfig cookie now botId change h), w)"
| delete_bot_scaler: "api_step lib marshal flag_value (h, w) (snd (DeleteBotOrderScalerConfig cookie now botId h), w)"
| upsert_venue: "api_step lib marshal flag_value (h, w) (snd (Api_UpsertVenue venue payload h), w)"
| delete_venue: "api_step lib marshal flag_value (h, w) (snd (Api_DeleteVenue venue h), w)"
| upsert_assignment: "api_step lib marshal flag_value (h, w) (snd (Api_UpsertVenueAssignment now venue botId primary h), w)"
| delete_assignment: "api_step lib marshal flag_value (h, w) (snd (Api_DeleteVenueAssignment venue botId h), w)"
| stream_orders: "api_step lib marshal flag_value (h, w) (fst (snd (StreamOrders cookie now flt h stream)), w)"
| stream_system_events: "api_step lib marshal flag_value (h, w) (fst (snd (StreamSystemEvents cookie now h system)), w)"

text \<open>The server starts with a vault that is not unsealed and with no session.\<close>

definition api_init :: "server \<Rightarrow> bool" where
  "api_init s \<longleftrightarrow> ah_session (fst s) = Some None \<and>
     (\<exists>v. ah_vault (fst s) = Some v \<and> vault_init v \<and> vc_state v \<noteq> StateUnsealed)"

definition session_ok :: "Controller \<Rightarrow> vaultSessionManager \<Rightarrow> bool" where
  "session_ok v m \<longleftrightarrow> vault_inv v \<and> (vc_state v = StateUnsealed \<longrightarrow> m \<noteq> None) \<and>
     (\<forall>ses. m = Some ses \<longrightarrow> length (ses_token ses) = 43)"

definition api_inv :: "server \<Rightarrow> bool" where
  "api_inv s \<longleftrightarrow> (\<exists>v m. ah_vault (fst s) = Some v \<and> ah_session (fst s) = Some m \<and> session_ok v m)"

text \<open>A session token is 32 bytes in base64 without padding.\<close>

lemma length_RawURLEncoding: "length (RawURLEncoding bs) = (4 * length bs + 2) div 3"
  by (induction bs rule: RawURLEncoding.induct) (simp_all add: Let_def)

lemma token_length: "length buf = vaultSessionTokenLength \<Longrightarrow> length (RawURLEncoding buf) = 43"
  by (simp add: length_RawURLEncoding vaultSessionTokenLength_def)

lemma Seal_state: "vault_inv v \<Longrightarrow> fst (Seal now v) = None \<and> vc_state (snd (Seal now v)) = StateSealed"
  by (auto simp: vault_inv_def Seal_def split: option.splits State.splits)

lemma session_ok_sealed: "vault_inv v \<Longrightarrow> session_ok (snd (Seal now v)) None"
  by (simp add: session_ok_def Seal_state vault_inv_Seal)

lemma api_inv_gate:
  assumes "api_inv (h, w)" "ah_vault h' = ah_vault h" "ah_session h' = ah_session h"
  shows "api_inv (h', w')"
  using assms by (simp add: api_inv_def)

lemma api_inv_lock_out: "api_inv (h, w) \<Longrightarrow> api_inv (lock_out cookie now h, w')"
  by (auto simp: api_inv_def lock_out_def session_ok_sealed session_ok_def Seal_state vault_inv_Seal)

lemma api_inv_quiet:
  assumes "api_inv (h, w)" "ah_vault h' = ah_vault (lock_out cookie now h)"
    "ah_session h' = ah_session (lock_out cookie now h)"
  shows "api_inv (h', w')"
  by (rule api_inv_gate [OF api_inv_lock_out [OF assms(1)]]) (use assms in auto)

subsection \<open>Every request keeps the invariant\<close>

lemma GetVaultStatus_state:
  "ah_vault h = Some v \<Longrightarrow> snd (GetVaultStatus cookie now h) =
     (if vc_state v = StateUnsealed then lock_out cookie now h else h)"
  by (auto simp: GetVaultStatus_def controllerStatus_def Status_def requireSession_eq Let_def)

lemma api_inv_status:
  assumes "api_inv (h, w)"
  shows "api_inv (snd (GetVaultStatus cookie now h), w)"
proof -
  obtain v where "ah_vault h = Some v"
    using assms by (auto simp: api_inv_def)
  then show ?thesis
    using GetVaultStatus_state [of h v cookie now] api_inv_lock_out [OF assms] assms by simp
qed

lemma api_inv_seal:
  assumes "api_inv (h, w)"
  shows "api_inv (snd (SealVault cookie now h), w)"
proof (cases "authorised cookie now h")
  case True
  obtain v m where v: "ah_vault h = Some v" "ah_session h = Some m" "session_ok v m"
    using assms by (auto simp: api_inv_def)
  then obtain v' where "Seal now v = (None, v')"
    using Seal_state [of v now] by (cases "Seal now v") (auto simp: session_ok_def)
  then show ?thesis
    using v True session_ok_sealed [of v now]
    by (auto simp: SealVault_def requireSession_ok api_inv_def session_Clear_def session_ok_def Let_def)
qed (simp add: seal_vault.refuses api_inv_lock_out [OF assms])

lemma api_inv_setup:
  assumes "api_inv (h, w)"
  shows "api_inv (snd (SetupVault now body h), w)"
proof -
  obtain v m where v: "ah_vault h = Some v" "ah_session h = Some m" "session_ok v m"
    using assms by (auto simp: api_inv_def)
  have "vault_inv (SetUser u v)" for u
    using v(3) by (simp add: session_ok_def vault_inv_SetUser)
  from session_ok_sealed [OF this] have "session_ok (snd (Seal now (SetUser u v))) None" for u .
  moreover have "fst (Seal now (SetUser u v)) = None" for u
    using Seal_state [of "SetUser u v" now] v(3) by (simp add: session_ok_def vault_inv_SetUser)
  ultimately show ?thesis
    using v by (auto simp: SetupVault_def api_inv_def session_Clear_def Let_def split: handler_splits)
      (metis fst_conv snd_conv option.distinct(1))+
qed

lemma ttl_bounds: "minVaultSessionTTL \<le> deriveSessionTTL n \<and> deriveSessionTTL n \<le> maxVaultSessionTTL"
  by (auto simp: deriveSessionTTL_def minVaultSessionTTL_def maxVaultSessionTTL_def defaultVaultSessionTTL_def
      second_def Let_def split: option.splits)

lemma ttl_pos: "0 < deriveSessionTTL n"
  using ttl_bounds [of n] by (simp add: minVaultSessionTTL_def second_def)

lemma Unseal_result:
  assumes "vault_inv v" "list_ex vs_Primary (Venues (sc_Secrets s))"
  shows "\<exists>v'. Unseal now s ses v = (None, v') \<and> vault_inv v' \<and> vc_state v' = StateUnsealed \<and>
    vc_secrets v' = Some (Secrets_Clone s) \<and> vc_sessionExpiresAt v' = ses"
proof -
  have "\<nexists>x. vc_state v = OtherState x"
    using assms(1) by (auto simp: vault_inv_def split: option.splits)
  moreover have "vault_inv (snd (Unseal now s ses v))"
    by (rule vault_inv_Unseal [OF assms(1)])
  ultimately show ?thesis
    using assms(2) ensurePrimary_iff [of "sc_Secrets s"]
    by (auto simp: Unseal_def signalReadyLocked_def split: State.splits)
qed

lemma build_venues_primary:
  "build_venues vs = Inr (ns, secrets, n) \<Longrightarrow> (0 < n) = list_ex vs_Primary secrets"
proof (induction vs arbitrary: ns secrets n)
  case (Cons v vs)
  then show ?case
    by (cases "build_venues vs") (auto simp: Let_def split: if_splits)
qed simp

lemma bundle_primary:
  "buildSecretsBundle marshal bundle now = Inr secrets \<Longrightarrow> list_ex vs_Primary (Venues (sc_Secrets secrets))"
  by (auto simp: buildSecretsBundle_def Let_def dest!: build_venues_primary split: sum.splits if_splits)

text \<open>Past the checks of the request, unsealing succeeds in every state of the vault but the first.\<close>

lemma UnsealVault_ok:
  assumes "api_inv (h, w)" "ah_vault h = Some v" "zero_time < now" "vc_state v \<noteq> StateSetupRequired"
    "buildSecretsBundle marshal (vur_Payload b) now = Inr secrets"
    "syncVenueMetadata flag_value (Venues (sc_Secrets secrets)) (ah_store h) = (None, s)"
    and expiry: "expiry = now + deriveSessionTTL (vur_RememberSessionSeconds b)"
  obtains v' where "Unseal now secrets (Some expiry) v = (None, v')"
    "UnsealVault marshal flag_value (Some buf) now (Some b) h =
      ((200, Some ((convertControllerStatus h (Status v'))\<lparr>av_SessionExpiresAt := Some expiry\<rparr>, RawURLEncoding buf)),
       h\<lparr>ah_store := s, ah_vault := Some v', ah_session := Some (Some \<lparr>ses_token = RawURLEncoding buf, ses_expiresAt = expiry\<rparr>)\<rparr>)"
proof -
  have nz: "expiry \<noteq> zero_time"
    using assms(3) ttl_pos [of "vur_RememberSessionSeconds b"] by (simp add: expiry)
  have inv: "vault_inv v" and m: "\<exists>m. ah_session h = Some m"
    using assms(1,2) by (auto simp: api_inv_def session_ok_def)
  obtain v' where v': "Unseal now secrets (Some expiry) v = (None, v')"
    using Unseal_result [OF inv bundle_primary [OF assms(5)]] by blast
  then show ?thesis
    using that assms nz m by (auto simp: UnsealVault_def Issue_def convertControllerStatus_def Let_def)
qed

lemma UnsealVault_failed:
  assumes "ah_vault h = Some v" "\<nexists>b secrets s. body = Some b \<and> vc_state v \<noteq> StateSetupRequired \<and>
      buildSecretsBundle marshal (vur_Payload b) now = Inr secrets \<and>
      syncVenueMetadata flag_value (Venues (sc_Secrets secrets)) (ah_store h) = (None, s)"
  shows "\<exists>s code. code \<in> {400, 423, 500} \<and> UnsealVault marshal flag_value entropy now body h = ((code, None), h\<lparr>ah_store := s\<rparr>)"
proof -
  have "h = h\<lparr>ah_store := ah_store h\<rparr>"
    by simp
  moreover have "(\<exists>code \<in> {400, 423, 500}. UnsealVault marshal flag_value entropy now body h = ((code, None), h)) \<or>
      (\<exists>s. UnsealVault marshal flag_value entropy now body h = ((500, None), h\<lparr>ah_store := s\<rparr>))"
    using assms
    by (cases body; cases "vc_state v = StateSetupRequired")
      (auto simp: UnsealVault_def split: sum.splits prod.splits option.splits)
  ultimately show ?thesis
    by (metis insertCI)
qed

lemma api_inv_unseal:
  assumes "api_inv (h, w)" "zero_time < now" "length buf = vaultSessionTokenLength"
  shows "api_inv (snd (UnsealVault marshal flag_value (Some buf) now body h), w)"
proof -
  obtain v m where v: "ah_vault h = Some v" "ah_session h = Some m" "session_ok v m"
    using assms(1) by (auto simp: api_inv_def)
  then have inv: "vault_inv (snd (Unseal now secrets ses v))" for secrets ses
    by (simp add: vault_inv_Unseal session_ok_def)
  show ?thesis
  proof (cases "\<exists>b secrets s. body = Some b \<and> vc_state v \<noteq> StateSetupRequired \<and>
      buildSecretsBundle marshal (vur_Payload b) now = Inr secrets \<and>
      syncVenueMetadata flag_value (Venues (sc_Secrets secrets)) (ah_store h) = (None, s)")
    case True
    then obtain b secrets s where b: "body = Some b" "vc_state v \<noteq> StateSetupRequired"
        "buildSecretsBundle marshal (vur_Payload b) now = Inr secrets"
        "syncVenueMetadata flag_value (Venues (sc_Secrets secrets)) (ah_store h) = (None, s)"
      by auto
    obtain v' where u: "Unseal now secrets (Some (now + deriveSessionTTL (vur_RememberSessionSeconds b))) v = (None, v')"
      "ah_vault (snd (UnsealVault marshal flag_value (Some buf) now body h)) = Some v'"
      "ah_session (snd (UnsealVault marshal flag_value (Some buf) now body h)) =
         Some (Some \<lparr>ses_token = RawURLEncoding buf, ses_expiresAt = now + deriveSessionTTL (vur_RememberSessionSeconds b)\<rparr>)"
      by (rule UnsealVault_ok [OF assms(1) v(1) assms(2) b(2-4) refl, of buf]) (simp add: b(1))
    then show ?thesis
      using inv [of secrets "Some (now + deriveSessionTTL (vur_RememberSessionSeconds b))"] token_length [OF assms(3)]
      by (auto simp: api_inv_def session_ok_def)
  next
    case False
    show ?thesis
      using UnsealVault_failed [OF v(1) False, of "Some buf"] v by (auto simp: api_inv_def)
  qed
qed

text \<open>The ceremonies change the store; a login replaces the session.\<close>

lemma ceremonies_keep_vault:
  "BeginWebauthnRegistration lib entropy now name w h = (r, w', h') \<Longrightarrow> ah_vault h' = ah_vault h \<and> ah_session h' = ah_session h"
  "FinishWebauthnRegistration lib now response w h = (r', w', h') \<Longrightarrow> ah_vault h' = ah_vault h \<and> ah_session h' = ah_session h"
  "BeginWebauthnLogin lib entropy now name w h = (r, w', h') \<Longrightarrow> ah_vault h' = ah_vault h \<and> ah_session h' = ah_session h"
  "FinishWebauthnLogin lib entropy now response w h = (r'', w', h') \<Longrightarrow> ah_vault h' = ah_vault h"
  by (auto simp: BeginWebauthnRegistration_def FinishWebauthnRegistration_def BeginWebauthnLogin_def FinishWebauthnLogin_def
      Let_def split: handler_splits)

lemma login_session:
  assumes "FinishWebauthnLogin lib entropy now response w h = (r, w', h')"
  shows "ah_session h' = ah_session h \<or> (\<exists>buf. entropy = Some buf \<and> now + defaultVaultSessionTTL \<noteq> zero_time \<and>
    ah_session h' = Some (Some \<lparr>ses_token = RawURLEncoding buf, ses_expiresAt = now + defaultVaultSessionTTL\<rparr>))"
  using assms by (auto simp: FinishWebauthnLogin_def Issue_def Let_def split: handler_splits)

lemma api_inv_login:
  assumes "api_inv (h, w)" "length buf = vaultSessionTokenLength"
    "FinishWebauthnLogin lib (Some buf) now response w h = (r, w', h')"
  shows "api_inv (h', w')"
  using assms(1) ceremonies_keep_vault(4) [OF assms(3)] login_session [OF assms(3)] token_length [OF assms(2)]
  by (auto simp: api_inv_def session_ok_def)

lemma update_payload_no_body: "UpdateVaultPayload marshal flag_value cookie now None h = ((400, None), h)"
  by (simp add: UpdateVaultPayload_def)

lemma venue_handlers_keep_vault:
  "ah_vault (snd (Api_UpsertVenue venue payload h)) = ah_vault h \<and> ah_session (snd (Api_UpsertVenue venue payload h)) = ah_session h"
  "ah_vault (snd (Api_DeleteVenue venue h)) = ah_vault h \<and> ah_session (snd (Api_DeleteVenue venue h)) = ah_session h"
  "ah_vault (snd (Api_UpsertVenueAssignment now venue botId primary h)) = ah_vault h \<and>
   ah_session (snd (Api_UpsertVenueAssignment now venue botId primary h)) = ah_session h"
  "ah_vault (snd (Api_DeleteVenueAssignment venue botId h)) = ah_vault h \<and>
   ah_session (snd (Api_DeleteVenueAssignment venue botId h)) = ah_session h"
  by (auto simp: Api_UpsertVenue_def Api_DeleteVenue_def Api_UpsertVenueAssignment_def Api_DeleteVenueAssignment_def Let_def
      split: option.splits prod.splits sum.splits)

context quiet_handler
begin

lemma keeps_inv: "api_inv (h, w) \<Longrightarrow> api_inv (snd (handle cookie now h), w')"
  using api_inv_quiet [of h w "snd (handle cookie now h)" cookie now w'] guards [of cookie now h] by blast

end

lemmas quiet_steps = get_payload.keeps_inv list_deals.keeps_inv list_orders.keeps_inv get_scaler.keeps_inv
  update_scaler.keeps_inv get_bot_scaler.keeps_inv upsert_bot_scaler.keeps_inv delete_bot_scaler.keeps_inv

lemmas stream_steps = stream_orders.keeps_inv [simplified snd_conv] stream_system_events.keeps_inv [simplified snd_conv]

lemma api_inv_update_payload: "api_inv (h, w) \<Longrightarrow> api_inv (snd (UpdateVaultPayload marshal flag_value cookie now body h), w)"
  by (cases body) (auto simp: update_payload_no_body intro: update_payload.keeps_inv)

lemma api_inv_step:
  assumes "api_step lib marshal flag_value s t" "api_inv s"
  shows "api_inv t"
  using assms
proof (cases rule: api_step.cases)
  case (unseal now buf h w body)
  then show ?thesis
    using assms(2) api_inv_unseal [of h w now buf marshal flag_value body] by simp
next
  case (finish_login buf now response w h r w' h')
  then show ?thesis
    using assms(2) api_inv_login [of h w buf lib now response r w' h'] by simp
next
  case (begin_registration entropy now name w h r w' h')
  then show ?thesis
    using assms(2) api_inv_gate ceremonies_keep_vault(1) by metis
next
  case (finish_registration now response w h r w' h')
  then show ?thesis
    using assms(2) api_inv_gate ceremonies_keep_vault(2) by metis
next
  case (begin_login entropy now name w h r w' h')
  then show ?thesis
    using assms(2) api_inv_gate ceremonies_keep_vault(3) by metis
qed (use assms(2) in \<open>auto intro: quiet_steps stream_steps api_inv_update_payload api_inv_status api_inv_seal api_inv_setup
    api_inv_gate simp: venue_handlers_keep_vault\<close>)

interpretation api_sys: invariant_system api_init "api_step lib marshal flag_value" api_inv
proof
  show "api_init s \<Longrightarrow> api_inv s" for s
    using vault.inv_init by (auto simp: api_init_def api_inv_def session_ok_def)
qed (rule api_inv_step)

section \<open>Sessions\<close>

subsection \<open>A server to try requests on\<close>

definition sample_server :: ApiHandler where
  "sample_server = \<lparr>ah_store = fresh_storage, ah_vault = Some sealed_controller, ah_session = Some None, ah_debug = False,
     ah_orderScalerMaxMultiplier = Fin 5\<rparr>"

definition sample_bundle :: VaultSecretsBundle where
  "sample_bundle = \<lparr>vb_Username = ''op'', vb_APIKEY = ''k'', vb_PRIVATEKEY = ''p'', vb_PLANTIER = ''Pro'',
     vb_Venues = [\<lparr>vv_Id = ''hl:1'', vv_Type = ''hyperliquid'', vv_Wallet = ''0xab'', vv_PrivateKey = ''0x1'',
       vv_IsPrimary = True, vv_DisplayName = None, vv_ApiUrl = Some ''http://hl'', vv_Flags = None\<rparr>]\<rparr>"

definition sample_unseal :: VaultUnsealRequest where
  "sample_unseal = \<lparr>vur_Payload = sample_bundle, vur_RememberSessionSeconds = Some 600\<rparr>"

definition sample_entropy :: "byte list" where
  "sample_entropy = map word_of_nat [0..<32]"

definition unsealed_server :: ApiHandler where
  "unsealed_server = snd (UnsealVault (\<lambda>_. []) (\<lambda>_. JNull) (Some sample_entropy) 5 (Some sample_unseal) sample_server)"

lemma sample_server_init: "api_init (sample_server, None)"
  using sealed_controller_init by (simp add: api_init_def sample_server_def sealed_controller_def NewController_def)

lemma unsealed_server_reached: "api_step lib (\<lambda>_. []) (\<lambda>_. JNull) (sample_server, None) (unsealed_server, None)"
  unfolding unsealed_server_def
  by (rule api_step.unseal) (simp_all add: zero_time_def sample_entropy_def vaultSessionTokenLength_def)

lemma sample_unseal_steps:
  "case buildSecretsBundle (\<lambda>_. []) sample_bundle 5 of
     Inl _ \<Rightarrow> False
   | Inr x \<Rightarrow> fst (syncVenueMetadata (\<lambda>_. JNull) (Venues (sc_Secrets x)) fresh_storage) = None"
  by code_simp

lemma unsealed_server_session:
  "\<exists>v. ah_vault unsealed_server = Some v \<and> vc_state v = StateUnsealed \<and> vault_inv v \<and>
   ah_session unsealed_server = Some (Some \<lparr>ses_token = RawURLEncoding sample_entropy, ses_expiresAt = 5 + 600 * second\<rparr>) \<and>
   \<not> ah_debug unsealed_server"
proof -
  obtain x s where x: "buildSecretsBundle (\<lambda>_. []) (vur_Payload sample_unseal) 5 = Inr x"
    "syncVenueMetadata (\<lambda>_. JNull) (Venues (sc_Secrets x)) (ah_store sample_server) = (None, s)"
    using sample_unseal_steps
    by (auto simp: sample_unseal_def sample_server_def split: sum.splits) (metis prod.collapse)
  have e: "5 + 600 * second = 5 + deriveSessionTTL (vur_RememberSessionSeconds sample_unseal)"
    by (simp add: sample_unseal_def) code_simp
  have v: "ah_vault sample_server = Some sealed_controller" "vc_state sealed_controller \<noteq> StateSetupRequired"
    "zero_time < 5" "vault_inv sealed_controller"
    using vault.inv_init [OF sealed_controller_init]
    by (simp_all add: sample_server_def sealed_controller_def NewController_def zero_time_def)
  obtain v' where u: "Unseal 5 x (Some (5 + 600 * second)) sealed_controller = (None, v')"
      "unsealed_server = sample_server\<lparr>ah_store := s, ah_vault := Some v',
         ah_session := Some (Some \<lparr>ses_token = RawURLEncoding sample_entropy, ses_expiresAt = 5 + 600 * second\<rparr>)\<rparr>"
    by (rule UnsealVault_ok [OF api_sys.inv_init [OF sample_server_init] v(1,3,2) x e, of sample_entropy])
      (simp add: unsealed_server_def)
  have "vc_state v' = StateUnsealed \<and> vault_inv v'"
    using Unseal_result [OF v(4) bundle_primary [OF x(1)], of 5 "Some (5 + 600 * second)"] u(1) by auto
  then show ?thesis
    by (simp add: u(2)) (simp add: sample_server_def)
qed

text \<open>
  As long as requests do not overlap, secrets are held only while there is a session: then a session exists whose token is 43
  characters long, that is, encodes 32 random bytes. Overlapping requests are another matter, see the theory on locks.
\<close>

lemma serial_secrets_need_session:
  assumes "api_init s0" and "(api_step lib marshal flag_value)\<^sup>*\<^sup>* s0 (h, w)"
  shows "\<exists>v. ah_vault h = Some v \<and> (get_Secrets v \<noteq> None) = (vc_state v = StateUnsealed) \<and>
    (get_Secrets v \<noteq> None \<longrightarrow> (\<exists>ses. ah_session h = Some (Some ses) \<and> length (ses_token ses) = 43))"
  using api_sys.inv_reachable [OF assms]
  by (fastforce simp: api_inv_def session_ok_def vault_inv_def get_Secrets_def split: option.splits)

text \<open>
  C10: No session, no answer. A request that does not carry the token of the current session, or carries it after the session
  has expired, gets 401 from every handler that asks for a session, and changes nothing in the store; only a token that has
  expired has an effect, which is to seal the vault and end the session. (\<^verbatim>\<open>openapi.yaml\<close> documents 403 for an expired
  session; the handlers use 403 for a sealed vault only.)
\<close>

theorem protected_handlers_refuse:
  assumes "\<not> authorised cookie now h"
  shows "GetVaultPayload cookie now h = ((401, None), lock_out cookie now h) \<and>
    UpdateVaultPayload marshal flag_value cookie now (Some b) h = ((401, None), lock_out cookie now h) \<and>
    SealVault cookie now h = ((401, None), lock_out cookie now h) \<and>
    Api_ListDeals cookie now dealId botId updatedFrom updatedTo lmt pageToken h = ((401, None), lock_out cookie now h) \<and>
    Api_ListOrders iter sorter cookie now p h = ((401, None), lock_out cookie now h) \<and>
    GetOrderScalerConfig cookie now h = ((401, None), lock_out cookie now h) \<and>
    UpdateOrderScalerConfig cookie now body h = ((401, None), lock_out cookie now h) \<and>
    GetBotOrderScalerConfig cookie now bid h = ((401, None), lock_out cookie now h) \<and>
    UpsertBotOrderScalerConfig cookie now bid body h = ((401, None), lock_out cookie now h) \<and>
    DeleteBotOrderScalerConfig cookie now bid h = ((401, None), lock_out cookie now h) \<and>
    StreamOrders cookie now flt h stream = ((401, None), lock_out cookie now h, stream) \<and>
    StreamSystemEvents cookie now h system = ((401, None), lock_out cookie now h, system) \<and>
    ah_store (lock_out cookie now h) = ah_store h \<and>
    (\<not> token_expired cookie now h \<longrightarrow> lock_out cookie now h = h)"
  using assms get_payload.refuses update_payload.refuses seal_vault.refuses list_deals.refuses list_orders.refuses
    get_scaler.refuses update_scaler.refuses get_bot_scaler.refuses upsert_bot_scaler.refuses delete_bot_scaler.refuses
    unsealed_session_refused [OF assms]
  by (auto simp: StreamOrders_def StreamSystemEvents_def lock_out_def)

definition locked :: "ApiHandler \<Rightarrow> bool" where
  "locked h \<longleftrightarrow> ah_session h = Some None \<and> (\<exists>v. ah_vault h = Some v \<and> vc_state v = StateSealed \<and> get_Secrets v = None)"

lemma sample_unauthorised:
  "\<not> authorised None 6 unsealed_server" "\<not> token_expired None 6 unsealed_server"
  using unsealed_server_session by (auto simp: authorised_def token_expired_def split: option.splits)

theorem protected_handlers_refuse_witness:
  "GetVaultPayload None 6 unsealed_server = ((401, None), unsealed_server) \<and>
   Api_ListDeals None 6 None None None None None None unsealed_server = ((401, None), unsealed_server)"
  using protected_handlers_refuse [OF sample_unauthorised(1)] sample_unauthorised(2) by metis

text \<open>The vault and the session are those of before.\<close>

definition same_guard :: "ApiHandler \<Rightarrow> ApiHandler \<Rightarrow> bool" where
  "same_guard h h' \<longleftrightarrow> ah_vault h' = ah_vault h \<and> ah_session h' = ah_session h"

context quiet_handler
begin

lemma keeps_guard: "\<not> token_expired cookie now h \<Longrightarrow> same_guard h (snd (handle cookie now h))"
  using guards [of cookie now h] by (simp add: same_guard_def lock_out_def)

end

lemmas quiet_guards = get_payload.keeps_guard update_payload.keeps_guard list_deals.keeps_guard list_orders.keeps_guard
  get_scaler.keeps_guard update_scaler.keeps_guard get_bot_scaler.keeps_guard upsert_bot_scaler.keeps_guard
  delete_bot_scaler.keeps_guard stream_orders.keeps_guard [simplified snd_conv] stream_system_events.keeps_guard [simplified snd_conv]

lemmas handlers_refuse = get_payload.refuses update_payload.refuses seal_vault.refuses list_deals.refuses list_orders.refuses
  get_scaler.refuses update_scaler.refuses get_bot_scaler.refuses upsert_bot_scaler.refuses delete_bot_scaler.refuses
  stream_orders.refuses [unfolded prod.inject] stream_system_events.refuses [unfolded prod.inject]

text \<open>
  C17: A session that is over is enforced when its token shows up. In every state the server reaches with one request
  after the other, a request with the token of an expired session finds the vault sealed afterwards, the secrets
  gone and the session ended, whichever of the thirteen handlers that look at the cookie receives it; without the token the expiry
  itself changes nothing: the other requests, those to seal aside, leave vault and session alone.
\<close>

theorem expired_token_seals:
  assumes "api_init s0" and "(api_step lib marshal flag_value)\<^sup>*\<^sup>* s0 (h, w)"
    and "ah_vault h = Some v" and "vc_state v = StateUnsealed" and "token_expired cookie now h"
  shows "locked (snd (GetVaultStatus cookie now h)) \<and>
    locked (snd (GetVaultPayload cookie now h)) \<and>
    locked (snd (UpdateVaultPayload marshal flag_value cookie now (Some b) h)) \<and>
    locked (snd (SealVault cookie now h)) \<and>
    locked (snd (Api_ListDeals cookie now dealId botId updatedFrom updatedTo lmt pageToken h)) \<and>
    locked (snd (Api_ListOrders iter sorter cookie now p h)) \<and>
    locked (snd (GetOrderScalerConfig cookie now h)) \<and>
    locked (snd (UpdateOrderScalerConfig cookie now change h)) \<and>
    locked (snd (GetBotOrderScalerConfig cookie now bid h)) \<and>
    locked (snd (UpsertBotOrderScalerConfig cookie now bid change h)) \<and>
    locked (snd (DeleteBotOrderScalerConfig cookie now bid h)) \<and>
    locked (fst (snd (StreamOrders cookie now flt h stream))) \<and>
    locked (fst (snd (StreamSystemEvents cookie now h system))) \<and>
    (\<not> token_expired other now h \<longrightarrow>
      same_guard h (snd (GetVaultStatus other now h)) \<and>
      same_guard h (snd (GetVaultPayload other now h)) \<and>
      same_guard h (snd (UpdateVaultPayload marshal flag_value other now (Some b) h)) \<and>
      same_guard h (snd (Api_ListDeals other now dealId botId updatedFrom updatedTo lmt pageToken h)) \<and>
      same_guard h (snd (Api_ListOrders iter sorter other now p h)) \<and>
      same_guard h (snd (GetOrderScalerConfig other now h)) \<and>
      same_guard h (snd (UpdateOrderScalerConfig other now change h)) \<and>
      same_guard h (snd (GetBotOrderScalerConfig other now bid h)) \<and>
      same_guard h (snd (UpsertBotOrderScalerConfig other now bid change h)) \<and>
      same_guard h (snd (DeleteBotOrderScalerConfig other now bid h)) \<and>
      same_guard h (fst (snd (StreamOrders other now flt h stream))) \<and>
      same_guard h (fst (snd (StreamSystemEvents other now h system))))"
proof -
  have "vault_inv v"
    using api_sys.inv_reachable [OF assms(1,2)] assms(3) by (auto simp: api_inv_def session_ok_def)
  then have l: "locked (lock_out cookie now h)"
    using assms(3-5) by (auto simp: locked_def lock_out_def Seal_def get_Secrets_def)
  have "\<not> authorised cookie now h"
    using assms(5) by (auto simp: authorised_def token_expired_def split: option.splits)
  note refused = handlers_refuse [OF this]
  have st: "snd (GetVaultStatus c now h) = lock_out c now h" for c
    using GetVaultStatus_state [OF assms(3)] assms(4) by simp
  have "same_guard h (snd (GetVaultStatus other now h))" if "\<not> token_expired other now h"
    using that by (simp add: st same_guard_def lock_out_def)
  then show ?thesis
    using l quiet_guards [of other now h] by (simp add: st refused)
qed

theorem expired_token_seals_witness:
  "locked (snd (GetVaultStatus (Some (RawURLEncoding sample_entropy)) (6 + 600 * second) unsealed_server))"
proof -
  obtain v where v: "ah_vault unsealed_server = Some v" "vc_state v = StateUnsealed"
    using unsealed_server_session by auto
  have "length (RawURLEncoding sample_entropy) = 43"
    by (rule token_length) (simp add: sample_entropy_def vaultSessionTokenLength_def)
  then have "token_expired (Some (RawURLEncoding sample_entropy)) (6 + 600 * second) unsealed_server"
    using unsealed_server_session by (auto simp: token_expired_def)
  then show ?thesis
    using expired_token_seals [OF sample_server_init
        r_into_rtranclp [where r = "api_step lib (\<lambda>_. []) (\<lambda>_. JNull)" for lib, OF unsealed_server_reached] v]
    by blast
qed

text \<open>
  The status request shows an unsealed vault to the holder of the session only. Everybody else is told it
  is sealed, while the controller keeps its secrets; a vault that is not unsealed is reported as it is, to anybody.
\<close>

theorem status_by_session:
  assumes "ah_vault h = Some v"
  shows "\<exists>st. GetVaultStatus cookie now h = ((200, Some st), if vc_state v = StateUnsealed then lock_out cookie now h else h) \<and>
    av_State st = (if vc_state v = StateUnsealed \<and> \<not> authorised cookie now h then StateSealed else vc_state v) \<and>
    (vc_state v = StateUnsealed \<and> \<not> authorised cookie now h \<longrightarrow> av_SessionExpiresAt st = None)"
  using assms
  by (auto simp: GetVaultStatus_def controllerStatus_def Status_def requireSession_eq convertControllerStatus_def Let_def
      split: option.splits)

theorem status_by_session_witness:
  "\<exists>st. fst (GetVaultStatus None 6 unsealed_server) = (200, Some st) \<and> av_State st = StateSealed \<and>
     (\<exists>v. ah_vault (snd (GetVaultStatus None 6 unsealed_server)) = Some v \<and> vc_state v = StateUnsealed)"
proof -
  obtain v where v: "ah_vault unsealed_server = Some v" "vc_state v = StateUnsealed"
    using unsealed_server_session by auto
  show ?thesis
    using status_by_session [OF v(1), of None 6] v sample_unauthorised by (auto simp: lock_out_def)
qed

text \<open>
  A session lasts between one minute and a day, whatever 64-bit number of seconds the client asks for:
  as long as asked where that lies in between, half an hour when it asks for none or for zero, and half an hour as well for
  negative numbers. A request beyond the range of a duration wraps around and can come out as
  one minute instead of a day.
\<close>

theorem session_ttl:
  "minVaultSessionTTL \<le> deriveSessionTTL n \<and> deriveSessionTTL n \<le> maxVaultSessionTTL \<and>
   (60 \<le> k \<and> k \<le> 86400 \<longrightarrow> deriveSessionTTL (Some k) = k * second) \<and>
   (k \<le> 0 \<longrightarrow> deriveSessionTTL (Some k) = 1800 * second) \<and> deriveSessionTTL None = 1800 * second \<and>
   (0 < k \<and> k < 60 \<longrightarrow> deriveSessionTTL (Some k) = 60 * second) \<and>
   (86400 < k \<and> k \<le> 9223372036 \<longrightarrow> deriveSessionTTL (Some k) = 86400 * second) \<and>
   deriveSessionTTL (Some 9223372037) = 60 * second"
proof -
  have w: "wrap64 (k * second) = k * second" if "0 < k" "k \<le> 9223372036"
    using that by (intro wrap64_id) (auto simp: second_def)
  have "deriveSessionTTL (Some 9223372037) = 60 * second"
    by code_simp
  then show ?thesis
    using ttl_bounds [of n] w
    by (auto simp: deriveSessionTTL_def minVaultSessionTTL_def maxVaultSessionTTL_def defaultVaultSessionTTL_def
        second_def Let_def)
qed

theorem session_ttl_witness: "deriveSessionTTL (Some 600) = 600 * second"
  using session_ttl [of None 600] by simp

section \<open>Unsealing and logging in\<close>

text \<open>
  C18: Unsealing replaces the session. In every state the server reaches, a request to unseal either
  leaves vault and session as they were, with 400, 423 or 500, or answers 200 with a new token;
  then the vault holds the secrets of the request, the token is good until the expiry the client was told, and every
  other token is worthless. No cookie is needed, and a vault that is unsealed already is no obstacle: 409 never occurs.
\<close>

theorem unseal_replaces_session:
  assumes "api_init s0" and "(api_step lib marshal flag_value)\<^sup>*\<^sup>* s0 (h, w)" and "zero_time < now"
    and "length buf = vaultSessionTokenLength"
    and "UnsealVault marshal flag_value (Some buf) now body h = ((code, r), h')"
  shows "(code \<in> {400, 423, 500} \<and> r = None \<and> ah_vault h' = ah_vault h \<and> ah_session h' = ah_session h) \<or>
    (\<exists>b st secrets v. code = 200 \<and> body = Some b \<and> r = Some (st, RawURLEncoding buf) \<and>
       buildSecretsBundle marshal (vur_Payload b) now = Inr secrets \<and>
       ah_vault h' = Some v \<and> vc_state v = StateUnsealed \<and> vc_secrets v = Some (Secrets_Clone secrets) \<and>
       av_SessionExpiresAt st = Some (now + deriveSessionTTL (vur_RememberSessionSeconds b)) \<and>
       (\<forall>t. t \<le> now + deriveSessionTTL (vur_RememberSessionSeconds b) \<longrightarrow> authorised (Some (RawURLEncoding buf)) t h') \<and>
       (\<forall>other t. \<not> ah_debug h \<and> other \<noteq> Some (RawURLEncoding buf) \<longrightarrow> \<not> authorised other t h'))"
proof -
  have inv: "api_inv (h, w)"
    by (rule api_sys.inv_reachable [OF assms(1,2)])
  then obtain v m where v: "ah_vault h = Some v" "vault_inv v"
    by (auto simp: api_inv_def session_ok_def)
  have t: "RawURLEncoding buf \<noteq> []"
    using token_length [OF assms(4)] by auto
  show ?thesis
  proof (cases "\<exists>b secrets s. body = Some b \<and> vc_state v \<noteq> StateSetupRequired \<and>
      buildSecretsBundle marshal (vur_Payload b) now = Inr secrets \<and>
      syncVenueMetadata flag_value (Venues (sc_Secrets secrets)) (ah_store h) = (None, s)")
    case True
    then obtain b secrets s where b: "body = Some b" "vc_state v \<noteq> StateSetupRequired"
        "buildSecretsBundle marshal (vur_Payload b) now = Inr secrets"
        "syncVenueMetadata flag_value (Venues (sc_Secrets secrets)) (ah_store h) = (None, s)"
      by auto
    define expiry where "expiry = now + deriveSessionTTL (vur_RememberSessionSeconds b)"
    obtain v' where u: "Unseal now secrets (Some expiry) v = (None, v')"
      "r = Some ((convertControllerStatus h (Status v'))\<lparr>av_SessionExpiresAt := Some expiry\<rparr>, RawURLEncoding buf)"
      "code = 200" "h' = h\<lparr>ah_store := s, ah_vault := Some v',
         ah_session := Some (Some \<lparr>ses_token = RawURLEncoding buf, ses_expiresAt = expiry\<rparr>)\<rparr>"
      by (rule UnsealVault_ok [OF inv v(1) assms(3) b(2-4) expiry_def, of buf]) (use assms(5) b(1) in auto)
    have "vc_state v' = StateUnsealed" "vc_secrets v' = Some (Secrets_Clone secrets)"
      using Unseal_result [OF v(2) bundle_primary [OF b(3)], of now "Some expiry"] u(1) by auto
    then show ?thesis
      using b u t by (auto simp: authorised_def expiry_def split: option.splits)
  next
    case False
    show ?thesis
      using UnsealVault_failed [OF v(1) False, of "Some buf"] assms(5) by auto
  qed
qed

theorem unseal_replaces_session_witness:
  "\<exists>st v. UnsealVault (\<lambda>_. []) (\<lambda>_. JNull) (Some sample_entropy) 5 (Some sample_unseal) sample_server =
     ((200, Some (st, RawURLEncoding sample_entropy)), unsealed_server) \<and> ah_vault unsealed_server = Some v \<and>
     vc_state v = StateUnsealed \<and> av_SessionExpiresAt st = Some (5 + deriveSessionTTL (Some 600))"
proof -
  let ?u = "UnsealVault (\<lambda>_. []) (\<lambda>_. JNull) (Some sample_entropy) 5 (Some sample_unseal) sample_server"
  have u: "?u = ((fst (fst ?u), snd (fst ?u)), unsealed_server)"
    by (simp add: unsealed_server_def)
  have a: "zero_time < 5" "length sample_entropy = vaultSessionTokenLength"
    by (simp_all add: zero_time_def sample_entropy_def vaultSessionTokenLength_def)
  have "ah_session unsealed_server \<noteq> ah_session sample_server"
    using unsealed_server_session by (auto simp: sample_server_def)
  then show ?thesis
    using unseal_replaces_session [OF sample_server_init rtranclp.rtrancl_refl a u] u
    by (auto simp: sample_unseal_def)
qed

lemma finish_ceremony_verified:
  assumes "finish_ceremony lib verify now (Some e) (Some p) s = (Inr c, s')"
  shows "\<not> entry_expired now e \<and> (\<exists>user. buildWebAuthnUserByID (en_userID e) (sg_db s) = Inr user \<and> verify user (en_data e) p = Inr c)"
  using assms by (auto simp: finish_ceremony_def split: handler_splits)

lemma FinishWebauthnLogin_200:
  assumes "FinishWebauthnLogin lib entropy now (Some (token, resp)) w h = ((200, r), w', h')"
  obtains svc e p s c where "w = Some svc" "map_of (was_loginCache svc) (TrimSpace token) = Some e"
    "lib_ParseRequest lib (JObject resp) = Some p"
    "w' = Some (svc\<lparr>was_loginCache := AList.delete (TrimSpace token) (was_loginCache svc)\<rparr>)"
    "finish_ceremony lib (lib_ValidateLogin lib) now (Some e) (Some p) (ah_store h) = (Inr c, s)"
proof -
  obtain svc where svc: "w = Some svc"
    using assms by (cases w) (simp_all add: FinishWebauthnLogin_def)
  obtain p where p: "lib_ParseRequest lib (JObject resp) = Some p" "TrimSpace token \<noteq> []" "resp \<noteq> []"
    using assms svc by (auto simp: FinishWebauthnLogin_def Let_def split: if_splits option.splits)
  obtain fr s where f: "finish_ceremony lib (lib_ValidateLogin lib) now (map_of (was_loginCache svc) (TrimSpace token)) (Some p)
      (ah_store h) = (fr, s)"
    by fastforce
  have r: "\<exists>c. fr = Inr c" "w' = Some (svc\<lparr>was_loginCache := AList.delete (TrimSpace token) (was_loginCache svc)\<rparr>)"
    using assms svc p f
    by (auto simp: FinishWebauthnLogin_def FinishLogin_def cache_pop_def finish_code_def Let_def
        split: sum.splits if_splits option.splits prod.splits)
  then show ?thesis
    using that [of svc _ p] svc p f
    by (cases "map_of (was_loginCache svc) (TrimSpace token)") (auto simp: finish_ceremony_def [of _ _ _ None])
qed

text \<open>
  C19: A login needs its ceremony. The handler answers 200 only for a token that is in the cache and not over, with a response
  the library verifies against the credentials of the user the ceremony was begun for; the token
  is used up, so that neither this response nor another one can be sent with it again.
\<close>

theorem login_needs_ceremony:
  assumes "FinishWebauthnLogin lib entropy now (Some (token, resp)) w h = ((200, r), w', h')"
  shows "\<exists>svc e p user c. w = Some svc \<and> map_of (was_loginCache svc) (TrimSpace token) = Some e \<and> \<not> entry_expired now e \<and>
    lib_ParseRequest lib (JObject resp) = Some p \<and> buildWebAuthnUserByID (en_userID e) (sg_db (ah_store h)) = Inr user \<and>
    lib_ValidateLogin lib user (en_data e) p = Inr c \<and>
    (\<forall>entropy' now' resp' h''. fst (fst (FinishWebauthnLogin lib entropy' now' (Some (token, resp')) w' h'')) \<noteq> 200)"
proof -
  obtain svc e p s c where l: "w = Some svc" "map_of (was_loginCache svc) (TrimSpace token) = Some e"
    "lib_ParseRequest lib (JObject resp) = Some p"
    "w' = Some (svc\<lparr>was_loginCache := AList.delete (TrimSpace token) (was_loginCache svc)\<rparr>)"
    "finish_ceremony lib (lib_ValidateLogin lib) now (Some e) (Some p) (ah_store h) = (Inr c, s)"
    using assms by (rule FinishWebauthnLogin_200)
  have "fst (fst (FinishWebauthnLogin lib entropy' now' (Some (token, resp')) w' h'')) \<noteq> 200" for entropy' now' resp' h''
  proof
    assume "fst (fst (FinishWebauthnLogin lib entropy' now' (Some (token, resp')) w' h'')) = 200"
    then obtain r2 w2 h2 where "FinishWebauthnLogin lib entropy' now' (Some (token, resp')) w' h'' = ((200, r2), w2, h2)"
      by (metis prod.collapse)
    then show False
      using l(4) by (elim FinishWebauthnLogin_200) auto
  qed
  then show ?thesis
    using l finish_ceremony_verified [OF l(5)] by blast
qed

definition sample_lib :: webauthn_lib where
  "sample_lib = \<lparr>lib_BeginRegistration = (\<lambda>_ _. Inl []), lib_Descriptor = id, lib_CreateCredential = (\<lambda>_ _ _. Inl []),
     lib_BeginLogin = (\<lambda>_. Inl []), lib_ValidateLogin = (\<lambda>_ _ p. Inr p), lib_CredentialID = (\<lambda>_. [1]),
     lib_ParseCreation = Some, lib_ParseRequest = Some\<rparr>"

definition sample_ceremony :: WebAuthnService where
  "sample_ceremony = (NewWebAuthnService 0)\<lparr>was_loginCache :=
     cache_put 5 ''tok'' 1 \<lparr>sd_Expires = zero_time, sd_data = JNull\<rparr> defaultWebAuthnSessionTTL []\<rparr>"

definition sample_login ::
  "string response \<times> WebAuthnService option \<times> ApiHandler" where
  "sample_login = FinishWebauthnLogin sample_lib None 6 (Some ('' tok'', [(''id'', JNull)])) (Some sample_ceremony)
     (sample_server\<lparr>ah_store := snd (EnsureVaultUser 5 ''op'' fresh_storage)\<rparr>)"

theorem login_needs_ceremony_witness:
  "fst sample_login = (200, Some []) \<and>
   fst (fst (FinishWebauthnLogin sample_lib None 7 (Some ('' tok'', [(''id'', JNull)])) (fst (snd sample_login)) sample_server)) \<noteq> 200"
proof -
  have ok: "fst sample_login = (200, Some [])"
    by code_simp
  then have "FinishWebauthnLogin sample_lib None 6 (Some ('' tok'', [(''id'', JNull)])) (Some sample_ceremony)
     (sample_server\<lparr>ah_store := snd (EnsureVaultUser 5 ''op'' fresh_storage)\<rparr>) =
     ((200, Some []), fst (snd sample_login), snd (snd sample_login))"
    by (metis prod.collapse sample_login_def)
  from login_needs_ceremony [OF this] ok show ?thesis
    by blast
qed

end
