(* ===== verification/Http_Orders.thy ===== *)
theory Http_Orders
  imports Http_Props
begin

text \<open>
  What the handlers for orders and multipliers do with the storage: which venues a cancel request
  reaches, what a stored multiplier comes back as, and what the order listing and the order stream show.
\<close>

section \<open>Cancelling\<close>

text \<open>The create or modify that was last submitted for an identifier.\<close>

definition live_action :: "db \<Rightarrow> OrderIdentifier \<Rightarrow> Action option" where
  "live_action d ident =
     (case LoadHyperliquidSubmission ident d of
        Inr (Some action) \<Rightarrow> if ac_Type action \<in> {ActionCreate, ActionModify} then Some action else None
      | _ \<Rightarrow> None)"

definition cancelable :: "db \<Rightarrow> OrderIdentifier \<Rightarrow> bool" where
  "cancelable d ident \<longleftrightarrow> live_action d ident \<noteq> None \<and>
     (case LoadHyperliquidStatus ident d of Inr status \<Rightarrow> isCancelableStatus status | Inl _ \<Rightarrow> False)"

text \<open>The first coin named by a submission.\<close>

definition order_coin :: "db \<Rightarrow> OrderIdentifier list \<Rightarrow> string" where
  "order_coin d idents =
     (case filter (\<lambda>c. c \<noteq> []) (map cancel_coin (List.map_filter (live_action d) idents)) of [] \<Rightarrow> [] | c # _ \<Rightarrow> c)"

lemma order_coin_simps [simp]:
  "order_coin d [] = []"
  "order_coin d (i # idents) = (case live_action d i of
     None \<Rightarrow> order_coin d idents
   | Some a \<Rightarrow> if cancel_coin a = [] then order_coin d idents else cancel_coin a)"
  by (auto simp: order_coin_def List.map_filter_def split: option.splits)

lemma scan_identifiers_eq:
  assumes "db_ok d"
  shows "\<exists>status. scan_identifiers d idents sn = Inr (sn\<lparr>
      sn_coin := (if sn_coin sn = [] then order_coin d idents else sn_coin sn),
      sn_pending := sn_pending sn @ filter (cancelable d) idents,
      sn_lastStatus := status,
      sn_anySubmission := sn_anySubmission sn \<or> list_ex (\<lambda>i. live_action d i \<noteq> None) idents\<rparr>)"
proof (induction idents arbitrary: sn)
  case Nil
  show ?case
    by (rule exI [of _ "sn_lastStatus sn"]) simp
next
  case (Cons ident idents)
  obtain a where a: "LoadHyperliquidSubmission ident d = Inr a"
    using LoadHyperliquidSubmission_total [OF assms] by blast
  obtain st where st: "LoadHyperliquidStatus ident d = Inr st"
    using LoadHyperliquidStatus_total [OF assms] by blast
  show ?case
  proof (cases "live_action d ident")
    case None
    then have "scan_identifiers d (ident # idents) sn = scan_identifiers d idents sn"
      using a by (auto simp: live_action_def split: option.splits if_splits)
    moreover have "\<not> cancelable d ident"
      using None by (simp add: cancelable_def)
    ultimately show ?thesis
      using Cons.IH [of sn] None by (auto simp del: scan_identifiers.simps split: if_splits)
  next
    case (Some action)
    let ?sn = "sn\<lparr>sn_anySubmission := True, sn_coin := (if sn_coin sn = [] then cancel_coin action else sn_coin sn)\<rparr>"
    let ?sn1 = "case st of None \<Rightarrow> ?sn | Some w \<Rightarrow> ?sn\<lparr>sn_lastStatus := Some w\<rparr>"
    let ?sn2 = "if isCancelableStatus st then ?sn1\<lparr>sn_pending := sn_pending sn @ [ident]\<rparr> else ?sn1"
    have "scan_identifiers d (ident # idents) sn = scan_identifiers d idents ?sn2"
      using a st Some
      by (auto simp: live_action_def Let_def isCancelableStatus_def split: option.splits if_splits)
    moreover have "cancelable d ident = isCancelableStatus st"
      using Some st by (simp add: cancelable_def)
    ultimately show ?thesis
      using Cons.IH [of ?sn2] Some by (cases st) (auto simp del: scan_identifiers.simps)
  qed
qed

lemma emit_works_queue:
  assumes "\<forall>w \<in> set ws. wk_Identifier w \<noteq> zero_OrderIdentifier \<and> oi_OrderId (wk_Identifier w) = wk_OrderId w \<and>
      emitterFor (oi_VenueID (wk_Identifier w)) e \<noteq> None"
  shows "emit_works queue_Emit ws e = (None, e\<lparr>q := q e @ ws\<rparr>)"
  using assms
proof (induction ws arbitrary: e)
  case (Cons w ws)
  then have "queue_Emit w e = (None, e\<lparr>q := q e @ [w]\<rparr>)"
    by (auto simp: queue_Emit_def)
  moreover have "emitterFor v (e\<lparr>q := q e @ [w]\<rparr>) = emitterFor v e" for v
    by (simp add: emitterFor_def)
  ultimately show ?case
    using Cons.IH [of "e\<lparr>q := q e @ [w]\<rparr>"] Cons.prems by simp
qed simp

lemma submission_identifiers:
  assumes "i \<in> set (ListSubmissionIdentifiersForOrder oid d)"
  shows "oi_OrderId i = oid \<and> i \<noteq> zero_OrderIdentifier"
proof -
  let ?ok = "\<lambda>i. oi_OrderId i = oid \<and> i \<noteq> zero_OrderIdentifier"
  have e: "?ok (ensureIdentifier (NewOrderIdentifier v w oid))" for v w
    using ensured(1) [of "NewOrderIdentifier v w oid"]
    by (auto simp: NewOrderIdentifier_def zero_OrderIdentifier_def simp del: ensured(1))
  have f: "\<forall>i \<in> set (fold (append_identifier oid) vws xs). ?ok i" if "\<forall>i \<in> set xs. ?ok i" for vws xs
    using that
  proof (induction vws arbitrary: xs)
    case (Cons vw vws)
    have "\<forall>i \<in> set (append_identifier oid vw xs). ?ok i"
      using Cons.prems e [of "fst vw" "snd vw"] by (simp add: append_identifier_def Let_def)
    then have "\<forall>i \<in> set (fold (append_identifier oid) vws (append_identifier oid vw xs)). ?ok i"
      by (rule Cons.IH)
    then show ?case
      by (simp only: fold.simps comp_apply)
  qed (simp only: fold.simps id_apply)
  have "\<forall>i \<in> set (fold (append_identifier oid) b (fold (append_identifier oid) a [])). ?ok i" for a b
    by (rule f, rule f) simp
  then show ?thesis
    using assms unfolding ListSubmissionIdentifiersForOrder_def Let_def by blast
qed

lemma FromHexString_nonempty: "FromHexString raw = Inr oid \<Longrightarrow> raw \<noteq> []"
  by (rule notI) (simp add: FromHexString_def Let_def, simp add: FromHex_def)

lemma TrimSpace_no_space: "list_all (\<lambda>c. \<not> is_space c) s \<Longrightarrow> TrimSpace s = s"
proof -
  assume "list_all (\<lambda>c. \<not> is_space c) s"
  then have "dropWhile is_space s = s" "dropWhile is_space (rev s) = rev s"
    by (metis dropWhile_eq_self_iff hd_in_set list_all_iff set_rev)+
  then show ?thesis
    by (simp add: TrimSpace_def)
qed

lemma hextable_no_space: "list_all (\<lambda>c. \<not> is_space c) hextable"
  by code_simp

lemma hex_digit_not_space:
  assumes "n < 16"
  shows "\<not> is_space (hex_digit n)"
proof -
  have "unat n < length hextable"
    using assms by (simp add: word_less_nat_alt hextable_def)
  from nth_mem [OF this] show ?thesis
    using hextable_no_space by (auto simp: hex_digit_def list_all_iff)
qed

lemma TrimSpace_Hex: "TrimSpace (Hex oid) = Hex oid"
proof (rule TrimSpace_no_space)
  have "list_all (\<lambda>c. \<not> is_space c) (EncodeToString bs)" for bs
    by (induction bs) (simp_all add: hex_digit_not_space high_nibble_less low_nibble_less)
  moreover have "list_all (\<lambda>c. \<not> is_space c) ''0x''"
    by code_simp
  ultimately show "list_all (\<lambda>c. \<not> is_space c) (Hex oid)"
    by (simp add: Hex_def)
qed

text \<open>
  C16: A cancel request reaches exactly the open orders. On every storage the program can produce, with an emitter registered for
  each venue concerned, the request for an order answers 202 if and only if some venue has a create or modify on record whose latest
  status, if any, is open, and the coin is known; then one cancel per such venue is queued, in
  the order of the identifiers, for the order's client id. A dry run, and every other answer (404
  and 409), queues nothing.
\<close>

theorem cancel_reaches_open_orders:
  fixes e :: "'e QueueEmitter"
  assumes "storage_init s0" and "storage_step\<^sup>*\<^sup>* s0 (ah_store h)" and "FromHexString (TrimSpace (cq_OrderId req)) = Inr oid"
    and idents: "idents = venue_filtered (cq_VenueId req) (ListSubmissionIdentifiersForOrder oid (sg_db (ah_store h)))"
    and pending: "pending = filter (cancelable (sg_db (ah_store h))) idents"
    and "\<forall>i \<in> set pending. emitterFor (oi_VenueID i) e \<noteq> None"
    and "CancelOrderByOrderId (Some queue_Emit) req h e = ((code, r), e')"
  shows "(code = 202 \<longleftrightarrow> pending \<noteq> [] \<and> order_coin (sg_db (ah_store h)) idents \<noteq> []) \<and> code \<in> {202, 404, 409} \<and>
    e' = (if code = 202 \<and> cq_DryRun req \<noteq> Some True
          then e\<lparr>q := q e @ map (manual_cancel_work oid (order_coin (sg_db (ah_store h)) idents) (trimmed (cq_Reason req))) pending\<rparr>
          else e)"
proof -
  let ?d = "sg_db (ah_store h)"
  have ok: "db_ok ?d"
    using storage_sys.inv_reachable [OF assms(1,2)] by (simp add: storage_ok_def)
  have sub: "set pending \<subseteq> set (ListSubmissionIdentifiersForOrder oid ?d)"
    by (auto simp: pending idents venue_filtered_def Let_def split: if_splits)
  have live: "pending \<noteq> [] \<Longrightarrow> list_ex (\<lambda>i. live_action ?d i \<noteq> None) idents"
    by (auto simp: pending cancelable_def list_ex_iff filter_empty_conv)
  have emit: "emit_works queue_Emit (map (manual_cancel_work oid coin reason) pending) e =
      (None, e\<lparr>q := q e @ map (manual_cancel_work oid coin reason) pending\<rparr>)" for coin reason
    by (rule emit_works_queue)
      (use sub assms(6) submission_identifiers [of _ oid ?d] in \<open>auto simp: manual_cancel_work_def\<close>)
  obtain status where sn: "scan_identifiers ?d idents \<lparr>sn_coin = [], sn_pending = [], sn_lastStatus = None, sn_anySubmission = False\<rparr> =
      Inr \<lparr>sn_coin = order_coin ?d idents, sn_pending = pending, sn_lastStatus = status,
        sn_anySubmission = list_ex (\<lambda>i. live_action ?d i \<noteq> None) idents\<rparr>"
    using scan_identifiers_eq [OF ok, of idents "\<lparr>sn_coin = [], sn_pending = [], sn_lastStatus = None, sn_anySubmission = False\<rparr>"]
    by (auto simp: pending)
  have "idents = [] \<Longrightarrow> pending = []"
    by (simp add: pending)
  then show ?thesis
    using assms(3,7) FromHexString_nonempty [OF assms(3)] sn live emit
    by (auto simp: CancelOrderByOrderId_def idents [symmetric] Let_def split: if_splits)
qed

text \<open>A server that has recorded one create on one venue.\<close>

definition traded_storage :: Storage where
  "traded_storage = snd (RecordHyperliquidOrderRequest 5 (wk_Identifier sample_work) sample_create 0 fresh_storage)"

definition sample_cancel :: cancel_request where
  "sample_cancel = \<lparr>cq_OrderId = Hex (wk_OrderId sample_work), cq_VenueId = None, cq_DryRun = None, cq_Reason = None\<rparr>"

lemma traded_storage_reached: "storage_step fresh_storage traded_storage"
  unfolding traded_storage_def by (rule storage_step.create)

lemma fresh_tables: "db_submissions (sg_db fresh_storage) = [] \<and> db_statuses (sg_db fresh_storage) = []"
  by code_simp

lemma sample_ident [simp]: "ensureIdentifier (wk_Identifier sample_work) = wk_Identifier sample_work"
  by (rule ensureIdentifier_id) (simp_all add: sample_work_def)

lemma traded_rows:
  "db_submissions (sg_db traded_storage) = [create_row 5 (wk_Identifier sample_work) sample_create 0]"
  "db_statuses (sg_db traded_storage) = []"
  using fresh_tables by (simp_all add: traded_storage_def RecordHyperliquidOrderRequest_effect)

lemma traded_order:
  "ListSubmissionIdentifiersForOrder (wk_OrderId sample_work) (sg_db traded_storage) = [wk_Identifier sample_work]"
  "cancelable (sg_db traded_storage) (wk_Identifier sample_work)"
  "order_coin (sg_db traded_storage) [wk_Identifier sample_work] = ''DOGE''"
proof -
  have o: "oi_OrderId (wk_Identifier sample_work) = wk_OrderId sample_work"
    by (simp add: sample_work_def)
  have i: "NewOrderIdentifier (oi_VenueID (wk_Identifier sample_work)) (oi_Wallet (wk_Identifier sample_work)) (wk_OrderId sample_work) =
      wk_Identifier sample_work"
    by (simp add: sample_work_def NewOrderIdentifier_def)
  show "ListSubmissionIdentifiersForOrder (wk_OrderId sample_work) (sg_db traded_storage) = [wk_Identifier sample_work]"
    by (simp add: ListSubmissionIdentifiersForOrder_def traded_rows new_submission_def o append_identifier_def i Let_def)
  have a: "LoadHyperliquidSubmission (wk_Identifier sample_work) (sg_db traded_storage) =
      Inr (Some (row_action (create_row 5 (wk_Identifier sample_work) sample_create 0)))"
    using storage_sys.inv_step [OF storage_sys.inv_init [OF fresh_storage_init] traded_storage_reached]
    by (simp add: LoadHyperliquidSubmission_eq storage_ok_def db_ok_def traded_rows table_map_def fetch_def hs_key_new)
  moreover have "row_action (create_row 5 (wk_Identifier sample_work) sample_create 0) =
      zero_Action\<lparr>ac_Type := ActionCreate, ac_Create := sample_create\<rparr>"
    by (simp add: row_action_def new_submission_def action_type_of_def doc_value_def last_doc_def zero_Action_def)
  ultimately have l: "live_action (sg_db traded_storage) (wk_Identifier sample_work) =
      Some (zero_Action\<lparr>ac_Type := ActionCreate, ac_Create := sample_create\<rparr>)"
    by (simp add: live_action_def)
  have "cancel_coin (zero_Action\<lparr>ac_Type := ActionCreate, ac_Create := sample_create\<rparr>) = ''DOGE''"
    by code_simp
  then show "order_coin (sg_db traded_storage) [wk_Identifier sample_work] = ''DOGE''"
    using l by simp
  show "cancelable (sg_db traded_storage) (wk_Identifier sample_work)"
    using l by (simp add: cancelable_def LoadHyperliquidStatus_def loadLatestHyperliquidStatusLocked_def
        FetchLatestHyperliquidStatus_def traded_rows isCancelableStatus_def)
qed

theorem cancel_reaches_open_orders_witness:
  "\<exists>r. CancelOrderByOrderId (Some queue_Emit) sample_cancel (sample_server\<lparr>ah_store := traded_storage\<rparr>)
       (Register ''hl'' (Some ()) NewQueueEmitter) =
     ((202, r), (Register ''hl'' (Some ()) NewQueueEmitter)\<lparr>q := [manual_cancel_work (wk_OrderId sample_work) ''DOGE'' [] (wk_Identifier sample_work)]\<rparr>)"
proof -
  let ?h = "sample_server\<lparr>ah_store := traded_storage\<rparr>" and ?e = "Register ''hl'' (Some ()) NewQueueEmitter"
  obtain code r e' where c: "CancelOrderByOrderId (Some queue_Emit) sample_cancel ?h ?e = ((code, r), e')"
    by (metis prod.collapse)
  have id: "venue_filtered (cq_VenueId sample_cancel) (ListSubmissionIdentifiersForOrder (wk_OrderId sample_work) (sg_db (ah_store ?h))) =
      [wk_Identifier sample_work]"
    by (simp add: traded_order venue_filtered_def sample_cancel_def trimmed_def)
  have "code = 202 \<and> e' = ?e\<lparr>q := [manual_cancel_work (wk_OrderId sample_work) ''DOGE'' [] (wk_Identifier sample_work)]\<rparr>"
    using cancel_reaches_open_orders [OF fresh_storage_init _ _ id [symmetric] refl _ c] traded_storage_reached traded_order
    by (simp add: sample_cancel_def TrimSpace_Hex FromHexString_Hex trimmed_def r_into_rtranclp Register_def NewQueueEmitter_def emitterFor_def
        sample_work_def [THEN arg_cong [where f = "\<lambda>w. oi_VenueID (wk_Identifier w)"]])
  then show ?thesis
    using c by simp
qed

section \<open>Multipliers\<close>

text \<open>What is stored for a bot right after its override was written, and what the handler answers from it.\<close>

lemma override_stored:
  assumes "storage_ok s"
  obtains o' st s' where "UpsertBotOrderScalerOverride now b (Some m) notes actor s = (Inr o', s')"
    "ao_Multiplier o' = Some m" "ao_UpdatedBy o' = actor" "ao_Notes o' = notes" "ao_BotId o' = uint b" "storage_ok s'"
    "GetDefaultOrderScaler (sg_db s') = Inr st" "GetBotOrderScalerOverride b (sg_db s') = Inr (Some o')"
    "ResolveEffectiveOrderScalerConfig (bot_oid b) (sg_db s') =
       Inr \<lparr>ae_Default = st, ae_Multiplier = m, ae_OrderId = Hex (bot_oid b), ae_Override = Some o', ae_Source = OrderScalerSourceBotOverride\<rparr>"
proof -
  let ?r = "UpsertBotOrderScaler now b (Some m) notes actor s"
  have ok: "storage_ok (snd ?r)"
    by (rule UpsertBotOrderScaler_ok [OF assms])
  obtain stateRow where d: "GetOrderScaler_query (sg_db (snd ?r)) = Inr stateRow"
    using GetOrderScaler_total [OF ok] by blast
  have f: "\<exists>t. fetch bs_BotID (uint b) (db_bot_order_scalers (sg_db (snd ?r))) =
      Some \<lparr>bs_BotID = uint b, bs_Multiplier = Some m, bs_Notes = notes, bs_EffectiveFromUtc = t,
        bs_UpdatedAtUtc = to_UnixMilli now, bs_UpdatedBy = actor\<rparr>"
    by (auto simp: scaler_effects [OF assms] UpsertBotOrderScaler_query_def bot_scaler_rows.fetch_upsert split: option.splits)
  then obtain row where row: "GetBotOrderScaler_query (uint b) (sg_db (snd ?r)) = Inr row"
    "bs_BotID row = uint b" "bs_Multiplier row = Some m" "bs_Notes row = notes" "bs_UpdatedBy row = actor"
    by (auto simp: GetBotOrderScaler_query_def one_filter [where key = bs_BotID])
  note eff = scaler_effects(1) [OF assms, of now b "Some m" "notes" actor]
  have "fst ?r = Inr (convertBotOrderScaler row)"
    using row(1) [unfolded eff] d [unfolded eff] by (simp add: UpsertBotOrderScaler_def Let_def)
  then have "?r = (Inr (convertBotOrderScaler row), snd ?r)"
    by (metis prod.collapse)
  then have "UpsertBotOrderScalerOverride now b (Some m) notes actor s =
      (Inr (toAPIOrderScalerOverride (convertBotOrderScaler row)), snd ?r)"
    unfolding UpsertBotOrderScalerOverride_def by (metis id_apply map_prod_simp map_sum.simps(2))
  then show ?thesis
    by (rule that [of _ _ "toAPIOrderScalerState (convertOrderScaler stateRow)"])
      (use ok row d in \<open>simp_all add: toAPIOrderScalerOverride_def convertBotOrderScaler_def GetDefaultOrderScaler_def
        GetOrderScaler_def GetBotOrderScalerOverride_def GetBotOrderScaler_def ResolveEffectiveOrderScalerConfig_def
        ResolveEffectiveOrderScaler_def toAPIEffectiveOrderScaler_def bot_oid_def zero_OrderId_def Let_def\<close>)
qed

lemma normalizeBotID_Some: "normalizeBotID botId = Some b \<Longrightarrow> uint b = botId"
  by (auto simp: normalizeBotID_def uint_word_of_int take_bit_eq_mod split: if_splits)

lemma clamp_validated: "validateOrderScalerMultiplier h m \<Longrightarrow> clampOrderScalerMultiplier m (ah_orderScalerMaxMultiplier h) = m"
  by (auto simp: validateOrderScalerMultiplier_def clampOrderScalerMultiplier_def)

text \<open>
  A multiplier that is set is the multiplier that is in effect. With a session, a bot id and a multiplier that passes the
  check (positive, not above the maximum), setting the override answers 200, and reading it back gives the same answer: that very value,
  unclamped, as the bot's override, with the notes of the request and the name of the vault's user. A multiplier that fails the
  check is refused with 400 and changes nothing.
\<close>

theorem bot_multiplier_roundtrip:
  assumes "storage_init s0" and "storage_step\<^sup>*\<^sup>* s0 (ah_store h)" and "authorised cookie now h" and "normalizeBotID botId = Some b"
  shows "if validateOrderScalerMultiplier h m
    then \<exists>r h'. UpsertBotOrderScalerConfig cookie now botId (Some (m, nts)) h = ((200, Some r), h') \<and>
      GetBotOrderScalerConfig cookie now botId h' = ((200, Some r), h') \<and> sb_BotId r = botId \<and>
      em_Source (sb_Effective r) = OrderScalerSourceBotOverride \<and> em_Value (sb_Effective r) = m \<and>
      em_UpdatedBy (sb_Effective r) = resolveActor h \<and> em_Notes (sb_Effective r) = nts \<and> Option.bind (sb_Override r) ao_Multiplier = Some m
    else UpsertBotOrderScalerConfig cookie now botId (Some (m, nts)) h = ((400, None), h)"
proof (cases "validateOrderScalerMultiplier h m")
  case True
  have ok: "storage_ok (ah_store h)"
    by (rule storage_sys.inv_reachable [OF assms(1,2)])
  obtain o' st s' where u: "UpsertBotOrderScalerOverride now b (Some m) nts (resolveActor h) (ah_store h) = (Inr o', s')"
    "ao_Multiplier o' = Some m" "ao_UpdatedBy o' = resolveActor h" "ao_Notes o' = nts"
    "GetDefaultOrderScaler (sg_db s') = Inr st" "GetBotOrderScalerOverride b (sg_db s') = Inr (Some o')"
    "ResolveEffectiveOrderScalerConfig (bot_oid b) (sg_db s') =
       Inr \<lparr>ae_Default = st, ae_Multiplier = m, ae_OrderId = Hex (bot_oid b), ae_Override = Some o', ae_Source = OrderScalerSourceBotOverride\<rparr>"
    using override_stored [OF ok, of now b m nts "resolveActor h"] by blast
  have a: "authorised cookie now (h\<lparr>ah_store := s'\<rparr>)"
    using assms(3) by (simp add: authorised_def)
  show ?thesis
    using True u a assms(3,4) normalizeBotID_Some [OF assms(4)] clamp_validated [OF True]
    by (simp add: UpsertBotOrderScalerConfig_def GetBotOrderScalerConfig_def requireSession_ok bot_scaler_response_def
        buildOrderScalerEffectiveMultiplier_def Let_def)
qed (use assms(3,4) in \<open>simp add: UpsertBotOrderScalerConfig_def requireSession_ok\<close>)

definition debug_server :: ApiHandler where
  "debug_server = sample_server\<lparr>ah_debug := True\<rparr>"

theorem bot_multiplier_roundtrip_witness:
  "\<exists>r h'. UpsertBotOrderScalerConfig None 5 7 (Some (Fin 2, None)) debug_server = ((200, Some r), h') \<and>
     GetBotOrderScalerConfig None 5 7 h' = ((200, Some r), h') \<and> em_Value (sb_Effective r) = Fin 2"
proof -
  have "validateOrderScalerMultiplier debug_server (Fin 2)"
    by (simp add: validateOrderScalerMultiplier_def debug_server_def sample_server_def zero_f64_def)
  moreover have "storage_step\<^sup>*\<^sup>* fresh_storage (ah_store debug_server)" "authorised None 5 debug_server" "normalizeBotID 7 = Some 7"
    by (simp_all add: debug_server_def sample_server_def authorised_def normalizeBotID_def)
  ultimately show ?thesis
    using bot_multiplier_roundtrip [OF fresh_storage_init, where h = debug_server and cookie = None and now = 5 and botId = 7 and b = 7
        and m = "Fin 2" and nts = None]
    by (simp split: if_splits) blast
qed

section \<open>What the listing of orders shows\<close>

lemma orderRecordFromItem_Some:
  "it_BotEvent row = Some e \<Longrightarrow> \<exists>rec. orderRecordFromItem h row l = Some rec \<and> or_OrderId rec = Hex (it_OrderId row) \<and>
     or_ObservedAt rec = it_ObservedAt row \<and> ids_Hex (or_Identifiers rec) = Hex (it_OrderId row)"
  by (simp add: orderRecordFromItem_def makeOrderIdentifiers_def Let_def)

lemma decode_orders_event: "decode_orders rows = Inr items \<Longrightarrow> \<forall>p \<in> set items. it_BotEvent (snd p) \<noteq> None"
proof (induction rows arbitrary: items)
  case (Cons row rows)
  then show ?case
    by (cases "decode_orders rows") (auto split: sum.splits)
qed simp

lemma fill_item_event: "it_BotEvent (fill_item views p) = it_BotEvent (snd p)"
  by (auto simp: fill_item_def split: option.splits prod.splits)

lemma ListOrders_event:
  assumes "ListOrders iter sorter opts d = Inr (rows, nextToken)" "row \<in> set rows"
  shows "it_BotEvent row \<noteq> None"
  using assms decode_orders_event
  by (fastforce simp: ListOrders_def fill_item_event Let_def split: sum.splits if_splits prod.splits)

lemma buildOrderRecords_all:
  assumes "\<forall>row \<in> set rows. it_BotEvent row \<noteq> None"
  shows "map (\<lambda>r. (or_OrderId r, or_ObservedAt r)) (buildOrderRecords h rows l) =
    map (\<lambda>row. (Hex (it_OrderId row), it_ObservedAt row)) rows"
  using assms
proof (induction rows)
  case (Cons row rows)
  obtain e where "it_BotEvent row = Some e"
    using Cons.prems by auto
  from orderRecordFromItem_Some [OF this, of h l] Cons show ?case
    by (auto simp: buildOrderRecords_def List.map_filter_def)
qed (simp add: buildOrderRecords_def List.map_filter_def)

text \<open>
  The listing of orders shows the rows of the page, all of them and in their order. To a request that passes, the answer is 200 with
  one record per row of the storage's page, under the row's id and time and with the storage's next token, or 500 exactly when the storage
  fails; the page has at most 500 rows, 100 if no limit is asked for.
\<close>

theorem orders_page_shown:
  assumes "requireUnsealedSession cookie now h = (SessionOk, h')"
  shows "Api_ListOrders iter sorter cookie now p h =
      (case ListOrders iter sorter (orders_options p) (sg_db (ah_store h)) of
         Inl _ \<Rightarrow> ((500, None), h)
       | Inr (rows, nextToken) \<Rightarrow> ((200, Some (buildOrderRecords h rows (lp_IncludeLog p = Some True), nextToken)), h)) \<and>
    (case ListOrders iter sorter (orders_options p) (sg_db (ah_store h)) of
       Inl _ \<Rightarrow> True
     | Inr (rows, nextToken) \<Rightarrow>
         map (\<lambda>r. (or_OrderId r, or_ObservedAt r)) (buildOrderRecords h rows (lp_IncludeLog p = Some True)) =
         map (\<lambda>row. (Hex (it_OrderId row), it_ObservedAt row)) rows) \<and>
    0 < lo_Limit (orders_options p) \<and> lo_Limit (orders_options p) \<le> 500 \<and> (lp_Limit p = None \<longrightarrow> lo_Limit (orders_options p) = 100)"
proof -
  have h: "h' = h"
    using assms by (simp add: unsealed_session_ok)
  have l: "0 < clampPageSize n \<and> clampPageSize n \<le> 500 \<and> (n = None \<longrightarrow> clampPageSize n = 100)" for n
    by (auto simp: clampPageSize_def defaultPageSize_def maxPageSize_def split: option.splits)
  show ?thesis
    using l [of "lp_Limit p"] assms ListOrders_event [of iter sorter "orders_options p" "sg_db (ah_store h)"]
    by (auto simp: Api_ListOrders_def h orders_options_def intro!: buildOrderRecords_all split: sum.splits)
qed

definition sample_params :: ListOrdersParams where
  "sample_params = \<lparr>lp_OrderId = None, lp_BotId = None, lp_DealId = None, lp_BotEventId = None, lp_ObservedFrom = None,
     lp_ObservedTo = None, lp_IncludeLog = None, lp_Limit = None, lp_PageToken = None\<rparr>"

theorem orders_page_shown_witness:
  "Api_ListOrders id id None 5 sample_params
     (debug_server\<lparr>ah_vault := Some (snd (Unseal 5 sample_secrets None sealed_controller))\<rparr>) =
   ((200, Some ([], None)), debug_server\<lparr>ah_vault := Some (snd (Unseal 5 sample_secrets None sealed_controller))\<rparr>)"
proof -
  let ?h = "debug_server\<lparr>ah_vault := Some (snd (Unseal 5 sample_secrets None sealed_controller))\<rparr>"
  have "vc_state (snd (Unseal 5 sample_secrets None sealed_controller)) = StateUnsealed"
    by code_simp
  then have ok: "requireUnsealedSession None 5 ?h = (SessionOk, ?h)"
    by (simp add: unsealed_session_ok authorised_def debug_server_def)
  have "ListOrders id id (orders_options sample_params) (sg_db fresh_storage) = Inr ([], None)"
    by code_simp
  then have rows: "ListOrders id id (orders_options sample_params) (sg_db (ah_store ?h)) = Inr ([], None)"
    by (simp add: debug_server_def sample_server_def)
  show ?thesis
    using orders_page_shown [OF ok, of id id sample_params, unfolded rows]
    by (simp add: buildOrderRecords_def List.map_filter_def)
qed

end
