(* ===== verification/Http_Locks.thy ===== *)
theory Http_Locks
  imports Http_Props
begin

text \<open>
  Requests that overlap. A handler of \<^verbatim>\<open>internal/api/vault.go\<close> calls the vault controller and the session manager one after
  the other, and each call takes a lock of its own: a session that turns out to be over is dropped by \<^verbatim>\<open>Validate\<close>, then the vault is
  sealed, then the session is cleared; an unsealing first unseals the vault and then issues the session. Here these calls
  are the steps, and any number of requests may be between two of their calls.
\<close>

section \<open>Calls\<close>

text \<open>
  What a request has still to do: to seal the vault (and then to clear the session, after an expired token whatever
  \<^verbatim>\<open>Seal\<close> returns, otherwise only if it succeeds), to clear the session, or to issue one.
\<close>

datatype to_do = ToSeal bool | ToClear | ToIssue time

text \<open>\<open>lk_overlap\<close> remembers whether the vault was unsealed, since it was last sealed, while a session was still to be cleared.\<close>

record lock_server =
  lk_vault :: Controller
  lk_session :: vaultSessionManager
  lk_work :: "to_do list"
  lk_overlap :: bool

text \<open>
  A request to seal or to set up may arrive at any time; the checks before it are made under other locks and
  may be outdated when it acts. As before, the random source delivers.
\<close>

inductive lock_step :: "lock_server \<Rightarrow> lock_server \<Rightarrow> bool" where
  validate: "session_Validate token now (lk_session s) = ((valid, expired), m) \<Longrightarrow>
    lock_step s (s\<lparr>lk_session := m, lk_work := lk_work s @ (if \<not> valid \<and> expired then [ToSeal True] else [])\<rparr>)"
| seal_request: "lock_step s (s\<lparr>lk_work := lk_work s @ [ToSeal False]\<rparr>)"
| set_user: "lock_step s (s\<lparr>lk_vault := SetUser u (lk_vault s), lk_work := lk_work s @ [ToSeal False]\<rparr>)"
| seal: "lk_work s = as @ ToSeal over # bs \<Longrightarrow> Seal now (lk_vault s) = (e, v) \<Longrightarrow>
    lock_step s (s\<lparr>lk_vault := v, lk_work := as @ (if over \<or> e = None then [ToClear] else []) @ bs, lk_overlap := False\<rparr>)"
| clear: "lk_work s = as @ ToClear # bs \<Longrightarrow> lock_step s (s\<lparr>lk_session := session_Clear (lk_session s), lk_work := as @ bs\<rparr>)"
| unseal: "Unseal now secrets (Some expiry) (lk_vault s) = (None, v) \<Longrightarrow>
    lock_step s (s\<lparr>lk_vault := v, lk_work := lk_work s @ [ToIssue expiry],
      lk_overlap := (lk_overlap s \<or> ToClear \<in> set (lk_work s))\<rparr>)"
| issue: "lk_work s = as @ ToIssue expiry # bs \<Longrightarrow> length buf = vaultSessionTokenLength \<Longrightarrow>
    Issue (Some buf) expiry (lk_session s) = (Some token, m) \<Longrightarrow> lock_step s (s\<lparr>lk_session := m, lk_work := as @ bs\<rparr>)"
| login: "length buf = vaultSessionTokenLength \<Longrightarrow> Issue (Some buf) expiry (lk_session s) = (Some token, m) \<Longrightarrow>
    lock_step s (s\<lparr>lk_session := m\<rparr>)"

inductive_cases lock_stepE: "lock_step s t"

definition lock_init :: "lock_server \<Rightarrow> bool" where
  "lock_init s \<longleftrightarrow> vault_init (lk_vault s) \<and> vc_state (lk_vault s) \<noteq> StateUnsealed \<and> lk_session s = None \<and> lk_work s = [] \<and>
     \<not> lk_overlap s"

section \<open>The invariant\<close>

text \<open>The calls that are sure to bring vault and session back together.\<close>

fun repairing :: "to_do \<Rightarrow> bool" where
  "repairing (ToSeal over) = over"
| "repairing ToClear = False"
| "repairing (ToIssue _) = True"

definition lock_inv :: "lock_server \<Rightarrow> bool" where
  "lock_inv s \<longleftrightarrow> vault_inv (lk_vault s) \<and>
     (vc_state (lk_vault s) = StateUnsealed \<longrightarrow> lk_session s \<noteq> None \<or> list_ex repairing (lk_work s) \<or> lk_overlap s) \<and>
     (vc_state (lk_vault s) = StateUnsealed \<and> ToClear \<in> set (lk_work s) \<longrightarrow> lk_overlap s) \<and>
     (\<forall>ses. lk_session s = Some ses \<longrightarrow> length (ses_token ses) = 43)"

lemma Issue_session:
  "length buf = vaultSessionTokenLength \<Longrightarrow> Issue (Some buf) expiry m = (Some token, m') \<Longrightarrow>
     \<exists>ses. m' = Some ses \<and> length (ses_token ses) = 43"
  using token_length [of buf] by (auto simp: Issue_def Let_def split: if_splits)

lemma SetUser_state [simp]: "vc_state (SetUser u v) = vc_state v"
  by (simp add: SetUser_def)

lemma lock_inv_step:
  assumes "lock_step s t" and "lock_inv s"
  shows "lock_inv t"
  using assms
proof (cases rule: lock_step.cases)
  case (validate token now valid expired m)
  then show ?thesis
    using assms(2) by (auto simp: lock_inv_def session_Validate_def split: if_splits option.splits)
next
  case (seal as over bs now e v)
  have "vault_inv (lk_vault s)" using assms(2) by (simp add: lock_inv_def)
  then have "vault_inv v" "vc_state v = StateSealed"
    using vault_inv_Seal [of "lk_vault s" now] Seal_state [of "lk_vault s" now] seal(3) by simp_all
  then show ?thesis using assms(2) seal(1) by (simp add: lock_inv_def)
next
  case (unseal now secrets expiry v)
  have "vault_inv v" using vault_inv_Unseal [of "lk_vault s" now secrets "Some expiry"] assms(2) unseal(2) by (simp add: lock_inv_def)
  then show ?thesis using assms(2) unseal(1) by (auto simp: lock_inv_def)
next
  case (issue as expiry bs buf token m)
  then show ?thesis using assms(2) Issue_session [OF issue(3,4)] by (auto simp: lock_inv_def)
next
  case (login buf expiry token m)
  then show ?thesis using assms(2) Issue_session [OF login(2,3)] by (auto simp: lock_inv_def)
qed (use assms(2) in \<open>auto simp: lock_inv_def session_Clear_def vault_inv_SetUser\<close>)

interpretation lock_sys: invariant_system lock_init lock_step lock_inv
proof
  show "lock_init s \<Longrightarrow> lock_inv s" for s
    using vault.inv_init by (auto simp: lock_init_def lock_inv_def)
qed (rule lock_inv_step)

section \<open>Handlers are runs of their calls\<close>

abbreviation at_rest :: "Controller \<Rightarrow> vaultSessionManager \<Rightarrow> lock_server" where
  "at_rest v m \<equiv> \<lparr>lk_vault = v, lk_session = m, lk_work = [], lk_overlap = False\<rparr>"

text \<open>The vault and the session of a server are reached by calls from \<open>v\<close> and \<open>m\<close>, with none left over.\<close>

definition call_run :: "Controller \<Rightarrow> vaultSessionManager \<Rightarrow> ApiHandler \<Rightarrow> bool" where
  "call_run v m h \<longleftrightarrow> (\<exists>v' m'. ah_vault h = Some v' \<and> ah_session h = Some m' \<and> lock_step\<^sup>*\<^sup>* (at_rest v m) (at_rest v' m'))"

lemma seal_run: "vault_inv v \<Longrightarrow> lock_step\<^sup>*\<^sup>* (at_rest v m\<lparr>lk_work := [ToSeal over]\<rparr>) (at_rest (snd (Seal now v)) None)"
proof -
  assume "vault_inv v"
  then have e: "Seal now v = (None, snd (Seal now v))" using Seal_state [of v now] by (simp add: prod_eq_iff)
  have "lock_step (at_rest v m\<lparr>lk_work := [ToSeal over]\<rparr>) (at_rest (snd (Seal now v)) m\<lparr>lk_work := [ToClear]\<rparr>)"
    using lock_step.seal [of "at_rest v m\<lparr>lk_work := [ToSeal over]\<rparr>" "[]" over "[]" now None "snd (Seal now v)"] e by simp
  moreover have "lock_step (at_rest (snd (Seal now v)) m\<lparr>lk_work := [ToClear]\<rparr>) (at_rest (snd (Seal now v)) None)"
    using lock_step.clear [of "at_rest (snd (Seal now v)) m\<lparr>lk_work := [ToClear]\<rparr>" "[]" "[]"] by (simp add: session_Clear_def)
  ultimately show ?thesis by (meson converse_rtranclp_into_rtranclp rtranclp.rtrancl_refl)
qed

lemma lock_out_run:
  assumes "ah_vault h = Some v" and "ah_session h = Some m" and "vault_inv v"
    and "ah_vault h' = ah_vault (lock_out cookie now h)" and "ah_session h' = ah_session (lock_out cookie now h)"
  shows "call_run v m h'"
proof (cases "token_expired cookie now h")
  case True
  then obtain token where "session_Validate token now m = ((False, True), None)"
    using assms(2) that by (fastforce simp: token_expired_def session_Validate_def split: option.splits)
  from lock_step.validate [of token now "at_rest v m", simplified, OF this]
  have "lock_step (at_rest v m) (at_rest v None\<lparr>lk_work := [ToSeal True]\<rparr>)" by simp
  from converse_rtranclp_into_rtranclp [where r = lock_step, OF this seal_run [OF assms(3)]] True assms show ?thesis
    by (auto simp: lock_out_def call_run_def)
qed (use assms in \<open>auto simp: lock_out_def call_run_def\<close>)





context quiet_handler
begin

lemma keeps_run:
  assumes "ah_vault h = Some v" and "ah_session h = Some m" and "vault_inv v"
  shows "call_run v m (snd (handle cookie now h))"
  using lock_out_run [OF assms, of "snd (handle cookie now h)" cookie now] guards [of cookie now h] by blast

end








section \<open>Secrets and sessions\<close>

text \<open>
  C9: Secrets need a session. From a server whose vault is not unsealed, in every interleaving of the calls of any number of requests:
  secrets are held exactly as long as the vault is unsealed, and then there is a session, whose token is 43
  characters long, that is, encodes 32 random bytes; or a request that is still running is about to issue one, or
  about to seal the vault because it met an expired token; or, the one exception, the vault was unsealed again while a request that had
  sealed it was about to clear the session. With requests one after another none of these remains but the session.
\<close>

theorem secrets_need_session:
  assumes "lock_init s0" and "lock_step\<^sup>*\<^sup>* s0 s"
  shows "(get_Secrets (lk_vault s) \<noteq> None) = (vc_state (lk_vault s) = StateUnsealed) \<and>
    (get_Secrets (lk_vault s) \<noteq> None \<longrightarrow> (\<exists>ses. lk_session s = Some ses \<and> length (ses_token ses) = 43) \<or>
       list_ex repairing (lk_work s) \<or> lk_overlap s)"
  using lock_sys.inv_reachable [OF assms]
  by (fastforce simp: lock_inv_def vault_inv_def get_Secrets_def split: option.splits)

text \<open>Single calls, on a server written out.\<close>

abbreviation lock_at :: "Controller \<Rightarrow> vaultSessionManager \<Rightarrow> to_do list \<Rightarrow> bool \<Rightarrow> lock_server" where
  "lock_at v m ws ov \<equiv> \<lparr>lk_vault = v, lk_session = m, lk_work = ws, lk_overlap = ov\<rparr>"

definition sample_session :: vaultSession where
  "sample_session = \<lparr>ses_token = RawURLEncoding sample_entropy, ses_expiresAt = 100\<rparr>"

lemma sample_token: "length (ses_token sample_session) = 43"
  by (simp add: sample_session_def token_length sample_entropy_def vaultSessionTokenLength_def)

lemma issue_at: "lock_step (lock_at v m (as @ ToIssue 100 # bs) ov) (lock_at v (Some sample_session) (as @ bs) ov)"
  using lock_step.issue [of "lock_at v m (as @ ToIssue 100 # bs) ov" as 100 bs sample_entropy "RawURLEncoding sample_entropy"
      "Some sample_session"]
  by (simp add: Issue_def Let_def sample_entropy_def vaultSessionTokenLength_def zero_time_def sample_session_def)

lemma expired_at: "lock_step (lock_at v (Some sample_session) ws ov) (lock_at v None (ws @ [ToSeal True]) ov)"
proof -
  have "ses_token sample_session \<noteq> []" using sample_token by auto
  then have "session_Validate (ses_token sample_session) 101 (Some sample_session) = ((False, True), None)"
    by (simp add: session_Validate_def) (simp add: sample_session_def)
  from lock_step.validate [of "ses_token sample_session" 101 "lock_at v (Some sample_session) ws ov", simplified, OF this]
  show ?thesis by simp
qed

lemma seal_at:
  assumes "vault_inv v"
  obtains v' where "vault_inv v'" and "lock_step (lock_at v m (ToSeal True # bs) ov) (lock_at v' m (ToClear # bs) False)"
proof (rule that)
  show "lock_step (lock_at v m (ToSeal True # bs) ov) (lock_at (snd (Seal 101 v)) m (ToClear # bs) False)"
    using lock_step.seal [of "lock_at v m (ToSeal True # bs) ov" "[]" True bs 101 "fst (Seal 101 v)" "snd (Seal 101 v)"] by simp
qed (rule vault_inv_Seal [OF assms])

lemma unseal_at:
  assumes "vault_inv v"
  obtains v' where "vault_inv v'" and "vc_state v' = StateUnsealed"
    and "lock_step (lock_at v m ws ov) (lock_at v' m (ws @ [ToIssue 100]) (ov \<or> ToClear \<in> set ws))"
proof -
  have "list_ex vs_Primary (Venues (sc_Secrets sample_secrets))"
    by (simp add: sample_secrets_def sample_data_def sample_venue_def)
  from Unseal_result [OF assms this, of 5 "Some 100"] obtain v' where
    v': "Unseal 5 sample_secrets (Some 100) v = (None, v')" "vault_inv v'" "vc_state v' = StateUnsealed" by blast
  from lock_step.unseal [of 5 sample_secrets 100 "lock_at v m ws ov", simplified, OF v'(1)] show thesis
    by (rule that [OF v'(2,3)])
qed

lemma clear_at: "lock_step (lock_at v m (ToClear # bs) ov) (lock_at v None bs ov)"
  using lock_step.clear [of "lock_at v m (ToClear # bs) ov" "[]" bs] by (simp add: session_Clear_def)

lemma lock_init_sample: "lock_init (lock_at sealed_controller None [] False)"
  using sealed_controller_init by (simp add: lock_init_def sealed_controller_def NewController_def)

lemma unsealed_secrets: "vault_inv v \<Longrightarrow> vc_state v = StateUnsealed \<Longrightarrow> get_Secrets v \<noteq> None"
  by (auto simp: vault_inv_def get_Secrets_def split: option.splits)

theorem secrets_need_session_witness:
  "\<exists>v. lock_step\<^sup>*\<^sup>* (lock_at sealed_controller None [] False) (lock_at v (Some sample_session) [] False) \<and>
     get_Secrets v \<noteq> None \<and> length (ses_token sample_session) = 43"
proof -
  obtain v where v: "vault_inv v" "vc_state v = StateUnsealed"
    "lock_step (lock_at sealed_controller None [] False) (lock_at v None ([] @ [ToIssue 100]) (False \<or> ToClear \<in> set []))"
    by (rule unseal_at [OF vault.inv_init [OF sealed_controller_init]])
  with issue_at [of v None "[]" "[]" False]
  have run: "lock_step\<^sup>*\<^sup>* (lock_at sealed_controller None [] False) (lock_at v (Some sample_session) [] False)"
    by (simp add: converse_rtranclp_into_rtranclp [where r = lock_step])
  from secrets_need_session [OF lock_init_sample this] v run show ?thesis by auto
qed

text \<open>
  The exception occurs. An expired token is presented; the vault is sealed; before the session is cleared, somebody else unseals
  the vault and gets a session; then the session is cleared. Nothing is left to do, the secrets are held, and no
  token is good.
\<close>

theorem seal_unseal_race:
  "\<exists>v. lock_step\<^sup>*\<^sup>* (lock_at sealed_controller None [] False) (lock_at v None [] True) \<and> get_Secrets v \<noteq> None"
proof -
  obtain v1 where 1: "vault_inv v1"
    "lock_step (lock_at sealed_controller None [] False) (lock_at v1 None ([] @ [ToIssue 100]) (False \<or> ToClear \<in> set []))"
    by (rule unseal_at [OF vault.inv_init [OF sealed_controller_init]])
  note 2 = issue_at [of v1 None "[]" "[]" False] and 3 = expired_at [of v1 "[]" False]
  obtain v2 where 4: "vault_inv v2" "lock_step (lock_at v1 None (ToSeal True # []) False) (lock_at v2 None (ToClear # []) False)"
    by (rule seal_at [OF 1(1)])
  obtain v3 where 5: "vault_inv v3" "vc_state v3 = StateUnsealed"
    "lock_step (lock_at v2 None [ToClear] False) (lock_at v3 None ([ToClear] @ [ToIssue 100]) (False \<or> ToClear \<in> set [ToClear]))"
    by (rule unseal_at [OF 4(1)])
  note 6 = issue_at [of v3 None "[ToClear]" "[]" True] and 7 = clear_at [of v3 "Some sample_session" "[]" True]
  note steps = 1(2) 2 3 4(2) 5(3) 6 7
  have "lock_step\<^sup>*\<^sup>* (lock_at sealed_controller None [] False) (lock_at v3 None [] True)"
    by (rule converse_rtranclp_into_rtranclp [where r = lock_step] rtranclp.rtrancl_refl
        steps [simplified])+
  with unsealed_secrets [OF 5(1,2)] show ?thesis by blast
qed

end
