(* ===== verification/Workers.thy ===== *)
theory Workers
  imports Engine_Props Emitter
begin

text \<open>
  \<^verbatim>\<open>cmd/recomma/workers.go\<close>: what a worker does with the item it took from a queue.

  The queues are those of \<^verbatim>\<open>k8s.io/client-go/util/workqueue\<close>, which is not part of this program: a
  worker is a function from the outcome of its handler and the number of requeues the queue reports
  to the calls it makes on the queue, in their order, the deferred \<^verbatim>\<open>Done\<close> last. Its counter is the
  parameter \<open>num\<close>, a function of the calls made so far; \<open>counts_requeues\<close> is what its
  documentation says about it. \<^verbatim>\<open>errors.Is\<close> against the errors of the context looks
  through the errors of the SDKs, so that \<open>canceled\<close> and \<open>timed_out\<close> are parameters as well.
\<close>

datatype 'k queue_call = AddRateLimited 'k | Forget 'k | Done 'k

primrec call_item :: "'k queue_call \<Rightarrow> 'k" where
  "call_item (AddRateLimited k) = k"
| "call_item (Forget k) = k"
| "call_item (Done k) = k"

text \<open>
  The number of requeues of an item: one more with every rate-limited addition, none after
  \<^verbatim>\<open>Forget\<close>, and the same after \<^verbatim>\<open>Done\<close> and after calls for other items.
\<close>

definition counts_requeues :: "('k queue_call list \<Rightarrow> 'k \<Rightarrow> nat) \<Rightarrow> bool" where
  "counts_requeues num \<longleftrightarrow>
     (\<forall>k. num [] k = 0) \<and> (\<forall>h k. num (h @ [AddRateLimited k]) k = Suc (num h k)) \<and> (\<forall>h k. num (h @ [Forget k]) k = 0) \<and>
     (\<forall>h k. num (h @ [Done k]) k = num h k) \<and> (\<forall>h c k. call_item c \<noteq> k \<longrightarrow> num (h @ [c]) k = num h k)"

section \<open>The deal worker\<close>

text \<open>\<^verbatim>\<open>handle\<close> is \<^verbatim>\<open>HandleDeal\<close> of the engine.\<close>

definition deal_calls :: "('e \<Rightarrow> bool) \<Rightarrow> ('e \<Rightarrow> bool) \<Rightarrow> nat \<Rightarrow> 'k \<Rightarrow> 'e option \<Rightarrow> 'k queue_call list" where
  "deal_calls canceled not_cached requeues wi outcome =
     (case outcome of
        Some err \<Rightarrow>
          if canceled err then [Forget wi, Done wi]
          else if not_cached err then [AddRateLimited wi, Done wi]
          else if requeues < 5 then [AddRateLimited wi, Done wi]
          else [Forget wi, Done wi]
      | None \<Rightarrow> [Forget wi, Done wi])"

definition processWorkItem ::
  "('k queue_call list \<Rightarrow> 'k \<Rightarrow> nat) \<Rightarrow> ('e \<Rightarrow> bool) \<Rightarrow> ('e \<Rightarrow> bool) \<Rightarrow> ('k \<Rightarrow> 's \<Rightarrow> 'e option \<times> 's)
    \<Rightarrow> 'k \<Rightarrow> 'k queue_call list \<times> 's \<Rightarrow> 'k queue_call list \<times> 's" where
  "processWorkItem num canceled not_cached handle wi hs =
     (case hs of (h, s) \<Rightarrow>
        (case handle wi s of
           (outcome, s) \<Rightarrow> (h @ deal_calls canceled not_cached (num h wi) wi outcome, s)))"

text \<open>A worker takes items until the queue is shut down; \<open>gets\<close> are the items it is given.\<close>

fun runWorker ::
  "('k queue_call list \<Rightarrow> 'k \<Rightarrow> nat) \<Rightarrow> ('e \<Rightarrow> bool) \<Rightarrow> ('e \<Rightarrow> bool) \<Rightarrow> ('k \<Rightarrow> 's \<Rightarrow> 'e option \<times> 's)
    \<Rightarrow> 'k list \<Rightarrow> 'k queue_call list \<times> 's \<Rightarrow> 'k queue_call list \<times> 's" where
  "runWorker num canceled not_cached handle [] hs = hs"
| "runWorker num canceled not_cached handle (wi # gets) hs =
     runWorker num canceled not_cached handle gets (processWorkItem num canceled not_cached handle wi hs)"

section \<open>The order worker\<close>

definition discarded :: "emit_error \<Rightarrow> bool" where
  "discarded err \<longleftrightarrow>
     (case err of ErrMissingOrderIdentifier \<Rightarrow> True | ErrUnregisteredVenueEmitter _ \<Rightarrow> True | ErrOrderIdentifierMismatch \<Rightarrow> True
      | _ \<Rightarrow> False)"

definition order_calls :: "(emit_error \<Rightarrow> bool) \<Rightarrow> nat \<Rightarrow> 'k \<Rightarrow> emit_error option \<Rightarrow> 'k queue_call list" where
  "order_calls timed_out requeues w outcome =
     (case outcome of
        Some err \<Rightarrow>
          if err = ErrOrderAlreadySatisfied then [Forget w, Done w]
          else if timed_out err then [AddRateLimited w, Done w]
          else if discarded err then [Forget w, Done w]
          else if requeues < 5 then [AddRateLimited w, Done w]
          else [Forget w, Done w]
      | None \<Rightarrow> [Forget w, Done w])"

definition processOrderItem ::
  "(OrderWork queue_call list \<Rightarrow> OrderWork \<Rightarrow> nat) \<Rightarrow> (emit_error \<Rightarrow> bool) \<Rightarrow> ('e \<Rightarrow> OrderWork \<Rightarrow> 's \<Rightarrow> emit_error option \<times> 's)
    \<Rightarrow> 'e QueueEmitter \<Rightarrow> OrderWork \<Rightarrow> OrderWork queue_call list \<times> 's \<Rightarrow> OrderWork queue_call list \<times> 's" where
  "processOrderItem num timed_out run dispatcher w hs =
     (case hs of (h, s) \<Rightarrow>
        (case Dispatch run w dispatcher s of
           (outcome, s) \<Rightarrow> (h @ order_calls timed_out (num h w) w outcome, s)))"

fun runOrderWorker ::
  "(OrderWork queue_call list \<Rightarrow> OrderWork \<Rightarrow> nat) \<Rightarrow> (emit_error \<Rightarrow> bool) \<Rightarrow> ('e \<Rightarrow> OrderWork \<Rightarrow> 's \<Rightarrow> emit_error option \<times> 's)
    \<Rightarrow> 'e QueueEmitter \<Rightarrow> OrderWork list \<Rightarrow> OrderWork queue_call list \<times> 's \<Rightarrow> OrderWork queue_call list \<times> 's" where
  "runOrderWorker num timed_out run dispatcher [] hs = hs"
| "runOrderWorker num timed_out run dispatcher (w # gets) hs =
     runOrderWorker num timed_out run dispatcher gets (processOrderItem num timed_out run dispatcher w hs)"

section \<open>Retries\<close>

text \<open>
  The queue hands an item out again after each rate-limited addition. \<open>retry\<close> follows one item for at
  most \<open>fuel\<close> attempts and counts them.
\<close>

definition requeued :: "'k \<Rightarrow> 'k queue_call list \<Rightarrow> bool" where
  "requeued k h \<longleftrightarrow> drop (length h - 2) h = [AddRateLimited k, Done k]"

fun retry :: "('k queue_call list \<times> 's \<Rightarrow> 'k queue_call list \<times> 's) \<Rightarrow> 'k \<Rightarrow> nat \<Rightarrow> 'k queue_call list \<times> 's
    \<Rightarrow> nat \<times> 'k queue_call list \<times> 's" where
  "retry process k 0 hs = (0, hs)"
| "retry process k (Suc fuel) hs =
     (let hs' = process hs
      in if requeued k (fst hs') then map_prod Suc id (retry process k fuel hs') else (1, hs'))"

text \<open>The outcome of the \<open>i\<close>-th attempt, counted from 0, when each starts where the one before ended.\<close>

definition outcome_at :: "('s \<Rightarrow> 'e option \<times> 's) \<Rightarrow> 's \<Rightarrow> nat \<Rightarrow> 'e option" where
  "outcome_at handle s i = fst (handle (((\<lambda>s. snd (handle s)) ^^ i) s))"

lemma outcome_at_Suc [simp]: "outcome_at handle s (Suc i) = outcome_at handle (snd (handle s)) i"
  using funpow_swap1 [of "\<lambda>s. snd (handle s)" i s] by (simp add: outcome_at_def)

lemma outcome_at_0 [simp]: "outcome_at handle s 0 = fst (handle s)"
  by (simp add: outcome_at_def)

lemma requeued_snoc [simp]:
  "requeued k (h @ [AddRateLimited k, Done k])" "\<not> requeued k (h @ [Forget k, Done k])"
  by (simp_all add: requeued_def)

text \<open>
  Both workers follow the same scheme: an outcome either settles the item, depending on how often it was requeued
  already, and it is forgotten, or the item is added again.
\<close>

locale retry_policy =
  fixes calls :: "nat \<Rightarrow> 'k \<Rightarrow> 'e option \<Rightarrow> 'k queue_call list"
    and settles :: "nat \<Rightarrow> 'e option \<Rightarrow> bool"
  assumes calls_eq: "calls n k r = (if settles n r then [Forget k, Done k] else [AddRateLimited k, Done k])"
begin

lemma retry_result:
  assumes "counts_requeues num"
    and "\<And>h s. process (h, s) = (h @ calls (num h k) k (fst (handle s)), snd (handle s))"
    and "retry process k fuel (h, s) = (n, h', s')"
  shows "s' = ((\<lambda>s. snd (handle s)) ^^ n) s \<and> n \<le> fuel \<and>
    (\<forall>i. Suc i < n \<longrightarrow> \<not> settles (num h k + i) (outcome_at handle s i)) \<and>
    (0 < n \<longrightarrow> requeued k h' = (\<not> settles (num h k + (n - 1)) (outcome_at handle s (n - 1))) \<and>
       h' = h @ concat (replicate (n - 1) [AddRateLimited k, Done k]) @
         (if requeued k h' then [AddRateLimited k, Done k] else [Forget k, Done k])) \<and>
    (n < fuel \<longrightarrow> 0 < n \<and> \<not> requeued k h')"
  using assms(3)
proof (induction fuel arbitrary: h s n)
  case (Suc fuel)
  let ?h = "h @ calls (num h k) k (fst (handle s))" and ?s = "snd (handle s)"
  show ?case
  proof (cases "settles (num h k) (fst (handle s))")
    case True
    then show ?thesis
      using Suc.prems by (auto simp: assms(2) calls_eq Let_def)
  next
    case False
    then obtain m where m: "retry process k fuel (?h, ?s) = (m, h', s')" "n = Suc m"
      using Suc.prems by (cases "retry process k fuel (?h, ?s)") (auto simp: assms(2) calls_eq Let_def)
    have "num ((h @ [AddRateLimited k]) @ [Done k]) k = Suc (num h k)"
      using assms(1) by (simp only: counts_requeues_def)
    then have num: "num ?h k = Suc (num h k)"
      using False by (simp add: calls_eq)
    note IH = Suc.IH [OF m(1), unfolded num]
    have "\<not> settles (num h k + i) (outcome_at handle s i)" if "Suc i < n" for i
      using that IH False m(2) by (cases i) auto
    moreover have "requeued k h' = (\<not> settles (num h k + m) (outcome_at handle s m)) \<and>
        h' = h @ concat (replicate m [AddRateLimited k, Done k]) @
          (if requeued k h' then [AddRateLimited k, Done k] else [Forget k, Done k])"
    proof (cases m)
      case 0
      then have "h' = ?h" using m(1) by (cases fuel) (auto simp: Let_def map_prod_def split: if_splits prod.splits)
      with 0 False show ?thesis by (simp add: calls_eq)
    next
      case (Suc j)
      with IH False show ?thesis by (auto simp: calls_eq)
    qed
    moreover have "((\<lambda>s. snd (handle s)) ^^ n) s = ((\<lambda>s. snd (handle s)) ^^ m) (snd (handle s))"
      using funpow_swap1 [of "\<lambda>s. snd (handle s)" m s] m(2) by simp
    ultimately show ?thesis
      using IH m(2) by auto
  qed
qed simp

text \<open>Where the policy gives up after \<open>cap\<close> requeues, so does every run.\<close>

lemma retry_capped:
  assumes "counts_requeues num"
    and "\<And>h s. process (h, s) = (h @ calls (num h k) k (fst (handle s)), snd (handle s))"
    and "retry process k fuel (h, s) = (n, h', s')" and "num h k = 0"
    and "settles cap (outcome_at handle s cap)" and "cap < fuel"
  shows "n \<le> Suc cap \<and> 0 < n \<and> \<not> requeued k h' \<and>
    h' = h @ concat (replicate (n - 1) [AddRateLimited k, Done k]) @ [Forget k, Done k]"
proof -
  note r = retry_result [OF assms(1-3), unfolded assms(4)]
  have "n \<le> Suc cap"
    using r assms(5) by (metis add_0 not_less_eq_eq Suc_le_lessD)
  moreover have "n < fuel \<or> n = Suc cap"
    using calculation assms(6) r by linarith
  ultimately have "0 < n \<and> \<not> requeued k h'"
    using r assms(5) by auto
  with r \<open>n \<le> Suc cap\<close> show ?thesis
    by simp
qed

end

definition deal_settles :: "('e \<Rightarrow> bool) \<Rightarrow> ('e \<Rightarrow> bool) \<Rightarrow> nat \<Rightarrow> 'e option \<Rightarrow> bool" where
  "deal_settles canceled not_cached n r \<longleftrightarrow>
     (case r of None \<Rightarrow> True | Some err \<Rightarrow> canceled err \<or> \<not> not_cached err \<and> 5 \<le> n)"

definition order_settles :: "(emit_error \<Rightarrow> bool) \<Rightarrow> nat \<Rightarrow> emit_error option \<Rightarrow> bool" where
  "order_settles timed_out n r \<longleftrightarrow>
     (case r of None \<Rightarrow> True | Some err \<Rightarrow> err = ErrOrderAlreadySatisfied \<or> \<not> timed_out err \<and> (discarded err \<or> 5 \<le> n))"

interpretation deal_retries: retry_policy "deal_calls canceled not_cached" "deal_settles canceled not_cached"
  for canceled not_cached :: "'e \<Rightarrow> bool"
  by unfold_locales (auto simp: deal_calls_def deal_settles_def split: option.splits)

interpretation order_retries: retry_policy "order_calls timed_out" "order_settles timed_out" for timed_out
  by unfold_locales (auto simp: order_calls_def order_settles_def split: option.splits)

section \<open>Properties\<close>

text \<open>A counter of the documented kind.\<close>

definition requeue_count :: "'k queue_call list \<Rightarrow> 'k \<Rightarrow> nat" where
  "requeue_count h k =
     foldl (\<lambda>n c. if call_item c \<noteq> k then n else case c of AddRateLimited _ \<Rightarrow> Suc n | Forget _ \<Rightarrow> 0 | Done _ \<Rightarrow> n) 0 h"

lemma requeue_count_counts: "counts_requeues requeue_count"
  by (simp add: counts_requeues_def requeue_count_def)

text \<open>
  C36: A deal is tried at most six times in a row. Following an item from a clean count, whatever the handler does: every
  attempt but the last failed, with an error that was not a cancellation, and with \<^verbatim>\<open>ErrDealNotCached\<close> from the sixth on;
  and unless the sixth attempt fails with \<^verbatim>\<open>ErrDealNotCached\<close>, it ends after at most six of them, the queue having been told to
  add the item again and that it is done after each but the last, and to forget it and that it is done after the last.
\<close>

theorem deal_work_settles:
  assumes "counts_requeues num" and "num h wi = 0"
    and "retry (processWorkItem num canceled not_cached handle wi) wi fuel (h, s) = (n, h', s')"
  shows "s' = ((\<lambda>s. snd (handle wi s)) ^^ n) s \<and>
    (\<forall>i. Suc i < n \<longrightarrow> (\<exists>err. outcome_at (handle wi) s i = Some err \<and> \<not> canceled err \<and> (not_cached err \<or> i < 5))) \<and>
    (6 \<le> fuel \<and> (\<forall>err. outcome_at (handle wi) s 5 = Some err \<longrightarrow> \<not> not_cached err) \<longrightarrow>
       0 < n \<and> n \<le> 6 \<and> h' = h @ concat (replicate (n - 1) [AddRateLimited wi, Done wi]) @ [Forget wi, Done wi])"
proof -
  have p: "processWorkItem num canceled not_cached handle wi (h, s) =
      (h @ deal_calls canceled not_cached (num h wi) wi (fst (handle wi s)), snd (handle wi s))" for h s
    by (simp add: processWorkItem_def split: prod.split)
  have r: "s' = ((\<lambda>s. snd (handle wi s)) ^^ n) s \<and>
      (\<forall>i. Suc i < n \<longrightarrow> \<not> deal_settles canceled not_cached i (outcome_at (handle wi) s i))"
    using deal_retries.retry_result [OF assms(1) p assms(3)] assms(2) by simp
  have c: "0 < n \<and> n \<le> 6 \<and> h' = h @ concat (replicate (n - 1) [AddRateLimited wi, Done wi]) @ [Forget wi, Done wi]"
    if "6 \<le> fuel" "\<forall>err. outcome_at (handle wi) s 5 = Some err \<longrightarrow> \<not> not_cached err"
    using deal_retries.retry_capped [OF assms(1) p assms(3,2), of 5] that by (auto simp: deal_settles_def split: option.splits)
  show ?thesis
    using r c by (fastforce simp: deal_settles_def split: option.splits)
qed

definition failing_deal :: "WorkKey \<Rightarrow> nat \<Rightarrow> engine_error option \<times> nat" where
  "failing_deal wi n = (Some (GetDealFailed ''boom''), Suc n)"

definition deal_run :: "nat \<times> WorkKey queue_call list \<times> nat" where
  "deal_run = retry (processWorkItem requeue_count (\<lambda>_. False) (\<lambda>_. False) failing_deal \<lparr>wi_DealID = 7, wi_BotID = 1\<rparr>)
     \<lparr>wi_DealID = 7, wi_BotID = 1\<rparr> 10 ([], 0)"

theorem deal_work_settles_witness:
  "fst deal_run = 6 \<and> snd (snd deal_run) = 6 \<and>
   last (butlast (fst (snd deal_run))) = Forget \<lparr>wi_DealID = 7, wi_BotID = 1\<rparr>"
proof -
  have n: "fst deal_run = 6"
    by code_simp
  then have run: "deal_run = (6, fst (snd deal_run), snd (snd deal_run))"
    by (simp flip: n)
  have c: "requeue_count [] (\<lparr>wi_DealID = 7, wi_BotID = 1\<rparr> :: WorkKey) = 0"
    by (simp add: requeue_count_def)
  show ?thesis
    using deal_work_settles [OF requeue_count_counts c deal_run_def [symmetric, THEN trans, OF run]] n
    by (simp add: failing_deal_def [abs_def] butlast_append)
qed

text \<open>
  C35: An order is dispatched at most six times in a row, and again only where that makes sense. From a clean count: every
  dispatch but the last failed, with a timeout or with an error that neither says that there is nothing to do nor
  that the work can never be dispatched; unless the sixth one times out, there are at most six, the queue having been told
  to add the work again after each but the last and to forget it after the last. Work for a venue without an emitter is forgotten at
  once, with no effect.
\<close>

theorem order_work_settles:
  assumes "counts_requeues num" and "num h w = 0"
    and "retry (processOrderItem num timed_out run dispatcher w) w fuel (h, s) = (n, h', s')"
  shows "s' = ((\<lambda>s. snd (Dispatch run w dispatcher s)) ^^ n) s \<and>
    (\<forall>i. Suc i < n \<longrightarrow> (\<exists>err. outcome_at (Dispatch run w dispatcher) s i = Some err \<and> err \<noteq> ErrOrderAlreadySatisfied \<and>
       (timed_out err \<or> \<not> discarded err \<and> i < 5))) \<and>
    (6 \<le> fuel \<and> (\<forall>err. outcome_at (Dispatch run w dispatcher) s 5 = Some err \<longrightarrow> \<not> timed_out err) \<longrightarrow>
       0 < n \<and> n \<le> 6 \<and> h' = h @ concat (replicate (n - 1) [AddRateLimited w, Done w]) @ [Forget w, Done w]) \<and>
    (0 < fuel \<and> wk_Identifier w \<noteq> zero_OrderIdentifier \<and> emitterFor (oi_VenueID (wk_Identifier w)) dispatcher = None \<and>
       (\<forall>venue. \<not> timed_out (ErrUnregisteredVenueEmitter venue)) \<longrightarrow> n = 1 \<and> s' = s \<and> h' = h @ [Forget w, Done w])"
proof -
  have p: "processOrderItem num timed_out run dispatcher w (h, s) =
      (h @ order_calls timed_out (num h w) w (fst (Dispatch run w dispatcher s)), snd (Dispatch run w dispatcher s))" for h s
    by (simp add: processOrderItem_def split: prod.split)
  have r: "s' = ((\<lambda>s. snd (Dispatch run w dispatcher s)) ^^ n) s \<and>
      (\<forall>i. Suc i < n \<longrightarrow> \<not> order_settles timed_out i (outcome_at (Dispatch run w dispatcher) s i))"
    using order_retries.retry_result [OF assms(1) p assms(3)] assms(2) by simp
  have c: "0 < n \<and> n \<le> 6 \<and> h' = h @ concat (replicate (n - 1) [AddRateLimited w, Done w]) @ [Forget w, Done w]"
    if "6 \<le> fuel" "\<forall>err. outcome_at (Dispatch run w dispatcher) s 5 = Some err \<longrightarrow> \<not> timed_out err"
    using order_retries.retry_capped [OF assms(1) p assms(3,2), of 5] that by (auto simp: order_settles_def split: option.splits)
  have u: "n = 1 \<and> s' = s \<and> h' = h @ [Forget w, Done w]"
    if "0 < fuel" "wk_Identifier w \<noteq> zero_OrderIdentifier" "emitterFor (oi_VenueID (wk_Identifier w)) dispatcher = None"
      "\<forall>venue. \<not> timed_out (ErrUnregisteredVenueEmitter venue)"
    using that assms(3) by (cases fuel) (auto simp: p Let_def Dispatch_def order_calls_def discarded_def)
  show ?thesis
    using r c u by (fastforce simp: order_settles_def split: option.splits)
qed

definition order_run :: "nat \<times> OrderWork queue_call list \<times> nat" where
  "order_run = retry (processOrderItem requeue_count (\<lambda>_. False) (\<lambda>_ _ n. (Some (CouldNotPlace ''boom''), Suc n))
     (Register ''hl'' (Some ()) NewQueueEmitter) sample_work) sample_work 10 ([], 0)"

theorem order_work_settles_witness:
  "fst order_run = 6 \<and> snd (snd order_run) = 6 \<and> last (butlast (fst (snd order_run))) = Forget sample_work"
proof -
  have d: "Dispatch run sample_work (Register ''hl'' (Some em) NewQueueEmitter) = run em sample_work"
    for run :: "unit \<Rightarrow> OrderWork \<Rightarrow> nat \<Rightarrow> emit_error option \<times> nat" and em
    by (rule ext) (simp add: Dispatch_def sample_work_def Register_def NewQueueEmitter_def emitterFor_def zero_OrderIdentifier_def)
  have c: "requeue_count [] sample_work = 0"
    by (simp add: requeue_count_def)
  have n: "fst order_run = 6"
    by code_simp
  then have run: "order_run = (6, fst (snd order_run), snd (snd order_run))"
    by (simp flip: n)
  show ?thesis
    using order_work_settles [OF requeue_count_counts c order_run_def [symmetric, THEN trans, OF run]] n
    by (simp add: d butlast_append)
qed

end
