(* ===== verification/Price_Feed.thy ===== *)
theory Price_Feed
  imports Event_Stream Constraints
begin

text \<open>
  The prices of \<^verbatim>\<open>hl/ws/ws.go\<close>: the websocket client's latest best bids and offers, and their fan-out to the
  subscribers of a coin.

  A subscription of the venue is a parameter that says whether the SDK accepts it. The channel of a subscriber is
  known by its coin and its id, since a topic is never replaced. The step relation interleaves the subscribers, which
  register under the topic's lock, look up the latest price and send it to themselves without the lock, and after
  their cancellation first leave the topic and then close the channel; the callbacks of the venue, which store a price
  and then send it to one subscriber after the other under the read lock; and the readers.
\<close>

section \<open>The client\<close>

definition httpToWsURL :: "string \<Rightarrow> string" where
  "httpToWsURL apiURL =
     (if apiURL = [] then []
      else if HasPrefix apiURL ''https://'' then ''wss://'' @ TrimPrefix apiURL ''https://''
      else if HasPrefix apiURL ''http://'' then ''ws://'' @ TrimPrefix apiURL ''http://''
      else apiURL)"

definition normalizeCoin :: "string \<Rightarrow> string" where
  "normalizeCoin coin = ToUpper (TrimSpace coin)"

record bboTopic =
  bt_subs :: "int list"
  bt_nextID :: int

definition newBBOTopic :: bboTopic where
  "newBBOTopic = \<lparr>bt_subs = [], bt_nextID = 0\<rparr>"

text \<open>\<open>wc_feeds\<close> are the coins whose prices the venue agreed to send.\<close>

record ws_Client =
  wc_subscriptions :: "string list"
  wc_feeds :: "string list"
  wc_coinBbos :: "string \<rightharpoonup> BestBidOffer"
  wc_bboTopics :: "string \<rightharpoonup> bboTopic"
  wc_chans :: "string \<times> int \<rightharpoonup> BestBidOffer chan"
  wc_panicked :: bool

definition ws_New :: ws_Client where
  "ws_New = \<lparr>wc_subscriptions = [''orderUpdates''], wc_feeds = [], wc_coinBbos = Map.empty, wc_bboTopics = Map.empty,
     wc_chans = Map.empty, wc_panicked = False\<rparr>"

text \<open>The subscription is stored whether or not the venue accepted it.\<close>

definition EnsureBBO :: "(string \<Rightarrow> bool) \<Rightarrow> string \<Rightarrow> ws_Client \<Rightarrow> ws_Client" where
  "EnsureBBO accepts coin0 c =
     (let coin = normalizeCoin coin0 in
      if coin = [] then c
      else if coin \<in> set (wc_subscriptions c) then c
      else c\<lparr>wc_feeds := (if accepts coin then wc_feeds c @ [coin] else wc_feeds c),
             wc_subscriptions := wc_subscriptions c @ [coin]\<rparr>)"

definition ensureBBOTopic :: "string \<Rightarrow> ws_Client \<Rightarrow> ws_Client" where
  "ensureBBOTopic coin c =
     (case wc_bboTopics c coin of
        None \<Rightarrow> c\<lparr>wc_bboTopics := (wc_bboTopics c)(coin \<mapsto> newBBOTopic)\<rparr>
      | Some _ \<Rightarrow> c)"

definition currentBBO :: "string \<Rightarrow> ws_Client \<Rightarrow> BestBidOffer option" where
  "currentBBO coin c = (if normalizeCoin coin = [] then None else wc_coinBbos c (normalizeCoin coin))"

text \<open>A send that does not block; sending on a closed channel is a panic.\<close>

definition bbo_send :: "BestBidOffer \<Rightarrow> string \<times> int \<Rightarrow> ws_Client \<Rightarrow> ws_Client" where
  "bbo_send bbo k c =
     (case wc_chans c k of
        None \<Rightarrow> c\<lparr>wc_panicked := True\<rparr>
      | Some ch \<Rightarrow> (case select_send bbo ch of
            None \<Rightarrow> c\<lparr>wc_panicked := True\<rparr>
          | Some (ch', _) \<Rightarrow> c\<lparr>wc_chans := (wc_chans c)(k \<mapsto> ch')\<rparr>))"

definition topic_update :: "(bboTopic \<Rightarrow> bboTopic) \<Rightarrow> string \<Rightarrow> ws_Client \<Rightarrow> ws_Client" where
  "topic_update f coin c = c\<lparr>wc_bboTopics := (wc_bboTopics c)(coin := map_option f (wc_bboTopics c coin))\<rparr>"

text \<open>\<^verbatim>\<open>add\<close> takes the id from a counter of its own and then registers the channel under the lock.\<close>

definition topic_id :: "string \<Rightarrow> ws_Client \<Rightarrow> int \<times> ws_Client" where
  "topic_id coin c =
     (let i = (case wc_bboTopics c coin of None \<Rightarrow> 0 | Some t \<Rightarrow> bt_nextID t) + 1
      in (i, topic_update (\<lambda>t. t\<lparr>bt_nextID := i\<rparr>) coin (c\<lparr>wc_chans := (wc_chans c)((coin, i) \<mapsto> make_chan 8)\<rparr>)))"

definition topic_register :: "string \<times> int \<Rightarrow> ws_Client \<Rightarrow> ws_Client" where
  "topic_register k = topic_update (\<lambda>t. t\<lparr>bt_subs := bt_subs t @ [snd k]\<rparr>) (fst k)"

definition topic_remove :: "string \<times> int \<Rightarrow> ws_Client \<Rightarrow> ws_Client" where
  "topic_remove k = topic_update (\<lambda>t. t\<lparr>bt_subs := filter (\<lambda>i. i \<noteq> snd k) (bt_subs t)\<rparr>) (fst k)"

definition topic_broadcast :: "string \<Rightarrow> BestBidOffer \<Rightarrow> ws_Client \<Rightarrow> ws_Client" where
  "topic_broadcast coin bbo c =
     (case wc_bboTopics c coin of None \<Rightarrow> c | Some t \<Rightarrow> fold (\<lambda>i. bbo_send bbo (coin, i)) (bt_subs t) c)"

definition bbo_close :: "string \<times> int \<Rightarrow> ws_Client \<Rightarrow> ws_Client" where
  "bbo_close k c =
     (case wc_chans c k of
        None \<Rightarrow> c\<lparr>wc_panicked := True\<rparr>
      | Some ch \<Rightarrow> (case close_chan ch of
            None \<Rightarrow> c\<lparr>wc_panicked := True\<rparr>
          | Some ch' \<Rightarrow> c\<lparr>wc_chans := (wc_chans c)(k \<mapsto> ch')\<rparr>))"

text \<open>\<^verbatim>\<open>SubscribeBBO\<close> up to the id, and as a whole; an empty coin is refused.\<close>

definition SubscribeBBO_open :: "(string \<Rightarrow> bool) \<Rightarrow> string \<Rightarrow> ws_Client \<Rightarrow> (string \<times> int) option \<times> ws_Client" where
  "SubscribeBBO_open accepts coin0 c =
     (let coin = normalizeCoin coin0 in
      if coin = [] then (None, c)
      else (case topic_id coin (ensureBBOTopic coin (EnsureBBO accepts coin c)) of (i, c) \<Rightarrow> (Some (coin, i), c)))"

definition send_current :: "BestBidOffer option \<Rightarrow> string \<times> int \<Rightarrow> ws_Client \<Rightarrow> ws_Client" where
  "send_current current k c = (case current of None \<Rightarrow> c | Some bbo \<Rightarrow> bbo_send bbo k c)"

definition ws_SubscribeBBO :: "(string \<Rightarrow> bool) \<Rightarrow> string \<Rightarrow> ws_Client \<Rightarrow> (string \<times> int) option \<times> ws_Client" where
  "ws_SubscribeBBO accepts coin c =
     (case SubscribeBBO_open accepts coin c of
        (None, c) \<Rightarrow> (None, c)
      | (Some k, c) \<Rightarrow>
          let c = topic_register k c in (Some k, send_current (currentBBO (fst k) c) k c))"

text \<open>\<^verbatim>\<open>storeCoinBBO\<close> up to the stored price, and as a whole.\<close>

definition store_price :: "string \<Rightarrow> BestBidOffer \<Rightarrow> ws_Client \<Rightarrow> (string \<times> BestBidOffer) option \<times> ws_Client" where
  "store_price coin bbo c =
     (let key = normalizeCoin coin; bbo = bbo\<lparr>bbo_Coin := key\<rparr> in
      if key = [] then (None, c)
      else (Some (key, bbo), c\<lparr>wc_coinBbos := (wc_coinBbos c)(key \<mapsto> bbo)\<rparr>))"

definition storeCoinBBO :: "string \<Rightarrow> BestBidOffer \<Rightarrow> ws_Client \<Rightarrow> ws_Client" where
  "storeCoinBBO coin bbo c =
     (case store_price coin bbo c of (None, c) \<Rightarrow> c | (Some (key, bbo), c) \<Rightarrow> topic_broadcast key bbo c)"

text \<open>
  \<^verbatim>\<open>WaitForBestBidOffer\<close> polls until there is a price or the context ends; \<open>polls\<close> are the states it finds.
\<close>

fun WaitForBestBidOffer :: "string \<Rightarrow> ws_Client list \<Rightarrow> BestBidOffer option" where
  "WaitForBestBidOffer coin [] = None"
| "WaitForBestBidOffer coin (c # polls) =
     (if normalizeCoin coin = [] then None
      else case wc_coinBbos c (normalizeCoin coin) of
          Some bbo \<Rightarrow> Some bbo
        | None \<Rightarrow> WaitForBestBidOffer coin polls)"

section \<open>Interleavings\<close>

text \<open>Where the goroutine of a subscription is.\<close>

datatype sub_phase = Made | Registered | Looked "BestBidOffer option" | Waiting | Removed | Ended

record price_system =
  pf_client :: ws_Client
  pf_phase :: "string \<times> int \<rightharpoonup> sub_phase"
  pf_stored :: "(string \<times> BestBidOffer) list"
  pf_casts :: "(string \<times> BestBidOffer \<times> int list) list"

abbreviation casting :: "price_system \<Rightarrow> string \<Rightarrow> bool" where
  "casting s coin \<equiv> coin \<in> fst ` set (pf_casts s)"

inductive price_step :: "price_system \<Rightarrow> price_system \<Rightarrow> bool" where
  sub_open: "SubscribeBBO_open accepts coin (pf_client s) = (Some k, c) \<Longrightarrow>
    price_step s (s\<lparr>pf_client := c, pf_phase := (pf_phase s)(k \<mapsto> Made)\<rparr>)"
| sub_register: "pf_phase s k = Some Made \<Longrightarrow> \<not> casting s (fst k) \<Longrightarrow>
    price_step s (s\<lparr>pf_client := topic_register k (pf_client s), pf_phase := (pf_phase s)(k \<mapsto> Registered)\<rparr>)"
| sub_look: "pf_phase s k = Some Registered \<Longrightarrow>
    price_step s (s\<lparr>pf_phase := (pf_phase s)(k \<mapsto> Looked (currentBBO (fst k) (pf_client s)))\<rparr>)"
| sub_send: "pf_phase s k = Some (Looked current) \<Longrightarrow>
    price_step s (s\<lparr>pf_client := send_current current k (pf_client s), pf_phase := (pf_phase s)(k \<mapsto> Waiting)\<rparr>)"
| sub_remove: "pf_phase s k = Some Waiting \<Longrightarrow> \<not> casting s (fst k) \<Longrightarrow>
    price_step s (s\<lparr>pf_client := topic_remove k (pf_client s), pf_phase := (pf_phase s)(k \<mapsto> Removed)\<rparr>)"
| sub_close: "pf_phase s k = Some Removed \<Longrightarrow>
    price_step s (s\<lparr>pf_client := bbo_close k (pf_client s), pf_phase := (pf_phase s)(k \<mapsto> Ended)\<rparr>)"
| venue_store: "store_price coin bbo (pf_client s) = (Some stored, c) \<Longrightarrow>
    price_step s (s\<lparr>pf_client := c, pf_stored := pf_stored s @ [stored]\<rparr>)"
| venue_lock: "(coin, bbo) \<in> set (pf_stored s) \<Longrightarrow> wc_bboTopics (pf_client s) coin = Some t \<Longrightarrow> mset ids = mset (bt_subs t) \<Longrightarrow>
    price_step s (s\<lparr>pf_stored := remove1 (coin, bbo) (pf_stored s), pf_casts := pf_casts s @ [(coin, bbo, ids)]\<rparr>)"
| venue_skip: "(coin, bbo) \<in> set (pf_stored s) \<Longrightarrow> wc_bboTopics (pf_client s) coin = None \<Longrightarrow>
    price_step s (s\<lparr>pf_stored := remove1 (coin, bbo) (pf_stored s)\<rparr>)"
| venue_send: "pf_casts s = as @ (coin, bbo, i # ids) # bs \<Longrightarrow>
    price_step s (s\<lparr>pf_client := bbo_send bbo (coin, i) (pf_client s), pf_casts := as @ (coin, bbo, ids) # bs\<rparr>)"
| venue_unlock: "pf_casts s = as @ (coin, bbo, []) # bs \<Longrightarrow> price_step s (s\<lparr>pf_casts := as @ bs\<rparr>)"
| read: "wc_chans (pf_client s) k = Some ch \<Longrightarrow>
    price_step s (s\<lparr>pf_client := (pf_client s)\<lparr>wc_chans := (wc_chans (pf_client s))(k \<mapsto> receive ch)\<rparr>\<rparr>)"

definition price_init :: "price_system \<Rightarrow> bool" where
  "price_init s \<longleftrightarrow> pf_client s = ws_New \<and> pf_phase s = Map.empty \<and> pf_stored s = [] \<and> pf_casts s = []"

inductive_cases price_stepE: "price_step s t"

text \<open>The functions as a whole are runs of these steps, with nobody in between.\<close>

lemma broadcast_run:
  "pf_casts s = as @ (coin, bbo, ids) # bs \<Longrightarrow>
     price_step\<^sup>*\<^sup>* s (s\<lparr>pf_client := fold (\<lambda>i. bbo_send bbo (coin, i)) ids (pf_client s), pf_casts := as @ bs\<rparr>)"
proof (induction ids arbitrary: s)
  case Nil
  then show ?case using price_step.venue_unlock [of s as coin bbo bs] by (simp add: r_into_rtranclp)
next
  case (Cons i ids)
  let ?t = "s\<lparr>pf_client := bbo_send bbo (coin, i) (pf_client s), pf_casts := as @ (coin, bbo, ids) # bs\<rparr>"
  have "price_step s ?t" by (rule price_step.venue_send [OF Cons.prems])
  moreover have "price_step\<^sup>*\<^sup>* ?t (s\<lparr>pf_client := fold (\<lambda>i. bbo_send bbo (coin, i)) (i # ids) (pf_client s), pf_casts := as @ bs\<rparr>)"
    using Cons.IH [of ?t] by simp
  ultimately show ?case by (rule converse_rtranclp_into_rtranclp)
qed

lemma storeCoinBBO_run:
  assumes "pf_stored s = []" and "pf_casts s = []"
  shows "price_step\<^sup>*\<^sup>* s (s\<lparr>pf_client := storeCoinBBO coin bbo (pf_client s)\<rparr>)"
proof (cases "store_price coin bbo (pf_client s)")
  case (Pair stored c)
  show ?thesis
  proof (cases stored)
    case None
    with Pair have "storeCoinBBO coin bbo (pf_client s) = pf_client s"
      by (auto simp: storeCoinBBO_def store_price_def Let_def split: if_splits)
    then show ?thesis by simp
  next
    case (Some p)
    obtain key b where p: "p = (key, b)" by force
    let ?t = "s\<lparr>pf_client := c, pf_stored := [(key, b)]\<rparr>"
    have 1: "price_step s ?t"
      using price_step.venue_store [of coin bbo s p c] Pair Some p assms by simp
    have "price_step\<^sup>*\<^sup>* ?t (s\<lparr>pf_client := topic_broadcast key b c\<rparr>)"
    proof (cases "wc_bboTopics c key")
      case None
      then show ?thesis
        using price_step.venue_skip [of key b ?t] assms(1) by (cases s) (simp add: topic_broadcast_def r_into_rtranclp)
    next
      case (Some t)
      let ?u = "s\<lparr>pf_client := c, pf_casts := [(key, b, bt_subs t)]\<rparr>"
      have "price_step ?t ?u"
        using price_step.venue_lock [of key b ?t t "bt_subs t"] Some assms by (cases s) simp
      moreover have "price_step\<^sup>*\<^sup>* ?u (s\<lparr>pf_client := topic_broadcast key b c\<rparr>)"
        using broadcast_run [of ?u "[]" key b "bt_subs t" "[]"] Some assms(2) by (cases s) (simp add: topic_broadcast_def)
      ultimately show ?thesis by (rule converse_rtranclp_into_rtranclp)
    qed
    with 1 show ?thesis
      using Pair Some p by (simp add: storeCoinBBO_def converse_rtranclp_into_rtranclp [where r = price_step])
  qed
qed

lemma ws_SubscribeBBO_run:
  assumes "ws_SubscribeBBO accepts coin (pf_client s) = (Some k, c)" and "pf_casts s = []"
  shows "price_step\<^sup>*\<^sup>* s (s\<lparr>pf_client := c, pf_phase := (pf_phase s)(k \<mapsto> Waiting)\<rparr>)"
proof -
  obtain c1 where o1: "SubscribeBBO_open accepts coin (pf_client s) = (Some k, c1)"
    using assms(1) by (auto simp: ws_SubscribeBBO_def Let_def split: prod.splits option.splits)
  let ?c2 = "topic_register k c1"
  let ?cur = "currentBBO (fst k) ?c2"
  let ?s1 = "s\<lparr>pf_client := c1, pf_phase := (pf_phase s)(k \<mapsto> Made)\<rparr>"
  let ?s2 = "s\<lparr>pf_client := ?c2, pf_phase := (pf_phase s)(k \<mapsto> Registered)\<rparr>"
  let ?s3 = "s\<lparr>pf_client := ?c2, pf_phase := (pf_phase s)(k \<mapsto> Looked ?cur)\<rparr>"
  let ?s4 = "s\<lparr>pf_client := send_current ?cur k ?c2, pf_phase := (pf_phase s)(k \<mapsto> Waiting)\<rparr>"
  have c: "c = send_current ?cur k ?c2"
    using assms(1) o1 by (simp add: ws_SubscribeBBO_def Let_def)
  have "price_step s ?s1" by (rule price_step.sub_open [OF o1])
  moreover have "price_step ?s1 ?s2" using price_step.sub_register [of ?s1 k] assms(2) by simp
  moreover have "price_step ?s2 ?s3" using price_step.sub_look [of ?s2 k] by simp
  moreover have "price_step ?s3 ?s4" using price_step.sub_send [of ?s3 k ?cur] by simp
  ultimately show ?thesis unfolding c
    by (meson converse_rtranclp_into_rtranclp rtranclp.rtrancl_refl)
qed

section \<open>The invariant\<close>

definition live :: "sub_phase \<Rightarrow> bool" where
  "live ph \<longleftrightarrow> ph \<notin> {Made, Removed, Ended}"

definition chan_ok :: "string \<times> int \<Rightarrow> BestBidOffer chan \<Rightarrow> bool" where
  "chan_ok k ch \<longleftrightarrow> ch_cap ch = 8 \<and> length (ch_buf ch) \<le> 8 \<and> (\<forall>bbo \<in> set (ch_log ch). bbo_Coin bbo = fst k)"

text \<open>A channel is open until its goroutine has ended.\<close>

definition chans_ok :: "(string \<times> int \<rightharpoonup> BestBidOffer chan) \<Rightarrow> (string \<times> int \<rightharpoonup> sub_phase) \<Rightarrow> bool" where
  "chans_ok chans phase \<longleftrightarrow>
     (\<forall>k. case chans k of None \<Rightarrow> phase k = None
        | Some ch \<Rightarrow> chan_ok k ch \<and> (\<exists>ph. phase k = Some ph \<and> ch_closed ch = (ph = Ended)))"

definition topics_ok :: "(string \<rightharpoonup> bboTopic) \<Rightarrow> (string \<times> int \<rightharpoonup> sub_phase) \<Rightarrow> bool" where
  "topics_ok topics phase \<longleftrightarrow>
     (\<forall>coin i. phase (coin, i) \<noteq> None \<longrightarrow>
        normalizeCoin coin = coin \<and> (\<exists>t. topics coin = Some t \<and> i \<le> bt_nextID t)) \<and>
     (\<forall>coin t. topics coin = Some t \<longrightarrow> (\<forall>i \<in> set (bt_subs t). \<exists>ph. phase (coin, i) = Some ph \<and> live ph))"

definition casts_ok :: "(string \<times> BestBidOffer \<times> int list) list \<Rightarrow> (string \<rightharpoonup> bboTopic) \<Rightarrow> bool" where
  "casts_ok casts topics \<longleftrightarrow>
     (\<forall>(coin, bbo, ids) \<in> set casts. bbo_Coin bbo = coin \<and> (\<exists>t. topics coin = Some t \<and> set ids \<subseteq> set (bt_subs t)))"

definition prices_ok :: "price_system \<Rightarrow> bool" where
  "prices_ok s \<longleftrightarrow> (\<forall>(coin, bbo) \<in> set (pf_stored s). bbo_Coin bbo = coin) \<and>
     (\<forall>coin bbo. wc_coinBbos (pf_client s) coin = Some bbo \<longrightarrow> bbo_Coin bbo = coin) \<and>
     (\<forall>k bbo. pf_phase s k = Some (Looked (Some bbo)) \<longrightarrow> bbo_Coin bbo = fst k)"

definition price_inv :: "price_system \<Rightarrow> bool" where
  "price_inv s \<longleftrightarrow> \<not> wc_panicked (pf_client s) \<and> chans_ok (wc_chans (pf_client s)) (pf_phase s) \<and>
     topics_ok (wc_bboTopics (pf_client s)) (pf_phase s) \<and> casts_ok (pf_casts s) (wc_bboTopics (pf_client s)) \<and> prices_ok s"

lemma upper_char_idem [simp]: "upper_char (upper_char c) = upper_char c"
proof -
  have "(of_char (char_of (of_char c - 32 :: int)) :: int) = of_char c - 32"
    if "97 \<le> (of_char c :: int)" "(of_char c :: int) \<le> 122"
    using that by (simp add: of_char_of)
  then show ?thesis
    by (auto simp: upper_char_def Let_def)
qed

lemma is_space_upper [simp]: "is_space (upper_char c) = is_space c"
proof -
  have "(of_char (char_of (of_char c - 32 :: int)) :: int) = of_char c - 32"
    if "97 \<le> (of_char c :: int)" "(of_char c :: int) \<le> 122"
    using that by (simp add: of_char_of)
  then show ?thesis
    by (auto simp: upper_char_def is_space_def Let_def)
qed

lemma ToUpper_TrimSpace: "TrimSpace (ToUpper s) = ToUpper (TrimSpace s)"
proof -
  have drop: "dropWhile is_space (map upper_char xs) = map upper_char (dropWhile is_space xs)" for xs
    by (induction xs) auto
  show ?thesis
    by (simp only: TrimSpace_def ToUpper_def drop rev_map)
qed

lemma normalizeCoin_idem [simp]: "normalizeCoin (normalizeCoin coin) = normalizeCoin coin"
  by (simp add: normalizeCoin_def ToUpper_TrimSpace) (simp add: ToUpper_def)

lemma select_send_open:
  assumes "chan_ok k ch" and "\<not> ch_closed ch" and "bbo_Coin bbo = fst k"
  obtains ch' b where "select_send bbo ch = Some (ch', b)" "chan_ok k ch'" "\<not> ch_closed ch'"
  using assms by (cases "length (ch_buf ch) < 8") (auto simp: select_send_def chan_ok_def ch_log_def)

lemma chan_ok_receive: "chan_ok k ch \<Longrightarrow> chan_ok k (receive ch)"
  using receive_simps(3) [of ch] by (simp add: chan_ok_def del: receive_simps(3))

lemma chans_okD:
  assumes "chans_ok chans phase" and "phase k = Some ph"
  obtains ch where "chans k = Some ch" "chan_ok k ch" "ch_closed ch = (ph = Ended)"
proof -
  have "case chans k of None \<Rightarrow> phase k = None
      | Some ch \<Rightarrow> chan_ok k ch \<and> (\<exists>ph. phase k = Some ph \<and> ch_closed ch = (ph = Ended))"
    using assms(1) by (simp only: chans_ok_def)
  then show thesis
    using that assms(2) by (cases "chans k") auto
qed

lemma chans_ok_update:
  assumes "chans_ok chans phase" and "chan_ok k ch" and "ch_closed ch = (ph = Ended)"
  shows "chans_ok (chans(k \<mapsto> ch)) (phase(k \<mapsto> ph))"
  unfolding chans_ok_def
proof
  fix j
  show "case (chans(k \<mapsto> ch)) j of None \<Rightarrow> (phase(k \<mapsto> ph)) j = None
      | Some ch \<Rightarrow> chan_ok j ch \<and> (\<exists>ph'. (phase(k \<mapsto> ph)) j = Some ph' \<and> ch_closed ch = (ph' = Ended))"
    using assms spec [OF assms(1) [unfolded chans_ok_def], of j] by (cases "j = k") (auto split: option.splits)
qed

lemma bbo_send_ok:
  assumes "chans_ok (wc_chans c) phase" and "phase k = Some ph" and "ph \<noteq> Ended" and "bbo_Coin bbo = fst k"
  obtains ch where "bbo_send bbo k c = c\<lparr>wc_chans := (wc_chans c)(k \<mapsto> ch)\<rparr>" "chan_ok k ch" "\<not> ch_closed ch"
proof -
  obtain ch where ch: "wc_chans c k = Some ch" "chan_ok k ch" "\<not> ch_closed ch"
    using chans_okD [OF assms(1,2)] assms(3) by metis
  then obtain ch' b where "select_send bbo ch = Some (ch', b)" "chan_ok k ch'" "\<not> ch_closed ch'"
    using select_send_open [OF _ _ assms(4)] by blast
  then show thesis
    using that ch(1) by (simp add: bbo_send_def)
qed

text \<open>Changing the phase of a goroutine that stays in the topic, or that is not in it.\<close>

lemma topics_okD:
  assumes "topics_ok topics phase" and "phase k = Some ph"
  obtains t where "topics (fst k) = Some t" "snd k \<le> bt_nextID t" "normalizeCoin (fst k) = fst k"
proof -
  obtain coin i where "k = (coin, i)"
    by (cases k)
  then show thesis
    using assms that by (fastforce simp: topics_ok_def)
qed

lemma topics_ok_phase:
  assumes "topics_ok topics phase" and "phase k \<noteq> None" and "live ph \<or> (\<forall>t. topics (fst k) = Some t \<longrightarrow> snd k \<notin> set (bt_subs t))"
  shows "topics_ok topics (phase(k \<mapsto> ph))"
  unfolding topics_ok_def
proof (intro conjI allI impI ballI)
  fix coin i assume "(phase(k \<mapsto> ph)) (coin, i) \<noteq> None"
  then show "normalizeCoin coin = coin" "\<exists>t. topics coin = Some t \<and> i \<le> bt_nextID t"
    using assms(1,2) by (auto simp: topics_ok_def split: if_splits)
next
  fix coin t i assume "topics coin = Some t" "i \<in> set (bt_subs t)"
  then show "\<exists>ph'. (phase(k \<mapsto> ph)) (coin, i) = Some ph' \<and> live ph'"
    using assms(1,3) by (cases k) (auto simp: topics_ok_def)
qed

lemma topics_ok_subs:
  assumes "topics_ok topics phase" and "topics coin = Some t"
    and "\<And>i. i \<in> set subs \<Longrightarrow> \<exists>ph. phase (coin, i) = Some ph \<and> live ph"
  shows "topics_ok (topics(coin \<mapsto> t\<lparr>bt_subs := subs\<rparr>)) phase"
  unfolding topics_ok_def
proof (intro conjI allI impI ballI)
  fix c i assume "phase (c, i) \<noteq> None"
  then obtain t' where "normalizeCoin c = c" "topics c = Some t'" "i \<le> bt_nextID t'"
    using topics_okD [OF assms(1), of "(c, i)"] by auto
  then show "normalizeCoin c = c" "\<exists>t'. (topics(coin \<mapsto> t\<lparr>bt_subs := subs\<rparr>)) c = Some t' \<and> i \<le> bt_nextID t'"
    using assms(2) by auto
next
  fix c t' i assume "(topics(coin \<mapsto> t\<lparr>bt_subs := subs\<rparr>)) c = Some t'" "i \<in> set (bt_subs t')"
  then show "\<exists>ph. phase (c, i) = Some ph \<and> live ph"
    using assms(1,3) by (auto simp: topics_ok_def split: if_splits)
qed

lemma casts_ok_keep:
  assumes "casts_ok casts topics" and "\<And>coin t. coin \<in> fst ` set casts \<Longrightarrow> topics coin = Some t \<Longrightarrow> topics' coin = Some t"
  shows "casts_ok casts topics'"
  using assms by (fastforce simp: casts_ok_def image_iff)

text \<open>What the invariant says of a subscription that was opened.\<close>

lemma price_inv_phase:
  assumes "price_inv s" and "pf_phase s k = Some ph"
  obtains t ch where "wc_bboTopics (pf_client s) (fst k) = Some t" "snd k \<le> bt_nextID t" "normalizeCoin (fst k) = fst k"
    "wc_chans (pf_client s) k = Some ch" "chan_ok k ch" "ch_closed ch = (ph = Ended)"
proof -
  have "topics_ok (wc_bboTopics (pf_client s)) (pf_phase s)" "chans_ok (wc_chans (pf_client s)) (pf_phase s)"
    using assms(1) by (simp_all add: price_inv_def)
  then show thesis
    using topics_okD [where k = k] chans_okD [where k = k] assms(2) that by metis
qed

lemma price_inv_looked: "price_inv s \<Longrightarrow> pf_phase s k = Some (Looked (Some bbo)) \<Longrightarrow> bbo_Coin bbo = fst k"
  by (simp only: price_inv_def prices_ok_def)

lemma price_inv_open:
  assumes "price_inv s" and "SubscribeBBO_open accepts coin (pf_client s) = (Some k, c)"
  shows "price_inv (s\<lparr>pf_client := c, pf_phase := (pf_phase s)(k \<mapsto> Made)\<rparr>)"
proof -
  define name where "name = normalizeCoin coin"
  define t where "t = (case wc_bboTopics (pf_client s) name of None \<Rightarrow> newBBOTopic | Some t \<Rightarrow> t)"
  have k: "k = (name, bt_nextID t + 1)" and c: "wc_chans c = (wc_chans (pf_client s))(k \<mapsto> make_chan 8)"
    "wc_bboTopics c = (wc_bboTopics (pf_client s))(name \<mapsto> t\<lparr>bt_nextID := bt_nextID t + 1\<rparr>)"
    "wc_coinBbos c = wc_coinBbos (pf_client s)" "wc_panicked c = wc_panicked (pf_client s)"
    using assms(2) by (auto simp: SubscribeBBO_open_def EnsureBBO_def ensureBBOTopic_def topic_id_def topic_update_def name_def
        t_def newBBOTopic_def Let_def split: if_splits option.splits)
  have new: "pf_phase s k = None"
  proof (rule ccontr)
    assume "pf_phase s k \<noteq> None"
    then obtain t' where "wc_bboTopics (pf_client s) (fst k) = Some t'" "snd k \<le> bt_nextID t'"
      using price_inv_phase [OF assms(1)] by blast
    then show False
      by (simp add: k t_def)
  qed
  have "chans_ok (wc_chans c) ((pf_phase s)(k \<mapsto> Made))"
    unfolding c(1) by (rule chans_ok_update) (use assms(1) in \<open>auto simp: price_inv_def chan_ok_def make_chan_def ch_log_def\<close>)
  moreover have "topics_ok (wc_bboTopics c) ((pf_phase s)(k \<mapsto> Made))"
    using assms(1) new by (fastforce simp: price_inv_def topics_ok_def c(2) k t_def name_def newBBOTopic_def split: option.splits)
  moreover have "casts_ok (pf_casts s) (wc_bboTopics c)"
    using assms(1) by (fastforce simp: price_inv_def casts_ok_def c(2) t_def)
  moreover have "prices_ok (s\<lparr>pf_client := c, pf_phase := (pf_phase s)(k \<mapsto> Made)\<rparr>)"
    using assms(1) by (auto simp: price_inv_def prices_ok_def c(3))
  ultimately show ?thesis
    using assms(1) by (simp add: price_inv_def c(4))
qed

lemma price_inv_topic:
  assumes "price_inv s" and "pf_phase s k = Some ph0" and "ph0 \<noteq> Ended" and "\<not> casting s (fst k)" and "ph \<noteq> Ended" and "\<not> (\<exists>b. ph = Looked b)"
    and "\<And>t i. wc_bboTopics (pf_client s) (fst k) = Some t \<Longrightarrow> i \<in> set (f (bt_subs t)) \<Longrightarrow> (i \<in> set (bt_subs t) \<and> i \<noteq> snd k) \<or> (i = snd k \<and> live ph)"
  shows "price_inv (s\<lparr>pf_client := topic_update (\<lambda>t. t\<lparr>bt_subs := f (bt_subs t)\<rparr>) (fst k) (pf_client s), pf_phase := (pf_phase s)(k \<mapsto> ph)\<rparr>)"
proof -
  let ?c = "topic_update (\<lambda>t. t\<lparr>bt_subs := f (bt_subs t)\<rparr>) (fst k) (pf_client s)"
  obtain t where t: "wc_bboTopics (pf_client s) (fst k) = Some t" "snd k \<le> bt_nextID t" "normalizeCoin (fst k) = fst k"
    using price_inv_phase [OF assms(1,2)] by metis
  have c: "wc_chans ?c = wc_chans (pf_client s)" "wc_coinBbos ?c = wc_coinBbos (pf_client s)" "wc_panicked ?c = wc_panicked (pf_client s)"
    "wc_bboTopics ?c = (wc_bboTopics (pf_client s))(fst k \<mapsto> t\<lparr>bt_subs := f (bt_subs t)\<rparr>)"
    by (simp_all add: topic_update_def t(1))
  obtain ch where ch: "wc_chans (pf_client s) k = Some ch" "chan_ok k ch" "\<not> ch_closed ch"
    using price_inv_phase [OF assms(1,2)] assms(3) by metis
  have "chans_ok ((wc_chans (pf_client s))(k \<mapsto> ch)) ((pf_phase s)(k \<mapsto> ph))"
    by (rule chans_ok_update) (use assms ch in \<open>auto simp: price_inv_def\<close>)
  then have "chans_ok (wc_chans ?c) ((pf_phase s)(k \<mapsto> ph))"
    using ch(1) by (simp only: c(1) fun_upd_idem)
  moreover have "topics_ok (wc_bboTopics ?c) ((pf_phase s)(k \<mapsto> ph))"
    unfolding topics_ok_def
  proof (intro conjI allI impI ballI)
    fix coin i assume "((pf_phase s)(k \<mapsto> ph)) (coin, i) \<noteq> None"
    then obtain ph' where "pf_phase s (coin, i) = Some ph'"
      using assms(2) by (auto split: if_splits)
    then obtain t' where "wc_bboTopics (pf_client s) coin = Some t'" "i \<le> bt_nextID t'" "normalizeCoin coin = coin"
      using price_inv_phase [OF assms(1)] by (metis fst_conv snd_conv)
    then show "normalizeCoin coin = coin" "\<exists>t. wc_bboTopics ?c coin = Some t \<and> i \<le> bt_nextID t"
      using t(1) by (auto simp: c(4))
  next
    fix coin t' i assume i: "wc_bboTopics ?c coin = Some t'" "i \<in> set (bt_subs t')"
    have old: "\<exists>ph. pf_phase s (coin, i) = Some ph \<and> live ph" if "wc_bboTopics (pf_client s) coin = Some t''" "i \<in> set (bt_subs t'')" for t''
      using assms(1) that by (auto simp: price_inv_def topics_ok_def)
    show "\<exists>ph'. ((pf_phase s)(k \<mapsto> ph)) (coin, i) = Some ph' \<and> live ph'"
    proof (cases "coin = fst k")
      case True
      then have "(i \<in> set (bt_subs t) \<and> i \<noteq> snd k) \<or> (i = snd k \<and> live ph)"
        using assms(7) [OF t(1), of i] i by (auto simp: c(4))
      then show ?thesis
        using old [of t] t(1) True by (cases k) auto
    next
      case False
      then show ?thesis
        using old [of t'] i by (cases k) (auto simp: topic_update_def)
    qed
  qed
  moreover have "casts_ok (pf_casts s) (wc_bboTopics ?c)"
    by (rule casts_ok_keep [where topics = "wc_bboTopics (pf_client s)"]) (use assms(1,4) in \<open>force simp: price_inv_def c(4)\<close>)+
  moreover have "prices_ok (s\<lparr>pf_client := ?c, pf_phase := (pf_phase s)(k \<mapsto> ph)\<rparr>)"
    using assms(1,6) by (auto simp: price_inv_def prices_ok_def c(2))
  ultimately show ?thesis
    using assms(1) by (simp add: price_inv_def c(3))
qed

text \<open>A step that only replaces the channel of a goroutine and its phase, and leaves the topics alone.\<close>

lemma price_inv_chan:
  assumes "price_inv s" and "pf_phase s k = Some ph0" and "chan_ok k ch" and "ch_closed ch = (ph = Ended)"
    and "live ph \<or> \<not> live ph0" and "\<And>bbo. ph = Looked (Some bbo) \<Longrightarrow> bbo_Coin bbo = fst k"
  shows "price_inv (s\<lparr>pf_client := (pf_client s)\<lparr>wc_chans := (wc_chans (pf_client s))(k \<mapsto> ch)\<rparr>, pf_phase := (pf_phase s)(k \<mapsto> ph)\<rparr>)"
proof -
  have "chans_ok ((wc_chans (pf_client s))(k \<mapsto> ch)) ((pf_phase s)(k \<mapsto> ph))"
    by (rule chans_ok_update) (use assms in \<open>auto simp: price_inv_def\<close>)
  moreover have "topics_ok (wc_bboTopics (pf_client s)) ((pf_phase s)(k \<mapsto> ph))"
    by (rule topics_ok_phase) (use assms(1,2,5) in \<open>cases k; fastforce simp: price_inv_def topics_ok_def\<close>)+
  ultimately show ?thesis
    using assms(1,6) by (auto simp: price_inv_def prices_ok_def)
qed

lemma price_inv_send:
  assumes "price_inv s" and "pf_phase s k = Some ph0" and "ph0 \<noteq> Ended" and "bbo_Coin bbo = fst k" and "live ph \<or> \<not> live ph0"
    and "ph \<noteq> Ended" and "\<And>bbo. ph = Looked (Some bbo) \<Longrightarrow> bbo_Coin bbo = fst k"
  shows "price_inv (s\<lparr>pf_client := bbo_send bbo k (pf_client s), pf_phase := (pf_phase s)(k \<mapsto> ph)\<rparr>)"
    and "wc_bboTopics (bbo_send bbo k (pf_client s)) = wc_bboTopics (pf_client s)"
proof -
  have ok: "chans_ok (wc_chans (pf_client s)) (pf_phase s)"
    using assms(1) by (simp add: price_inv_def)
  obtain ch where ch: "bbo_send bbo k (pf_client s) = (pf_client s)\<lparr>wc_chans := (wc_chans (pf_client s))(k \<mapsto> ch)\<rparr>"
    "chan_ok k ch" "\<not> ch_closed ch"
    using bbo_send_ok [OF ok assms(2-4)] by blast
  then show "price_inv (s\<lparr>pf_client := bbo_send bbo k (pf_client s), pf_phase := (pf_phase s)(k \<mapsto> ph)\<rparr>)"
    "wc_bboTopics (bbo_send bbo k (pf_client s)) = wc_bboTopics (pf_client s)"
    using price_inv_chan [OF assms(1,2) ch(2), of ph] assms(5-7) by simp_all
qed

lemma price_inv_casts:
  assumes "price_inv s" and "casts_ok casts (wc_bboTopics (pf_client s))" and "set stored \<subseteq> set (pf_stored s)"
  shows "price_inv (s\<lparr>pf_stored := stored, pf_casts := casts\<rparr>)"
  using assms by (auto simp: price_inv_def prices_ok_def)

lemma price_inv_cast_send:
  assumes "price_inv s" and "pf_casts s = as @ (coin, bbo, i # ids) # bs"
  shows "price_inv (s\<lparr>pf_client := bbo_send bbo (coin, i) (pf_client s), pf_casts := as @ (coin, bbo, ids) # bs\<rparr>)"
proof -
  have "casts_ok (pf_casts s) (wc_bboTopics (pf_client s))" "topics_ok (wc_bboTopics (pf_client s)) (pf_phase s)"
    using assms(1) by (simp_all add: price_inv_def)
  then have "bbo_Coin bbo = coin" and casts: "casts_ok (as @ (coin, bbo, ids) # bs) (wc_bboTopics (pf_client s))"
    and "\<exists>ph. pf_phase s (coin, i) = Some ph \<and> live ph"
    unfolding assms(2) by (auto simp: casts_ok_def topics_ok_def)
  then obtain ph where ph: "pf_phase s (coin, i) = Some ph" "live ph" "ph \<noteq> Ended" "bbo_Coin bbo = fst (coin, i)"
    by (auto simp: live_def)
  have looked: "bbo_Coin b = fst (coin, i)" if "ph = Looked (Some b)" for b
    using assms(1) ph(1) that by (simp add: price_inv_looked)
  note sent = price_inv_send [OF assms(1) ph(1,3,4) disjI1 [OF ph(2)] ph(3) looked]
  from sent(1) have "price_inv (s\<lparr>pf_client := bbo_send bbo (coin, i) (pf_client s)\<rparr>)"
    using ph(1) by (simp add: fun_upd_idem)
  from price_inv_casts [OF this, of "as @ (coin, bbo, ids) # bs" "pf_stored s"] show ?thesis
    using casts sent(2) by simp
qed

lemma price_inv_step: "price_inv s \<Longrightarrow> price_step s t \<Longrightarrow> price_inv t"
proof (erule price_stepE, goal_cases)
  case (1 accepts coin k c)
  then show ?case
    using price_inv_open by blast
next
  case (2 k)
  then show ?case
    using price_inv_topic [OF 2(1,3) _ 2(4), of Registered "\<lambda>subs. subs @ [snd k]"] price_inv_phase [OF 2(1,3)]
    by (auto simp: topic_register_def live_def)
next
  case (3 k)
  obtain ch where ch: "wc_chans (pf_client s) k = Some ch" "chan_ok k ch" "\<not> ch_closed ch" "normalizeCoin (fst k) = fst k"
    using price_inv_phase [OF 3(1,3)] by (metis sub_phase.distinct)
  have "bbo_Coin bbo = fst k" if "currentBBO (fst k) (pf_client s) = Some bbo" for bbo
    using 3(1) that ch(4) by (auto simp: currentBBO_def price_inv_def prices_ok_def split: if_splits)
  then show ?case
    using price_inv_chan [OF 3(1,3) ch(2), of "Looked (currentBBO (fst k) (pf_client s))"] ch(1,3)
    by (simp add: 3(2) live_def fun_upd_idem)
next
  case (4 k current)
  obtain ch where ch: "wc_chans (pf_client s) k = Some ch" "chan_ok k ch" "\<not> ch_closed ch"
    using price_inv_phase [OF 4(1,3)] by (metis sub_phase.distinct)
  then have none: "price_inv (s\<lparr>pf_phase := (pf_phase s)(k \<mapsto> Waiting)\<rparr>)"
    using price_inv_chan [OF 4(1,3) ch(2), of Waiting] by (simp add: live_def fun_upd_idem)
  have "bbo_Coin bbo = fst k" if "current = Some bbo" for bbo
    using 4(1,3) that by (simp add: price_inv_looked)
  then show ?case
    using price_inv_send(1) [OF 4(1,3), of _ Waiting] none 4(2)
    by (cases current) (auto simp: send_current_def live_def)
next
  case (5 k)
  then show ?case
    using price_inv_topic [OF 5(1,3) _ 5(4), of Removed "filter (\<lambda>i. i \<noteq> snd k)"]
    by (auto simp: topic_remove_def)
next
  case (6 k)
  obtain ch where ch: "wc_chans (pf_client s) k = Some ch" "chan_ok k ch" "\<not> ch_closed ch"
    using price_inv_phase [OF 6(1,3)] by (metis sub_phase.distinct)
  then have "chan_ok k (ch\<lparr>ch_closed := True\<rparr>)"
    by (simp add: chan_ok_def ch_log_def)
  from price_inv_chan [OF 6(1,3) this, of Ended] ch show ?case
    by (simp add: 6(2) bbo_close_def close_chan_def live_def)
next
  case (7 coin bbo stored c)
  then show ?case
    by (auto simp: price_inv_def prices_ok_def store_price_def Let_def split: if_splits)
next
  case (8 coin bbo t' ids)
  have "bbo_Coin bbo = coin"
    using 8(1,3) by (auto simp: price_inv_def prices_ok_def)
  moreover have "set ids = set (bt_subs t')"
    using 8(5) by (metis set_mset_mset)
  ultimately have "casts_ok (pf_casts s @ [(coin, bbo, ids)]) (wc_bboTopics (pf_client s))"
    using 8(1,4) by (auto simp: price_inv_def casts_ok_def)
  from price_inv_casts [OF 8(1) this, of "remove1 (coin, bbo) (pf_stored s)"] show ?case
    by (simp add: 8(2) set_remove1_subset)
next
  case (9 coin bbo)
  then show ?case
    using price_inv_casts [OF 9(1), of "pf_casts s" "remove1 (coin, bbo) (pf_stored s)"]
    by (simp add: set_remove1_subset price_inv_def)
next
  case (10 as coin bbo i ids bs)
  then show ?case
    using price_inv_cast_send by blast
next
  case (11 as coin bbo bs)
  then show ?case
    using price_inv_casts [OF 11(1), of "as @ bs" "pf_stored s"] by (auto simp: price_inv_def casts_ok_def)
next
  case (12 k ch)
  have "chans_ok (wc_chans (pf_client s)) (pf_phase s)"
    using 12(1) by (simp add: price_inv_def)
  then obtain ph where ph: "pf_phase s k = Some ph" "chan_ok k ch" "ch_closed ch = (ph = Ended)"
    using spec [of "\<lambda>k. case wc_chans (pf_client s) k of None \<Rightarrow> pf_phase s k = None
        | Some ch \<Rightarrow> chan_ok k ch \<and> (\<exists>ph. pf_phase s k = Some ph \<and> ch_closed ch = (ph = Ended))" k] 12(3)
    by (auto simp: chans_ok_def simp del: split_paired_All)
  have "bbo_Coin bbo = fst k" if "ph = Looked (Some bbo)" for bbo
    using 12(1) ph(1) that by (simp add: price_inv_looked)
  then show ?case
    using price_inv_chan [OF 12(1) ph(1) chan_ok_receive [OF ph(2)], of ph] ph(1,3) by (simp add: 12(2) fun_upd_idem)
qed

interpretation price_sys: invariant_system price_init price_step price_inv
proof
  show "price_init s \<Longrightarrow> price_inv s" for s
    by (auto simp: price_init_def price_inv_def ws_New_def chans_ok_def topics_ok_def casts_ok_def prices_ok_def)
qed (rule price_inv_step)

section \<open>Properties\<close>

definition no_prices :: price_system where
  "no_prices = \<lparr>pf_client = ws_New, pf_phase = Map.empty, pf_stored = [], pf_casts = []\<rparr>"

lemma no_prices_init: "price_init no_prices"
  by (simp add: price_init_def no_prices_def)

text \<open>
  C38: However subscriptions, cancellations, prices from the venue and readers interleave, the client never sends on a
  closed channel and never closes one twice, no buffer holds more than eight prices, and a
  subscriber is sent only prices of its own coin.
\<close>

theorem price_feed_never_panics:
  assumes "price_init s\<^sub>0" and "price_step\<^sup>*\<^sup>* s\<^sub>0 s"
  shows "\<not> wc_panicked (pf_client s) \<and>
    (\<forall>coin i ch. wc_chans (pf_client s) (coin, i) = Some ch \<longrightarrow>
       length (ch_buf ch) \<le> 8 \<and> (\<forall>bbo \<in> set (ch_out ch @ ch_buf ch). bbo_Coin bbo = coin))"
proof -
  have inv: "price_inv s"
    by (rule price_sys.inv_reachable [OF assms])
  have "chan_ok (coin, i) ch" if "wc_chans (pf_client s) (coin, i) = Some ch" for coin i ch
    using inv that by (auto simp: price_inv_def chans_ok_def split: option.splits)
  then show ?thesis
    using inv by (auto simp: price_inv_def chan_ok_def ch_log_def)
qed

text \<open>A price and a subscriber of its coin.\<close>

definition some_price :: "int \<Rightarrow> BestBidOffer" where
  "some_price n = \<lparr>bbo_Coin = ''BTC'', bbo_Time = n, bbo_Bid = \<lparr>lv_Price = 1, lv_Size = 1\<rparr>, bbo_Ask = \<lparr>lv_Price = Fin 2, lv_Size = 1\<rparr>\<rparr>"

lemma BTC_normal: "normalizeCoin ''BTC'' = ''BTC''"
  by code_simp

lemma price_storedI:
  assumes "t = s\<lparr>pf_client := (pf_client s)\<lparr>wc_coinBbos := (wc_coinBbos (pf_client s))(''BTC'' \<mapsto> some_price n)\<rparr>,
      pf_stored := pf_stored s @ [(''BTC'', some_price n)]\<rparr>"
  shows "price_step s t"
  unfolding assms by (rule price_step.venue_store [where coin = "''BTC''" and bbo = "some_price n"]) (simp add: store_price_def BTC_normal Let_def some_price_def)

text \<open>
  A subscriber that joins while prices arrive can be sent the old price after the new one: it has looked up the latest
  price before the new one was stored, and sends it to itself after the new one was sent to the topic.
\<close>

theorem stale_price_last:
  "\<exists>s. price_step\<^sup>*\<^sup>* no_prices s \<and> wc_coinBbos (pf_client s) ''BTC'' = Some (some_price 2) \<and>
     map_option ch_buf (wc_chans (pf_client s) (''BTC'', 1)) = Some [some_price 2, some_price 1]"
proof -
  define c1 where "c1 = ws_New\<lparr>wc_coinBbos := [''BTC'' \<mapsto> some_price 1]\<rparr>"
  define c2 where "c2 = c1\<lparr>wc_subscriptions := [''orderUpdates'', ''BTC''], wc_feeds := [''BTC''],
    wc_bboTopics := [''BTC'' \<mapsto> \<lparr>bt_subs = [], bt_nextID = 1\<rparr>], wc_chans := [(''BTC'', 1) \<mapsto> make_chan 8]\<rparr>"
  define c3 where "c3 = c2\<lparr>wc_bboTopics := [''BTC'' \<mapsto> \<lparr>bt_subs = [1], bt_nextID = 1\<rparr>]\<rparr>"
  define c4 where "c4 = c3\<lparr>wc_coinBbos := [''BTC'' \<mapsto> some_price 2]\<rparr>"
  define c5 where "c5 = c4\<lparr>wc_chans := [(''BTC'', 1) \<mapsto> (make_chan 8)\<lparr>ch_buf := [some_price 2]\<rparr>]\<rparr>"
  define c6 where "c6 = c4\<lparr>wc_chans := [(''BTC'', 1) \<mapsto> (make_chan 8)\<lparr>ch_buf := [some_price 2, some_price 1]\<rparr>]\<rparr>"
  note c = c1_def c2_def c3_def c4_def c5_def c6_def ws_New_def
  define st where "st = (\<lambda>cl ph stored casts. \<lparr>pf_client = cl, pf_phase = ph, pf_stored = stored, pf_casts = casts\<rparr>)"
  let ?k = "(''BTC'', 1) :: string \<times> int"
  have "price_step no_prices (st c1 Map.empty [(''BTC'', some_price 1)] [])"
    by (rule price_storedI) (simp add: st_def no_prices_def c)
  moreover have "price_step (st c1 Map.empty [(''BTC'', some_price 1)] []) (st c1 Map.empty [] [])"
    using price_step.venue_skip [of "''BTC''" "some_price 1" "st c1 Map.empty [(''BTC'', some_price 1)] []"] by (simp add: st_def c)
  moreover have "SubscribeBBO_open (\<lambda>_. True) ''BTC'' c1 = (Some ?k, c2)"
    by (simp add: SubscribeBBO_open_def BTC_normal EnsureBBO_def ensureBBOTopic_def topic_id_def topic_update_def newBBOTopic_def
        Let_def c)
  then have "price_step (st c1 Map.empty [] []) (st c2 [?k \<mapsto> Made] [] [])"
    using price_step.sub_open [of "\<lambda>_. True" "''BTC''" "st c1 Map.empty [] []" ?k c2] by (simp add: st_def)
  moreover have "price_step (st c2 [?k \<mapsto> Made] [] []) (st c3 [?k \<mapsto> Registered] [] [])"
    using price_step.sub_register [of "st c2 [?k \<mapsto> Made] [] []" ?k] by (simp add: st_def topic_register_def topic_update_def c)
  moreover have "price_step (st c3 [?k \<mapsto> Registered] [] []) (st c3 [?k \<mapsto> Looked (Some (some_price 1))] [] [])"
    using price_step.sub_look [of "st c3 [?k \<mapsto> Registered] [] []" ?k] by (simp add: st_def currentBBO_def BTC_normal c)
  moreover have "price_step (st c3 [?k \<mapsto> Looked (Some (some_price 1))] [] [])
      (st c4 [?k \<mapsto> Looked (Some (some_price 1))] [(''BTC'', some_price 2)] [])"
    by (rule price_storedI) (simp add: st_def c)
  moreover have "price_step (st c4 [?k \<mapsto> Looked (Some (some_price 1))] [(''BTC'', some_price 2)] [])
      (st c4 [?k \<mapsto> Looked (Some (some_price 1))] [] [(''BTC'', some_price 2, [1])])"
    using price_step.venue_lock [of "''BTC''" "some_price 2" "st c4 [?k \<mapsto> Looked (Some (some_price 1))] [(''BTC'', some_price 2)] []" _ "[1]"]
    by (simp add: st_def c)
  moreover have "price_step (st c4 [?k \<mapsto> Looked (Some (some_price 1))] [] [(''BTC'', some_price 2, [1])])
      (st c5 [?k \<mapsto> Looked (Some (some_price 1))] [] [(''BTC'', some_price 2, [])])"
    using price_step.venue_send [of "st c4 [?k \<mapsto> Looked (Some (some_price 1))] [] [(''BTC'', some_price 2, [1])]" "[]" "''BTC''" "some_price 2" 1 "[]" "[]"]
    by (simp add: st_def c bbo_send_def select_send_def make_chan_def)
  moreover have "price_step (st c5 [?k \<mapsto> Looked (Some (some_price 1))] [] [(''BTC'', some_price 2, [])])
      (st c6 [?k \<mapsto> Waiting] [] [(''BTC'', some_price 2, [])])"
    using price_step.sub_send [of "st c5 [?k \<mapsto> Looked (Some (some_price 1))] [] [(''BTC'', some_price 2, [])]" ?k "Some (some_price 1)"]
    by (simp add: st_def c send_current_def bbo_send_def select_send_def make_chan_def)
  ultimately have "price_step\<^sup>*\<^sup>* no_prices (st c6 [?k \<mapsto> Waiting] [] [(''BTC'', some_price 2, [])])"
    by (meson converse_rtranclp_into_rtranclp rtranclp.rtrancl_refl)
  moreover have "wc_coinBbos c6 ''BTC'' = Some (some_price 2)" "map_option ch_buf (wc_chans c6 ?k) = Some [some_price 2, some_price 1]"
    by (simp_all add: c)
  ultimately show ?thesis
    by (force simp: st_def)
qed

definition one_price :: price_system where
  "one_price = no_prices\<lparr>pf_client := ws_New\<lparr>wc_coinBbos := [''BTC'' \<mapsto> some_price 1]\<rparr>, pf_stored := [(''BTC'', some_price 1)]\<rparr>"

theorem price_feed_never_panics_witness:
  "wc_coinBbos (pf_client one_price) ''BTC'' = Some (some_price 1) \<and> \<not> wc_panicked (pf_client one_price)"
proof -
  have "price_step no_prices one_price"
    by (rule price_storedI) (simp add: one_price_def no_prices_def ws_New_def)
  then have "price_step\<^sup>*\<^sup>* no_prices one_price"
    by blast
  from price_feed_never_panics [OF no_prices_init this] show ?thesis
    by (simp add: one_price_def)
qed

text \<open>A coin whose subscription the venue refused once is never subscribed again.\<close>

lemma refused_feed_is_final:
  "\<not> accepts (normalizeCoin coin) \<Longrightarrow> wc_feeds (EnsureBBO accepts coin c) = wc_feeds c \<and>
     EnsureBBO later coin (EnsureBBO accepts coin c) = EnsureBBO accepts coin c"
  by (auto simp: EnsureBBO_def Let_def)

end
