(* ===== verification/Status_Refresh.thy ===== *)
theory Status_Refresh
  imports Storage_Props Emitter
begin

text \<open>
  \<^verbatim>\<open>hl/status_refresher.go\<close>: after a start the latest status of every stored submission is asked from
  its venue and recorded.

  A client is the function that answers \<^verbatim>\<open>QueryOrderByCloid\<close>; the tracker is the function \<open>track\<close> behind
  the interface \<^verbatim>\<open>statusTracker\<close>, whose errors are only logged. One goroutine per identifier asks the
  venue, records the answer under the storage's mutex and tells the tracker; the step
  relation interleaves them in every order, so that it covers every limit on their number.
\<close>

section \<open>One order\<close>

type_synonym status_client = "string \<Rightarrow> string + OrderQueryResult option"

datatype refresh_answer = NoClient | QueryFailed string | NoStatus | Found WsOrder

definition refresh_query :: "(VenueID \<times> status_client) list \<Rightarrow> OrderIdentifier \<Rightarrow> refresh_answer" where
  "refresh_query clients ident =
     (case map_of clients (oi_VenueID ident) of
        None \<Rightarrow> NoClient
      | Some client \<Rightarrow>
          (case client (oi_Hex ident) of
             Inl e \<Rightarrow> QueryFailed e
           | Inr None \<Rightarrow> QueryFailed ''returned nil result''
           | Inr (Some r) \<Rightarrow>
               (case OrderQueryResultToWsOrder (oi_OrderId ident) (Some r) of
                  Inl _ \<Rightarrow> QueryFailed ''convert order''
                | Inr None \<Rightarrow> NoStatus
                | Inr (Some wsOrder) \<Rightarrow> Found wsOrder)))"

definition refreshOne ::
  "(VenueID \<times> status_client) list \<Rightarrow> (OrderIdentifier \<Rightarrow> WsOrder \<Rightarrow> 't \<Rightarrow> 't) option \<Rightarrow> time \<Rightarrow> OrderIdentifier
    \<Rightarrow> Storage \<times> 't \<Rightarrow> (string + bool) \<times> Storage \<times> 't" where
  "refreshOne clients tracker now ident st =
     (case st of (s, t) \<Rightarrow>
        (case refresh_query clients ident of
           NoClient \<Rightarrow> (Inr False, s, t)
         | QueryFailed e \<Rightarrow> (Inl e, s, t)
         | NoStatus \<Rightarrow> (Inr False, s, t)
         | Found wsOrder \<Rightarrow>
             (case RecordHyperliquidStatus now ident wsOrder s of
                (Some e, s) \<Rightarrow> (Inl (error_text e), s, t)
              | (None, s) \<Rightarrow>
                  (Inr True, s, case tracker of None \<Rightarrow> t | Some track \<Rightarrow> track ident wsOrder t))))"

section \<open>All orders\<close>

fun refresh_all ::
  "(VenueID \<times> status_client) list \<Rightarrow> (OrderIdentifier \<Rightarrow> WsOrder \<Rightarrow> 't \<Rightarrow> 't) option \<Rightarrow> time \<Rightarrow> OrderIdentifier list
    \<Rightarrow> Storage \<times> 't \<Rightarrow> string list \<times> Storage \<times> 't" where
  "refresh_all clients tracker now [] st = ([], st)"
| "refresh_all clients tracker now (ident # idents) st =
     (case refreshOne clients tracker now ident st of
        (r, st) \<Rightarrow> map_prod (\<lambda>errs. case r of Inl e \<Rightarrow> e # errs | Inr _ \<Rightarrow> errs) id (refresh_all clients tracker now idents st))"

text \<open>\<^verbatim>\<open>Refresh\<close> with a limit of one goroutine; the result is the list of the errors that are joined.\<close>

definition Refresh ::
  "(VenueID \<times> status_client) list \<Rightarrow> (OrderIdentifier \<Rightarrow> WsOrder \<Rightarrow> 't \<Rightarrow> 't) option \<Rightarrow> time \<Rightarrow> Storage \<times> 't
    \<Rightarrow> string list \<times> Storage \<times> 't" where
  "Refresh clients tracker now st =
     (if clients = [] then ([''status refresher requires at least one Hyperliquid info client''], st)
      else (case ListHyperliquidOrderIds (sg_db (fst st)) of
          Inl e \<Rightarrow> ([error_text e], st)
        | Inr idents \<Rightarrow> refresh_all clients tracker now idents st))"

record 't refresh_system =
  rs_store :: Storage
  rs_tracker :: 't
  rs_todo :: "OrderIdentifier list"
  rs_tell :: "(OrderIdentifier \<times> WsOrder) list"
  rs_errs :: "string list"
  rs_updated :: nat

text \<open>The clock is not behind \<open>start\<close>.\<close>

inductive refresh_step ::
  "(VenueID \<times> status_client) list \<Rightarrow> (OrderIdentifier \<Rightarrow> WsOrder \<Rightarrow> 't \<Rightarrow> 't) \<Rightarrow> time \<Rightarrow> 't refresh_system \<Rightarrow> 't refresh_system \<Rightarrow> bool"
  for clients track start where
  quiet: "ident \<in> set (rs_todo s) \<Longrightarrow> refresh_query clients ident \<in> {NoClient, NoStatus} \<Longrightarrow>
    refresh_step clients track start s (s\<lparr>rs_todo := remove1 ident (rs_todo s)\<rparr>)"
| failed: "ident \<in> set (rs_todo s) \<Longrightarrow> refresh_query clients ident = QueryFailed e \<Longrightarrow>
    refresh_step clients track start s (s\<lparr>rs_todo := remove1 ident (rs_todo s), rs_errs := rs_errs s @ [e]\<rparr>)"
| recorded: "ident \<in> set (rs_todo s) \<Longrightarrow> refresh_query clients ident = Found w \<Longrightarrow> start \<le> now \<Longrightarrow>
    RecordHyperliquidStatus now ident w (rs_store s) = (None, t) \<Longrightarrow>
    refresh_step clients track start s
      (s\<lparr>rs_todo := remove1 ident (rs_todo s), rs_store := t, rs_tell := rs_tell s @ [(ident, w)]\<rparr>)"
| lost: "ident \<in> set (rs_todo s) \<Longrightarrow> refresh_query clients ident = Found w \<Longrightarrow> start \<le> now \<Longrightarrow>
    RecordHyperliquidStatus now ident w (rs_store s) = (Some e, t) \<Longrightarrow>
    refresh_step clients track start s
      (s\<lparr>rs_todo := remove1 ident (rs_todo s), rs_store := t, rs_errs := rs_errs s @ [error_text e]\<rparr>)"
| told: "(ident, w) \<in> set (rs_tell s) \<Longrightarrow>
    refresh_step clients track start s
      (s\<lparr>rs_tell := remove1 (ident, w) (rs_tell s), rs_tracker := track ident w (rs_tracker s), rs_updated := Suc (rs_updated s)\<rparr>)"

inductive_cases refresh_stepE: "refresh_step clients track start s t"

definition refresh_start :: "Storage \<Rightarrow> 't \<Rightarrow> OrderIdentifier list \<Rightarrow> 't refresh_system" where
  "refresh_start s t idents = \<lparr>rs_store = s, rs_tracker = t, rs_todo = idents, rs_tell = [], rs_errs = [], rs_updated = 0\<rparr>"

text \<open>\<^verbatim>\<open>Refresh\<close> with a limit of one is one of these runs: the orders in the order of the list, the tracker told at once.\<close>

lemma refresh_all_run:
  assumes "refresh_all clients (Some track) now idents (s, t) = (errs, s', t')" and "start \<le> now"
  shows "\<exists>k. (refresh_step clients track start)\<^sup>*\<^sup>*
    \<lparr>rs_store = s, rs_tracker = t, rs_todo = idents, rs_tell = [], rs_errs = es, rs_updated = n\<rparr>
    \<lparr>rs_store = s', rs_tracker = t', rs_todo = [], rs_tell = [], rs_errs = es @ errs, rs_updated = n + k\<rparr>"
  using assms(1)
proof (induction idents arbitrary: s t errs es n)
  case (Cons i rest)
  let ?s = "\<lparr>rs_store = s, rs_tracker = t, rs_todo = i # rest, rs_tell = [], rs_errs = es, rs_updated = n\<rparr>"
  let ?step = "refresh_step clients track start"
  obtain r s1 t1 where one: "refreshOne clients (Some track) now i (s, t) = (r, s1, t1)" by (metis surj_pair)
  obtain errs1 where tl: "refresh_all clients (Some track) now rest (s1, t1) = (errs1, s', t')"
      "errs = (case r of Inl e \<Rightarrow> e # errs1 | Inr _ \<Rightarrow> errs1)"
    using Cons.prems one by (cases "refresh_all clients (Some track) now rest (s1, t1)") auto
  have "\<exists>j. ?step\<^sup>*\<^sup>* ?s \<lparr>rs_store = s1, rs_tracker = t1, rs_todo = rest, rs_tell = [],
      rs_errs = es @ (case r of Inl e \<Rightarrow> [e] | Inr _ \<Rightarrow> []), rs_updated = n + j\<rparr>"
  proof (cases "refresh_query clients i")
    case (Found w)
    obtain e u where rec: "RecordHyperliquidStatus now i w s = (e, u)" by force
    show ?thesis
    proof (cases e)
      case None
      let ?m = "?s\<lparr>rs_todo := rest, rs_store := u, rs_tell := [(i, w)]\<rparr>"
      have "?step ?s ?m"
        using refresh_step.recorded [of i ?s clients w start now u track] Found assms(2) rec None by simp
      moreover have "?step ?m (?m\<lparr>rs_tell := [], rs_tracker := track i w t, rs_updated := Suc n\<rparr>)"
        using refresh_step.told [of i w ?m clients track start] by simp
      ultimately show ?thesis
        using one Found rec None by (intro exI [of _ 1]) (auto simp: refreshOne_def)
    next
      case (Some x)
      then have "?step ?s (?s\<lparr>rs_todo := rest, rs_store := u, rs_errs := es @ [error_text x]\<rparr>)"
        using refresh_step.lost [of i ?s clients w start now x u track] Found assms(2) rec by simp
      then show ?thesis
        using one Found rec Some by (intro exI [of _ 0]) (auto simp: refreshOne_def)
    qed
  next
    case (QueryFailed e)
    then show ?thesis
      using refresh_step.failed [of i ?s clients e track start] one by (intro exI [of _ 0]) (auto simp: refreshOne_def)
  qed (use refresh_step.quiet [of i ?s clients track start] one in \<open>auto simp: refreshOne_def intro!: exI [of _ 0]\<close>)
  then obtain j where j: "?step\<^sup>*\<^sup>* ?s \<lparr>rs_store = s1, rs_tracker = t1, rs_todo = rest, rs_tell = [],
      rs_errs = es @ (case r of Inl e \<Rightarrow> [e] | Inr _ \<Rightarrow> []), rs_updated = n + j\<rparr>" ..
  from Cons.IH [OF tl(1), of "es @ (case r of Inl e \<Rightarrow> [e] | Inr _ \<Rightarrow> [])" "n + j"] obtain k where
    "?step\<^sup>*\<^sup>* \<lparr>rs_store = s1, rs_tracker = t1, rs_todo = rest, rs_tell = [],
      rs_errs = es @ (case r of Inl e \<Rightarrow> [e] | Inr _ \<Rightarrow> []), rs_updated = n + j\<rparr>
      \<lparr>rs_store = s', rs_tracker = t', rs_todo = [], rs_tell = [],
      rs_errs = (es @ (case r of Inl e \<Rightarrow> [e] | Inr _ \<Rightarrow> [])) @ errs1, rs_updated = n + j + k\<rparr>" by blast
  with j tl(2) show ?case
    by (intro exI [of _ "j + k"]) (auto simp: add.assoc split: sum.splits intro: rtranclp_trans)
qed (auto intro!: exI [of _ 0])

lemma Refresh_run:
  assumes "Refresh clients (Some track) now (s, t) = (errs, s', t')" and "clients \<noteq> []" and "start \<le> now"
    and "ListHyperliquidOrderIds (sg_db s) = Inr idents"
  shows "\<exists>k. (refresh_step clients track start)\<^sup>*\<^sup>* (refresh_start s t idents)
    \<lparr>rs_store = s', rs_tracker = t', rs_todo = [], rs_tell = [], rs_errs = errs, rs_updated = k\<rparr>"
  using refresh_all_run [of clients track now idents s t errs s' t' start "[]" 0] assms
  by (simp add: Refresh_def refresh_start_def)

section \<open>The rows of an order\<close>

text \<open>What \<^verbatim>\<open>LoadHyperliquidStatus\<close> looks at.\<close>

definition order_key :: "OrderIdentifier \<Rightarrow> string \<times> string \<times> string" where
  "order_key i = (oi_VenueID (ensureIdentifier i), oi_Wallet (ensureIdentifier i), Hex (oi_OrderId i))"

definition status_rows :: "OrderIdentifier \<Rightarrow> Storage \<Rightarrow> HyperliquidStatusHistory list" where
  "status_rows i s = filter (\<lambda>r. sh_order r = order_key i) (db_statuses (sg_db s))"

lemma LoadHyperliquidStatus_rows:
  "status_rows i s = status_rows i t \<Longrightarrow> LoadHyperliquidStatus i (sg_db s) = LoadHyperliquidStatus i (sg_db t)"
  by (simp add: LoadHyperliquidStatus_eq status_rows_def order_key_def)

lemma order_key_eq: "order_key i = order_key j \<longleftrightarrow> ensureIdentifier i = ensureIdentifier j"
  using same_entry [of i j] by (simp add: order_key_def)

text \<open>Recording a status for one order leaves the rows of the others alone.\<close>

lemma RecordHyperliquidStatus_rows:
  assumes "order_key j \<noteq> order_key i"
  shows "status_rows j (snd (RecordHyperliquidStatus now i st s)) = status_rows j s"
  using assms
  by (auto simp: RecordHyperliquidStatus_def Let_def status_attempts_eq status_rows_def sh_order_status_row order_key_def
      split: option.splits)

lemma RecordHyperliquidStatus_default:
  "oi_VenueID i = defaultHyperliquidVenueID \<Longrightarrow> RecordHyperliquidStatus now i st s = (None, s)"
  by (simp add: RecordHyperliquidStatus_def)

section \<open>The identifiers that are refreshed\<close>

lemma decode_identifiers_rows:
  assumes "decode_identifiers rows = Inr idents" and "\<And>v w x. (v, w, x) \<in> set rows \<Longrightarrow> \<exists>oid. x = Hex oid"
  shows "map (\<lambda>i. (oi_VenueID i, oi_Wallet i, Hex (oi_OrderId i))) idents = rows"
  using assms
proof (induction rows arbitrary: idents)
  case (Cons p rows)
  obtain v w oid where p: "p = (v, w, Hex oid)"
    using Cons.prems(2) by (metis list.set_intros(1) prod_cases3)
  obtain rest where "decode_identifiers rows = Inr rest" "idents = \<lparr>oi_VenueID = v, oi_Wallet = w, oi_OrderId = oid\<rparr> # rest"
    using Cons.prems(1) by (cases "decode_identifiers rows") (auto simp: p NewOrderIdentifier_def)
  then show ?case
    using Cons.IH Cons.prems(2) by (auto simp: p)
qed simp

lemma distinct_venue_keys:
  assumes "subs_ok (db_submissions d)" and "distinct venues"
  shows "distinct (concat (map (\<lambda>v. ListHyperliquidOrderIds_query v d) venues))"
  using assms(2)
proof (induction venues)
  case (Cons v venues)
  have "distinct (ListHyperliquidOrderIds_query v d)"
    using assms(1) keys_unique_filter [of hs_key "db_submissions d"]
    by (simp add: ListHyperliquidOrderIds_query_def subs_ok_def keys_unique_def)
  moreover have "fst ` set (ListHyperliquidOrderIds_query v d) \<subseteq> {v}"
    "fst ` set (concat (map (\<lambda>v. ListHyperliquidOrderIds_query v d) venues)) \<subseteq> set venues"
    by (auto simp: ListHyperliquidOrderIds_query_def hs_key_def)
  ultimately show ?case
    using Cons by fastforce
qed simp

lemma refreshed_identifiers:
  assumes "db_ok d" and "ListHyperliquidOrderIds d = Inr idents"
  shows "distinct (map order_key idents)" and "i \<in> set idents \<Longrightarrow> ensureIdentifier i = i"
proof -
  have subs: "subs_ok (db_submissions d)" and venues: "keys_unique vn_ID (db_venues d)"
    using assms(1) by (simp_all add: db_ok_def venues_ok_def)
  have ids: "distinct (map vn_ID (ListVenues d))"
    using venues by (simp add: ListVenues_def keys_unique_def)
  obtain vs where vs: "decode_identifiers (concat (map (\<lambda>v. ListHyperliquidOrderIds_query v d) vs)) = Inr idents" "distinct vs"
  proof (cases "map vn_ID (ListVenues d) = []")
    case True
    then show thesis
      using that [of "[as_VenueID (projr (defaultVenueAssignmentLocked d))]"] assms(2)
      by (auto simp: ListHyperliquidOrderIds_def Let_def split: sum.splits)
  next
    case False
    then show thesis
      using that [of "map vn_ID (ListVenues d)"] assms(2) ids by (simp add: ListHyperliquidOrderIds_def Let_def)
  qed
  let ?rows = "concat (map (\<lambda>v. ListHyperliquidOrderIds_query v d) vs)"
  have rows: "v \<noteq> [] \<and> w \<noteq> [] \<and> (\<exists>oid. x = Hex oid)" if "(v, w, x) \<in> set ?rows" for v w x
    using that subs by (auto simp: ListHyperliquidOrderIds_query_def hs_key_def subs_ok_def sub_row_ok_def)
  then have eq: "map (\<lambda>i. (oi_VenueID i, oi_Wallet i, Hex (oi_OrderId i))) idents = ?rows"
    using decode_identifiers_rows [OF vs(1)] by blast
  have ens: "ensureIdentifier i = i" if "i \<in> set idents" for i
  proof -
    have "(oi_VenueID i, oi_Wallet i, Hex (oi_OrderId i)) \<in> set ?rows"
      using that by (simp flip: eq)
    then show ?thesis
      using rows by (simp add: ensureIdentifier_def)
  qed
  then show "i \<in> set idents \<Longrightarrow> ensureIdentifier i = i" for i .
  have "map order_key idents = ?rows"
    using eq ens by (simp add: order_key_def cong: map_cong)
  then show "distinct (map order_key idents)"
    using distinct_venue_keys [OF subs vs(2)] by simp
qed

section \<open>What a refresh does\<close>

definition failure :: "(VenueID \<times> status_client) list \<Rightarrow> OrderIdentifier \<Rightarrow> string option" where
  "failure clients i = (case refresh_query clients i of QueryFailed e \<Rightarrow> Some e | _ \<Rightarrow> None)"

definition is_found :: "(VenueID \<times> status_client) list \<Rightarrow> OrderIdentifier \<Rightarrow> bool" where
  "is_found clients i = (case refresh_query clients i of Found _ \<Rightarrow> True | _ \<Rightarrow> False)"

text \<open>
  Each identifier is either still to be refreshed, and its rows are those of the beginning, or it has been.
\<close>

definition refresh_inv :: "(VenueID \<times> status_client) list \<Rightarrow> Storage \<Rightarrow> OrderIdentifier list \<Rightarrow> 't refresh_system \<Rightarrow> bool" where
  "refresh_inv clients s\<^sub>0 idents s \<longleftrightarrow>
     distinct (map order_key (rs_todo s)) \<and> set (rs_todo s) \<subseteq> set idents \<and>
     (\<forall>j. (\<forall>i \<in> set idents - set (rs_todo s). is_found clients i \<longrightarrow> order_key i \<noteq> order_key j) \<longrightarrow>
        status_rows j (rs_store s) = status_rows j s\<^sub>0) \<and>
     (\<forall>i \<in> set idents - set (rs_todo s). \<forall>w. refresh_query clients i = Found w \<and> oi_VenueID i \<noteq> defaultHyperliquidVenueID \<longrightarrow>
        LoadHyperliquidStatus i (sg_db (rs_store s)) = Inr (Some w)) \<and>
     mset (rs_errs s) + mset (List.map_filter (failure clients) (rs_todo s)) = mset (List.map_filter (failure clients) idents) \<and>
     rs_updated s + length (rs_tell s) + length (filter (is_found clients) (rs_todo s)) = length (filter (is_found clients) idents)"

lemma mset_map_filter_remove1:
  "x \<in> set xs \<Longrightarrow> mset (List.map_filter f xs) = mset (List.map_filter f [x]) + mset (List.map_filter f (remove1 x xs))"
  by (induction xs) (auto simp: List.map_filter_def)

lemma length_filter_remove1:
  "x \<in> set xs \<Longrightarrow> length (filter P xs) = (if P x then 1 else 0) + length (filter P (remove1 x xs))"
  by (induction xs) auto

lemma length_remove1_in: "x \<in> set xs \<Longrightarrow> length xs = Suc (length (remove1 x xs))"
  by (induction xs) auto

lemma to_UnixMilli_mono: "a \<le> b \<Longrightarrow> to_UnixMilli a \<le> to_UnixMilli b"
  by (simp add: to_UnixMilli_def millisecond_def zdiv_mono1)

text \<open>Taking an identifier off the list.\<close>

lemma todo_remove1:
  assumes "distinct (map order_key todo)" and "set todo \<subseteq> set idents" and "i \<in> set todo"
  shows "distinct (map order_key (remove1 i todo))" and "set (remove1 i todo) \<subseteq> set idents"
    and "set idents - set (remove1 i todo) = insert i (set idents - set todo)"
proof -
  have "distinct todo"
    using assms(1) by (simp add: distinct_map)
  then show "distinct (map order_key (remove1 i todo))" "set (remove1 i todo) \<subseteq> set idents"
    "set idents - set (remove1 i todo) = insert i (set idents - set todo)"
    using assms by (auto simp: distinct_map inj_on_def)
qed

lemma refresh_inv_quiet:
  assumes "refresh_inv clients s\<^sub>0 idents s" and "i \<in> set (rs_todo s)" and "\<not> is_found clients i"
    and "mset errs = mset (rs_errs s) + mset (List.map_filter (failure clients) [i])"
  shows "refresh_inv clients s\<^sub>0 idents (s\<lparr>rs_todo := remove1 i (rs_todo s), rs_errs := errs\<rparr>)"
proof -
  note inv = assms(1) [unfolded refresh_inv_def]
  have "distinct (map order_key (rs_todo s))" "set (rs_todo s) \<subseteq> set idents"
    using inv by simp_all
  note t = todo_remove1 [OF this assms(2)]
  have "refresh_query clients i \<noteq> Found w" for w
    using assms(3) by (auto simp: is_found_def)
  moreover have "mset errs + mset (List.map_filter (failure clients) (remove1 i (rs_todo s))) = mset (List.map_filter (failure clients) idents)"
    using inv assms(4) mset_map_filter_remove1 [OF assms(2), of "failure clients"] by (simp only: ac_simps)
  moreover have "length (filter (is_found clients) (remove1 i (rs_todo s))) = length (filter (is_found clients) (rs_todo s))"
    using length_filter_remove1 [OF assms(2), of "is_found clients"] assms(3) by simp
  ultimately show ?thesis
    using inv assms(3) by (simp add: refresh_inv_def t)
qed

lemma refresh_inv_recorded:
  assumes "refresh_inv clients s\<^sub>0 idents s" and "i \<in> set (rs_todo s)" and "refresh_query clients i = Found w"
    and "distinct (map order_key idents)" and "RecordHyperliquidStatus now i w (rs_store s) = (e, t)"
    and "\<forall>row \<in> set (db_statuses (sg_db s\<^sub>0)). sh_RecordedAtUtc row \<le> to_UnixMilli now"
  shows "e = None \<and> refresh_inv clients s\<^sub>0 idents (s\<lparr>rs_todo := remove1 i (rs_todo s), rs_store := t, rs_tell := rs_tell s @ [(i, w)]\<rparr>)"
proof -
  note inv = assms(1) [unfolded refresh_inv_def]
  have todo: "distinct (map order_key (rs_todo s))" "set (rs_todo s) \<subseteq> set idents"
    using inv by simp_all
  note t = todo_remove1 [OF todo assms(2)]
  have other: "order_key j \<noteq> order_key i" if "j \<in> set idents - set (rs_todo s)" for j
    using that assms(2,4) todo(2) by (auto simp: distinct_map inj_on_def)
  have found: "is_found clients i" "failure clients i = None"
    using assms(3) by (simp_all add: is_found_def failure_def)
  have same: "status_rows i (rs_store s) = status_rows i s\<^sub>0"
    using inv other by blast
  have rows: "\<forall>row \<in> set (db_statuses (sg_db (rs_store s))). sh_order row = order_key i \<longrightarrow> sh_RecordedAtUtc row \<le> to_UnixMilli now"
  proof (intro ballI impI)
    fix row assume "row \<in> set (db_statuses (sg_db (rs_store s)))" "sh_order row = order_key i"
    then have "row \<in> set (status_rows i (rs_store s))"
      by (simp add: status_rows_def)
    then have "row \<in> set (status_rows i s\<^sub>0)"
      by (simp only: same)
    then show "sh_RecordedAtUtc row \<le> to_UnixMilli now"
      using assms(6) by (simp add: status_rows_def)
  qed
  have rt: "e = None \<and> LoadHyperliquidStatus i (sg_db t) = Inr (Some w)" if "oi_VenueID i \<noteq> defaultHyperliquidVenueID"
    using status_roundtrip [OF that, of "rs_store s" now w] rows assms(5) by (simp add: order_key_def)
  have e: "e = None"
    using rt assms(5) by (cases "oi_VenueID i = defaultHyperliquidVenueID") (auto simp: RecordHyperliquidStatus_default)
  have keep: "status_rows j t = status_rows j (rs_store s)" if "order_key j \<noteq> order_key i" for j
    using RecordHyperliquidStatus_rows [OF that, of now w "rs_store s"] assms(5) by simp
  have "LoadHyperliquidStatus j (sg_db t) = LoadHyperliquidStatus j (sg_db (rs_store s))" if "j \<in> set idents - set (rs_todo s)" for j
    by (rule LoadHyperliquidStatus_rows [OF keep [OF other [OF that]]])
  moreover have "mset (rs_errs s) + mset (List.map_filter (failure clients) (remove1 i (rs_todo s))) = mset (List.map_filter (failure clients) idents)"
    using inv mset_map_filter_remove1 [OF assms(2), of "failure clients"] found(2) by (simp add: List.map_filter_def)
  moreover have "length (filter (is_found clients) (rs_todo s)) = Suc (length (filter (is_found clients) (remove1 i (rs_todo s))))"
    using length_filter_remove1 [OF assms(2), of "is_found clients"] found(1) by simp
  moreover have "status_rows j t = status_rows j s\<^sub>0"
    if "order_key i \<noteq> order_key j" "\<forall>i \<in> set idents - set (rs_todo s). is_found clients i \<longrightarrow> order_key i \<noteq> order_key j" for j
    using inv keep [of j] that by metis
  ultimately show ?thesis
    using inv e rt found(1) assms(3) by (simp add: refresh_inv_def t)
qed

lemma refresh_inv_step:
  assumes "refresh_inv clients s\<^sub>0 idents s" and "refresh_step clients track start s t" and "distinct (map order_key idents)"
    and "\<forall>row \<in> set (db_statuses (sg_db s\<^sub>0)). sh_RecordedAtUtc row \<le> to_UnixMilli start"
  shows "refresh_inv clients s\<^sub>0 idents t"
  using assms(2)
proof cases
  case (quiet ident)
  then have "\<not> is_found clients ident" "failure clients ident = None"
    by (auto simp: is_found_def failure_def)
  with refresh_inv_quiet [OF assms(1) quiet(2), of "rs_errs s"] show ?thesis
    by (simp add: quiet(1) List.map_filter_def)
next
  case (failed ident e)
  then have "\<not> is_found clients ident" "failure clients ident = Some e"
    by (auto simp: is_found_def failure_def)
  with refresh_inv_quiet [OF assms(1) failed(2), of "rs_errs s @ [e]"] show ?thesis
    by (simp add: failed(1) List.map_filter_def)
next
  case (recorded ident w now t')
  have "\<forall>row \<in> set (db_statuses (sg_db s\<^sub>0)). sh_RecordedAtUtc row \<le> to_UnixMilli now"
    using assms(4) to_UnixMilli_mono [OF recorded(4)] by force
  from refresh_inv_recorded [OF assms(1) recorded(2,3) assms(3) recorded(5) this] show ?thesis
    by (simp add: recorded(1))
next
  case (lost ident w now e t')
  have "\<forall>row \<in> set (db_statuses (sg_db s\<^sub>0)). sh_RecordedAtUtc row \<le> to_UnixMilli now"
    using assms(4) to_UnixMilli_mono [OF lost(4)] by force
  from refresh_inv_recorded [OF assms(1) lost(2,3) assms(3) lost(5) this] show ?thesis
    by simp
next
  case (told ident w)
  then show ?thesis
    using assms(1) length_remove1_in [OF told(2)] by (simp add: refresh_inv_def told(1))
qed

lemma refresh_inv_start:
  "distinct (map order_key idents) \<Longrightarrow> refresh_inv clients s idents (refresh_start s tr idents)"
  by (simp add: refresh_inv_def refresh_start_def)

text \<open>
  C39: A refresh brings every order up to date, in whatever order its goroutines run. From a storage the
  program can reach and with a clock that is not behind the statuses it holds: when all have ended, the status of every stored order
  whose venue returned one is the one the venue returned (orders of the default alias excepted,
  which has none of its own), the status of every other identifier is what it was, the errors are the failed queries, one each, and the
  tracker was told once of each status that was found. Recording never fails.
\<close>

theorem refresh_outcome:
  assumes "storage_init s\<^sub>0" and "storage_step\<^sup>*\<^sup>* s\<^sub>0 s" and "ListHyperliquidOrderIds (sg_db s) = Inr idents"
    and "\<forall>row \<in> set (db_statuses (sg_db s)). sh_RecordedAtUtc row \<le> to_UnixMilli start"
    and "(refresh_step clients track start)\<^sup>*\<^sup>* (refresh_start s tr idents) t" and "rs_todo t = []" and "rs_tell t = []"
  shows "(\<forall>i \<in> set idents. \<forall>w. refresh_query clients i = Found w \<and> oi_VenueID i \<noteq> defaultHyperliquidVenueID \<longrightarrow>
       LoadHyperliquidStatus i (sg_db (rs_store t)) = Inr (Some w)) \<and>
    (\<forall>j. (\<forall>i \<in> set idents. is_found clients i \<longrightarrow> ensureIdentifier i \<noteq> ensureIdentifier j) \<longrightarrow>
       LoadHyperliquidStatus j (sg_db (rs_store t)) = LoadHyperliquidStatus j (sg_db s)) \<and>
    mset (rs_errs t) = mset (List.map_filter (failure clients) idents) \<and>
    rs_updated t = length (filter (is_found clients) idents)"
proof -
  have ok: "db_ok (sg_db s)"
    using storage_sys.inv_reachable [OF assms(1,2)] by (simp add: storage_ok_def)
  note d = refreshed_identifiers(1) [OF ok assms(3)]
  have inv: "refresh_inv clients s idents t"
    using assms(5) by (induction rule: rtranclp_induct) (auto intro: refresh_inv_start [OF d] refresh_inv_step [OF _ _ d assms(4)])
  have "LoadHyperliquidStatus j (sg_db (rs_store t)) = LoadHyperliquidStatus j (sg_db s)"
    if "\<forall>i \<in> set idents. is_found clients i \<longrightarrow> ensureIdentifier i \<noteq> ensureIdentifier j" for j
    using inv that assms(6) by (intro LoadHyperliquidStatus_rows) (simp add: refresh_inv_def order_key_eq)
  then show ?thesis
    using inv assms(6,7) by (simp add: refresh_inv_def List.map_filter_def)
qed

text \<open>
  A refresh ends: no run goes on forever, and it can go on as long as an order is waiting or the tracker has
  not been told.
\<close>

theorem refresh_terminates:
  "wfp (\<lambda>t s. refresh_step clients track start s t) \<and>
   ((\<exists>t. refresh_step clients track start s t) \<longleftrightarrow> rs_todo s \<noteq> [] \<or> rs_tell s \<noteq> [])"
proof
  let ?m = "\<lambda>s. 2 * length (rs_todo s) + length (rs_tell s)"
  have "?m t < ?m s" if "refresh_step clients track start s t" for s t
    using that by cases (auto dest!: length_remove1_in)
  then show "wfp (\<lambda>t s. refresh_step clients track start s t)"
    by (intro wfp_if_convertible_to_nat [where f = ?m]) auto
  have "\<exists>t. refresh_step clients track start s t" if "ident \<in> set (rs_todo s)" for ident
  proof (cases "refresh_query clients ident")
    case (Found w)
    obtain e t where r: "RecordHyperliquidStatus start ident w (rs_store s) = (e, t)"
      by force
    show ?thesis
    proof (cases e)
      case None
      then show ?thesis
        using refresh_step.recorded [OF that Found order_refl] r by blast
    next
      case (Some x)
      then show ?thesis
        using refresh_step.lost [OF that Found order_refl] r by blast
    qed
  qed (use that refresh_step.quiet refresh_step.failed in blast)+
  moreover have "\<exists>t. refresh_step clients track start s t" if "p \<in> set (rs_tell s)" for p
    using that refresh_step.told [of "fst p" "snd p" s] by (auto simp del: split_paired_Ex)
  ultimately have "\<exists>t. refresh_step clients track start s t" if "rs_todo s \<noteq> [] \<or> rs_tell s \<noteq> []"
    using that by (metis last_in_set)
  moreover have "rs_todo s \<noteq> [] \<or> rs_tell s \<noteq> []" if "refresh_step clients track start s t" for t
    using that by cases auto
  ultimately show "(\<exists>t. refresh_step clients track start s t) \<longleftrightarrow> rs_todo s \<noteq> [] \<or> rs_tell s \<noteq> []"
    by blast
qed

text \<open>A storage with one venue and one order on it, and a venue that knows the order.\<close>

definition venue_storage :: Storage where
  "venue_storage = snd (Storage_UpsertVenue ''hl'' \<lparr>ur_Type = ''hyperliquid'', ur_DisplayName = ''hl'', ur_Wallet = ''w'', ur_Flags = None\<rparr>
     fresh_storage)"

definition open_order :: OrderIdentifier where
  "open_order = \<lparr>oi_VenueID = ''hl'', oi_Wallet = ''w'', oi_OrderId = \<lparr>BotID = 1, DealID = 2, BotEventID = 3\<rparr>\<rparr>"

definition order_storage :: Storage where
  "order_storage = snd (RecordHyperliquidOrderRequest 5 open_order sample_create 0 venue_storage)"

definition known_order :: status_client where
  "known_order cloid = Inr (Some \<lparr>qr_success = True, qr_order = sample_live\<lparr>ws_Order := (ws_Order sample_live)\<lparr>wo_Cloid := Some cloid\<rparr>\<rparr>\<rparr>)"

lemma order_storage_facts:
  "storage_step\<^sup>*\<^sup>* fresh_storage order_storage" "db_statuses (sg_db order_storage) = []"
  "ListHyperliquidOrderIds (sg_db order_storage) = Inr [open_order]"
proof -
  have "storage_step fresh_storage venue_storage" "storage_step venue_storage order_storage"
    unfolding venue_storage_def order_storage_def by (rule storage_step.intros)+
  then show "storage_step\<^sup>*\<^sup>* fresh_storage order_storage"
    by simp
  have v: "map vn_ID (ListVenues (sg_db venue_storage)) = [''hl'', defaultHyperliquidVenueID]" "db_submissions (sg_db venue_storage) = []"
    "db_statuses (sg_db venue_storage) = []"
    by code_simp+
  show "db_statuses (sg_db order_storage) = []"
    by (simp add: order_storage_def RecordHyperliquidOrderRequest_effect v)
  have e: "ensureIdentifier open_order = open_order"
    by (simp add: open_order_def ensureIdentifier_def)
  have "map vn_ID (ListVenues (sg_db order_storage)) = [''hl'', defaultHyperliquidVenueID]"
    using v(1) by (simp add: order_storage_def RecordHyperliquidOrderRequest_effect ListVenues_def)
  moreover have "db_submissions (sg_db order_storage) = [create_row 5 open_order sample_create 0]"
    by (simp add: order_storage_def RecordHyperliquidOrderRequest_effect v)
  ultimately show "ListHyperliquidOrderIds (sg_db order_storage) = Inr [open_order]"
    by (simp add: ListHyperliquidOrderIds_def ListHyperliquidOrderIds_query_def new_submission_def hs_key_def e order_by_def Let_def
        defaultHyperliquidVenueID_def) (simp add: open_order_def NewOrderIdentifier_def)
qed

theorem refresh_outcome_witness:
  "\<exists>t w. (refresh_step [(''hl'', known_order)] (\<lambda>_ _ n. Suc n) 9)\<^sup>*\<^sup>* (refresh_start order_storage 0 [open_order]) t \<and>
     refresh_query [(''hl'', known_order)] open_order = Found w \<and> ws_Status w = ''open'' \<and>
     LoadHyperliquidStatus open_order (sg_db (rs_store t)) = Inr (Some w) \<and> rs_updated t = 1 \<and> rs_errs t = []"
proof -
  let ?clients = "[(''hl'', known_order)]" and ?s = "refresh_start order_storage 0 [open_order] :: nat refresh_system"
  obtain w where w: "refresh_query ?clients open_order = Found w" "ws_Status w = ''open''"
    by (simp add: refresh_query_def open_order_def known_order_def OrderQueryResultToWsOrder_def sample_live_def)
  let ?t = "snd (RecordHyperliquidStatus 9 open_order w order_storage)"
  have d: "oi_VenueID open_order \<noteq> defaultHyperliquidVenueID"
    by (simp add: open_order_def defaultHyperliquidVenueID_def)
  have r: "RecordHyperliquidStatus 9 open_order w (rs_store ?s) = (None, ?t)"
    using status_roundtrip [OF d, of order_storage 9 w] order_storage_facts(2) by (auto simp: refresh_start_def prod_eq_iff)
  let ?s1 = "?s\<lparr>rs_todo := remove1 open_order (rs_todo ?s), rs_store := ?t, rs_tell := rs_tell ?s @ [(open_order, w)]\<rparr>"
  let ?s2 = "?s1\<lparr>rs_tell := remove1 (open_order, w) (rs_tell ?s1), rs_tracker := Suc (rs_tracker ?s1), rs_updated := Suc (rs_updated ?s1)\<rparr>"
  have "refresh_step ?clients (\<lambda>_ _ n. Suc n) 9 ?s ?s1"
    by (rule refresh_step.recorded [OF _ w(1) order_refl r]) (simp add: refresh_start_def)
  moreover have "refresh_step ?clients (\<lambda>_ _ n. Suc n) 9 ?s1 ?s2"
    by (rule refresh_step.told) simp
  ultimately have run: "(refresh_step ?clients (\<lambda>_ _ n. Suc n) 9)\<^sup>*\<^sup>* ?s ?s2"
    by simp
  have "rs_todo ?s2 = []" "rs_tell ?s2 = []"
    by (simp_all add: refresh_start_def)
  from refresh_outcome [OF fresh_storage_init order_storage_facts(1,3) _ run this] order_storage_facts(2) w d run
  show ?thesis
    by (intro exI [of _ ?s2] exI [of _ w]) (simp add: is_found_def failure_def List.map_filter_def)
qed

end
