(* ===== verification/Startup.thy ===== *)
theory Startup
  imports Listing_Props Status_Refresh Price_Feed Vault
begin

text \<open>
  What \<^verbatim>\<open>cmd/recomma\<close> does once the vault is unsealed: \<^verbatim>\<open>initializeHyperliquidVenues\<close> of \<^verbatim>\<open>app.go\<close> with its
  helpers in \<^verbatim>\<open>hyperliquid_bootstrap.go\<close> and \<^verbatim>\<open>hyperliquid_helpers.go\<close>.

  The clients of the SDK are known by what they are built from: an info client by its URL and its wallet, the emitter of a
  venue by the venue, the wallet, the gate it shares and the info client its constraints come from. Whether the SDK
  can build an exchange client or open a websocket is a parameter, as are the values of the
  venues' flags as JSON.
\<close>

section \<open>Choosing a price source\<close>

text \<open>
  \<^verbatim>\<open>priceSourceMultiplexer.SubscribeBBO\<close>: the primary venue first, then the others in order. \<open>subscribe\<close> is the client of a
  venue, which returns a channel or an error; the result has the errors met on the way.
\<close>

record 'ch price_mux =
  mx_primary :: VenueID
  mx_order :: "VenueID list"
  mx_sources :: "(VenueID \<times> (string \<Rightarrow> string + 'ch)) list"

fun try_sources :: "'ch price_mux \<Rightarrow> string \<Rightarrow> VenueID list \<Rightarrow> string list \<Rightarrow> string list + 'ch" where
  "try_sources m coin [] errs = Inl errs"
| "try_sources m coin (v # vs) errs =
     (case map_of (mx_sources m) v of
        None \<Rightarrow> try_sources m coin vs errs
      | Some subscribe \<Rightarrow>
          (case subscribe coin of
             Inl e \<Rightarrow> try_sources m coin vs (errs @ [e])
           | Inr ch \<Rightarrow> Inr ch))"

definition mux_SubscribeBBO :: "'ch price_mux \<Rightarrow> string \<Rightarrow> string list + 'ch" where
  "mux_SubscribeBBO m coin =
     (if mx_sources m = [] then Inl [''no hyperliquid price sources configured'']
      else (case try_sources m coin ((if mx_primary m = [] then [] else [mx_primary m]) @ filter (\<lambda>v. v \<noteq> mx_primary m) (mx_order m)) [] of
          Inr ch \<Rightarrow> Inr ch
        | Inl errs \<Rightarrow> Inl (if errs = [] then [''no hyperliquid price source available''] else errs)))"

section \<open>Registries\<close>

definition registerHyperliquidEmitter ::
  "'e option \<Rightarrow> VenueID \<Rightarrow> VenueID \<Rightarrow> VenueID \<Rightarrow> 'e QueueEmitter \<Rightarrow> 'e QueueEmitter" where
  "registerHyperliquidEmitter submitter venueIdent primaryIdent defaultIdent queue =
     (case submitter of
        None \<Rightarrow> queue
      | Some e \<Rightarrow>
          let queue = Register venueIdent (Some e) queue in
          if venueIdent \<noteq> primaryIdent then queue
          else if defaultIdent = [] \<or> defaultIdent = venueIdent then queue
          else Register defaultIdent (Some e) queue)"

definition registerHyperliquidStatusClient ::
  "'c \<Rightarrow> VenueID \<Rightarrow> VenueID \<Rightarrow> VenueID \<Rightarrow> (VenueID \<times> 'c) list \<Rightarrow> (VenueID \<times> 'c) list" where
  "registerHyperliquidStatusClient client venueIdent primaryIdent defaultIdent reg =
     (let reg = AList.update venueIdent client reg in
      if venueIdent \<noteq> primaryIdent then reg
      else if defaultIdent = [] \<or> defaultIdent = venueIdent then reg
      else AList.update defaultIdent client reg)"

section \<open>The primary venue of every bot\<close>

datatype startup_error =
  ListBotsError store_error | CheckPrimary int store_error | AssignPrimary int venue_error | VenueConfig string
| PersistVenue venue_error | SDKError string | DefaultAlias store_error | DefaultWallet store_error

fun assign_bots :: "time \<Rightarrow> VenueID \<Rightarrow> BotItem list \<Rightarrow> Storage \<Rightarrow> startup_error option \<times> Storage" where
  "assign_bots now primaryVenue [] s = (None, s)"
| "assign_bots now primaryVenue (item # bots) s =
     (let botID = bot_Id (bi_Bot item) in
      if botID \<le> 0 then assign_bots now primaryVenue bots s
      else (case HasPrimaryVenueAssignment (word_of_int botID) (sg_db s) of
          Inl e \<Rightarrow> (Some (CheckPrimary botID e), s)
        | Inr True \<Rightarrow> assign_bots now primaryVenue bots s
        | Inr False \<Rightarrow>
            (case UpsertVenueAssignment now primaryVenue botID True s of
               (Inl e, s) \<Rightarrow> (Some (AssignPrimary botID e), s)
             | (Inr _, s) \<Rightarrow> assign_bots now primaryVenue bots s)))"

text \<open>The loop over the pages of the listing, with fuel for the number of pages.\<close>

definition all_bots :: ListBotsOptions where
  "all_bots = \<lparr>lb_BotID = None, lb_UpdatedFrom = None, lb_UpdatedTo = None, lb_Limit = 100, lb_PageToken = []\<rparr>"

fun sync_pages :: "nat \<Rightarrow> time \<Rightarrow> VenueID \<Rightarrow> string \<Rightarrow> Storage \<Rightarrow> (startup_error option \<times> Storage) option" where
  "sync_pages 0 now primaryVenue token s = None"
| "sync_pages (Suc fuel) now primaryVenue token s =
     (case ListBots (all_bots\<lparr>lb_PageToken := token\<rparr>) (sg_db s) of
        Inl e \<Rightarrow> Some (Some (ListBotsError e), s)
      | Inr (bots, next_token) \<Rightarrow>
          if bots = [] then Some (None, s)
          else (case assign_bots now primaryVenue bots s of
              (Some e, s) \<Rightarrow> Some (Some e, s)
            | (None, s) \<Rightarrow>
                (case next_token of
                   None \<Rightarrow> Some (None, s)
                 | Some t \<Rightarrow> if t = [] then Some (None, s) else sync_pages fuel now primaryVenue t s)))"

definition syncPrimaryVenueAssignments ::
  "nat \<Rightarrow> time \<Rightarrow> VenueID \<Rightarrow> Storage \<Rightarrow> (startup_error option \<times> Storage) option" where
  "syncPrimaryVenueAssignments fuel now primaryVenue s =
     (if primaryVenue = [] then Some (None, s) else sync_pages fuel now primaryVenue [] s)"

section \<open>The venues\<close>

definition cloneVenueFlags :: "(string \<times> 'v) list option \<Rightarrow> (string \<times> 'v) list option" where
  "cloneVenueFlags src = src"

definition decorateVenueFlags :: "(string \<times> json) list option \<Rightarrow> bool \<Rightarrow> (string \<times> json) list option" where
  "decorateVenueFlags src isPrimary =
     (case cloneVenueFlags src of
        None \<Rightarrow> if isPrimary then Some [(''is_primary'', JBool True)] else None
      | Some flags \<Rightarrow> Some (AList.update ''is_primary'' (JBool isPrimary) flags))"

definition shouldUseSentinelDefaultHyperliquidWallet ::
  "VenueSecret list \<Rightarrow> VenueID \<Rightarrow> string \<Rightarrow> VenueID \<Rightarrow> bool" where
  "shouldUseSentinelDefaultHyperliquidWallet venues primaryIdent primaryWallet defaultIdent =
     (let trimmedPrimary = TrimSpace primaryWallet in
      trimmedPrimary \<noteq> [] \<and>
      list_ex (\<lambda>venue.
        let venueID = TrimSpace (vs_ID venue) in
        EqualFold (vs_Type venue) ''hyperliquid'' \<and> venueID \<noteq> defaultIdent \<and>
        \<not> (primaryIdent \<noteq> [] \<and> EqualFold venueID primaryIdent) \<and>
        EqualFold (TrimSpace (vs_Wallet venue)) trimmedPrimary) venues)"

text \<open>An info client, a venue's emitter, and what the loop over the venues builds up.\<close>

type_synonym info_client = "string \<times> string"

record venue_emitter =
  ve_venue :: VenueID
  ve_wallet :: string
  ve_apiURL :: string
  ve_gate :: nat
  ve_constraints :: info_client

record wiring =
  wr_store :: Storage
  wr_status :: "(VenueID \<times> info_client) list"
  wr_ws :: "(VenueID \<times> string) list"
  wr_order :: "VenueID list"
  wr_gates :: "((string \<times> string) \<times> nat) list"
  wr_constraints :: "info_client option"
  wr_emitter :: "venue_emitter QueueEmitter"

text \<open>The gate of a type and a wallet, made when it is first asked for.\<close>

definition gate_for :: "string \<Rightarrow> string \<Rightarrow> ((string \<times> string) \<times> nat) list \<Rightarrow> nat \<times> ((string \<times> string) \<times> nat) list" where
  "gate_for venueType wallet gates =
     (let key = (ToLower venueType, ToLower wallet) in
      case map_of gates key of
        Some g \<Rightarrow> (g, gates)
      | None \<Rightarrow> (length gates, gates @ [(key, length gates)]))"

record sdk =
  sdk_flag :: "string \<Rightarrow> json"
  sdk_exchange :: "string \<Rightarrow> string \<Rightarrow> string \<Rightarrow> string option"
  sdk_ws :: "VenueID \<Rightarrow> string \<Rightarrow> string \<Rightarrow> string option"

definition init_venue ::
  "sdk \<Rightarrow> VenueID \<Rightarrow> string \<Rightarrow> VenueID \<Rightarrow> VenueSecret \<Rightarrow> wiring \<Rightarrow> startup_error option \<times> wiring" where
  "init_venue x primaryIdent primaryAPIURL defaultIdent venue w =
     (let venueID = TrimSpace (vs_ID venue); wallet = TrimSpace (vs_Wallet venue);
          privateKey = TrimSpace (vs_PrivateKey venue) in
      if \<not> EqualFold (vs_Type venue) ''hyperliquid'' then (None, w)
      else if venueID = [] then (Some (VenueConfig ''hyperliquid venue missing identifier''), w)
      else if wallet = [] then (Some (VenueConfig ''hyperliquid venue missing wallet''), w)
      else if privateKey = [] then (Some (VenueConfig ''hyperliquid venue missing private key''), w)
      else
        let displayName = (if TrimSpace (vs_DisplayName venue) = [] then venueID else TrimSpace (vs_DisplayName venue));
            apiURL = (if TrimSpace (vs_APIURL venue) = [] then primaryAPIURL else TrimSpace (vs_APIURL venue));
            wsURL = (if TrimSpace (vs_WebsocketURL venue) = [] then apiURL else TrimSpace (vs_WebsocketURL venue));
            payload = \<lparr>ur_Type = ''hyperliquid'', ur_DisplayName = displayName, ur_Wallet = wallet,
              ur_Flags = decorateVenueFlags (map_option (map (map_prod id (sdk_flag x))) (vs_Flags venue)) (vs_Primary venue)\<rparr>
        in (case Storage_UpsertVenue venueID payload (wr_store w) of
              (Inl e, s) \<Rightarrow> (Some (PersistVenue e), w\<lparr>wr_store := s\<rparr>)
            | (Inr _, s) \<Rightarrow>
                let w = w\<lparr>wr_store := s\<rparr> in
                (case sdk_exchange x apiURL wallet privateKey of
                   Some e \<Rightarrow> (Some (SDKError e), w)
                 | None \<Rightarrow>
                     let info = (apiURL, wallet);
                         w = w\<lparr>wr_status := registerHyperliquidStatusClient info venueID primaryIdent defaultIdent (wr_status w),
                               wr_constraints := (if wr_constraints w = None \<or> venueID = primaryIdent then Some info else wr_constraints w)\<rparr>
                     in (case sdk_ws x venueID wallet (httpToWsURL wsURL) of
                           Some e \<Rightarrow> (Some (SDKError e), w)
                         | None \<Rightarrow>
                             let (g, gates) = gate_for (vs_Type venue) wallet (wr_gates w);
                                 submitter = \<lparr>ve_venue = venueID, ve_wallet = wallet, ve_apiURL = apiURL, ve_gate = g,
                                   ve_constraints = the (wr_constraints w)\<rparr>
                             in (None, w\<lparr>wr_ws := AList.update venueID (httpToWsURL wsURL) (wr_ws w), wr_order := wr_order w @ [venueID],
                                   wr_gates := gates,
                                   wr_emitter := registerHyperliquidEmitter (Some submitter) venueID primaryIdent defaultIdent (wr_emitter w)\<rparr>)))))"

fun init_venues ::
  "sdk \<Rightarrow> VenueID \<Rightarrow> string \<Rightarrow> VenueID \<Rightarrow> VenueSecret list \<Rightarrow> wiring \<Rightarrow> startup_error option \<times> wiring" where
  "init_venues x primaryIdent primaryAPIURL defaultIdent [] w = (None, w)"
| "init_venues x primaryIdent primaryAPIURL defaultIdent (venue # venues) w =
     (case init_venue x primaryIdent primaryAPIURL defaultIdent venue w of
        (Some e, w) \<Rightarrow> (Some e, w)
      | (None, w) \<Rightarrow> init_venues x primaryIdent primaryAPIURL defaultIdent venues w)"

definition new_wiring :: "Storage \<Rightarrow> wiring" where
  "new_wiring s = \<lparr>wr_store = s, wr_status = [], wr_ws = [], wr_order = [], wr_gates = [], wr_constraints = None,
     wr_emitter = NewQueueEmitter\<rparr>"

text \<open>
  \<^verbatim>\<open>initializeHyperliquidVenues\<close> up to the status refresh, with fuel for the pages of bots.
\<close>

definition initializeHyperliquidVenues ::
  "nat \<Rightarrow> time \<Rightarrow> sdk \<Rightarrow> Secrets \<Rightarrow> Storage \<Rightarrow> (startup_error option \<times> wiring) option" where
  "initializeHyperliquidVenues fuel now x secrets s =
     (case PrimaryVenueByType ''hyperliquid'' (sc_Secrets secrets) of
        None \<Rightarrow> Some (Some (VenueConfig ''no primary hyperliquid venue configured''), new_wiring s)
      | Some primary \<Rightarrow>
          let primaryIdent = TrimSpace (vs_ID primary); primaryWallet = TrimSpace (vs_Wallet primary);
              primaryAPIURL = TrimSpace (vs_APIURL primary) in
          if primaryIdent = [] then Some (Some (VenueConfig ''primary hyperliquid venue missing identifier''), new_wiring s)
          else if primaryWallet = [] then Some (Some (VenueConfig ''primary hyperliquid venue missing wallet''), new_wiring s)
          else if primaryAPIURL = [] then Some (Some (VenueConfig ''primary hyperliquid venue missing api_url''), new_wiring s)
          else (case ResolveDefaultAlias (sg_db s) of
              Inl e \<Rightarrow> Some (Some (DefaultAlias e), new_wiring s)
            | Inr alias \<Rightarrow>
                let defaultIdent = as_VenueID alias;
                    defaultVenueWallet = (if shouldUseSentinelDefaultHyperliquidWallet (Venues (sc_Secrets secrets)) primaryIdent primaryWallet
                      defaultIdent then [] else primaryWallet)
                in (case init_venues x primaryIdent primaryAPIURL defaultIdent (Venues (sc_Secrets secrets)) (new_wiring s) of
                      (Some e, w) \<Rightarrow> Some (Some e, w)
                    | (None, w) \<Rightarrow>
                        (case EnsureDefaultVenueWallet defaultVenueWallet (wr_store w) of
                           (Some e, s) \<Rightarrow> Some (Some (DefaultWallet e), w\<lparr>wr_store := s\<rparr>)
                         | (None, s) \<Rightarrow>
                             let w = w\<lparr>wr_store := s\<rparr> in
                             if wr_status w = [] then Some (Some (VenueConfig ''no hyperliquid venues configured''), w)
                             else if map_of (wr_status w) primaryIdent = None
                             then Some (Some (VenueConfig ''primary hyperliquid venue missing from configuration''), w)
                             else if wr_constraints w = None
                             then Some (Some (VenueConfig ''unable to resolve constraints info client''), w)
                             else map_option (\<lambda>(e, s). (e, w\<lparr>wr_store := s\<rparr>))
                               (syncPrimaryVenueAssignments fuel now primaryIdent (wr_store w))))))"

section \<open>Price sources\<close>

text \<open>The source that is taken is the first in the order of priority that accepts; none is taken only if all refuse.\<close>

definition accepts_coin :: "'ch price_mux \<Rightarrow> string \<Rightarrow> VenueID \<Rightarrow> 'ch option" where
  "accepts_coin m coin v = Option.bind (map_of (mx_sources m) v) (\<lambda>subscribe. case subscribe coin of Inl _ \<Rightarrow> None | Inr ch \<Rightarrow> Some ch)"

lemma try_sources_Inr:
  "try_sources m coin vs errs = Inr ch \<longleftrightarrow> List.find (\<lambda>v. accepts_coin m coin v \<noteq> None) vs \<noteq> None \<and>
     accepts_coin m coin (the (List.find (\<lambda>v. accepts_coin m coin v \<noteq> None) vs)) = Some ch"
  by (induction vs arbitrary: errs) (auto simp: accepts_coin_def split: option.splits sum.splits)

lemma price_source_priority:
  "mux_SubscribeBBO m coin = Inr ch \<longleftrightarrow>
     (\<exists>v. List.find (\<lambda>v. accepts_coin m coin v \<noteq> None)
        ((if mx_primary m = [] then [] else [mx_primary m]) @ filter (\<lambda>v. v \<noteq> mx_primary m) (mx_order m)) = Some v \<and>
      accepts_coin m coin v = Some ch)"
proof -
  let ?vs = "(if mx_primary m = [] then [] else [mx_primary m]) @ filter (\<lambda>v. v \<noteq> mx_primary m) (mx_order m)"
  have "mux_SubscribeBBO m coin = Inr ch \<longleftrightarrow> mx_sources m \<noteq> [] \<and> try_sources m coin ?vs [] = Inr ch"
    by (simp only: mux_SubscribeBBO_def) (cases "try_sources m coin ?vs []"; simp)
  moreover have "List.find (\<lambda>v. accepts_coin m coin v \<noteq> None) ?vs = None" if "mx_sources m = []"
    using that by (simp add: accepts_coin_def find_None_iff)
  ultimately show ?thesis unfolding try_sources_Inr
    by (cases "List.find (\<lambda>v. accepts_coin m coin v \<noteq> None) ?vs") (simp, metis option.distinct(1) option.sel)
qed

section \<open>Assigning the bots\<close>

text \<open>The primary venue of a bot is the venue of a row with the flag, and there is at most one.\<close>

definition primary_row :: "db \<Rightarrow> int \<Rightarrow> string \<Rightarrow> bool" where
  "primary_row d b v \<longleftrightarrow> (case fetch va_key (b, v) (db_assignments d) of None \<Rightarrow> False | Some r \<Rightarrow> va_IsPrimary r = 1)"

lemma primary_row_iff:
  assumes "assignments_ok (db_assignments d)"
  shows "primary_row d b v \<longleftrightarrow> (\<exists>r \<in> set (db_assignments d). va_key r = (b, v) \<and> va_IsPrimary r = 1)"
proof -
  have unique: "fetch va_key (b, v) (db_assignments d) = Some r" if "r \<in> set (db_assignments d)" "va_key r = (b, v)" for r
    using fetch_unique [OF _ that(1), of va_key] assms that(2) by (simp add: assignments_ok_def)
  show ?thesis
  proof
    assume "primary_row d b v"
    then obtain r where "fetch va_key (b, v) (db_assignments d) = Some r" "va_IsPrimary r = 1"
      by (auto simp: primary_row_def split: option.splits)
    then show "\<exists>r \<in> set (db_assignments d). va_key r = (b, v) \<and> va_IsPrimary r = 1" using fetch_Some by metis
  next
    assume "\<exists>r \<in> set (db_assignments d). va_key r = (b, v) \<and> va_IsPrimary r = 1"
    then show "primary_row d b v" using unique by (auto simp: primary_row_def)
  qed
qed

lemma GetPrimaryVenueForBot_Inr:
  assumes "assignments_ok (db_assignments d)"
  shows "GetPrimaryVenueForBot b d = Inr v \<longleftrightarrow> primary_row d b v"
proof -
  let ?xs = "filter (\<lambda>r. va_BotID r = b \<and> va_IsPrimary r = 1) (db_assignments d)"
  have same: "va_VenueID r = va_VenueID q" if "r \<in> set ?xs" "q \<in> set ?xs" for r q
    using assms that by (auto simp: assignments_ok_def one_primary_def)
  have "primary_row d b v \<longleftrightarrow> (\<exists>r \<in> set ?xs. va_VenueID r = v)"
    by (auto simp: primary_row_iff [OF assms] va_key_def)
  also have "\<dots> \<longleftrightarrow> GetPrimaryVenueForBot b d = Inr v"
  proof (cases ?xs)
    case (Cons r rs)
    have "(\<exists>x \<in> set (r # rs). va_VenueID x = v) \<longleftrightarrow> va_VenueID r = v"
      using same unfolding Cons by (metis list.set_intros(1))
    then show ?thesis unfolding GetPrimaryVenueForBot_def Cons by simp
  qed (simp only: GetPrimaryVenueForBot_def, simp)
  finally show ?thesis by simp
qed

lemma GetPrimaryVenueForBot_Inl: "GetPrimaryVenueForBot b d = Inl e \<Longrightarrow> e = ErrNoRows"
  unfolding GetPrimaryVenueForBot_def
  by (cases "filter (\<lambda>r. va_BotID r = b \<and> va_IsPrimary r = 1) (db_assignments d)") auto

lemma GetPrimaryVenueForBot_cong:
  assumes "assignments_ok (db_assignments d)" and "assignments_ok (db_assignments d')"
    and "\<And>v. primary_row d' b v \<longleftrightarrow> primary_row d b v"
  shows "GetPrimaryVenueForBot b d' = GetPrimaryVenueForBot b d"
  using assms GetPrimaryVenueForBot_Inr GetPrimaryVenueForBot_Inl
  by (cases "GetPrimaryVenueForBot b d'"; cases "GetPrimaryVenueForBot b d") (metis Inr_inject sum.distinct(1))+

lemma fetch_update_where:
  assumes "\<And>r. key (f r) = key r"
  shows "fetch key k (update_where P f rows) = map_option (\<lambda>r. if P r then f r else r) (fetch key k rows)"
  by (induction rows) (auto simp: update_where_def fetch_Cons assms)

text \<open>A storage in which the venue to assign exists.\<close>

definition assignable :: "VenueID \<Rightarrow> Storage \<Rightarrow> bool" where
  "assignable v s \<longleftrightarrow> storage_ok s \<and> TrimSpace v \<noteq> [] \<and> \<not> isl (GetVenue (TrimSpace v) (sg_db s))"

lemma cleared_row: "x \<in> set (db_assignments (clear_primary b d)) \<Longrightarrow> va_BotID x \<noteq> b \<or> va_IsPrimary x = 0"
proof -
  assume "x \<in> set (db_assignments (clear_primary b d))"
  then obtain r where "x = (if va_BotID r = b then r\<lparr>va_IsPrimary := 0\<rparr> else r)"
    unfolding clear_primary_def update_where_def by fastforce
  then show ?thesis by (cases "va_BotID r = b") simp_all
qed

lemma primary_query:
  "UpsertBotVenueAssignment_query t b v 1 (clear_primary b d) =
     Inr ((clear_primary b d)\<lparr>db_assignments := upsert va_key (\<lambda>old new. new)
       \<lparr>va_BotID = b, va_VenueID = v, va_IsPrimary = 1, va_AssignedAtUtc = t\<rparr> (db_assignments (clear_primary b d))\<rparr>)"
proof -
  have "\<not> list_ex (\<lambda>r. va_BotID r = b \<and> va_VenueID r \<noteq> v \<and> va_IsPrimary r = 1) (db_assignments (clear_primary b d))"
    unfolding list_ex_iff using cleared_row by (metis zero_neq_one)
  then show ?thesis by (simp only: UpsertBotVenueAssignment_query_def) simp
qed

lemma assign_primary:
  assumes "assignable v s" and "0 < b"
  obtains rec s' where "UpsertVenueAssignment now v b True s = (Inr rec, s')" and "assignable v s'"
    and "db_bots (sg_db s') = db_bots (sg_db s)"
    and "\<And>c. GetPrimaryVenueForBot c (sg_db s') =
      (if c = b then Inr (TrimSpace v) else GetPrimaryVenueForBot c (sg_db s))"
proof -
  let ?v = "TrimSpace v" and ?d = "clear_primary b (sg_db s)"
  let ?new = "\<lparr>va_BotID = b, va_VenueID = ?v, va_IsPrimary = 1, va_AssignedAtUtc = to_UnixMilli now\<rparr>"
  let ?d' = "?d\<lparr>db_assignments := upsert va_key (\<lambda>old new. new) ?new (db_assignments ?d)\<rparr>"
  obtain row where row: "GetVenue ?v (sg_db s) = Inr row" using assms(1) by (cases "GetVenue ?v (sg_db s)") (auto simp: assignable_def)
  have found: "fetch va_key k (db_assignments ?d') =
      (if k = (b, ?v) then Some ?new
       else map_option (\<lambda>r. if va_BotID r = b then r\<lparr>va_IsPrimary := 0\<rparr> else r) (fetch va_key k (db_assignments (sg_db s))))" for k
    by (simp add: assignment_rows.fetch_upsert clear_primary_def fetch_update_where va_key_def split: option.splits)
  have query: "UpsertBotVenueAssignment_query (to_UnixMilli now) b ?v 1 ?d = Inr ?d'"
    by (rule primary_query)
  have "?new \<in> set (ListBotVenueAssignments b ?d')"
    using found [of "(b, ?v)"] fetch_Some [of va_key "(b, ?v)" "db_assignments ?d'" ?new]
    by (simp add: ListBotVenueAssignments_def)
  then obtain rec where "find (\<lambda>r. va_VenueID r = ?v) (ListBotVenueAssignments b ?d') = Some rec"
    by (cases "find (\<lambda>r. va_VenueID r = ?v) (ListBotVenueAssignments b ?d')") (auto simp: find_None_iff)
  then have step: "UpsertVenueAssignment now v b True s = (Inr (assignment_record rec), s\<lparr>sg_db := ?d'\<rparr>)"
    using assms row query by (simp add: UpsertVenueAssignment_def assignable_def)
  have ok: "storage_ok (s\<lparr>sg_db := ?d'\<rparr>)"
    using UpsertVenueAssignment_ok [of s now v b True] assms(1) by (simp add: step assignable_def)
  then have rows: "assignments_ok (db_assignments ?d')" "assignments_ok (db_assignments (sg_db s))"
    using assms(1) by (simp_all add: storage_ok_def db_ok_def assignable_def)
  have "GetPrimaryVenueForBot c ?d' = (if c = b then Inr ?v else GetPrimaryVenueForBot c (sg_db s))" for c
  proof (cases "c = b")
    case True
    have "primary_row ?d' b ?v" unfolding primary_row_def found by simp
    with True show ?thesis using GetPrimaryVenueForBot_Inr [OF rows(1)] by simp
  next
    case False
    have "primary_row ?d' c w \<longleftrightarrow> primary_row (sg_db s) c w" for w
    proof -
      have "map_option (\<lambda>r. if va_BotID r = b then r\<lparr>va_IsPrimary := 0\<rparr> else r) (fetch va_key (c, w) rows) =
          fetch va_key (c, w) rows" for rows
        using fetch_Some [of va_key "(c, w)" rows] False
        by (cases "fetch va_key (c, w) rows") (simp_all add: va_key_def)
      with False show ?thesis unfolding primary_row_def found by simp
    qed
    from GetPrimaryVenueForBot_cong [OF rows(2,1) this] False show ?thesis by simp
  qed
  moreover have "assignable v (s\<lparr>sg_db := ?d'\<rparr>)"
    using assms(1) ok row by (simp add: assignable_def GetVenue_def clear_primary_def)
  ultimately show ?thesis using that [OF step] by (simp add: clear_primary_def)
qed

text \<open>What the loop over the bots of a page does: a bot without a primary venue gets this one.\<close>

definition bot_ids :: "BotItem list \<Rightarrow> int set" where
  "bot_ids bots = {b \<in> (\<lambda>i. bot_Id (bi_Bot i)) ` set bots. 0 < b}"

lemma HasPrimary_cases:
  assumes "0 < b" and "b < 2 ^ 32"
  shows "HasPrimaryVenueAssignment (word_of_int b) d = Inr (GetPrimaryVenueForBot b d \<noteq> Inl ErrNoRows)"
proof -
  have "uint (word_of_int b :: uint32) = b" using assms by (simp add: uint_word_of_int_eq take_bit_int_eq_self)
  then show ?thesis
    using GetPrimaryVenueForBot_Inl [of b d]
    by (auto simp: HasPrimaryVenueAssignment_def split: sum.splits)
qed

lemma assign_bots_ok:
  assumes "assignable v s" and "\<forall>b \<in> bot_ids bots. b < 2 ^ 32"
  shows "\<exists>s'. assign_bots now v bots s = (None, s') \<and> assignable v s' \<and> db_bots (sg_db s') = db_bots (sg_db s) \<and>
    (\<forall>c. GetPrimaryVenueForBot c (sg_db s') =
      (if c \<in> bot_ids bots \<and> GetPrimaryVenueForBot c (sg_db s) = Inl ErrNoRows then Inr (TrimSpace v)
       else GetPrimaryVenueForBot c (sg_db s)))"
  using assms
proof (induction bots arbitrary: s)
  case Nil
  then show ?case by (simp add: bot_ids_def)
next
  case (Cons i bots)
  let ?b = "bot_Id (bi_Bot i)"
  have bound: "\<forall>b \<in> bot_ids bots. b < 2 ^ 32" using Cons.prems(2) by (auto simp: bot_ids_def)
  show ?case
  proof (cases "0 < ?b")
    case False
    then have "bot_ids (i # bots) = bot_ids bots" by (auto simp: bot_ids_def)
    with False Cons.IH [OF Cons.prems(1) bound] show ?thesis by simp
  next
    case True
    then have ids: "bot_ids (i # bots) = insert ?b (bot_ids bots)" by (auto simp: bot_ids_def)
    then have has: "HasPrimaryVenueAssignment (word_of_int ?b) d = Inr (GetPrimaryVenueForBot ?b d \<noteq> Inl ErrNoRows)" for d
      using True Cons.prems(2) by (intro HasPrimary_cases) simp_all
    show ?thesis
    proof (cases "GetPrimaryVenueForBot ?b (sg_db s) = Inl ErrNoRows")
      case False
      have "assign_bots now v (i # bots) s = assign_bots now v bots s" using True False has by simp
      with Cons.IH [OF Cons.prems(1) bound] False show ?thesis unfolding ids by auto
    next
      case new: True
      obtain rec s1 where s1: "UpsertVenueAssignment now v ?b True s = (Inr rec, s1)" "assignable v s1"
          "db_bots (sg_db s1) = db_bots (sg_db s)"
          "\<And>c. GetPrimaryVenueForBot c (sg_db s1) = (if c = ?b then Inr (TrimSpace v) else GetPrimaryVenueForBot c (sg_db s))"
        using assign_primary [OF Cons.prems(1) True] by metis
      have "assign_bots now v (i # bots) s = assign_bots now v bots s1" using True new has s1(1) by simp
      with Cons.IH [OF s1(2) bound] show ?thesis unfolding ids s1(3,4) using new by auto
    qed
  qed
qed

lemma assign_bots_append:
  "assign_bots now v (xs @ ys) s =
     (case assign_bots now v xs s of (Some e, s) \<Rightarrow> (Some e, s) | (None, s) \<Rightarrow> assign_bots now v ys s)"
  by (induction xs arbitrary: s) (auto simp: Let_def split: sum.splits bool.splits prod.splits)

subsection \<open>Over the pages\<close>

abbreviation listed_bots :: "Storage \<Rightarrow> ThreecommasBot list" where
  "listed_bots s \<equiv> bot_rows (all_bots, sg_db s)"

lemma listed_bots_cong: "db_bots (sg_db s') = db_bots (sg_db s) \<Longrightarrow> listed_bots s' = listed_bots s"
  by (simp add: bot_rows_def)

lemma bot_ids_mono: "set xs \<subseteq> set ys \<Longrightarrow> bot_ids xs \<subseteq> bot_ids ys"
  by (auto simp: bot_ids_def)

lemma sync_page:
  assumes "assignable v s" and "bot_columns (sg_db s)" and "page_cursor token = Inr c"
    and "filter (\<lambda>r. null_or c (\<lambda>c. before_cursor c (bot_key r))) (listed_bots s) = xs"
  shows "ListBots (all_bots\<lparr>lb_PageToken := token\<rparr>) (sg_db s) = Inr (map bot_item (take 100 xs),
    if 100 < length xs then Some (encodeCursor (fst (bot_key (xs ! 100))) (snd (bot_key (xs ! 100)))) else None)"
proof -
  have ok: "db_ok (snd (all_bots, sg_db s)) \<and> bot_columns (snd (all_bots, sg_db s))"
    using assms(1,2) by (simp add: assignable_def storage_ok_def)
  have "default_limit (lb_Limit all_bots) = 100" by (simp add: all_bots_def default_limit_def)
  then show ?thesis
    using bot_pages.list_page [OF ok assms(3)] bot_pages.cut_limited [of 100 xs] assms(4) by simp
qed

lemma sync_at:
  assumes "assignable v s" and "bot_columns (sg_db s)" and "\<forall>b \<in> bot_ids (map bot_item (listed_bots s)). b < 2 ^ 32"
    and "page_cursor token = Inr c"
    and "filter (\<lambda>r. null_or c (\<lambda>c. before_cursor c (bot_key r))) (listed_bots s) = drop k (listed_bots s)"
    and "length (drop k (listed_bots s)) < n"
  shows "sync_pages n now v token s =
    Some (assign_bots now v (map bot_item (concat (shown_pages 100 n (drop k (listed_bots s))))) s)"
  using assms
proof (induction n arbitrary: token c k s)
  case (Suc n)
  let ?xs = "drop k (listed_bots s)"
  note page = sync_page [OF Suc.prems(1,2,4,5)]
  have "bot_ids (map bot_item (take 100 ?xs)) \<subseteq> bot_ids (map bot_item (listed_bots s))"
    by (intro bot_ids_mono) (auto dest: in_set_takeD in_set_dropD)
  then obtain s1 where s1: "assign_bots now v (map bot_item (take 100 ?xs)) s = (None, s1)" "assignable v s1"
      "db_bots (sg_db s1) = db_bots (sg_db s)"
    using assign_bots_ok [OF Suc.prems(1), of "map bot_item (take 100 ?xs)" now] Suc.prems(3) by blast
  show ?case
  proof (cases "100 < length ?xs")
    case False
    then have "take 100 ?xs = ?xs" "shown_pages 100 (Suc n) ?xs = [?xs]" by simp_all
    with False s1(1) page show ?thesis by (cases "?xs = []") (simp_all del: drop_eq_Nil)
  next
    case True
    let ?r = "listed_bots s ! (k + 100)"
    have r: "?xs ! 100 = ?r" "k + 100 < length (listed_bots s)" using True by auto
    have ok: "db_ok (snd (all_bots, sg_db s)) \<and> bot_columns (snd (all_bots, sg_db s))"
      using Suc.prems(1,2) by (simp add: assignable_def storage_ok_def)
    have token: "page_cursor (encodeCursor (fst (bot_key ?r)) (snd (bot_key ?r))) = Inr (Some (bot_key ?r))"
      using bot_pages.key_int64 [OF ok, of ?r] r(2) by (simp add: page_cursor_encode)
    have "filter (\<lambda>r. null_or (Some (bot_key ?r)) (\<lambda>c. before_cursor c (bot_key r))) (listed_bots s) =
        drop (Suc (k + 100)) (listed_bots s)"
      using bot_pages.after_row [OF ok r(2)] by (simp add: null_or_def)
    from Suc.IH [OF s1(2) _ _ token, unfolded listed_bots_cong [OF s1(3)], OF _ Suc.prems(3) this]
    have "sync_pages n now v (encodeCursor (fst (bot_key ?r)) (snd (bot_key ?r))) s1 =
        Some (assign_bots now v (map bot_item (concat (shown_pages 100 n (drop (Suc (k + 100)) (listed_bots s))))) s1)"
      using Suc.prems(2,6) True s1(3) by (simp add: bot_columns_def)
    moreover have "take 100 ?xs \<noteq> []" "encodeCursor (fst (bot_key ?r)) (snd (bot_key ?r)) \<noteq> []"
      using True by (auto simp: encodeCursor_def)
    moreover have "drop (Suc (k + 100)) (listed_bots s) = drop (Suc 100) ?xs" by (simp add: add.commute)
    ultimately show ?thesis
      using True page s1(1) by (simp add: r(1) assign_bots_append del: drop_drop)
  qed
qed simp

lemma listed_bots_ids:
  assumes "db_ok (sg_db s)"
  shows "map (\<lambda>i. bot_Id (bi_Bot i)) (map bot_item (listed_bots s)) = map bt_BotID (listed_bots s)"
    and "distinct (map bt_BotID (listed_bots s))" and "set (listed_bots s) = set (db_bots (sg_db s))"
    and "length (listed_bots s) = length (db_bots (sg_db s))"
proof -
  have all: "filter (bot_selected all_bots) rows = rows" for rows
    by (simp add: bot_selected_def all_bots_def null_or_def)
  have bots: "bots_ok (db_bots (sg_db s))" using assms by (rule db_okD(6))
  show "set (listed_bots s) = set (db_bots (sg_db s))" "length (listed_bots s) = length (db_bots (sg_db s))"
    by (simp_all add: bot_rows_def all order_by_def)
  then show "map (\<lambda>i. bot_Id (bi_Bot i)) (map bot_item (listed_bots s)) = map bt_BotID (listed_bots s)"
    using bots by (auto simp: bots_ok_def bot_item_def)
  show "distinct (map bt_BotID (listed_bots s))"
    using bots by (simp add: bot_rows_def all bots_ok_def keys_unique_def distinct_order_by)
qed

lemma shown_ids:
  assumes "db_ok (sg_db s)" and "i < length (listed_bots s)" and "0 < bt_BotID (listed_bots s ! i)"
  shows "bt_BotID (listed_bots s ! i) \<in> bot_ids (map bot_item (nths (listed_bots s) I)) \<longleftrightarrow> i \<in> I"
proof -
  note ids = listed_bots_ids [OF assms(1)]
  have "bot_Id (bi_Bot (bot_item (listed_bots s ! j))) = bt_BotID (listed_bots s ! j)" if "j < length (listed_bots s)" for j
    using arg_cong [OF ids(1), of "\<lambda>xs. xs ! j"] that by simp
  moreover have "bt_BotID (listed_bots s ! j) = bt_BotID (listed_bots s ! i) \<longleftrightarrow> j = i" if "j < length (listed_bots s)" for j
    using nth_eq_iff_index_eq [OF ids(2), of j i] assms(2) that by simp
  ultimately show ?thesis
    using assms(2,3) unfolding bot_ids_def by (auto simp: set_nths image_iff) metis
qed

text \<open>
  C34: Starting up gives every bot a primary venue, but for each 101st of the listing: on a storage that can be reached, whose
  rows hold 64-bit columns and bot ids below \<open>2\<^sup>3\<^sup>2\<close>, \<^verbatim>\<open>syncPrimaryVenueAssignments\<close> with an existing venue ends without an
  error, the bots that have a primary venue keep it, those that have none get this one, and the bots at the
  positions 100, 201, 302, ... of the listing, which no page shows, keep what they had.\<close>

theorem startup_assigns_bots:
  assumes "storage_init s\<^sub>0" and "storage_step\<^sup>*\<^sup>* s\<^sub>0 s" and "bot_columns (sg_db s)"
    and "\<forall>r \<in> set (db_bots (sg_db s)). bt_BotID r < 2 ^ 32"
    and "TrimSpace v \<noteq> []" and "GetVenue (TrimSpace v) (sg_db s) = Inr row"
    and "length (db_bots (sg_db s)) < fuel"
  shows "\<exists>s'. syncPrimaryVenueAssignments fuel now v s = Some (None, s') \<and>
    (\<forall>i < length (bot_rows (all_bots, sg_db s)).
      let b = bt_BotID (bot_rows (all_bots, sg_db s) ! i) in
      0 < b \<longrightarrow> GetPrimaryVenueForBot b (sg_db s') =
        (if i mod 101 \<noteq> 100 \<and> GetPrimaryVenueForBot b (sg_db s) = Inl ErrNoRows then Inr (TrimSpace v)
         else GetPrimaryVenueForBot b (sg_db s)))"
proof -
  have ok: "storage_ok s" by (rule storage_sys.inv_reachable [OF assms(1,2)])
  then have db: "db_ok (sg_db s)" by (simp add: storage_ok_def)
  have ready: "assignable v s" using ok assms(5,6) by (simp add: assignable_def)
  note ids = listed_bots_ids [OF db]
  let ?shown = "map bot_item (nths (listed_bots s) {i. i mod 101 \<noteq> 100})"
  have bound: "\<forall>b \<in> bot_ids (map bot_item (listed_bots s)). b < 2 ^ 32"
    using arg_cong [OF ids(1), of set] ids(3) assms(4) by (auto simp: bot_ids_def image_image)
  moreover have "bot_ids ?shown \<subseteq> bot_ids (map bot_item (listed_bots s))"
    by (intro bot_ids_mono) (auto dest: in_set_nthsD)
  ultimately obtain s' where s': "assign_bots now v ?shown s = (None, s')"
      "\<forall>c. GetPrimaryVenueForBot c (sg_db s') =
        (if c \<in> bot_ids ?shown \<and> GetPrimaryVenueForBot c (sg_db s) = Inl ErrNoRows then Inr (TrimSpace v)
         else GetPrimaryVenueForBot c (sg_db s))"
    using assign_bots_ok [OF ready, of ?shown now] by blast
  have "sync_pages fuel now v [] s = Some (assign_bots now v ?shown s)"
    using sync_at [OF ready assms(3) bound page_cursor_Nil, of 0 fuel now] assms(7) ids(4)
    by (simp add: null_or_def concat_shown_pages)
  then have "syncPrimaryVenueAssignments fuel now v s = Some (None, s')"
    using s'(1) assms(5) by (cases "v = []") (simp_all add: syncPrimaryVenueAssignments_def TrimSpace_def)
  then show ?thesis using s'(2) shown_ids [OF db, where I = "{i. i mod 101 \<noteq> 100}"] by (simp add: Let_def)
qed

definition one_bot_storage :: Storage where
  "one_bot_storage = RecordBot \<lparr>bot_Id = 7, bot_Name = ''grid'', bot_UpdatedAt = 0\<rparr> 0 fresh_storage"

lemma one_bot_storage_facts:
  "storage_step\<^sup>*\<^sup>* fresh_storage one_bot_storage"
  "db_bots (sg_db one_bot_storage) = [\<lparr>bt_BotID = 7, bt_Payload = Doc \<lparr>bot_Id = 7, bot_Name = ''grid'', bot_UpdatedAt = 0\<rparr>, bt_LastSyncedUtc = to_UnixMilli 0\<rparr>]"
  "TrimSpace defaultHyperliquidVenueID = defaultHyperliquidVenueID"
  "\<not> isl (GetVenue defaultHyperliquidVenueID (sg_db one_bot_storage))"
  "GetPrimaryVenueForBot 7 (sg_db one_bot_storage) = Inl ErrNoRows"
proof -
  show "storage_step\<^sup>*\<^sup>* fresh_storage one_bot_storage"
    unfolding one_bot_storage_def by (rule r_into_rtranclp, rule storage_step.bot_row)
qed (code_simp+)

theorem startup_assigns_bots_witness:
  "\<exists>s'. syncPrimaryVenueAssignments 2 9 defaultHyperliquidVenueID one_bot_storage = Some (None, s') \<and>
     GetPrimaryVenueForBot 7 (sg_db s') = Inr defaultHyperliquidVenueID"
proof -
  note facts = one_bot_storage_facts
  obtain row where "GetVenue defaultHyperliquidVenueID (sg_db one_bot_storage) = Inr row"
    using facts(4) by (cases "GetVenue defaultHyperliquidVenueID (sg_db one_bot_storage)") auto
  moreover have "bot_columns (sg_db one_bot_storage)"
    by (simp add: bot_columns_def facts(2) int64_def to_UnixMilli_def)
  moreover have "bot_rows (all_bots, sg_db one_bot_storage) = db_bots (sg_db one_bot_storage)"
    by (simp add: bot_rows_def facts(2) bot_selected_def all_bots_def null_or_def order_by_def)
  ultimately show ?thesis
    using startup_assigns_bots [OF fresh_storage_init facts(1), of defaultHyperliquidVenueID row 2 9] facts(2,3,5)
    by (simp add: Let_def)
qed

section \<open>The wiring\<close>

text \<open>
  The gates are numbered in the order they are made, and an emitter has the gate of its wallet.
\<close>

definition gate_key :: "string \<Rightarrow> string \<times> string" where
  "gate_key wallet = (ToLower ''hyperliquid'', ToLower wallet)"

definition gates_ok :: "((string \<times> string) \<times> nat) list \<Rightarrow> bool" where
  "gates_ok gates \<longleftrightarrow> distinct (map fst gates) \<and> map snd gates = [0..<length gates]"

definition wiring_ok :: "wiring \<Rightarrow> bool" where
  "wiring_ok w \<longleftrightarrow> gates_ok (wr_gates w) \<and>
     (\<forall>v e. emitterFor v (wr_emitter w) = Some e \<longrightarrow> map_of (wr_gates w) (gate_key (ve_wallet e)) = Some (ve_gate e))"

lemma gate_for_ok:
  assumes "gates_ok gates" and "EqualFold typ ''hyperliquid''" and "gate_for typ wallet gates = (g, gates')"
  shows "gates_ok gates'" and "map_of gates' (gate_key wallet) = Some g"
    and "map_of gates k = Some h \<Longrightarrow> map_of gates' k = Some h"
proof -
  have key: "(ToLower typ, ToLower wallet) = gate_key wallet" using assms(2) by (simp add: gate_key_def EqualFold_def)
  have "gates_ok gates' \<and> map_of gates' (gate_key wallet) = Some g \<and>
      (map_of gates k = Some h \<longrightarrow> map_of gates' k = Some h)"
  proof (cases "map_of gates (gate_key wallet)")
    case None
    then have "gate_key wallet \<notin> fst ` set gates" by (simp add: map_of_eq_None_iff)
    then show ?thesis
      using None assms(1,3) unfolding gate_for_def key
      by (auto simp: gates_ok_def map_add_def Let_def split: option.splits dest: map_of_SomeD)
  next
    case (Some g')
    then show ?thesis using assms(1,3) unfolding gate_for_def key by (simp add: Let_def)
  qed
  then show "gates_ok gates'" "map_of gates' (gate_key wallet) = Some g"
    "map_of gates k = Some h \<Longrightarrow> map_of gates' k = Some h" by simp_all
qed

lemma gates_inj:
  assumes "gates_ok gates" and "map_of gates k = Some g" and "map_of gates l = Some g"
  shows "k = l"
proof -
  from assms(2,3) obtain i j where ij: "i < length gates" "gates ! i = (k, g)" "j < length gates" "gates ! j = (l, g)"
    by (auto dest!: map_of_SomeD simp: in_set_conv_nth)
  have "snd (gates ! n) = n" if "n < length gates" for n
  proof -
    have "map snd gates ! n = [0..<length gates] ! n" using assms(1) by (simp only: gates_ok_def)
    with that show ?thesis by simp
  qed
  then have "i = j" using ij by (metis snd_conv)
  then show ?thesis using ij by simp
qed

lemma emitterFor_registered:
  "emitterFor v (registerHyperliquidEmitter (Some e) venueIdent primaryIdent defaultIdent queue) =
     (if v = venueIdent \<or> venueIdent = primaryIdent \<and> defaultIdent \<noteq> [] \<and> v = defaultIdent then Some e
      else emitterFor v queue)"
  by (auto simp: registerHyperliquidEmitter_def Register_def emitterFor_def update_conv' Let_def)

text \<open>A venue of another type changes nothing, and one that is set up has its emitter.\<close>

lemma init_venue_cases:
  assumes "init_venue x p u d venue w = (None, w')"
  obtains (other) "\<not> EqualFold (vs_Type venue) ''hyperliquid''" and "w' = w"
  | (wired) g e where "EqualFold (vs_Type venue) ''hyperliquid''"
      and "gate_for (vs_Type venue) (ve_wallet e) (wr_gates w) = (g, wr_gates w')" and "ve_gate e = g"
      and "wr_emitter w' = registerHyperliquidEmitter (Some e) (TrimSpace (vs_ID venue)) p d (wr_emitter w)"
proof (cases "EqualFold (vs_Type venue) ''hyperliquid''")
  case False
  then show ?thesis using assms other by (simp add: init_venue_def Let_def)
next
  case True
  obtain g gates where gate: "gate_for (vs_Type venue) (TrimSpace (vs_Wallet venue)) (wr_gates w) = (g, gates)" by fastforce
  let ?info = "(if TrimSpace (vs_APIURL venue) = [] then u else TrimSpace (vs_APIURL venue), TrimSpace (vs_Wallet venue))"
  let ?e = "\<lparr>ve_venue = TrimSpace (vs_ID venue), ve_wallet = TrimSpace (vs_Wallet venue), ve_apiURL = fst ?info, ve_gate = g,
    ve_constraints = the (if wr_constraints w = None \<or> TrimSpace (vs_ID venue) = p then Some ?info else wr_constraints w)\<rparr>"
  have "wr_gates w' = gates \<and> wr_emitter w' = registerHyperliquidEmitter (Some ?e) (TrimSpace (vs_ID venue)) p d (wr_emitter w)"
    using assms True gate
    by (auto simp: init_venue_def Let_def split: if_splits prod.splits sum.splits option.splits)
  then show ?thesis using wired [of ?e g] True gate by simp
qed

lemma init_venue_ok:
  assumes "init_venue x p u d venue w = (None, w')" and "wiring_ok w"
  shows "wiring_ok w' \<and> (emitterFor v (wr_emitter w) \<noteq> None \<longrightarrow> emitterFor v (wr_emitter w') \<noteq> None) \<and>
      (EqualFold (vs_Type venue) ''hyperliquid'' \<longrightarrow>
        v = TrimSpace (vs_ID venue) \<or> TrimSpace (vs_ID venue) = p \<and> v = d \<and> d \<noteq> [] \<longrightarrow> emitterFor v (wr_emitter w') \<noteq> None)"
  using assms(1)
proof (cases rule: init_venue_cases)
  case other
  then show ?thesis using assms(2) by simp
next
  case (wired g e)
  note gate = gate_for_ok [OF _ wired(1,2)]
  have "wiring_ok w'"
    using assms(2) gate unfolding wiring_ok_def wired(3,4) emitterFor_registered
    by (auto simp: wired(3) split: if_splits)
  then show ?thesis by (auto simp: wired(4) emitterFor_registered)
qed

lemma init_venues_ok:
  assumes "init_venues x p u d venues w = (None, w')" and "wiring_ok w"
  shows "wiring_ok w' \<and> (emitterFor v (wr_emitter w) \<noteq> None \<longrightarrow> emitterFor v (wr_emitter w') \<noteq> None) \<and>
    (\<forall>venue \<in> set venues. EqualFold (vs_Type venue) ''hyperliquid'' \<longrightarrow>
      v = TrimSpace (vs_ID venue) \<or> TrimSpace (vs_ID venue) = p \<and> v = d \<and> d \<noteq> [] \<longrightarrow> emitterFor v (wr_emitter w') \<noteq> None)"
  using assms
proof (induction venues arbitrary: w)
  case (Cons venue venues)
  then obtain w1 where w1: "init_venue x p u d venue w = (None, w1)" "init_venues x p u d venues w1 = (None, w')"
    by (auto split: prod.splits option.splits)
  note one = init_venue_ok [OF w1(1) Cons.prems(2), of v]
  show ?case using Cons.IH [OF w1(2)] one by auto
qed simp

lemma new_wiring_ok: "wiring_ok (new_wiring s)"
  by (simp add: wiring_ok_def new_wiring_def gates_ok_def emitterFor_def NewQueueEmitter_def)

lemma find_primary_venue_of:
  "find_primary t venues = Some venue \<Longrightarrow> t \<noteq> [] \<Longrightarrow>
     \<exists>v \<in> set venues. vs_Primary v \<and> EqualFold (vs_Type v) t \<and> vs_ID v = vs_ID venue"
  by (induction venues) (auto simp: VenueSecret_Clone_def split: if_splits)

lemma initialize_wiring:
  assumes "initializeHyperliquidVenues fuel now x secrets s = Some (None, w)"
  obtains primary u dflt w' where "PrimaryVenueByType ''hyperliquid'' (sc_Secrets secrets) = Some primary"
    and "ResolveDefaultAlias (sg_db s) = Inr dflt"
    and "init_venues x (TrimSpace (vs_ID primary)) u (as_VenueID dflt) (Venues (sc_Secrets secrets)) (new_wiring s) = (None, w')"
    and "wr_gates w = wr_gates w'" and "wr_emitter w = wr_emitter w'"
  using assms that
  by (auto simp: initializeHyperliquidVenues_def Let_def split: option.splits if_splits sum.splits prod.splits)

text \<open>
  C33: When the venues are set up, orders for every Hyperliquid venue of the secrets have an emitter, as do orders for the default
  alias, and two emitters go through the same rate gate exactly when their wallets are the same up to case: a wallet is never
  behind two gates, and two wallets never wait for each other.\<close>

theorem venues_wired:
  assumes "initializeHyperliquidVenues fuel now x secrets s = Some (None, w)"
    and "ResolveDefaultAlias (sg_db s) = Inr dflt"
  shows "(\<forall>venue \<in> set (Venues (sc_Secrets secrets)). EqualFold (vs_Type venue) ''hyperliquid'' \<longrightarrow>
      emitterFor (TrimSpace (vs_ID venue)) (wr_emitter w) \<noteq> None) \<and>
    (as_VenueID dflt \<noteq> [] \<longrightarrow> emitterFor (as_VenueID dflt) (wr_emitter w) \<noteq> None) \<and>
    (\<forall>v v' e e'. emitterFor v (wr_emitter w) = Some e \<and> emitterFor v' (wr_emitter w) = Some e' \<longrightarrow>
      (ve_gate e = ve_gate e' \<longleftrightarrow> EqualFold (ve_wallet e) (ve_wallet e')))"
  using assms(1)
proof (cases rule: initialize_wiring)
  case (1 primary u other w')
  note all = init_venues_ok [OF 1(3) new_wiring_ok]
  have eq: "other = dflt" using 1(2) assms(2) by simp
  obtain venue where venue: "venue \<in> set (Venues (sc_Secrets secrets))" "EqualFold (vs_Type venue) ''hyperliquid''"
      "vs_ID venue = vs_ID primary"
    using find_primary_venue_of [of "''hyperliquid''"] 1(1) by (auto simp: PrimaryVenueByType_def)
  have "as_VenueID dflt \<noteq> [] \<longrightarrow> emitterFor (as_VenueID dflt) (wr_emitter w) \<noteq> None"
    using all [of "as_VenueID dflt"] venue unfolding 1(5) eq by auto
  moreover have "(ve_gate e = ve_gate e') = EqualFold (ve_wallet e) (ve_wallet e')"
    if "emitterFor v (wr_emitter w) = Some e" "emitterFor v' (wr_emitter w) = Some e'" for v v' e e'
  proof -
    have "wiring_ok w'" using all by simp
    then have "map_of (wr_gates w') (gate_key (ve_wallet e)) = Some (ve_gate e)"
        "map_of (wr_gates w') (gate_key (ve_wallet e')) = Some (ve_gate e')" "gates_ok (wr_gates w')"
      using that unfolding wiring_ok_def 1(5) by simp_all
    then show ?thesis using gates_inj by (auto simp: gate_key_def EqualFold_def)
  qed
  ultimately show ?thesis using all unfolding 1(5) by blast
qed

definition working_sdk :: sdk where
  "working_sdk = \<lparr>sdk_flag = (\<lambda>_. JNull), sdk_exchange = (\<lambda>_ _ _. None), sdk_ws = (\<lambda>_ _ _. None)\<rparr>"

definition wired_secrets :: Secrets where
  "wired_secrets = sample_secrets\<lparr>sc_Secrets := (sc_Secrets sample_secrets)\<lparr>Venues :=
     [sample_venue\<lparr>vs_Primary := True, vs_APIURL := ''https://api''\<rparr>]\<rparr>\<rparr>"

theorem venues_wired_witness:
  "\<exists>w. initializeHyperliquidVenues 2 9 working_sdk wired_secrets one_bot_storage = Some (None, w) \<and>
     emitterFor ''hl'' (wr_emitter w) \<noteq> None \<and> emitterFor defaultHyperliquidVenueID (wr_emitter w) \<noteq> None"
proof -
  let ?run = "initializeHyperliquidVenues 2 9 working_sdk wired_secrets one_bot_storage"
  have "(case ?run of Some (None, w) \<Rightarrow> True | _ \<Rightarrow> False)" by code_simp
  then obtain w where w: "?run = Some (None, w)" by (auto split: option.splits)
  have "(case ResolveDefaultAlias (sg_db one_bot_storage) of Inr a \<Rightarrow> as_VenueID a = defaultHyperliquidVenueID | _ \<Rightarrow> False)"
    by code_simp
  then obtain a where a: "ResolveDefaultAlias (sg_db one_bot_storage) = Inr a" "as_VenueID a = defaultHyperliquidVenueID"
    by (auto split: sum.splits)
  have "Venues (sc_Secrets wired_secrets) = [sample_venue\<lparr>vs_Primary := True, vs_APIURL := ''https://api''\<rparr>]"
      "vs_Type sample_venue = ''hyperliquid''" "TrimSpace (vs_ID sample_venue) = ''hl''"
    by (simp_all add: wired_secrets_def) (code_simp+)
  then show ?thesis using venues_wired [OF w a(1)] w a(2) by simp
qed

end
