(* ===== verification/Order_Updates.thy ===== *)
theory Order_Updates
  imports Status_Refresh
begin

text \<open>
  The order updates of the websocket in \<^verbatim>\<open>hl/ws/ws.go\<close>: the callback that \<^verbatim>\<open>New\<close> hands to the SDK records the
  status of every order it can identify, and \<^verbatim>\<open>Exists\<close> and \<^verbatim>\<open>Get\<close> answer from what is recorded.

  The fill tracker is the function \<open>track\<close> behind \<^verbatim>\<open>UpdateStatus\<close>, whose errors are only logged.
\<close>

section \<open>The callback\<close>

definition order_update ::
  "VenueID \<Rightarrow> string \<Rightarrow> (OrderIdentifier \<Rightarrow> WsOrder \<Rightarrow> 't \<Rightarrow> 't) option \<Rightarrow> time \<Rightarrow> WsOrder \<Rightarrow> Storage \<times> 't \<Rightarrow> Storage \<times> 't" where
  "order_update venue wallet tracker now o' st =
     (case st of (s, t) \<Rightarrow>
        (case wo_Cloid (ws_Order o') of
           None \<Rightarrow> (s, t)
         | Some cloid \<Rightarrow>
             (case FromHexString cloid of
                Inl _ \<Rightarrow> (s, t)
              | Inr oid \<Rightarrow>
                  let ident = NewOrderIdentifier venue wallet oid;
                      t = (case tracker of None \<Rightarrow> t | Some track \<Rightarrow> track ident o' t)
                  in (snd (RecordHyperliquidStatus now ident o' s), t))))"

definition OrderUpdates_callback ::
  "VenueID \<Rightarrow> string \<Rightarrow> (OrderIdentifier \<Rightarrow> WsOrder \<Rightarrow> 't \<Rightarrow> 't) option \<Rightarrow> time \<Rightarrow> WsOrder list \<Rightarrow> string option
    \<Rightarrow> Storage \<times> 't \<Rightarrow> Storage \<times> 't" where
  "OrderUpdates_callback venue wallet tracker now updates err st =
     (if err \<noteq> None then st else fold (order_update venue wallet tracker now) updates st)"

definition ws_Get :: "VenueID \<Rightarrow> string \<Rightarrow> OrderId \<Rightarrow> db \<Rightarrow> WsOrder option" where
  "ws_Get venue wallet oid d =
     (case LoadHyperliquidStatus (NewOrderIdentifier venue wallet oid) d of Inl _ \<Rightarrow> None | Inr status \<Rightarrow> status)"

definition ws_Exists :: "VenueID \<Rightarrow> string \<Rightarrow> OrderId \<Rightarrow> db \<Rightarrow> bool" where
  "ws_Exists venue wallet oid d =
     (case LoadHyperliquidStatus (NewOrderIdentifier venue wallet oid) d of Inl _ \<Rightarrow> False | Inr status \<Rightarrow> status \<noteq> None)"

section \<open>What is read back\<close>

text \<open>The orders of a message that carry a client order id of this program.\<close>

definition update_id :: "WsOrder \<Rightarrow> OrderId option" where
  "update_id o' = Option.bind (wo_Cloid (ws_Order o')) (\<lambda>c. case FromHexString c of Inl _ \<Rightarrow> None | Inr oid \<Rightarrow> Some oid)"

definition known_updates :: "WsOrder list \<Rightarrow> (OrderId \<times> WsOrder) list" where
  "known_updates updates = List.map_filter (\<lambda>o'. map_option (\<lambda>oid. (oid, o')) (update_id o')) updates"

lemma order_update_store:
  "fst (order_update venue wallet tracker now o' st) =
     (case update_id o' of None \<Rightarrow> fst st
      | Some oid \<Rightarrow> snd (RecordHyperliquidStatus now (NewOrderIdentifier venue wallet oid) o' (fst st)))"
  by (auto simp: order_update_def update_id_def Let_def split: prod.split option.splits sum.splits)

lemma update_key_eq: "order_key (NewOrderIdentifier v w oid) = order_key (NewOrderIdentifier v w oid') \<longleftrightarrow> oid = oid'"
  using orderid_hex.enc_eq_iff [of oid oid'] by (auto simp: order_key_def NewOrderIdentifier_def ensureIdentifier_def Let_def)

definition not_ahead :: "VenueID \<Rightarrow> string \<Rightarrow> time \<Rightarrow> OrderId set \<Rightarrow> Storage \<Rightarrow> bool" where
  "not_ahead v w now ids s \<longleftrightarrow>
     (\<forall>oid \<in> ids. \<forall>row \<in> set (status_rows (NewOrderIdentifier v w oid) s). sh_RecordedAtUtc row \<le> to_UnixMilli now)"

lemma recorded_update:
  assumes "v \<noteq> defaultHyperliquidVenueID" and "not_ahead v w now {oid} s"
  shows "ws_Get v w oid' (sg_db (snd (RecordHyperliquidStatus now (NewOrderIdentifier v w oid) o' s))) =
    (if oid' = oid then Some o' else ws_Get v w oid' (sg_db s))"
proof (cases "oid' = oid")
  case True
  have "oi_VenueID (NewOrderIdentifier v w oid) \<noteq> defaultHyperliquidVenueID" using assms(1) by (simp add: NewOrderIdentifier_def)
  from status_roundtrip [OF this, of s now o'] assms(2) True show ?thesis
    by (simp add: ws_Get_def not_ahead_def status_rows_def order_key_def)
next
  case False
  then have "status_rows (NewOrderIdentifier v w oid') (snd (RecordHyperliquidStatus now (NewOrderIdentifier v w oid) o' s)) =
      status_rows (NewOrderIdentifier v w oid') s"
    by (intro RecordHyperliquidStatus_rows) (simp add: update_key_eq)
  from LoadHyperliquidStatus_rows [OF this] False show ?thesis by (simp add: ws_Get_def)
qed

lemma updates_read_back:
  assumes "v \<noteq> defaultHyperliquidVenueID" and "distinct (map fst (known_updates updates))"
    and "not_ahead v w now (fst ` set (known_updates updates)) (fst st)"
  shows "ws_Get v w oid (sg_db (fst (fold (order_update v w tracker now) updates st))) =
    (case map_of (known_updates updates) oid of None \<Rightarrow> ws_Get v w oid (sg_db (fst st)) | Some o' \<Rightarrow> Some o')"
  using assms(2,3)
proof (induction updates arbitrary: st)
  case Nil
  then show ?case by (simp add: known_updates_def map_filter_simps)
next
  case (Cons o' updates)
  let ?st = "order_update v w tracker now o' st"
  show ?case
  proof (cases "update_id o'")
    case None
    then have "known_updates (o' # updates) = known_updates updates" "fst ?st = fst st"
      by (simp_all add: known_updates_def map_filter_simps order_update_store)
    with Cons.IH [of ?st] Cons.prems show ?thesis by (simp split: option.split)
  next
    case (Some i)
    have known: "known_updates (o' # updates) = (i, o') # known_updates updates"
      using Some by (simp add: known_updates_def map_filter_simps)
    have store: "fst ?st = snd (RecordHyperliquidStatus now (NewOrderIdentifier v w i) o' (fst st))"
      using Some by (simp add: order_update_store)
    have fresh: "i \<notin> fst ` set (known_updates updates)" using Cons.prems(1) by (simp add: known)
    have "not_ahead v w now (fst ` set (known_updates updates)) (fst ?st)"
      unfolding not_ahead_def
    proof (intro ballI)
      fix j row assume j: "j \<in> fst ` set (known_updates updates)" and row: "row \<in> set (status_rows (NewOrderIdentifier v w j) (fst ?st))"
      then have "status_rows (NewOrderIdentifier v w j) (fst ?st) = status_rows (NewOrderIdentifier v w j) (fst st)"
        using fresh unfolding store by (intro RecordHyperliquidStatus_rows) (auto simp: update_key_eq)
      then show "sh_RecordedAtUtc row \<le> to_UnixMilli now" using Cons.prems(2) j row by (auto simp: not_ahead_def known)
    qed
    moreover have "distinct (map fst (known_updates updates))" using Cons.prems(1) by (simp add: known)
    moreover have "not_ahead v w now {i} (fst st)" using Cons.prems(2) by (simp add: not_ahead_def known)
    ultimately have "ws_Get v w oid (sg_db (fst (fold (order_update v w tracker now) updates ?st))) =
        (case map_of (known_updates updates) oid of
           None \<Rightarrow> if oid = i then Some o' else ws_Get v w oid (sg_db (fst st)) | Some o' \<Rightarrow> Some o')"
      using Cons.IH [of ?st] recorded_update [OF assms(1), of w now i "fst st" oid o'] by (auto simp: store split: option.split)
    moreover have "map_of (known_updates updates) i = None" using fresh by (simp add: map_of_eq_None_iff)
    ultimately show ?thesis by (simp add: known)
  qed
qed

text \<open>
  C37: What the venue reports is what the program sees: after a message of the order-update feed, for a venue other than the default
  alias, by a clock that is not behind the statuses already stored and with each order in it at most once, \<^verbatim>\<open>Get\<close> returns the reported order for
  every client order id of the message and what it returned before for all others, and \<^verbatim>\<open>Exists\<close> says so; a message with an error changes
  nothing.\<close>

theorem order_updates_read_back:
  assumes "v \<noteq> defaultHyperliquidVenueID" and "distinct (map fst (known_updates updates))"
    and "\<forall>row \<in> set (db_statuses (sg_db (fst st))). sh_RecordedAtUtc row \<le> to_UnixMilli now"
  shows "ws_Get v w oid (sg_db (fst (OrderUpdates_callback v w tracker now updates None st))) =
      (case map_of (known_updates updates) oid of None \<Rightarrow> ws_Get v w oid (sg_db (fst st)) | Some o' \<Rightarrow> Some o') \<and>
    (ws_Exists v w oid (sg_db (fst (OrderUpdates_callback v w tracker now updates None st))) \<longleftrightarrow>
      oid \<in> fst ` set (known_updates updates) \<or> ws_Exists v w oid (sg_db (fst st))) \<and>
    OrderUpdates_callback v w tracker now updates (Some e) st = st"
proof -
  let ?us = "known_updates updates"
  have ex: "ws_Exists v w oid d \<longleftrightarrow> ws_Get v w oid d \<noteq> None" for d
    by (simp add: ws_Exists_def ws_Get_def split: sum.split)
  have "not_ahead v w now (fst ` set ?us) (fst st)"
    using assms(3) by (auto simp: not_ahead_def status_rows_def)
  note get = updates_read_back [OF assms(1,2) this, of oid tracker]
  show ?thesis
  proof (cases "map_of ?us oid")
    case None
    then have "oid \<notin> fst ` set ?us" by (simp add: map_of_eq_None_iff)
    with get None show ?thesis by (simp add: OrderUpdates_callback_def ex)
  next
    case (Some o')
    then have "oid \<in> fst ` set ?us" by (metis map_of_eq_None_iff option.distinct(1))
    with get Some show ?thesis by (simp add: OrderUpdates_callback_def ex)
  qed
qed

definition venue_update :: WsOrder where
  "venue_update = sample_live\<lparr>ws_Order := (ws_Order sample_live)\<lparr>wo_Cloid := Some (Hex zero_OrderId)\<rparr>\<rparr>"

theorem order_updates_read_back_witness:
  "ws_Get ''hl'' ''0xabc'' zero_OrderId (sg_db (fst (OrderUpdates_callback ''hl'' ''0xabc'' None 9 [venue_update] None (order_storage, ())))) =
     Some venue_update"
proof -
  have known: "known_updates [venue_update] = [(zero_OrderId, venue_update)]"
    using orderid_hex.dec_enc [of zero_OrderId]
    by (simp add: known_updates_def map_filter_simps update_id_def venue_update_def)
  have "''hl'' \<noteq> defaultHyperliquidVenueID" by (simp add: defaultHyperliquidVenueID_def)
  then show ?thesis
    using order_updates_read_back [of "''hl''" "[venue_update]" "(order_storage, ())" 9 "''0xabc''" zero_OrderId None] known order_storage_facts(2)
    by simp
qed

end
