(* ===== verification/System_Status.thy ===== *)
theory System_Status
  imports System_Stream
begin

text \<open>
  The health report of \<^verbatim>\<open>internal/api/system_status.go\<close>, the handler that serves it, and the one place of the
  application that feeds it, \<^verbatim>\<open>ProduceActiveDealsOnce\<close> of \<^verbatim>\<open>cmd/recomma/app.go\<close>.

  \<^verbatim>\<open>Snapshot\<close> puts the address of the tracker's field \<^verbatim>\<open>threeCommasAvailable\<close> into its result, so the response is
  encoded with what the field holds by then; the other fields are copied, or point at values that no one changes.
\<close>

section \<open>The tracker\<close>

record VenueStatus =
  vst_VenueID :: string
  vst_Wallet :: string
  vst_Connected :: bool
  vst_LastError :: "string option"

record SystemStatusTracker =
  tk_threeCommasAvailable :: bool
  tk_threeCommasLastError :: "string option"
  tk_threeCommasLastSuccessCall :: "time option"
  tk_engineRunning :: bool
  tk_engineLastSync :: "time option"
  tk_activeDealsFunc :: "(unit \<Rightarrow> int) option"
  tk_venueStatuses :: "(string \<times> VenueStatus) list"

definition NewSystemStatusTracker :: SystemStatusTracker where
  "NewSystemStatusTracker =
     \<lparr>tk_threeCommasAvailable = True, tk_threeCommasLastError = None, tk_threeCommasLastSuccessCall = None,
      tk_engineRunning = False, tk_engineLastSync = None, tk_activeDealsFunc = None, tk_venueStatuses = []\<rparr>"

definition SetActiveDealsFunc :: "(unit \<Rightarrow> int) option \<Rightarrow> SystemStatusTracker \<Rightarrow> SystemStatusTracker" where
  "SetActiveDealsFunc fn tk = tk\<lparr>tk_activeDealsFunc := fn\<rparr>"

definition SetThreeCommasError :: "string \<Rightarrow> SystemStatusTracker \<Rightarrow> SystemStatusTracker" where
  "SetThreeCommasError err tk = tk\<lparr>tk_threeCommasAvailable := False, tk_threeCommasLastError := Some err\<rparr>"

definition ClearThreeCommasError :: "time \<Rightarrow> SystemStatusTracker \<Rightarrow> SystemStatusTracker" where
  "ClearThreeCommasError now tk =
     tk\<lparr>tk_threeCommasAvailable := True, tk_threeCommasLastError := None, tk_threeCommasLastSuccessCall := Some now\<rparr>"

definition SetEngineRunning :: "bool \<Rightarrow> SystemStatusTracker \<Rightarrow> SystemStatusTracker" where
  "SetEngineRunning running tk = tk\<lparr>tk_engineRunning := running\<rparr>"

definition RecordEngineSync :: "time \<Rightarrow> SystemStatusTracker \<Rightarrow> SystemStatusTracker" where
  "RecordEngineSync now tk = tk\<lparr>tk_engineLastSync := Some now\<rparr>"

definition SetVenueStatus ::
  "string \<Rightarrow> string \<Rightarrow> bool \<Rightarrow> string option \<Rightarrow> SystemStatusTracker \<Rightarrow> SystemStatusTracker" where
  "SetVenueStatus venueID wallet isConnected lastError tk =
     tk\<lparr>tk_venueStatuses := AList.update venueID
       \<lparr>vst_VenueID = venueID, vst_Wallet = wallet, vst_Connected = isConnected, vst_LastError = lastError\<rparr> (tk_venueStatuses tk)\<rparr>"

definition SetVenueError :: "string \<Rightarrow> string \<Rightarrow> SystemStatusTracker \<Rightarrow> SystemStatusTracker" where
  "SetVenueError venueID err tk =
     (case map_of (tk_venueStatuses tk) venueID of
        None \<Rightarrow> tk
      | Some st \<Rightarrow> tk\<lparr>tk_venueStatuses :=
          AList.update venueID (st\<lparr>vst_Connected := False, vst_LastError := Some err\<rparr>) (tk_venueStatuses tk)\<rparr>)"

definition ClearVenueError :: "string \<Rightarrow> SystemStatusTracker \<Rightarrow> SystemStatusTracker" where
  "ClearVenueError venueID tk =
     (case map_of (tk_venueStatuses tk) venueID of
        None \<Rightarrow> tk
      | Some st \<Rightarrow> tk\<lparr>tk_venueStatuses :=
          AList.update venueID (st\<lparr>vst_Connected := True, vst_LastError := None\<rparr>) (tk_venueStatuses tk)\<rparr>)"

section \<open>Snapshots\<close>

text \<open>
  The pointer of the snapshot, the status as it is returned and as it is written to the response. \<open>iter\<close> is the
  order in which Go ranges over the map of the venues.
\<close>

datatype bool_ref = threeCommasAvailable_ref

fun deref_available :: "SystemStatusTracker \<Rightarrow> bool_ref \<Rightarrow> bool" where
  "deref_available tk threeCommasAvailable_ref = tk_threeCommasAvailable tk"

record 'b ThreecommasApi =
  ta_Available :: 'b
  ta_LastError :: "string option"
  ta_LastSuccessfulCall :: "time option"

record EngineStatus =
  es_Running :: bool
  es_ActiveDeals :: int
  es_LastSync :: "time option"

record 'b SystemStatus =
  ss_Timestamp :: time
  ss_ThreecommasApi :: "'b ThreecommasApi option"
  ss_HyperliquidVenues :: "VenueStatus list option"
  ss_Engine :: EngineStatus

definition status_Snapshot ::
  "time \<Rightarrow> ((string \<times> VenueStatus) list \<Rightarrow> (string \<times> VenueStatus) list) \<Rightarrow> SystemStatusTracker \<Rightarrow> bool_ref SystemStatus" where
  "status_Snapshot now iter tk =
     \<lparr>ss_Timestamp = now,
      ss_ThreecommasApi =
        (if tk_threeCommasLastError tk \<noteq> None \<or> tk_threeCommasLastSuccessCall tk \<noteq> None
         then Some \<lparr>ta_Available = threeCommasAvailable_ref, ta_LastError = tk_threeCommasLastError tk,
           ta_LastSuccessfulCall = tk_threeCommasLastSuccessCall tk\<rparr>
         else None),
      ss_HyperliquidVenues =
        (if 0 < length (tk_venueStatuses tk) then Some (map snd (iter (tk_venueStatuses tk))) else None),
      ss_Engine = \<lparr>es_Running = tk_engineRunning tk,
        es_ActiveDeals = (case tk_activeDealsFunc tk of None \<Rightarrow> 0 | Some fn \<Rightarrow> fn ()), es_LastSync = tk_engineLastSync tk\<rparr>\<rparr>"

text \<open>\<^verbatim>\<open>GetSystemStatus\<close>, \<open>None\<close> for the response 500.\<close>

definition GetSystemStatus ::
  "time \<Rightarrow> ((string \<times> VenueStatus) list \<Rightarrow> (string \<times> VenueStatus) list) \<Rightarrow> SystemStatusTracker option \<Rightarrow>
   bool_ref SystemStatus option" where
  "GetSystemStatus now iter systemStatus = map_option (status_Snapshot now iter) systemStatus"

text \<open>The response is encoded after the handler has returned.\<close>

definition encode_status :: "SystemStatusTracker \<Rightarrow> bool_ref SystemStatus \<Rightarrow> bool SystemStatus" where
  "encode_status tk st =
     \<lparr>ss_Timestamp = ss_Timestamp st,
      ss_ThreecommasApi = map_option (\<lambda>t. \<lparr>ta_Available = deref_available tk (ta_Available t), ta_LastError = ta_LastError t,
        ta_LastSuccessfulCall = ta_LastSuccessfulCall t\<rparr>) (ss_ThreecommasApi st),
      ss_HyperliquidVenues = ss_HyperliquidVenues st, ss_Engine = ss_Engine st\<rparr>"

section \<open>The application\<close>

text \<open>
  \<^verbatim>\<open>ProduceActiveDealsOnce\<close> with what \<^verbatim>\<open>Engine.ProduceActiveDeals\<close> returned, \<open>None\<close> for success.
\<close>

record status_app =
  sa_stream :: SystemStreamController
  sa_tracker :: SystemStatusTracker

definition ProduceActiveDealsOnce :: "time \<Rightarrow> string option \<Rightarrow> status_app \<Rightarrow> status_app" where
  "ProduceActiveDealsOnce now err a =
     (case err of
        Some e \<Rightarrow>
          let a = a\<lparr>sa_stream := system_Publish now
            \<lparr>sv_Level = SystemEventError, sv_Timestamp = now, sv_Source = ''3commas'', sv_Message = e, sv_Details = None\<rparr> (sa_stream a)\<rparr>
          in a\<lparr>sa_tracker := SetThreeCommasError e (sa_tracker a)\<rparr>
      | None \<Rightarrow> a\<lparr>sa_tracker := ClearThreeCommasError now (sa_tracker a)\<rparr>)"

text \<open>
  The running application: production cycles, requests that have their snapshot, and responses that have been
  written. A request may be answered at any time after it has been handled.
\<close>

record status_system =
  sy_app :: status_app
  sy_pending :: "bool_ref SystemStatus list"
  sy_responses :: "bool SystemStatus list"

inductive status_step :: "status_system \<Rightarrow> status_system \<Rightarrow> bool" where
  produce: "status_step s (s\<lparr>sy_app := ProduceActiveDealsOnce now err (sy_app s)\<rparr>)"
| request: "GetSystemStatus now iter (Some (sa_tracker (sy_app s))) = Some st \<Longrightarrow>
    status_step s (s\<lparr>sy_pending := sy_pending s @ [st]\<rparr>)"
| respond: "sy_pending s = as @ st # bs \<Longrightarrow>
    status_step s (s\<lparr>sy_pending := as @ bs, sy_responses := sy_responses s @ [encode_status (sa_tracker (sy_app s)) st]\<rparr>)"

inductive_cases status_stepE: "status_step s t"

definition status_start :: "SystemStreamController \<Rightarrow> status_system" where
  "status_start c = \<lparr>sy_app = \<lparr>sa_stream = c, sa_tracker = NewSystemStatusTracker\<rparr>, sy_pending = [], sy_responses = []\<rparr>"

section \<open>What the report says\<close>

text \<open>The tracker is consistent: the service is available exactly when it has no error.\<close>

definition tracker_ok :: "SystemStatusTracker \<Rightarrow> bool" where
  "tracker_ok tk \<longleftrightarrow> (tk_threeCommasAvailable tk \<longleftrightarrow> tk_threeCommasLastError tk = None)"

lemma tracker_ops_ok:
  "tracker_ok NewSystemStatusTracker"
  "tracker_ok (SetThreeCommasError e tk)" "tracker_ok (ClearThreeCommasError now tk)"
  "tracker_ok tk \<Longrightarrow> tracker_ok (SetActiveDealsFunc fn tk)" "tracker_ok tk \<Longrightarrow> tracker_ok (SetEngineRunning r tk)"
  "tracker_ok tk \<Longrightarrow> tracker_ok (RecordEngineSync now tk)" "tracker_ok tk \<Longrightarrow> tracker_ok (SetVenueStatus v wa c le tk)"
  "tracker_ok tk \<Longrightarrow> tracker_ok (SetVenueError v e tk)" "tracker_ok tk \<Longrightarrow> tracker_ok (ClearVenueError v tk)"
  by (simp_all add: tracker_ok_def NewSystemStatusTracker_def SetThreeCommasError_def ClearThreeCommasError_def
      SetActiveDealsFunc_def SetEngineRunning_def RecordEngineSync_def SetVenueStatus_def SetVenueError_def ClearVenueError_def
      split: option.split)

text \<open>What a report says of the engine and the venues when no one has told the tracker about them.\<close>

definition idle_tracker :: "SystemStatusTracker \<Rightarrow> bool" where
  "idle_tracker tk \<longleftrightarrow> \<not> tk_engineRunning tk \<and> tk_engineLastSync tk = None \<and> tk_activeDealsFunc tk = None \<and> tk_venueStatuses tk = []"

definition idle_report :: "'b SystemStatus \<Rightarrow> bool" where
  "idle_report st \<longleftrightarrow> ss_Engine st = \<lparr>es_Running = False, es_ActiveDeals = 0, es_LastSync = None\<rparr> \<and> ss_HyperliquidVenues st = None"

definition status_inv :: "status_system \<Rightarrow> bool" where
  "status_inv s \<longleftrightarrow> tracker_ok (sa_tracker (sy_app s)) \<and> idle_tracker (sa_tracker (sy_app s)) \<and>
     list_all idle_report (sy_pending s) \<and> list_all idle_report (sy_responses s)"

lemma idle_status_Snapshot: "idle_tracker tk \<Longrightarrow> idle_report (status_Snapshot now iter tk)"
  by (simp add: idle_tracker_def idle_report_def status_Snapshot_def)

lemma idle_encode: "idle_report (encode_status tk st) \<longleftrightarrow> idle_report st"
  by (simp add: idle_report_def encode_status_def)

lemma ProduceActiveDealsOnce_tracker:
  assumes "idle_tracker (sa_tracker a)"
  shows "tracker_ok (sa_tracker (ProduceActiveDealsOnce now err a))" "idle_tracker (sa_tracker (ProduceActiveDealsOnce now err a))"
  using assms
  by (auto simp: ProduceActiveDealsOnce_def tracker_ops_ok Let_def idle_tracker_def SetThreeCommasError_def ClearThreeCommasError_def
      tracker_ok_def split: option.split)

interpretation status_sys: invariant_system "\<lambda>s. \<exists>c. s = status_start c" status_step status_inv
proof unfold_locales
  fix s assume "\<exists>c. s = status_start c"
  then show "status_inv s"
    by (auto simp: status_inv_def status_start_def tracker_ops_ok) (simp add: idle_tracker_def NewSystemStatusTracker_def)
next
  fix s t assume "status_step s t" "status_inv s"
  then show "status_inv t"
    by (induction rule: status_step.induct)
      (auto simp: status_inv_def ProduceActiveDealsOnce_tracker GetSystemStatus_def idle_status_Snapshot idle_encode)
qed

text \<open>A production cycle that works, a request, a cycle that fails, and then the response.\<close>

definition torn_run :: "SystemStreamController \<Rightarrow> status_system" where
  "torn_run c =
     (let a = ProduceActiveDealsOnce 1 None (sy_app (status_start c));
          st = status_Snapshot 2 id (sa_tracker a);
          a = ProduceActiveDealsOnce 3 (Some ''timeout'') a
      in \<lparr>sy_app = a, sy_pending = [], sy_responses = [encode_status (sa_tracker a) st]\<rparr>)"

lemma torn_run_reachable: "status_step\<^sup>*\<^sup>* (status_start c) (torn_run c)"
proof -
  let ?s0 = "status_start c"
  let ?s1 = "?s0\<lparr>sy_app := ProduceActiveDealsOnce 1 None (sy_app ?s0)\<rparr>"
  let ?st = "status_Snapshot 2 id (sa_tracker (sy_app ?s1))"
  let ?s2 = "?s1\<lparr>sy_pending := sy_pending ?s1 @ [?st]\<rparr>"
  let ?s3 = "?s2\<lparr>sy_app := ProduceActiveDealsOnce 3 (Some ''timeout'') (sy_app ?s2)\<rparr>"
  let ?s4 = "?s3\<lparr>sy_pending := [] @ [], sy_responses := sy_responses ?s3 @ [encode_status (sa_tracker (sy_app ?s3)) ?st]\<rparr>"
  have "status_step ?s0 ?s1" by (rule status_step.produce)
  moreover have "status_step ?s1 ?s2" by (rule status_step.request [of 2 id]) (simp add: GetSystemStatus_def)
  moreover have "status_step ?s2 ?s3" by (rule status_step.produce)
  moreover have "status_step ?s3 ?s4" by (rule status_step.respond) (simp add: status_start_def)
  ultimately have "status_step\<^sup>*\<^sup>* ?s0 ?s4"
    by (meson converse_rtranclp_into_rtranclp rtranclp.rtrancl_refl)
  moreover have "?s4 = torn_run c" by (simp add: torn_run_def Let_def status_start_def)
  ultimately show ?thesis by simp
qed

text \<open>
  C40: Whatever the application does, every response of the status endpoint reports an engine that does not run, no active deals, no
  sync and no venues: nothing but the production cycle feeds the tracker, and it reports on 3Commas only. A report written before the
  next production cycle says that 3Commas is available exactly when it has no error to show.\<close>

theorem status_report_idle:
  assumes "status_step\<^sup>*\<^sup>* (status_start c) s"
  shows "list_all (\<lambda>r. ss_Engine r = \<lparr>es_Running = False, es_ActiveDeals = 0, es_LastSync = None\<rparr> \<and> ss_HyperliquidVenues r = None)
      (sy_responses s) \<and>
    (\<forall>now iter t. ss_ThreecommasApi (encode_status (sa_tracker (sy_app s)) (status_Snapshot now iter (sa_tracker (sy_app s)))) = Some t \<longrightarrow>
      (ta_Available t \<longleftrightarrow> ta_LastError t = None))"
proof -
  have "status_inv s" using status_sys.inv_reachable [OF _ assms] by blast
  then show ?thesis
    by (auto simp: status_inv_def idle_report_def [abs_def] encode_status_def status_Snapshot_def tracker_ok_def)
qed

theorem status_report_idle_witness:
  "list_all (\<lambda>r. ss_Engine r = \<lparr>es_Running = False, es_ActiveDeals = 0, es_LastSync = None\<rparr>)
     (sy_responses (torn_run (NewSystemStreamController SystemEventInfo))) \<and>
   length (sy_responses (torn_run (NewSystemStreamController SystemEventInfo))) = 1"
  using status_report_idle [OF torn_run_reachable, of "NewSystemStreamController SystemEventInfo"]
  by (auto simp: torn_run_def Let_def)

text \<open>
  A response can contradict itself: a request is handled after a cycle that worked, the next cycle fails, and the
  response then says that 3Commas is not available and that there is no error.\<close>

theorem status_report_torn:
  "\<exists>s r t. status_step\<^sup>*\<^sup>* (status_start c) s \<and> r \<in> set (sy_responses s) \<and> ss_ThreecommasApi r = Some t \<and>
     \<not> ta_Available t \<and> ta_LastError t = None"
proof -
  obtain r t where "r \<in> set (sy_responses (torn_run c))" "ss_ThreecommasApi r = Some t" "\<not> ta_Available t" "ta_LastError t = None"
    by (simp add: torn_run_def encode_status_def status_Snapshot_def ProduceActiveDealsOnce_def SetThreeCommasError_def
        ClearThreeCommasError_def Let_def)
  then show ?thesis using torn_run_reachable by blast
qed

end
