(* ===== verification/Spec2Isabelle.thy ===== *)
theory Spec2Isabelle
  imports Limiter Vault Fill_Reconcile Emitter Engine_Props Listing_Props Http_Orders Http_Locks
    Workers Price_Feed Startup Order_Updates System_Status
begin

text \<open>
  A verification library for recomma, the service that mirrors the orders of 3Commas bots on the
  Hyperliquid exchange.

  \<^bold>\<open>The program and its parts.\<close> The engine polls 3Commas for deals through a rate-limited client
  (\<^verbatim>\<open>ratelimit/client.go\<close> over \<^verbatim>\<open>ratelimit/limiter.go\<close>). Each bot event gets a client order id
  (\<^verbatim>\<open>orderid/orderid.go\<close>); the adapter (\<^verbatim>\<open>adapter/adapter.go\<close>) compares an event with the
  previous one and decides on a create, modify or cancel. The resulting work item
  (\<^verbatim>\<open>recomma/recomma.go\<close>) goes through the queue emitter to the Hyperliquid emitter
  (\<^verbatim>\<open>emitter/emitter.go\<close>), which paces its requests (\<^verbatim>\<open>emitter/rate_gate.go\<close>), rounds prices to
  what the venue accepts (\<^verbatim>\<open>hl/constraints.go\<close>), retries immediate-or-cancel orders and records
  what was sent. The fill tracker (\<^verbatim>\<open>filltracker/service.go\<close>) follows the order states, keeps the
  position of each deal and adjusts the take profits. The vault (\<^verbatim>\<open>internal/vault\<close>) holds the
  secrets the other parts wait for. Events, submissions, statuses, deals, venues, multipliers and
  audits are kept in SQLite (\<^verbatim>\<open>storage\<close>, with the generated queries in \<^verbatim>\<open>storage/sqlcgen\<close>); the
  engine (\<^verbatim>\<open>engine/engine.go\<close>) ties the parts together, and the order scaler
  (\<^verbatim>\<open>engine/orderscaler\<close>) sizes orders before they are emitted. A websocket per venue
  (\<^verbatim>\<open>hl/ws\<close>) brings order updates and prices, and the status refresher asks for the statuses that
  were missed. The HTTP API (\<^verbatim>\<open>internal/api\<close>) unseals the vault after a WebAuthn ceremony, serves
  listings, multipliers, venues and manual cancels, and streams events to browsers. The application
  (\<^verbatim>\<open>cmd/recomma\<close>) sets up the venues once the vault is unsealed and runs the workers of the queues.

  \<^bold>\<open>The theories.\<close>
  \<^item> \<open>Prelude\<close>: wrapping integers, instants, package \<^verbatim>\<open>strings\<close>, Go maps as association lists,
    and the interfaces shared by several components: \<open>codec\<close> and \<open>exact_codec\<close> for encoders,
    \<open>invariant_system\<close> for state machines.
  \<^item> \<open>Float64\<close>: IEEE binary64 over the rationals with infinities and NaN (zeros are not signed),
    correctly rounded operations and package \<^verbatim>\<open>math\<close>; the interface \<open>rounding\<close> with two instances.
    \<open>Strconv\<close>: decimal \<^verbatim>\<open>ParseFloat\<close>.
  \<^item> \<open>Order_Id\<close>: \<open>AsHex\<close>, \<open>Hex\<close>, \<open>FromHex\<close>, \<open>FromHexString\<close>. Round trip, exactness and totality
    of the decoder, including that no slice access fails.
  \<^item> \<open>Recomma_Types\<close>: the SDK structs with the fields in use, identifiers, actions, work items
    and plan tiers (\<^verbatim>\<open>recomma/threecommas_plan.go\<close>).
  \<^item> \<open>Adapter\<close>: the request builders and \<open>BuildAction\<close>; its transition table and idempotence.
  \<^item> \<open>Limiter\<close>: the limiter as a record with its window, reservations and wait queue; one
    definition per method, each atomic under the mutex, and a step relation for their
    interleavings. No window exceeds its limit as long as \<^verbatim>\<open>Extend\<close> is not used beside another
    holder; the queue is first in, first out; three theorems exhibit defects.
  \<^item> \<open>Rate_Gate\<close>: one round of \<^verbatim>\<open>Wait\<close>, the loop, \<^verbatim>\<open>Cooldown\<close>; spacing in all interleavings.
  \<^item> \<open>Vault\<close>: payload decoding after the JSON parser, validation, and the controller as a state
    machine with its ready channels; secrets exist exactly while unsealed.
  \<^item> \<open>Constraints\<close>: size and price rounding, the cache of decimals, query results, book updates.
  \<^item> \<open>Fill_Tracker\<close>: order and deal states, every method that changes them, rebuilding from the
    store, clean-up. The order objects shared by the two maps of the service live in one map; a deal
    lists the identifiers of its orders, and the invariant \<open>svc_ok\<close> ties the two together.
    \<open>Fill_Reconcile\<close>: what reconciliation emits, on top of it.
  \<^item> \<open>Emitter\<close>: the queue, and the Hyperliquid emitter as a function on traces of calls. The
    locale \<open>trace_contract\<close> proves once what every run of \<^verbatim>\<open>Emit\<close> keeps; it is interpreted for
    pacing, for the ledger of recorded requests and for the growth of the trace.
  \<^item> \<open>Sql_Table\<close>: a table as the list of its rows, with the statements the queries are made of and
    their laws. \<open>Database\<close>: the rows of \<^verbatim>\<open>sqlcgen/models.go\<close> and one function per query of
    \<^verbatim>\<open>sqlcgen/queries.sql.go\<close>, conflicts and check constraints included. \<open>Storage\<close>,
    \<open>Scaler_Store\<close>, \<open>Storage_Api\<close>: the methods of \<^verbatim>\<open>storage.go\<close>, \<^verbatim>\<open>order_scalers.go\<close>,
    \<^verbatim>\<open>vault.go\<close> and the venue part of \<^verbatim>\<open>api.go\<close> over these queries, with the stream events they
    publish. Stored JSON is an abstract document or unreadable text.
  \<^item> \<open>Storage_Laws\<close>: the invariant \<open>storage_ok\<close>, kept by every method, and the step relation
    \<open>storage_step\<close> of all of them. \<open>Storage_Props\<close>: reads never fail to decode, the
    submissions refine a map from identifiers to actions, moving the default wallet renames
    rows, statuses and audits can be read back, and what a restart keeps.
  \<^item> \<open>Order_Scaler\<close>: \<open>Scale\<close> on every branch, and that the backtracking over stacks of lots is the
    exhaustive search for the first cheapest one.
  \<^item> \<open>Engine\<close>: from listed bots to emitted work, composed of the storage, the adapter, the tracker,
    the scaler and the limiter. \<open>Engine_Props\<close>: which work is emitted and why, that processing is
    idempotent, the watermark of a bot, the return of the reservation; and three defects.
  \<^item> \<open>Listing\<close>: cursors and the paginated listings of \<^verbatim>\<open>storage/api.go\<close> with the log of an order.
    \<open>Listing_Props\<close>: page tokens decode to what they encode; the locale \<open>keyset_pages\<close>, interpreted
    for bots, deals and orders, gives what a client that follows the tokens sees, and what it misses.
  \<^item> \<open>Event_Stream\<close> and \<open>System_Stream\<close>: the two publishers of \<^verbatim>\<open>internal/api\<close> over buffered
    channels, whose sends and closes can panic, in all interleavings with their subscribers.
  \<^item> \<open>Http_Vault\<close>, \<open>Web_Authn\<close>: the session manager, the handlers of the vault and the WebAuthn
    ceremonies. \<open>Http_Api\<close>, \<open>Http_Session\<close>: the other handlers, over the storage, the order queue
    and the session, and the guards in front of them. \<open>Order_View\<close>: rows and stream events as API records.
    \<open>Http_Props\<close>: an arbitrary sequence of requests is a step relation \<open>api_step\<close>, in which a request is one
    step; guarded handlers refuse, expired tokens seal the vault, a ceremony counts once. \<open>Http_Locks\<close>: requests
    that overlap, their calls of the vault and the session manager being the steps of \<open>lock_step\<close>; every step of
    \<open>api_step\<close> is a run of them, and what is left of the rule that secrets need a session, with the race that
    breaks it. \<open>Http_Orders\<close>: what a manual cancel reaches and what the order listing shows.
  \<^item> \<open>Workers\<close>: what a worker tells its queue after each item; the locale \<open>retry_policy\<close> bounds the
    attempts and is interpreted for deals and for orders.
  \<^item> \<open>Price_Feed\<close>, \<open>Order_Updates\<close>: the two halves of \<^verbatim>\<open>hl/ws/ws.go\<close>. No interleaving of the price
    feed panics; order updates can be read back. \<open>Status_Refresh\<close>: \<^verbatim>\<open>hl/status_refresher.go\<close> with its
    goroutines; what a refresh leaves behind, and that it ends.
  \<^item> \<open>Startup\<close>: \<^verbatim>\<open>initializeHyperliquidVenues\<close> and its helpers; every venue has its emitter, every wallet
    one gate, and which bots get a primary venue. \<open>System_Status\<close>: the health report and what it can say.

  \<^bold>\<open>Correspondence.\<close> Definitions carry the names of the code. A long function is cut into
  consecutive pieces, composed as in the code: \<^verbatim>\<open>Emit\<close> into \<open>Emit_create\<close>, \<open>reconcile_live\<close>,
  \<open>place_order\<close>, \<open>ioc_loop\<close>, \<open>ioc_attempt\<close>, \<open>Emit_cancel\<close>, \<open>Emit_modify\<close>; \<^verbatim>\<open>Reserve\<close> and
  \<^verbatim>\<open>Extend\<close> at the point where they block. A method that changes its receiver returns the new
  receiver; errors are values; the clock is an argument. SDKs, the database, the network and the
  order of map iteration are parameters on which nothing is assumed beyond the stated hypotheses.

  \<^bold>\<open>Bounds and fuel.\<close> The loop that scales a price has fuel 360: the smallest float needs at most
  358 rounds (\<open>scale_up_terminates\<close>). \<open>Wait\<close> takes its fuel as an argument and two rounds suffice
  undisturbed. The pages of bots at start-up take fuel: more than there are bots is enough
  (\<open>startup_assigns_bots\<close>). \<open>retry\<close> follows a work item for a number of attempts that is an argument, and six settle it.
  The other loops are total recursions. The limiter's safety theorem assumes request
  sizes below \<open>max_slots\<close> so that sums do not wrap at 64 bits.

  \<^bold>\<open>Not modelled.\<close> Logging (except the summary of a sent order), metrics and the text of JSON; the
  3Commas and Hyperliquid SDKs, the WebAuthn library and the work queue, whose answers are parameters;
  the generated routing and parameter binding of \<^verbatim>\<open>ops.gen.go\<close>; the goroutines that copy a
  subscribed channel to a response; the check of request origins, which is the URL parser of the
  standard library; configuration and debug mode (a debug start unseals the vault without a session, and the state machines start
  with a vault that is not unsealed); the construction and shutdown of components in \<^verbatim>\<open>app.go\<close>; the one query whose
  generated SQL is not valid. Mutexes appear as the atomicity of the steps; goroutine scheduling as the
  freedom of the step relations. SQLite is taken to execute each statement as its documentation says,
  with foreign keys off, as the program leaves them; its unique indexes are part of the tables. Three effects of floats
  that are no finite numbers are left out: \<^verbatim>\<open>json.Marshal\<close> refuses them, so that recording such a request, status or
  event fails in the code; SQLite stores a NaN as NULL; and \<^verbatim>\<open>math.Pow\<close> is taken to return the power of ten correctly
  rounded. The rate gate is followed for the requests that act on a venue, which are the ones that pass it.
\<close>

end
